(* ===== verification/Prelude.thy ===== *)
theory Prelude
  imports Complex_Main "HOL-Library.AList" "HOL-Library.Sublist"
begin

text \<open>
  Shared vocabulary of the development: the Python string, list and dict operations the
  program uses, written as executable functions, with the lemmas the component theories
  rely on.

  A Python \<^verbatim>\<open>str\<close> is a \<^typ>\<open>string\<close>: each \<^typ>\<open>char\<close> is one code point in the range
  U+0000 to U+00FF, so \<^const>\<open>length\<close> counts code points as \<^verbatim>\<open>len\<close> does, and
  \<^verbatim>\<open>isspace\<close>, \<^verbatim>\<open>lower\<close> and \<^verbatim>\<open>isalnum\<close> are Python's tables on that range.
  A Python \<^verbatim>\<open>dict\<close> is an association list in insertion order: \<^verbatim>\<open>d[k] = v\<close> is
  \<open>AList.update\<close> (an existing key keeps its place), \<^verbatim>\<open>d.get(k)\<close> is \<^const>\<open>map_of\<close>.
  An exception is the left value of a sum.
\<close>

named_theorems str_simps \<open>evaluation of the Python string operations\<close>
named_theorems frame_simps \<open>fields an operation leaves unchanged\<close>

section \<open>Exceptions\<close>

text \<open>The exceptions the modelled code can raise; the text of a message is kept where the
  program itself reads it.\<close>

datatype exn =
    ProtocolError string string
  | JSONDecodeError string
  | ValueError string
  | TypeError
  | OverflowError
  | KeyError
  | AttributeError
  | AssertionError
  | RuntimeError string
  | DatabaseError string \<comment> \<open>a \<^verbatim>\<open>sqlite3.Error\<close>, with the name of its class\<close>
  | NonLatin1 \<comment> \<open>a JSON escape names a code point above U+00FF, outside this model\<close>
  | IllTyped \<comment> \<open>an unchecked field of a stored document has not the declared type, outside this model\<close>

type_synonym 'a result = "exn + 'a"

fun bind_res :: "'e + 'a \<Rightarrow> ('a \<Rightarrow> 'e + 'b) \<Rightarrow> 'e + 'b" where
  "bind_res (Inl e) f = Inl e"
| "bind_res (Inr x) f = f x"

lemma bind_res_eq_Inr [simp]: "bind_res m f = Inr y \<longleftrightarrow> (\<exists>x. m = Inr x \<and> f x = Inr y)"
  by (cases m) auto

lemma bind_res_eq_Inl: "bind_res m f = Inl e \<longleftrightarrow> m = Inl e \<or> (\<exists>x. m = Inr x \<and> f x = Inl e)"
  by (cases m) auto

text \<open>A comprehension that stops at the first exception.\<close>

fun mapM_res :: "('a \<Rightarrow> 'e + 'b) \<Rightarrow> 'a list \<Rightarrow> 'e + 'b list" where
  "mapM_res f [] = Inr []"
| "mapM_res f (x # xs) =
     bind_res (f x) (\<lambda>y. bind_res (mapM_res f xs) (\<lambda>ys. Inr (y # ys)))"

lemma mapM_res_eq_Inr: "mapM_res f xs = Inr ys \<longleftrightarrow> list_all2 (\<lambda>x y. f x = Inr y) xs ys"
  by (induction xs arbitrary: ys) (auto simp: list_all2_Cons1)

lemma mapM_res_length: "mapM_res f xs = Inr ys \<Longrightarrow> length ys = length xs"
  by (simp add: mapM_res_eq_Inr list_all2_lengthD)

lemma mapM_res_all: "mapM_res f xs = Inr ys \<Longrightarrow> y \<in> set ys \<Longrightarrow> \<exists>x \<in> set xs. f x = Inr y"
  by (induction xs arbitrary: ys) auto

lemma mapM_res_eq_InlD: "mapM_res f xs = Inl e \<Longrightarrow> \<exists>x \<in> set xs. f x = Inl e"
  by (induction xs) (auto simp: bind_res_eq_Inl)

section \<open>Characters and strings\<close>

abbreviation ord :: "char \<Rightarrow> nat" where "ord c \<equiv> of_char c"
abbreviation nl :: char where "nl \<equiv> CHR 0x0A"
abbreviation dq :: char where "dq \<equiv> CHR 0x22"
abbreviation bsl :: char where "bsl \<equiv> CHR 0x5C"

definition is_space :: "char \<Rightarrow> bool" where
  "is_space c = (let n = ord c in
     (9 \<le> n \<and> n \<le> 13) \<or> (28 \<le> n \<and> n \<le> 32) \<or> n = 133 \<or> n = 160)"

definition lower_char :: "char \<Rightarrow> char" where
  "lower_char c = (let n = ord c in
     if (65 \<le> n \<and> n \<le> 90) \<or> (192 \<le> n \<and> n \<le> 222 \<and> n \<noteq> 215) then char_of (n + 32) else c)"

definition lower :: "string \<Rightarrow> string" where
  "lower s = map lower_char s"

definition is_digit :: "char \<Rightarrow> bool" where
  "is_digit c = (48 \<le> ord c \<and> ord c \<le> 57)"

definition lstrip :: "string \<Rightarrow> string" where
  "lstrip s = dropWhile is_space s"

definition rstrip :: "string \<Rightarrow> string" where
  "rstrip s = rev (dropWhile is_space (rev s))"

definition strip :: "string \<Rightarrow> string" where
  "strip s = rstrip (lstrip s)"

definition strip_char :: "char \<Rightarrow> string \<Rightarrow> string" where
  "strip_char c s = rev (dropWhile (\<lambda>x. x = c) (rev (dropWhile (\<lambda>x. x = c) s)))"

definition replace_char :: "char \<Rightarrow> char \<Rightarrow> string \<Rightarrow> string" where
  "replace_char a b s = map (\<lambda>c. if c = a then b else c) s"

fun startswith :: "string \<Rightarrow> string \<Rightarrow> bool" where
  "startswith s [] = True"
| "startswith [] (p # ps) = False"
| "startswith (c # cs) (p # ps) = (c = p \<and> startswith cs ps)"

fun contains :: "string \<Rightarrow> string \<Rightarrow> bool" where \<comment> \<open>\<^verbatim>\<open>p in s\<close>\<close>
  "contains [] p = (p = [])"
| "contains (c # cs) p = (startswith (c # cs) p \<or> contains cs p)"

fun join :: "string \<Rightarrow> string list \<Rightarrow> string" where
  "join sep [] = []"
| "join sep [x] = x"
| "join sep (x # y # ys) = x @ sep @ join sep (y # ys)"

text \<open>\<^verbatim>\<open>splitlines()\<close>: the line ends of text in Latin-1, with \<^verbatim>\<open>\r\n\<close> as one.\<close>

definition is_line_end :: "char \<Rightarrow> bool" where
  "is_line_end c = (let n = ord c in (10 \<le> n \<and> n \<le> 13) \<or> (28 \<le> n \<and> n \<le> 30) \<or> n = 133)"

fun lines_acc :: "string \<Rightarrow> string \<Rightarrow> string list" where
  "lines_acc acc [] = (if acc = [] then [] else [rev acc])"
| "lines_acc acc [c] = (if is_line_end c then [rev acc] else [rev (c # acc)])"
| "lines_acc acc (c # d # cs) =
     (if c = CHR 0x0D \<and> d = nl then rev acc # lines_acc [] cs
      else if is_line_end c then rev acc # lines_acc [] (d # cs)
      else lines_acc (c # acc) (d # cs))"

definition splitlines :: "string \<Rightarrow> string list" where
  "splitlines s = lines_acc [] s"

lemma startswith_prefix: "startswith s p \<longleftrightarrow> prefix p s"
  by (induction s p rule: startswith.induct) auto

lemma contains_sublist: "contains s p \<longleftrightarrow> sublist p s"
  by (induction s) (auto simp: startswith_prefix sublist_Cons_right)

lemma contains_append: "contains (a @ p @ b) p"
  by (simp add: contains_sublist)

lemma contains_refl [simp]: "contains s s"
  by (simp add: contains_sublist)

lemma lines_acc_no_end:
  "\<forall>c \<in> set acc. \<not> is_line_end c \<Longrightarrow> l \<in> set (lines_acc acc s) \<Longrightarrow> c \<in> set l \<Longrightarrow> \<not> is_line_end c"
  by (induction acc s rule: lines_acc.induct) (auto split: if_splits)

lemma splitlines_no_end: "l \<in> set (splitlines s) \<Longrightarrow> c \<in> set l \<Longrightarrow> \<not> is_line_end c"
  unfolding splitlines_def using lines_acc_no_end [of "[]"] by auto

lemma length_join: "length (join [c] ls) = (\<Sum>l \<leftarrow> ls. length l) + (length ls - 1)"
  by (induction "[c]" ls rule: join.induct) auto

lemma lines_acc_length: "(\<Sum>l \<leftarrow> lines_acc acc s. length l) + (length (lines_acc acc s) - 1) \<le> length acc + length s"
  by (induction acc s rule: lines_acc.induct) auto

lemma length_join_splitlines: "length (join [c] (splitlines s)) \<le> length s"
  using lines_acc_length [of "[]" s] by (simp add: length_join splitlines_def)

subsection \<open>Stripping\<close>

text \<open>A string with no blank at either end is what \<^verbatim>\<open>strip\<close> returns and leaves alone.\<close>

definition stripped :: "string \<Rightarrow> bool" where
  "stripped s = (s = [] \<or> (\<not> is_space (hd s) \<and> \<not> is_space (last s)))"

lemma hd_dropWhile_not: "dropWhile P xs \<noteq> [] \<Longrightarrow> \<not> P (hd (dropWhile P xs))"
  by (induction xs) auto

lemma last_dropWhile: "dropWhile P xs \<noteq> [] \<Longrightarrow> last (dropWhile P xs) = last xs"
  by (induction xs) auto

lemma dropWhile_rev_eq_Nil [simp]: "dropWhile P (rev xs) = [] \<longleftrightarrow> (\<forall>x \<in> set xs. P x)"
  by (auto simp: dropWhile_eq_Nil_conv)

lemma rstrip_Nil [simp]: "rstrip s = [] \<longleftrightarrow> (\<forall>c \<in> set s. is_space c)"
  by (simp add: rstrip_def)

lemma lstrip_Nil [simp]: "lstrip s = [] \<longleftrightarrow> (\<forall>c \<in> set s. is_space c)"
  by (simp add: lstrip_def dropWhile_eq_Nil_conv)

lemma hd_rstrip: "rstrip s \<noteq> [] \<Longrightarrow> hd (rstrip s) = hd s"
  unfolding rstrip_def by (cases "s = []") (simp_all add: hd_rev last_dropWhile last_rev del: dropWhile_rev_eq_Nil)

lemma last_rstrip: "rstrip s \<noteq> [] \<Longrightarrow> \<not> is_space (last (rstrip s))"
  unfolding rstrip_def by (simp only: rev_is_Nil_conv last_rev hd_dropWhile_not not_False_eq_True)

lemma hd_lstrip: "lstrip s \<noteq> [] \<Longrightarrow> \<not> is_space (hd (lstrip s))"
  unfolding lstrip_def by (rule hd_dropWhile_not)

lemma stripped_strip [simp]: "stripped (strip s)"
proof (cases "strip s = []")
  case True
  then show ?thesis by (simp add: stripped_def)
next
  case False
  then have ne: "rstrip (lstrip s) \<noteq> []" by (simp add: strip_def)
  then have "lstrip s \<noteq> []" by (metis rstrip_Nil lstrip_Nil empty_iff list.set(1))
  then have "\<not> is_space (hd (rstrip (lstrip s)))"
    by (simp only: hd_rstrip [OF ne] hd_lstrip not_False_eq_True)
  with ne show ?thesis by (simp add: stripped_def strip_def last_rstrip del: rstrip_Nil)
qed

lemma dropWhile_hd_id: "xs = [] \<or> \<not> P (hd xs) \<Longrightarrow> dropWhile P xs = xs"
  by (cases xs) auto

lemma strip_id: "stripped s \<Longrightarrow> strip s = s"
  by (auto simp: stripped_def strip_def lstrip_def rstrip_def dropWhile_hd_id hd_rev)

lemma strip_idem [simp]: "strip (strip s) = strip s"
  by (rule strip_id) simp

text \<open>\<^verbatim>\<open>not s.strip()\<close>.\<close>

definition blank :: "string \<Rightarrow> bool" where
  "blank s = (strip s = [])"

lemma blank_iff: "blank s \<longleftrightarrow> (\<forall>c \<in> set s. is_space c)"
proof -
  have "(\<forall>c \<in> set (dropWhile is_space s). is_space c) \<longleftrightarrow> dropWhile is_space s = []"
    using hd_dropWhile_not [of is_space s] hd_in_set by (metis empty_iff list.set(1))
  then show ?thesis
    by (simp add: blank_def strip_def lstrip_def dropWhile_eq_Nil_conv)
qed

lemma blank_strip [simp]: "blank (strip s) = blank s"
  by (simp add: blank_def)

section \<open>Dictionaries\<close>

text \<open>The dict contract the components use: what a lookup returns after a store or a
  removal, and that keys stay unique.\<close>

locale py_dict =
  fixes get :: "'d \<Rightarrow> 'k \<Rightarrow> 'v option"
    and put :: "'k \<Rightarrow> 'v \<Rightarrow> 'd \<Rightarrow> 'd"
    and del :: "'k \<Rightarrow> 'd \<Rightarrow> 'd"
    and ok :: "'d \<Rightarrow> bool"
  assumes get_put: "get (put k v d) k' = (if k' = k then Some v else get d k')"
    and get_del: "ok d \<Longrightarrow> get (del k d) k' = (if k' = k then None else get d k')"
    and ok_put: "ok d \<Longrightarrow> ok (put k v d)"
    and ok_del: "ok d \<Longrightarrow> ok (del k d)"
begin

lemma get_put_same: "get (put k v d) k = Some v"
  by (simp add: get_put)

lemma get_put_other: "k' \<noteq> k \<Longrightarrow> get (put k v d) k' = get d k'"
  by (simp add: get_put)

lemma get_put_fold:
  "get (fold (\<lambda>(k, v). put k v) kvs d) k =
     (case map_of (rev kvs) k of Some v \<Rightarrow> Some v | None \<Rightarrow> get d k)"
  by (induction kvs arbitrary: d)
    (auto simp: get_put map_add_def split: option.splits prod.splits)

lemma ok_put_fold: "ok d \<Longrightarrow> ok (fold (\<lambda>(k, v). put k v) kvs d)"
  by (induction kvs arbitrary: d) (auto simp: ok_put)

end

abbreviation distinct_keys :: "('k \<times> 'v) list \<Rightarrow> bool" where
  "distinct_keys d \<equiv> distinct (map fst d)"

interpretation alist_dict: py_dict map_of AList.update AList.delete distinct_keys
proof unfold_locales
  show "map_of (AList.update k v d) k' = (if k' = k then Some v else map_of d k')" for k v d k'
    by (simp add: update_conv')
  show "map_of (AList.delete k d) k' = (if k' = k then None else map_of d k')" for k d k'
    by (simp add: delete_conv')
  show "distinct_keys d \<Longrightarrow> distinct_keys (AList.update k v d)" for k v d
    by (rule distinct_update)
  show "distinct_keys d \<Longrightarrow> distinct_keys (AList.delete k d)" for k d
    by (rule distinct_delete)
qed

lemmas dict_simps [simp] = alist_dict.get_put

section \<open>Decimal numerals\<close>

definition digit_char :: "nat \<Rightarrow> char" where
  "digit_char d = char_of (48 + d)"

definition digit_val :: "char \<Rightarrow> nat" where
  "digit_val c = ord c - 48"

fun str_nat :: "nat \<Rightarrow> string" where
  "str_nat n = (if n < 10 then [digit_char n] else str_nat (n div 10) @ [digit_char (n mod 10)])"

declare str_nat.simps [simp del]

definition str_int :: "int \<Rightarrow> string" where
  "str_int n = (if n < 0 then CHR ''-'' # str_nat (nat (- n)) else str_nat (nat n))"

definition nat_of_digits :: "string \<Rightarrow> nat" where
  "nat_of_digits ds = foldl (\<lambda>n c. 10 * n + digit_val c) 0 ds"

text \<open>The format \<^verbatim>\<open>{n:04d}\<close> of the run's identifiers.\<close>

definition pad4 :: "nat \<Rightarrow> string" where
  "pad4 n = (let s = str_nat n in replicate (4 - length s) (CHR ''0'') @ s)"

lemma is_digit_digit_char [simp]: "d < 10 \<Longrightarrow> is_digit (digit_char d)"
  by (simp add: is_digit_def digit_char_def)

lemma digit_val_digit_char [simp]: "d < 10 \<Longrightarrow> digit_val (digit_char d) = d"
  by (simp add: digit_val_def digit_char_def)

lemma str_nat_digits: "\<forall>c \<in> set (str_nat n). is_digit c"
  by (induction n rule: str_nat.induct) (subst str_nat.simps, auto)

lemma str_nat_ne [simp]: "str_nat n \<noteq> []"
  by (subst str_nat.simps) simp

lemma nat_of_digits_append: "nat_of_digits (ds @ [c]) = 10 * nat_of_digits ds + digit_val c"
  by (simp add: nat_of_digits_def)

lemma nat_of_digits_str_nat [simp]: "nat_of_digits (str_nat n) = n"
proof (induction n rule: str_nat.induct)
  case (1 n)
  show ?case
  proof (cases "n < 10")
    case True
    then show ?thesis by (simp add: str_nat.simps [of n] nat_of_digits_def)
  next
    case False
    with 1 show ?thesis by (simp add: str_nat.simps [of n] nat_of_digits_append)
  qed
qed

lemma str_nat_inj [simp]: "str_nat m = str_nat n \<longleftrightarrow> m = n"
  by (metis nat_of_digits_str_nat)

lemma digit_char_0: "digit_char 0 = CHR ''0''"
  by code_simp

lemma digit_char_eq_0: "d < 10 \<Longrightarrow> digit_char d = CHR ''0'' \<longleftrightarrow> d = 0"
  by (metis digit_val_digit_char digit_char_0 zero_less_numeral)

lemma hd_str_nat: "0 < n \<Longrightarrow> hd (str_nat n) \<noteq> CHR ''0''"
proof (induction n rule: str_nat.induct)
  case (1 n)
  show ?case
  proof (cases "n < 10")
    case True
    with 1(2) show ?thesis by (simp add: str_nat.simps [of n] digit_char_eq_0)
  next
    case False
    with 1 show ?thesis by (simp add: str_nat.simps [of n])
  qed
qed

lemma str_nat_0 [simp]: "str_nat 0 = ''0''"
  by (simp add: str_nat.simps [of 0] digit_char_0)

lemma pad4_inj [simp]: "pad4 m = pad4 n \<longleftrightarrow> m = n"
proof
  have z: "nat_of_digits (replicate k (CHR ''0'') @ ds) = nat_of_digits ds" for k ds
  proof -
    have "foldl (\<lambda>n c. 10 * n + digit_val c) 0 (replicate k (CHR ''0'')) = 0"
      by (induction k) (simp_all add: digit_val_def)
    then show ?thesis by (simp add: nat_of_digits_def)
  qed
  assume "pad4 m = pad4 n"
  then have "nat_of_digits (pad4 m) = nat_of_digits (pad4 n)" by simp
  then show "m = n" by (simp add: pad4_def Let_def z)
qed simp

end
