(* ===== verification/PyFloat.thy ===== *)
theory PyFloat
  imports Prelude
begin

text \<open>
  Python floats: IEEE 754 binary64 with round to nearest, ties to even. A finite float is
  the rational it denotes (the two zeros are one value), and each operation is the exact
  rational operation followed by \<open>f64\<close>. The theory shows that rounding is monotone and
  leaves every representable value alone, which is what the bounds on computed delays and
  budgets rest on.
\<close>

datatype pyfloat = Fin rat | PInf | NInf | NaN

section \<open>Rounding\<close>

fun bit_length :: "nat \<Rightarrow> nat" where
  "bit_length n = (if n = 0 then 0 else Suc (bit_length (n div 2)))"

declare bit_length.simps [simp del]

definition pow2 :: "int \<Rightarrow> rat" where
  "pow2 e = (if 0 \<le> e then 2 ^ nat e else 1 / 2 ^ nat (- e))"

definition flog2 :: "rat \<Rightarrow> int" where
  "flog2 x = (case quotient_of x of (n, d) \<Rightarrow>
     let k = int (bit_length (nat n)) - int (bit_length (nat d))
     in if pow2 k \<le> x then k else k - 1)"

text \<open>\<^verbatim>\<open>round(x)\<close>: to the nearest integer, ties to even.\<close>

definition round_half_even :: "rat \<Rightarrow> int" where
  "round_half_even x = (let f = \<lfloor>x\<rfloor>; r = x - of_int f in
     if r < 1 / 2 then f else if 1 / 2 < r then f + 1 else if even f then f else f + 1)"

definition ulp_exp :: "rat \<Rightarrow> int" where
  "ulp_exp x = max (flog2 x - 52) (- 1074)"

definition round_pos :: "rat \<Rightarrow> rat" where
  "round_pos x = (let e = ulp_exp x in of_int (round_half_even (x / pow2 e)) * pow2 e)"

definition f64 :: "rat \<Rightarrow> pyfloat" where
  "f64 x =
     (if x = 0 then Fin 0
      else let y = round_pos \<bar>x\<bar> in
        if y < pow2 1024 then Fin (if 0 < x then y else - y)
        else if 0 < x then PInf else NInf)"

definition float_of_int :: "int \<Rightarrow> pyfloat result" where
  "float_of_int n = (case f64 (of_int n) of Fin q \<Rightarrow> Inr (Fin q) | _ \<Rightarrow> Inl OverflowError)"

text \<open>\<^verbatim>\<open>int(x)\<close> on a float truncates; infinities and NaN raise.\<close>

definition trunc_rat :: "rat \<Rightarrow> int" where
  "trunc_rat q = (if 0 \<le> q then \<lfloor>q\<rfloor> else \<lceil>q\<rceil>)"

fun int_of_float :: "pyfloat \<Rightarrow> int result" where
  "int_of_float (Fin q) = Inr (trunc_rat q)"
| "int_of_float NaN = Inl (ValueError ''cannot convert float NaN to integer'')"
| "int_of_float PInf = Inl OverflowError"
| "int_of_float NInf = Inl OverflowError"

section \<open>Properties of rounding\<close>

lemma pow2_pos [simp]: "0 < pow2 e"
  by (simp add: pow2_def)

lemma pow2_nz [simp]: "pow2 e \<noteq> 0" and pow2_not_neg [simp]: "\<not> pow2 e < 0"
  using pow2_pos [of e] by linarith+

lemma pow2_0 [simp]: "pow2 0 = 1" and pow2_1 [simp]: "pow2 1 = 2"
  by (simp_all add: pow2_def)

lemma pow2_Suc: "pow2 (e + 1) = 2 * pow2 e"
proof (cases "0 \<le> e")
  case True
  then show ?thesis by (simp add: pow2_def nat_add_distrib)
next
  case False
  then obtain n where e: "e = - int (Suc n)" by (metis not_le zero_less_imp_eq_int neg_less_0_iff_less minus_minus Suc_pred' nat_less_le of_nat_0_less_iff)
  then have "nat (- e) = Suc n" "nat (- (e + 1)) = n" by auto
  with e False show ?thesis by (cases n) (auto simp: pow2_def field_simps)
qed

lemma pow2_add: "pow2 (a + b) = pow2 a * pow2 b"
proof (induction b rule: int_induct [where k = 0])
  case base
  then show ?case by simp
next
  case (step1 i)
  then show ?case using pow2_Suc [of "a + i"] pow2_Suc [of i] by (simp add: add.assoc)
next
  case (step2 i)
  then show ?case using pow2_Suc [of "a + (i - 1)"] pow2_Suc [of "i - 1"] by (simp add: add.assoc)
qed

lemma pow2_nat: "pow2 (int n) = 2 ^ n"
  by (simp add: pow2_def)

lemma pow2_mono: "a \<le> b \<Longrightarrow> pow2 a \<le> pow2 b"
proof -
  assume "a \<le> b"
  then have "b = a + int (nat (b - a))" by simp
  then have "pow2 b = pow2 a * 2 ^ nat (b - a)" by (metis pow2_add pow2_nat)
  moreover have "(1::rat) \<le> 2 ^ nat (b - a)" by simp
  ultimately show ?thesis by (metis mult.right_neutral mult_le_cancel_left_pos pow2_pos)
qed

lemma bit_length_bounds: "0 < n \<Longrightarrow> 2 ^ (bit_length n - 1) \<le> n \<and> n < 2 ^ bit_length n \<and> 0 < bit_length n"
proof (induction n rule: bit_length.induct)
  case (1 n)
  show ?case
  proof (cases "n div 2 = 0")
    case True
    with 1(2) have "n = 1" by linarith
    then show ?thesis by (simp add: bit_length.simps [of "Suc 0"] bit_length.simps [of 0])
  next
    case False
    with 1 have IH: "2 ^ (bit_length (n div 2) - 1) \<le> n div 2" "n div 2 < 2 ^ bit_length (n div 2)"
      "0 < bit_length (n div 2)" by auto
    have b: "bit_length n = Suc (bit_length (n div 2))" using 1(2) by (simp add: bit_length.simps [of n])
    have "2 ^ bit_length (n div 2) = 2 * (2::nat) ^ (bit_length (n div 2) - 1)"
      using IH(3) by (metis Suc_diff_1 power_Suc)
    with IH have "2 ^ bit_length (n div 2) \<le> n" by linarith
    moreover have "n < 2 * 2 ^ bit_length (n div 2)" using IH(2) by linarith
    ultimately show ?thesis using b by simp
  qed
qed

lemma pow2_le_of_int: "0 < n \<Longrightarrow> 2 ^ a \<le> nat n \<Longrightarrow> pow2 (int a) \<le> of_int n"
proof -
  assume "0 < n" and le: "2 ^ a \<le> nat n"
  then have "(2::int) ^ a \<le> n" by (metis int_nat_eq nat_le_iff of_nat_le_iff of_nat_numeral of_nat_power less_imp_le)
  then have "of_int (2 ^ a) \<le> (of_int n :: rat)" by (simp only: of_int_le_iff)
  then show ?thesis by (simp add: pow2_nat)
qed

lemma of_int_less_pow2: "0 < n \<Longrightarrow> nat n < 2 ^ a \<Longrightarrow> of_int n < pow2 (int a)"
proof -
  assume "0 < n" and le: "nat n < 2 ^ a"
  then have "n < (2::int) ^ a" by (metis nat_less_iff of_nat_numeral of_nat_power less_imp_le)
  then have "of_int n < (of_int (2 ^ a) :: rat)" by (simp only: of_int_less_iff)
  then show ?thesis by (simp add: pow2_nat)
qed

lemma flog2_bounds:
  assumes "0 < x"
  shows "pow2 (flog2 x) \<le> x \<and> x < pow2 (flog2 x + 1)"
proof -
  obtain n d where q: "quotient_of x = (n, d)" by (cases "quotient_of x")
  then have d: "0 < d" and x: "x = of_int n / of_int d"
    by (auto dest: quotient_of_denom_pos quotient_of_div)
  with assms have n: "0 < n" by (simp add: zero_less_divide_iff)
  define a b where "a = bit_length (nat n)" and "b = bit_length (nat d)"
  have bn: "2 ^ (a - 1) \<le> nat n" "nat n < 2 ^ a" "0 < a" and bd: "2 ^ (b - 1) \<le> nat d" "nat d < 2 ^ b" "0 < b"
    using bit_length_bounds [of "nat n"] bit_length_bounds [of "nat d"] n d by (auto simp: a_def b_def)
  have ra: "pow2 (int a - 1) \<le> of_int n" and rA: "of_int n < pow2 (int a)"
    and rb: "pow2 (int b - 1) \<le> of_int d" and rB: "of_int d < pow2 (int b)"
  proof -
    have "int a - 1 = int (a - 1)" "int b - 1 = int (b - 1)" using bn(3) bd(3) by auto
    then show "pow2 (int a - 1) \<le> of_int n" "pow2 (int b - 1) \<le> of_int d"
      using pow2_le_of_int [OF n bn(1)] pow2_le_of_int [OF d bd(1)] by (simp_all only:)
    show "of_int n < pow2 (int a)" "of_int d < pow2 (int b)"
      using of_int_less_pow2 [OF n bn(2)] of_int_less_pow2 [OF d bd(2)] by (simp_all only:)
  qed
  have dpos: "(0::rat) < of_int d" using d by simp
  have up: "x < pow2 (int a - int b + 1)"
  proof -
    have "pow2 (int a) = pow2 (int a - int b + 1) * pow2 (int b - 1)" by (simp flip: pow2_add)
    also have "\<dots> \<le> pow2 (int a - int b + 1) * of_int d" using rb by (simp add: mult_le_cancel_left_pos)
    finally show ?thesis using rA dpos by (simp add: x divide_less_eq)
  qed
  have lo: "pow2 (int a - int b - 1) \<le> x"
  proof -
    have "pow2 (int a - int b - 1) * of_int d \<le> pow2 (int a - int b - 1) * pow2 (int b)"
      using rB by (simp add: mult_le_cancel_left_pos)
    also have "\<dots> = pow2 (int a - 1)" by (simp flip: pow2_add)
    finally show ?thesis using ra dpos by (simp add: x le_divide_eq)
  qed
  show ?thesis
    using up lo by (simp add: flog2_def q Let_def a_def [symmetric] b_def [symmetric])
qed

lemma round_half_even_near: "of_int (round_half_even x) - 1 / 2 \<le> x \<and> x \<le> of_int (round_half_even x) + 1 / 2"
proof -
  have "of_int \<lfloor>x\<rfloor> \<le> x" "x < of_int \<lfloor>x\<rfloor> + 1" using floor_correct [of x] by auto
  then show ?thesis unfolding round_half_even_def Let_def by (simp split: if_split) linarith
qed

lemma round_half_even_int [simp]: "round_half_even (of_int n) = n"
  by (simp add: round_half_even_def)

lemma round_half_even_mono: "x \<le> y \<Longrightarrow> round_half_even x \<le> round_half_even y"
proof (cases "\<lfloor>x\<rfloor> = \<lfloor>y\<rfloor>")
  case True
  moreover assume "x \<le> y"
  ultimately show ?thesis by (auto simp: round_half_even_def Let_def)
next
  case False
  assume "x \<le> y"
  with False have "\<lfloor>x\<rfloor> + 1 \<le> \<lfloor>y\<rfloor>" using floor_mono by (metis add1_zle_eq order_le_neq_trans)
  then show ?thesis by (auto simp: round_half_even_def Let_def split: if_splits)
qed

text \<open>The values a float can hold (zero and the positive ones).\<close>

definition representable :: "rat \<Rightarrow> bool" where
  "representable x \<longleftrightarrow> (\<exists>m e. x = of_int m * pow2 e \<and> 0 \<le> m \<and> m \<le> 2 ^ 53 \<and> - 1074 \<le> e)"

lemma representable_int: "0 \<le> n \<Longrightarrow> n \<le> 2 ^ 53 \<Longrightarrow> representable (of_int n)"
  unfolding representable_def by (rule exI [of _ n], rule exI [of _ 0]) simp

lemma representable_double: "representable x \<Longrightarrow> representable (2 * x)"
proof -
  assume "representable x"
  then obtain m e where x: "x = of_int m * pow2 e" "0 \<le> m" "m \<le> 2 ^ 53" "- 1074 \<le> e"
    unfolding representable_def by blast
  then have "2 * x = of_int m * pow2 (e + 1)" by (simp only: pow2_Suc mult.left_commute)
  moreover have "- 1074 \<le> e + 1" using x(4) by linarith
  ultimately show ?thesis using x(2,3) unfolding representable_def by blast
qed

lemma scaled_int: "e \<le> e' \<Longrightarrow> \<exists>k. of_int m * pow2 e' / pow2 e = of_int k"
proof -
  assume "e \<le> e'"
  then have "e' = int (nat (e' - e)) + e" by simp
  then have "pow2 e' = 2 ^ nat (e' - e) * pow2 e" by (metis pow2_add pow2_nat)
  then have "of_int m * pow2 e' / pow2 e = of_int (m * 2 ^ nat (e' - e))" by simp
  then show ?thesis by blast
qed

text \<open>Below the grid of \<open>x\<close>, a representable value is at most the power of two that starts
  the binade of \<open>x\<close>, and that power is on the grid.\<close>

lemma below_grid:
  assumes "0 < x" and z: "z = of_int m * pow2 e'" "m \<le> 2 ^ 53" "- 1074 \<le> e'" and lt: "e' < ulp_exp x"
  shows "z \<le> pow2 (flog2 x)" and "pow2 (flog2 x) / pow2 (ulp_exp x) = of_int (2 ^ 52)"
proof -
  have e: "flog2 x = 52 + ulp_exp x" using lt z(3) by (auto simp: ulp_exp_def max_def split: if_splits)
  have p53: "pow2 53 = of_int (2 ^ 53)" and p52: "pow2 52 = of_int (2 ^ 52)" by (simp_all add: pow2_def)
  have "z \<le> pow2 53 * pow2 e'" using z(1,2) by (simp only: p53 mult_le_cancel_right of_int_le_iff pow2_not_neg simp_thms)
  also have "\<dots> = pow2 (53 + e')" by (simp add: pow2_add)
  also have "\<dots> \<le> pow2 (flog2 x)" using e lt by (intro pow2_mono) simp
  finally show "z \<le> pow2 (flog2 x)" .
  have "pow2 (flog2 x) = of_int (2 ^ 52) * pow2 (ulp_exp x)" by (simp only: e pow2_add p52)
  then show "pow2 (flog2 x) / pow2 (ulp_exp x) = of_int (2 ^ 52)" by simp
qed

lemma round_pos_on_grid: "z / pow2 (ulp_exp x) = of_int k \<Longrightarrow>
    (x \<le> z \<longrightarrow> round_pos x \<le> z) \<and> (z \<le> x \<longrightarrow> z \<le> round_pos x)"
proof -
  assume k: "z / pow2 (ulp_exp x) = of_int k"
  then have z: "z = of_int k * pow2 (ulp_exp x)" by (simp add: field_simps)
  have "x \<le> z \<Longrightarrow> round_half_even (x / pow2 (ulp_exp x)) \<le> k"
    using round_half_even_mono [of "x / pow2 (ulp_exp x)" "of_int k"] k
    by (metis divide_right_mono less_imp_le pow2_pos round_half_even_int)
  moreover have "z \<le> x \<Longrightarrow> k \<le> round_half_even (x / pow2 (ulp_exp x))"
    using round_half_even_mono [of "of_int k" "x / pow2 (ulp_exp x)"] k
    by (metis divide_right_mono less_imp_le pow2_pos round_half_even_int)
  ultimately show ?thesis by (auto simp: round_pos_def Let_def z mult_le_cancel_right)
qed

lemma round_pos_bounds:
  assumes x: "0 < x" and "representable z"
  shows "x \<le> z \<Longrightarrow> round_pos x \<le> z" and "z \<le> x \<Longrightarrow> z \<le> round_pos x"
proof -
  obtain m e' where z: "z = of_int m * pow2 e'" "m \<le> 2 ^ 53" "- 1074 \<le> e'"
    using assms(2) by (auto simp: representable_def)
  have "(x \<le> z \<longrightarrow> round_pos x \<le> z) \<and> (z \<le> x \<longrightarrow> z \<le> round_pos x)"
  proof (cases "ulp_exp x \<le> e'")
    case True
    then obtain k where "z / pow2 (ulp_exp x) = of_int k" using scaled_int z(1) by blast
    then show ?thesis by (rule round_pos_on_grid)
  next
    case False
    then have lt: "e' < ulp_exp x" by simp
    note g = below_grid [OF x z lt]
    have fl: "pow2 (flog2 x) \<le> x" using flog2_bounds [OF x] by simp
    with round_pos_on_grid [OF g(2)] have "pow2 (flog2 x) \<le> round_pos x" by blast
    moreover have "x \<le> z \<Longrightarrow> z = pow2 (flog2 x)" using fl g(1) by simp
    ultimately show ?thesis using round_pos_on_grid [OF g(2)] g(1) by auto
  qed
  then show "x \<le> z \<Longrightarrow> round_pos x \<le> z" and "z \<le> x \<Longrightarrow> z \<le> round_pos x" by blast+
qed

lemma round_pos_representable: "0 < z \<Longrightarrow> representable z \<Longrightarrow> round_pos z = z"
  using round_pos_bounds by (simp add: order_antisym)

lemma representable_below_max: "representable z \<Longrightarrow> z \<le> of_int (2 ^ 53) \<Longrightarrow> z < pow2 1024"
  by (simp add: pow2_def)

text \<open>The form in which the components use it: a float result lies between two
  representable bounds of the exact one.\<close>

lemma f64_between:
  assumes "0 \<le> x" "x \<le> z" "representable z" "z < pow2 1024"
  obtains q where "f64 x = Fin q" "0 \<le> q" "q \<le> z"
proof (cases "x = 0")
  case True
  with assms that show ?thesis by (simp add: f64_def)
next
  case False
  then have x: "0 < x" using assms by simp
  have "representable 0" using representable_int [of 0] by simp
  then have "0 \<le> round_pos x" "round_pos x \<le> z" using round_pos_bounds [OF x] assms x by auto
  with assms x that show ?thesis by (simp add: f64_def Let_def)
qed

lemma f64_exact: "0 \<le> x \<Longrightarrow> representable x \<Longrightarrow> x < pow2 1024 \<Longrightarrow> f64 x = Fin x"
  by (cases "x = 0") (auto simp: f64_def round_pos_representable)

lemma f64_neg: "f64 (- x) = (case f64 x of Fin q \<Rightarrow> Fin (- q) | PInf \<Rightarrow> NInf | NInf \<Rightarrow> PInf | NaN \<Rightarrow> NaN)"
  by (auto simp: f64_def Let_def)

end
