(* ===== verification/Json.thy ===== *)
theory Json
  imports PyFloat
begin

text \<open>
  The part of Python's \<^verbatim>\<open>json\<close> module the program uses: the values, \<^verbatim>\<open>json.loads\<close>,
  \<^verbatim>\<open>JSONDecoder.raw_decode\<close> and \<^verbatim>\<open>json.dumps(..., ensure_ascii=False)\<close>, on text, with
  CPython's grammar (the constants \<^verbatim>\<open>NaN\<close> and \<^verbatim>\<open>Infinity\<close> included, integer literals of more
  than 4300 digits refused). The main results: the scanner never runs out of fuel, and
  \<^verbatim>\<open>loads(dumps(v)) == v\<close> for every value without floats.
\<close>

section \<open>Values\<close>

datatype json =
    JNull
  | JBool bool
  | JInt int
  | JFloat pyfloat
  | JStr string
  | JList "json list"
  | JDict "(string \<times> json) list"

type_synonym jdict = "(string \<times> json) list"

text \<open>\<^verbatim>\<open>v == n\<close> for an integer \<open>n\<close>: booleans and floats compare by value.\<close>

fun equals_int :: "int \<Rightarrow> json \<Rightarrow> bool" where
  "equals_int n (JInt m) = (m = n)"
| "equals_int n (JBool b) = (of_bool b = n)"
| "equals_int n (JFloat (Fin r)) = (r = of_int n)"
| "equals_int n _ = False"

text \<open>\<^verbatim>\<open>d.get(k)\<close> and \<^verbatim>\<open>d.get(k, default)\<close>.\<close>

definition jget :: "jdict \<Rightarrow> string \<Rightarrow> json" where
  "jget d k = (case map_of d k of None \<Rightarrow> JNull | Some v \<Rightarrow> v)"

definition jget_or :: "jdict \<Rightarrow> string \<Rightarrow> json \<Rightarrow> json" where
  "jget_or d k dflt = (case map_of d k of None \<Rightarrow> dflt | Some v \<Rightarrow> v)"

definition has_key :: "jdict \<Rightarrow> string \<Rightarrow> bool" where
  "has_key d k = (map_of d k \<noteq> None)"

text \<open>Lists and dicts are the unhashable values: \<^verbatim>\<open>v in {...}\<close> raises on them.\<close>

fun hashable :: "json \<Rightarrow> bool" where
  "hashable (JList _) = False"
| "hashable (JDict _) = False"
| "hashable _ = True"

definition in_str_set :: "json \<Rightarrow> string list \<Rightarrow> bool result" where
  "in_str_set v xs =
     (if hashable v then Inr (case v of JStr s \<Rightarrow> s \<in> set xs | _ \<Rightarrow> False) else Inl TypeError)"

section \<open>Reading\<close>

definition is_ws :: "char \<Rightarrow> bool" where
  "is_ws c = (c = CHR '' '' \<or> c = CHR 0x09 \<or> c = nl \<or> c = CHR 0x0D)"

definition skip_ws :: "string \<Rightarrow> string" where
  "skip_ws s = dropWhile is_ws s"

definition hex_val :: "char \<Rightarrow> nat option" where
  "hex_val c = (let n = ord c in
     if 48 \<le> n \<and> n \<le> 57 then Some (n - 48)
     else if 65 \<le> n \<and> n \<le> 70 then Some (n - 55)
     else if 97 \<le> n \<and> n \<le> 102 then Some (n - 87)
     else None)"

definition hex4 :: "char \<Rightarrow> char \<Rightarrow> char \<Rightarrow> char \<Rightarrow> nat option" where
  "hex4 a b c d = (case (hex_val a, hex_val b, hex_val c, hex_val d) of
     (Some i, Some j, Some k, Some l) \<Rightarrow> Some (4096 * i + 256 * j + 16 * k + l) | _ \<Rightarrow> None)"

definition unescape :: "char \<Rightarrow> char option" where
  "unescape e = map_of
     [(dq, dq), (bsl, bsl), (CHR ''/'', CHR ''/''), (CHR ''b'', CHR 0x08), (CHR ''f'', CHR 0x0C),
      (CHR ''n'', nl), (CHR ''r'', CHR 0x0D), (CHR ''t'', CHR 0x09)] e"

text \<open>The body of a string literal, after the opening quote.\<close>

fun scan_chars :: "string \<Rightarrow> exn + (string \<times> string)" where
  "scan_chars [] = Inl (JSONDecodeError ''Unterminated string starting at'')"
| "scan_chars (c # cs) =
     (if c = dq then Inr ([], cs)
      else if c = bsl then
        (case cs of
           [] \<Rightarrow> Inl (JSONDecodeError ''Unterminated string starting at'')
         | e # r \<Rightarrow>
             if e = CHR ''u'' then
               (case r of
                  h1 # h2 # h3 # h4 # r' \<Rightarrow>
                    (case hex4 h1 h2 h3 h4 of
                       None \<Rightarrow> Inl (JSONDecodeError ''Invalid uXXXX escape'')
                     | Some n \<Rightarrow>
                         if n < 256 then bind_res (scan_chars r') (\<lambda>(t, z). Inr (char_of n # t, z))
                         else Inl NonLatin1)
                | _ \<Rightarrow> Inl (JSONDecodeError ''Invalid uXXXX escape''))
             else
               (case unescape e of
                  None \<Rightarrow> Inl (JSONDecodeError ''Invalid escape'')
                | Some x \<Rightarrow> bind_res (scan_chars r) (\<lambda>(t, z). Inr (x # t, z))))
      else if ord c < 32 then Inl (JSONDecodeError ''Invalid control character at'')
      else bind_res (scan_chars cs) (\<lambda>(t, z). Inr (c # t, z)))"

definition max_str_digits :: nat where "max_str_digits = 4300"

text \<open>The fraction and the exponent of a number literal, if present.\<close>

fun scan_frac :: "string \<Rightarrow> string \<times> string" where
  "scan_frac (c # r) =
     (if c = CHR ''.'' \<and> takeWhile is_digit r \<noteq> [] then (takeWhile is_digit r, dropWhile is_digit r)
      else ([], c # r))"
| "scan_frac [] = ([], [])"

fun scan_exp :: "string \<Rightarrow> int option \<times> string" where
  "scan_exp (c # r) =
     (if c = CHR ''e'' \<or> c = CHR ''E'' then
        (let neg = (case r of x # _ \<Rightarrow> x = CHR ''-'' | [] \<Rightarrow> False);
             r' = (case r of x # y \<Rightarrow> if x = CHR ''-'' \<or> x = CHR ''+'' then y else r | [] \<Rightarrow> []);
             ds = takeWhile is_digit r'
         in if ds = [] then (None, c # r)
            else (Some ((if neg then -1 else 1) * int (nat_of_digits ds)), dropWhile is_digit r'))
      else (None, c # r))"
| "scan_exp [] = (None, [])"

definition decimal :: "bool \<Rightarrow> nat \<Rightarrow> int \<Rightarrow> rat" where
  "decimal neg m e = (if neg then -1 else 1) * of_nat m *
     (if 0 \<le> e then 10 ^ nat e else 1 / 10 ^ nat (- e))"

definition num_sign :: "string \<Rightarrow> bool \<times> string" where
  "num_sign s = (case s of [] \<Rightarrow> (False, []) | c # cs \<Rightarrow> if c = CHR ''-'' then (True, cs) else (False, s))"

definition int_digits :: "string \<Rightarrow> string" where
  "int_digits r = (case r of [] \<Rightarrow> [] | c # _ \<Rightarrow> if c = CHR ''0'' then ''0'' else takeWhile is_digit r)"

definition finish_number :: "bool \<Rightarrow> string \<Rightarrow> string \<Rightarrow> exn + (json \<times> string)" where
  "finish_number neg ds r =
     (let (fs, r2) = scan_frac r; (ex, r3) = scan_exp r2
      in if fs = [] \<and> ex = None then
           (if max_str_digits < length ds
            then Inl (ValueError ''Exceeds the limit for integer string conversion'')
            else Inr (JInt ((if neg then -1 else 1) * int (nat_of_digits ds)), r))
         else
           Inr (JFloat (f64 (decimal neg (nat_of_digits (ds @ fs))
                  ((case ex of None \<Rightarrow> 0 | Some k \<Rightarrow> k) - int (length fs)))), r3))"

definition scan_number :: "string \<Rightarrow> exn + (json \<times> string)" where
  "scan_number s = (case num_sign s of (neg, r) \<Rightarrow>
     if int_digits r = [] then Inl (JSONDecodeError ''Expecting value'')
     else finish_number neg (int_digits r) (drop (length (int_digits r)) r))"

definition starts_with_char :: "char \<Rightarrow> string \<Rightarrow> bool" where
  "starts_with_char c s = (case s of [] \<Rightarrow> False | d # _ \<Rightarrow> d = c)"

text \<open>The punctuation of arrays and objects: the quote that opens a key, the colon after it,
  and after a value either the closing bracket or a comma.\<close>

fun open_quote :: "string \<Rightarrow> exn + string" where
  "open_quote [] = Inl (JSONDecodeError ''Expecting property name enclosed in double quotes'')"
| "open_quote (c # r) =
     (if c = dq then Inr r
      else Inl (JSONDecodeError ''Expecting property name enclosed in double quotes''))"

definition expect_colon :: "string \<Rightarrow> exn + string" where
  "expect_colon s = (case skip_ws s of
     [] \<Rightarrow> Inl (JSONDecodeError ''Expecting ':' delimiter'')
   | c # r \<Rightarrow> if c = CHR '':'' then Inr (skip_ws r) else Inl (JSONDecodeError ''Expecting ':' delimiter''))"

definition close_or_comma :: "char \<Rightarrow> string \<Rightarrow> exn + (bool \<times> string)" where
  "close_or_comma cl s = (case skip_ws s of
     [] \<Rightarrow> Inl (JSONDecodeError ''Expecting ',' delimiter'')
   | c # r \<Rightarrow> if c = cl then Inr (True, r)
       else if c = CHR '','' then Inr (False, skip_ws r)
       else Inl (JSONDecodeError ''Expecting ',' delimiter''))"

text \<open>\<open>scan_once\<close>: one value at the start of the text, with the rest of the text. The fuel
  bounds the recursion; \<open>raw_decode\<close> supplies enough of it for every input.\<close>

fun scan_value :: "nat \<Rightarrow> string \<Rightarrow> exn + (json \<times> string)"
  and scan_elems :: "nat \<Rightarrow> string \<Rightarrow> exn + (json list \<times> string)"
  and scan_pairs :: "nat \<Rightarrow> string \<Rightarrow> exn + (jdict \<times> string)" where
  "scan_value 0 s = Inl (RuntimeError ''out of fuel'')"
| "scan_value (Suc n) s =
     (case s of
        [] \<Rightarrow> Inl (JSONDecodeError ''Expecting value'')
      | c # cs \<Rightarrow>
          if c = dq then bind_res (scan_chars cs) (\<lambda>(t, r). Inr (JStr t, r))
          else if c = CHR ''{'' then
            (if starts_with_char (CHR ''}'') (skip_ws cs) then Inr (JDict [], tl (skip_ws cs))
             else bind_res (scan_pairs n (skip_ws cs))
               (\<lambda>(kvs, r). Inr (JDict (fold (\<lambda>(k, v). AList.update k v) kvs []), r)))
          else if c = CHR ''['' then
            (if starts_with_char (CHR '']'') (skip_ws cs) then Inr (JList [], tl (skip_ws cs))
             else bind_res (scan_elems n (skip_ws cs)) (\<lambda>(vs, r). Inr (JList vs, r)))
          else if startswith s ''null'' then Inr (JNull, drop 4 s)
          else if startswith s ''true'' then Inr (JBool True, drop 4 s)
          else if startswith s ''false'' then Inr (JBool False, drop 5 s)
          else if startswith s ''NaN'' then Inr (JFloat NaN, drop 3 s)
          else if startswith s ''Infinity'' then Inr (JFloat PInf, drop 8 s)
          else if startswith s ''-Infinity'' then Inr (JFloat NInf, drop 9 s)
          else scan_number s)"
| "scan_elems 0 s = Inl (RuntimeError ''out of fuel'')"
| "scan_elems (Suc n) s =
     bind_res (scan_value n s) (\<lambda>(v, r1).
     bind_res (close_or_comma (CHR '']'') r1) (\<lambda>(fin, r2).
       if fin then Inr ([v], r2)
       else bind_res (scan_elems n r2) (\<lambda>(vs, z). Inr (v # vs, z))))"
| "scan_pairs 0 s = Inl (RuntimeError ''out of fuel'')"
| "scan_pairs (Suc n) s =
     bind_res (open_quote s) (\<lambda>r0.
     bind_res (scan_chars r0) (\<lambda>(k, r1).
     bind_res (expect_colon r1) (\<lambda>r2.
     bind_res (scan_value n r2) (\<lambda>(v, r3).
     bind_res (close_or_comma (CHR ''}'') r3) (\<lambda>(fin, r4).
       if fin then Inr ([(k, v)], r4)
       else bind_res (scan_pairs n r4) (\<lambda>(kvs, z). Inr ((k, v) # kvs, z)))))))"

definition raw_decode :: "string \<Rightarrow> exn + (json \<times> string)" where
  "raw_decode s = scan_value (2 * length s + 1) s"

definition json_loads :: "string \<Rightarrow> json result" where
  "json_loads s = bind_res (raw_decode (skip_ws s)) (\<lambda>(v, r).
     if skip_ws r = [] then Inr v else Inl (JSONDecodeError ''Extra data''))"

section \<open>Writing\<close>

definition hex_digit :: "nat \<Rightarrow> char" where
  "hex_digit d = (if d < 10 then char_of (48 + d) else char_of (87 + d))"

definition escape_char :: "char \<Rightarrow> string" where
  "escape_char c =
     (if c = dq then [bsl, dq] else if c = bsl then [bsl, bsl]
      else if c = nl then [bsl, CHR ''n''] else if c = CHR 0x0D then [bsl, CHR ''r'']
      else if c = CHR 0x09 then [bsl, CHR ''t''] else if c = CHR 0x0C then [bsl, CHR ''f'']
      else if c = CHR 0x08 then [bsl, CHR ''b'']
      else if ord c < 32 then
        [bsl, CHR ''u'', CHR ''0'', CHR ''0'', hex_digit (ord c div 16), hex_digit (ord c mod 16)]
      else [c])"

definition dumps_str :: "string \<Rightarrow> string" where
  "dumps_str s = dq # concat (map escape_char s) @ [dq]"

text \<open>\<^verbatim>\<open>float.__repr__\<close>: the shortest decimal that reads back as the same float, the closest
  one among those of equal length.\<close>

definition pow10 :: "int \<Rightarrow> rat" where
  "pow10 e = (if 0 \<le> e then 10 ^ nat e else 1 / 10 ^ nat (- e))"

definition flog10 :: "rat \<Rightarrow> int" where
  "flog10 x = (case quotient_of x of (n, d) \<Rightarrow>
     let k = int (length (str_nat (nat n))) - int (length (str_nat (nat d)))
     in if pow10 k \<le> x then k else k - 1)"

definition repr_candidate :: "rat \<Rightarrow> nat \<Rightarrow> (int \<times> int) option" where
  "repr_candidate x n =
     (let k = flog10 x - int n + 1; m = \<lfloor>x / pow10 k\<rfloor>; good = (\<lambda>c. f64 (of_int c * pow10 k) = Fin x);
          lo = x / pow10 k - of_int m
      in if good m \<and> good (m + 1) then
           Some (if lo < 1 / 2 \<or> (lo = 1 / 2 \<and> even m) then m else m + 1, k)
         else if good m then Some (m, k) else if good (m + 1) then Some (m + 1, k) else None)"

fun first_candidate :: "rat \<Rightarrow> nat list \<Rightarrow> int \<times> int" where
  "first_candidate x [] = (\<lfloor>x\<rfloor>, 0)"
| "first_candidate x (n # ns) =
     (case repr_candidate x n of Some c \<Rightarrow> c | None \<Rightarrow> first_candidate x ns)"

definition repr_pos :: "rat \<Rightarrow> string" where
  "repr_pos x =
     (let (c, k) = first_candidate x [1..<18]; all = str_nat (nat c);
          ds = rev (dropWhile (\<lambda>d. d = CHR ''0'') (rev all));
          pt = int (length all) + k
      in if - 4 < pt \<and> pt \<le> 16 then
           (if pt \<le> 0 then ''0.'' @ replicate (nat (- pt)) (CHR ''0'') @ ds
            else if int (length ds) \<le> pt then ds @ replicate (nat pt - length ds) (CHR ''0'') @ ''.0''
            else take (nat pt) ds @ ''.'' @ drop (nat pt) ds)
         else take 1 ds @ (if length ds = 1 then [] else ''.'' @ drop 1 ds) @
           (let e = pt - 1; es = str_nat (nat \<bar>e\<bar>) in
            (if e < 0 then ''e-'' else ''e+'') @ (if length es < 2 then CHR ''0'' # es else es)))"

fun float_repr :: "pyfloat \<Rightarrow> string" where
  "float_repr (Fin q) =
     (if q = 0 then ''0.0'' else if 0 < q then repr_pos q else CHR ''-'' # repr_pos (- q))"
| "float_repr PInf = ''inf''"
| "float_repr NInf = ''-inf''"
| "float_repr NaN = ''nan''"

fun dumps :: "json \<Rightarrow> string" where
  "dumps JNull = ''null''"
| "dumps (JBool b) = (if b then ''true'' else ''false'')"
| "dumps (JInt n) = str_int n"
| "dumps (JFloat f) =
     (case f of NaN \<Rightarrow> ''NaN'' | PInf \<Rightarrow> ''Infinity'' | NInf \<Rightarrow> ''-Infinity'' | Fin q \<Rightarrow> float_repr (Fin q))"
| "dumps (JStr s) = dumps_str s"
| "dumps (JList vs) = ''['' @ join '', '' (map dumps vs) @ '']''"
| "dumps (JDict kvs) = ''{'' @ join '', '' (map (\<lambda>(k, v). dumps_str k @ '': '' @ dumps v) kvs) @ ''}''"

section \<open>\<^verbatim>\<open>str\<close>, \<^verbatim>\<open>repr\<close> and truth of values\<close>

definition repr_printable :: "char \<Rightarrow> bool" where
  "repr_printable c = (let n = ord c in (32 \<le> n \<and> n < 127) \<or> (161 \<le> n \<and> n \<noteq> 173))"

definition repr_char :: "char \<Rightarrow> char \<Rightarrow> string" where
  "repr_char q c =
     (if c = q \<or> c = bsl then [bsl, c]
      else if c = nl then [bsl, CHR ''n''] else if c = CHR 0x0D then [bsl, CHR ''r'']
      else if c = CHR 0x09 then [bsl, CHR ''t'']
      else if repr_printable c then [c]
      else [bsl, CHR ''x'', hex_digit (ord c div 16), hex_digit (ord c mod 16)])"

definition repr_str :: "string \<Rightarrow> string" where
  "repr_str s =
     (let q = (if CHR 0x27 \<in> set s \<and> dq \<notin> set s then dq else CHR 0x27)
      in q # concat (map (repr_char q) s) @ [q])"

fun py_repr :: "json \<Rightarrow> string" where
  "py_repr JNull = ''None''"
| "py_repr (JBool b) = (if b then ''True'' else ''False'')"
| "py_repr (JInt n) = str_int n"
| "py_repr (JFloat f) = float_repr f"
| "py_repr (JStr s) = repr_str s"
| "py_repr (JList vs) = ''['' @ join '', '' (map py_repr vs) @ '']''"
| "py_repr (JDict kvs) = ''{'' @ join '', '' (map (\<lambda>(k, v). repr_str k @ '': '' @ py_repr v) kvs) @ ''}''"

fun py_str :: "json \<Rightarrow> string" where
  "py_str (JStr s) = s"
| "py_str v = py_repr v"

fun truthy :: "json \<Rightarrow> bool" where
  "truthy JNull = False"
| "truthy (JBool b) = b"
| "truthy (JInt n) = (n \<noteq> 0)"
| "truthy (JFloat f) = (f \<noteq> Fin 0)"
| "truthy (JStr s) = (s \<noteq> [])"
| "truthy (JList vs) = (vs \<noteq> [])"
| "truthy (JDict kvs) = (kvs \<noteq> [])"

text \<open>\<^verbatim>\<open>int(v)\<close>: text is stripped and may carry a sign and single underscores between digits.\<close>

fun digit_groups :: "string \<Rightarrow> bool" where
  "digit_groups [] = False"
| "digit_groups [c] = is_digit c"
| "digit_groups (c # d # r) =
     (is_digit c \<and> (if d = CHR ''_'' then digit_groups r else digit_groups (d # r)))"

definition int_of_str :: "string \<Rightarrow> int result" where
  "int_of_str s =
     (let t = strip s;
          neg = starts_with_char (CHR ''-'') t;
          r = (if neg \<or> starts_with_char (CHR ''+'') t then tl t else t);
          ds = filter (\<lambda>c. c \<noteq> CHR ''_'') r
      in if digit_groups r \<and> length ds \<le> max_str_digits
         then Inr ((if neg then -1 else 1) * int (nat_of_digits ds))
         else Inl (ValueError ''invalid literal for int()''))"

fun int_of_json :: "json \<Rightarrow> int result" where
  "int_of_json (JInt n) = Inr n"
| "int_of_json (JBool b) = Inr (if b then 1 else 0)"
| "int_of_json (JFloat f) = int_of_float f"
| "int_of_json (JStr s) = int_of_str s"
| "int_of_json _ = Inl TypeError"

section \<open>The scanner consumes its input and never runs out of fuel\<close>

lemma length_skip_ws: "length (skip_ws s) \<le> length s"
  by (simp add: skip_ws_def length_dropWhile_le)

lemma length_tl_skip_ws: "length (tl (skip_ws s)) \<le> length s"
  using length_skip_ws [of s] by (cases "skip_ws s") auto

lemma skip_ws_Cons_less: "skip_ws s = d # r \<Longrightarrow> length r < length s"
  using length_skip_ws [of s] by auto

lemma scan_chars_shorter: "scan_chars s = Inr (t, r) \<Longrightarrow> length r < length s"
proof (induction "length s" arbitrary: s t r rule: less_induct)
  case less
  show ?case
  proof (cases s)
    case (Cons c cs)
    have IH: "scan_chars x = Inr (y, r) \<Longrightarrow> length x < length s \<Longrightarrow> length r < length s" for x y
      using less.hyps [of x y r] by simp
    show ?thesis
      using less.prems IH by (auto simp: Cons split: if_splits list.splits option.splits)
  qed (use less.prems in simp)
qed

lemma open_quote_shorter: "open_quote s = Inr r \<Longrightarrow> length r < length s"
  by (cases s) (auto split: if_splits)

lemma expect_colon_shorter: "expect_colon s = Inr r \<Longrightarrow> length r < length s"
  by (auto simp: expect_colon_def split: list.splits if_splits
    dest!: skip_ws_Cons_less intro: le_less_trans [OF length_skip_ws])

lemma close_or_comma_shorter: "close_or_comma cl s = Inr (b, r) \<Longrightarrow> length r < length s"
  by (auto simp: close_or_comma_def split: list.splits if_splits
    dest!: skip_ws_Cons_less intro: le_less_trans [OF length_skip_ws])

lemma punctuation_errors:
  "open_quote s = Inl e \<Longrightarrow> e \<noteq> RuntimeError m" "expect_colon s = Inl e \<Longrightarrow> e \<noteq> RuntimeError m"
  "close_or_comma cl s = Inl e \<Longrightarrow> e \<noteq> RuntimeError m"
  by (cases s) (auto simp: expect_colon_def close_or_comma_def split: list.splits if_splits)

lemma scan_frac_le: "scan_frac s = (f, r) \<Longrightarrow> length r \<le> length s"
  by (cases s) (auto split: if_splits simp: length_dropWhile_le le_SucI)

lemma scan_exp_le: "scan_exp s = (x, r) \<Longrightarrow> length r \<le> length s"
proof (cases s)
  case (Cons c cs)
  assume "scan_exp s = (x, r)"
  with Cons show ?thesis
    by (cases cs) (auto simp: Let_def le_SucI length_dropWhile_le le_trans [OF length_dropWhile_le] split: if_splits)
qed simp

lemma finish_number_le: "finish_number neg ds s = Inr (v, r) \<Longrightarrow> length r \<le> length s"
  by (auto simp: finish_number_def split: prod.splits if_splits dest!: scan_frac_le scan_exp_le)

lemma int_digits_le: "length (int_digits r) \<le> length r"
  by (auto simp: int_digits_def length_takeWhile_le split: list.splits)

lemma num_sign_le: "num_sign s = (neg, r) \<Longrightarrow> length r \<le> length s"
  by (auto simp: num_sign_def split: list.splits if_splits)

lemma scan_number_shorter: "scan_number s = Inr (v, r) \<Longrightarrow> length r < length s"
proof -
  assume h: "scan_number s = Inr (v, r)"
  obtain neg r0 where s: "num_sign s = (neg, r0)" by fastforce
  with h have ne: "int_digits r0 \<noteq> []"
    and "finish_number neg (int_digits r0) (drop (length (int_digits r0)) r0) = Inr (v, r)"
    by (auto simp: scan_number_def split: if_splits)
  then have "length r \<le> length r0 - length (int_digits r0)" by (auto dest: finish_number_le)
  moreover have "0 < length (int_digits r0)" using ne by simp
  moreover have "length r0 \<le> length s" using num_sign_le [OF s] .
  ultimately show ?thesis using int_digits_le [of r0] by linarith
qed

lemma scan_shorter:
  "scan_value n s = Inr (v, r) \<Longrightarrow> length r < length s"
  "scan_elems n s = Inr (vs, r) \<Longrightarrow> length r < length s"
  "scan_pairs n s = Inr (kvs, r) \<Longrightarrow> length r < length s"
proof (induction n s and n s and n s arbitrary: v r and vs r and kvs r
    rule: scan_value_scan_elems_scan_pairs.induct)
  case (2 n s)
  show ?case
  proof (cases s)
    case (Cons c cs)
    consider "c = dq" | "c = CHR ''{''" | "c = CHR ''[''" | "c \<noteq> dq \<and> c \<noteq> CHR ''{'' \<and> c \<noteq> CHR ''[''" by blast
    then show ?thesis
    proof cases
      case 1
      with "2.prems" Cons show ?thesis by (auto dest!: scan_chars_shorter)
    next
      case c: 2
      show ?thesis
      proof (cases "starts_with_char (CHR ''}'') (skip_ws cs)")
        case True
        with "2.prems" Cons c length_tl_skip_ws [of cs] show ?thesis by auto
      next
        case False
        with "2.prems" Cons c obtain kvs where "scan_pairs n (skip_ws cs) = Inr (kvs, r)" by auto
        then have "length r < length (skip_ws cs)" using "2.IH"(1) [OF Cons] c False by simp
        then show ?thesis using length_skip_ws [of cs] Cons by simp
      qed
    next
      case c: 3
      show ?thesis
      proof (cases "starts_with_char (CHR '']'') (skip_ws cs)")
        case True
        with "2.prems" Cons c length_tl_skip_ws [of cs] show ?thesis by auto
      next
        case False
        with "2.prems" Cons c obtain vs where "scan_elems n (skip_ws cs) = Inr (vs, r)" by auto
        then have "length r < length (skip_ws cs)" using "2.IH"(2) [OF Cons] c False by simp
        then show ?thesis using length_skip_ws [of cs] Cons by simp
      qed
    next
      case 4
      with "2.prems" Cons show ?thesis by (auto split: if_splits dest: scan_number_shorter)
    qed
  qed (use 2 in simp)
next
  case (4 n s)
  from "4.prems" obtain v r1 fin r2 where v: "scan_value n s = Inr (v, r1)"
    and c: "close_or_comma (CHR '']'') r1 = Inr (fin, r2)"
    and d: "fin \<and> r = r2 \<or> \<not> fin \<and> (\<exists>ws. scan_elems n r2 = Inr (ws, r))"
    by (auto split: if_splits)
  have "length r1 < length s" "length r2 < length r1"
    using "4.IH"(1) [OF v] close_or_comma_shorter [OF c] by auto
  moreover have "length r \<le> length r2"
    using d "4.IH"(2) by fastforce
  ultimately show ?case by linarith
next
  case (6 n s)
  from "6.prems" obtain r0 k r1 r2 v r3 fin r4 where q: "open_quote s = Inr r0"
    and k: "scan_chars r0 = Inr (k, r1)" and d: "expect_colon r1 = Inr r2"
    and v: "scan_value n r2 = Inr (v, r3)" and c: "close_or_comma (CHR ''}'') r3 = Inr (fin, r4)"
    and e: "fin \<and> r = r4 \<or> \<not> fin \<and> (\<exists>ws. scan_pairs n r4 = Inr (ws, r))"
    by (auto split: if_splits)
  have "length r3 < length r2" using "6.IH"(1) v by blast
  moreover have "length r \<le> length r4" using e "6.IH"(2) by fastforce
  ultimately show ?case
    using open_quote_shorter [OF q] scan_chars_shorter [OF k] expect_colon_shorter [OF d]
      close_or_comma_shorter [OF c] by linarith
qed auto

lemmas scan_value_shorter = scan_shorter(1)
  and scan_elems_shorter = scan_shorter(2) and scan_pairs_shorter = scan_shorter(3)

text \<open>With fuel \<open>2 * length s + 1\<close> the recursion never bottoms out, so the fuel error is
  unreachable from \<open>raw_decode\<close>.\<close>

abbreviation "no_fuel \<equiv> RuntimeError ''out of fuel''"

lemma scan_chars_errors: "scan_chars s = Inl e \<Longrightarrow> e \<noteq> no_fuel"
proof (induction "length s" arbitrary: s rule: less_induct)
  case less
  show ?case
  proof (cases s)
    case (Cons c cs)
    have IH: "scan_chars x = Inl e \<Longrightarrow> length x < length s \<Longrightarrow> e \<noteq> no_fuel" for x
      using less.hyps [of x] by simp
    show ?thesis
      using less.prems IH by (auto simp: Cons bind_res_eq_Inl split: if_splits list.splits option.splits)
  qed (use less.prems in auto)
qed

lemma scan_number_errors: "scan_number s = Inl e \<Longrightarrow> e \<noteq> no_fuel"
  by (auto simp: scan_number_def finish_number_def split: prod.splits if_splits)

lemma scan_fuel:
  "2 * length s < n \<Longrightarrow> scan_value n s = Inl e \<Longrightarrow> e \<noteq> no_fuel"
  "2 * length s + 1 < n \<Longrightarrow> scan_elems n s = Inl e \<Longrightarrow> e \<noteq> no_fuel"
  "2 * length s < n \<Longrightarrow> scan_pairs n s = Inl e \<Longrightarrow> e \<noteq> no_fuel"
proof (induction n s and n s and n s rule: scan_value_scan_elems_scan_pairs.induct)
  case (2 n s)
  show ?case
  proof (cases s)
    case (Cons c cs)
    have len: "2 * length (skip_ws cs) + 1 < n" using "2.prems"(1) length_skip_ws [of cs] Cons by simp
    from "2.prems"(2) Cons consider "scan_chars cs = Inl e" | "c = CHR ''{''" "scan_pairs n (skip_ws cs) = Inl e"
        "\<not> starts_with_char (CHR ''}'') (skip_ws cs)"
      | "c = CHR ''[''" "scan_elems n (skip_ws cs) = Inl e" "\<not> starts_with_char (CHR '']'') (skip_ws cs)"
      | "scan_number s = Inl e"
      by (auto simp: bind_res_eq_Inl split: if_splits)
    then show ?thesis
    proof cases
      case 1 then show ?thesis by (rule scan_chars_errors)
    next
      case c: 2
      then show ?thesis using "2.IH"(1) [OF Cons] len by simp
    next
      case c: 3
      then show ?thesis using "2.IH"(2) [OF Cons] len by simp
    next
      case 4 then show ?thesis by (rule scan_number_errors)
    qed
  qed (use 2 in auto)
next
  case (4 n s)
  from "4.prems"(2) consider "scan_value n s = Inl e" | "e \<noteq> no_fuel"
    | v r1 r2 where "scan_value n s = Inr (v, r1)" "close_or_comma (CHR '']'') r1 = Inr (False, r2)"
      "scan_elems n r2 = Inl e"
    by (auto simp: bind_res_eq_Inl split: if_splits dest: punctuation_errors)
  then show ?case
  proof cases
    case 1
    then show ?thesis using "4.IH"(1) "4.prems"(1) by simp
  next
    case 2 then show ?thesis .
  next
    case c: 3
    have "length r2 + 2 \<le> length s"
      using scan_value_shorter [OF c(1)] close_or_comma_shorter [OF c(2)] by linarith
    then show ?thesis using "4.IH"(2) [of False r2] c(3) "4.prems"(1) by simp
  qed
next
  case (6 n s)
  from "6.prems"(2) consider x where "open_quote x = Inl e \<or> expect_colon x = Inl e \<or> close_or_comma (CHR ''}'') x = Inl e"
    | r0 where "scan_chars r0 = Inl e"
    | r0 k r1 r2 where "open_quote s = Inr r0" "scan_chars r0 = Inr (k, r1)" "expect_colon r1 = Inr r2"
      "scan_value n r2 = Inl e"
    | r0 k r1 r2 v r3 r4 where "open_quote s = Inr r0" "scan_chars r0 = Inr (k, r1)" "expect_colon r1 = Inr r2"
      "scan_value n r2 = Inr (v, r3)" "close_or_comma (CHR ''}'') r3 = Inr (False, r4)" "scan_pairs n r4 = Inl e"
    by (auto simp: bind_res_eq_Inl split: if_splits)
  then show ?case
  proof cases
    case 1 then show ?thesis using punctuation_errors by blast
  next
    case 2 then show ?thesis by (rule scan_chars_errors)
  next
    case c: 3
    have "length r2 + 2 \<le> length s"
      using open_quote_shorter [OF c(1)] scan_chars_shorter [OF c(2)] expect_colon_shorter [OF c(3)] by linarith
    then show ?thesis using "6.IH"(1) [of r2] c(4) "6.prems"(1) by simp
  next
    case c: 4
    have "length r4 + 2 \<le> length s"
      using open_quote_shorter [OF c(1)] scan_chars_shorter [OF c(2)] expect_colon_shorter [OF c(3)]
        scan_value_shorter [OF c(4)] close_or_comma_shorter [OF c(5)] by linarith
    then show ?thesis using "6.IH"(2) [of False r4] c(6) "6.prems"(1) by simp
  qed
qed auto

lemma raw_decode_fuel: "raw_decode s \<noteq> Inl no_fuel"
  unfolding raw_decode_def using scan_fuel(1) [of s "2 * length s + 1"] by (metis less_add_one)

lemma json_loads_fuel: "json_loads s \<noteq> Inl no_fuel"
  using raw_decode_fuel by (auto simp: json_loads_def bind_res_eq_Inl split: if_splits)

section \<open>Round trip\<close>

text \<open>The values \<open>dumps\<close> writes and \<open>loads\<close> reads back unchanged: no float, integers within
  the conversion limit, dicts with unique keys (as every Python dict has).\<close>

fun plain :: "json \<Rightarrow> bool" where
  "plain (JFloat f) = False"
| "plain (JInt n) = (length (str_nat (nat \<bar>n\<bar>)) \<le> max_str_digits)"
| "plain (JList vs) = (\<forall>v \<in> set vs. plain v)"
| "plain (JDict kvs) = (distinct_keys kvs \<and> (\<forall>kv \<in> set kvs. plain (snd kv)))"
| "plain _ = True"

text \<open>Text after a value that cannot be mistaken for more of a number.\<close>

definition num_end :: "string \<Rightarrow> bool" where
  "num_end r = (case r of [] \<Rightarrow> True
     | c # _ \<Rightarrow> \<not> is_digit c \<and> c \<noteq> CHR ''.'' \<and> c \<noteq> CHR ''e'' \<and> c \<noteq> CHR ''E'')"

lemma hex_val_hex_digit: "d < 16 \<Longrightarrow> hex_val (hex_digit d) = Some d"
  by (auto simp: hex_val_def hex_digit_def Let_def)

lemma hex4_escape: "n < 256 \<Longrightarrow> hex4 (CHR ''0'') (CHR ''0'') (hex_digit (n div 16)) (hex_digit (n mod 16)) = Some n"
proof -
  assume "n < 256"
  then have "n div 16 < 16" "n mod 16 < 16" by auto
  moreover have "hex_val (CHR ''0'') = Some 0" by (simp add: hex_val_def)
  ultimately show ?thesis by (simp add: hex4_def hex_val_hex_digit)
qed

lemma scan_chars_escape: "scan_chars (escape_char c @ r) = bind_res (scan_chars r) (\<lambda>(t, z). Inr (c # t, z))"
proof -
  have "ord c < 256" by simp
  then show ?thesis
    using hex4_escape [of "ord c"] by (simp add: escape_char_def unescape_def)
qed

lemma scan_chars_dumps: "scan_chars (concat (map escape_char s) @ dq # r) = Inr (s, r)"
  by (induction s) (simp_all add: scan_chars_escape del: scan_chars.simps(2), simp)

lemma takeWhile_digits: "num_end r \<Longrightarrow> (\<forall>c \<in> set ds. is_digit c) \<Longrightarrow> takeWhile is_digit (ds @ r) = ds"
  by (induction ds) (auto simp: num_end_def split: list.splits)

lemma int_digits_str_nat: "num_end r \<Longrightarrow> int_digits (str_nat n @ r) = str_nat n"
proof (cases "n = 0")
  case True
  then show ?thesis by (simp add: int_digits_def)
next
  case False
  assume r: "num_end r"
  obtain c cs where s: "str_nat n = c # cs" by (cases "str_nat n") auto
  with False hd_str_nat [of n] have "c \<noteq> CHR ''0''" by simp
  moreover have "takeWhile is_digit (str_nat n @ r) = str_nat n"
    using r str_nat_digits by (rule takeWhile_digits)
  ultimately show ?thesis by (simp add: int_digits_def s)
qed

lemma finish_number_int: "num_end r \<Longrightarrow> length ds \<le> max_str_digits \<Longrightarrow>
    finish_number neg ds r = Inr (JInt ((if neg then -1 else 1) * int (nat_of_digits ds)), r)"
  by (cases r) (auto simp: finish_number_def num_end_def)

lemma num_sign_str_int: "num_sign (str_int n @ r) = (n < 0, str_nat (nat \<bar>n\<bar>) @ r)"
proof -
  have "hd (str_nat k) \<noteq> CHR ''-''" for k
    using str_nat_digits [of k] hd_in_set [OF str_nat_ne [of k]] by (fastforce simp: is_digit_def)
  then show ?thesis
    by (cases "str_nat (nat n)") (auto simp: num_sign_def str_int_def dest: arg_cong [of _ _ hd])
qed

lemma scan_number_str_int:
  "num_end r \<Longrightarrow> plain (JInt n) \<Longrightarrow> scan_number (str_int n @ r) = Inr (JInt n, r)"
  by (simp add: scan_number_def num_sign_str_int int_digits_str_nat finish_number_int)

lemma update_new: "k \<notin> fst ` set d \<Longrightarrow> AList.update k v d = d @ [(k, v)]"
  by (induction d) auto

lemma fold_update_distinct:
  "distinct_keys (acc @ kvs) \<Longrightarrow> fold (\<lambda>(k, v). AList.update k v) kvs acc = acc @ kvs"
  by (induction kvs arbitrary: acc) (auto simp: update_new)

lemma skip_ws_id: "s \<noteq> [] \<Longrightarrow> \<not> is_ws (hd s) \<Longrightarrow> skip_ws s = s"
  by (cases s) (auto simp: skip_ws_def)

lemma skip_ws_blank: "skip_ws (CHR '' '' # s) = skip_ws s"
  by (simp add: skip_ws_def is_ws_def)

lemma hd_str_nat_digit [simp]: "is_digit (hd (str_nat n))"
  using str_nat_digits [of n] hd_in_set [OF str_nat_ne [of n]] by blast

lemma hd_str_int: "hd (str_int n) = CHR ''-'' \<or> is_digit (hd (str_int n))"
  by (auto simp: str_int_def)

lemma str_int_ne [simp]: "str_int n \<noteq> []"
  by (simp add: str_int_def)

lemma is_digit_not_ws: "is_digit c \<Longrightarrow> \<not> is_ws c \<and> c \<noteq> CHR '']''"
  by (auto simp: is_digit_def is_ws_def)

lemma dumps_hd: "plain v \<Longrightarrow> dumps v \<noteq> [] \<and> \<not> is_ws (hd (dumps v)) \<and> hd (dumps v) \<noteq> CHR '']''"
proof (cases v)
  case (JInt n)
  then show ?thesis using hd_str_int [of n] is_digit_not_ws by (auto simp: is_ws_def)
qed (auto simp: is_ws_def dumps_str_def)

lemma scan_value_int:
  assumes "num_end r" "plain (JInt n)"
  shows "scan_value (Suc m) (str_int n @ r) = Inr (JInt n, r)"
proof -
  obtain c cs where s: "str_int n = c # cs" by (cases "str_int n") auto
  have c: "c = CHR ''-'' \<or> is_digit c" using hd_str_int [of n] s by simp
  have "cs \<noteq> [] \<and> is_digit (hd cs)" if "c = CHR ''-''"
  proof -
    have "\<not> is_digit c" using that by (simp add: is_digit_def)
    then have "n < 0" using s by (metis hd_str_nat_digit list.sel(1) str_int_def)
    with s have "cs = str_nat (nat (- n))" by (simp add: str_int_def)
    then show ?thesis by simp
  qed
  then have "\<not> startswith (c # cs @ r) ''-Infinity''"
    by (cases cs) (auto simp: is_digit_def)
  moreover have "c \<noteq> dq \<and> c \<noteq> CHR ''{'' \<and> c \<noteq> CHR ''['' \<and> c \<noteq> CHR ''n'' \<and> c \<noteq> CHR ''t'' \<and>
      c \<noteq> CHR ''f'' \<and> c \<noteq> CHR ''N'' \<and> c \<noteq> CHR ''I''"
    using c by (auto simp: is_digit_def)
  ultimately have "scan_value (Suc m) (str_int n @ r) = scan_number (str_int n @ r)"
    by (simp only: s append_Cons scan_value.simps list.case startswith.simps if_False simp_thms)
  then show ?thesis using assms by (simp add: scan_number_str_int)
qed

lemma num_end_punct [simp]: "num_end (CHR '','' # r)" "num_end (CHR '']'' # r)" "num_end (CHR ''}'' # r)" "num_end []"
  by (simp_all add: num_end_def is_digit_def)

text \<open>One value of a list or an object, read back: the induction hypothesis of the round trip.\<close>

definition reads :: "json \<Rightarrow> bool" where
  "reads v \<longleftrightarrow> (\<forall>r n. num_end r \<longrightarrow> 2 * length (dumps v) < n \<longrightarrow> scan_value n (dumps v @ r) = Inr (v, r))"

lemma close_or_comma_simps:
  "cl \<noteq> CHR '','' \<Longrightarrow> \<not> is_ws cl \<Longrightarrow> close_or_comma cl (cl # r) = Inr (True, r)"
  "cl \<noteq> CHR '','' \<Longrightarrow> close_or_comma cl (CHR '','' # CHR '' '' # r) = Inr (False, skip_ws r)"
  by (simp_all add: close_or_comma_def skip_ws_def is_ws_def)

lemma scan_elems_dumps:
  assumes "vs \<noteq> []" "\<forall>v \<in> set vs. plain v \<and> reads v" "2 * length (join '', '' (map dumps vs)) + 1 < n"
  shows "scan_elems n (join '', '' (map dumps vs) @ CHR '']'' # r) = Inr (vs, r)"
  using assms
proof (induction vs arbitrary: n rule: list_nonempty_induct)
  case (single v)
  then obtain m where n: "n = Suc m" by (cases n) auto
  with single show ?case by (simp add: reads_def close_or_comma_simps is_ws_def)
next
  case (cons v vs)
  then obtain m where n: "n = Suc m" by (cases n) auto
  obtain w ws where vs: "vs = w # ws" using cons.hyps by (cases vs) auto
  have j: "join '', '' (map dumps (v # vs)) = dumps v @ '', '' @ join '', '' (map dumps vs)" by (simp add: vs)
  have sk: "skip_ws (join '', '' (map dumps vs) @ x) = join '', '' (map dumps vs) @ x" for x
    using dumps_hd [of w] cons.prems by (cases ws) (auto simp: vs intro!: skip_ws_id)
  have "scan_value m (dumps v @ x) = Inr (v, x)" if "num_end x" for x
    using cons.prems that n j by (simp add: reads_def)
  moreover have "scan_elems m (join '', '' (map dumps vs) @ CHR '']'' # r) = Inr (vs, r)"
    using cons.IH [of m] cons.prems n j by simp
  ultimately show ?case
    unfolding n j scan_elems.simps by (simp add: close_or_comma_simps sk del: bind_res_eq_Inr)
qed

abbreviation dumps_pair :: "string \<times> json \<Rightarrow> string" where
  "dumps_pair \<equiv> (\<lambda>(k, v). dumps_str k @ '': '' @ dumps v)"

lemma scan_pairs_step:
  assumes "reads v" "plain v" "2 * length (dumps v) < m" "num_end x"
  shows "scan_pairs (Suc m) (dumps_pair (k, v) @ x) =
    bind_res (close_or_comma (CHR ''}'') x) (\<lambda>(fin, r). if fin then Inr ([(k, v)], r)
      else bind_res (scan_pairs m r) (\<lambda>(kvs, z). Inr ((k, v) # kvs, z)))"
proof -
  have "skip_ws (dumps v @ x) = dumps v @ x" using dumps_hd [OF assms(2)] by (auto intro!: skip_ws_id)
  then have "expect_colon ('': '' @ dumps v @ x) = Inr (dumps v @ x)"
    by (simp add: expect_colon_def skip_ws_id is_ws_def skip_ws_blank)
  moreover have "open_quote (dumps_pair (k, v) @ x) = Inr (concat (map escape_char k) @ dq # '': '' @ dumps v @ x)"
    by (simp add: dumps_str_def)
  moreover have "scan_value m (dumps v @ x) = Inr (v, x)" using assms by (simp add: reads_def)
  ultimately show ?thesis by (simp add: scan_chars_dumps del: bind_res_eq_Inr)
qed

lemma join_hd: "xs \<noteq> [] \<Longrightarrow> \<exists>t. join sep xs = hd xs @ t"
  by (cases "(sep, xs)" rule: join.cases) auto

lemma join_Cons: "xs \<noteq> [] \<Longrightarrow> join sep (x # xs) = x @ sep @ join sep xs"
  by (cases xs) auto

lemma pairs_start: "kvs \<noteq> [] \<Longrightarrow> \<exists>t. join sep (map dumps_pair kvs) = dq # t"
  using join_hd [of "map dumps_pair kvs" sep] by (cases kvs) (auto simp: dumps_str_def split: prod.splits)

lemma starts_with_char_iff: "starts_with_char c s \<longleftrightarrow> s \<noteq> [] \<and> hd s = c"
  by (simp add: starts_with_char_def split: list.split)

lemma scan_pairs_dumps:
  assumes "kvs \<noteq> []" "\<forall>kv \<in> set kvs. plain (snd kv) \<and> reads (snd kv)"
    "2 * length (join '', '' (map dumps_pair kvs)) < n"
  shows "scan_pairs n (join '', '' (map dumps_pair kvs) @ CHR ''}'' # r) = Inr (kvs, r)"
  using assms
proof (induction kvs arbitrary: n rule: list_nonempty_induct)
  case (single kv)
  then obtain m k v where n: "n = Suc m" and kv: "kv = (k, v)" by (cases n; cases kv) auto
  have "2 * length (dumps v) < m" using single.prems by (simp add: n kv dumps_str_def)
  then have "scan_pairs (Suc m) (dumps_pair (k, v) @ CHR ''}'' # r) = Inr ([(k, v)], r)"
    using single.prems by (subst scan_pairs_step) (simp_all add: kv close_or_comma_simps is_ws_def)
  then show ?case by (simp add: n kv del: scan_pairs.simps)
next
  case (cons kv kvs)
  then obtain m k v where n: "n = Suc m" and kv: "kv = (k, v)" by (cases n; cases kv) auto
  let ?rest = "join '', '' (map dumps_pair kvs) @ CHR ''}'' # r"
  have j: "join '', '' (map dumps_pair (kv # kvs)) = dumps_pair (k, v) @ '', '' @ join '', '' (map dumps_pair kvs)"
    using cons.hyps by (simp add: join_Cons kv)
  have sk: "skip_ws ?rest = ?rest"
    using pairs_start [OF cons.hyps(1), of "'', ''"] by (intro skip_ws_id) (auto simp: is_ws_def)
  have len: "2 * length (dumps v) < m" "2 * length (join '', '' (map dumps_pair kvs)) < m"
    using cons.prems(2) unfolding n j by (simp_all add: dumps_str_def)
  have "scan_pairs m ?rest = Inr (kvs, r)" using cons.IH [of m] cons.prems len by simp
  then have "scan_pairs (Suc m) (dumps_pair (k, v) @ '', '' @ ?rest) = Inr ((k, v) # kvs, r)"
    using cons.prems len by (subst scan_pairs_step) (simp_all add: kv close_or_comma_simps sk [simplified])
  then show ?case unfolding n j by (simp add: kv del: scan_pairs.simps)
qed

text \<open>The two bracketed forms, from their contents.\<close>

lemma reads_JList:
  assumes "\<forall>v \<in> set vs. plain v \<and> reads v"
  shows "reads (JList vs)"
  unfolding reads_def
proof (intro allI impI)
  fix r n assume "num_end r" and n: "2 * length (dumps (JList vs)) < n"
  then obtain m where m: "n = Suc m" by (cases n) auto
  show "scan_value n (dumps (JList vs) @ r) = Inr (JList vs, r)"
  proof (cases "vs = []")
    case True
    then show ?thesis by (simp add: m starts_with_char_def skip_ws_id is_ws_def)
  next
    case False
    let ?body = "join '', '' (map dumps vs) @ CHR '']'' # r"
    obtain t where t: "join '', '' (map dumps vs) = dumps (hd vs) @ t"
      using join_hd [of "map dumps vs"] False by (auto simp: hd_map)
    note h = dumps_hd [of "hd vs"]
    have "?body \<noteq> [] \<and> \<not> is_ws (hd ?body) \<and> hd ?body \<noteq> CHR '']''" using h assms False by (simp add: t)
    then have "skip_ws ?body = ?body" "\<not> starts_with_char (CHR '']'') ?body"
      by (simp_all add: skip_ws_id starts_with_char_iff)
    moreover have "scan_elems m ?body = Inr (vs, r)"
      using scan_elems_dumps [of vs m r] assms n m False by simp
    ultimately show ?thesis by (simp add: m del: bind_res_eq_Inr)
  qed
qed

lemma reads_JDict:
  assumes "distinct_keys kvs" "\<forall>kv \<in> set kvs. plain (snd kv) \<and> reads (snd kv)"
  shows "reads (JDict kvs)"
  unfolding reads_def
proof (intro allI impI)
  fix r n assume "num_end r" and n: "2 * length (dumps (JDict kvs)) < n"
  then obtain m where m: "n = Suc m" by (cases n) auto
  show "scan_value n (dumps (JDict kvs) @ r) = Inr (JDict kvs, r)"
  proof (cases "kvs = []")
    case True
    then show ?thesis by (simp add: m starts_with_char_def skip_ws_id is_ws_def)
  next
    case False
    let ?body = "join '', '' (map dumps_pair kvs) @ CHR ''}'' # r"
    have "?body \<noteq> [] \<and> hd ?body = dq" using pairs_start [OF False, of "'', ''"] by auto
    then have "skip_ws ?body = ?body" "\<not> starts_with_char (CHR ''}'') ?body"
      by (simp_all add: skip_ws_id starts_with_char_iff is_ws_def)
    moreover have "scan_pairs m ?body = Inr (kvs, r)"
      using scan_pairs_dumps [of kvs m r] assms n m False by simp
    ultimately show ?thesis
      using fold_update_distinct [of "[]" kvs] assms by (simp add: m del: bind_res_eq_Inr)
  qed
qed

lemma fuel_Suc: "m < n \<Longrightarrow> \<exists>k. n = Suc k" for m n :: nat
  by (cases n) auto

lemma plain_reads: "plain v \<Longrightarrow> reads v"
proof (induction v)
  case (JList vs)
  then show ?case by (intro reads_JList) auto
next
  case (JDict kvs)
  then show ?case by (intro reads_JDict) (auto simp: snds.simps)
next
  case (JInt n)
  then show ?case using scan_value_int by (auto simp: reads_def dest!: fuel_Suc)
next
  case (JStr s)
  then show ?case by (auto simp: reads_def dumps_str_def scan_chars_dumps dest!: fuel_Suc)
next
  case (JBool b)
  then show ?case by (auto simp: reads_def dest!: fuel_Suc)
next
  case JNull
  then show ?case by (auto simp: reads_def dest!: fuel_Suc)
qed simp

lemma raw_decode_dumps: "plain v \<Longrightarrow> num_end r \<Longrightarrow> raw_decode (dumps v @ r) = Inr (v, r)"
proof -
  assume "plain v" "num_end r"
  moreover have "2 * length (dumps v) < 2 * length (dumps v @ r) + 1" by simp
  ultimately show ?thesis using plain_reads [of v] unfolding raw_decode_def reads_def by blast
qed

lemma loads_dumps: "plain v \<Longrightarrow> json_loads (dumps v) = Inr v"
proof -
  assume v: "plain v"
  have "skip_ws (dumps v) = dumps v" using dumps_hd [OF v] by (simp add: skip_ws_id)
  moreover have "skip_ws [] = []" by (simp add: skip_ws_def)
  ultimately show ?thesis using raw_decode_dumps [OF v, of "[]"] by (simp add: json_loads_def del: bind_res_eq_Inr)
qed

declare scan_value.simps [simp del] scan_elems.simps [simp del] scan_pairs.simps [simp del]

end
