(* ===== verification/Protocol.thy ===== *)
theory Protocol
  imports Json "HOL-Library.Char_ord" "HOL-Library.List_Lexorder"
begin

text \<open>
  The action protocol (\<^verbatim>\<open>core/protocol.py\<close>): the actions a model may request, their parser
  from the text of a model reply and their printer. Every \<^verbatim>\<open>raise\<close> of the source is a branch:
  \<open>ProtocolError\<close> where the code raises it on purpose, \<open>TypeError\<close>, \<open>ValueError\<close> and
  \<open>OverflowError\<close> where a Python operation raises on its own.

  Results: every parsed action is well-formed, the dependency check of a delegation accepts exactly
  the acyclic ones, a well-formed action survives printing and parsing, and the parser fails by
  its own exception except on the payloads that are not tame.
\<close>

section \<open>Actions\<close>

record bash_action =
  command :: string
  timeout_sec :: int
  purpose :: string

record tool_call =
  call_id :: string
  tool :: string
  arguments :: jdict

record delegate_task =
  dt_id :: string
  dt_role :: string
  dt_goal :: string
  dt_profile :: string
  dt_depends_on :: "string list"
  dt_timeout_sec :: int
  dt_output_schema :: string

record memory_reference =
  mr_path :: string
  mr_line_start :: int
  mr_line_end :: int

datatype action =
    BashAction bash_action
  | SkillAction string
  | AskAction string
  | FinalAction string "memory_reference list"
  | ToolCallsAction "tool_call list"
  | DelegateAction "delegate_task list" string string \<comment> \<open>tasks, join, intent\<close>

section \<open>Fields of the payload\<close>

abbreviation perr :: "string \<Rightarrow> string \<Rightarrow> 'a result" where
  "perr msg raw \<equiv> Inl (ProtocolError msg raw)"

text \<open>\<^verbatim>\<open>isinstance(v, str) and v.strip()\<close>.\<close>

definition nonblank_str :: "json \<Rightarrow> string option" where
  "nonblank_str v = (case v of JStr s \<Rightarrow> if blank s then None else Some s | _ \<Rightarrow> None)"

definition is_str :: "json \<Rightarrow> bool" where
  "is_str v = (case v of JStr _ \<Rightarrow> True | _ \<Rightarrow> False)"

definition unknown_keys :: "string list \<Rightarrow> jdict \<Rightarrow> string list" where
  "unknown_keys allowed d = sort (filter (\<lambda>k. k \<notin> set allowed) (map fst d))"

definition parse_timeout :: "json \<Rightarrow> int \<Rightarrow> string \<Rightarrow> int result" where
  "parse_timeout v dflt raw =
     (case v of
        JNull \<Rightarrow> Inr dflt
      | JBool _ \<Rightarrow> perr ''bash.timeout_sec must be a positive integer.'' raw
      | _ \<Rightarrow>
          (case int_of_json v of
             Inl TypeError \<Rightarrow> perr ''bash.timeout_sec must be a positive integer.'' raw
           | Inl (ValueError m) \<Rightarrow> perr ''bash.timeout_sec must be a positive integer.'' raw
           | Inl e \<Rightarrow> Inl e
           | Inr n \<Rightarrow> if n \<le> 0 then perr ''bash.timeout_sec must be a positive integer.'' raw else Inr n))"

definition positive_int :: "json \<Rightarrow> string \<Rightarrow> string \<Rightarrow> int result" where
  "positive_int v name raw =
     (case v of
        JBool _ \<Rightarrow> perr (name @ '' must be a positive integer.'') raw
      | _ \<Rightarrow>
          (case int_of_json v of
             Inl TypeError \<Rightarrow> perr (name @ '' must be a positive integer.'') raw
           | Inl (ValueError m) \<Rightarrow> perr (name @ '' must be a positive integer.'') raw
           | Inl e \<Rightarrow> Inl e
           | Inr n \<Rightarrow> if n \<le> 0 then perr (name @ '' must be a positive integer.'') raw else Inr n))"

definition cap_timeout :: "int option \<Rightarrow> int \<Rightarrow> int" where
  "cap_timeout mx t = (case mx of None \<Rightarrow> t | Some m \<Rightarrow> min t m)"

section \<open>The simple actions\<close>

definition parse_bash :: "jdict \<Rightarrow> string \<Rightarrow> int \<Rightarrow> int option \<Rightarrow> action result" where
  "parse_bash payload raw dflt mx =
     (case nonblank_str (jget payload ''command'') of
        None \<Rightarrow> perr ''bash.command must be a non-empty string.'' raw
      | Some cmd \<Rightarrow>
          bind_res (parse_timeout (jget payload ''timeout_sec'') dflt raw) (\<lambda>t.
            (case jget_or payload ''purpose'' (JStr []) of
               JNull \<Rightarrow> Inr (BashAction \<lparr>command = strip cmd, timeout_sec = cap_timeout mx t, purpose = []\<rparr>)
             | JStr p \<Rightarrow>
                 Inr (BashAction \<lparr>command = strip cmd, timeout_sec = cap_timeout mx t, purpose = strip p\<rparr>)
             | _ \<Rightarrow> perr ''bash.purpose must be a string when provided.'' raw)))"

definition parse_ask :: "jdict \<Rightarrow> string \<Rightarrow> action result" where
  "parse_ask payload raw =
     (case nonblank_str (jget payload ''question'') of
        None \<Rightarrow> perr ''ask.question must be a non-empty string.'' raw
      | Some q \<Rightarrow> Inr (AskAction (strip q)))"

text \<open>The pattern \<^verbatim>\<open>[a-z0-9][a-z0-9._-]{0,63}\<close>, matched in full.\<close>

definition catalog_first :: "char \<Rightarrow> bool" where
  "catalog_first c = ((97 \<le> ord c \<and> ord c \<le> 122) \<or> is_digit c)"

definition catalog_rest :: "char \<Rightarrow> bool" where
  "catalog_rest c = (catalog_first c \<or> c = CHR ''.'' \<or> c = CHR ''_'' \<or> c = CHR ''-'')"

definition catalog_name :: "string \<Rightarrow> bool" where
  "catalog_name s = (case s of [] \<Rightarrow> False
     | c # cs \<Rightarrow> catalog_first c \<and> list_all catalog_rest cs \<and> length cs \<le> 63)"

definition parse_skill :: "jdict \<Rightarrow> string \<Rightarrow> action result" where
  "parse_skill payload raw =
     (case nonblank_str (jget payload ''name'') of
        None \<Rightarrow> perr ''skill.name must be a non-empty string.'' raw
      | Some n \<Rightarrow>
          if catalog_name (lower (strip n)) then Inr (SkillAction (lower (strip n)))
          else perr ''skill.name is not a valid catalog name.'' raw)"

text \<open>\<^verbatim>\<open>PurePosixPath(p).parts\<close>: empty and \<^verbatim>\<open>.\<close> components are dropped, a root comes first.\<close>

fun split_slash :: "string \<Rightarrow> string list" where
  "split_slash [] = [[]]"
| "split_slash (c # cs) =
     (if c = CHR ''/'' then [] # split_slash cs
      else (case split_slash cs of [] \<Rightarrow> [[c]] | p # ps \<Rightarrow> (c # p) # ps))"

definition posix_root :: "string \<Rightarrow> string list" where
  "posix_root s =
     (if startswith s ''//'' \<and> \<not> startswith s ''///'' then [''//'']
      else if startswith s ''/'' then [''/''] else [])"

definition posix_parts :: "string \<Rightarrow> string list" where
  "posix_parts s = posix_root s @ filter (\<lambda>p. p \<noteq> [] \<and> p \<noteq> ''.'') (split_slash s)"

definition drive_prefix :: "string \<Rightarrow> bool" where
  "drive_prefix s = (case s of c # d # _ \<Rightarrow>
      ((65 \<le> ord c \<and> ord c \<le> 90) \<or> (97 \<le> ord c \<and> ord c \<le> 122)) \<and> d = CHR '':'' | _ \<Rightarrow> False)"

definition norm_mem_path :: "json \<Rightarrow> string" where
  "norm_mem_path v =
     strip_char (CHR ''/'') (strip (replace_char bsl (CHR ''/'') (if truthy v then py_str v else [])))"

definition unsafe_mem_path :: "string \<Rightarrow> bool" where
  "unsafe_mem_path p =
     (p = [] \<or> startswith p ''/'' \<or> drive_prefix p \<or>
      ''..'' \<in> set (posix_parts p) \<or> ''.'' \<in> set (posix_parts p))"

definition parse_memory_reference :: "string \<Rightarrow> json \<Rightarrow> memory_reference result" where
  "parse_memory_reference raw v =
     (case v of
        JDict d \<Rightarrow>
          (let p = norm_mem_path (jget d ''path'')
           in if unsafe_mem_path p then perr ''final.memory.path must be a safe relative path.'' raw
              else
                bind_res (positive_int (jget d ''line_start'') ''final.memory.line_start'' raw) (\<lambda>a.
                bind_res (positive_int (jget d ''line_end'') ''final.memory.line_end'' raw) (\<lambda>b.
                  if b < a then perr ''final.memory.line_end must not precede line_start.'' raw
                  else if 20 < b - a + 1 then perr ''final.memory references may span at most 20 lines.'' raw
                  else Inr \<lparr>mr_path = p, mr_line_start = a, mr_line_end = b\<rparr>)))
      | _ \<Rightarrow> perr ''final.memory entries must be objects.'' raw)"

definition parse_final :: "jdict \<Rightarrow> string \<Rightarrow> action result" where
  "parse_final payload raw =
     (case nonblank_str (jget payload ''answer'') of
        None \<Rightarrow> perr ''final.answer must be a non-empty string.'' raw
      | Some ans \<Rightarrow>
          (case jget_or payload ''memory'' (JList []) of
             JList items \<Rightarrow>
               if 8 < length items then perr ''final.memory supports at most 8 references.'' raw
               else bind_res (mapM_res (parse_memory_reference raw) items) (\<lambda>mem.
                 Inr (FinalAction (strip ans) mem))
           | _ \<Rightarrow> perr ''final.memory must be a list when provided.'' raw))"

section \<open>Tool calls\<close>

definition pos_int_value :: "json \<Rightarrow> bool" where
  "pos_int_value v = (case v of JInt n \<Rightarrow> 0 < n | _ \<Rightarrow> False)"

definition nonempty_str :: "json \<Rightarrow> bool" where
  "nonempty_str v = (case v of JStr s \<Rightarrow> s \<noteq> [] | _ \<Rightarrow> False)"

definition when_present :: "jdict \<Rightarrow> string \<Rightarrow> (json \<Rightarrow> bool) \<Rightarrow> bool" where
  "when_present d k P = (case map_of d k of None \<Rightarrow> True | Some v \<Rightarrow> P v)"

definition is_bool :: "json \<Rightarrow> bool" where
  "is_bool v = (case v of JBool _ \<Rightarrow> True | _ \<Rightarrow> False)"

definition tool_names :: "string list" where
  "tool_names = [''read'', ''edit'', ''write'', ''bash'']"

definition allowed_arguments :: "string \<Rightarrow> string list" where
  "allowed_arguments t =
     (if t = ''read'' then [''path'', ''offset'', ''limit'']
      else if t = ''edit'' then [''path'', ''old_string'', ''new_string'', ''replace_all'', ''expected_hash'']
      else if t = ''write'' then [''path'', ''content'', ''expected_hash'']
      else [''command'', ''description'', ''purpose'', ''timeout_sec'', ''workdir''])"

definition validate_tool_arguments :: "string \<Rightarrow> jdict \<Rightarrow> string \<Rightarrow> unit result" where
  "validate_tool_arguments t args raw =
     (if unknown_keys (allowed_arguments t) args \<noteq> [] then
        perr (t @ ''.arguments contains unknown field(s): '' @
              join '', '' (unknown_keys (allowed_arguments t) args) @ ''.'') raw
      else if t \<in> {''read'', ''edit'', ''write''} \<and> nonblank_str (jget args ''path'') = None then
        perr (t @ ''.path must be a non-empty string.'') raw
      else if t = ''read'' then
        (if \<not> when_present args ''offset'' pos_int_value then perr ''read.offset must be a positive integer.'' raw
         else if \<not> when_present args ''limit'' pos_int_value then perr ''read.limit must be a positive integer.'' raw
         else Inr ())
      else if t = ''edit'' then
        (if \<not> nonempty_str (jget args ''old_string'') then perr ''edit.old_string must be a non-empty string.'' raw
         else if \<not> is_str (jget args ''new_string'') then perr ''edit.new_string must be a string.'' raw
         else if \<not> nonempty_str (jget args ''expected_hash'') then perr ''edit.expected_hash must be a non-empty string.'' raw
         else if \<not> when_present args ''replace_all'' is_bool then perr ''edit.replace_all must be a boolean.'' raw
         else Inr ())
      else if t = ''write'' then
        (if \<not> is_str (jget args ''content'') then perr ''write.content must be a string.'' raw
         else if \<not> when_present args ''expected_hash'' is_str then perr ''write.expected_hash must be a string.'' raw
         else Inr ())
      else Inr ())"

text \<open>The loop over \<^verbatim>\<open>("description", "purpose", "workdir")\<close>.\<close>

fun check_bash_strings :: "jdict \<Rightarrow> string \<Rightarrow> string list \<Rightarrow> unit result" where
  "check_bash_strings args raw [] = Inr ()"
| "check_bash_strings args raw (k # ks) =
     (if when_present args k is_str then check_bash_strings args raw ks
      else perr (''bash.'' @ k @ '' must be a string when provided.'') raw)"

definition normalize_bash_call :: "jdict \<Rightarrow> string \<Rightarrow> int \<Rightarrow> int option \<Rightarrow> jdict result" where
  "normalize_bash_call args raw dflt mx =
     (case nonblank_str (jget args ''command'') of
        None \<Rightarrow> perr ''bash.command must be a non-empty string.'' raw
      | Some cmd \<Rightarrow>
          bind_res (parse_timeout (jget args ''timeout_sec'') dflt raw) (\<lambda>t.
            let norm = AList.update ''timeout_sec'' (JInt (cap_timeout mx t))
                         (AList.update ''command'' (JStr (strip cmd)) args)
            in bind_res (check_bash_strings norm raw [''description'', ''purpose'', ''workdir'']) (\<lambda>_.
                 Inr norm)))"

definition parse_tool_call :: "string \<Rightarrow> int \<Rightarrow> int option \<Rightarrow> string list \<Rightarrow> json \<Rightarrow> tool_call result" where
  "parse_tool_call raw dflt mx seen item =
     (case item of
        JDict d \<Rightarrow>
          (case nonblank_str (jget d ''id'') of
             None \<Rightarrow> perr ''tool_calls call id must be a non-empty string.'' raw
           | Some i \<Rightarrow>
               if strip i \<in> set seen then perr (''Duplicate tool call id: '' @ strip i @ ''.'') raw
               else
                 bind_res (in_str_set (jget d ''tool'') tool_names) (\<lambda>known.
                   if \<not> known then perr (''Unknown tool: '' @ py_repr (jget d ''tool'') @ ''.'') raw
                   else
                     (case jget d ''arguments'' of
                        JDict args \<Rightarrow>
                          (let t = py_str (jget d ''tool'')
                           in bind_res (validate_tool_arguments t args raw) (\<lambda>_.
                              bind_res (if t = ''bash'' then normalize_bash_call args raw dflt mx else Inr args) (\<lambda>norm.
                                Inr \<lparr>call_id = strip i, tool = t, arguments = norm\<rparr>)))
                      | _ \<Rightarrow> perr (py_str (jget d ''tool'') @ ''.arguments must be a JSON object.'') raw)))
      | _ \<Rightarrow> perr ''Each tool call must be an object.'' raw)"

fun parse_calls :: "string \<Rightarrow> int \<Rightarrow> int option \<Rightarrow> string list \<Rightarrow> json list \<Rightarrow> tool_call list result" where
  "parse_calls raw dflt mx seen [] = Inr []"
| "parse_calls raw dflt mx seen (item # items) =
     bind_res (parse_tool_call raw dflt mx seen item) (\<lambda>c.
     bind_res (parse_calls raw dflt mx (call_id c # seen) items) (\<lambda>cs. Inr (c # cs)))"

definition parse_tool_calls :: "jdict \<Rightarrow> string \<Rightarrow> int \<Rightarrow> int option \<Rightarrow> int \<Rightarrow> action result" where
  "parse_tool_calls payload raw dflt mx max_calls =
     (if set (map fst payload) \<noteq> {''type'', ''calls''} then
        perr ''tool_calls cannot be mixed with control-action fields.'' raw
      else
        (case jget payload ''calls'' of
           JList calls \<Rightarrow>
             if calls = [] then perr ''tool_calls.calls must be a non-empty array.'' raw
             else if max_calls \<le> 0 then Inl (ValueError ''max_tool_calls must be a positive integer'')
             else if max_calls < int (length calls) then
               perr (''tool_calls.calls supports at most '' @ str_int max_calls @ '' calls.'') raw
             else bind_res (parse_calls raw dflt mx [] calls) (\<lambda>cs. Inr (ToolCallsAction cs))
         | _ \<Rightarrow> perr ''tool_calls.calls must be a non-empty array.'' raw))"

section \<open>Delegation\<close>

text \<open>The depth-first visit of \<^verbatim>\<open>_ensure_acyclic\<close>: \<open>path\<close> is the set \<^verbatim>\<open>visiting\<close>, the last
  argument \<^verbatim>\<open>visited\<close>; the fuel is the number of tasks plus one, which \<open>ensure_acyclic_iff\<close>
  shows to be enough.\<close>

fun fold_res :: "('b \<Rightarrow> 'a \<Rightarrow> 'e + 'a) \<Rightarrow> 'b list \<Rightarrow> 'a \<Rightarrow> 'e + 'a" where
  "fold_res f [] a = Inr a"
| "fold_res f (x # xs) a = bind_res (f x a) (fold_res f xs)"

fun visit :: "nat \<Rightarrow> (string \<Rightarrow> string list option) \<Rightarrow> string \<Rightarrow> string list \<Rightarrow> string \<Rightarrow> string list \<Rightarrow> string list result" where
  "visit 0 edges raw path node visited = Inl (RuntimeError ''out of fuel'')"
| "visit (Suc n) edges raw path node visited =
     (if node \<in> set path then perr ''delegate dependencies must not contain a cycle.'' raw
      else if node \<in> set visited then Inr visited
      else
        (case edges node of
           None \<Rightarrow> Inl KeyError
         | Some deps \<Rightarrow>
             bind_res (fold_res (visit n edges raw (node # path)) deps visited) (\<lambda>v. Inr (node # v))))"

definition task_edges :: "delegate_task list \<Rightarrow> string \<Rightarrow> string list option" where
  "task_edges tasks = map_of (map (\<lambda>t. (dt_id t, dt_depends_on t)) (rev tasks))"

definition ensure_acyclic :: "delegate_task list \<Rightarrow> string \<Rightarrow> unit result" where
  "ensure_acyclic tasks raw =
     bind_res (fold_res (visit (Suc (length tasks)) (task_edges tasks) raw []) (map dt_id tasks) []) (\<lambda>_. Inr ())"

definition known_roles :: "string list" where
  "known_roles = [''scout'', ''planner'', ''worker'', ''reviewer'']"

definition known_profiles :: "string list" where
  "known_profiles = [''root'', ''scout'', ''planner'', ''worker'', ''reviewer'']"

definition known_schemas :: "string list" where
  "known_schemas = [''investigation_report'', ''plan'', ''worker_result'', ''review_report'']"

definition task_fields :: "string list" where
  "task_fields = [''id'', ''role'', ''goal'', ''capability_profile'', ''depends_on'', ''timeout_sec'', ''output_schema'']"

definition str_list :: "json \<Rightarrow> string list option" where
  "str_list v = (case v of
     JList ds \<Rightarrow> if \<forall>d \<in> set ds. nonblank_str d \<noteq> None then Some (map py_str ds) else None | _ \<Rightarrow> None)"

definition delegate_timeout :: "json \<Rightarrow> int option" where
  "delegate_timeout v = (case v of JInt n \<Rightarrow> if 1 \<le> n \<and> n \<le> 86400 then Some n else None | _ \<Rightarrow> None)"

definition parse_task_body :: "string \<Rightarrow> string \<Rightarrow> string \<Rightarrow> string \<Rightarrow> jdict \<Rightarrow> delegate_task result" where
  "parse_task_body raw i role profile d =
     (case nonblank_str (jget d ''goal'') of
        None \<Rightarrow> perr ''delegate task goal must be a non-empty string.'' raw
      | Some goal \<Rightarrow>
          (case str_list (jget_or d ''depends_on'' (JList [])) of
             None \<Rightarrow> perr ''delegate task depends_on must be an array of non-empty strings.'' raw
           | Some deps \<Rightarrow>
               (case delegate_timeout (jget_or d ''timeout_sec'' (JInt 180)) of
                  None \<Rightarrow> perr ''delegate task timeout_sec must be an integer between 1 and 86400.'' raw
                | Some t \<Rightarrow>
                    (case jget_or d ''output_schema'' (JStr ''investigation_report'') of
                       JStr sch \<Rightarrow>
                         if sch \<in> set known_schemas then
                           Inr \<lparr>dt_id = i, dt_role = role, dt_goal = strip goal, dt_profile = profile,
                                dt_depends_on = deps, dt_timeout_sec = t, dt_output_schema = sch\<rparr>
                         else perr (''Unsupported delegate output_schema: '' @ repr_str sch @ ''.'') raw
                     | v \<Rightarrow> perr (''Unsupported delegate output_schema: '' @ py_repr v @ ''.'') raw))))"

definition parse_task :: "string \<Rightarrow> string list \<Rightarrow> json \<Rightarrow> delegate_task result" where
  "parse_task raw seen item =
     (case item of
        JDict d \<Rightarrow>
          if unknown_keys task_fields d \<noteq> [] then
            perr (''delegate task contains unknown field(s): '' @ join '', '' (unknown_keys task_fields d) @ ''.'') raw
          else
            (case nonblank_str (jget d ''id'') of
               None \<Rightarrow> perr ''delegate task id must be a non-empty string.'' raw
             | Some i \<Rightarrow>
                 if strip i \<in> set seen then perr (''Duplicate delegate task id: '' @ strip i @ ''.'') raw
                 else
                   bind_res (in_str_set (jget d ''role'') known_roles) (\<lambda>role_ok.
                     if \<not> role_ok then perr (''Unknown delegate role: '' @ py_repr (jget d ''role'') @ ''.'') raw
                     else
                       (let profile = jget_or d ''capability_profile'' (jget d ''role'')
                        in bind_res (in_str_set profile known_profiles) (\<lambda>profile_ok.
                             if \<not> profile_ok then perr (''Unknown capability profile: '' @ py_repr profile @ ''.'') raw
                             else parse_task_body raw (strip i) (py_str (jget d ''role'')) (py_str profile) d))))
      | _ \<Rightarrow> perr ''Each delegate task must be an object.'' raw)"

fun parse_tasks :: "string \<Rightarrow> string list \<Rightarrow> json list \<Rightarrow> delegate_task list result" where
  "parse_tasks raw seen [] = Inr []"
| "parse_tasks raw seen (item # items) =
     bind_res (parse_task raw seen item) (\<lambda>t.
     bind_res (parse_tasks raw (dt_id t # seen) items) (\<lambda>ts. Inr (t # ts)))"

fun check_dependencies :: "string \<Rightarrow> string list \<Rightarrow> delegate_task list \<Rightarrow> unit result" where
  "check_dependencies raw ids [] = Inr ()"
| "check_dependencies raw ids (t # ts) =
     (if dt_id t \<in> set (dt_depends_on t) \<or> (\<exists>d \<in> set (dt_depends_on t). d \<notin> set ids)
      then perr (''Invalid dependency for delegate task: '' @ dt_id t @ ''.'') raw
      else check_dependencies raw ids ts)"

definition parse_delegate :: "jdict \<Rightarrow> string \<Rightarrow> action result" where
  "parse_delegate payload raw =
     (let unexpected = unknown_keys [''type'', ''tasks'', ''join'', ''intent''] payload
      in if unexpected \<noteq> [] then
           perr (''delegate contains unknown field(s): '' @ join '', '' unexpected @ ''.'') raw
         else
           (case jget payload ''tasks'' of
              JList items \<Rightarrow>
                if items = [] then perr ''delegate.tasks must be a non-empty array.'' raw
                else
                  bind_res (in_str_set (jget_or payload ''join'' (JStr ''all'')) [''all'', ''any'']) (\<lambda>join_ok.
                    if \<not> join_ok then perr (''delegate.join must be 'all' or 'any'.'') raw
                    else
                      (case jget_or payload ''intent'' (JStr []) of
                         JStr intent \<Rightarrow>
                           if 500 < length intent then
                             perr ''delegate.intent must be a string of at most 500 characters.'' raw
                           else
                             (let jn = py_str (jget_or payload ''join'' (JStr ''all''))
                              in bind_res (parse_tasks raw [] items) (\<lambda>tasks.
                                 bind_res (check_dependencies raw (map dt_id tasks) tasks) (\<lambda>_.
                                 bind_res (ensure_acyclic tasks raw) (\<lambda>_.
                                   if jn = ''any'' \<and> (\<exists>t \<in> set tasks. dt_role t = ''worker'')
                                   then perr (''delegate.join='any' is only allowed for read-only tasks.'') raw
                                   else Inr (DelegateAction tasks jn intent)))))
                       | _ \<Rightarrow> perr ''delegate.intent must be a string of at most 500 characters.'' raw))
            | _ \<Rightarrow> perr ''delegate.tasks must be a non-empty array.'' raw))"

section \<open>The whole reply\<close>

lemma dropWhile_eq_ConsD: "dropWhile P s = c # cs \<Longrightarrow> length cs < length s"
  using length_dropWhile_le [of P s] by simp

lemma raw_decode_shorter: "raw_decode s = Inr (v, r) \<Longrightarrow> length r < length s"
  unfolding raw_decode_def by (rule scan_value_shorter)

text \<open>\<^verbatim>\<open>_unwrap_model_json\<close>: the top-level JSON objects of the text, in order.\<close>

function collect_objects :: "string \<Rightarrow> string list result" where
  "collect_objects s =
     (case dropWhile (\<lambda>c. c \<noteq> CHR ''{'') s of
        [] \<Rightarrow> Inr []
      | c # cs \<Rightarrow>
          (case raw_decode (c # cs) of
             Inl (JSONDecodeError m) \<Rightarrow> collect_objects cs
           | Inl e \<Rightarrow> Inl e
           | Inr (v, r) \<Rightarrow>
               (case v of
                  JDict d \<Rightarrow>
                    bind_res (collect_objects r) (\<lambda>objs.
                      Inr (take (length (c # cs) - length r) (c # cs) # objs))
                | _ \<Rightarrow> collect_objects cs)))"
  by pat_completeness auto
termination
  by (relation "measure length")
    (auto dest!: dropWhile_eq_ConsD raw_decode_shorter)

declare collect_objects.simps [simp del]

definition unwrap_model_json :: "string \<Rightarrow> string result" where
  "unwrap_model_json text =
     (let value = strip text in
      bind_res (collect_objects value) (\<lambda>objs. Inr (case objs of [ob] \<Rightarrow> ob | _ \<Rightarrow> value)))"

definition parse_payload :: "jdict \<Rightarrow> string \<Rightarrow> int \<Rightarrow> int option \<Rightarrow> int \<Rightarrow> action result" where
  "parse_payload payload text dflt mx max_calls =
     (let ty = jget payload ''type''
      in if ty \<noteq> JStr ''tool_calls'' \<and> has_key payload ''calls'' then
           perr ''Control and legacy actions cannot be mixed with tool_calls.'' text
         else if ty = JStr ''tool_calls'' then parse_tool_calls payload text dflt mx max_calls
         else if ty = JStr ''delegate'' then parse_delegate payload text
         else if ty = JStr ''bash'' then parse_bash payload text dflt mx
         else if ty = JStr ''skill'' then parse_skill payload text
         else if ty = JStr ''ask'' then parse_ask payload text
         else if ty = JStr ''final'' then parse_final payload text
         else perr ''Action type must be one of: bash, skill, ask, final, tool_calls, delegate.'' text)"

definition parse_action :: "string \<Rightarrow> int \<Rightarrow> int option \<Rightarrow> int \<Rightarrow> action result" where
  "parse_action text0 dflt mx max_calls =
     bind_res (unwrap_model_json text0) (\<lambda>text.
       (case json_loads (strip text) of
          Inl (JSONDecodeError m) \<Rightarrow> perr (''Model output must be exactly one JSON object: '' @ m) text
        | Inl e \<Rightarrow> Inl e
        | Inr (JDict payload) \<Rightarrow> parse_payload payload text dflt mx max_calls
        | Inr _ \<Rightarrow> perr ''Action payload must be a JSON object.'' text))"

section \<open>Printing\<close>

definition tool_call_json :: "tool_call \<Rightarrow> json" where
  "tool_call_json c = JDict [(''id'', JStr (call_id c)), (''tool'', JStr (tool c)), (''arguments'', JDict (arguments c))]"

definition delegate_task_json :: "delegate_task \<Rightarrow> json" where
  "delegate_task_json t = JDict
     [(''id'', JStr (dt_id t)), (''role'', JStr (dt_role t)), (''goal'', JStr (dt_goal t)),
      (''capability_profile'', JStr (dt_profile t)), (''depends_on'', JList (map JStr (dt_depends_on t))),
      (''timeout_sec'', JInt (dt_timeout_sec t)), (''output_schema'', JStr (dt_output_schema t))]"

definition memory_reference_json :: "memory_reference \<Rightarrow> json" where
  "memory_reference_json m = JDict
     [(''path'', JStr (mr_path m)), (''line_start'', JInt (mr_line_start m)), (''line_end'', JInt (mr_line_end m))]"

fun action_to_dict :: "action \<Rightarrow> jdict" where
  "action_to_dict (ToolCallsAction cs) = [(''type'', JStr ''tool_calls''), (''calls'', JList (map tool_call_json cs))]"
| "action_to_dict (DelegateAction ts jn intent) =
     [(''type'', JStr ''delegate''), (''intent'', JStr intent), (''join'', JStr jn),
      (''tasks'', JList (map delegate_task_json ts))]"
| "action_to_dict (BashAction b) =
     [(''type'', JStr ''bash''), (''command'', JStr (command b)), (''timeout_sec'', JInt (timeout_sec b)),
      (''purpose'', JStr (purpose b))]"
| "action_to_dict (SkillAction n) = [(''type'', JStr ''skill''), (''name'', JStr n)]"
| "action_to_dict (AskAction q) = [(''type'', JStr ''ask''), (''question'', JStr q)]"
| "action_to_dict (FinalAction ans mem) =
     (if mem = [] then [(''type'', JStr ''final''), (''answer'', JStr ans)]
      else [(''type'', JStr ''final''), (''answer'', JStr ans), (''memory'', JList (map memory_reference_json mem))])"

definition action_to_json :: "action \<Rightarrow> string" where
  "action_to_json a = dumps (JDict (action_to_dict a))"

section \<open>Well-formed actions\<close>

definition text_ok :: "string \<Rightarrow> bool" where
  "text_ok s = (stripped s \<and> s \<noteq> [])"

definition timeout_ok :: "int option \<Rightarrow> int \<Rightarrow> bool" where
  "timeout_ok mx t = (0 < t \<and> (case mx of None \<Rightarrow> True | Some m \<Rightarrow> t \<le> m))"

definition args_ok :: "string \<Rightarrow> jdict \<Rightarrow> bool" where
  "args_ok t args =
     (set (map fst args) \<subseteq> set (allowed_arguments t) \<and>
      (t \<noteq> ''bash'' \<longrightarrow> nonblank_str (jget args ''path'') \<noteq> None) \<and>
      (t = ''read'' \<longrightarrow> when_present args ''offset'' pos_int_value \<and> when_present args ''limit'' pos_int_value) \<and>
      (t = ''edit'' \<longrightarrow> nonempty_str (jget args ''old_string'') \<and> is_str (jget args ''new_string'') \<and>
         nonempty_str (jget args ''expected_hash'') \<and> when_present args ''replace_all'' is_bool) \<and>
      (t = ''write'' \<longrightarrow> is_str (jget args ''content'') \<and> when_present args ''expected_hash'' is_str))"

definition bash_args_ok :: "int option \<Rightarrow> jdict \<Rightarrow> bool" where
  "bash_args_ok mx args =
     ((case jget args ''command'' of JStr cmd \<Rightarrow> text_ok cmd | _ \<Rightarrow> False) \<and>
      (case jget args ''timeout_sec'' of JInt t \<Rightarrow> timeout_ok mx t | _ \<Rightarrow> False) \<and>
      (\<forall>k \<in> {''description'', ''purpose'', ''workdir''}. when_present args k is_str))"

definition wf_call :: "int option \<Rightarrow> tool_call \<Rightarrow> bool" where
  "wf_call mx c =
     (text_ok (call_id c) \<and> tool c \<in> set tool_names \<and> args_ok (tool c) (arguments c) \<and>
      (tool c = ''bash'' \<longrightarrow> bash_args_ok mx (arguments c)))"

definition wf_ref :: "memory_reference \<Rightarrow> bool" where
  "wf_ref m = (\<not> unsafe_mem_path (mr_path m) \<and> 0 < mr_line_start m \<and> mr_line_start m \<le> mr_line_end m \<and>
     mr_line_end m - mr_line_start m < 20)"

definition wf_task :: "delegate_task \<Rightarrow> bool" where
  "wf_task t = (text_ok (dt_id t) \<and> text_ok (dt_goal t) \<and> dt_role t \<in> set known_roles \<and>
     dt_profile t \<in> set known_profiles \<and> (\<forall>d \<in> set (dt_depends_on t). \<not> blank d) \<and>
     1 \<le> dt_timeout_sec t \<and> dt_timeout_sec t \<le> 86400 \<and> dt_output_schema t \<in> set known_schemas)"

definition dep_rel :: "delegate_task list \<Rightarrow> (string \<times> string) set" where
  "dep_rel ts = {(dt_id t, d) | t d. t \<in> set ts \<and> d \<in> set (dt_depends_on t)}"

definition deps_closed :: "delegate_task list \<Rightarrow> bool" where
  "deps_closed ts = (\<forall>t \<in> set ts. dt_id t \<notin> set (dt_depends_on t) \<and> set (dt_depends_on t) \<subseteq> set (map dt_id ts))"

fun wf_action :: "int option \<Rightarrow> int \<Rightarrow> action \<Rightarrow> bool" where
  "wf_action mx mc (BashAction b) = (text_ok (command b) \<and> stripped (purpose b) \<and> timeout_ok mx (timeout_sec b))"
| "wf_action mx mc (SkillAction n) = catalog_name n"
| "wf_action mx mc (AskAction q) = text_ok q"
| "wf_action mx mc (FinalAction ans mem) = (text_ok ans \<and> length mem \<le> 8 \<and> list_all wf_ref mem)"
| "wf_action mx mc (ToolCallsAction cs) =
     (cs \<noteq> [] \<and> int (length cs) \<le> mc \<and> distinct (map call_id cs) \<and> list_all (wf_call mx) cs)"
| "wf_action mx mc (DelegateAction ts jn intent) =
     (ts \<noteq> [] \<and> distinct (map dt_id ts) \<and> list_all wf_task ts \<and> deps_closed ts \<and> acyclic (dep_rel ts) \<and>
      jn \<in> {''all'', ''any''} \<and> (jn = ''any'' \<longrightarrow> (\<forall>t \<in> set ts. dt_role t \<noteq> ''worker'')) \<and> length intent \<le> 500)"

section \<open>The dependency check\<close>

definition edge_rel :: "(string \<Rightarrow> string list option) \<Rightarrow> (string \<times> string) set" where
  "edge_rel E = {(a, b). \<exists>ds. E a = Some ds \<and> b \<in> set ds}"

text \<open>What \<^verbatim>\<open>visited\<close> holds: a set of nodes closed under dependencies, none of them on a cycle.\<close>

definition settled :: "(string \<Rightarrow> string list option) \<Rightarrow> string set \<Rightarrow> bool" where
  "settled E V = (edge_rel E `` V \<subseteq> V \<and> (\<forall>x \<in> V. (x, x) \<notin> (edge_rel E)\<^sup>+))"

abbreviation cycle_error :: "string \<Rightarrow> exn" where
  "cycle_error raw \<equiv> ProtocolError ''delegate dependencies must not contain a cycle.'' raw"

definition visit_ok :: "(string \<Rightarrow> string list option) \<Rightarrow> string \<Rightarrow> string list \<Rightarrow> string list \<Rightarrow> string list result \<Rightarrow> string set \<Rightarrow> bool" where
  "visit_ok E raw path visited r goals =
     (case r of
        Inl e \<Rightarrow> e = cycle_error raw \<and> \<not> acyclic (edge_rel E)
      | Inr v \<Rightarrow> set visited \<subseteq> set v \<and> goals \<subseteq> set v \<and> settled E (set v) \<and> set v \<inter> set path = {})"

lemma settled_insert:
  assumes "settled E V" "node \<notin> V" "E node = Some deps" "set deps \<subseteq> V"
  shows "settled E (insert node V)"
proof -
  have succ: "edge_rel E `` {node} \<subseteq> V" using assms(3,4) by (auto simp: edge_rel_def)
  have closed: "edge_rel E `` V \<subseteq> V" using assms(1) by (simp add: settled_def)
  have "(node, node) \<notin> (edge_rel E)\<^sup>+"
  proof
    assume "(node, node) \<in> (edge_rel E)\<^sup>+"
    then obtain y where y: "(node, y) \<in> edge_rel E" "(y, node) \<in> (edge_rel E)\<^sup>*" by (auto dest: tranclD)
    have "y \<in> V" using y(1) succ by auto
    with y(2) closed have "node \<in> V" by (induction rule: rtrancl_induct) auto
    with assms(2) show False by simp
  qed
  with succ closed assms(1) show ?thesis by (auto simp: settled_def)
qed

lemma fold_visit_ok:
  assumes step: "\<And>d v. d \<in> set ds \<Longrightarrow> settled E (set v) \<Longrightarrow> set v \<inter> set path = {} \<Longrightarrow>
      visit_ok E raw path v (visit n E raw path d v) {d}"
    and start: "settled E (set v)" "set v \<inter> set path = {}"
  shows "visit_ok E raw path v (fold_res (visit n E raw path) ds v) (set ds)"
  using assms
proof (induction ds arbitrary: v)
  case Nil
  then show ?case by (simp add: visit_ok_def)
next
  case (Cons d ds)
  have d: "visit_ok E raw path v (visit n E raw path d v) {d}" using Cons.prems by simp
  show ?case
  proof (cases "visit n E raw path d v")
    case (Inl e)
    with d show ?thesis by (simp add: visit_ok_def)
  next
    case (Inr w)
    with d have w: "settled E (set w)" "set w \<inter> set path = {}" "set v \<subseteq> set w" "d \<in> set w"
      by (simp_all add: visit_ok_def)
    from Cons.IH [OF _ w(1,2)] Cons.prems(1) have "visit_ok E raw path w (fold_res (visit n E raw path) ds w) (set ds)"
      by simp
    with Inr w(3,4) show ?thesis by (auto simp: visit_ok_def split: sum.splits)
  qed
qed

lemma visit_correct:
  assumes "finite (dom E)" and closed: "\<And>a ds. E a = Some ds \<Longrightarrow> set ds \<subseteq> dom E"
    and "distinct path" "set path \<subseteq> dom E" "node \<in> dom E" "card (dom E) < n + length path"
    and "\<And>p. p \<in> set path \<Longrightarrow> (p, node) \<in> (edge_rel E)\<^sup>+"
    and "settled E (set visited)" "set visited \<inter> set path = {}"
  shows "visit_ok E raw path visited (visit n E raw path node visited) {node}"
  using assms(3-)
proof (induction n arbitrary: path node visited)
  case 0
  then have "card (set path) \<le> card (dom E)" using assms(1) by (meson card_mono)
  with 0 show ?case by (simp add: distinct_card)
next
  case (Suc n)
  show ?case
  proof (cases "node \<in> set path \<or> node \<in> set visited")
    case True
    with Suc.prems show ?thesis by (auto simp: visit_ok_def acyclic_def)
  next
    case False
    obtain deps where deps: "E node = Some deps" using Suc.prems(3) by auto
    have edge: "(node, d) \<in> edge_rel E" if "d \<in> set deps" for d using deps that by (auto simp: edge_rel_def)
    have "visit_ok E raw (node # path) visited (fold_res (visit n E raw (node # path)) deps visited) (set deps)"
    proof (rule fold_visit_ok)
      fix d v assume d: "d \<in> set deps" and v: "settled E (set v)" "set v \<inter> set (node # path) = {}"
      show "visit_ok E raw (node # path) v (visit n E raw (node # path) d v) {d}"
        using Suc.prems False d v edge [OF d] closed [OF deps] by (intro Suc.IH) (auto intro: trancl_into_trancl)
    qed (use Suc.prems False in auto)
    with False deps show ?thesis
      by (auto simp: visit_ok_def split: sum.splits intro: settled_insert)
  qed
qed

lemma edge_rel_dom: "(a, b) \<in> edge_rel E \<Longrightarrow> a \<in> dom E"
  by (auto simp: edge_rel_def)

lemma settled_all_acyclic: "settled E V \<Longrightarrow> dom E \<subseteq> V \<Longrightarrow> acyclic (edge_rel E)"
  unfolding acyclic_def settled_def by (meson edge_rel_dom subsetD tranclD)

lemma dom_task_edges: "dom (task_edges ts) = set (map dt_id ts)"
  by (force simp: task_edges_def dom_map_of_conv_image_fst)

lemma task_edges_Some:
  "distinct (map dt_id ts) \<Longrightarrow> task_edges ts i = Some ds \<longleftrightarrow> (\<exists>t \<in> set ts. dt_id t = i \<and> dt_depends_on t = ds)"
  by (auto simp: task_edges_def comp_def distinct_map rev_map intro!: map_of_is_SomeI dest!: map_of_SomeD)

lemma edge_rel_task_edges: "distinct (map dt_id ts) \<Longrightarrow> edge_rel (task_edges ts) = dep_rel ts"
  by (auto simp: edge_rel_def dep_rel_def task_edges_Some)

lemma ensure_acyclic_cases:
  assumes dist: "distinct (map dt_id ts)" and cl: "deps_closed ts"
  shows "(ensure_acyclic ts raw = Inr () \<and> acyclic (dep_rel ts)) \<or>
         (ensure_acyclic ts raw = Inl (cycle_error raw) \<and> \<not> acyclic (dep_rel ts))"
proof -
  let ?E = "task_edges ts" and ?n = "Suc (length ts)"
  have fin: "finite (dom ?E)" and card: "card (dom ?E) = length ts"
    unfolding dom_task_edges using distinct_card [OF dist] by simp_all
  have closed: "set ds \<subseteq> dom ?E" if "?E a = Some ds" for a ds
    using that dist cl unfolding dom_task_edges by (auto simp: task_edges_Some deps_closed_def)
  have "visit_ok ?E raw [] [] (fold_res (visit ?n ?E raw []) (map dt_id ts) []) (set (map dt_id ts))"
    using fin closed card dom_task_edges [of ts]
    by (intro fold_visit_ok visit_correct) (auto simp: settled_def)
  moreover have "acyclic (edge_rel ?E)" if "settled ?E (set v)" "set (map dt_id ts) \<subseteq> set v" for v
    using that by (intro settled_all_acyclic) (auto simp: dom_task_edges)
  ultimately show ?thesis
    unfolding ensure_acyclic_def edge_rel_task_edges [OF dist]
    by (auto simp: visit_ok_def edge_rel_task_edges [OF dist] split: sum.splits)
qed

section \<open>Parsed actions are well-formed\<close>

lemma nonblank_str_Some [simp]: "nonblank_str v = Some s \<longleftrightarrow> v = JStr s \<and> \<not> blank s"
  by (auto simp: nonblank_str_def split: json.splits)

lemma stripped_Nil: "stripped []"
  by (simp add: stripped_def)

lemma text_ok_strip [simp]: "text_ok (strip s) \<longleftrightarrow> \<not> blank s"
  by (simp add: text_ok_def blank_def)

lemma text_ok_not_blank: "text_ok s \<Longrightarrow> \<not> blank s"
  by (auto simp: text_ok_def blank_def strip_id)

lemma in_str_set_True [simp]: "in_str_set v xs = Inr True \<longleftrightarrow> (\<exists>s \<in> set xs. v = JStr s)"
  by (auto simp: in_str_set_def split: json.splits)

lemma parse_timeout_pos: "parse_timeout v dflt raw = Inr t \<Longrightarrow> 0 < dflt \<Longrightarrow> 0 < t"
  by (auto simp: parse_timeout_def split: json.splits sum.splits exn.splits if_splits)

lemma positive_int_pos: "positive_int v name raw = Inr t \<Longrightarrow> 0 < t"
  by (auto simp: positive_int_def split: json.splits sum.splits exn.splits if_splits)

definition limits_ok :: "int \<Rightarrow> int option \<Rightarrow> bool" where
  "limits_ok dflt mx = (0 < dflt \<and> (case mx of None \<Rightarrow> True | Some m \<Rightarrow> 0 < m))"

lemma timeout_ok_cap: "parse_timeout v dflt raw = Inr t \<Longrightarrow> limits_ok dflt mx \<Longrightarrow> timeout_ok mx (cap_timeout mx t)"
  by (auto simp: timeout_ok_def cap_timeout_def limits_ok_def parse_timeout_pos split: option.splits)

lemma unknown_keys_Nil: "unknown_keys allowed d = [] \<longleftrightarrow> set (map fst d) \<subseteq> set allowed"
proof -
  have "unknown_keys allowed d = [] \<longleftrightarrow> set (unknown_keys allowed d) = {}" by simp
  then show ?thesis by (auto simp: unknown_keys_def simp del: set_empty)
qed

lemma validate_tool_arguments_iff:
  assumes "t \<in> set tool_names"
  shows "validate_tool_arguments t args raw = Inr () \<longleftrightarrow> args_ok t args"
proof -
  consider "t = ''read''" | "t = ''edit''" | "t = ''write''" | "t = ''bash''"
    using assms unfolding tool_names_def by auto
  then show ?thesis
    by cases (simp_all add: validate_tool_arguments_def args_ok_def unknown_keys_Nil del: not_None_eq)
qed

lemma check_bash_strings_iff: "check_bash_strings args raw ks = Inr () \<longleftrightarrow> (\<forall>k \<in> set ks. when_present args k is_str)"
  by (induction ks) auto

lemma args_ok_update:
  "args_ok ''bash'' args \<Longrightarrow> k \<in> set (allowed_arguments ''bash'') \<Longrightarrow> args_ok ''bash'' (AList.update k v args)"
  by (auto simp: args_ok_def dom_update)

lemma normalize_bash_call_ok:
  assumes "normalize_bash_call args raw dflt mx = Inr nd" "args_ok ''bash'' args" "limits_ok dflt mx"
  shows "args_ok ''bash'' nd \<and> bash_args_ok mx nd"
proof -
  obtain cmd t where "\<not> blank cmd" "parse_timeout (jget args ''timeout_sec'') dflt raw = Inr t"
    and nd: "nd = AList.update ''timeout_sec'' (JInt (cap_timeout mx t)) (AList.update ''command'' (JStr (strip cmd)) args)"
    and strs: "check_bash_strings nd raw [''description'', ''purpose'', ''workdir''] = Inr ()"
    using assms(1) by (auto simp: normalize_bash_call_def Let_def split: option.splits)
  then have "bash_args_ok mx nd"
    using assms(3) check_bash_strings_iff [THEN iffD1, OF strs] by (auto simp: bash_args_ok_def jget_def timeout_ok_cap)
  moreover have "args_ok ''bash'' nd"
    unfolding nd using assms(2) by (intro args_ok_update) (auto simp: allowed_arguments_def)
  ultimately show ?thesis by simp
qed

lemma parse_tool_call_wf:
  assumes "parse_tool_call raw dflt mx seen item = Inr c" "limits_ok dflt mx"
  shows "wf_call mx c \<and> call_id c \<notin> set seen"
proof -
  obtain d i t args nd where "item = JDict d" and i: "\<not> blank i" "strip i \<notin> set seen"
    and t: "t \<in> set tool_names" "validate_tool_arguments t args raw = Inr ()"
    and nd: "(if t = ''bash'' then normalize_bash_call args raw dflt mx else Inr args) = Inr nd"
    and c: "c = \<lparr>call_id = strip i, tool = t, arguments = nd\<rparr>"
    using assms(1)
    by (auto simp: parse_tool_call_def Let_def split: json.splits option.splits if_splits)
  have "args_ok t args" using t by (simp add: validate_tool_arguments_iff)
  with nd assms(2) have "args_ok t nd \<and> (t = ''bash'' \<longrightarrow> bash_args_ok mx nd)"
    by (auto split: if_splits dest: normalize_bash_call_ok)
  with i t show ?thesis by (simp add: c wf_call_def)
qed

lemma parse_calls_wf:
  "parse_calls raw dflt mx seen items = Inr cs \<Longrightarrow> limits_ok dflt mx \<Longrightarrow>
   list_all (wf_call mx) cs \<and> distinct (map call_id cs) \<and> set (map call_id cs) \<inter> set seen = {} \<and>
   length cs = length items"
  by (induction raw dflt mx seen items arbitrary: cs rule: parse_calls.induct)
    (force dest: parse_tool_call_wf)+

lemma str_list_ok: "str_list v = Some ds \<Longrightarrow> d \<in> set ds \<Longrightarrow> \<not> blank d"
  by (fastforce simp: str_list_def split: json.splits if_splits)

lemma parse_task_wf:
  "parse_task raw seen item = Inr t \<Longrightarrow> wf_task t \<and> dt_id t \<notin> set seen"
  by (auto simp: parse_task_def parse_task_body_def wf_task_def Let_def delegate_timeout_def str_list_ok
      split: json.splits option.splits if_splits)

lemma parse_tasks_wf:
  "parse_tasks raw seen items = Inr ts \<Longrightarrow>
   list_all wf_task ts \<and> distinct (map dt_id ts) \<and> set (map dt_id ts) \<inter> set seen = {} \<and> length ts = length items"
  by (induction raw seen items arbitrary: ts rule: parse_tasks.induct) (force dest: parse_task_wf)+

lemma check_dependencies_iff:
  "check_dependencies raw ids ts = Inr () \<longleftrightarrow>
   (\<forall>t \<in> set ts. dt_id t \<notin> set (dt_depends_on t) \<and> set (dt_depends_on t) \<subseteq> set ids)"
  by (induction ts) auto

lemma parse_delegate_wf:
  assumes "parse_delegate payload raw = Inr a"
  shows "wf_action mx mc a"
proof -
  obtain items jn intent ts where items: "items \<noteq> []" and jn: "jn \<in> {''all'', ''any''}"
    and intent: "\<not> 500 < length intent" and ts: "parse_tasks raw [] items = Inr ts"
    and deps: "check_dependencies raw (map dt_id ts) ts = Inr ()" and acy: "ensure_acyclic ts raw = Inr ()"
    and ro: "\<not> (jn = ''any'' \<and> (\<exists>t \<in> set ts. dt_role t = ''worker''))"
    and a: "a = DelegateAction ts jn intent"
    using assms by (auto simp: parse_delegate_def Let_def split: json.splits if_splits)
  note wf = parse_tasks_wf [OF ts]
  have closed: "deps_closed ts" using deps by (simp add: check_dependencies_iff deps_closed_def)
  have "acyclic (dep_rel ts)" using ensure_acyclic_cases [of ts raw] wf closed acy by auto
  with wf closed items jn intent ro show ?thesis by (auto simp: a)
qed

lemma parse_memory_reference_wf: "parse_memory_reference raw v = Inr m \<Longrightarrow> wf_ref m"
  by (auto simp: parse_memory_reference_def wf_ref_def Let_def positive_int_pos split: json.splits if_splits)

lemma parse_memory_wf: "mapM_res (parse_memory_reference raw) items = Inr mem \<Longrightarrow> list_all wf_ref mem"
  unfolding list_all_iff by (meson mapM_res_all parse_memory_reference_wf)

lemma parse_final_wf: "parse_final payload raw = Inr a \<Longrightarrow> wf_action mx mc a"
  by (auto simp: parse_final_def mapM_res_length parse_memory_wf split: option.splits json.splits if_splits)

lemma parse_payload_wf:
  assumes "parse_payload payload text dflt mx mc = Inr a" "limits_ok dflt mx"
  shows "wf_action mx mc a"
proof -
  consider "parse_tool_calls payload text dflt mx mc = Inr a" | "parse_delegate payload text = Inr a"
    | "parse_bash payload text dflt mx = Inr a" | "parse_skill payload text = Inr a"
    | "parse_ask payload text = Inr a" | "parse_final payload text = Inr a"
    using assms(1) by (auto simp: parse_payload_def Let_def split: if_splits)
  then show ?thesis
  proof cases
    case 1
    then obtain calls cs where "calls \<noteq> []" "\<not> mc < int (length calls)" "parse_calls text dflt mx [] calls = Inr cs"
      and "a = ToolCallsAction cs"
      by (auto simp: parse_tool_calls_def split: if_splits json.splits)
    with parse_calls_wf assms(2) show ?thesis by fastforce
  next
    case 2
    then show ?thesis by (rule parse_delegate_wf)
  next
    case 3
    then show ?thesis using assms(2)
      by (cases "jget_or payload ''purpose'' (JStr [])")
        (auto simp: parse_bash_def stripped_Nil split: option.splits intro: timeout_ok_cap)
  next
    case 4
    then show ?thesis by (auto simp: parse_skill_def split: option.splits if_splits)
  next
    case 5
    then show ?thesis by (auto simp: parse_ask_def split: option.splits)
  next
    case 6
    then show ?thesis by (rule parse_final_wf)
  qed
qed

lemma parse_action_payload:
  "parse_action text dflt mx mc = Inr a \<Longrightarrow> \<exists>payload raw. parse_payload payload raw dflt mx mc = Inr a"
  unfolding parse_action_def bind_res_eq_Inr
  by (elim exE conjE) (auto split: sum.split_asm exn.split_asm json.split_asm)

section \<open>Printing and parsing\<close>

text \<open>A path that \<^verbatim>\<open>_parse_memory_reference\<close> leaves as it is; not every path it returns is one,
  since blanks between stripped slashes survive (\<open>norm_mem_path_unstable\<close>).\<close>

fun stable_paths :: "action \<Rightarrow> bool" where
  "stable_paths (FinalAction ans mem) = (\<forall>m \<in> set mem. norm_mem_path (JStr (mr_path m)) = mr_path m)"
| "stable_paths _ = True"

lemma dumps_dict_ends: "hd (dumps (JDict d)) = CHR ''{'' \<and> last (dumps (JDict d)) = CHR ''}''"
  by simp

lemma stripped_dumps_dict: "stripped (dumps (JDict d))"
  using dumps_dict_ends [of d] by (simp add: stripped_def is_space_def)

lemma collect_objects_dumps:
  assumes "plain (JDict d)"
  shows "collect_objects (dumps (JDict d)) = Inr [dumps (JDict d)]"
proof -
  obtain cs where cs: "dumps (JDict d) = CHR ''{'' # cs" by simp
  have "raw_decode (CHR ''{'' # cs) = Inr (JDict d, [])"
    using raw_decode_dumps [OF assms, of "[]"] cs by simp
  moreover have "collect_objects [] = Inr []" by (simp add: collect_objects.simps)
  ultimately show ?thesis
    unfolding cs by (subst collect_objects.simps) (simp del: bind_res_eq_Inr)
qed

lemma unwrap_dumps: "plain (JDict d) \<Longrightarrow> unwrap_model_json (dumps (JDict d)) = Inr (dumps (JDict d))"
  unfolding unwrap_model_json_def Let_def strip_id [OF stripped_dumps_dict] collect_objects_dumps
  by (simp only: bind_res.simps list.case)

lemma parse_action_dumps:
  "plain (JDict d) \<Longrightarrow> parse_action (dumps (JDict d)) dflt mx mc = parse_payload d (dumps (JDict d)) dflt mx mc"
  unfolding parse_action_def
  by (simp only: unwrap_dumps bind_res.simps strip_id [OF stripped_dumps_dict] loads_dumps sum.case json.case)

lemma jget_Cons [simp]: "jget ((k, v) # d) k' = (if k = k' then v else jget d k')"
  by (simp add: jget_def)

lemma jget_Nil [simp]: "jget [] k = JNull"
  by (simp add: jget_def)

lemma jget_or_Cons [simp]: "jget_or ((k, v) # d) k' w = (if k = k' then v else jget_or d k' w)"
  by (simp add: jget_or_def)

lemma jget_or_Nil [simp]: "jget_or [] k w = w"
  by (simp add: jget_or_def)

lemma has_key_Cons [simp]: "has_key ((k, v) # d) k' = (k = k' \<or> has_key d k')"
  by (simp add: has_key_def)

lemma has_key_Nil [simp]: "has_key [] k = False"
  by (simp add: has_key_def)

lemma nonblank_text_ok: "text_ok s \<Longrightarrow> nonblank_str (JStr s) = Some s \<and> strip s = s"
  by (simp add: text_ok_not_blank) (simp add: text_ok_def strip_id)

lemma parse_timeout_ok: "timeout_ok mx t \<Longrightarrow> parse_timeout (JInt t) dflt raw = Inr t \<and> cap_timeout mx t = t"
  by (auto simp: timeout_ok_def parse_timeout_def cap_timeout_def split: option.splits)

lemma positive_int_ok: "0 < n \<Longrightarrow> positive_int (JInt n) name raw = Inr n"
  by (simp add: positive_int_def)

lemma update_present: "map_of d k = Some v \<Longrightarrow> AList.update k v d = d"
  by (induction d) (auto split: if_splits)

lemma normalize_bash_call_id:
  assumes "bash_args_ok mx args"
  shows "normalize_bash_call args raw dflt mx = Inr args"
proof -
  obtain cmd t where c: "map_of args ''command'' = Some (JStr cmd)" "text_ok cmd"
    and t: "map_of args ''timeout_sec'' = Some (JInt t)" "timeout_ok mx t"
    and strs: "\<forall>k \<in> set [''description'', ''purpose'', ''workdir'']. when_present args k is_str"
    using assms by (auto simp: bash_args_ok_def jget_def split: json.splits option.splits)
  from strs have "check_bash_strings args raw [''description'', ''purpose'', ''workdir''] = Inr ()"
    unfolding check_bash_strings_iff .
  with c t show ?thesis
    unfolding normalize_bash_call_def jget_def
    by (simp add: nonblank_text_ok parse_timeout_ok update_present Let_def del: bind_res_eq_Inr nonblank_str_Some check_bash_strings.simps)
qed

lemma in_str_set_JStr [simp]: "in_str_set (JStr s) xs = Inr (s \<in> set xs)"
  by (simp add: in_str_set_def)

lemma parse_tool_call_json:
  assumes "wf_call mx c" "call_id c \<notin> set seen"
  shows "parse_tool_call raw dflt mx seen (tool_call_json c) = Inr c"
  using assms validate_tool_arguments_iff [of "tool c" "arguments c" raw]
  by (simp add: wf_call_def parse_tool_call_def tool_call_json_def nonblank_text_ok normalize_bash_call_id Let_def
      del: bind_res_eq_Inr nonblank_str_Some)

lemma parse_calls_json:
  "list_all (wf_call mx) cs \<Longrightarrow> distinct (map call_id cs) \<Longrightarrow> set (map call_id cs) \<inter> set seen = {} \<Longrightarrow>
   parse_calls raw dflt mx seen (map tool_call_json cs) = Inr cs"
  by (induction cs arbitrary: seen) (auto simp: parse_tool_call_json)

lemma str_list_JStr: "\<forall>d \<in> set ds. \<not> blank d \<Longrightarrow> str_list (JList (map JStr ds)) = Some ds"
  by (auto simp: str_list_def comp_def)

lemma parse_task_json:
  assumes "wf_task t" "dt_id t \<notin> set seen"
  shows "parse_task raw seen (delegate_task_json t) = Inr t"
proof -
  have "unknown_keys task_fields d = []" if "delegate_task_json t = JDict d" for d
    using that by (auto simp: unknown_keys_Nil task_fields_def delegate_task_json_def)
  with assms show ?thesis
    by (simp add: wf_task_def parse_task_def parse_task_body_def delegate_task_json_def nonblank_text_ok str_list_JStr
        delegate_timeout_def Let_def del: bind_res_eq_Inr nonblank_str_Some)
qed

lemma parse_tasks_json:
  "list_all wf_task ts \<Longrightarrow> distinct (map dt_id ts) \<Longrightarrow> set (map dt_id ts) \<inter> set seen = {} \<Longrightarrow>
   parse_tasks raw seen (map delegate_task_json ts) = Inr ts"
  by (induction ts arbitrary: seen) (auto simp: parse_task_json)

lemma parse_delegate_json:
  assumes "wf_action mx mc (DelegateAction ts jn intent)"
  shows "parse_delegate (action_to_dict (DelegateAction ts jn intent)) raw = Inr (DelegateAction ts jn intent)"
proof -
  have tasks: "parse_tasks raw [] (map delegate_task_json ts) = Inr ts"
    using assms by (intro parse_tasks_json) auto
  have deps: "check_dependencies raw (map dt_id ts) ts = Inr ()"
    using assms by (simp add: check_dependencies_iff deps_closed_def)
  have acy: "ensure_acyclic ts raw = Inr ()"
    using assms ensure_acyclic_cases [of ts raw] by auto
  have keys: "unknown_keys [''type'', ''tasks'', ''join'', ''intent''] (action_to_dict (DelegateAction ts jn intent)) = []"
    by (simp add: unknown_keys_Nil)
  show ?thesis
    using assms unfolding parse_delegate_def Let_def keys
    by (auto simp: tasks deps acy simp del: bind_res_eq_Inr)
qed

lemma parse_memory_json:
  "wf_ref m \<Longrightarrow> norm_mem_path (JStr (mr_path m)) = mr_path m \<Longrightarrow>
   parse_memory_reference raw (memory_reference_json m) = Inr m"
  by (simp add: wf_ref_def parse_memory_reference_def memory_reference_json_def positive_int_ok Let_def del: bind_res_eq_Inr)

lemma parse_memories_json:
  "list_all wf_ref mem \<Longrightarrow> \<forall>m \<in> set mem. norm_mem_path (JStr (mr_path m)) = mr_path m \<Longrightarrow>
   mapM_res (parse_memory_reference raw) (map memory_reference_json mem) = Inr mem"
  by (induction mem) (auto simp: parse_memory_json)

lemma catalog_char: "catalog_rest c \<Longrightarrow> lower_char c = c \<and> \<not> is_space c"
  by (auto simp: catalog_rest_def catalog_first_def is_digit_def lower_char_def is_space_def Let_def)

lemma catalog_chars: "catalog_name n \<Longrightarrow> n \<noteq> [] \<and> (\<forall>c \<in> set n. catalog_rest c)"
  by (auto simp: catalog_name_def catalog_rest_def list_all_iff split: list.splits)

lemma lower_catalog: "catalog_name n \<Longrightarrow> lower n = n"
  using catalog_chars [of n] by (auto simp: lower_def catalog_char intro!: map_idI)

lemma text_ok_catalog: "catalog_name n \<Longrightarrow> text_ok n"
  using catalog_chars [of n] catalog_char by (auto simp: text_ok_def stripped_def)

lemma parse_payload_to_dict:
  assumes "wf_action mx mc a" "stable_paths a" "0 < mc"
  shows "parse_payload (action_to_dict a) raw dflt mx mc = Inr a"
proof (cases a)
  case (DelegateAction ts jn intent)
  with assms parse_delegate_json [of mx mc ts jn intent raw] show ?thesis
    by (simp add: parse_payload_def Let_def)
next
  case (ToolCallsAction cs)
  with assms parse_calls_json [of mx cs "[]" raw dflt] show ?thesis
    by (auto simp: parse_payload_def parse_tool_calls_def Let_def simp del: bind_res_eq_Inr)
next
  case (FinalAction ans mem)
  with assms parse_memories_json [of mem raw] show ?thesis
    by (simp add: parse_payload_def parse_final_def Let_def nonblank_text_ok del: bind_res_eq_Inr nonblank_str_Some)
next
  case (BashAction b)
  with assms have "parse_timeout (JInt (timeout_sec b)) dflt raw = Inr (timeout_sec b) \<and> cap_timeout mx (timeout_sec b) = timeout_sec b"
    by (intro parse_timeout_ok) simp
  with BashAction assms show ?thesis
    by (simp add: parse_payload_def parse_bash_def Let_def nonblank_text_ok strip_id del: bind_res_eq_Inr)
next
  case (SkillAction n)
  with assms have "text_ok n" by (simp add: text_ok_catalog)
  with SkillAction assms show ?thesis
    by (simp add: parse_payload_def parse_skill_def Let_def nonblank_text_ok lower_catalog)
next
  case (AskAction q)
  with assms show ?thesis by (simp add: parse_payload_def parse_ask_def Let_def nonblank_text_ok)
qed

section \<open>Failures\<close>

text \<open>The runner turns a \<open>ProtocolError\<close> into an observation and lets every other exception end the
  run. A payload is tame when it has no infinite number where \<^verbatim>\<open>int()\<close> is applied and no list or
  object where the code asks for membership in a set of names; on a tame payload every failure is
  a \<open>ProtocolError\<close>.\<close>

definition is_perr :: "exn \<Rightarrow> bool" where
  "is_perr e = (case e of ProtocolError m raw \<Rightarrow> True | _ \<Rightarrow> False)"

definition json_items :: "json \<Rightarrow> json list" where
  "json_items v = (case v of JList vs \<Rightarrow> vs | _ \<Rightarrow> [])"

definition json_fields :: "json \<Rightarrow> jdict" where
  "json_fields v = (case v of JDict d \<Rightarrow> d | _ \<Rightarrow> [])"

definition not_infinite :: "json \<Rightarrow> bool" where
  "not_infinite v = (v \<noteq> JFloat PInf \<and> v \<noteq> JFloat NInf)"

definition tame_call :: "json \<Rightarrow> bool" where
  "tame_call v = (let d = json_fields v in
     hashable (jget d ''tool'') \<and> not_infinite (jget (json_fields (jget d ''arguments'')) ''timeout_sec''))"

definition tame_task :: "json \<Rightarrow> bool" where
  "tame_task v = (let d = json_fields v in hashable (jget d ''role'') \<and> hashable (jget d ''capability_profile''))"

definition tame_reference :: "json \<Rightarrow> bool" where
  "tame_reference v = (let d = json_fields v in not_infinite (jget d ''line_start'') \<and> not_infinite (jget d ''line_end''))"

definition tame_payload :: "jdict \<Rightarrow> bool" where
  "tame_payload p =
     (not_infinite (jget p ''timeout_sec'') \<and> hashable (jget p ''join'') \<and>
      list_all tame_call (json_items (jget p ''calls'')) \<and> list_all tame_task (json_items (jget p ''tasks'')) \<and>
      list_all tame_reference (json_items (jget p ''memory'')))"

lemma is_perr_simps [simp]:
  "is_perr (ProtocolError m raw)" "\<not> is_perr TypeError" "\<not> is_perr OverflowError" "\<not> is_perr (ValueError m)"
  by (simp_all add: is_perr_def)

lemma int_of_str_error: "int_of_str s = Inl e \<Longrightarrow> \<exists>m. e = ValueError m"
  by (auto simp: int_of_str_def Let_def split: if_splits)

lemma int_of_json_error:
  assumes "int_of_json v = Inl e" "not_infinite v"
  shows "e = TypeError \<or> (\<exists>m. e = ValueError m)"
proof (cases v)
  case (JFloat f)
  with assms show ?thesis by (cases f) (auto simp: not_infinite_def)
qed (use assms in \<open>auto dest: int_of_str_error\<close>)

lemma parse_timeout_error: "parse_timeout v dflt raw = Inl e \<Longrightarrow> not_infinite v \<Longrightarrow> is_perr e"
  using int_of_json_error [of v]
  by (fastforce simp: parse_timeout_def split: json.split_asm sum.split_asm exn.split_asm if_split_asm)

lemma positive_int_error: "positive_int v name raw = Inl e \<Longrightarrow> not_infinite v \<Longrightarrow> is_perr e"
  using int_of_json_error [of v]
  by (fastforce simp: positive_int_def split: json.split_asm sum.split_asm exn.split_asm if_split_asm)

lemma in_str_set_total: "hashable v \<Longrightarrow> \<exists>b. in_str_set v xs = Inr b"
  by (simp add: in_str_set_def)

lemma validate_tool_arguments_error: "validate_tool_arguments t args raw = Inl e \<Longrightarrow> is_perr e"
  by (auto simp: validate_tool_arguments_def split: if_split_asm)

lemma check_bash_strings_error: "check_bash_strings args raw ks = Inl e \<Longrightarrow> is_perr e"
  by (induction ks) (auto split: if_split_asm)

lemma normalize_bash_call_error:
  "normalize_bash_call args raw dflt mx = Inl e \<Longrightarrow> not_infinite (jget args ''timeout_sec'') \<Longrightarrow> is_perr e"
  by (auto simp: normalize_bash_call_def bind_res_eq_Inl Let_def split: option.split_asm
      dest: parse_timeout_error check_bash_strings_error simp del: check_bash_strings.simps)

lemma parse_tool_call_error:
  assumes "parse_tool_call raw dflt mx seen item = Inl e" "tame_call item"
  shows "is_perr e"
proof (cases item)
  case (JDict d)
  with assms(2) obtain b where b: "in_str_set (jget d ''tool'') tool_names = Inr b"
    and t: "not_infinite (jget (json_fields (jget d ''arguments'')) ''timeout_sec'')"
    using in_str_set_total by (auto simp: tame_call_def json_fields_def Let_def)
  show ?thesis
  proof (cases "jget d ''arguments''")
    case (JDict args)
    with t have "not_infinite (jget args ''timeout_sec'')" by (simp add: json_fields_def)
    with assms(1) b JDict \<open>item = JDict d\<close> show ?thesis
      by (auto simp: parse_tool_call_def bind_res_eq_Inl Let_def split: option.split_asm if_split_asm
          dest: validate_tool_arguments_error normalize_bash_call_error)
  qed (use assms(1) b JDict in \<open>auto simp: parse_tool_call_def split: option.split_asm if_split_asm\<close>)
qed (use assms(1) in \<open>auto simp: parse_tool_call_def\<close>)

lemma parse_calls_error: "parse_calls raw dflt mx seen items = Inl e \<Longrightarrow> list_all tame_call items \<Longrightarrow> is_perr e"
  by (induction raw dflt mx seen items rule: parse_calls.induct) (auto simp: bind_res_eq_Inl dest: parse_tool_call_error)

lemma parse_task_body_error: "parse_task_body raw i role profile d = Inl e \<Longrightarrow> is_perr e"
  by (auto simp: parse_task_body_def split: option.split_asm json.split_asm if_split_asm)

lemma hashable_jget_or: "hashable (jget d k) \<Longrightarrow> hashable v \<Longrightarrow> hashable (jget_or d k v)"
  by (auto simp: jget_def jget_or_def split: option.splits)

lemma parse_task_error:
  assumes "parse_task raw seen item = Inl e" "tame_task item"
  shows "is_perr e"
proof (cases item)
  case (JDict d)
  with assms(2) obtain b c where "in_str_set (jget d ''role'') known_roles = Inr b"
    and "in_str_set (jget_or d ''capability_profile'' (jget d ''role'')) known_profiles = Inr c"
    using in_str_set_total hashable_jget_or by (fastforce simp: tame_task_def json_fields_def Let_def)
  with assms(1) JDict show ?thesis
    by (auto simp: parse_task_def Let_def split: option.split_asm if_split_asm dest: parse_task_body_error)
qed (use assms(1) in \<open>auto simp: parse_task_def\<close>)

lemma parse_tasks_error: "parse_tasks raw seen items = Inl e \<Longrightarrow> list_all tame_task items \<Longrightarrow> is_perr e"
  by (induction raw seen items rule: parse_tasks.induct) (auto simp: bind_res_eq_Inl dest: parse_task_error)

lemma check_dependencies_error: "check_dependencies raw ids ts = Inl e \<Longrightarrow> is_perr e"
  by (induction ts) (auto split: if_split_asm)

lemma check_dependencies_closed: "check_dependencies raw (map dt_id ts) ts = Inr u \<Longrightarrow> deps_closed ts"
  using check_dependencies_iff [of raw "map dt_id ts" ts] by (simp add: deps_closed_def)

lemma parse_delegate_error:
  assumes "parse_delegate payload raw = Inl e" "tame_payload payload"
  shows "is_perr e"
proof -
  obtain b where b: "in_str_set (jget_or payload ''join'' (JStr ''all'')) [''all'', ''any''] = Inr b"
    using assms(2) in_str_set_total [OF hashable_jget_or [of payload "''join''" "JStr ''all''"]] by (auto simp: tame_payload_def)
  have tasks: "is_perr e" if "jget payload ''tasks'' = JList items" "parse_tasks raw [] items = Inl e" for items
    using that assms(2) by (auto simp: tame_payload_def json_items_def dest: parse_tasks_error)
  have acy: "is_perr e" if "parse_tasks raw [] items = Inr ts" "check_dependencies raw (map dt_id ts) ts = Inr ()"
    "ensure_acyclic ts raw = Inl e" for items ts
    using that ensure_acyclic_cases [of ts raw] parse_tasks_wf [of raw "[]" items ts] check_dependencies_closed by fastforce
  show ?thesis
  proof (cases "jget payload ''tasks''")
    case (JList items)
    show ?thesis
    proof (cases "jget_or payload ''intent'' (JStr [])")
      case (JStr intent)
      with assms(1) b tasks [OF JList] acy [of items] JList show ?thesis
        by (auto simp: parse_delegate_def bind_res_eq_Inl Let_def split: if_split_asm dest: check_dependencies_error)
    qed (use assms(1) b JList in \<open>auto simp: parse_delegate_def Let_def split: if_split_asm\<close>)
  qed (use assms(1) in \<open>auto simp: parse_delegate_def Let_def split: if_split_asm\<close>)
qed

lemma parse_memory_reference_error: "parse_memory_reference raw v = Inl e \<Longrightarrow> tame_reference v \<Longrightarrow> is_perr e"
  by (cases v)
    (auto simp: parse_memory_reference_def tame_reference_def json_fields_def bind_res_eq_Inl Let_def
      split: if_split_asm dest: positive_int_error)

lemma parse_final_error:
  assumes "parse_final payload raw = Inl e" "tame_payload payload"
  shows "is_perr e"
proof (cases "jget_or payload ''memory'' (JList [])")
  case (JList items)
  then have "list_all tame_reference items"
    using assms(2) by (auto simp: tame_payload_def jget_or_def jget_def json_items_def split: option.split_asm)
  with JList assms(1) show ?thesis
    by (auto simp: parse_final_def bind_res_eq_Inl list_all_iff split: option.split_asm if_split_asm
        dest!: mapM_res_eq_InlD dest: parse_memory_reference_error)
qed (use assms(1) in \<open>auto simp: parse_final_def split: option.split_asm\<close>)

lemma parse_bash_error: "parse_bash payload raw dflt mx = Inl e \<Longrightarrow> tame_payload payload \<Longrightarrow> is_perr e"
  by (cases "jget_or payload ''purpose'' (JStr [])")
    (auto simp: parse_bash_def bind_res_eq_Inl tame_payload_def split: option.split_asm dest: parse_timeout_error)

lemma parse_tool_calls_error:
  assumes "parse_tool_calls payload raw dflt mx mc = Inl e" "tame_payload payload" "0 < mc"
  shows "is_perr e"
proof (cases "set (map fst payload) \<noteq> {''type'', ''calls''}")
  case True
  show ?thesis using assms(1) unfolding parse_tool_calls_def if_P [OF True] by (auto simp only: sum.inject is_perr_simps)
next
  case False
  show ?thesis
  proof (cases "jget payload ''calls''")
    case (JList calls)
    with assms(2) have "list_all tame_call calls" by (simp add: tame_payload_def json_items_def)
    with assms(1,3) show ?thesis
      unfolding parse_tool_calls_def if_not_P [OF False] JList
      by (auto simp: bind_res_eq_Inl split: if_split_asm dest: parse_calls_error)
  qed (use assms(1) in \<open>unfold parse_tool_calls_def if_not_P [OF False], auto\<close>)
qed

lemmas parse_errors = parse_tool_calls_error parse_delegate_error parse_bash_error parse_final_error

section \<open>Properties\<close>

text \<open>C5: every action the parser accepts is well-formed: stripped non-empty texts, positive
  timeouts within the configured cap, at most \<open>mc\<close> tool calls with distinct ids and valid
  arguments, at most eight memory references of at most twenty lines on safe relative paths, and a
  delegation whose task ids are distinct, whose dependencies name other tasks of it and form no
  cycle, and which has no worker under \<^verbatim>\<open>join = any\<close>.\<close>

theorem parse_action_wf:
  assumes "parse_action text dflt mx mc = Inr a" "limits_ok dflt mx"
  shows "wf_action mx mc a"
  using parse_action_payload [OF assms(1)] parse_payload_wf [OF _ assms(2)] by blast

text \<open>The reply \<^verbatim>\<open>ok {"type": "bash", "command": " ls "} bye\<close>: prose around the object, blanks around
  the command, no timeout.\<close>

definition sample_reply :: string where
  "sample_reply = ''ok {'' @ [dq] @ ''type'' @ [dq] @ '':'' @ [dq] @ ''bash'' @ [dq] @ '','' @ [dq] @ ''command'' @ [dq] @ '': '' @
     [dq] @ '' ls '' @ [dq] @ ''} bye''"

theorem parse_action_wf_witness:
  "wf_action (Some 30) 16 (BashAction \<lparr>command = ''ls'', timeout_sec = 30, purpose = []\<rparr>)"
proof -
  have "parse_action sample_reply 60 (Some 30) 16 =
      Inr (BashAction \<lparr>command = ''ls'', timeout_sec = 30, purpose = []\<rparr>)"
    by code_simp
  moreover have "limits_ok 60 (Some 30)" by (simp add: limits_ok_def)
  ultimately show ?thesis by (rule parse_action_wf)
qed



text \<open>For tasks with distinct ids whose dependencies name other tasks of the delegation,
  \<^verbatim>\<open>_ensure_acyclic\<close> accepts exactly the acyclic ones and otherwise raises its cycle error: its
  recursion always ends, within one more call than there are tasks.\<close>

theorem ensure_acyclic_iff:
  assumes "distinct (map dt_id ts)" "deps_closed ts"
  shows "ensure_acyclic ts raw = (if acyclic (dep_rel ts) then Inr () else Inl (cycle_error raw))"
  using ensure_acyclic_cases [OF assms, of raw] by auto

definition sample_task :: "string \<Rightarrow> string list \<Rightarrow> delegate_task" where
  "sample_task i deps = \<lparr>dt_id = i, dt_role = ''scout'', dt_goal = ''look'', dt_profile = ''scout'', dt_depends_on = deps,
     dt_timeout_sec = 180, dt_output_schema = ''plan''\<rparr>"

theorem ensure_acyclic_iff_witness:
  "\<not> acyclic (dep_rel [sample_task ''a'' [''b''], sample_task ''b'' [''a'']])"
proof -
  have "ensure_acyclic [sample_task ''a'' [''b''], sample_task ''b'' [''a'']] [] = Inl (cycle_error [])"
    by code_simp
  moreover have "distinct (map dt_id [sample_task ''a'' [''b''], sample_task ''b'' [''a'']])"
    and "deps_closed [sample_task ''a'' [''b''], sample_task ''b'' [''a'']]"
    by code_simp+
  ultimately show ?thesis using ensure_acyclic_iff by fastforce
qed


text \<open>C7: on a tame payload the parser fails only by a \<open>ProtocolError\<close>, the exception its caller
  handles.\<close>

theorem parse_payload_protocol_error:
  assumes "parse_payload payload raw dflt mx mc = Inl e" "tame_payload payload" "0 < mc"
  shows "is_perr e"
  using assms
  by (auto simp: parse_payload_def parse_skill_def parse_ask_def Let_def split: if_split_asm option.split_asm
      dest: parse_errors)

theorem parse_payload_protocol_error_witness:
  "is_perr (ProtocolError ''bash.command must be a non-empty string.'' ''raw'')"
proof -
  have "parse_payload [(''type'', JStr ''bash'')] ''raw'' 60 None 16 =
      Inl (ProtocolError ''bash.command must be a non-empty string.'' ''raw'')" by code_simp
  moreover have "tame_payload [(''type'', JStr ''bash'')]" by code_simp
  ultimately show ?thesis by (rule parse_payload_protocol_error) simp
qed

text \<open>Outside the tame payloads the parser raises exceptions its caller does not handle: an
  infinite \<^verbatim>\<open>timeout_sec\<close> gives an \<open>OverflowError\<close>, a list for a tool name a \<open>TypeError\<close>.\<close>

theorem parse_payload_unhandled:
  "parse_payload [(''type'', JStr ''bash''), (''command'', JStr ''ls''), (''timeout_sec'', JFloat PInf)] raw dflt mx mc
     = Inl OverflowError \<and>
   parse_payload [(''type'', JStr ''tool_calls''),
       (''calls'', JList [JDict [(''id'', JStr ''a''), (''tool'', JList [])]])] raw dflt mx 16
     = Inl TypeError"
  by (simp add: parse_payload_def parse_bash_def parse_timeout_def parse_tool_calls_def parse_tool_call_def
      in_str_set_def nonblank_str_def blank_iff is_space_def Let_def insert_commute del: bind_res_eq_Inr nonblank_str_Some)

lemma norm_mem_path_unstable:
  "norm_mem_path (JStr ''/ a'') = '' a'' \<and> norm_mem_path (JStr '' a'') = ''a''"
  by code_simp

end
