(* ===== verification/Regex.thy ===== *)
theory Regex
  imports Prelude
begin

text \<open>
  The part of Python's \<^verbatim>\<open>re\<close> that the policies use. A pattern is a value of \<open>rx\<close>; \<open>rx_run\<close> is the
  backtracking matcher, which returns the ends of all matches from a position in the order in
  which the engine tries them, with the groups each has captured; \<open>re_search\<close> and \<open>re_finditer\<close>
  are built on it as in the library. \<open>rx_rel\<close> is the meaning of a pattern without back
  references, a relation on positions, and \<open>rx_run_rel\<close> shows the matcher to compute it: a search
  succeeds exactly when the relation has a pair (\<open>re_search_iff\<close>).

  The body of a repetition has to advance, as in the library; no pattern of the program repeats
  a body that can match the empty string.
\<close>

section \<open>Patterns\<close>

datatype rx =
    Eps
  | Cls "char \<Rightarrow> bool"
  | Seq rx rx
  | Alt rx rx
  | Star bool rx \<comment> \<open>greedy or lazy\<close>
  | Bol \<comment> \<open>\<^verbatim>\<open>^\<close>\<close>
  | MBol \<comment> \<open>\<^verbatim>\<open>^\<close> under \<^verbatim>\<open>re.MULTILINE\<close>\<close>
  | Eol \<comment> \<open>\<^verbatim>\<open>$\<close>\<close>
  | WordB \<comment> \<open>\<^verbatim>\<open>\b\<close>\<close>
  | NotPrev "char \<Rightarrow> bool" \<comment> \<open>\<^verbatim>\<open>(?<!c)\<close>\<close>
  | NotNext "char \<Rightarrow> bool" \<comment> \<open>\<^verbatim>\<open>(?!c)\<close>\<close>
  | Grp nat rx
  | Backref nat

type_synonym caps = "(nat \<times> nat \<times> nat) list"

definition lit :: "string \<Rightarrow> rx" where
  "lit w = foldr (\<lambda>c r. Seq (Cls (\<lambda>x. x = c)) r) w Eps"

definition one_of :: "string \<Rightarrow> rx" where
  "one_of cs = Cls (\<lambda>x. x \<in> set cs)"

definition none_of :: "string \<Rightarrow> rx" where
  "none_of cs = Cls (\<lambda>x. x \<notin> set cs)"

definition rx_many :: "rx \<Rightarrow> rx" where "rx_many r = Star True r"
definition rx_some :: "rx \<Rightarrow> rx" where "rx_some r = Seq r (Star True r)"
definition rx_opt :: "rx \<Rightarrow> rx" where "rx_opt r = Alt r Eps"

fun rx_seq :: "rx list \<Rightarrow> rx" where
  "rx_seq [] = Eps"
| "rx_seq [r] = r"
| "rx_seq (r # q # rs) = Seq r (rx_seq (q # rs))"

fun rx_alts :: "rx list \<Rightarrow> rx" where
  "rx_alts [] = Cls (\<lambda>_. False)"
| "rx_alts [r] = r"
| "rx_alts (r # q # rs) = Alt r (rx_alts (q # rs))"

definition words :: "string list \<Rightarrow> rx" where
  "words ws = rx_alts (map lit ws)"

definition ws_char :: rx where "ws_char = Cls is_space" \<comment> \<open>\<^verbatim>\<open>\s\<close>\<close>
definition non_ws :: rx where "non_ws = Cls (\<lambda>c. \<not> is_space c)" \<comment> \<open>\<^verbatim>\<open>\S\<close>\<close>
definition dot :: rx where "dot = none_of [nl]" \<comment> \<open>\<^verbatim>\<open>.\<close>\<close>
definition any_char :: rx where "any_char = Cls (\<lambda>_. True)" \<comment> \<open>\<^verbatim>\<open>.\<close> under \<^verbatim>\<open>re.DOTALL\<close>\<close>

text \<open>\<^verbatim>\<open>\w\<close>: letters, digits and the underscore, and among the code points from 128 to 255 the
  letters and the numeric characters.\<close>

definition word_char :: "char \<Rightarrow> bool" where
  "word_char c = (let n = ord c in
     (48 \<le> n \<and> n \<le> 57) \<or> (65 \<le> n \<and> n \<le> 90) \<or> n = 95 \<or> (97 \<le> n \<and> n \<le> 122) \<or>
     n \<in> {170, 178, 179, 181, 185, 186, 188, 189, 190} \<or> (192 \<le> n \<and> n \<noteq> 215 \<and> n \<noteq> 247))"

definition lower_alpha :: "char \<Rightarrow> bool" where
  "lower_alpha c = (97 \<le> ord c \<and> ord c \<le> 122)"

definition upper_alpha :: "char \<Rightarrow> bool" where
  "upper_alpha c = (65 \<le> ord c \<and> ord c \<le> 90)"

definition ident_start :: "char \<Rightarrow> bool" where \<comment> \<open>\<^verbatim>\<open>[A-Za-z_]\<close>\<close>
  "ident_start c = (lower_alpha c \<or> upper_alpha c \<or> c = CHR ''_'')"

definition ident_char :: "char \<Rightarrow> bool" where \<comment> \<open>\<^verbatim>\<open>[A-Za-z0-9_]\<close>\<close>
  "ident_char c = (ident_start c \<or> is_digit c)"

section \<open>Matching\<close>

definition word_at :: "string \<Rightarrow> nat \<Rightarrow> bool" where
  "word_at s i = (i < length s \<and> word_char (s ! i))"

definition boundary_at :: "string \<Rightarrow> nat \<Rightarrow> bool" where
  "boundary_at s i = ((0 < i \<and> word_at s (i - 1)) \<noteq> word_at s i)"

definition line_start :: "string \<Rightarrow> nat \<Rightarrow> bool" where
  "line_start s i = (i = 0 \<or> s ! (i - 1) = nl)"

definition end_at :: "string \<Rightarrow> nat \<Rightarrow> bool" where
  "end_at s i = (i = length s \<or> (Suc i = length s \<and> s ! i = nl))"

fun star_run :: "nat \<Rightarrow> bool \<Rightarrow> (nat \<Rightarrow> caps \<Rightarrow> (nat \<times> caps) list) \<Rightarrow> nat \<Rightarrow> caps \<Rightarrow> (nat \<times> caps) list" where
  "star_run 0 g f i c = []"
| "star_run (Suc n) g f i c =
     (let more = concat (map (\<lambda>(j, c'). if i < j then star_run n g f j c' else []) (f i c))
      in if g then more @ [(i, c)] else (i, c) # more)"

primrec rx_run :: "rx \<Rightarrow> string \<Rightarrow> nat \<Rightarrow> caps \<Rightarrow> (nat \<times> caps) list" where
  "rx_run Eps s i c = [(i, c)]"
| "rx_run (Cls P) s i c = (if i < length s \<and> P (s ! i) then [(Suc i, c)] else [])"
| "rx_run (Seq r q) s i c = concat (map (\<lambda>(j, c'). rx_run q s j c') (rx_run r s i c))"
| "rx_run (Alt r q) s i c = rx_run r s i c @ rx_run q s i c"
| "rx_run (Star g r) s i c = star_run (Suc (length s)) g (rx_run r s) i c"
| "rx_run Bol s i c = (if i = 0 then [(i, c)] else [])"
| "rx_run MBol s i c = (if line_start s i then [(i, c)] else [])"
| "rx_run Eol s i c = (if end_at s i then [(i, c)] else [])"
| "rx_run WordB s i c = (if boundary_at s i then [(i, c)] else [])"
| "rx_run (NotPrev P) s i c = (if 0 < i \<and> P (s ! (i - 1)) then [] else [(i, c)])"
| "rx_run (NotNext P) s i c = (if i < length s \<and> P (s ! i) then [] else [(i, c)])"
| "rx_run (Grp k r) s i c = map (\<lambda>(j, c'). (j, (k, i, j) # c')) (rx_run r s i c)"
| "rx_run (Backref k) s i c =
     (case map_of c k of
        None \<Rightarrow> []
      | Some (a, b) \<Rightarrow>
          (let t = take (b - a) (drop a s) in if startswith (drop i s) t then [(i + length t, c)] else []))"

text \<open>\<^verbatim>\<open>re.search\<close> from a position on: the leftmost match, and there the first in priority order;
  the result is its start, its end and its groups.\<close>

definition matches_from :: "rx \<Rightarrow> string \<Rightarrow> nat \<Rightarrow> (nat \<times> nat \<times> caps) list" where
  "matches_from r s pos = concat (map (\<lambda>i. map (\<lambda>(j, c). (i, j, c)) (rx_run r s i [])) [pos ..< Suc (length s)])"

definition search_from :: "rx \<Rightarrow> string \<Rightarrow> nat \<Rightarrow> (nat \<times> nat \<times> caps) option" where
  "search_from r s pos = (case matches_from r s pos of [] \<Rightarrow> None | m # _ \<Rightarrow> Some m)"

definition re_search :: "rx \<Rightarrow> string \<Rightarrow> (nat \<times> nat \<times> caps) option" where
  "re_search r s = search_from r s 0"

definition re_found :: "rx \<Rightarrow> string \<Rightarrow> bool" where
  "re_found r s = (re_search r s \<noteq> None)"

definition group_text :: "string \<Rightarrow> nat \<Rightarrow> caps \<Rightarrow> string" where
  "group_text s k c = (case map_of c k of None \<Rightarrow> [] | Some (a, b) \<Rightarrow> take (b - a) (drop a s))"

fun finditer :: "nat \<Rightarrow> rx \<Rightarrow> string \<Rightarrow> nat \<Rightarrow> (nat \<times> nat \<times> caps) list" where
  "finditer 0 r s pos = []"
| "finditer (Suc n) r s pos =
     (case search_from r s pos of
        None \<Rightarrow> []
      | Some (i, j, c) \<Rightarrow> (i, j, c) # finditer n r s (max j (Suc pos)))"

text \<open>Every step of the iteration moves on by a character at least, so the fuel is enough.\<close>

definition re_finditer :: "rx \<Rightarrow> string \<Rightarrow> (nat \<times> nat \<times> caps) list" where
  "re_finditer r s = finditer (Suc (length s)) r s 0"

text \<open>\<^verbatim>\<open>re.sub\<close> with a literal replacement, for patterns that match no empty text.\<close>

fun sub_pieces :: "string \<Rightarrow> string \<Rightarrow> nat \<Rightarrow> (nat \<times> nat \<times> caps) list \<Rightarrow> string" where
  "sub_pieces repl s pos [] = drop pos s"
| "sub_pieces repl s pos ((i, j, c) # ms) = take (i - pos) (drop pos s) @ repl @ sub_pieces repl s j ms"

definition re_sub :: "rx \<Rightarrow> string \<Rightarrow> string \<Rightarrow> string" where
  "re_sub r repl s = sub_pieces repl s 0 (re_finditer r s)"

section \<open>Meaning\<close>

primrec no_backref :: "rx \<Rightarrow> bool" where
  "no_backref Eps = True"
| "no_backref (Cls P) = True"
| "no_backref (Seq r q) = (no_backref r \<and> no_backref q)"
| "no_backref (Alt r q) = (no_backref r \<and> no_backref q)"
| "no_backref (Star g r) = no_backref r"
| "no_backref Bol = True"
| "no_backref MBol = True"
| "no_backref Eol = True"
| "no_backref WordB = True"
| "no_backref (NotPrev P) = True"
| "no_backref (NotNext P) = True"
| "no_backref (Grp k r) = no_backref r"
| "no_backref (Backref k) = False"

primrec rx_rel :: "string \<Rightarrow> rx \<Rightarrow> (nat \<times> nat) set" where
  "rx_rel s Eps = {(i, j). j = i}"
| "rx_rel s (Cls P) = {(i, j). i < length s \<and> P (s ! i) \<and> j = Suc i}"
| "rx_rel s (Seq r q) = rx_rel s r O rx_rel s q"
| "rx_rel s (Alt r q) = rx_rel s r \<union> rx_rel s q"
| "rx_rel s (Star g r) = (rx_rel s r)\<^sup>*"
| "rx_rel s Bol = {(i, j). i = 0 \<and> j = i}"
| "rx_rel s MBol = {(i, j). line_start s i \<and> j = i}"
| "rx_rel s Eol = {(i, j). end_at s i \<and> j = i}"
| "rx_rel s WordB = {(i, j). boundary_at s i \<and> j = i}"
| "rx_rel s (NotPrev P) = {(i, j). \<not> (0 < i \<and> P (s ! (i - 1))) \<and> j = i}"
| "rx_rel s (NotNext P) = {(i, j). \<not> (i < length s \<and> P (s ! i)) \<and> j = i}"
| "rx_rel s (Grp k r) = rx_rel s r"
| "rx_rel s (Backref k) = {}"

lemma startswith_length: "startswith s p \<Longrightarrow> length p \<le> length s"
  by (simp add: startswith_prefix prefix_length_le)

lemma star_run_bounds:
  assumes "\<And>i c j c'. (j, c') \<in> set (f i c) \<Longrightarrow> i \<le> N \<Longrightarrow> i \<le> j \<and> j \<le> N"
  shows "(j, c') \<in> set (star_run n g f i c) \<Longrightarrow> i \<le> N \<Longrightarrow> i \<le> j \<and> j \<le> N"
proof (induction n arbitrary: i c)
  case (Suc n)
  from Suc.prems(1) consider "j = i" | k d where "(k, d) \<in> set (f i c)" "i < k" "(j, c') \<in> set (star_run n g f k d)"
    by (auto simp: Let_def split: if_splits)
  then show ?case
  proof cases
    case 2
    then have "k \<le> N" using assms Suc.prems(2) by blast
    with 2 Suc.IH show ?thesis by fastforce
  qed (use Suc.prems in simp)
qed simp

lemma rx_run_bounds: "(j, c') \<in> set (rx_run r s i c) \<Longrightarrow> i \<le> length s \<Longrightarrow> i \<le> j \<and> j \<le> length s"
proof (induction r arbitrary: i c j c')
  case (Seq r q)
  then show ?case by fastforce
next
  case (Star g r)
  then show ?case using star_run_bounds [of "rx_run r s" "length s"] by (metis rx_run.simps(5))
next
  case (Backref k)
  then show ?case by (auto simp: Let_def min_def split: option.splits if_splits dest!: startswith_length)
qed (auto split: if_splits)

text \<open>The ends a star finds: those the repetition reaches, given enough fuel for the distance left.\<close>

lemma star_run_rel:
  assumes f: "\<And>i c. i \<le> N \<Longrightarrow> fst ` set (f i c) = R `` {i}" and up: "\<And>i j. (i, j) \<in> R \<Longrightarrow> i \<le> N \<Longrightarrow> i \<le> j \<and> j \<le> N"
  shows "i \<le> N \<Longrightarrow> N - i < n \<Longrightarrow> fst ` set (star_run n g f i c) = R\<^sup>* `` {i}"
proof (induction n arbitrary: i c)
  case (Suc n)
  let ?more = "concat (map (\<lambda>(j, c'). if i < j then star_run n g f j c' else []) (f i c))"
  have more: "fst ` set ?more = (\<Union>j \<in> {j. (i, j) \<in> R \<and> i < j}. R\<^sup>* `` {j})"
  proof -
    have "fst ` set ?more = (\<Union>(j, c') \<in> set (f i c). if i < j then R\<^sup>* `` {j} else {})"
      unfolding set_concat set_map image_image image_UN
    proof (rule SUP_cong [OF refl], clarsimp)
      fix j c' assume j: "(j, c') \<in> set (f i c)" "i < j"
      then have "(i, j) \<in> R" using f [OF Suc.prems(1), of c] by force
      with up Suc.prems j(2) show "fst ` set (star_run n g f j c') = R\<^sup>* `` {j}"
        by (intro Suc.IH) (auto dest: up)
    qed
    also have "\<dots> = (\<Union>j \<in> fst ` set (f i c). if i < j then R\<^sup>* `` {j} else {})"
      unfolding case_prod_unfold image_image ..
    also have "\<dots> = (\<Union>j \<in> {j. (i, j) \<in> R \<and> i < j}. R\<^sup>* `` {j})" unfolding f [OF Suc.prems(1)] by auto
    finally show ?thesis .
  qed
  have "R\<^sup>* `` {i} = insert i (fst ` set ?more)"
  proof -
    have "j = i \<or> (\<exists>k. (i, k) \<in> R \<and> i < k \<and> (k, j) \<in> R\<^sup>*)" if "(i, j) \<in> R\<^sup>*" for j
      using that
    proof (induction rule: rtrancl_induct)
      case (step y z)
      from step.IH show ?case
      proof
        assume "y = i"
        with step.hyps(2) up [of i z] Suc.prems(1) show ?thesis by (cases "z = i") auto
      next
        assume "\<exists>k. (i, k) \<in> R \<and> i < k \<and> (k, y) \<in> R\<^sup>*"
        with step.hyps(2) show ?thesis by (meson rtrancl.rtrancl_into_rtrancl)
      qed
    qed simp
    then show ?thesis unfolding more by (auto intro: converse_rtrancl_into_rtrancl)
  qed
  then show ?case by (auto simp: Let_def)
qed simp

lemma rx_rel_bounds: "(i, j) \<in> rx_rel s r \<Longrightarrow> i \<le> length s \<Longrightarrow> i \<le> j \<and> j \<le> length s"
proof (induction r arbitrary: i j)
  case (Seq r q)
  then show ?case by fastforce
next
  case (Star g r)
  then have "(i, j) \<in> (rx_rel s r)\<^sup>*" by simp
  then show ?case using Star.prems(2)
    by (induction rule: rtrancl_induct) (use Star.IH in fastforce)+
qed auto

lemma rx_run_rel: "no_backref r \<Longrightarrow> i \<le> length s \<Longrightarrow> fst ` set (rx_run r s i c) = rx_rel s r `` {i}"
proof (induction r arbitrary: i c)
  case (Seq r q)
  have "fst ` set (rx_run (Seq r q) s i c) = (\<Union>(j, c') \<in> set (rx_run r s i c). rx_rel s q `` {j})"
    unfolding rx_run.simps set_concat set_map image_image image_UN
  proof (rule SUP_cong [OF refl], clarify)
    fix j c' assume "(j, c') \<in> set (rx_run r s i c)"
    then have "j \<le> length s" using Seq.prems(2) rx_run_bounds by blast
    with Seq show "fst ` set (rx_run q s j c') = rx_rel s q `` {j}" by simp
  qed
  also have "\<dots> = (\<Union>j \<in> fst ` set (rx_run r s i c). rx_rel s q `` {j})"
    by (simp add: case_prod_unfold image_image)
  also have "\<dots> = rx_rel s (Seq r q) `` {i}" using Seq by auto
  finally show ?case .
next
  case (Star g r)
  then show ?case
    unfolding rx_run.simps rx_rel.simps
    by (intro star_run_rel [of "length s"]) (auto dest: rx_rel_bounds)
next
  case (Alt r q)
  then show ?case by (simp add: image_Un Un_Image)
next
  case (Grp k r)
  have "fst ` set (rx_run (Grp k r) s i c) = fst ` set (rx_run r s i c)" by force
  with Grp show ?case by simp
qed auto

lemma in_matches_from:
  "(i, j, c) \<in> set (matches_from r s pos) \<longleftrightarrow> pos \<le> i \<and> i \<le> length s \<and> (j, c) \<in> set (rx_run r s i [])"
  by (auto simp: matches_from_def simp del: upt_Suc)

lemma search_from_iff: "search_from r s pos \<noteq> None \<longleftrightarrow> (\<exists>i. pos \<le> i \<and> i \<le> length s \<and> rx_run r s i [] \<noteq> [])"
proof -
  have "search_from r s pos \<noteq> None \<longleftrightarrow> (\<exists>m. m \<in> set (matches_from r s pos))"
    by (cases "matches_from r s pos") (auto simp: search_from_def)
  also have "\<dots> \<longleftrightarrow> (\<exists>i. pos \<le> i \<and> i \<le> length s \<and> (\<exists>m. m \<in> set (rx_run r s i [])))"
    by (auto simp: in_matches_from split_paired_Ex)
  finally show ?thesis unfolding ex_in_conv set_empty .
qed

lemma re_found_iff: "no_backref r \<Longrightarrow> re_found r s \<longleftrightarrow> (\<exists>i j. i \<le> length s \<and> (i, j) \<in> rx_rel s r)"
proof -
  assume r: "no_backref r"
  have "rx_run r s i [] \<noteq> [] \<longleftrightarrow> (\<exists>j. (i, j) \<in> rx_rel s r)" if "i \<le> length s" for i
  proof -
    have "rx_run r s i [] \<noteq> [] \<longleftrightarrow> rx_rel s r `` {i} \<noteq> {}"
      unfolding rx_run_rel [OF r that, of "[]", symmetric] by simp
    then show ?thesis by auto
  qed
  then show ?thesis unfolding re_found_def re_search_def search_from_iff by auto
qed

lemma search_from_result:
  assumes "search_from r s pos = Some (i, j, c)"
  shows "pos \<le> i \<and> i \<le> length s \<and> (j, c) \<in> set (rx_run r s i [])"
proof -
  have "(i, j, c) \<in> set (matches_from r s pos)"
    using assms by (cases "matches_from r s pos") (auto simp: search_from_def)
  then show ?thesis by (simp add: in_matches_from)
qed

lemma finditer_result:
  "(i, j, c) \<in> set (finditer n r s pos) \<Longrightarrow> i \<le> length s \<and> (j, c) \<in> set (rx_run r s i [])"
  by (induction n arbitrary: pos) (auto split: option.split_asm dest: search_from_result search_from_result [OF sym])

lemma rx_rel_lit: "(i, j) \<in> rx_rel s (lit w) \<longleftrightarrow> startswith (drop i s) w \<and> j = i + length w"
proof (induction w arbitrary: i)
  case Nil
  then show ?case by (auto simp: lit_def)
next
  case (Cons c w)
  have "(i, j) \<in> rx_rel s (lit (c # w)) \<longleftrightarrow> i < length s \<and> s ! i = c \<and> (Suc i, j) \<in> rx_rel s (lit w)"
    by (auto simp: lit_def relcomp_unfold)
  with Cons show ?case
    by (cases "i < length s") (auto simp: Cons_nth_drop_Suc [symmetric])
qed

end
