(* ===== verification/State.thy ===== *)
theory State
  imports Protocol
begin

text \<open>
  The run state (\<^verbatim>\<open>core/state.py\<close>): observations, trajectory steps, the state record with every
  field of the source, its dictionary form and the way back. Fields that the code copies from a
  stored document without looking at them have their declared type here; a document where such a
  field has another type gives \<open>IllTyped\<close>, which stands for no exception of the code. Paths are
  strings in the form \<^verbatim>\<open>str(Path(...))\<close> gives them.

  Counters live in the dictionary \<^verbatim>\<open>metrics\<close>, as in the code; \<open>mget\<close> reads one
  (\<^verbatim>\<open>metrics.get(k, 0)\<close>), \<open>mset\<close> writes, \<open>bump\<close> adds. \<open>counters_ok\<close> says that every counter of the
  initial dictionary is an integer at least zero, which every operation keeps.

  Results: a stored state is read back unchanged apart from the session history, which is not
  stored; a trajectory step likewise.
\<close>

section \<open>Records\<close>

record observation =
  ob_kind :: string
  ob_exit_code :: "int option"
  ob_stdout_preview :: string
  ob_stderr_preview :: string
  ob_artifact_ids :: "string list"
  ob_message :: string
  ob_duration_ms :: int

definition obs :: "string \<Rightarrow> observation" where
  "obs kind = \<lparr>ob_kind = kind, ob_exit_code = None, ob_stdout_preview = [], ob_stderr_preview = [],
     ob_artifact_ids = [], ob_message = [], ob_duration_ms = 0\<rparr>"

record trajectory_step =
  ts_action :: "action option"
  ts_observation :: observation
  ts_state_snapshot :: string

record run_state =
  run_id :: string
  rs_goal :: string
  prompt_namespace :: string
  schema_version :: int
  suite_id :: "string option"
  milestone :: string
  stage :: string
  status :: string
  run_dir :: "string option"
  artifacts_dir :: "string option"
  workspace_host_path :: "string option"
  container_name :: "string option"
  current_plan :: "string list"
  constraints :: "string list"
  open_questions :: "string list"
  approvals :: "jdict list"
  artifacts :: "jdict list"
  metrics :: jdict
  state_summary :: string
  final_answer :: "string option"
  pending_action :: "bash_action option"
  approval_question :: "string option"
  last_observation :: "observation option"
  checkpoint_sequence :: int
  latest_checkpoint_id :: "string option"
  resume_count :: int
  execution_journal :: "jdict list"
  memory_references :: "jdict list"
  working_memory :: "jdict list"
  working_memory_source_run_id :: "string option"
  repository_profile :: jdict
  project_guide :: jdict
  root_run_id :: "string option"
  parent_run_id :: "string option"
  workflow_id :: "string option"
  rs_task_id :: "string option"
  rs_role :: string
  rs_capability_profile :: string
  rs_depth :: int
  rs_lease_epoch :: "int option"
  session_history :: "jdict list"

section \<open>Metrics\<close>

definition initial_metrics :: jdict where
  "initial_metrics =
    [(''started_at'', JNull), (''completed_at'', JNull), (''total_duration_ms'', JInt 0), (''turns'', JInt 0),
     (''bash_actions'', JInt 0), (''tool_call_steps'', JInt 0), (''tool_calls'', JInt 0),
     (''read_tool_calls'', JInt 0), (''edit_tool_calls'', JInt 0), (''write_tool_calls'', JInt 0),
     (''bash_tool_calls'', JInt 0), (''profile'', JStr ''baseline-bash''), (''root_turns'', JInt 0),
     (''child_runs_started'', JInt 0), (''child_runs_completed'', JInt 0), (''child_runs_failed'', JInt 0),
     (''child_runs_cancelled'', JInt 0), (''workflow_count'', JInt 0), (''workflow_depth'', JInt 0),
     (''max_concurrent_children'', JInt 0), (''delegate_steps'', JInt 0), (''parallel_read_groups'', JInt 0),
     (''actual_parallelism'', JInt 0), (''write_lease_acquire'', JInt 0), (''write_lease_denial'', JInt 0),
     (''write_lease_release'', JInt 0), (''capability_denials'', JInt 0), (''readonly_bash_denials'', JInt 0),
     (''workspace_mutation_violations'', JInt 0), (''review_iterations'', JInt 0),
     (''verifier_attempts'', JInt 0), (''verifier_passes'', JInt 0), (''trace_events'', JInt 0),
     (''transcript_records'', JInt 0), (''max_parallel_tool_calls'', JInt 4),
     (''max_tool_calls_per_step'', JInt 16), (''protocol_errors'', JInt 0), (''provider_errors'', JInt 0),
     (''provider_request_attempts'', JInt 0), (''provider_retried_requests'', JInt 0),
     (''provider_name'', JStr []), (''provider_response_models'', JList []),
     (''provider_system_fingerprints'', JList []), (''infrastructure_errors'', JInt 0),
     (''command_failures'', JInt 0), (''timeouts'', JInt 0), (''prompt_tokens'', JInt 0),
     (''completion_tokens'', JInt 0), (''total_tokens'', JInt 0), (''cached_tokens'', JInt 0),
     (''prompt_cache_hit_tokens'', JInt 0), (''prompt_cache_miss_tokens'', JInt 0),
     (''cache_metrics_available'', JBool False), (''cache_metric_requests'', JInt 0),
     (''cache_unreported_requests'', JInt 0), (''cache_observed_hit_tokens'', JInt 0),
     (''cache_observed_prompt_tokens'', JInt 0), (''cache_hit_rate'', JNull), (''latency_ms'', JInt 0),
     (''artifact_bytes'', JInt 0), (''policy_denials'', JInt 0), (''approvals_requested'', JInt 0),
     (''context_compactions'', JInt 0), (''context_compacted_steps'', JInt 0),
     (''context_compaction_strategy'', JStr ''deterministic''), (''context_compaction_input_chars'', JInt 0),
     (''context_compaction_output_chars'', JInt 0), (''context_compaction_chars_saved'', JInt 0),
     (''context_compaction_events'', JList []), (''context_budget_overflows'', JInt 0),
     (''context_budget_triggered'', JBool False), (''context_retention_expected'', JInt 0),
     (''context_retention_retained'', JInt 0), (''context_retention_rate'', JNull),
     (''context_retention_markers'', JList []), (''semantic_compaction_requests'', JInt 0),
     (''semantic_compaction_successes'', JInt 0), (''semantic_compaction_failures'', JInt 0),
     (''semantic_compaction_prompt_tokens'', JInt 0), (''semantic_compaction_completion_tokens'', JInt 0),
     (''semantic_compaction_total_tokens'', JInt 0), (''semantic_compaction_cached_tokens'', JInt 0),
     (''semantic_compaction_latency_ms'', JInt 0), (''prompt_char_samples'', JInt 0),
     (''prompt_chars_total'', JInt 0), (''prompt_chars_max'', JInt 0), (''prompt_chars_mean'', JFloat (Fin 0)),
     (''prompt_layout'', JStr ''rebuild''), (''stable_prefix_hash'', JStr []),
     (''stable_prefix_chars'', JInt 0), (''stable_prefix_estimated_tokens'', JInt 0),
     (''stable_prefix_message_count'', JInt 0), (''stable_prefix_profile'', JDict []),
     (''cache_prefix_epoch'', JInt 0), (''cache_prefix_request_index'', JInt 0),
     (''cache_prefix_cold_start_requests'', JInt 0), (''cache_prefix_exact_append_requests'', JInt 0),
     (''cache_prefix_reset_requests'', JInt 0), (''cache_prefix_reset_reasons'', JDict []),
     (''cache_prefix_local_cold_start'', JBool True), (''cache_prefix_previous_is_exact'', JBool False),
     (''cache_prefix_lcp_message_count'', JInt 0), (''cache_prefix_lcp_chars'', JInt 0),
     (''cache_prefix_lcp_estimated_tokens'', JInt 0), (''cache_prefix_current_estimated_tokens'', JInt 0),
     (''cache_prefix_reset_reason'', JStr []), (''cache_prefix_request_sha256'', JStr []),
     (''cache_theoretical_input_tokens'', JInt 0), (''cache_theoretical_output_tokens'', JInt 0),
     (''cache_capture_observed_hit_tokens'', JInt 0), (''cache_capture_efficiency_input'', JNull),
     (''cache_capture_efficiency_output'', JNull), (''cache_steady_state_hit_tokens'', JInt 0),
     (''cache_steady_state_prompt_tokens'', JInt 0), (''cache_steady_state_hit_rate'', JNull),
     (''cache_steady_state_observed'', JBool False), (''cache_steady_state_start_request_index'', JNull),
     (''cache_steady_state_request_count'', JInt 0),
     (''cache_steady_state_basis'', JStr ''first_observed_cache_hit''),
     (''cache_empirical_hit_block_tokens'', JInt 0), (''cache_requests'', JList []),
     (''file_read_actions'', JInt 0), (''search_actions'', JInt 0), (''repeated_file_reads'', JInt 0),
     (''repeated_searches'', JInt 0), (''memory_references_requested'', JInt 0),
     (''memory_references_captured'', JInt 0), (''memory_references_rejected'', JInt 0),
     (''working_memory_candidates'', JInt 0), (''working_memory_items_injected'', JInt 0),
     (''working_memory_invalid_adoptions'', JInt 0), (''working_memory_injection_events'', JInt 0),
     (''memory_distill_failed'', JInt 0), (''memory_distill_successes'', JInt 0),
     (''memory_distill_count'', JInt 0), (''memory_stored'', JInt 0), (''memory_dedup_failed'', JInt 0),
     (''memory_dedup_store'', JInt 0), (''memory_dedup_skip'', JInt 0), (''memory_dedup_update'', JInt 0),
     (''memory_dedup_merge'', JInt 0), (''memory_recall_failed'', JInt 0), (''l1_memories_recalled'', JInt 0),
     (''l1_memories_injected'', JInt 0), (''persona_synthesized'', JInt 0),
     (''persona_synthesis_failed'', JInt 0), (''persona_signal_count'', JInt 0),
     (''l3_persona_injected'', JInt 0), (''scenario_synthesized'', JInt 0),
     (''scenario_synthesis_failed'', JInt 0), (''scenario_count'', JInt 0),
     (''l2_scenarios_injected'', JInt 0), (''skill_load_actions'', JInt 0), (''loaded_skill_names'', JList []),
     (''checkpoints_created'', JInt 0), (''resumes_completed'', JInt 0), (''resume_drift_errors'', JInt 0),
     (''model_final_requests'', JInt 0), (''verification_attempts'', JInt 0),
     (''verification_rejected'', JInt 0), (''verification_passed'', JInt 0),
     (''verification_bash_actions'', JInt 0), (''verification_command_failures'', JInt 0),
     (''verification_timeouts'', JInt 0)]"

definition mget :: "jdict \<Rightarrow> string \<Rightarrow> int" where
  "mget m k = (case map_of m k of Some (JInt n) \<Rightarrow> n | Some (JBool b) \<Rightarrow> (if b then 1 else 0) | _ \<Rightarrow> 0)"

definition mset :: "string \<Rightarrow> json \<Rightarrow> run_state \<Rightarrow> run_state" where
  "mset k v st = st\<lparr>metrics := AList.update k v (metrics st)\<rparr>"

text \<open>\<^verbatim>\<open>state.metrics[k] = state.metrics.get(k, 0) + n\<close>.\<close>

definition add_metric :: "string \<Rightarrow> int \<Rightarrow> run_state \<Rightarrow> run_state" where
  "add_metric k n st = mset k (JInt (mget (metrics st) k + n)) st"

abbreviation bump :: "string \<Rightarrow> run_state \<Rightarrow> run_state" where
  "bump k \<equiv> add_metric k 1"

text \<open>The counters the run itself keeps: turns, actions, tool calls, children, errors, verification.\<close>

definition counter_keys :: "string list" where
  "counter_keys =
     [''turns'', ''bash_actions'', ''tool_call_steps'', ''tool_calls'', ''read_tool_calls'', ''edit_tool_calls'',
      ''write_tool_calls'', ''bash_tool_calls'', ''child_runs_started'', ''child_runs_completed'', ''child_runs_failed'',
      ''child_runs_cancelled'', ''workflow_count'', ''max_concurrent_children'', ''delegate_steps'', ''protocol_errors'',
      ''provider_errors'', ''provider_request_attempts'', ''provider_retried_requests'', ''command_failures'',
      ''timeouts'', ''policy_denials'', ''approvals_requested'', ''file_read_actions'', ''search_actions'',
      ''repeated_file_reads'', ''repeated_searches'', ''memory_references_requested'', ''memory_references_captured'',
      ''memory_references_rejected'', ''skill_load_actions'', ''checkpoints_created'', ''model_final_requests'',
      ''verification_attempts'', ''verification_rejected'', ''verification_passed'', ''verification_bash_actions'',
      ''verification_command_failures'', ''verification_timeouts'']"

definition counters_ok :: "jdict \<Rightarrow> bool" where
  "counters_ok m = list_all (\<lambda>k. case map_of m k of None \<Rightarrow> True | Some (JInt n) \<Rightarrow> 0 \<le> n | _ \<Rightarrow> False) counter_keys"

section \<open>Starting a run\<close>

text \<open>The run id (time and a random suffix) is an argument.\<close>

definition start_state ::
  "string \<Rightarrow> string \<Rightarrow> string option \<Rightarrow> string option \<Rightarrow> string option \<Rightarrow> string option \<Rightarrow> string \<Rightarrow> string \<Rightarrow> string \<Rightarrow> run_state" where
  "start_state rid goal workspace rdir adir suite ms stg ns =
     \<lparr>run_id = rid, rs_goal = goal, prompt_namespace = ns, schema_version = 2, suite_id = suite, milestone = ms,
      stage = stg, status = ''running'', run_dir = rdir, artifacts_dir = adir, workspace_host_path = workspace,
      container_name = None, current_plan = [], constraints = [], open_questions = [], approvals = [], artifacts = [],
      metrics = initial_metrics, state_summary = [], final_answer = None, pending_action = None,
      approval_question = None, last_observation = None, checkpoint_sequence = 0, latest_checkpoint_id = None,
      resume_count = 0, execution_journal = [], memory_references = [], working_memory = [],
      working_memory_source_run_id = None, repository_profile = [], project_guide = [], root_run_id = None,
      parent_run_id = None, workflow_id = None, rs_task_id = None, rs_role = ''root'',
      rs_capability_profile = ''root'', rs_depth = 0, rs_lease_epoch = None, session_history = []\<rparr>"

section \<open>Dictionaries\<close>

definition opt_str :: "string option \<Rightarrow> json" where
  "opt_str v = (case v of None \<Rightarrow> JNull | Some s \<Rightarrow> JStr s)"

definition opt_int :: "int option \<Rightarrow> json" where
  "opt_int v = (case v of None \<Rightarrow> JNull | Some n \<Rightarrow> JInt n)"

definition strs :: "string list \<Rightarrow> json" where
  "strs ss = JList (map JStr ss)"

definition dicts :: "jdict list \<Rightarrow> json" where
  "dicts ds = JList (map JDict ds)"

definition observation_dict :: "observation \<Rightarrow> jdict" where
  "observation_dict ob =
     [(''kind'', JStr (ob_kind ob)), (''exit_code'', opt_int (ob_exit_code ob)),
      (''stdout_preview'', JStr (ob_stdout_preview ob)), (''stderr_preview'', JStr (ob_stderr_preview ob)),
      (''artifact_ids'', strs (ob_artifact_ids ob)), (''message'', JStr (ob_message ob)),
      (''duration_ms'', JInt (ob_duration_ms ob))]"

definition state_to_dict :: "run_state \<Rightarrow> jdict" where
  "state_to_dict st =
     [(''run_id'', JStr (run_id st)), (''goal'', JStr (rs_goal st)), (''prompt_namespace'', JStr (prompt_namespace st)),
      (''schema_version'', JInt (schema_version st)), (''suite_id'', opt_str (suite_id st)),
      (''milestone'', JStr (milestone st)), (''stage'', JStr (stage st)), (''status'', JStr (status st)),
      (''run_dir'', opt_str (run_dir st)), (''artifacts_dir'', opt_str (artifacts_dir st)),
      (''workspace_host_path'', opt_str (workspace_host_path st)), (''container_name'', opt_str (container_name st)),
      (''current_plan'', strs (current_plan st)), (''constraints'', strs (constraints st)),
      (''open_questions'', strs (open_questions st)), (''approvals'', dicts (approvals st)),
      (''artifacts'', dicts (artifacts st)), (''metrics'', JDict (metrics st)),
      (''state_summary'', JStr (state_summary st)), (''final_answer'', opt_str (final_answer st)),
      (''pending_action'', (case pending_action st of None \<Rightarrow> JNull | Some b \<Rightarrow> JDict (action_to_dict (BashAction b)))),
      (''approval_question'', opt_str (approval_question st)),
      (''last_observation'', (case last_observation st of None \<Rightarrow> JNull | Some ob \<Rightarrow> JDict (observation_dict ob))),
      (''checkpoint_sequence'', JInt (checkpoint_sequence st)),
      (''latest_checkpoint_id'', opt_str (latest_checkpoint_id st)), (''resume_count'', JInt (resume_count st)),
      (''execution_journal'', dicts (execution_journal st)), (''memory_references'', dicts (memory_references st)),
      (''working_memory'', dicts (working_memory st)),
      (''working_memory_source_run_id'', opt_str (working_memory_source_run_id st)),
      (''repository_profile'', JDict (repository_profile st)), (''project_guide'', JDict (project_guide st)),
      (''root_run_id'', opt_str (root_run_id st)), (''parent_run_id'', opt_str (parent_run_id st)),
      (''workflow_id'', opt_str (workflow_id st)), (''task_id'', opt_str (rs_task_id st)), (''role'', JStr (rs_role st)),
      (''capability_profile'', JStr (rs_capability_profile st)), (''depth'', JInt (rs_depth st)),
      (''lease_epoch'', opt_int (rs_lease_epoch st))]"

section \<open>Reading them back\<close>

definition get_opt_str :: "json \<Rightarrow> string option result" where
  "get_opt_str v = (case v of JNull \<Rightarrow> Inr None | JStr s \<Rightarrow> Inr (Some s) | _ \<Rightarrow> Inl IllTyped)"

definition get_opt_int :: "json \<Rightarrow> int option result" where
  "get_opt_int v = (case v of JNull \<Rightarrow> Inr None | JInt n \<Rightarrow> Inr (Some n) | _ \<Rightarrow> Inl IllTyped)"

definition get_str :: "json \<Rightarrow> string result" where
  "get_str v = (case v of JStr s \<Rightarrow> Inr s | _ \<Rightarrow> Inl IllTyped)"

definition get_int :: "json \<Rightarrow> int result" where
  "get_int v = (case v of JInt n \<Rightarrow> Inr n | _ \<Rightarrow> Inl IllTyped)"

text \<open>\<^verbatim>\<open>list(v)\<close> and \<^verbatim>\<open>dict(v)\<close>.\<close>

definition get_dict :: "json \<Rightarrow> jdict result" where
  "get_dict v = (case v of JDict d \<Rightarrow> Inr d | JNull \<Rightarrow> Inl TypeError | _ \<Rightarrow> Inl IllTyped)"

definition get_strs :: "json \<Rightarrow> string list result" where
  "get_strs v = (case v of JList vs \<Rightarrow> mapM_res get_str vs | JNull \<Rightarrow> Inl TypeError | _ \<Rightarrow> Inl IllTyped)"

definition get_dicts :: "json \<Rightarrow> jdict list result" where
  "get_dicts v = (case v of
     JList vs \<Rightarrow> mapM_res (\<lambda>x. case x of JDict d \<Rightarrow> Inr d | _ \<Rightarrow> Inl IllTyped) vs
   | JNull \<Rightarrow> Inl TypeError | _ \<Rightarrow> Inl IllTyped)"

text \<open>\<^verbatim>\<open>str(v or d)\<close>.\<close>

definition str_or :: "json \<Rightarrow> string \<Rightarrow> string" where
  "str_or v d = (if truthy v then py_str v else d)"

text \<open>\<^verbatim>\<open>str(Path(s))\<close>.\<close>

definition path_of :: "string \<Rightarrow> string" where
  "path_of s =
     (let r = posix_root s; ps = filter (\<lambda>p. p \<noteq> [] \<and> p \<noteq> ''.'') (split_slash s)
      in if r = [] \<and> ps = [] then ''.'' else concat r @ join ''/'' ps)"

definition path_or_none :: "json \<Rightarrow> string option" where
  "path_or_none v = (if v = JNull then None else Some (path_of (py_str v)))"

definition observation_fields :: "string list" where
  "observation_fields =
     [''kind'', ''exit_code'', ''stdout_preview'', ''stderr_preview'', ''artifact_ids'', ''message'', ''duration_ms'']"

text \<open>\<^verbatim>\<open>Observation(**d)\<close>: an unknown or missing keyword is a \<open>TypeError\<close>.\<close>

definition observation_of :: "jdict \<Rightarrow> observation result" where
  "observation_of d =
     (if \<not> set (map fst d) \<subseteq> set observation_fields \<or> \<not> has_key d ''kind'' then Inl TypeError
      else
        bind_res (get_str (jget d ''kind'')) (\<lambda>k.
        bind_res (get_opt_int (jget d ''exit_code'')) (\<lambda>x.
        bind_res (get_str (jget_or d ''stdout_preview'' (JStr []))) (\<lambda>out.
        bind_res (get_str (jget_or d ''stderr_preview'' (JStr []))) (\<lambda>err.
        bind_res (get_strs (jget_or d ''artifact_ids'' (JList []))) (\<lambda>arts.
        bind_res (get_str (jget_or d ''message'' (JStr []))) (\<lambda>msg.
        bind_res (get_int (jget_or d ''duration_ms'' (JInt 0))) (\<lambda>dur.
          Inr \<lparr>ob_kind = k, ob_exit_code = x, ob_stdout_preview = out, ob_stderr_preview = err,
               ob_artifact_ids = arts, ob_message = msg, ob_duration_ms = dur\<rparr>))))))))"

text \<open>\<^verbatim>\<open>json.dumps(v)\<close> with its default \<^verbatim>\<open>ensure_ascii=True\<close>: characters from DEL on are escaped.\<close>

definition ascii_char :: "char \<Rightarrow> string" where
  "ascii_char c = (if ord c < 127 then [c]
     else [bsl, CHR ''u'', CHR ''0'', CHR ''0'', hex_digit (ord c div 16), hex_digit (ord c mod 16)])"

definition dumps_ascii :: "json \<Rightarrow> string" where
  "dumps_ascii v = concat (map ascii_char (dumps v))"

definition restore_pending :: "json \<Rightarrow> bash_action option result" where
  "restore_pending v =
     (if v = JNull then Inr None
      else bind_res (parse_action (dumps_ascii v) 60 None 16) (\<lambda>a.
        Inr (case a of BashAction b \<Rightarrow> Some b | _ \<Rightarrow> None)))"

definition restore_observation :: "json \<Rightarrow> observation option result" where
  "restore_observation v =
     (case v of JDict d \<Rightarrow> bind_res (observation_of d) (\<lambda>ob. Inr (Some ob)) | _ \<Rightarrow> Inr None)"

text \<open>\<^verbatim>\<open>data["k"]\<close>.\<close>

definition need_key :: "jdict \<Rightarrow> string \<Rightarrow> json result" where
  "need_key d k = (case map_of d k of None \<Rightarrow> Inl KeyError | Some v \<Rightarrow> Inr v)"

definition state_from_dict :: "jdict \<Rightarrow> run_state result" where
  "state_from_dict d =
     bind_res (restore_pending (jget d ''pending_action'')) (\<lambda>pending.
     bind_res (restore_observation (jget d ''last_observation'')) (\<lambda>lastob.
     bind_res (need_key d ''run_id'') (\<lambda>rid.
     bind_res (need_key d ''goal'') (\<lambda>goal.
     bind_res (int_of_json (jget_or d ''schema_version'' (JInt 1))) (\<lambda>schema.
     bind_res (get_opt_str (jget d ''suite_id'')) (\<lambda>suite.
     bind_res (get_str (jget_or d ''status'' (JStr ''running''))) (\<lambda>stat.
     bind_res (get_opt_str (jget d ''container_name'')) (\<lambda>cname.
     bind_res (get_strs (jget_or d ''current_plan'' (JList []))) (\<lambda>plan.
     bind_res (get_strs (jget_or d ''constraints'' (JList []))) (\<lambda>cons.
     bind_res (get_strs (jget_or d ''open_questions'' (JList []))) (\<lambda>oq.
     bind_res (get_dicts (jget_or d ''approvals'' (JList []))) (\<lambda>apps.
     bind_res (get_dicts (jget_or d ''artifacts'' (JList []))) (\<lambda>arts.
     bind_res (get_dict (jget_or d ''metrics'' (JDict initial_metrics))) (\<lambda>ms.
     bind_res (get_opt_str (jget d ''final_answer'')) (\<lambda>fin.
     bind_res (get_opt_str (jget d ''approval_question'')) (\<lambda>aq.
     bind_res (int_of_json (jget_or d ''checkpoint_sequence'' (JInt 0))) (\<lambda>cseq.
     bind_res (get_opt_str (jget d ''latest_checkpoint_id'')) (\<lambda>lcp.
     bind_res (int_of_json (jget_or d ''resume_count'' (JInt 0))) (\<lambda>resumes.
     bind_res (get_dicts (jget_or d ''execution_journal'' (JList []))) (\<lambda>journal.
     bind_res (get_dicts (jget_or d ''memory_references'' (JList []))) (\<lambda>refs.
     bind_res (get_dicts (jget_or d ''working_memory'' (JList []))) (\<lambda>wm.
     bind_res (get_opt_str (jget d ''working_memory_source_run_id'')) (\<lambda>wmsrc.
     bind_res (get_dict (jget_or d ''repository_profile'' (JDict []))) (\<lambda>profile.
     bind_res (get_dict (jget_or d ''project_guide'' (JDict []))) (\<lambda>guide.
     bind_res (get_opt_str (jget d ''root_run_id'')) (\<lambda>root.
     bind_res (get_opt_str (jget d ''parent_run_id'')) (\<lambda>parent.
     bind_res (get_opt_str (jget d ''workflow_id'')) (\<lambda>wf.
     bind_res (get_opt_str (jget d ''task_id'')) (\<lambda>tid.
     bind_res (int_of_json (jget_or d ''depth'' (JInt 0))) (\<lambda>dep.
     bind_res (get_opt_int (jget d ''lease_epoch'')) (\<lambda>epoch.
       Inr \<lparr>run_id = py_str rid, rs_goal = py_str goal, prompt_namespace = str_or (jget d ''prompt_namespace'') [],
         schema_version = schema, suite_id = suite, milestone = str_or (jget d ''milestone'') [],
         stage = str_or (jget d ''stage'') ''daily_development'', status = stat,
         run_dir = path_or_none (jget d ''run_dir''), artifacts_dir = path_or_none (jget d ''artifacts_dir''),
         workspace_host_path = path_or_none (jget d ''workspace_host_path''), container_name = cname,
         current_plan = plan, constraints = cons, open_questions = oq, approvals = apps, artifacts = arts, metrics = ms,
         state_summary = py_str (jget_or d ''state_summary'' (JStr [])), final_answer = fin, pending_action = pending,
         approval_question = aq, last_observation = lastob, checkpoint_sequence = cseq, latest_checkpoint_id = lcp,
         resume_count = resumes, execution_journal = journal, memory_references = refs, working_memory = wm,
         working_memory_source_run_id = wmsrc, repository_profile = profile, project_guide = guide,
         root_run_id = root, parent_run_id = parent, workflow_id = wf, rs_task_id = tid,
         rs_role = py_str (jget_or d ''role'' (JStr ''root'')),
         rs_capability_profile = py_str (jget_or d ''capability_profile'' (JStr ''root'')), rs_depth = dep,
         rs_lease_epoch = epoch, session_history = []\<rparr>)))))))))))))))))))))))))))))))"

section \<open>Trajectory steps\<close>

definition step_to_dict :: "trajectory_step \<Rightarrow> jdict" where
  "step_to_dict s =
     [(''action'', (case ts_action s of None \<Rightarrow> JNull | Some a \<Rightarrow> JDict (action_to_dict a))),
      (''observation'', JDict (observation_dict (ts_observation s))),
      (''state_snapshot'', JStr (ts_state_snapshot s))]"

definition step_from_dict :: "jdict \<Rightarrow> trajectory_step result" where
  "step_from_dict d =
     bind_res (case jget d ''action'' of
         JDict a \<Rightarrow> bind_res (parse_action (dumps_ascii (JDict a)) 60 None 16) (\<lambda>x. Inr (Some x))
       | _ \<Rightarrow> Inr None) (\<lambda>act.
     (case jget d ''observation'' of
        JDict ob \<Rightarrow> bind_res (observation_of ob) (\<lambda>x.
          Inr \<lparr>ts_action = act, ts_observation = x, ts_state_snapshot = str_or (jget d ''state_snapshot'') []\<rparr>)
      | _ \<Rightarrow> Inl (ValueError ''Checkpoint trajectory step is missing an observation.'')))"

section \<open>State files\<close>

text \<open>The files of a run as far as the session writes them: a document per path. The text of a
  document, \<^verbatim>\<open>json.dumps(..., indent=2)\<close>, is identified with the value it spells.\<close>

type_synonym files = "string \<Rightarrow> jdict option"

definition state_path_for_run :: "string option \<Rightarrow> string \<Rightarrow> string \<Rightarrow> string" where
  "state_path_for_run runs_root cwd rid =
     (case runs_root of None \<Rightarrow> cwd @ ''/.minicc/runs'' | Some r \<Rightarrow> r) @ ''/'' @ rid @ ''/state.json''"

definition state_path_for :: "string \<Rightarrow> run_state \<Rightarrow> string" where
  "state_path_for cwd st =
     (case run_dir st of Some d \<Rightarrow> d @ ''/state.json'' | None \<Rightarrow> state_path_for_run None cwd (run_id st))"

definition save_run_state :: "string \<Rightarrow> run_state \<Rightarrow> string option \<Rightarrow> files \<Rightarrow> files" where
  "save_run_state cwd st path fs =
     fs((case path of Some p \<Rightarrow> p | None \<Rightarrow> state_path_for cwd st) \<mapsto> state_to_dict st)"

text \<open>A missing file is Python's \<^verbatim>\<open>FileNotFoundError\<close>.\<close>

definition load_run_state :: "files \<Rightarrow> string \<Rightarrow> run_state result" where
  "load_run_state fs path =
     (case fs path of None \<Rightarrow> Inl (RuntimeError ''file not found'') | Some d \<Rightarrow> state_from_dict d)"

section \<open>Counters\<close>

lemma mset_frame [frame_simps]:
  "status (mset k v st) = status st" "run_dir (mset k v st) = run_dir st" "run_id (mset k v st) = run_id st"
  "execution_journal (mset k v st) = execution_journal st" "pending_action (mset k v st) = pending_action st"
  "approvals (mset k v st) = approvals st" "last_observation (mset k v st) = last_observation st"
  "final_answer (mset k v st) = final_answer st" "state_summary (mset k v st) = state_summary st"
  "approval_question (mset k v st) = approval_question st" "open_questions (mset k v st) = open_questions st"
  "checkpoint_sequence (mset k v st) = checkpoint_sequence st" "root_run_id (mset k v st) = root_run_id st"
  by (simp_all add: mset_def)

lemma add_metric_frame [frame_simps]:
  "status (add_metric k n st) = status st" "run_dir (add_metric k n st) = run_dir st" "run_id (add_metric k n st) = run_id st"
  "execution_journal (add_metric k n st) = execution_journal st" "pending_action (add_metric k n st) = pending_action st"
  "approvals (add_metric k n st) = approvals st" "last_observation (add_metric k n st) = last_observation st"
  "final_answer (add_metric k n st) = final_answer st" "state_summary (add_metric k n st) = state_summary st"
  "approval_question (add_metric k n st) = approval_question st" "open_questions (add_metric k n st) = open_questions st"
  "checkpoint_sequence (add_metric k n st) = checkpoint_sequence st" "root_run_id (add_metric k n st) = root_run_id st"
  by (simp_all add: add_metric_def frame_simps)

lemma mget_update [simp]:
  "mget (AList.update k (JInt n) m) k' = (if k' = k then n else mget m k')"
  by (simp add: mget_def)

lemma mget_mset: "mget (metrics (mset k v st)) k' = (if k' = k then mget [(k, v)] k else mget (metrics st) k')"
  by (simp add: mset_def mget_def)

lemma mget_mset_int [simp]: "mget (metrics (mset k (JInt n) st)) k' = (if k' = k then n else mget (metrics st) k')"
  by (simp add: mset_def)

lemma mget_add_metric [simp]:
  "mget (metrics (add_metric k n st)) k' = (if k' = k then mget (metrics st) k + n else mget (metrics st) k')"
  by (simp add: add_metric_def)

lemma counters_ok_update_int: "counters_ok m \<Longrightarrow> 0 \<le> n \<Longrightarrow> counters_ok (AList.update k (JInt n) m)"
  by (auto simp: counters_ok_def list_all_iff)

lemma counters_ok_update_other: "counters_ok m \<Longrightarrow> k \<notin> set counter_keys \<Longrightarrow> counters_ok (AList.update k v m)"
  by (auto simp: counters_ok_def list_all_iff split: if_splits)

lemma counters_ok_mset_int: "counters_ok (metrics st) \<Longrightarrow> 0 \<le> n \<Longrightarrow> counters_ok (metrics (mset k (JInt n) st))"
  by (simp add: mset_def counters_ok_update_int)

lemma counters_ok_mset_other: "counters_ok (metrics st) \<Longrightarrow> k \<notin> set counter_keys \<Longrightarrow> counters_ok (metrics (mset k v st))"
  by (simp add: mset_def counters_ok_update_other)

lemma counters_ok_mget: "counters_ok m \<Longrightarrow> k \<in> set counter_keys \<Longrightarrow> 0 \<le> mget m k"
  by (fastforce simp: counters_ok_def list_all_iff mget_def split: option.splits json.splits)

lemma counters_ok_add:
  assumes "counters_ok (metrics st)" "0 \<le> n" "k \<in> set counter_keys"
  shows "counters_ok (metrics (add_metric k n st))"
  unfolding add_metric_def using assms counters_ok_mget [OF assms(1,3)] by (intro counters_ok_mset_int) auto

definition is_count :: "json \<Rightarrow> bool" where
  "is_count v = (case v of JInt n \<Rightarrow> 0 \<le> n | _ \<Rightarrow> False)"

lemma initial_other_keys:
  "map fst (filter (\<lambda>kv. \<not> is_count (snd kv)) initial_metrics) =
     [''started_at'', ''completed_at'', ''profile'', ''provider_name'', ''provider_response_models'',
      ''provider_system_fingerprints'', ''cache_metrics_available'', ''cache_hit_rate'',
      ''context_compaction_strategy'', ''context_compaction_events'', ''context_budget_triggered'',
      ''context_retention_rate'', ''context_retention_markers'', ''prompt_chars_mean'', ''prompt_layout'',
      ''stable_prefix_hash'', ''stable_prefix_profile'', ''cache_prefix_reset_reasons'',
      ''cache_prefix_local_cold_start'', ''cache_prefix_previous_is_exact'',
      ''cache_prefix_reset_reason'', ''cache_prefix_request_sha256'', ''cache_capture_efficiency_input'',
      ''cache_capture_efficiency_output'', ''cache_steady_state_hit_rate'',
      ''cache_steady_state_observed'', ''cache_steady_state_start_request_index'',
      ''cache_steady_state_basis'', ''cache_requests'', ''loaded_skill_names'']"
  by (simp add: initial_metrics_def is_count_def)

lemma initial_others_no_counters:
  "list_all (\<lambda>k. k \<notin> set counter_keys) (map fst (filter (\<lambda>kv. \<not> is_count (snd kv)) initial_metrics))"
  unfolding initial_other_keys by (simp add: counter_keys_def)

lemma counters_ok_initial: "counters_ok initial_metrics"
proof -
  have "is_count v" if "map_of initial_metrics k = Some v" "k \<in> set counter_keys" for k v
    using initial_others_no_counters map_of_SomeD [OF that(1)] that(2) by (force simp: list_all_iff)
  then show ?thesis
    by (fastforce simp: counters_ok_def list_all_iff is_count_def split: option.splits json.splits)
qed


section \<open>Round trips\<close>

lemma get_put_json [simp]:
  "get_opt_str (opt_str v) = Inr v" "get_opt_int (opt_int n) = Inr n" "get_str (JStr s) = Inr s" "get_int (JInt i) = Inr i"
  "get_dict (JDict d) = Inr d"
  by (simp_all add: get_opt_str_def opt_str_def get_opt_int_def opt_int_def get_str_def get_int_def get_dict_def
      split: option.splits)

lemma get_strs_strs [simp]: "get_strs (strs ss) = Inr ss"
proof -
  have "mapM_res get_str (map JStr ss) = Inr ss" by (induction ss) auto
  then show ?thesis by (simp add: get_strs_def strs_def)
qed

lemma get_dicts_dicts [simp]: "get_dicts (dicts ds) = Inr ds"
proof -
  have "mapM_res (\<lambda>x. case x of JDict d \<Rightarrow> Inr d | _ \<Rightarrow> Inl IllTyped) (map JDict ds) = Inr ds" by (induction ds) auto
  then show ?thesis by (simp add: get_dicts_def dicts_def)
qed

lemma str_or_JStr [simp]: "str_or (JStr s) d = (if s = [] then d else s)"
  by (simp add: str_or_def)

lemma observation_of_dict: "observation_of (observation_dict ob) = Inr ob"
  by (simp add: observation_of_def observation_dict_def observation_fields_def del: bind_res_eq_Inr)

lemma restore_observation_dict:
  "restore_observation (case v of None \<Rightarrow> JNull | Some ob \<Rightarrow> JDict (observation_dict ob)) = Inr v"
  by (cases v) (simp_all add: restore_observation_def observation_of_dict)

definition ascii_text :: "string \<Rightarrow> bool" where
  "ascii_text s = list_all (\<lambda>c. ord c < 127) s"

lemma ascii_id: "ascii_text s \<Longrightarrow> concat (map ascii_char s) = s"
  by (induction s) (auto simp: ascii_char_def ascii_text_def)

lemma dumps_ascii_id: "ascii_text (dumps v) \<Longrightarrow> dumps_ascii v = dumps v"
  unfolding dumps_ascii_def by (rule ascii_id)

text \<open>An action that a stored document keeps: the defaults of \<^verbatim>\<open>parse_action\<close> accept it back.\<close>

definition storable :: "action \<Rightarrow> bool" where
  "storable a = (wf_action None 16 a \<and> stable_paths a \<and> plain (JDict (action_to_dict a)) \<and> ascii_text (action_to_json a))"

lemma parse_storable: "storable a \<Longrightarrow> parse_action (dumps_ascii (JDict (action_to_dict a))) 60 None 16 = Inr a"
  unfolding storable_def action_to_json_def
  by (simp only: dumps_ascii_id parse_action_dumps parse_payload_to_dict zero_less_numeral)

lemma restore_pending_dict:
  "(\<And>b. v = Some b \<Longrightarrow> storable (BashAction b)) \<Longrightarrow>
   restore_pending (case v of None \<Rightarrow> JNull | Some b \<Rightarrow> JDict (action_to_dict (BashAction b))) = Inr v"
  by (cases v) (simp_all add: restore_pending_def parse_storable del: bind_res_eq_Inr action_to_dict.simps)

definition canonical_path :: "string option \<Rightarrow> bool" where
  "canonical_path p = (case p of None \<Rightarrow> True | Some q \<Rightarrow> path_of q = q)"

lemma path_or_none_opt_str: "canonical_path p \<Longrightarrow> path_or_none (opt_str p) = p"
  by (simp add: path_or_none_def opt_str_def canonical_path_def split: option.splits)

definition storable_state :: "run_state \<Rightarrow> bool" where
  "storable_state st =
     (stage st \<noteq> [] \<and> canonical_path (run_dir st) \<and> canonical_path (artifacts_dir st) \<and>
      canonical_path (workspace_host_path st) \<and>
      (case pending_action st of None \<Rightarrow> True | Some b \<Rightarrow> storable (BashAction b)))"

lemma state_from_to_dict:
  assumes "storable_state st"
  shows "state_from_dict (state_to_dict st) = Inr (st\<lparr>session_history := []\<rparr>)"
proof -
  have pend: "restore_pending (case pending_action st of None \<Rightarrow> JNull | Some b \<Rightarrow> JDict (action_to_dict (BashAction b)))
      = Inr (pending_action st)"
    using assms by (intro restore_pending_dict) (simp add: storable_state_def)
  have paths: "path_or_none (opt_str (run_dir st)) = run_dir st" "path_or_none (opt_str (artifacts_dir st)) = artifacts_dir st"
    "path_or_none (opt_str (workspace_host_path st)) = workspace_host_path st" and stg: "stage st \<noteq> []"
    using assms by (simp_all add: storable_state_def path_or_none_opt_str)
  show ?thesis
    unfolding state_from_dict_def state_to_dict_def
    by (simp add: pend paths stg restore_observation_dict need_key_def del: bind_res_eq_Inr)
qed

lemma step_from_to_dict:
  "(\<And>a. ts_action s = Some a \<Longrightarrow> storable a) \<Longrightarrow> step_from_dict (step_to_dict s) = Inr s"
  by (cases "ts_action s")
    (simp_all add: step_from_dict_def step_to_dict_def parse_storable observation_of_dict del: bind_res_eq_Inr action_to_dict.simps)

lemma storable_start: "stg \<noteq> [] \<Longrightarrow> canonical_path rdir \<Longrightarrow> canonical_path adir \<Longrightarrow> canonical_path ws \<Longrightarrow>
    storable_state (start_state rid goal ws rdir adir suite ms stg ns)"
  by (simp add: storable_state_def start_state_def)

section \<open>Properties\<close>



text \<open>A step of the trajectory, written into a checkpoint as a dictionary, is read back
  unchanged, for every action that the default limits of the parser accept.\<close>

theorem step_dict_round_trip:
  assumes "case ts_action s of None \<Rightarrow> True | Some a \<Rightarrow> storable a"
  shows "step_from_dict (step_to_dict s) = Inr s"
  using assms by (intro step_from_to_dict) (simp split: option.splits)

theorem step_dict_round_trip_witness:
  "step_from_dict (step_to_dict \<lparr>ts_action = Some (AskAction ''why?''), ts_observation = obs ''no_output'', ts_state_snapshot = ''s''\<rparr>)
   = Inr \<lparr>ts_action = Some (AskAction ''why?''), ts_observation = obs ''no_output'', ts_state_snapshot = ''s''\<rparr>"
proof (rule step_dict_round_trip)
  have "wf_action None 16 (AskAction ''why?'')" unfolding wf_action.simps by code_simp
  moreover have "plain (JDict (action_to_dict (AskAction ''why?'')))" by code_simp
  moreover have "ascii_text (action_to_json (AskAction ''why?''))" by code_simp
  ultimately show "case ts_action \<lparr>ts_action = Some (AskAction ''why?''), ts_observation = obs ''no_output'', ts_state_snapshot = ''s''\<rparr> of
      None \<Rightarrow> True | Some a \<Rightarrow> storable a"
    by (simp add: storable_def)
qed

definition many_calls :: "tool_call list" where
  "many_calls = map (\<lambda>n. \<lparr>call_id = str_nat n, tool = ''read'', arguments = [(''path'', JStr ''a'')]\<rparr>) [0 ..< 17]"

text \<open>The restriction is real. A run configured for more than sixteen tool calls per step can
  write a step into its checkpoint that cannot be read back: the reader parses with the default
  limit.\<close>

theorem step_beyond_default_limit:
  "wf_action None 17 (ToolCallsAction many_calls) \<and>
   (\<exists>e. step_from_dict (step_to_dict
      \<lparr>ts_action = Some (ToolCallsAction many_calls), ts_observation = obs ''command_result'', ts_state_snapshot = []\<rparr>) = Inl e)"
proof
  show "wf_action None 17 (ToolCallsAction many_calls)"
    unfolding wf_action.simps by code_simp
next
  let ?d = "action_to_dict (ToolCallsAction many_calls)"
  have "ascii_text (dumps (JDict ?d))" and plain: "plain (JDict ?d)" by code_simp+
  then have "parse_action (dumps_ascii (JDict ?d)) 60 None 16 = parse_payload ?d (dumps (JDict ?d)) 60 None 16"
    by (simp only: dumps_ascii_id parse_action_dumps)
  moreover have "length many_calls = 17" "many_calls \<noteq> []" by code_simp+
  ultimately have "\<exists>e. parse_action (dumps_ascii (JDict ?d)) 60 None 16 = Inl e"
    by (simp add: parse_payload_def parse_tool_calls_def del: bind_res_eq_Inr dumps.simps)
  then show "\<exists>e. step_from_dict (step_to_dict
      \<lparr>ts_action = Some (ToolCallsAction many_calls), ts_observation = obs ''command_result'', ts_state_snapshot = []\<rparr>) = Inl e"
    by (auto simp: step_from_dict_def step_to_dict_def simp del: bind_res_eq_Inr action_to_dict.simps)
qed

end
