(* ===== verification/Policy.thy ===== *)
theory Policy
  imports State Regex
begin

text \<open>
  The policies a bash action passes before it is executed (\<^verbatim>\<open>policy/*.py\<close>): the five policies with
  their patterns, and the chain that runs them in order, carries a rewritten action on to the next
  and stops at the first denial or request for approval.

  The contract between the chain and its clients is the locale \<open>policy_contract\<close>: a policy that
  rewrites an action keeps its command and only lowers its timeout. Each policy is interpreted
  in it, and the chain of policies that satisfy it satisfies it too (\<open>chain_contract\<close>), so that what
  \<^verbatim>\<open>build_policy_chain\<close> lets through is the requested command within the configured limits.
\<close>

section \<open>Decisions\<close>

datatype decision_type = Allow | Deny | RequireApproval | Rewrite

record policy_decision =
  pd_type :: decision_type
  pd_reason :: string
  pd_rewritten_action :: "bash_action option"
  pd_approval_question :: "string option"
  pd_policy_name :: string

definition decide :: "decision_type \<Rightarrow> string \<Rightarrow> string \<Rightarrow> policy_decision" where
  "decide t reason name = \<lparr>pd_type = t, pd_reason = reason, pd_rewritten_action = None, pd_approval_question = None,
     pd_policy_name = name\<rparr>"

type_synonym evaluator = "bash_action \<Rightarrow> run_state \<Rightarrow> policy_decision"

record policy =
  pol_name :: string
  pol_evaluate :: evaluator

section \<open>The chain\<close>

fun chain_loop :: "policy list \<Rightarrow> run_state \<Rightarrow> bash_action \<Rightarrow> policy_decision option \<Rightarrow> policy_decision" where
  "chain_loop [] st current rewrite =
     (case rewrite of Some d \<Rightarrow> d | None \<Rightarrow> decide Allow ''All policies allowed action.'' ''PolicyChain'')"
| "chain_loop (p # ps) st current rewrite =
     (let d = pol_evaluate p current st
      in case pd_type d of
           Allow \<Rightarrow> chain_loop ps st current rewrite
         | Rewrite \<Rightarrow>
             (case pd_rewritten_action d of
                None \<Rightarrow> decide Deny (pol_name p @ '' returned rewrite without rewritten_action.'') (pol_name p)
              | Some a \<Rightarrow> chain_loop ps st a (Some d))
         | _ \<Rightarrow> d)"

definition chain_evaluate :: "policy list \<Rightarrow> evaluator" where
  "chain_evaluate ps action st = chain_loop ps st action None"

section \<open>Dangerous commands\<close>

definition separator :: "char \<Rightarrow> bool" where \<comment> \<open>\<^verbatim>\<open>[;&|()\s]\<close>\<close>
  "separator c = (c \<in> set '';&|()'' \<or> is_space c)"

definition contains_command_rx :: "string \<Rightarrow> rx" where \<comment> \<open>\<^verbatim>\<open>(^|[;&|()\s])name(\s|$)\<close>\<close>
  "contains_command_rx name =
     Seq (Grp 1 (Alt Bol (Cls separator))) (Seq (lit name) (Grp 2 (Alt ws_char Eol)))"

definition contains_command :: "string \<Rightarrow> string \<Rightarrow> bool" where
  "contains_command cmd name = re_found (contains_command_rx name) cmd"

definition rm_args :: rx where \<comment> \<open>\<^verbatim>\<open>[^\n;|&]*\<close>\<close>
  "rm_args = rx_many (none_of (nl # '';|&''))"

definition rm_flags :: "rx list" where \<comment> \<open>\<^verbatim>\<open>\brm\s+-[^\n;|&]*[rf][^\n;|&]*\s+\<close>\<close>
  "rm_flags = [WordB, lit ''rm'', rx_some ws_char, lit ''-'', rm_args, one_of ''rf'', rm_args, rx_some ws_char]"

definition word_rx :: "string \<Rightarrow> rx" where \<comment> \<open>\<^verbatim>\<open>\bname\b\<close>\<close>
  "word_rx name = rx_seq [WordB, lit name, WordB]"

definition dangerous_patterns :: "rx list" where
  "dangerous_patterns =
     [rx_seq (rm_flags @ [lit ''/'']),
      rx_seq (rm_flags @ [lit ''*'']),
      word_rx ''shutdown'',
      word_rx ''reboot'',
      word_rx ''halt'',
      word_rx ''poweroff'',
      rx_seq [WordB, lit ''mkfs'', rx_opt (Seq (lit ''.'') (rx_some (Cls (\<lambda>c. lower_alpha c \<or> is_digit c)))), WordB],
      word_rx ''mount'',
      word_rx ''umount'',
      rx_seq [WordB, lit ''chmod'', rx_some ws_char, lit ''-r'', rx_some ws_char, lit ''777'', rx_some ws_char, lit ''/''],
      rx_seq [WordB, lit ''dd'', rx_some ws_char, rx_many dot, WordB, lit ''of=/dev/'']]"

definition command_deny :: "string \<Rightarrow> bash_action \<Rightarrow> policy_decision" where
  "command_deny reason action = decide Deny (reason @ '' Command was not executed: '' @ command action) ''CommandPolicy''"

definition command_policy :: "bool \<Rightarrow> evaluator" where
  "command_policy deny_sudo action st =
     (let low = lower (strip (command action))
      in if deny_sudo \<and> contains_command low ''sudo'' then command_deny ''sudo is not allowed in the sandbox.'' action
         else if list_ex (\<lambda>p. re_found p low) dangerous_patterns then
           command_deny ''Command matches a dangerous system operation pattern.'' action
         else decide Allow ''Command did not match dangerous patterns.'' ''CommandPolicy'')"

section \<open>Sensitive paths\<close>

definition default_sensitive_paths :: "string list" where
  "default_sensitive_paths = [''/host'', ''/mnt'', ''/var/run/docker.sock'', ''/root/.ssh'', ''~/.ssh'']"

text \<open>The loop returns at the first path found.\<close>

definition path_policy :: "string list \<Rightarrow> evaluator" where
  "path_policy sensitive action st =
     (case find (\<lambda>p. contains (command action) p) sensitive of
        Some p \<Rightarrow> decide Deny (''Command references sensitive path '' @ p @ ''.'') ''PathPolicy''
      | None \<Rightarrow> decide Allow ''No sensitive path references found.'' ''PathPolicy'')"

section \<open>Network access\<close>

definition blanks :: rx where "blanks = Cls (\<lambda>c. c = CHR '' '' \<or> c = CHR 0x09)" \<comment> \<open>\<^verbatim>\<open>[ \t]\<close>\<close>

definition quote_char :: rx where "quote_char = Cls (\<lambda>c. c = CHR 0x27 \<or> c = dq)"

definition heredoc_declaration :: rx where \<comment> \<open>\<^verbatim>\<open><<-?[ \t]*(['"]?)([A-Za-z_][A-Za-z0-9_]*)\1\<close>\<close>
  "heredoc_declaration =
     rx_seq [lit ''<<'', rx_opt (lit ''-''), rx_many blanks, Grp 1 (rx_opt quote_char),
             Grp 2 (Seq (Cls ident_start) (rx_many (Cls ident_char))), Backref 1]"

fun keep_lines :: "string option \<Rightarrow> string list \<Rightarrow> string list" where
  "keep_lines delim [] = []"
| "keep_lines (Some d) (l # ls) = keep_lines (if strip l = d then None else Some d) ls"
| "keep_lines None (l # ls) =
     l # keep_lines (case re_search heredoc_declaration l of None \<Rightarrow> None | Some (i, j, c) \<Rightarrow> Some (group_text l 2 c)) ls"

definition strip_heredoc_bodies :: "string \<Rightarrow> string" where
  "strip_heredoc_bodies cmd = join [nl] (keep_lines None (splitlines cmd))"

definition net_boundary :: rx where \<comment> \<open>\<^verbatim>\<open>(?:^[ \t]*|[;&|][ \t]*)\<close>\<close>
  "net_boundary = Alt (Seq MBol (rx_many blanks)) (Seq (one_of '';&|'') (rx_many blanks))"

definition net_prefixes :: rx where \<comment> \<open>\<^verbatim>\<open>(?:[A-Za-z_][A-Za-z0-9_]*=\S+[ \t]+)*(?:sudo[ \t]+)?\<close>\<close>
  "net_prefixes =
     Seq (rx_many (rx_seq [Cls ident_start, rx_many (Cls ident_char), lit ''='', rx_some non_ws, rx_some blanks]))
         (rx_opt (Seq (lit ''sudo'') (rx_some blanks)))"

definition net_words :: "rx list \<Rightarrow> rx" where \<comment> \<open>words separated by \<^verbatim>\<open>\s+\<close>, then \<^verbatim>\<open>\b\<close>\<close>
  "net_words rs = rx_seq (concat (map (\<lambda>r. [rx_some ws_char, r]) rs) @ [WordB])"

definition network_patterns :: "rx list" where
  "network_patterns =
     [Seq (lit ''curl'') WordB,
      Seq (lit ''wget'') WordB,
      Seq (lit ''git'') (net_words [lit ''clone'']),
      Seq (lit ''pip'') (net_words [lit ''install'']),
      Seq (lit ''python'') (net_words [lit ''-m'', lit ''pip'', lit ''install'']),
      Seq (lit ''uv'') (net_words [Grp 1 (rx_alts [lit ''sync'', lit ''add'', rx_seq [lit ''pip'', rx_some ws_char, lit ''install'']])]),
      Seq (lit ''npm'') (net_words [Grp 1 (words [''install'', ''i''])]),
      Seq (lit ''pnpm'') (net_words [Grp 1 (words [''install'', ''add''])]),
      Seq (lit ''yarn'') (net_words [Grp 1 (words [''install'', ''add''])]),
      Seq (lit ''poetry'') (net_words [lit ''add'']),
      Seq (Seq (lit ''apt'') (rx_opt (Grp 1 (lit ''-get'')))) (net_words [Grp 2 (words [''update'', ''install''])]),
      Seq (lit ''apk'') (net_words [lit ''add''])]"

definition quoted_tail :: rx where \<comment> \<open>\<^verbatim>\<open>(['"])(.*?)\1\<close>\<close>
  "quoted_tail = Seq (Grp 1 quote_char) (Seq (Grp 2 (Star False any_char)) (Backref 1))"

definition shell_prefix :: rx where
  "shell_prefix =
     rx_seq [net_boundary, net_prefixes, words [''bash'', ''sh'', ''zsh''], rx_some blanks, lit ''-c'', rx_some blanks]"

definition shell_wrapper :: rx where
  "shell_wrapper = Seq shell_prefix quoted_tail"

lemma keep_lines_length:
  "(\<Sum>l \<leftarrow> keep_lines d ls. length l) + length (keep_lines d ls) \<le> (\<Sum>l \<leftarrow> ls. length l) + length ls"
  by (induction d ls rule: keep_lines.induct) auto

lemma strip_heredoc_length: "length (strip_heredoc_bodies cmd) \<le> length cmd"
proof -
  have "length (strip_heredoc_bodies cmd) \<le> length (join [nl] (splitlines cmd))"
    using keep_lines_length [of None "splitlines cmd"] unfolding strip_heredoc_bodies_def length_join
    by (cases "splitlines cmd") auto
  then show ?thesis using length_join_splitlines [of nl cmd] by linarith
qed

lemma quoted_tail_group:
  assumes "(j, c') \<in> set (rx_run quoted_tail s i c)" "i \<le> length s"
  shows "length (group_text s 2 c') < length s"
proof -
  obtain m d where m: "Suc i \<le> length s" "(m, d) \<in> set (rx_run (Star False any_char) s (Suc i) ((1, i, Suc i) # c))"
    and c': "c' = (2, Suc i, m) # d"
    using assms(1) unfolding quoted_tail_def quote_char_def
    by (auto simp: Let_def split: if_splits option.splits simp del: rx_run.simps(5))
  have "m \<le> length s" using rx_run_bounds [OF m(2,1)] by simp
  with m(1) show ?thesis by (simp add: group_text_def c')
qed

lemma shell_wrapper_group:
  assumes "(i, j, c) \<in> set (re_finditer shell_wrapper s)"
  shows "length (group_text s 2 c) < length s"
proof -
  have "i \<le> length s" "(j, c) \<in> set (rx_run shell_wrapper s i [])"
    using assms finditer_result unfolding re_finditer_def by blast+
  then obtain k d where "(k, d) \<in> set (rx_run shell_prefix s i [])" and "(j, c) \<in> set (rx_run quoted_tail s k d)"
    unfolding shell_wrapper_def rx_run.simps(3) by auto
  then show ?thesis using rx_run_bounds \<open>i \<le> length s\<close> quoted_tail_group by blast
qed

function looks_like_network_action :: "string \<Rightarrow> bool" where
  "looks_like_network_action cmd =
     (let code = strip_heredoc_bodies cmd
      in if list_ex (\<lambda>p. re_found (rx_seq [net_boundary, net_prefixes, p]) (lower code)) network_patterns then True
         else list_ex (\<lambda>(i, j, c). looks_like_network_action (group_text code 2 c)) (re_finditer shell_wrapper code))"
  by pat_completeness auto
termination
  by (relation "measure length") (auto intro: less_le_trans [OF shell_wrapper_group strip_heredoc_length])

declare looks_like_network_action.simps [simp del]

definition network_policy :: "string \<Rightarrow> bool \<Rightarrow> evaluator" where
  "network_policy mode require_approval action st =
     (if mode \<noteq> ''locked'' then decide Allow ''Network policy is not locked.'' ''NetworkPolicy''
      else if \<not> looks_like_network_action (command action) then decide Allow ''No network command detected.'' ''NetworkPolicy''
      else if require_approval then
        (decide RequireApproval ''Network-related command is blocked in locked sandbox mode.'' ''NetworkPolicy'')
          \<lparr>pd_approval_question :=
             Some (''This action may require network access in locked mode. Approve running it? Command: '' @ command action)\<rparr>
      else decide Deny ''Network-related command is blocked in locked sandbox mode.'' ''NetworkPolicy'')"

section \<open>Budget\<close>

definition budget_policy :: "int \<Rightarrow> int \<Rightarrow> evaluator" where
  "budget_policy max_bash_actions max_timeout action st =
     (if max_bash_actions \<le> mget (metrics st) ''bash_actions'' then
        decide Deny (''Budget exhausted: max_bash_actions='' @ str_int max_bash_actions @ ''.'') ''BudgetPolicy''
      else if max_timeout < timeout_sec action then
        (decide Rewrite (''Reduced action timeout from '' @ str_int (timeout_sec action) @ ''s to '' @ str_int max_timeout @ ''s.'')
           ''BudgetPolicy'')
          \<lparr>pd_rewritten_action := Some \<lparr>command = command action, timeout_sec = max_timeout, purpose = purpose action\<rparr>\<rparr>
      else decide Allow ''Budget allows action.'' ''BudgetPolicy'')"

section \<open>Approval of deletions\<close>

definition approval_patterns :: "rx list" where
  "approval_patterns =
     [rx_seq [WordB, lit ''rm'', rx_some ws_char,
        Alt (rx_seq [lit ''-'', rx_many (Cls lower_alpha), one_of ''rf'', rx_many (Cls lower_alpha)])
            (rx_seq [lit ''--'', words [''recursive'', ''force''], WordB])],
      rx_seq [WordB, lit ''git'', rx_some ws_char, lit ''clean'', WordB],
      rx_seq [WordB, lit ''find'', WordB, rx_some dot, ws_char, lit ''-delete'', WordB]]"

definition approval_policy :: "bool \<Rightarrow> evaluator" where
  "approval_policy enabled action st =
     (if \<not> enabled then decide Allow ''Destructive-command approval policy is disabled.'' ''ApprovalPolicy''
      else if list_ex (\<lambda>p. re_found p (lower (command action))) approval_patterns then
        (decide RequireApproval ''Command may delete files and requires human approval.'' ''ApprovalPolicy'')
          \<lparr>pd_approval_question := Some (''Approve this potentially destructive command? '' @ command action)\<rparr>
      else decide Allow ''No approval-only pattern matched.'' ''ApprovalPolicy'')"

section \<open>The configured chain\<close>

text \<open>The settings the factory reads.\<close>

record policy_settings =
  deny_sudo :: bool
  sandbox_mode :: string
  require_approval_for_network :: bool
  max_bash_actions :: int
  max_action_timeout_sec :: int
  require_approval_for_destructive :: bool

definition build_policy_chain :: "policy_settings \<Rightarrow> policy list" where
  "build_policy_chain s =
     [\<lparr>pol_name = ''CommandPolicy'', pol_evaluate = command_policy (deny_sudo s)\<rparr>,
      \<lparr>pol_name = ''PathPolicy'', pol_evaluate = path_policy default_sensitive_paths\<rparr>,
      \<lparr>pol_name = ''NetworkPolicy'', pol_evaluate = network_policy (sandbox_mode s) (require_approval_for_network s)\<rparr>,
      \<lparr>pol_name = ''BudgetPolicy'', pol_evaluate = budget_policy (max_bash_actions s) (max_action_timeout_sec s)\<rparr>,
      \<lparr>pol_name = ''ApprovalPolicy'', pol_evaluate = approval_policy (require_approval_for_destructive s)\<rparr>]"

section \<open>The contract of a policy\<close>

text \<open>The action that is executed under a decision (\<^verbatim>\<open>action_to_execute\<close> of the action handler).\<close>

definition effective_action :: "policy_decision \<Rightarrow> bash_action \<Rightarrow> bash_action" where
  "effective_action d action =
     (case pd_rewritten_action d of Some b \<Rightarrow> if pd_type d = Rewrite then b else action | None \<Rightarrow> action)"

definition passes :: "policy_decision \<Rightarrow> bool" where
  "passes d = (pd_type d = Allow \<or> pd_type d = Rewrite)"

text \<open>An action that runs the same command for no longer.\<close>

definition weakens :: "bash_action \<Rightarrow> bash_action \<Rightarrow> bool" where
  "weakens b a = (command b = command a \<and> purpose b = purpose a \<and> timeout_sec b \<le> timeout_sec a)"

lemma weakens_refl [simp]: "weakens a a"
  by (simp add: weakens_def)

lemma weakens_trans: "weakens c b \<Longrightarrow> weakens b a \<Longrightarrow> weakens c a"
  by (simp add: weakens_def)

locale policy_contract =
  fixes eval :: evaluator
  assumes rewrite_weakens: "pd_type (eval a st) = Rewrite \<Longrightarrow> \<exists>b. pd_rewritten_action (eval a st) = Some b \<and> weakens b a"
    and approval_asks: "pd_type (eval a st) = RequireApproval \<Longrightarrow> pd_approval_question (eval a st) \<noteq> None"
begin

lemma effective_weakens: "weakens (effective_action (eval a st) a) a"
  using rewrite_weakens [of a st] by (cases "pd_type (eval a st) = Rewrite") (auto simp: effective_action_def split: option.splits)

lemma same_command: "command (effective_action (eval a st) a) = command a"
  using effective_weakens by (simp add: weakens_def)

lemma approval_question: "pd_type (eval a st) = RequireApproval \<Longrightarrow> \<exists>q. pd_approval_question (eval a st) = Some q"
  using approval_asks by blast

end

lemma decide_simps [simp]:
  "pd_type (decide t r n) = t" "pd_rewritten_action (decide t r n) = None" "pd_approval_question (decide t r n) = None"
  "pd_policy_name (decide t r n) = n" "pd_reason (decide t r n) = r"
  by (simp_all add: decide_def)

interpretation command_pol: policy_contract "command_policy b" for b
  by unfold_locales (auto simp: command_policy_def command_deny_def Let_def split: if_splits)

interpretation path_pol: policy_contract "path_policy ps" for ps
  by unfold_locales (auto simp: path_policy_def split: option.splits)

interpretation network_pol: policy_contract "network_policy mode b" for mode b
  by unfold_locales (auto simp: network_policy_def split: if_splits)

interpretation budget_pol: policy_contract "budget_policy n t" for n t
  by unfold_locales (auto simp: budget_policy_def weakens_def split: if_splits)

interpretation approval_pol: policy_contract "approval_policy b" for b
  by unfold_locales (auto simp: approval_policy_def split: if_splits)

text \<open>What the chain carries along: the action the policies so far have left, weaker than the
  requested one, and the decision that rewrote it.\<close>

definition carried :: "bash_action \<Rightarrow> bash_action \<Rightarrow> policy_decision option \<Rightarrow> bool" where
  "carried a cur rw = (weakens cur a \<and> (case rw of None \<Rightarrow> cur = a | Some d \<Rightarrow> pd_type d = Rewrite \<and> pd_rewritten_action d = Some cur))"

lemma chain_loop_contract:
  assumes "\<forall>p \<in> set ps. policy_contract (pol_evaluate p)" "carried a cur rw"
  shows "(pd_type (chain_loop ps st cur rw) = Rewrite \<longrightarrow>
           (\<exists>b. pd_rewritten_action (chain_loop ps st cur rw) = Some b \<and> weakens b a)) \<and>
         (pd_type (chain_loop ps st cur rw) = RequireApproval \<longrightarrow> pd_approval_question (chain_loop ps st cur rw) \<noteq> None)"
  using assms
proof (induction ps arbitrary: cur rw)
  case Nil
  then show ?case by (auto simp: carried_def split: option.splits)
next
  case (Cons p ps)
  have p: "policy_contract (pol_evaluate p)" using Cons.prems(1) by simp
  show ?case
  proof (cases "pd_type (pol_evaluate p cur st)")
    case Rewrite
    then obtain b where b: "pd_rewritten_action (pol_evaluate p cur st) = Some b" "weakens b cur"
      using policy_contract.rewrite_weakens [OF p] by blast
    with Rewrite Cons.prems(2) have "carried a b (Some (pol_evaluate p cur st))"
      by (auto simp: carried_def intro: weakens_trans)
    with Cons.IH Cons.prems(1) Rewrite b show ?thesis by simp
  qed (use Cons policy_contract.approval_question [OF p] in auto)
qed

lemma chain_contract: "\<forall>p \<in> set ps. policy_contract (pol_evaluate p) \<Longrightarrow> policy_contract (chain_evaluate ps)"
  using chain_loop_contract [of ps a a None for a] by unfold_locales (auto simp: chain_evaluate_def carried_def)

interpretation built_chain: policy_contract "chain_evaluate (build_policy_chain s)" for s
proof (rule chain_contract)
  show "\<forall>p \<in> set (build_policy_chain s). policy_contract (pol_evaluate p)"
    unfolding build_policy_chain_def
    using command_pol.policy_contract_axioms path_pol.policy_contract_axioms network_pol.policy_contract_axioms
      budget_pol.policy_contract_axioms approval_pol.policy_contract_axioms by simp
qed

section \<open>What the configured chain lets through\<close>

text \<open>The conditions under which none of the policies stops a command.\<close>

definition command_clear :: "policy_settings \<Rightarrow> string \<Rightarrow> bool" where
  "command_clear s cmd =
     ((deny_sudo s \<longrightarrow> \<not> contains_command (lower (strip cmd)) ''sudo'') \<and>
      (\<forall>p \<in> set dangerous_patterns. \<not> re_found p (lower (strip cmd))) \<and>
      (\<forall>p \<in> set default_sensitive_paths. \<not> contains cmd p) \<and>
      (sandbox_mode s = ''locked'' \<longrightarrow> \<not> looks_like_network_action cmd) \<and>
      (require_approval_for_destructive s \<longrightarrow> (\<forall>p \<in> set approval_patterns. \<not> re_found p (lower cmd))))"

lemma command_policy_type:
  "pd_type (command_policy b a st) =
     (if (b \<and> contains_command (lower (strip (command a))) ''sudo'') \<or>
         (\<exists>p \<in> set dangerous_patterns. re_found p (lower (strip (command a)))) then Deny else Allow)"
  by (simp add: command_policy_def command_deny_def Let_def list_ex_iff)

lemma path_policy_type:
  "pd_type (path_policy ps a st) = (if \<exists>p \<in> set ps. contains (command a) p then Deny else Allow)"
  by (auto simp: path_policy_def find_None_iff find_Some_iff split: option.splits)

lemma network_policy_type:
  "pd_type (network_policy mode b a st) =
     (if mode = ''locked'' \<and> looks_like_network_action (command a) then (if b then RequireApproval else Deny) else Allow)"
  by (simp add: network_policy_def)

lemma approval_policy_type:
  "pd_type (approval_policy b a st) =
     (if b \<and> (\<exists>p \<in> set approval_patterns. re_found p (lower (command a))) then RequireApproval else Allow)"
  by (simp add: approval_policy_def list_ex_iff)

lemma budget_policy_type:
  "pd_type (budget_policy n t a st) =
     (if n \<le> mget (metrics st) ''bash_actions'' then Deny else if t < timeout_sec a then Rewrite else Allow)"
  by (simp add: budget_policy_def)

lemma budget_policy_rewrites:
  "pd_type (budget_policy n t a st) = Rewrite \<Longrightarrow>
   pd_rewritten_action (budget_policy n t a st) = Some (a\<lparr>timeout_sec := t\<rparr>)"
  by (auto simp: budget_policy_def split: if_splits)

lemmas policy_types = command_policy_type path_policy_type network_policy_type approval_policy_type budget_policy_type

lemma min_timeout_eq: "a\<lparr>timeout_sec := min (timeout_sec a) t\<rparr> = (if t < timeout_sec a then a\<lparr>timeout_sec := t\<rparr> else a)"
  for a :: bash_action
  by (simp add: min_def)

lemma chain_loop_guard:
  assumes "pd_type (pol_evaluate p cur st) = (if c then t else Allow)" "t = Deny \<or> t = RequireApproval"
  shows "chain_loop (p # ps) st cur rw = (if c then pol_evaluate p cur st else chain_loop ps st cur rw)"
  using assms by (auto simp: Let_def)

lemma passes_if_stop: "pd_type d \<noteq> Allow \<Longrightarrow> pd_type d \<noteq> Rewrite \<Longrightarrow> passes (if c then d else e) \<longleftrightarrow> \<not> c \<and> passes e"
  by (simp add: passes_def)

text \<open>The last two policies: the budget may lower the timeout, which deletions do not depend on.\<close>

lemma budget_approval_tail:
  fixes a :: bash_action
  assumes ps_def: "ps = [\<lparr>pol_name = ''BudgetPolicy'', pol_evaluate = budget_policy n t\<rparr>,
                  \<lparr>pol_name = ''ApprovalPolicy'', pol_evaluate = approval_policy b\<rparr>]"
  shows "passes (chain_loop ps st a None) \<longleftrightarrow>
      mget (metrics st) ''bash_actions'' < n \<and> (b \<longrightarrow> (\<forall>p \<in> set approval_patterns. \<not> re_found p (lower (command a))))"
    and "passes (chain_loop ps st a None) \<Longrightarrow>
      effective_action (chain_loop ps st a None) a = a\<lparr>timeout_sec := min (timeout_sec a) t\<rparr>"
proof -
  let ?del = "b \<and> (\<exists>p \<in> set approval_patterns. re_found p (lower (command a)))"
  consider "n \<le> mget (metrics st) ''bash_actions''" | "\<not> n \<le> mget (metrics st) ''bash_actions''" "t < timeout_sec a"
    | "\<not> n \<le> mget (metrics st) ''bash_actions''" "\<not> t < timeout_sec a" by blast
  then have "(passes (chain_loop ps st a None) \<longleftrightarrow> mget (metrics st) ''bash_actions'' < n \<and> \<not> ?del) \<and>
    (passes (chain_loop ps st a None) \<longrightarrow> effective_action (chain_loop ps st a None) a = a\<lparr>timeout_sec := min (timeout_sec a) t\<rparr>)"
  proof cases
    case 1
    then show ?thesis by (simp add: ps_def Let_def budget_policy_type passes_def)
  next
    case 2
    then have "chain_loop ps st a None =
        chain_loop [\<lparr>pol_name = ''ApprovalPolicy'', pol_evaluate = approval_policy b\<rparr>] st (a\<lparr>timeout_sec := t\<rparr>) (Some (budget_policy n t a st))"
      by (simp add: ps_def Let_def budget_policy_type budget_policy_rewrites)
    with 2 show ?thesis
      by (cases ?del)
        (simp_all add: chain_loop_guard [OF _ disjI2 [OF refl]] approval_policy_type passes_def budget_policy_type
          effective_action_def budget_policy_rewrites min_timeout_eq Let_def)
  next
    case 3
    then have "chain_loop ps st a None = chain_loop [\<lparr>pol_name = ''ApprovalPolicy'', pol_evaluate = approval_policy b\<rparr>] st a None"
      by (simp add: ps_def Let_def budget_policy_type)
    with 3 show ?thesis
      by (cases ?del) (simp_all add: Let_def approval_policy_type passes_def effective_action_def min_timeout_eq)
  qed
  then show "passes (chain_loop ps st a None) \<longleftrightarrow>
      mget (metrics st) ''bash_actions'' < n \<and> (b \<longrightarrow> (\<forall>p \<in> set approval_patterns. \<not> re_found p (lower (command a))))"
    and "passes (chain_loop ps st a None) \<Longrightarrow>
      effective_action (chain_loop ps st a None) a = a\<lparr>timeout_sec := min (timeout_sec a) t\<rparr>"
    by blast+
qed

lemma chain_guards:
  "chain_evaluate (build_policy_chain s) a st =
     (if (deny_sudo s \<and> contains_command (lower (strip (command a))) ''sudo'') \<or>
         (\<exists>p \<in> set dangerous_patterns. re_found p (lower (strip (command a)))) then command_policy (deny_sudo s) a st
      else if \<exists>p \<in> set default_sensitive_paths. contains (command a) p then path_policy default_sensitive_paths a st
      else if sandbox_mode s = ''locked'' \<and> looks_like_network_action (command a)
        then network_policy (sandbox_mode s) (require_approval_for_network s) a st
      else chain_loop
        [\<lparr>pol_name = ''BudgetPolicy'', pol_evaluate = budget_policy (max_bash_actions s) (max_action_timeout_sec s)\<rparr>,
         \<lparr>pol_name = ''ApprovalPolicy'', pol_evaluate = approval_policy (require_approval_for_destructive s)\<rparr>] st a None)"
proof -
  have net: "pd_type (network_policy m b a st) =
      (if m = ''locked'' \<and> looks_like_network_action (command a) then (if b then RequireApproval else Deny) else Allow)" for m b
    by (rule network_policy_type)
  show ?thesis
    unfolding chain_evaluate_def build_policy_chain_def
    by (subst chain_loop_guard, simp only: policy.simps, rule command_policy_type, simp,
        subst chain_loop_guard, simp only: policy.simps, rule path_policy_type, simp,
        subst chain_loop_guard, simp only: policy.simps, rule net, simp) simp
qed

lemma build_chain_result:
  fixes a :: bash_action
  assumes d: "d = chain_evaluate (build_policy_chain s) a st"
  shows "(passes d \<longleftrightarrow> command_clear s (command a) \<and> mget (metrics st) ''bash_actions'' < max_bash_actions s) \<and>
         (passes d \<longrightarrow> effective_action d a = a\<lparr>timeout_sec := min (timeout_sec a) (max_action_timeout_sec s)\<rparr>)"
proof -
  let ?c1 = "(deny_sudo s \<and> contains_command (lower (strip (command a))) ''sudo'') \<or>
      (\<exists>p \<in> set dangerous_patterns. re_found p (lower (strip (command a))))"
  let ?c2 = "\<exists>p \<in> set default_sensitive_paths. contains (command a) p"
  let ?c3 = "sandbox_mode s = ''locked'' \<and> looks_like_network_action (command a)"
  have clear: "command_clear s (command a) \<longleftrightarrow> \<not> ?c1 \<and> \<not> ?c2 \<and> \<not> ?c3 \<and>
      (require_approval_for_destructive s \<longrightarrow> (\<forall>p \<in> set approval_patterns. \<not> re_found p (lower (command a))))"
    unfolding command_clear_def by blast
  consider "?c1" | "\<not> ?c1" "?c2" | "\<not> ?c1" "\<not> ?c2" "?c3" | "\<not> ?c1" "\<not> ?c2" "\<not> ?c3" by blast
  then show ?thesis
  proof cases
    case 1
    then have "pd_type d = Deny" unfolding d chain_guards by (simp add: command_policy_type)
    with 1 show ?thesis unfolding clear by (simp add: passes_def)
  next
    case 2
    then have "pd_type d = Deny" unfolding d chain_guards if_not_P [OF 2(1)] if_P [OF 2(2)] by (simp add: path_policy_type)
    with 2 show ?thesis unfolding clear by (simp add: passes_def)
  next
    case 3
    then have "pd_type d \<in> {Deny, RequireApproval}" unfolding d chain_guards if_not_P [OF 3(1)] if_not_P [OF 3(2)] if_P [OF 3(3)]
      by (simp add: network_policy_type)
    with 3 show ?thesis unfolding clear by (auto simp: passes_def)
  next
    case 4
    note tail = budget_approval_tail [OF refl, of "max_bash_actions s" "max_action_timeout_sec s" "require_approval_for_destructive s" st a]
    show ?thesis
      using tail 4 unfolding d chain_guards clear if_not_P [OF 4(1)] if_not_P [OF 4(2)] if_not_P [OF 4(3)] by blast
  qed
qed

section \<open>Words\<close>
section \<open>Words\<close>

lemma no_backref_lit [simp]: "no_backref (lit w)"
  by (induction w) (simp_all add: lit_def)

lemma startswith_drop: "startswith (drop i s) w \<and> i \<le> length s \<longleftrightarrow> (\<exists>a b. s = a @ w @ b \<and> length a = i)"
  unfolding startswith_prefix prefix_def
  by (metis append_eq_conv_conj append_take_drop_id length_take min.absorb2 le_add1 length_append)

lemma contains_command_iff:
  "contains_command cmd name \<longleftrightarrow>
     (\<exists>a b. cmd = a @ name @ b \<and> (a = [] \<or> separator (last a)) \<and> (b = [] \<or> is_space (hd b)))"
proof -
  have start: "(\<exists>i \<le> length cmd. (i, k) \<in> rx_rel cmd (Alt Bol (Cls separator))) \<longleftrightarrow>
      k \<le> length cmd \<and> (take k cmd = [] \<or> separator (last (take k cmd)))" for k
    by (cases k) (auto simp: take_Suc_conv_app_nth Suc_le_eq intro: less_imp_le)
  have finish: "(\<exists>j. (m, j) \<in> rx_rel cmd (Alt ws_char Eol)) \<longleftrightarrow> drop m cmd = [] \<or> is_space (hd (drop m cmd))" if "m \<le> length cmd" for m
  proof (cases "m < length cmd")
    case True
    moreover have "is_space nl" by (simp add: is_space_def)
    ultimately show ?thesis by (auto simp: ws_char_def end_at_def hd_drop_conv_nth)
  next
    case False
    with that show ?thesis by (auto simp: ws_char_def end_at_def)
  qed
  have "contains_command cmd name \<longleftrightarrow>
      (\<exists>k. (\<exists>i \<le> length cmd. (i, k) \<in> rx_rel cmd (Alt Bol (Cls separator))) \<and>
        startswith (drop k cmd) name \<and> (\<exists>j. (k + length name, j) \<in> rx_rel cmd (Alt ws_char Eol)))"
    unfolding contains_command_def contains_command_rx_def
    by (subst re_found_iff) (auto simp: ws_char_def relcomp_unfold rx_rel_lit simp del: rx_rel.simps(4))
  also have "\<dots> \<longleftrightarrow> (\<exists>k. k \<le> length cmd \<and> startswith (drop k cmd) name \<and> (take k cmd = [] \<or> separator (last (take k cmd))) \<and>
      (drop (k + length name) cmd = [] \<or> is_space (hd (drop (k + length name) cmd))))"
    unfolding start
  proof (rule iff_exI)
    fix k
    have "k + length name \<le> length cmd" if "startswith (drop k cmd) name" "k \<le> length cmd"
      using startswith_length [OF that(1)] that(2) by simp
    then show "((k \<le> length cmd \<and> (take k cmd = [] \<or> separator (last (take k cmd)))) \<and> startswith (drop k cmd) name \<and>
        (\<exists>j. (k + length name, j) \<in> rx_rel cmd (Alt ws_char Eol))) =
      (k \<le> length cmd \<and> startswith (drop k cmd) name \<and> (take k cmd = [] \<or> separator (last (take k cmd))) \<and>
        (drop (k + length name) cmd = [] \<or> is_space (hd (drop (k + length name) cmd))))"
      using finish [of "k + length name"] by satx
  qed
  also have "\<dots> \<longleftrightarrow> (\<exists>a b. cmd = a @ name @ b \<and> (a = [] \<or> separator (last a)) \<and> (b = [] \<or> is_space (hd b)))"
  proof (intro iffI; elim exE conjE)
    fix k assume k: "k \<le> length cmd" "startswith (drop k cmd) name" "take k cmd = [] \<or> separator (last (take k cmd))"
      and e: "drop (k + length name) cmd = [] \<or> is_space (hd (drop (k + length name) cmd))"
    obtain b where b: "drop k cmd = name @ b" using k(2) by (auto simp: startswith_prefix prefix_def)
    then have "drop (k + length name) cmd = b" by (metis append_eq_conv_conj drop_drop add.commute)
    moreover have "cmd = take k cmd @ name @ b" using b by (metis append_take_drop_id)
    ultimately show "\<exists>a b. cmd = a @ name @ b \<and> (a = [] \<or> separator (last a)) \<and> (b = [] \<or> is_space (hd b))"
      using k(3) e by metis
  next
    fix a b assume c: "cmd = a @ name @ b" "a = [] \<or> separator (last a)" "b = [] \<or> is_space (hd b)"
    then show "\<exists>k. k \<le> length cmd \<and> startswith (drop k cmd) name \<and> (take k cmd = [] \<or> separator (last (take k cmd))) \<and>
      (drop (k + length name) cmd = [] \<or> is_space (hd (drop (k + length name) cmd)))"
      by (intro exI [of _ "length a"]) (auto simp: startswith_prefix)
  qed
  finally show ?thesis .
qed

lemma contains_iff: "contains s p \<longleftrightarrow> (\<exists>a b. s = a @ p @ b)"
  unfolding contains_sublist sublist_def by blast

section \<open>Properties\<close>

text \<open>C36: the configured chain lets a bash action through exactly when its command is clear of every
  policy and the action budget is not used up, and what is executed then is the requested command
  with its timeout capped at the configured maximum.\<close>

theorem build_policy_chain_passes:
  "passes (chain_evaluate (build_policy_chain s) a st) =
     (command_clear s (command a) \<and> mget (metrics st) ''bash_actions'' < max_bash_actions s) \<and>
   effective_action (chain_evaluate (build_policy_chain s) a st) a =
     (if passes (chain_evaluate (build_policy_chain s) a st)
      then a\<lparr>timeout_sec := min (timeout_sec a) (max_action_timeout_sec s)\<rparr> else a)"
  using build_chain_result [OF refl, of s a st] by (auto simp: effective_action_def passes_def split: option.splits)

text \<open>Under every chain of contract-abiding policies, the configured one included, a decision
  never changes the command that is executed and never lengthens its timeout, and a request for
  approval always carries a question.\<close>

theorem build_policy_chain_contract:
  "weakens (effective_action (chain_evaluate (build_policy_chain s) a st) a) a \<and>
   (case pd_type (chain_evaluate (build_policy_chain s) a st) of
      RequireApproval \<Rightarrow> pd_approval_question (chain_evaluate (build_policy_chain s) a st) \<noteq> None
    | _ \<Rightarrow> True)"
  using built_chain.effective_weakens built_chain.approval_question [of s a st] by (auto split: decision_type.splits)

text \<open>With \<^verbatim>\<open>deny_sudo\<close> set, every command in which \<^verbatim>\<open>sudo\<close> stands as a word of its own (after
  lowering case), at the start or behind a separator and followed by a blank or the end, is
  denied.\<close>

theorem sudo_denied:
  assumes "lower (strip (command a)) = pre @ ''sudo'' @ post" "pre = [] \<or> separator (last pre)" "post = [] \<or> is_space (hd post)"
    and "deny_sudo s"
  shows "pd_type (chain_evaluate (build_policy_chain s) a st) = Deny"
proof -
  have "contains_command (lower (strip (command a))) ''sudo''" using assms(1-3) unfolding contains_command_iff by blast
  with assms(4) show ?thesis by (simp add: chain_guards command_policy_type)
qed

definition sample_settings :: policy_settings where
  "sample_settings = \<lparr>deny_sudo = True, sandbox_mode = ''locked'', require_approval_for_network = True, max_bash_actions = 30,
     max_action_timeout_sec = 120, require_approval_for_destructive = True\<rparr>"

theorem sudo_denied_witness:
  "pd_type (chain_evaluate (build_policy_chain sample_settings) \<lparr>command = '' ls; SUDO ls'', timeout_sec = 5, purpose = []\<rparr>
     (start_state ''r'' ''g'' None None None None [] ''s'' [])) = Deny"
proof (rule sudo_denied)
  show "lower (strip (command \<lparr>command = '' ls; SUDO ls'', timeout_sec = 5, purpose = []\<rparr>)) = ''ls; '' @ ''sudo'' @ '' ls''"
    by code_simp
qed (simp_all add: sample_settings_def separator_def is_space_def)

text \<open>A command that mentions a sensitive path anywhere is denied.\<close>

theorem sensitive_path_denied:
  assumes "command a = pre @ p @ post" "p \<in> set default_sensitive_paths"
  shows "pd_type (chain_evaluate (build_policy_chain s) a st) = Deny"
proof -
  have "\<exists>p \<in> set default_sensitive_paths. contains (command a) p" using assms unfolding contains_iff by blast
  then show ?thesis by (simp add: chain_guards command_policy_type path_policy_type)
qed

theorem sensitive_path_denied_witness:
  "pd_type (chain_evaluate (build_policy_chain sample_settings) \<lparr>command = ''cat /mnt/x'', timeout_sec = 5, purpose = []\<rparr>
     (start_state ''r'' ''g'' None None None None [] ''s'' [])) = Deny"
proof (rule sensitive_path_denied)
  show "command \<lparr>command = ''cat /mnt/x'', timeout_sec = 5, purpose = []\<rparr> = ''cat '' @ ''/mnt'' @ ''/x''" by simp
  show "''/mnt'' \<in> set default_sensitive_paths" by (simp add: default_sensitive_paths_def)
qed

end
