(* ===== verification/Runtime.thy ===== *)
theory Runtime
  imports Policy
begin

text \<open>
  The runtime seam (\<^verbatim>\<open>runtime.py\<close>): capability profiles, the read-only classifier of bash commands,
  the write lease of the workspace, the fingerprint of a workspace and the authorization of a
  tool call. A method of the lease runs under its lock, so it is a single step here.

  The contract of a lease is the locale \<open>write_lease\<close>, which \<open>WorkspaceWriteLease\<close> satisfies
  (\<open>fenced\<close>); the history of a lease shared by any number of threads is the relation
  \<open>lease_run\<close>. Results: only the latest grant is honoured (fencing), and a call that may change the
  workspace is authorized only for a profile that may write and, with a lease, for its holder.
\<close>

section \<open>Capabilities\<close>

record child_capabilities =
  cc_profile :: string
  cc_tools :: "string list"
  cc_read_only :: bool
  cc_can_delegate :: bool

definition for_profile :: "string \<Rightarrow> child_capabilities result" where
  "for_profile p =
     (if p = ''root'' then
        Inr \<lparr>cc_profile = ''root'', cc_tools = [''read'', ''edit'', ''write'', ''bash'', ''delegate''], cc_read_only = False, cc_can_delegate = True\<rparr>
      else if p \<in> {''scout'', ''planner'', ''reviewer''} then
        Inr \<lparr>cc_profile = p, cc_tools = [''read'', ''bash''], cc_read_only = True, cc_can_delegate = False\<rparr>
      else if p = ''worker'' then
        Inr \<lparr>cc_profile = ''worker'', cc_tools = [''read'', ''edit'', ''write'', ''bash''], cc_read_only = False, cc_can_delegate = False\<rparr>
      else Inl (ValueError (''Unknown capability profile: '' @ p)))"

record capability_decision =
  cd_allowed :: bool
  cd_code :: string
  cd_reason :: string

definition decide_tool :: "child_capabilities \<Rightarrow> tool_call \<Rightarrow> capability_decision" where
  "decide_tool caps call =
     (if tool call \<notin> set (cc_tools caps) then
        \<lparr>cd_allowed = False, cd_code = ''CAPABILITY_DENIED'', cd_reason = tool call @ '' is not allowed for '' @ cc_profile caps\<rparr>
      else \<lparr>cd_allowed = True, cd_code = ''ALLOW'', cd_reason = ''capability allowed''\<rparr>)"

section \<open>Read-only commands\<close>

definition readonly_deny_patterns :: "rx list" where
  "readonly_deny_patterns =
     [Seq (Alt Bol (Cls (\<lambda>c. is_space c \<or> c \<in> set '';&|'')))
          (rx_alts [Seq (lit ''>'') (rx_opt (lit ''>'')), Seq (lit ''2>'') (rx_opt (lit ''>'')), lit ''<'']),
      rx_seq [lit ''|'', rx_many ws_char, words [''tee'', ''dd''], WordB],
      rx_seq [WordB, words [''rm'', ''mv'', ''cp'', ''install'', ''mkdir'', ''rmdir'', ''touch'', ''truncate'', ''chmod'', ''chown''], WordB],
      rx_seq [WordB, words [''pip'', ''uv'', ''npm'', ''pnpm'', ''yarn'', ''poetry'', ''cargo''], rx_some ws_char,
              words [''install'', ''add'', ''remove'', ''update''], WordB],
      rx_seq [WordB, lit ''git'', rx_some ws_char,
              words [''add'', ''commit'', ''checkout'', ''switch'', ''reset'', ''restore'', ''clean'', ''merge'', ''rebase'',
                     ''apply'', ''stash'', ''mv'', ''rm''], WordB],
      rx_seq [WordB, words [''sed'', ''perl'', ''python'', ''python3'', ''ruby'', ''node''], WordB, rx_many (none_of [nl]),
              rx_alts [lit ''-i'', rx_seq [lit ''open'', rx_many ws_char, lit ''(''], lit ''write_text'',
                       rx_seq [lit ''write'', rx_many ws_char, lit ''('']]]]"

definition readonly_bash_decide :: "bash_action \<Rightarrow> capability_decision" where
  "readonly_bash_decide action =
     (if list_ex (\<lambda>p. re_found p (lower (strip (command action)))) readonly_deny_patterns
      then \<lparr>cd_allowed = False, cd_code = ''READONLY_BASH_DENIED'', cd_reason = ''command may mutate the workspace''\<rparr>
      else \<lparr>cd_allowed = True, cd_code = ''ALLOW'', cd_reason = ''read-only bash command accepted''\<rparr>)"

definition check_bash :: "child_capabilities \<Rightarrow> bash_action \<Rightarrow> capability_decision" where
  "check_bash caps action =
     (if ''bash'' \<notin> set (cc_tools caps) then
        \<lparr>cd_allowed = False, cd_code = ''CAPABILITY_DENIED'', cd_reason = ''bash is not allowed''\<rparr>
      else if cc_read_only caps then readonly_bash_decide action
      else \<lparr>cd_allowed = True, cd_code = ''ALLOW'', cd_reason = ''bash allowed''\<rparr>)"

section \<open>The write lease\<close>

record lease =
  owner_run_id :: "string option"
  owner_task_id :: "string option"
  lease_epoch :: int

definition new_lease :: lease where
  "new_lease = \<lparr>owner_run_id = None, owner_task_id = None, lease_epoch = 0\<rparr>"

definition acquire :: "string \<Rightarrow> string \<Rightarrow> lease \<Rightarrow> int option \<times> lease" where
  "acquire rid tid l =
     (if owner_run_id l \<noteq> None then (None, l)
      else (Some (lease_epoch l + 1),
            \<lparr>owner_run_id = Some rid, owner_task_id = Some tid, lease_epoch = lease_epoch l + 1\<rparr>))"

definition release :: "string \<Rightarrow> string \<Rightarrow> int option \<Rightarrow> lease \<Rightarrow> bool \<times> lease" where
  "release rid tid epoch l =
     (if (owner_run_id l, owner_task_id l) \<noteq> (Some rid, Some tid) then (False, l)
      else if epoch \<noteq> None \<and> epoch \<noteq> Some (lease_epoch l) then (False, l)
      else (True, l\<lparr>owner_run_id := None, owner_task_id := None\<rparr>))"

definition allows :: "string \<Rightarrow> string \<Rightarrow> int option \<Rightarrow> lease \<Rightarrow> bool" where
  "allows rid tid epoch l =
     ((owner_run_id l, owner_task_id l) = (Some rid, Some tid) \<and> (epoch = None \<or> epoch = Some (lease_epoch l)))"

definition lease_snapshot :: "lease \<Rightarrow> jdict" where
  "lease_snapshot l = [(''owner_run_id'', opt_str (owner_run_id l)), (''owner_task_id'', opt_str (owner_task_id l)),
     (''lease_epoch'', JInt (lease_epoch l))]"

section \<open>Fingerprints\<close>

text \<open>The files of the workspace with their contents (\<open>None\<close> when reading fails), hashed by the
  library function \<open>sha256\<close>, an argument. Paths sort by their parts.\<close>

definition fingerprint_input :: "(string \<times> string option) list \<Rightarrow> string" where
  "fingerprint_input fs =
     concat (map (\<lambda>(p, content). p @ (case content of None \<Rightarrow> [] | Some c \<Rightarrow> c)) (sort_key (posix_parts \<circ> fst) fs))"

definition workspace_fingerprint :: "(string \<Rightarrow> string) \<Rightarrow> (string \<times> string option) list option \<Rightarrow> string" where
  "workspace_fingerprint sha256 ws = (case ws of None \<Rightarrow> sha256 [] | Some fs \<Rightarrow> sha256 (fingerprint_input fs))"

section \<open>Authorization\<close>

definition mutating_tools :: "string list" where
  "mutating_tools = [''edit'', ''write'', ''bash'']"

definition opt_or_empty :: "string option \<Rightarrow> string" where
  "opt_or_empty v = (case v of None \<Rightarrow> [] | Some s \<Rightarrow> s)"

definition authorize ::
  "child_capabilities \<Rightarrow> lease option \<Rightarrow> tool_call \<Rightarrow> string option \<Rightarrow> string option \<Rightarrow> int option \<Rightarrow> capability_decision" where
  "authorize caps lse call rid tid epoch =
     (let d = decide_tool caps call
      in if \<not> cd_allowed d then d
         else if tool call \<in> set mutating_tools \<and> cc_read_only caps then
           \<lparr>cd_allowed = False, cd_code = ''CAPABILITY_DENIED'', cd_reason = ''read-only child cannot mutate workspace''\<rparr>
         else if tool call \<in> set mutating_tools \<and>
                 (case lse of None \<Rightarrow> False | Some l \<Rightarrow> \<not> allows (opt_or_empty rid) (opt_or_empty tid) epoch l) then
           \<lparr>cd_allowed = False, cd_code = ''WRITE_LEASE_DENIED'', cd_reason = ''workspace write lease is not held''\<rparr>
         else d)"

section \<open>The contract of a lease\<close>

text \<open>The lease after any interleaving of operations, with the grants so far, the latest first.\<close>

inductive history :: "'l \<Rightarrow> (string \<Rightarrow> string \<Rightarrow> 'l \<Rightarrow> int option \<times> 'l) \<Rightarrow>
    (string \<Rightarrow> string \<Rightarrow> int option \<Rightarrow> 'l \<Rightarrow> bool \<times> 'l) \<Rightarrow> 'l \<Rightarrow> (string \<times> string \<times> int) list \<Rightarrow> bool"
  for init acq rel where
  start: "history init acq rel init []"
| granted: "history init acq rel l h \<Longrightarrow> acq r t l = (Some n, l') \<Longrightarrow> history init acq rel l' ((r, t, n) # h)"
| refused: "history init acq rel l h \<Longrightarrow> acq r t l = (None, l') \<Longrightarrow> history init acq rel l' h"
| released: "history init acq rel l h \<Longrightarrow> rel r t e l = (b, l') \<Longrightarrow> history init acq rel l' h"

locale write_lease =
  fixes init :: 'l
    and acq :: "string \<Rightarrow> string \<Rightarrow> 'l \<Rightarrow> int option \<times> 'l"
    and rel :: "string \<Rightarrow> string \<Rightarrow> int option \<Rightarrow> 'l \<Rightarrow> bool \<times> 'l"
    and ok :: "string \<Rightarrow> string \<Rightarrow> int option \<Rightarrow> 'l \<Rightarrow> bool"
    and epoch :: "'l \<Rightarrow> int"
    and free :: "'l \<Rightarrow> bool"
  assumes init_free: "free init"
    and acq_free: "free l \<Longrightarrow> \<exists>l'. acq r t l = (Some (epoch l + 1), l') \<and> epoch l' = epoch l + 1 \<and> \<not> free l' \<and> ok r t None l'"
    and acq_busy: "\<not> free l \<Longrightarrow> acq r t l = (None, l)"
    and rel_cases: "rel r t e l = (if ok r t e l then (True, snd (rel r t e l)) else (False, l))"
    and rel_frees: "ok r t e l \<Longrightarrow> free (snd (rel r t e l)) \<and> epoch (snd (rel r t e l)) = epoch l"
    and ok_epoch: "ok r t (Some n) l \<longleftrightarrow> ok r t None l \<and> n = epoch l"
    and ok_owner: "ok r t None l \<Longrightarrow> ok r' t' None l \<Longrightarrow> r' = r \<and> t' = t"
    and free_ok: "free l \<Longrightarrow> \<not> ok r t e l"
begin

definition latest :: "'l \<Rightarrow> (string \<times> string \<times> int) list \<Rightarrow> bool" where
  "latest l h = (case h of [] \<Rightarrow> free l \<and> epoch l = epoch init
     | (r, t, e) # _ \<Rightarrow> e = epoch l \<and> (free l \<or> ok r t None l))"

definition ordered :: "'l \<Rightarrow> (string \<times> string \<times> int) list \<Rightarrow> bool" where
  "ordered l h = (sorted_wrt (\<lambda>x y. snd (snd y) < snd (snd x)) h \<and> (\<forall>x \<in> set h. snd (snd x) \<le> epoch l))"

lemma acq_Some: "acq r t l = (Some e, l') \<Longrightarrow> free l \<and> e = epoch l + 1 \<and> epoch l' = e \<and> ok r t None l'"
  using acq_free [of l r t] acq_busy [of l r t] by (cases "free l") auto

lemma acq_None: "acq r t l = (None, l') \<Longrightarrow> l' = l"
  using acq_free [of l r t] acq_busy [of l r t] by (cases "free l") auto

lemma run_invariant: "history init acq rel l h \<Longrightarrow> latest l h \<and> ordered l h"
proof (induction rule: history.induct)
  case start
  then show ?case by (simp add: latest_def ordered_def init_free)
next
  case (granted l h r t n l')
  then show ?case by (auto simp: latest_def ordered_def dest!: acq_Some)
next
  case (refused l h r t l')
  then show ?case using acq_None by blast
next
  case (released l h r t e b l')
  show ?case
  proof (cases "ok r t e l")
    case True
    then have "free l' \<and> epoch l' = epoch l"
      using released.hyps(2) rel_frees [OF True] by (metis snd_conv)
    moreover have "h \<noteq> []" using True released.IH free_ok by (auto simp: latest_def)
    ultimately show ?thesis using released.IH by (auto simp: latest_def ordered_def split: list.splits)
  next
    case False
    then have "l' = l" using released.hyps(2) rel_cases by (metis prod.inject)
    then show ?thesis using released.IH by simp
  qed
qed

lemma only_latest: "history init acq rel l h \<Longrightarrow> ok r t (Some n) l \<Longrightarrow> h \<noteq> [] \<and> hd h = (r, t, n)"
proof -
  assume run: "history init acq rel l h" and ok: "ok r t (Some n) l"
  then have owner: "ok r t None l" "n = epoch l" by (simp_all add: ok_epoch)
  have "latest l h" using run_invariant [OF run] by simp
  with owner show ?thesis
    by (cases h) (auto simp: latest_def dest: free_ok ok_owner)
qed

lemma grants_distinct: "history init acq rel l h \<Longrightarrow> distinct (map (snd \<circ> snd) h)"
proof -
  assume "history init acq rel l h"
  then have "sorted_wrt (\<lambda>x y. snd (snd y) < snd (snd x)) h" using run_invariant [of l h] by (simp add: ordered_def)
  then show ?thesis by (induction h) force+
qed

text \<open>Whatever happened, a free lease is granted: no history leaves it stuck.\<close>

lemma free_grants: "free l \<Longrightarrow> \<exists>n l'. acq r t l = (Some n, l') \<and> ok r t (Some n) l'"
  using acq_free [of l r t] ok_epoch by fastforce

end

interpretation fenced: write_lease new_lease acquire release allows lease_epoch "\<lambda>l. owner_run_id l = None"
  by unfold_locales (auto simp: new_lease_def acquire_def release_def allows_def)

section \<open>Properties\<close>



text \<open>A tool call is authorized exactly when the profile has the tool and, for a tool that may
  change the workspace, the profile is not read-only and the lease, where there is one, is held by
  the caller.\<close>

theorem authorize_iff:
  "cd_allowed (authorize caps lse call rid tid ep) =
     (tool call \<in> set (cc_tools caps) \<and>
      (if tool call \<in> {''edit'', ''write'', ''bash''}
       then \<not> cc_read_only caps \<and> (case lse of None \<Rightarrow> True | Some l \<Rightarrow> allows (opt_or_empty rid) (opt_or_empty tid) ep l)
       else True))"
  by (auto simp: authorize_def decide_tool_def mutating_tools_def Let_def split: option.splits)

text \<open>The profiles of the read-only roles are authorized for \<^verbatim>\<open>read\<close> and nothing else, so the
  classifier of read-only bash commands is never reached through \<^verbatim>\<open>authorize\<close>.\<close>

theorem read_only_profiles:
  assumes "p \<in> {''scout'', ''planner'', ''reviewer''}" "for_profile p = Inr caps"
  shows "cd_allowed (authorize caps lse call rid tid ep) = (tool call = ''read'')"
  using assms by (auto simp: for_profile_def authorize_def decide_tool_def mutating_tools_def Let_def)

theorem read_only_profiles_witness:
  "\<not> cd_allowed (authorize \<lparr>cc_profile = ''scout'', cc_tools = [''read'', ''bash''], cc_read_only = True, cc_can_delegate = False\<rparr>
     None \<lparr>call_id = ''c'', tool = ''bash'', arguments = [(''command'', JStr ''ls'')]\<rparr> None None None)"
proof -
  have "for_profile ''scout'' = Inr \<lparr>cc_profile = ''scout'', cc_tools = [''read'', ''bash''], cc_read_only = True, cc_can_delegate = False\<rparr>"
    by (simp add: for_profile_def)
  from read_only_profiles [OF _ this] show ?thesis by simp
qed

text \<open>The fingerprint does not separate a file's name from its content, so two workspaces with
  different files have the same fingerprint, whatever the hash function.\<close>

theorem fingerprint_ambiguous:
  "workspace_fingerprint sha256 (Some [(''a'', Some ''bc'')]) = workspace_fingerprint sha256 (Some [(''ab'', Some ''c'')])"
  by (simp add: workspace_fingerprint_def fingerprint_input_def)

end
