(* ===== verification/Sandbox.thy ===== *)
theory Sandbox
  imports State
begin

text \<open>
  Running a command (\<^verbatim>\<open>sandbox/observation.py\<close>, \<^verbatim>\<open>sandbox/artifact_store.py\<close> and the executors of
  \<^verbatim>\<open>sandbox/local_runner.py\<close>, \<^verbatim>\<open>sandbox/docker_runner.py\<close> and \<^verbatim>\<open>core/loop.py\<close>). The process itself, the
  clock and the path of the interpreter are arguments, collected in the record \<open>env\<close>; what the
  program writes is the record \<open>world\<close>: the state documents, the artifacts with the counter that
  names them, the files of the workspace, and the number of clock readings so far.

  An executor is a function on state and world; the locale \<open>bash_executor\<close> states what its callers
  rely on, and the three executors of the program are interpreted in it. Results: the preview of an
  output is bounded, an observation tells success from failure exactly by the exit code, and an
  executor leaves the journal, the approvals and the counters of the run alone.
\<close>

section \<open>Environment and world\<close>

datatype proc_result =
    Completed int string string int \<comment> \<open>exit code, stdout, stderr, milliseconds\<close>
  | TimedOut string string int

datatype fs_node = FileNode string | DirNode

type_synonym ws_files = "string \<Rightarrow> fs_node option"

text \<open>\<^verbatim>\<open>root / p\<close> and whether \<^verbatim>\<open>p.relative_to(root)\<close> succeeds.\<close>

definition path_join :: "string \<Rightarrow> string \<Rightarrow> string" where
  "path_join r p = (if startswith p ''/'' then p else if p = [] then r else r @ ''/'' @ p)"

definition inside :: "string \<Rightarrow> string \<Rightarrow> bool" where
  "inside r p = (p = r \<or> startswith p (r @ ''/''))"

record env =
  cwd :: string
  runs_root :: "string option"
  now_text :: "nat \<Rightarrow> string" \<comment> \<open>the text of the n-th reading of the clock\<close>
  bash_path :: "string option" \<comment> \<open>\<^verbatim>\<open>shutil.which("bash")\<close>\<close>
  run_process :: "string list \<Rightarrow> string option \<Rightarrow> int \<Rightarrow> ws_files \<Rightarrow> proc_result \<times> ws_files"

record world =
  docs :: files
  art_seq :: nat
  art_files :: "string \<Rightarrow> string option"
  ws :: ws_files \<comment> \<open>the files of the workspace, by their resolved path\<close>
  clock :: nat

definition tick :: "world \<Rightarrow> world" where
  "tick w = w\<lparr>clock := Suc (clock w)\<rparr>"

definition now :: "env \<Rightarrow> world \<Rightarrow> string" where
  "now e w = now_text e (clock w)"

type_synonym executor = "bash_action \<Rightarrow> run_state \<Rightarrow> world \<Rightarrow> observation \<times> run_state \<times> world"

section \<open>Artifacts\<close>

definition utf8_length :: "string \<Rightarrow> int" where
  "utf8_length s = (\<Sum>c \<leftarrow> s. if ord c < 128 then 1 else 2)"

definition last_chars :: "nat \<Rightarrow> string \<Rightarrow> string" where \<comment> \<open>\<^verbatim>\<open>s[-n:]\<close>, the whole of it when \<open>n = 0\<close>\<close>
  "last_chars n s = (if n = 0 then s else drop (length s - n) s)"

definition truncation_note :: string where
  "truncation_note = [nl, nl] @ ''... [output truncated; full content written to artifact] ...'' @ [nl, nl]"

definition preview_text :: "string \<Rightarrow> nat \<Rightarrow> string" where
  "preview_text content max_chars =
     (if length content \<le> max_chars then content
      else take (max_chars * 3 div 5) content @ truncation_note @ last_chars (max_chars - max_chars * 3 div 5) content)"

record artifact =
  art_id :: string
  art_type :: string
  art_path :: string
  art_bytes :: int
  art_preview :: string

record artifact_store =
  store_dir :: string
  store_preview_chars :: nat
  display_path_prefix :: "string option"

definition rstrip_slash :: "string \<Rightarrow> string" where
  "rstrip_slash s = rev (dropWhile (\<lambda>c. c = CHR ''/'') (rev s))"

definition write_artifact :: "artifact_store \<Rightarrow> string \<Rightarrow> string \<Rightarrow> world \<Rightarrow> artifact \<times> world" where
  "write_artifact store ty content w =
     (let n = Suc (art_seq w);
          filename = ty @ ''_'' @ pad4 n @ ''.txt'';
          path = store_dir store @ ''/'' @ filename;
          shown = (case display_path_prefix store of
                     None \<Rightarrow> path | Some p \<Rightarrow> if p = [] then path else rstrip_slash p @ ''/'' @ filename)
      in (\<lparr>art_id = ''art_'' @ pad4 n, art_type = ty, art_path = shown, art_bytes = utf8_length content,
            art_preview = preview_text content (store_preview_chars store)\<rparr>,
          w\<lparr>art_seq := n, art_files := (art_files w)(path \<mapsto> content)\<rparr>))"

definition artifact_dict :: "artifact \<Rightarrow> jdict" where
  "artifact_dict a = [(''id'', JStr (art_id a)), (''type'', JStr (art_type a)), (''path'', JStr (art_path a)),
     (''bytes'', JInt (art_bytes a)), (''preview'', JStr (art_preview a))]"

section \<open>Observations\<close>

record command_result =
  cr_exit_code :: "int option"
  cr_stdout :: string
  cr_stderr :: string
  cr_timed_out :: bool
  cr_duration_ms :: int
  cr_timeout_sec :: "int option"

record output_config =
  out_artifacts :: "artifact_store option"
  out_threshold :: int
  out_preview_chars :: nat

definition preview_or_artifact ::
  "output_config \<Rightarrow> string \<Rightarrow> string \<Rightarrow> run_state \<Rightarrow> world \<Rightarrow> string \<times> string list \<times> run_state \<times> world" where
  "preview_or_artifact cfg ty content st w =
     (if content = [] then ([], [], st, w)
      else
        (case out_artifacts cfg of
           None \<Rightarrow> (preview_text content (out_preview_chars cfg), [], st, w)
         | Some store \<Rightarrow>
             if utf8_length content \<le> out_threshold cfg then (preview_text content (out_preview_chars cfg), [], st, w)
             else
               (let (a, w') = write_artifact store ty content w;
                    st' = add_metric ''artifact_bytes'' (art_bytes a) (st\<lparr>artifacts := artifacts st @ [artifact_dict a]\<rparr>)
                in (''['' @ ty @ '' exceeded '' @ str_int (out_threshold cfg) @ '' bytes; full output saved as '' @ art_id a @
                    '' at '' @ art_path a @ ''; bytes='' @ str_int (art_bytes a) @ '']'' @ [nl] @ art_preview a,
                    [art_id a], st', w'))))"

definition opt_int_text :: "int option \<Rightarrow> string" where
  "opt_int_text v = (case v of None \<Rightarrow> ''None'' | Some n \<Rightarrow> str_int n)"

definition observation_from_command_result ::
  "output_config \<Rightarrow> command_result \<Rightarrow> run_state \<Rightarrow> world \<Rightarrow> observation \<times> run_state \<times> world" where
  "observation_from_command_result cfg r st w =
     (let (out, ids1, st1, w1) = preview_or_artifact cfg ''stdout'' (cr_stdout r) st w;
          (err, ids2, st2, w2) = preview_or_artifact cfg ''stderr'' (cr_stderr r) st1 w1;
          ids = ids1 @ ids2;
          ob = (if cr_timed_out r then
                  \<lparr>ob_kind = ''timeout'', ob_exit_code = cr_exit_code r, ob_stdout_preview = out, ob_stderr_preview = err,
                   ob_artifact_ids = ids, ob_message = ''Command timed out after '' @ opt_int_text (cr_timeout_sec r) @ '' seconds.'',
                   ob_duration_ms = cr_duration_ms r\<rparr>
                else if cr_exit_code r = Some 0 \<and> cr_stdout r = [] \<and> cr_stderr r = [] then
                  \<lparr>ob_kind = ''no_output'', ob_exit_code = Some 0, ob_stdout_preview = [], ob_stderr_preview = [],
                   ob_artifact_ids = ids, ob_message = ''Command exited successfully with no output.'',
                   ob_duration_ms = cr_duration_ms r\<rparr>
                else if cr_exit_code r = Some 0 then
                  \<lparr>ob_kind = ''command_result'', ob_exit_code = Some 0, ob_stdout_preview = out, ob_stderr_preview = err,
                   ob_artifact_ids = ids, ob_message = ''Command exited successfully.'', ob_duration_ms = cr_duration_ms r\<rparr>
                else
                  \<lparr>ob_kind = ''command_error'', ob_exit_code = cr_exit_code r, ob_stdout_preview = out, ob_stderr_preview = err,
                   ob_artifact_ids = ids,
                   ob_message = ''Command failed with exit code '' @ opt_int_text (cr_exit_code r) @ ''.'',
                   ob_duration_ms = cr_duration_ms r\<rparr>)
      in (ob, st2, w2))"

section \<open>Executors\<close>

definition result_of :: "bash_action \<Rightarrow> proc_result \<Rightarrow> command_result" where
  "result_of action p =
     (case p of
        Completed code out err ms \<Rightarrow>
          \<lparr>cr_exit_code = Some code, cr_stdout = out, cr_stderr = err, cr_timed_out = False, cr_duration_ms = ms, cr_timeout_sec = None\<rparr>
      | TimedOut out err ms \<Rightarrow>
          \<lparr>cr_exit_code = None, cr_stdout = out, cr_stderr = err, cr_timed_out = True, cr_duration_ms = ms,
           cr_timeout_sec = Some (timeout_sec action)\<rparr>)"

text \<open>\<^verbatim>\<open>_local_shell_args\<close> on a platform other than Windows.\<close>

definition local_shell_args :: "env \<Rightarrow> string \<Rightarrow> string list option" where
  "local_shell_args e cmd = map_option (\<lambda>b. [b, ''-lc'', cmd]) (bash_path e)"

definition local_run :: "env \<Rightarrow> output_config \<Rightarrow> executor" where
  "local_run e cfg action st w =
     (case local_shell_args e (command action) of
        None \<Rightarrow>
          ((obs ''policy_violation'')\<lparr>ob_stderr_preview := command action,
             ob_message := ''Local command execution requested, but no bash executable was found. '' @
               ''Use Docker sandbox execution or install bash.''\<rparr>, st, w)
      | Some args \<Rightarrow>
          (let (p, fs) = run_process e args (workspace_host_path st) (timeout_sec action) (ws w)
           in observation_from_command_result cfg (result_of action p) st (w\<lparr>ws := fs\<rparr>)))"

definition docker_args :: "string \<Rightarrow> bash_action \<Rightarrow> string list" where
  "docker_args container action =
     [''docker'', ''exec'', ''--workdir'', ''/workspace'', container, ''bash'', ''-lc'', command action]"

definition docker_run :: "env \<Rightarrow> output_config \<Rightarrow> executor" where
  "docker_run e cfg action st w =
     (case container_name st of
        None \<Rightarrow> ((obs ''command_error'')\<lparr>ob_message := ''Docker container is not started for this run.'',
                  ob_stderr_preview := command action\<rparr>, st, w)
      | Some c \<Rightarrow>
          if c = [] then ((obs ''command_error'')\<lparr>ob_message := ''Docker container is not started for this run.'',
                  ob_stderr_preview := command action\<rparr>, st, w)
          else
            (let (p, fs) = run_process e (docker_args c action) None (timeout_sec action) (ws w);
                 r = result_of action p;
                 st' = (if cr_timed_out r then
                          st\<lparr>container_name := None, status := ''failed'',
                             state_summary := ''Run failed because the Docker sandbox was terminated after a command timeout.''\<rparr>
                        else st)
             in observation_from_command_result cfg r st' (w\<lparr>ws := fs\<rparr>)))"

definition disabled_run :: executor where
  "disabled_run action st w =
     ((obs ''policy_violation'')\<lparr>ob_message := ''Command execution is disabled for this run. '' @
        ''Use a DockerCommandExecutor or LocalCommandExecutor to execute bash actions.'',
        ob_stderr_preview := command action\<rparr>, st, w)"

section \<open>What callers of an executor rely on\<close>

text \<open>The part of the state that belongs to the run and not to its sandbox.\<close>

definition same_run :: "run_state \<Rightarrow> run_state \<Rightarrow> bool" where
  "same_run st st' =
     (run_id st' = run_id st \<and> run_dir st' = run_dir st \<and> rs_goal st' = rs_goal st \<and>
      execution_journal st' = execution_journal st \<and> approvals st' = approvals st \<and>
      pending_action st' = pending_action st \<and> approval_question st' = approval_question st \<and>
      open_questions st' = open_questions st \<and> final_answer st' = final_answer st \<and>
      root_run_id st' = root_run_id st \<and> checkpoint_sequence st' = checkpoint_sequence st \<and>
      (\<forall>k. k \<noteq> ''artifact_bytes'' \<longrightarrow> map_of (metrics st') k = map_of (metrics st) k))"

locale bash_executor =
  fixes exec :: executor
  assumes exec_same_run: "exec a st w = (ob, st', w') \<Longrightarrow> same_run st st'"
    and exec_status: "exec a st w = (ob, st', w') \<Longrightarrow> status st' = status st \<or> status st' = ''failed''"
    and exec_docs: "exec a st w = (ob, st', w') \<Longrightarrow> docs w' = docs w \<and> clock w' = clock w"
begin

lemma exec_journal: "exec a st w = (ob, st', w') \<Longrightarrow> execution_journal st' = execution_journal st"
  using exec_same_run by (simp add: same_run_def)

lemma exec_metric: "exec a st w = (ob, st', w') \<Longrightarrow> k \<noteq> ''artifact_bytes'' \<Longrightarrow> mget (metrics st') k = mget (metrics st) k"
  using exec_same_run by (simp add: same_run_def mget_def)

end

lemma same_run_refl [simp]: "same_run st st"
  by (simp add: same_run_def)

lemma same_run_trans: "same_run a b \<Longrightarrow> same_run b c \<Longrightarrow> same_run a c"
  by (simp add: same_run_def)

lemma preview_or_artifact_frame:
  assumes "preview_or_artifact cfg ty content st w = (p, ids, st', w')"
  shows "same_run st st' \<and> status st' = status st \<and> docs w' = docs w \<and> clock w' = clock w"
  using assms
  by (auto simp: preview_or_artifact_def same_run_def write_artifact_def add_metric_def mset_def Let_def
      split: if_splits option.splits prod.splits)

lemma observation_frame:
  assumes "observation_from_command_result cfg r st w = (ob, st', w')"
  shows "same_run st st' \<and> status st' = status st \<and> docs w' = docs w \<and> clock w' = clock w"
  using assms
  by (auto simp: observation_from_command_result_def Let_def split: prod.splits
      dest!: preview_or_artifact_frame intro: same_run_trans)

interpretation local_exec: bash_executor "local_run e cfg" for e cfg
  by unfold_locales (auto simp: local_run_def Let_def split: option.splits prod.splits dest!: observation_frame)

interpretation docker_exec: bash_executor "docker_run e cfg" for e cfg
  by unfold_locales
    (auto simp: docker_run_def Let_def same_run_def split: option.splits if_splits prod.splits dest!: observation_frame)

interpretation disabled_exec: bash_executor disabled_run
  by unfold_locales (auto simp: disabled_run_def)

section \<open>Bounds\<close>

lemma length_last_chars: "0 < n \<Longrightarrow> length (last_chars n s) \<le> n"
  by (simp add: last_chars_def)

lemma preview_bound:
  assumes "0 < n"
  shows "length (preview_text s n) \<le> n + length truncation_note"
proof -
  have "0 < n - n * 3 div 5" using assms by simp
  then have "length (last_chars (n - n * 3 div 5) s) \<le> n - n * 3 div 5" by (rule length_last_chars)
  moreover have "n * 3 div 5 \<le> n" by simp
  ultimately show ?thesis by (simp add: preview_text_def min_def) linarith
qed

section \<open>Names of artifacts\<close>

lemma pad4_digits: "c \<in> set (pad4 n) \<Longrightarrow> is_digit c"
  using str_nat_digits [of n] by (auto simp: pad4_def Let_def digit_char_0 [symmetric])

lemma takeWhile_rev_digits: "takeWhile is_digit (rev (pre @ ''_'' @ pad4 n)) = rev (pad4 n)"
proof -
  have "takeWhile is_digit (rev (pad4 n) @ CHR ''_'' # rev pre) = rev (pad4 n) @ takeWhile is_digit (CHR ''_'' # rev pre)"
    using pad4_digits [of _ n] by (intro takeWhile_append2) simp
  then show ?thesis by (simp add: is_digit_def)
qed

lemma artifact_name_inj: "a @ ''_'' @ pad4 m @ ''.txt'' = b @ ''_'' @ pad4 n @ ''.txt'' \<Longrightarrow> m = n"
proof -
  assume "a @ ''_'' @ pad4 m @ ''.txt'' = b @ ''_'' @ pad4 n @ ''.txt''"
  then have "a @ ''_'' @ pad4 m = b @ ''_'' @ pad4 n" by (metis append_assoc append_same_eq)
  then have "rev (pad4 m) = rev (pad4 n)" by (metis takeWhile_rev_digits)
  then show ?thesis by simp
qed

lemma write_artifact_simps:
  assumes "write_artifact store ty content w = (a, w')"
  shows "art_seq w' = Suc (art_seq w)" "art_id a = ''art_'' @ pad4 (Suc (art_seq w))"
    "art_files w' = (art_files w)(store_dir store @ ''/'' @ ty @ ''_'' @ pad4 (Suc (art_seq w)) @ ''.txt'' \<mapsto> content)"
  using assms by (auto simp: write_artifact_def Let_def)

section \<open>Properties\<close>

text \<open>An observation reports success (kind \<^verbatim>\<open>command_result\<close> or \<^verbatim>\<open>no_output\<close>) exactly for a command
  that ended in time with exit code 0, and carries the exit code of the command.\<close>

theorem observation_success_iff:
  "(ob_kind (fst (observation_from_command_result cfg r st w)) \<in> {''command_result'', ''no_output''}) =
     (\<not> cr_timed_out r \<and> cr_exit_code r = Some 0) \<and>
   ob_exit_code (fst (observation_from_command_result cfg r st w)) = cr_exit_code r"
  by (auto simp: observation_from_command_result_def Let_def split: prod.splits)

text \<open>A preview is at most as long as its limit plus the truncation note, keeps a text within the
  limit whole, and otherwise begins and ends as the text does. With the limit 0 it is not
  bounded: the note is followed by the whole text.\<close>

theorem preview_text_spec:
  assumes "0 < n"
  shows "length (preview_text s n) \<le> n + length truncation_note \<and>
    (length s \<le> n \<longrightarrow> preview_text s n = s) \<and>
    (n < length s \<longrightarrow>
       prefix (take (n * 3 div 5) s) (preview_text s n) \<and> suffix (drop (length s - (n - n * 3 div 5)) s) (preview_text s n)) \<and>
    (s \<noteq> [] \<longrightarrow> preview_text s 0 = truncation_note @ s)"
  using preview_bound [OF assms, of s] assms
  by (auto simp: preview_text_def last_chars_def suffix_def)

theorem preview_text_spec_witness: "length (preview_text ''abcdefgh'' 5) \<le> 5 + length truncation_note"
  using preview_text_spec [of 5 "''abcdefgh''"] by simp

text \<open>Artifacts written one after the other get different ids and keep each other's content.\<close>

theorem artifacts_kept:
  assumes "write_artifact store ty content w = (a, w1)" "write_artifact store ty' content' w1 = (b, w2)"
  shows "art_id a \<noteq> art_id b \<and>
    art_files w2 (store_dir store @ ''/'' @ ty @ ''_'' @ pad4 (Suc (art_seq w)) @ ''.txt'') = Some content"
proof -
  note ab = write_artifact_simps [OF assms(1)] write_artifact_simps [OF assms(2)]
  have "ty @ ''_'' @ pad4 (Suc (art_seq w)) @ ''.txt'' \<noteq> ty' @ ''_'' @ pad4 (Suc (Suc (art_seq w))) @ ''.txt''"
    using artifact_name_inj [of ty "Suc (art_seq w)" ty' "Suc (Suc (art_seq w))"] by auto
  with ab show ?thesis by simp
qed

definition sample_store :: artifact_store where
  "sample_store = \<lparr>store_dir = ''/a'', store_preview_chars = 10, display_path_prefix = None\<rparr>"

definition empty_world :: world where
  "empty_world = \<lparr>docs = (\<lambda>_. None), art_seq = 0, art_files = (\<lambda>_. None), ws = (\<lambda>_. None), clock = 0\<rparr>"

theorem artifacts_kept_witness:
  "art_files (snd (write_artifact sample_store ''stdout'' ''y'' (snd (write_artifact sample_store ''stdout'' ''x'' empty_world))))
     ''/a/stdout_0001.txt'' = Some ''x''"
proof -
  let ?w1 = "snd (write_artifact sample_store ''stdout'' ''x'' empty_world)"
  have path: "store_dir sample_store @ ''/'' @ ''stdout'' @ ''_'' @ pad4 (Suc (art_seq empty_world)) @ ''.txt'' = ''/a/stdout_0001.txt''"
    by code_simp
  show ?thesis
    using artifacts_kept [of sample_store "''stdout''" "''x''" empty_world "fst (write_artifact sample_store ''stdout'' ''x'' empty_world)" ?w1
        "''stdout''" "''y''" "fst (write_artifact sample_store ''stdout'' ''y'' ?w1)" "snd (write_artifact sample_store ''stdout'' ''y'' ?w1)",
        OF prod.collapse [symmetric] prod.collapse [symmetric]]
    unfolding path by blast
qed

text \<open>A resumed run builds a new store over the same directory, whose counter starts at 0 again:
  its first artifact has the id and the file of the first artifact of the earlier process, and
  replaces its content.\<close>

theorem artifact_overwritten_after_restart:
  "art_id (fst (write_artifact store ty later (w'\<lparr>art_seq := 0\<rparr>))) = art_id (fst (write_artifact store ty earlier (w\<lparr>art_seq := 0\<rparr>))) \<and>
   art_files (snd (write_artifact store ty later ((snd (write_artifact store ty earlier (w\<lparr>art_seq := 0\<rparr>)))\<lparr>art_seq := 0\<rparr>)))
     (store_dir store @ ''/'' @ ty @ ''_'' @ pad4 1 @ ''.txt'') = Some later"
  by (simp add: write_artifact_def Let_def)

end
