(* ===== verification/Session.thy ===== *)
theory Session
  imports Sandbox Policy
begin

text \<open>
  The session manager and the execution journal (\<^verbatim>\<open>core/session.py\<close>): saving and loading the state of
  a run, the requests for an answer or an approval, the reply to a pending approval, and the
  journal that brackets every execution of a command.

  Results: every command is in the saved state as started before the executor is called
  (\<open>journaled_run\<close> calls its executor in no other state), its entry is completed afterwards and
  found without fail, journal entries are numbered without gaps, and a denied approval executes
  nothing.
\<close>

section \<open>Saving and loading\<close>

definition session_path :: "env \<Rightarrow> run_state \<Rightarrow> string" where
  "session_path e st =
     (if run_dir st = None \<and> runs_root e \<noteq> None then state_path_for_run (runs_root e) (cwd e) (run_id st)
      else state_path_for (cwd e) st)"

definition session_save :: "env \<Rightarrow> run_state \<Rightarrow> world \<Rightarrow> world" where
  "session_save e st w =
     w\<lparr>docs := save_run_state (cwd e) st
         (if run_dir st = None \<and> runs_root e \<noteq> None then Some (state_path_for_run (runs_root e) (cwd e) (run_id st)) else None)
         (docs w)\<rparr>"

definition session_load :: "env \<Rightarrow> string \<Rightarrow> world \<Rightarrow> run_state result" where
  "session_load e rid w = load_run_state (docs w) (state_path_for_run (runs_root e) (cwd e) rid)"

definition bound :: "env \<Rightarrow> run_state \<Rightarrow> bool" where
  "bound e st = (run_dir st \<noteq> None \<or> runs_root e \<noteq> None)"

definition save_if_bound :: "env \<Rightarrow> run_state \<Rightarrow> world \<Rightarrow> world" where
  "save_if_bound e st w = (if bound e st then session_save e st w else w)"

section \<open>Requests\<close>

definition session_fail :: "string \<Rightarrow> run_state \<Rightarrow> run_state" where
  "session_fail msg st = st\<lparr>status := ''failed'', state_summary := msg\<rparr>"

definition request_ask :: "env \<Rightarrow> string \<Rightarrow> run_state \<Rightarrow> world \<Rightarrow> run_state \<times> world" where
  "request_ask e question st w =
     (let st' = bump ''approvals_requested''
            (st\<lparr>status := ''waiting_approval'', open_questions := open_questions st @ [question], approval_question := Some question\<rparr>)
      in (st', session_save e st' w))"

text \<open>\<^verbatim>\<open>decision.approval_question or decision.reason\<close>.\<close>

definition question_of :: "policy_decision \<Rightarrow> string" where
  "question_of d = (case pd_approval_question d of Some q \<Rightarrow> if q = [] then pd_reason d else q | None \<Rightarrow> pd_reason d)"

definition request_approval :: "env \<Rightarrow> bash_action \<Rightarrow> policy_decision \<Rightarrow> run_state \<Rightarrow> world \<Rightarrow> run_state \<times> world" where
  "request_approval e action d st w =
     (let q = question_of d;
          st' = bump ''approvals_requested''
            (st\<lparr>status := ''waiting_approval'', pending_action := Some action, approval_question := Some q,
                open_questions := open_questions st @ [q],
                approvals := approvals st @
                  [[(''status'', JStr ''pending''), (''policy_name'', JStr (pd_policy_name d)), (''reason'', JStr (pd_reason d)),
                    (''question'', JStr q), (''action'', JStr (command action))]]\<rparr>)
      in (st', session_save e st' w))"

definition pending_command :: "run_state \<Rightarrow> json" where
  "pending_command st = (case pending_action st of None \<Rightarrow> JNull | Some a \<Rightarrow> JStr (command a))"

definition approve :: "env \<Rightarrow> run_state \<Rightarrow> world \<Rightarrow> run_state \<times> world" where
  "approve e st w =
     (let st' = st\<lparr>approvals := approvals st @
            [[(''status'', JStr ''approved''), (''created_at'', JStr (now e w)), (''action'', pending_command st)]]\<rparr>
      in (st', session_save e st' (tick w)))"

definition deny :: "env \<Rightarrow> string \<Rightarrow> run_state \<Rightarrow> world \<Rightarrow> run_state \<times> world" where
  "deny e reason st w =
     (let st' = st\<lparr>approvals := approvals st @
            [[(''status'', JStr ''denied''), (''created_at'', JStr (now e w)), (''reason'', JStr reason), (''action'', pending_command st)]]\<rparr>
      in (st', session_save e st' (tick w)))"

definition latest_approval_result :: "run_state \<Rightarrow> jdict option" where
  "latest_approval_result st =
     find (\<lambda>d. jget d ''status'' = JStr ''approved'' \<or> jget d ''status'' = JStr ''denied'') (rev (approvals st))"

section \<open>The journal\<close>

definition execution_id :: "nat \<Rightarrow> string" where
  "execution_id n = ''execution-'' @ pad4 n"

definition record_execution_metrics :: "observation \<Rightarrow> run_state \<Rightarrow> run_state" where
  "record_execution_metrics ob st =
     (let st' = bump ''bash_actions'' st
      in if ob_kind ob = ''command_error'' then bump ''command_failures'' st'
         else if ob_kind ob = ''timeout'' then bump ''timeouts'' st' else st')"

definition begin_execution :: "env \<Rightarrow> bash_action \<Rightarrow> run_state \<Rightarrow> world \<Rightarrow> string \<times> run_state \<times> world" where
  "begin_execution e action st w =
     (let xid = execution_id (length (execution_journal st) + 1);
          st' = st\<lparr>execution_journal := execution_journal st @
            [[(''execution_id'', JStr xid), (''status'', JStr ''started''), (''command'', JStr (command action)),
              (''started_at'', JStr (now e w))]]\<rparr>
      in (xid, st', save_if_bound e st' (tick w)))"

text \<open>The last entry that satisfies a test, updated.\<close>

fun update_first :: "('a \<Rightarrow> bool) \<Rightarrow> ('a \<Rightarrow> 'a) \<Rightarrow> 'a list \<Rightarrow> 'a list option" where
  "update_first P f [] = None"
| "update_first P f (x # xs) = (if P x then Some (f x # xs) else map_option (Cons x) (update_first P f xs))"

definition update_last :: "('a \<Rightarrow> bool) \<Rightarrow> ('a \<Rightarrow> 'a) \<Rightarrow> 'a list \<Rightarrow> 'a list option" where
  "update_last P f xs = map_option rev (update_first P f (rev xs))"

definition completed_entry :: "env \<Rightarrow> observation \<Rightarrow> world \<Rightarrow> jdict \<Rightarrow> jdict" where
  "completed_entry e ob w d =
     AList.update ''exit_code'' (opt_int (ob_exit_code ob))
       (AList.update ''observation_kind'' (JStr (ob_kind ob))
         (AList.update ''completed_at'' (JStr (now e w))
           (AList.update ''status'' (JStr ''completed'') d)))"

definition complete_execution :: "env \<Rightarrow> string \<Rightarrow> observation \<Rightarrow> run_state \<Rightarrow> world \<Rightarrow> (run_state \<times> world) result" where
  "complete_execution e xid ob st w =
     (case update_last (\<lambda>d. jget d ''execution_id'' = JStr xid) (completed_entry e ob w) (execution_journal st) of
        None \<Rightarrow> Inl (RuntimeError (''Execution journal entry not found: '' @ xid))
      | Some js \<Rightarrow> (let st' = st\<lparr>execution_journal := js\<rparr> in Inr (st', save_if_bound e st' (tick w))))"

text \<open>The bracket around every call of an executor.\<close>

definition journaled_run ::
  "env \<Rightarrow> executor \<Rightarrow> bash_action \<Rightarrow> run_state \<Rightarrow> world \<Rightarrow> (observation \<times> run_state \<times> world) result" where
  "journaled_run e exec action st w =
     (let (xid, st1, w1) = begin_execution e action st w;
          (ob, st2, w2) = exec action st1 w1
      in bind_res (complete_execution e xid ob st2 w2) (\<lambda>(st3, w3). Inr (ob, st3, w3)))"

section \<open>The reply to a pending request\<close>

definition apply_pending_approval_result :: "env \<Rightarrow> executor \<Rightarrow> run_state \<Rightarrow> world \<Rightarrow> (run_state \<times> world) result" where
  "apply_pending_approval_result e exec st w =
     (case pending_action st of
        None \<Rightarrow>
          (case latest_approval_result st of
             Some d \<Rightarrow>
               if jget d ''status'' = JStr ''denied'' then
                 (let reason = str_or (jget d ''reason'') ''User replied to the pending question.'';
                      st' = st\<lparr>last_observation := Some ((obs ''approval_result'')\<lparr>ob_message := ''User response for pending question: '' @ reason\<rparr>),
                               status := ''failed'',
                               state_summary := ''Run terminated because the pending request was denied.''\<rparr>
                  in Inr (st', session_save e st' w))
               else Inr (st\<lparr>status := ''running'', approval_question := None\<rparr>, w)
           | None \<Rightarrow> Inr (st\<lparr>status := ''running'', approval_question := None\<rparr>, w))
      | Some action \<Rightarrow>
          (case latest_approval_result st of
             None \<Rightarrow> Inr (st, w)
           | Some d \<Rightarrow>
               if jget d ''status'' = JStr ''approved'' then
                 bind_res (journaled_run e exec action (st\<lparr>pending_action := None, approval_question := None, status := ''running''\<rparr>) w)
                   (\<lambda>(ob, st1, w1).
                     Inr ((record_execution_metrics ob st1)\<lparr>last_observation := Some ob,
                            state_summary := ''Approved pending action was executed before resuming the agent loop.''\<rparr>, w1))
               else if jget d ''status'' = JStr ''denied'' then
                 (let reason = str_or (jget d ''reason'') ''User denied the action.'';
                      st' = st\<lparr>pending_action := None, approval_question := None, status := ''failed'',
                               last_observation := Some ((obs ''approval_result'')\<lparr>
                                 ob_message := ''User denied the pending action. Reason: '' @ reason,
                                 ob_stderr_preview := command action\<rparr>),
                               state_summary := ''Run terminated because the pending action was denied by the user.''\<rparr>
                  in Inr (st', session_save e st' w))
               else Inr (st, w)))"

section \<open>The journal is well-formed\<close>

definition journal_ok :: "run_state \<Rightarrow> bool" where
  "journal_ok st = (\<forall>i < length (execution_journal st). jget (execution_journal st ! i) ''execution_id'' = JStr (execution_id (Suc i)))"

definition entry_completed :: "jdict \<Rightarrow> bool" where
  "entry_completed d = (jget d ''status'' = JStr ''completed'')"

lemma execution_id_inj [simp]: "execution_id m = execution_id n \<longleftrightarrow> m = n"
  by (simp add: execution_id_def)

lemma update_last_snoc: "P x \<Longrightarrow> update_last P f (xs @ [x]) = Some (xs @ [f x])"
  by (simp add: update_last_def)

lemma session_save_simps [simp]:
  "clock (session_save e st w) = clock w" "art_seq (session_save e st w) = art_seq w" "art_files (session_save e st w) = art_files w"
  "docs (session_save e st w) (session_path e st) = Some (state_to_dict st)"
  by (auto simp: session_save_def session_path_def save_run_state_def)

lemma save_if_bound_docs: "bound e st \<Longrightarrow> docs (save_if_bound e st w) (session_path e st) = Some (state_to_dict st)"
  by (simp add: save_if_bound_def)

text \<open>The state the executor sees: the command is the last entry of the journal, started, and the
  saved document says so.\<close>

definition announced :: "env \<Rightarrow> bash_action \<Rightarrow> run_state \<Rightarrow> world \<Rightarrow> bool" where
  "announced e action st w =
     (execution_journal st \<noteq> [] \<and>
      jget (last (execution_journal st)) ''command'' = JStr (command action) \<and>
      jget (last (execution_journal st)) ''status'' = JStr ''started'' \<and>
      (bound e st \<longrightarrow> docs w (session_path e st) = Some (state_to_dict st)))"

lemma session_path_journal [simp]: "session_path e (st\<lparr>execution_journal := js\<rparr>) = session_path e st"
  by (simp add: session_path_def state_path_for_def split: option.splits)

lemma begin_announced:
  "begin_execution e action st w = (xid, st1, w1) \<Longrightarrow> announced e action st1 w1"
  by (auto simp: begin_execution_def announced_def Let_def bound_def intro!: save_if_bound_docs [unfolded bound_def])

text \<open>What a bracketed execution leaves behind.\<close>

lemma journaled_run_result:
  assumes "bash_executor exec"
  shows "\<exists>ob st' w'. journaled_run e exec action st w = Inr (ob, st', w') \<and>
     (\<exists>d. execution_journal st' = execution_journal st @ [d] \<and> entry_completed d \<and>
        jget d ''execution_id'' = JStr (execution_id (Suc (length (execution_journal st)))) \<and>
        jget d ''command'' = JStr (command action) \<and> jget d ''exit_code'' = opt_int (ob_exit_code ob)) \<and>
     same_run (st\<lparr>execution_journal := execution_journal st'\<rparr>) st' \<and> (status st' = status st \<or> status st' = ''failed'')"
proof -
  obtain xid st1 w1 where b: "begin_execution e action st w = (xid, st1, w1)" by (cases "begin_execution e action st w") auto
  obtain ob st2 w2 where x: "exec action st1 w1 = (ob, st2, w2)" by (cases "exec action st1 w1") auto
  let ?d = "[(''execution_id'', JStr xid), (''status'', JStr ''started''), (''command'', JStr (command action)),
              (''started_at'', JStr (now e w))]"
  have st1: "st1 = st\<lparr>execution_journal := execution_journal st @ [?d]\<rparr>"
    and xid: "xid = execution_id (Suc (length (execution_journal st)))"
    using b by (auto simp: begin_execution_def Let_def)
  have j2: "execution_journal st2 = execution_journal st @ [?d]"
    using bash_executor.exec_journal [OF assms x] by (simp add: st1)
  let ?st3 = "st2\<lparr>execution_journal := execution_journal st @ [completed_entry e ob w2 ?d]\<rparr>"
  have c: "complete_execution e xid ob st2 w2 = Inr (?st3, save_if_bound e ?st3 (tick w2))"
    unfolding complete_execution_def j2 by (subst update_last_snoc) (simp_all add: Let_def)
  have "journaled_run e exec action st w = Inr (ob, ?st3, save_if_bound e ?st3 (tick w2))"
    by (simp add: journaled_run_def b x c del: bind_res_eq_Inr)
  moreover have "same_run (st\<lparr>execution_journal := execution_journal ?st3\<rparr>) ?st3"
    using bash_executor.exec_same_run [OF assms x] by (simp add: st1 same_run_def)
  moreover have "status ?st3 = status st \<or> status ?st3 = ''failed''"
    using bash_executor.exec_status [OF assms x] by (simp add: st1)
  moreover have "jget (completed_entry e ob w2 ?d) ''execution_id'' = JStr xid"
    "jget (completed_entry e ob w2 ?d) ''command'' = JStr (command action)"
    "jget (completed_entry e ob w2 ?d) ''exit_code'' = opt_int (ob_exit_code ob)" "entry_completed (completed_entry e ob w2 ?d)"
    by (simp_all add: completed_entry_def jget_def entry_completed_def)
  ultimately show ?thesis unfolding xid by (auto intro!: exI)
qed

lemma journaled_run_cong:
  assumes "\<And>s v. announced e action s v \<Longrightarrow> metrics s = metrics st \<Longrightarrow> exec action s v = exec' action s v"
  shows "journaled_run e exec action st w = journaled_run e exec' action st w"
proof -
  obtain xid st1 w1 where b: "begin_execution e action st w = (xid, st1, w1)" by (cases "begin_execution e action st w") auto
  then have "metrics st1 = metrics st" by (auto simp: begin_execution_def Let_def)
  with b show ?thesis using assms [OF begin_announced [OF b]] by (simp add: journaled_run_def)
qed

lemma journal_ok_snoc:
  "journal_ok st \<Longrightarrow> execution_journal st' = execution_journal st @ [d] \<Longrightarrow>
   jget d ''execution_id'' = JStr (execution_id (Suc (length (execution_journal st)))) \<Longrightarrow> journal_ok st'"
  by (auto simp: journal_ok_def nth_append less_Suc_eq)

lemma journaled_run_journal_ok:
  assumes "bash_executor exec" "journal_ok st" "journaled_run e exec action st w = Inr (ob, st', w')"
  shows "journal_ok st'"
  using journaled_run_result [OF assms(1), of e action st w] assms(2,3) journal_ok_snoc by force

section \<open>Properties\<close>

text \<open>C37: write-ahead. A bracketed execution calls its executor only in a state where the command is
  the last journal entry, marked as started, and where, for a run that has a directory, the saved
  document already contains that entry: two executors that agree on such states give the same
  execution.\<close>

theorem executor_called_after_journal:
  assumes "\<And>s v. announced e action s v \<Longrightarrow> exec action s v = exec' action s v"
  shows "journaled_run e exec action st w = journaled_run e exec' action st w"
  using assms by (intro journaled_run_cong)

theorem executor_called_after_journal_witness:
  "journaled_run \<lparr>cwd = ''/w'', runs_root = None, now_text = (\<lambda>_. ''t''), bash_path = None, run_process = (\<lambda>_ _ _ f. (TimedOut [] [] 0, f))\<rparr>
     disabled_run \<lparr>command = ''ls'', timeout_sec = 5, purpose = []\<rparr> (start_state ''r'' ''g'' None (Some ''/w/r'') None None [] ''s'' []) empty_world
   = journaled_run \<lparr>cwd = ''/w'', runs_root = None, now_text = (\<lambda>_. ''t''), bash_path = None, run_process = (\<lambda>_ _ _ f. (TimedOut [] [] 0, f))\<rparr>
     (\<lambda>a st w. if execution_journal st = [] then (obs ''timeout'', st, w) else disabled_run a st w)
     \<lparr>command = ''ls'', timeout_sec = 5, purpose = []\<rparr> (start_state ''r'' ''g'' None (Some ''/w/r'') None None [] ''s'' []) empty_world"
  by (rule executor_called_after_journal) (simp add: announced_def)

text \<open>An execution always completes its journal entry: it raises nothing, appends exactly one
  entry, completed, numbered next, with the command and the exit code, and leaves the rest of the
  journal, the approvals and the pending request alone; so the numbering stays gapless.\<close>

theorem journaled_run_completes:
  assumes "bash_executor exec" "journal_ok st"
  shows "\<exists>ob st' w' d. journaled_run e exec action st w = Inr (ob, st', w') \<and> journal_ok st' \<and>
     execution_journal st' = execution_journal st @ [d] \<and> entry_completed d \<and> jget d ''command'' = JStr (command action) \<and>
     jget d ''exit_code'' = opt_int (ob_exit_code ob) \<and> approvals st' = approvals st \<and> pending_action st' = pending_action st"
proof -
  obtain ob st' w' d where r: "journaled_run e exec action st w = Inr (ob, st', w')"
    and d: "execution_journal st' = execution_journal st @ [d]" "entry_completed d"
      "jget d ''command'' = JStr (command action)" "jget d ''exit_code'' = opt_int (ob_exit_code ob)"
    and same: "same_run (st\<lparr>execution_journal := execution_journal st'\<rparr>) st'"
    using journaled_run_result [OF assms(1), of e action st w] by blast
  moreover have "journal_ok st'" using journaled_run_journal_ok [OF assms r] .
  moreover have "approvals st' = approvals st \<and> pending_action st' = pending_action st" using same by (simp add: same_run_def)
  ultimately show ?thesis by blast
qed

theorem journaled_run_completes_witness:
  "\<exists>ob st' w' d.
     journaled_run \<lparr>cwd = ''/w'', runs_root = None, now_text = (\<lambda>_. ''t''), bash_path = None, run_process = (\<lambda>_ _ _ f. (TimedOut [] [] 0, f))\<rparr>
       disabled_run \<lparr>command = ''ls'', timeout_sec = 5, purpose = []\<rparr> (start_state ''r'' ''g'' None None None None [] ''s'' []) empty_world
       = Inr (ob, st', w') \<and> execution_journal st' = [d] \<and> entry_completed d"
proof -
  have "journal_ok (start_state ''r'' ''g'' None None None None [] ''s'' [])" "execution_journal (start_state ''r'' ''g'' None None None None [] ''s'' []) = []"
    by (simp_all add: journal_ok_def start_state_def)
  with journaled_run_completes [OF disabled_exec.bash_executor_axioms] show ?thesis by fastforce
qed

text \<open>A denied request ends the run without executing anything: the run is failed, nothing is
  pending, the journal is as it was, whatever the executor would do.\<close>

theorem denied_executes_nothing:
  assumes "latest_approval_result st = Some d" "jget d ''status'' = JStr ''denied''"
  shows "\<exists>st' w'. apply_pending_approval_result e exec st w = Inr (st', w') \<and> status st' = ''failed'' \<and>
     pending_action st' = None \<and> execution_journal st' = execution_journal st \<and> metrics st' = metrics st \<and>
     docs w' (session_path e st') = Some (state_to_dict st')"
  using assms by (auto simp: apply_pending_approval_result_def Let_def split: option.splits)

theorem denied_executes_nothing_witness:
  "\<exists>st' w'. apply_pending_approval_result
      \<lparr>cwd = ''/w'', runs_root = None, now_text = (\<lambda>_. ''t''), bash_path = None, run_process = (\<lambda>_ _ _ f. (TimedOut [] [] 0, f))\<rparr> disabled_run
      ((start_state ''r'' ''g'' None None None None [] ''s'' [])\<lparr>approvals := [[(''status'', JStr ''denied'')]]\<rparr>) empty_world = Inr (st', w') \<and>
      status st' = ''failed''"
proof -
  have "latest_approval_result ((start_state ''r'' ''g'' None None None None [] ''s'' [])\<lparr>approvals := [[(''status'', JStr ''denied'')]]\<rparr>)
      = Some [(''status'', JStr ''denied'')]"
    by (simp add: latest_approval_result_def)
  from denied_executes_nothing [OF this] show ?thesis by fastforce
qed

text \<open>An approved request executes the pending action once, clears it and counts it. What is
  executed is the action as the model requested it: the policy chain is not asked again, so the
  timeout cap of a budget that did not come to decide does not apply.\<close>

theorem approved_executes_pending:
  assumes "bash_executor exec" "latest_approval_result st = Some d" "jget d ''status'' = JStr ''approved''" "pending_action st = Some action"
  shows "\<exists>st' w' j. apply_pending_approval_result e exec st w = Inr (st', w') \<and> pending_action st' = None \<and>
     execution_journal st' = execution_journal st @ [j] \<and> entry_completed j \<and> jget j ''command'' = JStr (command action) \<and>
     mget (metrics st') ''bash_actions'' = mget (metrics st) ''bash_actions'' + 1 \<and>
     (status st' = ''running'' \<or> status st' = ''failed'')"
proof -
  let ?st0 = "st\<lparr>pending_action := None, approval_question := None, status := ''running''\<rparr>"
  obtain ob st1 w1 j where r: "journaled_run e exec action ?st0 w = Inr (ob, st1, w1)"
    and j: "execution_journal st1 = execution_journal st @ [j]" "entry_completed j" "jget j ''command'' = JStr (command action)"
    and same: "same_run (?st0\<lparr>execution_journal := execution_journal st1\<rparr>) st1"
    and stat: "status st1 = ''running'' \<or> status st1 = ''failed''"
    using journaled_run_result [OF assms(1), of e action ?st0 w] by auto
  have "mget (metrics st1) ''bash_actions'' = mget (metrics st) ''bash_actions''" "pending_action st1 = None"
    using same by (simp_all add: same_run_def mget_def)
  with r j stat assms(2-4) show ?thesis
    by (auto simp: apply_pending_approval_result_def record_execution_metrics_def Let_def frame_simps simp del: bind_res_eq_Inr)
qed

theorem approved_executes_pending_witness:
  "\<exists>st' w' j. apply_pending_approval_result
      \<lparr>cwd = ''/w'', runs_root = None, now_text = (\<lambda>_. ''t''), bash_path = None, run_process = (\<lambda>_ _ _ f. (TimedOut [] [] 0, f))\<rparr> disabled_run
      ((start_state ''r'' ''g'' None None None None [] ''s'' [])\<lparr>approvals := [[(''status'', JStr ''approved'')]],
         pending_action := Some \<lparr>command = ''rm -r x'', timeout_sec = 5, purpose = []\<rparr>\<rparr>) empty_world = Inr (st', w') \<and>
      execution_journal st' = [j] \<and> jget j ''command'' = JStr ''rm -r x''"
proof -
  let ?st = "(start_state ''r'' ''g'' None None None None [] ''s'' [])\<lparr>approvals := [[(''status'', JStr ''approved'')]],
         pending_action := Some \<lparr>command = ''rm -r x'', timeout_sec = 5, purpose = []\<rparr>\<rparr>"
  have "latest_approval_result ?st = Some [(''status'', JStr ''approved'')]" "execution_journal ?st = []"
    by (simp_all add: latest_approval_result_def start_state_def)
  with approved_executes_pending [OF disabled_exec.bash_executor_axioms, of ?st] show ?thesis by fastforce
qed

end
