(* ===== verification/Skills.thy ===== *)
theory Skills
  imports State Regex
begin

text \<open>
  The skill registry (\<^verbatim>\<open>skills/registry.py\<close>): parsing a skill file, freezing the catalog of a run from
  ordered sources, and looking skills up. The file system is an argument (the candidate files of each
  source in the order \<^verbatim>\<open>sorted(root.glob(...))\<close> gives them), as are the YAML reader and the hash.
  Text is Latin-1, so the CJK part of \<^verbatim>\<open>_terms\<close> has nothing to match.

  Results: the frozen catalog has one skill per name, in order of names, each from the first source
  that has a valid file for it; a lookup by any spelling of the name finds exactly that skill.
\<close>

section \<open>Skill files\<close>

record skill =
  sk_name :: string
  sk_description :: string
  sk_path :: string
  sk_instructions :: string
  sk_sha256 :: string
  sk_source :: string
  sk_keywords :: "string list"

text \<open>A candidate file: its path, the name of its directory, and its content unless it is a symbolic
  link or no regular file.\<close>

record skill_file =
  sf_path :: string
  sf_dir_name :: string
  sf_content :: "string option"

record skill_env =
  yaml_load :: "string \<Rightarrow> string + json" \<comment> \<open>\<open>Inl\<close> the text of a \<^verbatim>\<open>YAMLError\<close>\<close>
  sha256_hex :: "string \<Rightarrow> string"

definition exn_text :: "exn \<Rightarrow> string" where
  "exn_text err = (case err of ValueError m \<Rightarrow> m | _ \<Rightarrow> [])"

definition load_yaml :: "skill_env \<Rightarrow> string \<Rightarrow> json result" where
  "load_yaml env raw = (case yaml_load env raw of Inl m \<Rightarrow> Inl (ValueError m) | Inr v \<Rightarrow> Inr v)"

fun find_closing :: "nat \<Rightarrow> string list \<Rightarrow> nat option" where
  "find_closing n [] = None"
| "find_closing n (l # ls) = (if strip l = ''---'' then Some n else find_closing (Suc n) ls)"

definition frontmatter_and_body :: "skill_env \<Rightarrow> string \<Rightarrow> (jdict \<times> string) result" where
  "frontmatter_and_body env text =
     (let lines = splitlines text
      in if lines = [] \<or> strip (hd lines) \<noteq> ''---'' then Inr ([], text)
         else
           (case find_closing 1 (tl lines) of
              None \<Rightarrow> Inl (ValueError ''skill frontmatter is missing its closing delimiter'')
            | Some closing \<Rightarrow>
                (let raw = join [nl] (take (closing - 1) (tl lines)); body = join [nl] (drop (closing + 1) lines)
                 in bind_res (if blank raw then Inr (JDict []) else load_yaml env raw) (\<lambda>v.
                      (case v of
                         JNull \<Rightarrow> Inr ([], body)
                       | JDict d \<Rightarrow> Inr (d, body)
                       | _ \<Rightarrow> Inl (ValueError ''skill frontmatter must be a YAML mapping''))))))"

definition skill_keywords :: "json \<Rightarrow> string list result" where
  "skill_keywords v =
     (let keep = (\<lambda>vs. map (\<lambda>x. lower (strip (py_str x))) (filter (\<lambda>x. \<not> blank (py_str x)) vs))
      in case v of
           JNull \<Rightarrow> Inr []
         | JStr s \<Rightarrow> Inr (keep [JStr s])
         | JList vs \<Rightarrow> Inr (keep vs)
         | _ \<Rightarrow> Inl (ValueError ''skill keywords must be a string or list of strings''))"

definition lstrip_hash :: "string \<Rightarrow> string" where
  "lstrip_hash s = dropWhile (\<lambda>c. c = CHR ''#'') s"

definition first_non_empty_line :: "string \<Rightarrow> string" where
  "first_non_empty_line text =
     (case filter (\<lambda>l. l \<noteq> []) (map (\<lambda>l. strip (lstrip_hash (strip l))) (splitlines text)) of [] \<Rightarrow> [] | l # _ \<Rightarrow> l)"

definition max_skill_instruction_chars :: nat where "max_skill_instruction_chars = 32000"

definition parse_skill_file :: "skill_env \<Rightarrow> string \<Rightarrow> skill_file \<Rightarrow> skill option result" where
  "parse_skill_file env source f =
     (case sf_content f of
        None \<Rightarrow> Inr None
      | Some text \<Rightarrow>
          bind_res (frontmatter_and_body env text) (\<lambda>(meta, body).
            let name = lower (strip (if truthy (jget meta ''name'') then py_str (jget meta ''name'') else sf_dir_name f));
                description = strip (if truthy (jget meta ''description'') then py_str (jget meta ''description'') else first_non_empty_line body);
                instructions = strip body
            in if \<not> catalog_name name then
                 Inl (ValueError ''skill name must be lowercase letters, numbers, dots, dashes, or underscores'')
               else if description = [] \<or> 500 < length description then
                 Inl (ValueError ''skill description must contain 1 to 500 characters'')
               else if instructions = [] then Inl (ValueError ''skill instructions are empty'')
               else if max_skill_instruction_chars < length instructions then
                 Inl (ValueError ''skill instructions exceed 32000 characters'')
               else
                 bind_res (skill_keywords (jget meta ''keywords'')) (\<lambda>ks.
                   Inr (Some \<lparr>sk_name = name, sk_description = description, sk_path = sf_path f, sk_instructions = instructions,
                              sk_sha256 = sha256_hex env text, sk_source = source, sk_keywords = ks\<rparr>))))"

section \<open>The catalog\<close>

type_synonym skill_source = "string \<times> skill_file list"

definition add_file :: "skill_env \<Rightarrow> string \<Rightarrow> skill_file \<Rightarrow> skill list \<times> string list \<Rightarrow> skill list \<times> string list" where
  "add_file env source f acc =
     (case acc of (by_name, errors) \<Rightarrow>
       (case parse_skill_file env source f of
          Inl err \<Rightarrow> (by_name, errors @ [sf_path f @ '': '' @ exn_text err])
        | Inr None \<Rightarrow> (by_name, errors)
        | Inr (Some s) \<Rightarrow> if sk_name s \<in> sk_name ` set by_name then (by_name, errors) else (by_name @ [s], errors)))"

definition add_files :: "skill_env \<Rightarrow> string \<Rightarrow> skill_file list \<Rightarrow> skill list \<times> string list \<Rightarrow> skill list \<times> string list" where
  "add_files env source fs acc = fold (add_file env source) fs acc"

fun collect_skills :: "skill_env \<Rightarrow> skill_source list \<Rightarrow> skill list \<times> string list \<Rightarrow> skill list \<times> string list" where
  "collect_skills env [] acc = acc"
| "collect_skills env ((source, files) # rest) acc = collect_skills env rest (add_files env source files acc)"

definition freeze :: "skill_env \<Rightarrow> skill_source list \<Rightarrow> skill list" where
  "freeze env sources = sort_key sk_name (fst (collect_skills env sources ([], [])))"

definition get_skill :: "skill list \<Rightarrow> string \<Rightarrow> skill option" where
  "get_skill skills name = find (\<lambda>s. sk_name s = lower (strip name)) skills"

definition load_text :: "skill list \<Rightarrow> string \<Rightarrow> string option" where
  "load_text skills name =
     map_option (\<lambda>s. join [nl]
       [''Loaded skill: '' @ sk_name s, ''Description: '' @ sk_description s, ''Source: '' @ sk_source s,
        ''SHA-256: '' @ sk_sha256 s, ''Instructions:'', sk_instructions s]) (get_skill skills name)"

definition catalog_digest :: "skill_env \<Rightarrow> skill list \<Rightarrow> string" where
  "catalog_digest env skills =
     sha256_hex env (dumps (JList (map (\<lambda>s. JDict
       [(''description'', JStr (sk_description s)), (''name'', JStr (sk_name s)), (''sha256'', JStr (sk_sha256 s)),
        (''source'', JStr (sk_source s))]) skills)))"

section \<open>Relevance\<close>

definition term_rx :: rx where \<comment> \<open>\<^verbatim>\<open>[a-z0-9][a-z0-9._-]+\<close>\<close>
  "term_rx = Seq (Cls catalog_first) (rx_some (Cls catalog_rest))"

definition terms_of :: "string \<Rightarrow> string list" where
  "terms_of text = remdups (map (\<lambda>(i, j, c). take (j - i) (drop i (lower text))) (re_finditer term_rx (lower text)))"

definition overlap :: "string list \<Rightarrow> string list \<Rightarrow> int" where
  "overlap xs ys = int (length (filter (\<lambda>x. x \<in> set ys) xs))"

definition skill_score :: "string \<Rightarrow> skill \<Rightarrow> int" where
  "skill_score goal s =
     (let g = terms_of goal
      in overlap g (terms_of (sk_name s)) * 4 + overlap g (terms_of (join '' '' (sk_keywords s))) * 3 +
         overlap g (terms_of (sk_description s)) * 2 + (if contains (lower goal) (sk_name s) then 20 else 0))"

definition relevant_skills :: "skill list \<Rightarrow> string \<Rightarrow> int \<Rightarrow> skill list" where
  "relevant_skills skills goal limit =
     (if limit < 1 \<or> terms_of goal = [] then []
      else take (nat limit) (sort_key (\<lambda>s. - skill_score goal s) (sort_key sk_name (filter (\<lambda>s. skill_score goal s \<noteq> 0) skills))))"

definition catalog_text :: "skill_env \<Rightarrow> skill list \<Rightarrow> string option \<Rightarrow> int \<Rightarrow> string" where
  "catalog_text env skills goal limit =
     (let chosen = (case goal of Some g \<Rightarrow> relevant_skills skills g limit | None \<Rightarrow> take (nat limit) skills)
      in if chosen = [] then []
         else join [nl]
           ([''Available skills (metadata only):'', ''Catalog SHA-256: '' @ catalog_digest env skills] @
            map (\<lambda>s. ''- '' @ sk_name s @ '': '' @ sk_description s @ '' [source='' @ sk_source s @ '']'') chosen @
            [''Load instructions only when needed with {'' @ [dq] @ ''type'' @ [dq] @ '':'' @ [dq] @ ''skill'' @ [dq] @ '','' @
             [dq] @ ''name'' @ [dq] @ '':'' @ [dq] @ ''...'' @ [dq] @ ''}.'']))"

definition guidance_text :: "skill list \<Rightarrow> string \<Rightarrow> int \<Rightarrow> string" where
  "guidance_text skills goal limit =
     (let chosen = relevant_skills skills goal limit
      in if chosen = [] then []
         else join [nl] (''Selected skill instructions:'' #
           concat (map (\<lambda>s. [''## '' @ sk_name s, ''Description: '' @ sk_description s, sk_instructions s]) chosen)))"

section \<open>The catalog is well-formed\<close>

definition skill_ok :: "skill \<Rightarrow> bool" where
  "skill_ok s = (catalog_name (sk_name s) \<and> sk_description s \<noteq> [] \<and> length (sk_description s) \<le> 500 \<and>
     text_ok (sk_instructions s) \<and> length (sk_instructions s) \<le> max_skill_instruction_chars)"

lemma parse_skill_file_ok: "parse_skill_file env source f = Inr (Some s) \<Longrightarrow> skill_ok s \<and> sk_source s = source"
  by (auto simp: parse_skill_file_def skill_ok_def text_ok_def Let_def split: option.splits prod.splits if_splits)

definition catalog_inv :: "skill list \<Rightarrow> bool" where
  "catalog_inv skills = (distinct (map sk_name skills) \<and> list_all skill_ok skills)"

lemma add_file_inv: "catalog_inv (fst acc) \<Longrightarrow> catalog_inv (fst (add_file env source f acc))"
  by (cases acc) (auto simp: add_file_def catalog_inv_def dest!: parse_skill_file_ok split: sum.splits option.splits)

lemma add_files_inv: "catalog_inv (fst acc) \<Longrightarrow> catalog_inv (fst (add_files env source fs acc))"
  unfolding add_files_def by (induction fs arbitrary: acc) (auto simp: add_file_inv)

lemma collect_skills_inv: "catalog_inv (fst acc) \<Longrightarrow> catalog_inv (fst (collect_skills env sources acc))"
  by (induction env sources acc rule: collect_skills.induct) (auto simp: add_files_inv)

text \<open>A skill once collected stays, and a later file with its name is not taken.\<close>

lemma add_file_prefix: "\<exists>more. fst (add_file env source f acc) = fst acc @ more"
  by (cases acc) (auto simp: add_file_def split: sum.splits option.splits)

lemma add_files_prefix: "\<exists>more. fst (add_files env source fs acc) = fst acc @ more"
  unfolding add_files_def
proof (induction fs arbitrary: acc)
  case (Cons f fs)
  then show ?case using add_file_prefix [of env source f acc] by (metis append.assoc fold_simps(2))
qed simp

lemma collect_skills_prefix: "\<exists>more. fst (collect_skills env sources acc) = fst acc @ more"
proof (induction env sources acc rule: collect_skills.induct)
  case (2 env source files rest acc)
  then show ?case using add_files_prefix [of env source files acc] by fastforce
qed simp

lemma catalog_inv_freeze: "catalog_inv (freeze env sources)"
proof -
  have "catalog_inv (fst (collect_skills env sources ([], [])))"
    by (rule collect_skills_inv) (simp add: catalog_inv_def)
  then show ?thesis by (auto simp: catalog_inv_def freeze_def distinct_map list_all_iff)
qed

lemma find_distinct: "distinct (map f xs) \<Longrightarrow> find (\<lambda>x. f x = k) xs = Some y \<longleftrightarrow> y \<in> set xs \<and> f y = k"
  by (induction xs) auto

lemma collect_skills_append: "collect_skills env (xs @ ys) acc = collect_skills env ys (collect_skills env xs acc)"
  by (induction env xs acc rule: collect_skills.induct) auto

section \<open>Properties\<close>

text \<open>The frozen catalog is sorted by name, has no name twice, and every skill in it has a valid
  name, a description of 1 to 500 characters and non-empty instructions within the limit; a lookup
  by a name in any case and with blanks around finds exactly the skill of that name.\<close>

theorem frozen_catalog:
  "sorted (map sk_name (freeze env sources)) \<and> distinct (map sk_name (freeze env sources)) \<and>
   list_all skill_ok (freeze env sources) \<and>
   (get_skill (freeze env sources) name = Some s) = (s \<in> set (freeze env sources) \<and> sk_name s = lower (strip name))"
proof -
  have inv: "catalog_inv (freeze env sources)" by (rule catalog_inv_freeze)
  have "sorted (map sk_name (freeze env sources))" by (simp add: freeze_def)
  with inv find_distinct [of sk_name "freeze env sources" "lower (strip name)" s] show ?thesis
    by (simp add: catalog_inv_def get_skill_def)
qed

text \<open>An earlier source overrides a later one: a skill that the sources so far provide is found in
  the catalog of the longer list of sources, unchanged.\<close>

theorem earlier_source_wins:
  assumes "get_skill (freeze env sources) name = Some s"
  shows "get_skill (freeze env (sources @ later)) name = Some s"
proof -
  obtain more where more: "fst (collect_skills env (sources @ later) ([], [])) = fst (collect_skills env sources ([], [])) @ more"
    using collect_skills_prefix [of env later "collect_skills env sources ([], [])"] by (auto simp: collect_skills_append)
  have "distinct (map sk_name (freeze env sources))" "distinct (map sk_name (freeze env (sources @ later)))"
    using catalog_inv_freeze by (simp_all add: catalog_inv_def)
  moreover have "set (freeze env sources) \<subseteq> set (freeze env (sources @ later))" by (simp add: freeze_def more)
  ultimately show ?thesis using assms by (auto simp: get_skill_def find_distinct)
qed

definition sample_skill_env :: skill_env where
  "sample_skill_env = \<lparr>yaml_load = (\<lambda>_. Inr JNull), sha256_hex = (\<lambda>_. ''00'')\<rparr>"

definition sample_source :: "string \<Rightarrow> string \<Rightarrow> skill_source" where
  "sample_source source text = (source, [\<lparr>sf_path = ''p'', sf_dir_name = ''x'', sf_content = Some text\<rparr>])"

theorem earlier_source_wins_witness:
  "get_skill (freeze sample_skill_env ([sample_source ''project'' ''Do it''] @ [sample_source ''user'' ''Other''])) '' X ''
   = Some \<lparr>sk_name = ''x'', sk_description = ''Do it'', sk_path = ''p'', sk_instructions = ''Do it'', sk_sha256 = ''00'',
           sk_source = ''project'', sk_keywords = []\<rparr>"
  by (rule earlier_source_wins) code_simp

end
