(* ===== verification/Memory.thy ===== *)
theory Memory
  imports Sandbox
begin

text \<open>
  Working memory (\<^verbatim>\<open>memory/working.py\<close>): grounding the references of a final answer against the
  workspace, writing the snapshot of a completed run, adopting the snapshot of another run, and the
  text that goes into the prompt. The path resolution of the system is an argument.

  Results: an accepted reference carries exactly the lines it names, not blank and within the size
  limit; every reference is either accepted or rejected with a reason; and a snapshot that a run has
  written is adopted whole by a later run.
\<close>

section \<open>Grounding\<close>

definition max_excerpt_chars :: nat where "max_excerpt_chars = 4000"

definition excerpt_of :: "memory_reference \<Rightarrow> string \<Rightarrow> string" where
  "excerpt_of r text = join [nl] (take (nat (mr_line_end r) - nat (mr_line_start r - 1)) (drop (nat (mr_line_start r - 1)) (splitlines text)))"

definition rejected_ref :: "memory_reference \<Rightarrow> string \<Rightarrow> jdict" where
  "rejected_ref r reason = [(''path'', JStr (mr_path r)), (''reason'', JStr reason)]"

definition accepted_ref :: "memory_reference \<Rightarrow> string \<Rightarrow> jdict" where
  "accepted_ref r excerpt = [(''path'', JStr (mr_path r)), (''line_start'', JInt (mr_line_start r)), (''line_end'', JInt (mr_line_end r)),
     (''excerpt'', JStr excerpt)]"

text \<open>\<open>resolve\<close> is the path resolution of the operating system and \<open>fs\<close> the files of the workspace.\<close>

definition ref_path :: "(string \<Rightarrow> string) \<Rightarrow> string \<Rightarrow> memory_reference \<Rightarrow> string" where
  "ref_path resolve wsp r = resolve (path_join (resolve wsp) (mr_path r))"

definition ground_reference ::
  "(string \<Rightarrow> string) \<Rightarrow> ws_files \<Rightarrow> run_state \<Rightarrow> memory_reference \<Rightarrow> jdict + jdict" where
  "ground_reference resolve fs st r =
     (case workspace_host_path st of
        None \<Rightarrow> Inl (rejected_ref r ''run_has_no_workspace'')
      | Some wsp \<Rightarrow>
          if \<not> inside (resolve wsp) (ref_path resolve wsp r) then Inl (rejected_ref r ''path_escapes_workspace'')
          else
            (case fs (ref_path resolve wsp r) of
               Some (FileNode text) \<Rightarrow>
                 if int (length (splitlines text)) < mr_line_end r then Inl (rejected_ref r ''line_range_out_of_bounds'')
                 else if blank (excerpt_of r text) \<or> max_excerpt_chars < length (excerpt_of r text) then
                   Inl (rejected_ref r ''excerpt_empty_or_too_large'')
                 else Inr (accepted_ref r (excerpt_of r text))
             | _ \<Rightarrow> Inl (rejected_ref r ''source_is_not_a_regular_file'')))"

fun ground_memory_references ::
  "(string \<Rightarrow> string) \<Rightarrow> ws_files \<Rightarrow> run_state \<Rightarrow> memory_reference list \<Rightarrow> jdict list \<times> jdict list" where
  "ground_memory_references resolve fs st [] = ([], [])"
| "ground_memory_references resolve fs st (r # rs) =
     (let (acc, rej) = ground_memory_references resolve fs st rs
      in case ground_reference resolve fs st r of Inl x \<Rightarrow> (acc, x # rej) | Inr x \<Rightarrow> (x # acc, rej))"

section \<open>Snapshots\<close>

definition snapshot_path :: "string \<Rightarrow> string" where
  "snapshot_path dir = dir @ ''/working_memory.json''"

definition write_working_memory_snapshot :: "run_state \<Rightarrow> world \<Rightarrow> string option \<times> world" where
  "write_working_memory_snapshot st w =
     (case run_dir st of
        None \<Rightarrow> (None, w)
      | Some dir \<Rightarrow>
          if memory_references st = [] then (None, w)
          else (Some (snapshot_path dir),
                w\<lparr>docs := (docs w)(snapshot_path dir \<mapsto>
                    [(''schema_version'', JInt 2), (''source_run_id'', JStr (run_id st)), (''items'', dicts (memory_references st))])\<rparr>))"

definition safe_relative_path :: "string \<Rightarrow> bool" where
  "safe_relative_path value =
     (let normalized = strip_char (CHR ''/'') (strip (replace_char bsl (CHR ''/'') value))
      in normalized \<noteq> [] \<and> \<not> startswith value ''/'' \<and> \<not> startswith value [bsl] \<and> \<not> drive_prefix normalized \<and>
         ''..'' \<notin> set (posix_parts normalized) \<and> ''.'' \<notin> set (posix_parts normalized))"

definition is_int_value :: "json \<Rightarrow> bool" where \<comment> \<open>\<^verbatim>\<open>isinstance(v, int)\<close>, booleans included\<close>
  "is_int_value v = (case v of JInt _ \<Rightarrow> True | JBool _ \<Rightarrow> True | _ \<Rightarrow> False)"

definition valid_item :: "json \<Rightarrow> bool" where
  "valid_item v =
     (case v of
        JDict d \<Rightarrow>
          set (map fst d) = {''path'', ''line_start'', ''line_end'', ''excerpt''} \<and>
          (case jget d ''path'' of JStr p \<Rightarrow> safe_relative_path p | _ \<Rightarrow> False) \<and>
          is_int_value (jget d ''line_start'') \<and> is_int_value (jget d ''line_end'') \<and>
          (case jget d ''excerpt'' of JStr x \<Rightarrow> \<not> blank x | _ \<Rightarrow> False)
      | _ \<Rightarrow> False)"

definition reject_adoption :: "run_state \<Rightarrow> run_state" where
  "reject_adoption st = bump ''working_memory_invalid_adoptions'' st"

text \<open>The directory of the source run: \<open>resolve\<close> is the path resolution of the system, \<open>parent\<close> its
  \<^verbatim>\<open>Path.parent\<close>; \<open>read\<close> gives the JSON value of a file, or nothing when it cannot be read.\<close>

definition attach_working_memory ::
  "(string \<Rightarrow> string) \<Rightarrow> (string \<Rightarrow> string) \<Rightarrow> (string \<Rightarrow> json option) \<Rightarrow> string option \<Rightarrow> string \<Rightarrow> run_state \<Rightarrow> run_state" where
  "attach_working_memory resolve parent read rroot source st =
     (case run_dir st of
        None \<Rightarrow> reject_adoption st
      | Some dir \<Rightarrow>
          (let rt = resolve (case rroot of Some r \<Rightarrow> r | None \<Rightarrow> parent dir);
               source_dir = resolve (rt @ ''/'' @ source)
           in if parent source_dir \<noteq> rt then reject_adoption st
              else
                (case read (snapshot_path source_dir) of
                   Some (JDict payload) \<Rightarrow>
                     if \<not> equals_int 2 (jget payload ''schema_version'') \<or> jget payload ''source_run_id'' \<noteq> JStr source then reject_adoption st
                     else
                       (case jget payload ''items'' of
                          JList raw \<Rightarrow>
                            (let items = map json_fields (filter valid_item raw)
                             in if items = [] then reject_adoption st
                                else mset ''working_memory_candidates'' (JInt (int (length items)))
                                       (st\<lparr>working_memory_source_run_id := Some source, working_memory := items\<rparr>))
                        | _ \<Rightarrow> reject_adoption st)
                 | _ \<Rightarrow> reject_adoption st)))"

definition memory_line :: "jdict \<Rightarrow> string result" where
  "memory_line d =
     bind_res (need_key d ''path'') (\<lambda>p. bind_res (need_key d ''line_start'') (\<lambda>a. bind_res (need_key d ''line_end'') (\<lambda>b.
     bind_res (need_key d ''excerpt'') (\<lambda>x.
       Inr (''- '' @ py_str p @ '':'' @ py_str a @ ''-'' @ py_str b @ '':'' @ [nl] @ py_str x)))))"

definition working_memory_context :: "run_state \<Rightarrow> string result" where
  "working_memory_context st =
     (if working_memory st = [] then Inr []
      else bind_res (mapM_res memory_line (working_memory st)) (\<lambda>ls.
        Inr (join [nl]
          ([''Explicit follow-up working memory from run '' @
              (case working_memory_source_run_id st of Some r \<Rightarrow> r | None \<Rightarrow> ''None'') @ '':'',
            ''These are source excerpts. Use them when relevant; inspect the file again if the current workspace contradicts them.'']
           @ ls))))"

section \<open>Lemmas\<close>

lemma ground_lengths:
  "ground_memory_references resolve fs st rs = (acc, rej) \<Longrightarrow> length acc + length rej = length rs"
  by (induction rs arbitrary: acc rej) (auto simp: Let_def split: prod.splits sum.splits)

lemma ground_accepted:
  "ground_memory_references resolve fs st rs = (acc, rej) \<Longrightarrow> d \<in> set acc \<Longrightarrow> \<exists>r \<in> set rs. ground_reference resolve fs st r = Inr d"
  by (induction rs arbitrary: acc rej) (auto simp: Let_def split: prod.splits sum.splits)

text \<open>A dictionary that holds the lines it names.\<close>

definition grounded :: "(string \<Rightarrow> string) \<Rightarrow> ws_files \<Rightarrow> run_state \<Rightarrow> memory_reference \<Rightarrow> jdict \<Rightarrow> bool" where
  "grounded resolve fs st r d =
     (\<exists>wsp text. workspace_host_path st = Some wsp \<and> inside (resolve wsp) (ref_path resolve wsp r) \<and>
        fs (ref_path resolve wsp r) = Some (FileNode text) \<and>
        mr_line_end r \<le> int (length (splitlines text)) \<and> d = accepted_ref r (excerpt_of r text) \<and>
        \<not> blank (excerpt_of r text) \<and> length (excerpt_of r text) \<le> max_excerpt_chars)"

lemma ground_reference_Inr: "ground_reference resolve fs st r = Inr d \<longleftrightarrow> grounded resolve fs st r d"
  unfolding grounded_def ground_reference_def by (cases "workspace_host_path st") (auto split: option.splits fs_node.splits)

text \<open>A safe path of the protocol that does not begin with a slash or backslash is a safe path here.\<close>

lemma valid_accepted:
  assumes "safe_relative_path (mr_path r)" "\<not> blank x"
  shows "valid_item (JDict (accepted_ref r x))"
  using assms by (auto simp: valid_item_def accepted_ref_def is_int_value_def)

section \<open>Properties\<close>

text \<open>Grounding accounts for every reference of the answer, and what it accepts is an excerpt of the
  workspace: the named lines of a regular file inside it, all of them present, not blank and at most
  4000 characters.\<close>

theorem grounded_excerpts:
  assumes "ground_memory_references resolve fs st rs = (acc, rej)"
  shows "length acc + length rej = length rs \<and> (\<forall>d \<in> set acc. \<exists>r \<in> set rs. grounded resolve fs st r d)"
  using ground_lengths [OF assms] ground_accepted [OF assms] ground_reference_Inr by blast

theorem grounded_excerpts_witness:
  "let fs = (\<lambda>_. None)(''/w/a'' \<mapsto> FileNode (''one'' @ [nl] @ ''two'')); r = \<lparr>mr_path = ''a'', mr_line_start = 2, mr_line_end = 2\<rparr>;
       st = start_state ''r'' ''g'' (Some ''/w'') None None None [] ''s'' []
   in ground_memory_references id fs st [r] = ([accepted_ref r ''two''], []) \<and> grounded id fs st r (accepted_ref r ''two'')"
proof -
  define fs where "fs = (\<lambda>_. None)(''/w/a'' \<mapsto> FileNode (''one'' @ [nl] @ ''two''))"
  define r where "r = \<lparr>mr_path = ''a'', mr_line_start = 2, mr_line_end = 2\<rparr>"
  define st where "st = start_state ''r'' ''g'' (Some ''/w'') None None None [] ''s'' []"
  have wsp: "workspace_host_path st = Some ''/w''" by (simp add: st_def start_state_def)
  have path: "ref_path id ''/w'' r = ''/w/a''" by (simp add: ref_path_def r_def path_join_def)
  have "excerpt_of r (''one'' @ [nl] @ ''two'') = ''two''" unfolding r_def by code_simp
  moreover have "length (splitlines (''one'' @ [nl] @ ''two'')) = 2" and "\<not> blank ''two''" by code_simp+
  ultimately have g: "ground_memory_references id fs st [r] = ([accepted_ref r ''two''], [])"
    by (simp add: ground_reference_def wsp path inside_def fs_def max_excerpt_chars_def) (simp add: r_def)
  from g grounded_excerpts [OF g] show ?thesis unfolding Let_def fs_def [symmetric] r_def [symmetric] st_def [symmetric] by simp
qed

text \<open>A snapshot that a run has written is adopted whole by a run beside it, for references that the
  reader accepts; the adopting run keeps everything else of its state.\<close>

theorem snapshot_adopted:
  assumes "write_working_memory_snapshot src w = (Some path, w')" "path = snapshot_path (rt @ ''/'' @ run_id src)"
    and "list_all (\<lambda>d. valid_item (JDict d)) (memory_references src)"
    and "run_dir st = Some dir" "parent dir = rt" "resolve rt = rt" "resolve (rt @ ''/'' @ run_id src) = rt @ ''/'' @ run_id src"
    and "parent (rt @ ''/'' @ run_id src) = rt"
  shows "attach_working_memory resolve parent (\<lambda>p. map_option JDict (docs w' p)) None (run_id src) st =
    mset ''working_memory_candidates'' (JInt (int (length (memory_references src))))
      (st\<lparr>working_memory_source_run_id := Some (run_id src), working_memory := memory_references src\<rparr>)"
proof -
  have items: "map json_fields (filter valid_item (map JDict (memory_references src))) = memory_references src"
    using assms(3) by (induction "memory_references src" arbitrary: src) (simp_all add: filter_True list_all_iff comp_def json_fields_def)
  have ne: "memory_references src \<noteq> []" and doc: "docs w' path =
      Some [(''schema_version'', JInt 2), (''source_run_id'', JStr (run_id src)), (''items'', dicts (memory_references src))]"
    using assms(1) by (auto simp: write_working_memory_snapshot_def split: option.splits if_splits)
  show ?thesis
    using assms(4-8) ne doc items unfolding attach_working_memory_def assms(2) by (simp add: dicts_def Let_def)
qed

definition sample_run :: "string \<Rightarrow> run_state" where
  "sample_run r = (start_state r ''goal'' (Some ''/w'') (Some (''/runs/'' @ r)) None None [] ''s'' [])"

theorem snapshot_adopted_witness:
  "let src = (sample_run ''a'')\<lparr>memory_references := [accepted_ref \<lparr>mr_path = ''f'', mr_line_start = 1, mr_line_end = 1\<rparr> ''x'']\<rparr>;
       w' = snd (write_working_memory_snapshot src empty_world)
   in working_memory (attach_working_memory id (\<lambda>_. ''/runs'') (\<lambda>p. map_option JDict (docs w' p)) None ''a'' (sample_run ''b'')) =
        memory_references src"
proof -
  define src where "src = (sample_run ''a'')\<lparr>memory_references := [accepted_ref \<lparr>mr_path = ''f'', mr_line_start = 1, mr_line_end = 1\<rparr> ''x'']\<rparr>"
  define w' where "w' = snd (write_working_memory_snapshot src empty_world)"
  have rid: "run_id src = ''a''" and dir: "run_dir (sample_run ''b'') = Some ''/runs/b''"
    by (simp_all add: src_def sample_run_def start_state_def)
  have wr: "write_working_memory_snapshot src empty_world = (Some (snapshot_path ''/runs/a''), w')"
    by (simp add: w'_def write_working_memory_snapshot_def src_def sample_run_def start_state_def)
  have "valid_item (JDict (accepted_ref \<lparr>mr_path = ''f'', mr_line_start = 1, mr_line_end = 1\<rparr> ''x''))" by code_simp
  then have val: "list_all (\<lambda>d. valid_item (JDict d)) (memory_references src)" by (simp add: src_def)
  have "attach_working_memory id (\<lambda>_. ''/runs'') (\<lambda>p. map_option JDict (docs w' p)) None (run_id src) (sample_run ''b'') =
    mset ''working_memory_candidates'' (JInt (int (length (memory_references src))))
      ((sample_run ''b'')\<lparr>working_memory_source_run_id := Some (run_id src), working_memory := memory_references src\<rparr>)"
    using snapshot_adopted [OF wr _ val dir, where rt = "''/runs''" and parent = "\<lambda>_. ''/runs''" and resolve = id] rid by simp
  then show ?thesis unfolding src_def [symmetric] w'_def [symmetric] Let_def rid by (simp add: mset_def)
qed

end
