(* ===== verification/Guidance.thy ===== *)
theory Guidance
  imports State
begin

text \<open>
  The guidance texts of \<^verbatim>\<open>prompts/guidance.py\<close>, functions of the run state that are frozen into every
  step of the trajectory. A metric that is not a number counts as zero.
\<close>

definition continuity_footer :: "run_state \<Rightarrow> string" where
  "continuity_footer st =
     join [nl]
       ([''Execution continuity (authoritative):'',
         ''- Goal: '' @ rs_goal st,
         ''- Run status: '' @ status st @ ''; the goal is not complete while this run is active.'',
         ''- Continue from the last observation and take the next necessary action; do not treat a missing patch as completion.''] @
        (if current_plan st \<noteq> [] then [''- Current plan: '' @ join '' | '' (current_plan st)] else []) @
        (if open_questions st \<noteq> [] then [''- Open questions: '' @ join '' | '' (open_questions st)] else []))"

definition io_repetition_guidance :: "run_state \<Rightarrow> string" where
  "io_repetition_guidance st =
     (let reads = mget (metrics st) ''repeated_file_reads''; searches = mget (metrics st) ''repeated_searches''
      in if reads = 0 \<and> searches = 0 then []
         else ''I/O repetition guard: the same file/search action has already been repeated ('' @ str_int reads @ '' file read(s), '' @
           str_int searches @ '' search(es)). '' @
           ''Do not repeat it again; make the smallest required patch or run the authoritative verification now.'')"

definition action_economy_text :: string where
  "action_economy_text =
     ''Action economy: if the root cause and smallest change are clear from the current '' @
     ''evidence, the next bash action should apply that change and run one authoritative '' @
     ''verification command in the same shell command when policy permits. Do not inspect a '' @
     ''test solely to reconfirm behavior already established unambiguously by the goal and '' @
     ''source; authoritative post-change verification is sufficient. Otherwise inspect only '' @
     ''the specific missing evidence.''"

definition action_economy_guidance :: "run_state \<Rightarrow> string" where
  "action_economy_guidance st =
     (if mget (metrics st) ''file_read_actions'' < 1 then []
      else if \<not> list_ex (\<lambda>item. contains item ''authoritative offline verification commands'') (constraints st) then []
      else action_economy_text)"

definition state_snapshot_text :: "run_state \<Rightarrow> string" where
  "state_snapshot_text st =
     join [nl, nl]
       ((if io_repetition_guidance st \<noteq> [] then [io_repetition_guidance st] else []) @
        (if action_economy_guidance st \<noteq> [] then [action_economy_guidance st] else []) @
        (if open_questions st \<noteq> [] then [''Open questions:'' @ [nl] @ join [nl] (map (\<lambda>q. ''- '' @ q) (open_questions st))] else []) @
        (case approval_question st of
           Some q \<Rightarrow> if q \<noteq> [] then [''Pending approval question:'' @ [nl] @ q] else []
         | None \<Rightarrow> []) @
        (if status st \<noteq> ''running'' then [''Run status: '' @ status st] else []))"

end
