(* ===== verification/Handler.thy ===== *)
theory Handler
  imports Guidance Policy Session Skills Memory
begin

text \<open>
  Carrying out one action of the model (\<^verbatim>\<open>core/action_handler.py\<close>, \<^verbatim>\<open>core/verification.py\<close>): bash
  commands behind the policy chain and the repeated-I/O guard, completion behind the verification
  commands, questions to the user and skill loading. Trace calls only append to the event log and
  are left out.

  Results: the executor is reached only with a command every policy has cleared; the action budget
  is never exceeded; a run completes only after every verification command has run and succeeded;
  handling never fails for the actions the handler is responsible for; and the third identical
  read or search is refused.
\<close>

section \<open>Configuration\<close>

record verifier =
  ver_commands :: "string list"
  ver_timeout_sec :: int

record handler =
  h_env :: env
  h_resolve :: "string \<Rightarrow> string" \<comment> \<open>\<^verbatim>\<open>Path.resolve\<close>\<close>
  h_exec :: executor
  h_policies :: "policy list"
  h_verifier :: "verifier option"
  h_skills :: "skill list option" \<comment> \<open>the frozen catalog\<close>

record action_outcome =
  steps :: "trajectory_step list"
  should_continue :: bool

definition one_step :: "action \<Rightarrow> observation \<Rightarrow> run_state \<Rightarrow> action_outcome" where
  "one_step a ob st = \<lparr>steps = [\<lparr>ts_action = Some a, ts_observation = ob, ts_state_snapshot = state_snapshot_text st\<rparr>], should_continue = True\<rparr>"

definition stop_outcome :: action_outcome where
  "stop_outcome = \<lparr>steps = [], should_continue = False\<rparr>"

section \<open>The repeated-I/O guard\<close>

definition io_start :: rx where \<comment> \<open>\<^verbatim>\<open>(^|[;&|\r\n]\s*)\<close>\<close>
  "io_start = Alt Bol (Seq (one_of ('';&|'' @ [CHR 0x0D, nl])) (rx_many ws_char))"

definition io_command :: "string list \<Rightarrow> rx" where \<comment> \<open>the words, optionally with \<^verbatim>\<open>.exe\<close>\<close>
  "io_command names = rx_seq [io_start, words names, rx_opt (lit ''.exe''), WordB]"

definition cat_command :: rx where
  "cat_command = rx_seq [io_start, rx_opt (Alt (words [''/usr/bin/'', ''/bin/'']) (Seq (lit ''command'') (rx_some ws_char))),
     lit ''cat'', rx_opt (lit ''.exe''), WordB]"

definition redirect_target :: rx where \<comment> \<open>\<^verbatim>\<open>(?:'[^']*'|"[^"]*"|[^\s;&|]+)\<close>\<close>
  "redirect_target = rx_alts
     [rx_seq [lit [CHR 0x27], rx_many (none_of [CHR 0x27]), lit [CHR 0x27]],
      rx_seq [lit [dq], rx_many (none_of [dq]), lit [dq]],
      rx_some (Cls (\<lambda>c. \<not> is_space c \<and> c \<notin> set '';&|''))]"

definition is_write_only_cat :: "string \<Rightarrow> nat \<Rightarrow> bool" where
  "is_write_only_cat cmd command_end =
     (let remainder = lstrip (drop command_end cmd)
      in if remainder = [] \<or> hd remainder \<in> set ('';&|'' @ [CHR 0x0D, nl]) then True
         else if \<not> (startswith remainder ''>'' \<or> startswith remainder ''<<'') then False
         else
           (let command_line = hd (splitlines remainder);
                without_heredoc = re_sub (rx_seq [lit ''<<'', rx_opt (lit ''-''), rx_many ws_char, redirect_target]) [] command_line
            in if re_found (rx_seq [NotPrev (\<lambda>c. c = CHR ''<''), lit ''<'', NotNext (\<lambda>c. c = CHR ''<'')]) without_heredoc then False
               else blank (re_sub (rx_seq [rx_many (Cls is_digit), lit ''>'', rx_opt (lit ''>''), rx_many ws_char, redirect_target]) []
                      without_heredoc)))"

definition contains_file_read_command :: "string \<Rightarrow> bool" where
  "contains_file_read_command cmd = list_ex (\<lambda>(i, j, c). \<not> is_write_only_cat cmd j) (re_finditer cat_command cmd)"

definition normalize_io :: "string \<Rightarrow> string" where
  "normalize_io cmd = re_sub (rx_some (one_of [CHR '' '', CHR 0x09, CHR 0x0C, CHR 0x0B])) '' '' (strip cmd)"

definition io_category :: "string \<Rightarrow> string option" where
  "io_category lowered =
     (if re_found (io_command [''rg'', ''grep'', ''find'', ''fd'']) lowered \<or> contains lowered ''select-string'' then Some ''search''
      else if contains_file_read_command lowered \<or> re_found (io_command [''head'', ''tail'', ''type'', ''get-content'']) lowered then Some ''file_read''
      else if re_found (rx_seq [io_start, lit ''sed'', rx_some ws_char, lit ''-n'', WordB]) lowered then Some ''file_read''
      else None)"

definition io_signatures :: "run_state \<Rightarrow> jdict" where
  "io_signatures st = (case jget (metrics st) ''io_action_signatures'' of JDict d \<Rightarrow> d | _ \<Rightarrow> [])"

definition record_io_action :: "string \<Rightarrow> run_state \<Rightarrow> bool \<times> run_state" where
  "record_io_action cmd st =
     (let normalized = normalize_io cmd
      in if normalized = [] then (False, st)
         else
           (case io_category (lower normalized) of
              None \<Rightarrow> (False, st)
            | Some category \<Rightarrow>
                (let metric_name = (if category = ''search'' then ''search_actions'' else ''file_read_actions'');
                     repeated_name = (if category = ''search'' then ''repeated_searches'' else ''repeated_file_reads'');
                     signatures = io_signatures st;
                     key = category @ '':'' @ normalized;
                     previous = mget signatures key;
                     st1 = bump metric_name (mset ''io_action_signatures'' (JDict (AList.update key (JInt (previous + 1)) signatures)) st)
                 in (2 \<le> previous, if previous \<noteq> 0 then bump repeated_name st1 else st1))))"

section \<open>Verification before completion\<close>

record verification_result =
  vr_passed :: bool
  vr_observation :: "observation option"
  vr_reason :: string

definition verify_succeeded :: "observation \<Rightarrow> bool" where
  "verify_succeeded ob = (ob_exit_code ob = Some 0 \<and> ob_kind ob \<in> {''command_result'', ''no_output''})"

definition verify_failure :: "string \<Rightarrow> observation \<Rightarrow> verification_result" where
  "verify_failure cmd ob =
     \<lparr>vr_passed = False,
      vr_observation = Some \<lparr>ob_kind = ''verification_error'', ob_exit_code = ob_exit_code ob, ob_stdout_preview = ob_stdout_preview ob,
        ob_stderr_preview = ob_stderr_preview ob, ob_artifact_ids = ob_artifact_ids ob,
        ob_message = ''Completion verifier failed for `'' @ cmd @ ''`. '' @ (if ob_message ob \<noteq> [] then ob_message ob else ob_kind ob),
        ob_duration_ms = ob_duration_ms ob\<rparr>,
      vr_reason = ''Verifier command failed: '' @ cmd\<rparr>"

fun verify_loop ::
  "(bash_action \<Rightarrow> run_state \<Rightarrow> world \<Rightarrow> (observation \<times> run_state \<times> world) result) \<Rightarrow> int \<Rightarrow> string list \<Rightarrow> run_state \<Rightarrow> world \<Rightarrow>
   (verification_result \<times> run_state \<times> world) result" where
  "verify_loop execute t [] st w =
     Inr (\<lparr>vr_passed = True, vr_observation = None, vr_reason = ''All completion verifier commands passed.''\<rparr>, st, w)"
| "verify_loop execute t (cmd # cmds) st w =
     bind_res (execute \<lparr>command = cmd, timeout_sec = t, purpose = ''authoritative completion verification''\<rparr> st w) (\<lambda>(ob, st1, w1).
       if \<not> verify_succeeded ob then Inr (verify_failure cmd ob, st1, w1)
       else verify_loop execute t cmds st1 w1)"

definition verify ::
  "verifier \<Rightarrow> (bash_action \<Rightarrow> run_state \<Rightarrow> world \<Rightarrow> (observation \<times> run_state \<times> world) result) \<Rightarrow> run_state \<Rightarrow> world \<Rightarrow>
   (verification_result \<times> run_state \<times> world) result" where
  "verify v execute st w =
     (if ver_commands v = [] then
        Inr (\<lparr>vr_passed = False, vr_observation = None, vr_reason = ''Completion verifier has no commands.''\<rparr>, st, w)
      else verify_loop execute (ver_timeout_sec v) (ver_commands v) st w)"

definition record_verification_metrics :: "observation \<Rightarrow> run_state \<Rightarrow> run_state" where
  "record_verification_metrics ob st =
     (let st' = bump ''verification_bash_actions'' st
      in if ob_kind ob = ''command_error'' then bump ''verification_command_failures'' st'
         else if ob_kind ob = ''timeout'' then bump ''verification_timeouts'' st' else st')"

definition execute_verification_action :: "handler \<Rightarrow> bash_action \<Rightarrow> run_state \<Rightarrow> world \<Rightarrow> (observation \<times> run_state \<times> world) result" where
  "execute_verification_action h action st w =
     (let d = chain_evaluate (h_policies h) action st
      in if pd_type d = Deny then
           Inr ((obs ''verification_error'')\<lparr>ob_message := ''Verifier command denied by '' @ pd_policy_name d @ '': '' @ pd_reason d\<rparr>, st, w)
         else if pd_type d = RequireApproval then
           Inr ((obs ''verification_error'')\<lparr>ob_message := ''Verifier command required approval and was not executed.''\<rparr>, st, w)
         else
           bind_res (journaled_run (h_env h) (h_exec h) (effective_action d action) st w)
             (\<lambda>(ob, st1, w1). Inr (ob, record_verification_metrics ob st1, w1)))"

section \<open>The actions\<close>

definition handle_final :: "handler \<Rightarrow> string \<Rightarrow> memory_reference list \<Rightarrow> run_state \<Rightarrow> world \<Rightarrow> action_outcome \<times> run_state \<times> world" where
  "handle_final h answer memory st w =
     (let (accepted, rejected) = ground_memory_references (h_resolve h) (ws w) st memory;
          st1 = mset ''memory_references_rejected'' (JInt (int (length rejected)))
                 (mset ''memory_references_captured'' (JInt (int (length accepted)))
                   ((mset ''memory_references_requested'' (JInt (int (length memory))) st)\<lparr>memory_references := accepted\<rparr>))
      in (stop_outcome, st1\<lparr>status := ''completed'', final_answer := Some answer\<rparr>, w))"

definition reject_final :: "action \<Rightarrow> verification_result \<Rightarrow> run_state \<Rightarrow> action_outcome \<times> run_state" where
  "reject_final a r st =
     (let ob = (case vr_observation r of
                  Some x \<Rightarrow> x
                | None \<Rightarrow> (obs ''verification_error'')\<lparr>ob_message := (if vr_reason r \<noteq> [] then vr_reason r else ''Completion verification failed.'')\<rparr>);
          st' = (bump ''verification_rejected'' st)\<lparr>last_observation := Some ob\<rparr>
      in (one_step a ob st', st'))"

definition first_occurrences :: "'a list \<Rightarrow> 'a list" where \<comment> \<open>\<^verbatim>\<open>list(dict.fromkeys(xs))\<close>\<close>
  "first_occurrences xs = rev (remdups (rev xs))"

definition handle_skill :: "handler \<Rightarrow> string \<Rightarrow> run_state \<Rightarrow> action_outcome \<times> run_state" where
  "handle_skill h name st =
     (let loaded = (case h_skills h of Some cat \<Rightarrow> load_text cat name | None \<Rightarrow> None);
          ob = (case loaded of
                  None \<Rightarrow> (obs ''command_error'')\<lparr>ob_message := ''Skill '' @ repr_str name @ '' is not available in the frozen run catalog.''\<rparr>
                | Some t \<Rightarrow> (obs ''command_result'')\<lparr>ob_exit_code := Some 0, ob_stdout_preview := t,
                     ob_message := ''Loaded skill '' @ repr_str name @ '' from the frozen run catalog.''\<rparr>);
          st1 = (case loaded of
                   None \<Rightarrow> st
                 | Some t \<Rightarrow>
                     (let names = (case jget (metrics st) ''loaded_skill_names'' of JList xs \<Rightarrow> xs | _ \<Rightarrow> [])
                      in mset ''loaded_skill_names'' (JList (first_occurrences (names @ [JStr name]))) (bump ''skill_load_actions'' st)));
          st2 = st1\<lparr>last_observation := Some ob\<rparr>
      in (one_step (SkillAction name) ob st2, st2))"

definition policy_violation_observation :: "policy_decision \<Rightarrow> observation" where
  "policy_violation_observation d = (obs ''policy_violation'')\<lparr>ob_message := pd_policy_name d @ '': '' @ pd_reason d\<rparr>"

definition repeated_io_observation :: observation where
  "repeated_io_observation = (obs ''policy_violation'')\<lparr>ob_message :=
     ''repeated I/O guard: the identical read/search command was already run twice; '' @
     ''inspect the existing result and make the required patch or verify it instead.''\<rparr>"

definition handle_bash :: "handler \<Rightarrow> bash_action \<Rightarrow> run_state \<Rightarrow> world \<Rightarrow> (action_outcome \<times> run_state \<times> world) result" where
  "handle_bash h action st w =
     (let d = chain_evaluate (h_policies h) action st
      in if pd_type d = Deny then
           (let ob = policy_violation_observation d; st1 = (bump ''policy_denials'' st)\<lparr>last_observation := Some ob\<rparr>
            in Inr (one_step (BashAction action) ob st1, st1, w))
         else if pd_type d = RequireApproval then
           (let (st1, w1) = request_approval (h_env h) action d st w in Inr (stop_outcome, st1, w1))
         else
           (let a = effective_action d action;
                (repeated, st1) = record_io_action (command a) st
            in if repeated then
                 (let st2 = st1\<lparr>last_observation := Some repeated_io_observation\<rparr>
                  in Inr (one_step (BashAction a) repeated_io_observation st2, st2, w))
               else
                 bind_res (journaled_run (h_env h) (h_exec h) a st1 w) (\<lambda>(ob, st2, w2).
                   (let st3 = (record_execution_metrics ob st2)\<lparr>last_observation := Some ob\<rparr>
                    in Inr (one_step (BashAction a) ob st3, st3, w2)))))"

definition handle :: "handler \<Rightarrow> action \<Rightarrow> run_state \<Rightarrow> world \<Rightarrow> (action_outcome \<times> run_state \<times> world) result" where
  "handle h a st w =
     (case a of
        FinalAction answer memory \<Rightarrow>
          (let st0 = bump ''model_final_requests'' st
           in case h_verifier h of
                None \<Rightarrow> Inr (handle_final h answer memory st0 w)
              | Some v \<Rightarrow>
                  bind_res (verify v (execute_verification_action h) (bump ''verification_attempts'' st0) w) (\<lambda>(r, st1, w1).
                    if \<not> vr_passed r then (let (oc, st2) = reject_final a r st1 in Inr (oc, st2, w1))
                    else Inr (handle_final h answer memory (bump ''verification_passed'' st1) w1)))
      | AskAction question \<Rightarrow> (let (st1, w1) = request_ask (h_env h) question st w in Inr (stop_outcome, st1, w1))
      | SkillAction name \<Rightarrow> (let (oc, st1) = handle_skill h name st in Inr (oc, st1, w))
      | ToolCallsAction calls \<Rightarrow> Inl TypeError \<comment> \<open>must be handled by ToolCallScheduler\<close>
      | DelegateAction tasks join_mode intent \<Rightarrow> Inl TypeError \<comment> \<open>must be handled by WorkflowCoordinator\<close>
      | BashAction action \<Rightarrow> handle_bash h action st w)"

section \<open>What bookkeeping leaves alone\<close>

text \<open>Two states that differ in their metrics only, outside the keys of \<open>K\<close>.\<close>

definition only_metrics :: "string set \<Rightarrow> run_state \<Rightarrow> run_state \<Rightarrow> bool" where
  "only_metrics K st st' = (\<exists>m. st' = st\<lparr>metrics := m\<rparr> \<and> (\<forall>k. k \<notin> K \<longrightarrow> map_of m k = map_of (metrics st) k))"

lemma only_metrics_refl [simp]: "only_metrics K st st"
  unfolding only_metrics_def by (rule exI [of _ "metrics st"]) simp

lemma only_metrics_mset: "only_metrics K st st' \<Longrightarrow> k \<in> K \<Longrightarrow> only_metrics K st (mset k v st')"
  by (auto simp: only_metrics_def mset_def update_conv')

lemma only_metrics_add: "only_metrics K st st' \<Longrightarrow> k \<in> K \<Longrightarrow> only_metrics K st (add_metric k n st')"
  unfolding add_metric_def by (rule only_metrics_mset)

lemma only_metrics_mget: "only_metrics K st st' \<Longrightarrow> k \<notin> K \<Longrightarrow> mget (metrics st') k = mget (metrics st) k"
  by (auto simp: only_metrics_def mget_def)

lemma only_metrics_frame:
  assumes "only_metrics K st st'"
  shows "execution_journal st' = execution_journal st \<and> status st' = status st \<and> final_answer st' = final_answer st \<and>
    approvals st' = approvals st \<and> pending_action st' = pending_action st"
  using assms by (auto simp: only_metrics_def)

definition io_keys :: "string set" where
  "io_keys = {''io_action_signatures'', ''search_actions'', ''file_read_actions'', ''repeated_searches'', ''repeated_file_reads''}"

lemma record_io_only: "record_io_action cmd st = (b, st') \<Longrightarrow> only_metrics io_keys st st'"
  by (auto simp: record_io_action_def Let_def io_keys_def split: if_splits option.splits
      intro!: only_metrics_add only_metrics_mset only_metrics_refl)

lemma record_execution_only:
  "only_metrics {''bash_actions'', ''command_failures'', ''timeouts''} st (record_execution_metrics ob st)"
  by (auto simp: record_execution_metrics_def Let_def intro!: only_metrics_add)

lemma record_verification_only:
  "only_metrics {''verification_bash_actions'', ''verification_command_failures'', ''verification_timeouts''} st
     (record_verification_metrics ob st)"
  by (auto simp: record_verification_metrics_def Let_def intro!: only_metrics_add)

lemma record_execution_count: "mget (metrics (record_execution_metrics ob st)) ''bash_actions'' = mget (metrics st) ''bash_actions'' + 1"
  by (simp add: record_execution_metrics_def Let_def)

section \<open>A handler behind the configured policies\<close>

text \<open>One journal entry per command, in order, completed with exit code zero.\<close>

definition verified_entries :: "string list \<Rightarrow> jdict list \<Rightarrow> bool" where
  "verified_entries cmds ds = list_all2 (\<lambda>c d. entry_completed d \<and> jget d ''command'' = JStr c \<and> jget d ''exit_code'' = JInt 0) cmds ds"

locale guarded_handler =
  fixes h :: handler and cfg :: policy_settings
  assumes exec_ok: "bash_executor (h_exec h)"
    and built: "h_policies h = build_policy_chain cfg"
begin

lemma cleared:
  assumes "pd_type (chain_evaluate (h_policies h) a st) \<noteq> Deny" "pd_type (chain_evaluate (h_policies h) a st) \<noteq> RequireApproval"
  shows "command_clear cfg (command a) \<and> mget (metrics st) ''bash_actions'' < max_bash_actions cfg \<and>
    effective_action (chain_evaluate (h_policies h) a st) a = a\<lparr>timeout_sec := min (timeout_sec a) (max_action_timeout_sec cfg)\<rparr>"
  using build_chain_result [OF refl, of cfg a st] assms unfolding built
  by (cases "pd_type (chain_evaluate (build_policy_chain cfg) a st)") (auto simp: passes_def)

lemma journaled_result:
  assumes "journaled_run (h_env h) (h_exec h) a st w = Inr (ob, st', w')"
  shows "\<exists>d. execution_journal st' = execution_journal st @ [d] \<and> entry_completed d \<and>
      jget d ''command'' = JStr (command a) \<and> jget d ''exit_code'' = opt_int (ob_exit_code ob)"
    and "journal_ok st \<Longrightarrow> journal_ok st'"
    and "k \<noteq> ''artifact_bytes'' \<Longrightarrow> mget (metrics st') k = mget (metrics st) k"
    and "final_answer st' = final_answer st" and "status st' = status st \<or> status st' = ''failed''"
proof -
  have res: "(\<exists>d. execution_journal st' = execution_journal st @ [d] \<and> entry_completed d \<and>
      jget d ''command'' = JStr (command a) \<and> jget d ''exit_code'' = opt_int (ob_exit_code ob)) \<and>
     same_run (st\<lparr>execution_journal := execution_journal st'\<rparr>) st' \<and> (status st' = status st \<or> status st' = ''failed'')"
    using journaled_run_result [OF exec_ok, of "h_env h" a st w] assms by auto
  then show "\<exists>d. execution_journal st' = execution_journal st @ [d] \<and> entry_completed d \<and>
      jget d ''command'' = JStr (command a) \<and> jget d ''exit_code'' = opt_int (ob_exit_code ob)"
    and "k \<noteq> ''artifact_bytes'' \<Longrightarrow> mget (metrics st') k = mget (metrics st) k"
    and "final_answer st' = final_answer st" and "status st' = status st \<or> status st' = ''failed''"
    by (auto simp: same_run_def mget_def)
  show "journal_ok st \<Longrightarrow> journal_ok st'" using journaled_run_journal_ok [OF exec_ok _ assms] .
qed

lemma journaled_returns: "\<exists>ob st' w'. journaled_run (h_env h) (h_exec h) a st w = Inr (ob, st', w')"
  using journaled_run_result [OF exec_ok, of "h_env h" a st w] by blast

text \<open>One verification command: it returns, and what it executes is in the journal.\<close>

lemma verification_action:
  "\<exists>ob st' w'. execute_verification_action h a st w = Inr (ob, st', w') \<and> (journal_ok st \<longrightarrow> journal_ok st') \<and>
     mget (metrics st') ''bash_actions'' = mget (metrics st) ''bash_actions'' \<and> final_answer st' = final_answer st \<and>
     (status st' = status st \<or> status st' = ''failed'') \<and>
     (verify_succeeded ob \<longrightarrow> (\<exists>d. execution_journal st' = execution_journal st @ [d] \<and> entry_completed d \<and>
        jget d ''command'' = JStr (command a) \<and> jget d ''exit_code'' = JInt 0))"
proof (cases "pd_type (chain_evaluate (h_policies h) a st) = Deny \<or> pd_type (chain_evaluate (h_policies h) a st) = RequireApproval")
  case True
  then show ?thesis by (auto simp: execute_verification_action_def Let_def verify_succeeded_def obs_def)
next
  case False
  define a' where "a' = effective_action (chain_evaluate (h_policies h) a st) a"
  have cmd: "command a' = command a" using cleared False by (simp add: a'_def)
  obtain ob st1 w1 where j: "journaled_run (h_env h) (h_exec h) a' st w = Inr (ob, st1, w1)" using journaled_returns by blast
  have "execute_verification_action h a st w = Inr (ob, record_verification_metrics ob st1, w1)"
    using False by (simp add: execute_verification_action_def Let_def a'_def [symmetric] j del: bind_res_eq_Inr)
  moreover note only_metrics_frame [OF record_verification_only [of st1 ob]]
    only_metrics_mget [OF record_verification_only [of st1 ob], of "''bash_actions''"]
  moreover note journaled_result [OF j] cmd
  ultimately show ?thesis by (auto simp: verify_succeeded_def opt_int_def journal_ok_def)
qed

lemma verify_loop_result:
  "\<exists>r st' w'. verify_loop (execute_verification_action h) t cmds st w = Inr (r, st', w') \<and> (journal_ok st \<longrightarrow> journal_ok st') \<and>
     mget (metrics st') ''bash_actions'' = mget (metrics st) ''bash_actions'' \<and> final_answer st' = final_answer st \<and>
     (status st' = status st \<or> status st' = ''failed'') \<and>
     (vr_passed r \<longrightarrow> (\<exists>ds. execution_journal st' = execution_journal st @ ds \<and> verified_entries cmds ds))"
proof (induction cmds arbitrary: st w)
  case Nil
  then show ?case by (simp add: verified_entries_def)
next
  case (Cons c cmds)
  let ?a = "\<lparr>command = c, timeout_sec = t, purpose = ''authoritative completion verification''\<rparr>"
  obtain ob st1 w1 where x: "execute_verification_action h ?a st w = Inr (ob, st1, w1)" and x': "journal_ok st \<longrightarrow> journal_ok st1"
     "mget (metrics st1) ''bash_actions'' = mget (metrics st) ''bash_actions''" "final_answer st1 = final_answer st"
     "status st1 = status st \<or> status st1 = ''failed''"
     "verify_succeeded ob \<longrightarrow> (\<exists>d. execution_journal st1 = execution_journal st @ [d] \<and> entry_completed d \<and>
        jget d ''command'' = JStr c \<and> jget d ''exit_code'' = JInt 0)"
    using verification_action [of ?a st w] by auto
  show ?case
  proof (cases "verify_succeeded ob")
    case False
    then show ?thesis using x x' by (simp add: verify_failure_def del: bind_res_eq_Inr)
  next
    case True
    then obtain d where d: "execution_journal st1 = execution_journal st @ [d]" "entry_completed d" "jget d ''command'' = JStr c"
      "jget d ''exit_code'' = JInt 0" using x' by blast
    have "verify_loop (execute_verification_action h) t (c # cmds) st w = verify_loop (execute_verification_action h) t cmds st1 w1"
      using x True by (simp del: bind_res_eq_Inr)
    moreover have "execution_journal st @ d # ds = execution_journal st1 @ ds" for ds by (simp add: d)
    moreover have "verified_entries cmds ds \<Longrightarrow> verified_entries (c # cmds) (d # ds)" for ds using d by (simp add: verified_entries_def)
    ultimately show ?thesis using Cons.IH [of st1 w1] x' by metis
  qed
qed

lemma handle_bash_result:
  "\<exists>oc st' w'. handle_bash h a st w = Inr (oc, st', w') \<and> (journal_ok st \<longrightarrow> journal_ok st') \<and>
     (mget (metrics st') ''bash_actions'' = mget (metrics st) ''bash_actions'' \<or>
      mget (metrics st') ''bash_actions'' = mget (metrics st) ''bash_actions'' + 1 \<and> mget (metrics st) ''bash_actions'' < max_bash_actions cfg) \<and>
     final_answer st' = final_answer st \<and>
     (if should_continue oc then status st' = status st \<or> status st' = ''failed'' else status st' = ''waiting_approval'' \<and> pending_action st' = Some a)"
proof (cases "pd_type (chain_evaluate (h_policies h) a st) = Deny \<or> pd_type (chain_evaluate (h_policies h) a st) = RequireApproval")
  case True
  then show ?thesis
    by (auto simp: handle_bash_def Let_def one_step_def stop_outcome_def request_approval_def journal_ok_def frame_simps)
next
  case False
  define a' where "a' = effective_action (chain_evaluate (h_policies h) a st) a"
  note clear = cleared [of a st]
  obtain b st1 where io: "record_io_action (command a') st = (b, st1)" by (cases "record_io_action (command a') st")
  note io_only = record_io_only [OF io]
  note io_frame = only_metrics_frame [OF io_only] only_metrics_mget [OF io_only, of "''bash_actions''", simplified io_keys_def]
  have unfold: "handle_bash h a st w = (if b then Inr (one_step (BashAction a') repeated_io_observation (st1\<lparr>last_observation := Some repeated_io_observation\<rparr>),
       st1\<lparr>last_observation := Some repeated_io_observation\<rparr>, w)
     else bind_res (journaled_run (h_env h) (h_exec h) a' st1 w) (\<lambda>(ob, st2, w2).
       (let st3 = (record_execution_metrics ob st2)\<lparr>last_observation := Some ob\<rparr> in Inr (one_step (BashAction a') ob st3, st3, w2))))"
    using False by (simp add: handle_bash_def Let_def a'_def [symmetric] io)
  show ?thesis
  proof (cases b)
    case True
    then show ?thesis using io_frame by (simp add: unfold one_step_def journal_ok_def)
  next
    case False
    obtain ob st2 w2 where j: "journaled_run (h_env h) (h_exec h) a' st1 w = Inr (ob, st2, w2)" using journaled_returns by blast
    note only_metrics_frame [OF record_execution_only [of st2 ob]] record_execution_count [of ob st2] journaled_result [OF j]
      clear io_frame
    with False j \<open>\<not> (pd_type (chain_evaluate (h_policies h) a st) = Deny \<or> _)\<close> show ?thesis
      by (auto simp: unfold Let_def one_step_def journal_ok_def simp del: bind_res_eq_Inr)
  qed
qed

lemma handle_final_result:
  "handle_final h answer mem st w = (oc, st', w') \<Longrightarrow>
   oc = stop_outcome \<and> w' = w \<and> status st' = ''completed'' \<and> final_answer st' = Some answer \<and>
   execution_journal st' = execution_journal st \<and> mget (metrics st') ''bash_actions'' = mget (metrics st) ''bash_actions'' \<and>
   ground_memory_references (h_resolve h) (ws w) st mem = (memory_references st', snd (ground_memory_references (h_resolve h) (ws w) st mem))"
  by (auto simp: handle_final_def Let_def frame_simps split: prod.splits) (simp add: mset_def)

lemma handle_final_returns:
  "\<exists>oc st' w'. handle h (FinalAction answer mem) st w = Inr (oc, st', w') \<and> (journal_ok st \<longrightarrow> journal_ok st') \<and>
     mget (metrics st') ''bash_actions'' = mget (metrics st) ''bash_actions'' \<and>
     (if should_continue oc then final_answer st' = final_answer st \<and> (status st' = status st \<or> status st' = ''failed'')
      else status st' = ''completed'' \<and> final_answer st' = Some answer \<and>
        (case h_verifier h of None \<Rightarrow> True
         | Some v \<Rightarrow> ver_commands v \<noteq> [] \<and> (\<exists>ds. execution_journal st' = execution_journal st @ ds \<and> verified_entries (ver_commands v) ds)))"
proof (cases "h_verifier h")
  case None
  obtain oc st' w' where f: "handle_final h answer mem (bump ''model_final_requests'' st) w = (oc, st', w')" using prod_cases3 by blast
  from None handle_final_result [OF f] show ?thesis
    by (simp add: handle_def Let_def f stop_outcome_def journal_ok_def frame_simps)
next
  case (Some v)
  let ?st = "bump ''verification_attempts'' (bump ''model_final_requests'' st)"
  obtain r st1 w1 where v: "verify v (execute_verification_action h) ?st w = Inr (r, st1, w1)"
     "journal_ok ?st \<longrightarrow> journal_ok st1" "mget (metrics st1) ''bash_actions'' = mget (metrics ?st) ''bash_actions''"
     "final_answer st1 = final_answer ?st" "status st1 = status ?st \<or> status st1 = ''failed''"
     "vr_passed r \<longrightarrow> ver_commands v \<noteq> [] \<and> (\<exists>ds. execution_journal st1 = execution_journal ?st @ ds \<and> verified_entries (ver_commands v) ds)"
    using verify_loop_result [of "ver_timeout_sec v" "ver_commands v" ?st w] by (cases "ver_commands v = []") (auto simp: verify_def)
  show ?thesis
  proof (cases "vr_passed r")
    case True
    obtain oc st' w' where f: "handle_final h answer mem (bump ''verification_passed'' st1) w1 = (oc, st', w')" using prod_cases3 by blast
    from Some True v handle_final_result [OF f] show ?thesis
      by (simp add: handle_def Let_def f stop_outcome_def journal_ok_def frame_simps del: bind_res_eq_Inr)
  next
    case False
    with Some v show ?thesis
      by (auto simp: handle_def Let_def reject_final_def one_step_def journal_ok_def frame_simps simp del: bind_res_eq_Inr)
  qed
qed

end

interpretation local_handler: guarded_handler
    "\<lparr>h_env = e, h_resolve = r, h_exec = local_run e out, h_policies = build_policy_chain s, h_verifier = v, h_skills = k\<rparr>" s for e r out s v k
  by (rule guarded_handler.intro) (simp_all add: local_exec.bash_executor_axioms)

interpretation docker_handler: guarded_handler
    "\<lparr>h_env = e, h_resolve = r, h_exec = docker_run e out, h_policies = build_policy_chain s, h_verifier = v, h_skills = k\<rparr>" s for e r out s v k
  by (rule guarded_handler.intro) (simp_all add: docker_exec.bash_executor_axioms)

section \<open>Which commands reach the executor\<close>

definition may_run :: "handler \<Rightarrow> policy_settings \<Rightarrow> bash_action \<Rightarrow> run_state \<Rightarrow> world \<Rightarrow> bool" where
  "may_run h cfg a st w =
     (command_clear cfg (command a) \<and> timeout_sec a \<le> max_action_timeout_sec cfg \<and>
      mget (metrics st) ''bash_actions'' < max_bash_actions cfg \<and> announced (h_env h) a st w)"

context guarded_handler
begin

lemma journaled_guarded:
  assumes "\<And>a s v. may_run h cfg a s v \<Longrightarrow> h_exec h a s v = exec' a s v"
    and "pd_type (chain_evaluate (h_policies h) a st) \<noteq> Deny" "pd_type (chain_evaluate (h_policies h) a st) \<noteq> RequireApproval"
    and "mget (metrics st1) ''bash_actions'' = mget (metrics st) ''bash_actions''"
  shows "journaled_run (h_env h) (h_exec h) (effective_action (chain_evaluate (h_policies h) a st) a) st1 w =
         journaled_run (h_env h) exec' (effective_action (chain_evaluate (h_policies h) a st) a) st1 w"
proof (rule journaled_run_cong)
  fix s v assume "announced (h_env h) (effective_action (chain_evaluate (h_policies h) a st) a) s v" "metrics s = metrics st1"
  then have "may_run h cfg (effective_action (chain_evaluate (h_policies h) a st) a) s v"
    using cleared [OF assms(2,3)] assms(4) by (simp add: may_run_def)
  then show "h_exec h (effective_action (chain_evaluate (h_policies h) a st) a) s v = exec' (effective_action (chain_evaluate (h_policies h) a st) a) s v"
    by (rule assms(1))
qed

lemma handle_guarded:
  assumes agree: "\<And>a s v. may_run h cfg a s v \<Longrightarrow> h_exec h a s v = exec' a s v"
  shows "handle h act st w = handle (h\<lparr>h_exec := exec'\<rparr>) act st w"
proof -
  have "execute_verification_action h a s v = execute_verification_action (h\<lparr>h_exec := exec'\<rparr>) a s v" for a s v
    using journaled_guarded [OF agree, of a s s v] by (simp add: execute_verification_action_def Let_def)
  then have ver: "execute_verification_action h = execute_verification_action (h\<lparr>h_exec := exec'\<rparr>)" by blast
  have bash: "handle_bash h a st w = handle_bash (h\<lparr>h_exec := exec'\<rparr>) a st w" for a
  proof -
    obtain b st1 where io: "record_io_action (command (effective_action (chain_evaluate (h_policies h) a st) a)) st = (b, st1)" by fastforce
    have "mget (metrics st1) ''bash_actions'' = mget (metrics st) ''bash_actions''"
      using only_metrics_mget [OF record_io_only [OF io]] by (simp add: io_keys_def)
    from journaled_guarded [OF agree _ _ this, of a w] io show ?thesis by (simp add: handle_bash_def Let_def)
  qed
  have same: "handle_final (h\<lparr>h_exec := exec'\<rparr>) = handle_final h" "handle_skill (h\<lparr>h_exec := exec'\<rparr>) = handle_skill h"
    by (intro ext, simp add: handle_final_def handle_skill_def)+
  show ?thesis unfolding handle_def ver bash same by (cases act; cases "h_verifier h") (simp_all add: Let_def)
qed

end

section \<open>Properties\<close>

text \<open>C12: the executor is reached only through the policies. Handling any action calls the executor
  only with a command that every policy has cleared, with a timeout within the limit, while the
  action budget is not used up, and with the command announced in the saved journal: replacing the
  executor by one that agrees on such calls changes nothing.\<close>

theorem executor_reached_cleared:
  assumes "bash_executor (h_exec h)" "h_policies h = build_policy_chain cfg"
    and "\<And>a s v. may_run h cfg a s v \<Longrightarrow> h_exec h a s v = exec' a s v"
  shows "handle h act st w = handle (h\<lparr>h_exec := exec'\<rparr>) act st w"
  using guarded_handler.intro [OF assms(1,2)] assms(3) by (rule guarded_handler.handle_guarded)

definition sample_env :: env where
  "sample_env = \<lparr>cwd = ''/w'', runs_root = None, now_text = (\<lambda>_. ''t''), bash_path = Some ''/bin/bash'',
     run_process = (\<lambda>args d t fs. (Completed 0 ''ok'' [] 1, fs))\<rparr>"

definition sample_handler :: "verifier option \<Rightarrow> handler" where
  "sample_handler v = \<lparr>h_env = sample_env, h_resolve = id,
     h_exec = local_run sample_env \<lparr>out_artifacts = None, out_threshold = 50000, out_preview_chars = 12000\<rparr>,
     h_policies = build_policy_chain sample_settings, h_verifier = v, h_skills = None\<rparr>"

definition sample_state :: run_state where
  "sample_state = start_state ''r'' ''g'' (Some ''/w'') None None None [] ''s'' []"

theorem executor_reached_cleared_witness:
  "handle (sample_handler None) (BashAction \<lparr>command = ''ls'', timeout_sec = 5, purpose = []\<rparr>) sample_state empty_world =
   handle ((sample_handler None)\<lparr>h_exec := (\<lambda>a st w. if execution_journal st = [] then (obs ''timeout'', st, w) else h_exec (sample_handler None) a st w)\<rparr>)
     (BashAction \<lparr>command = ''ls'', timeout_sec = 5, purpose = []\<rparr>) sample_state empty_world"
proof (rule executor_reached_cleared [where cfg = sample_settings])
  show "bash_executor (h_exec (sample_handler None))" by (simp add: sample_handler_def local_exec.bash_executor_axioms)
qed (simp_all add: may_run_def announced_def sample_handler_def)

text \<open>C32: the handler completes a run only after verification: when a verifier is configured, a
  completed run's journal has grown by exactly the verification commands, in order, each completed
  with exit code zero; an answer that is not accepted leaves the run without a final answer and the
  loop goes on. Handling an answer always returns.\<close>

theorem completion_verified:
  assumes "bash_executor (h_exec h)" "h_policies h = build_policy_chain cfg" "h_verifier h = Some v"
  shows "\<exists>oc st' w'. handle h (FinalAction answer mem) st w = Inr (oc, st', w') \<and>
     (if should_continue oc then final_answer st' = final_answer st \<and> (status st' = status st \<or> status st' = ''failed'')
      else status st' = ''completed'' \<and> final_answer st' = Some answer \<and> ver_commands v \<noteq> [] \<and>
        (\<exists>ds. execution_journal st' = execution_journal st @ ds \<and> verified_entries (ver_commands v) ds))"
proof -
  obtain oc st' w' where r: "handle h (FinalAction answer mem) st w = Inr (oc, st', w')"
    "if should_continue oc then final_answer st' = final_answer st \<and> (status st' = status st \<or> status st' = ''failed'')
      else status st' = ''completed'' \<and> final_answer st' = Some answer \<and>
        (case h_verifier h of None \<Rightarrow> True
         | Some v \<Rightarrow> ver_commands v \<noteq> [] \<and> (\<exists>ds. execution_journal st' = execution_journal st @ ds \<and> verified_entries (ver_commands v) ds))"
    using guarded_handler.handle_final_returns [OF guarded_handler.intro [OF assms(1,2)], of answer mem st w] by blast
  then show ?thesis using assms(3)
    by (intro exI [of _ oc] exI [of _ st'] exI [of _ w']) (cases "should_continue oc"; simp)
qed

theorem completion_verified_witness:
  "\<exists>oc st' w'. handle (sample_handler (Some \<lparr>ver_commands = [''ls''], ver_timeout_sec = 5\<rparr>)) (FinalAction ''done'' []) sample_state empty_world
       = Inr (oc, st', w') \<and>
     (if should_continue oc then final_answer st' = None
      else status st' = ''completed'' \<and> final_answer st' = Some ''done'' \<and> (\<exists>d. execution_journal st' = [d] \<and> verified_entries [''ls''] [d]))"
proof -
  let ?h = "sample_handler (Some \<lparr>ver_commands = [''ls''], ver_timeout_sec = 5\<rparr>)"
  have h: "bash_executor (h_exec ?h)" "h_policies ?h = build_policy_chain sample_settings"
    "h_verifier ?h = Some \<lparr>ver_commands = [''ls''], ver_timeout_sec = 5\<rparr>"
    by (simp_all add: sample_handler_def local_exec.bash_executor_axioms)
  have j: "execution_journal sample_state = []" "final_answer sample_state = None" by (simp_all add: sample_state_def start_state_def)
  have one: "verified_entries [c] ds \<Longrightarrow> \<exists>d. ds = [d] \<and> verified_entries [c] [d]" for c ds by (auto simp: verified_entries_def list_all2_Cons1)
  from completion_verified [OF h, of "''done''" "[]" sample_state empty_world] obtain oc st' w' where
    r: "handle ?h (FinalAction ''done'' []) sample_state empty_world = Inr (oc, st', w')"
    and r': "if should_continue oc then final_answer st' = None
      else status st' = ''completed'' \<and> final_answer st' = Some ''done'' \<and> (\<exists>ds. execution_journal st' = ds \<and> verified_entries [''ls''] ds)"
    by (auto simp: j split: if_splits)
  have "if should_continue oc then final_answer st' = None
      else status st' = ''completed'' \<and> final_answer st' = Some ''done'' \<and> (\<exists>d. execution_journal st' = [d] \<and> verified_entries [''ls''] [d])"
    using r' by (cases "should_continue oc") (auto dest: one)
  with r show ?thesis by blast
qed

text \<open>C33: the action budget. Handling a bash action always returns; it counts at most one executed
  action, and only while the budget is not used up, so the count never passes the configured
  maximum; a request for approval leaves exactly that action pending.\<close>

theorem bash_budget:
  assumes "bash_executor (h_exec h)" "h_policies h = build_policy_chain cfg" "journal_ok st"
    and "mget (metrics st) ''bash_actions'' \<le> max_bash_actions cfg"
  shows "\<exists>oc st' w'. handle h (BashAction a) st w = Inr (oc, st', w') \<and> journal_ok st' \<and>
     mget (metrics st') ''bash_actions'' \<le> max_bash_actions cfg \<and>
     mget (metrics st) ''bash_actions'' \<le> mget (metrics st') ''bash_actions'' \<and>
     (if should_continue oc then status st' = status st \<or> status st' = ''failed'' else status st' = ''waiting_approval'' \<and> pending_action st' = Some a)"
proof -
  obtain oc st' w' where r: "handle_bash h a st w = Inr (oc, st', w')" "journal_ok st \<longrightarrow> journal_ok st'"
     "mget (metrics st') ''bash_actions'' = mget (metrics st) ''bash_actions'' \<or>
      mget (metrics st') ''bash_actions'' = mget (metrics st) ''bash_actions'' + 1 \<and> mget (metrics st) ''bash_actions'' < max_bash_actions cfg"
     "if should_continue oc then status st' = status st \<or> status st' = ''failed'' else status st' = ''waiting_approval'' \<and> pending_action st' = Some a"
    using guarded_handler.handle_bash_result [OF guarded_handler.intro [OF assms(1,2)], of a st w] by blast
  show ?thesis
    by (rule exI [of _ oc], rule exI [of _ st'], rule exI [of _ w']) (use r assms(3,4) in \<open>auto simp: handle_def\<close>)
qed

theorem bash_budget_witness:
  "\<exists>oc st' w'. handle (sample_handler None) (BashAction \<lparr>command = ''ls'', timeout_sec = 5, purpose = []\<rparr>) sample_state empty_world
     = Inr (oc, st', w') \<and> mget (metrics st') ''bash_actions'' \<le> 30"
proof -
  have "bash_executor (h_exec (sample_handler None))" "h_policies (sample_handler None) = build_policy_chain sample_settings"
    by (simp_all add: sample_handler_def local_exec.bash_executor_axioms)
  moreover have "journal_ok sample_state" by (simp add: sample_state_def start_state_def journal_ok_def)
  moreover have "mget (metrics sample_state) ''bash_actions'' \<le> max_bash_actions sample_settings" by code_simp
  moreover have "max_bash_actions sample_settings = 30" by (simp add: sample_settings_def)
  ultimately show ?thesis
    using bash_budget [of "sample_handler None" sample_settings sample_state "\<lparr>command = ''ls'', timeout_sec = 5, purpose = []\<rparr>" empty_world]
    by auto
qed

text \<open>The repeated-I/O guard. A read or search command is counted under its normalized text; the
  first and the second time the policies let it through it is executed, and from the third time on
  it is refused without reaching the executor.\<close>

theorem repeated_io_refused:
  assumes "passes (chain_evaluate (h_policies h) a st)" "effective_action (chain_evaluate (h_policies h) a st) a = a"
    and "normalize_io (command a) \<noteq> []" "io_category (lower (normalize_io (command a))) = Some category"
    and "2 \<le> mget (io_signatures st) (category @ '':'' @ normalize_io (command a))"
  shows "\<exists>oc st'. handle h (BashAction a) st w = Inr (oc, st', w) \<and> should_continue oc \<and>
     last_observation st' = Some repeated_io_observation \<and> execution_journal st' = execution_journal st \<and>
     mget (io_signatures st') (category @ '':'' @ normalize_io (command a)) =
       mget (io_signatures st) (category @ '':'' @ normalize_io (command a)) + 1"
proof -
  obtain b st1 where io: "record_io_action (command a) st = (b, st1)" by fastforce
  have "b" and sig: "mget (io_signatures st1) (category @ '':'' @ normalize_io (command a)) =
       mget (io_signatures st) (category @ '':'' @ normalize_io (command a)) + 1"
    using io assms(3-5) by (auto simp: record_io_action_def Let_def io_signatures_def jget_def mset_def add_metric_def mget_update update_conv' split: if_splits)
  moreover have "execution_journal st1 = execution_journal st" using only_metrics_frame [OF record_io_only [OF io]] by blast
  moreover have "io_signatures (st1\<lparr>last_observation := x\<rparr>) = io_signatures st1" for x by (simp add: io_signatures_def)
  ultimately show ?thesis
    using io assms(1,2) by (auto simp: handle_def handle_bash_def Let_def passes_def one_step_def)
qed

theorem repeated_io_refused_witness:
  "\<exists>oc st'. handle (sample_handler None) (BashAction \<lparr>command = ''cat a'', timeout_sec = 5, purpose = []\<rparr>)
       (mset ''io_action_signatures'' (JDict [(''file_read:cat a'', JInt 2)]) sample_state) empty_world = Inr (oc, st', empty_world) \<and>
     execution_journal st' = []"
proof -
  let ?a = "\<lparr>command = ''cat a'', timeout_sec = 5, purpose = []\<rparr>"
  let ?st = "mset ''io_action_signatures'' (JDict [(''file_read:cat a'', JInt 2)]) sample_state"
  have p: "pd_type (chain_evaluate (build_policy_chain sample_settings) ?a ?st) = Allow"
    by code_simp
  then have "passes (chain_evaluate (h_policies (sample_handler None)) ?a ?st)"
    "effective_action (chain_evaluate (h_policies (sample_handler None)) ?a ?st) ?a = ?a"
    by (simp_all add: sample_handler_def passes_def effective_action_def split: option.splits)
  moreover have "normalize_io (command ?a) = ''cat a''" "io_category (lower ''cat a'') = Some ''file_read''" by code_simp+
  moreover have "mget (io_signatures ?st) (''file_read'' @ '':'' @ ''cat a'') = 2" by code_simp
  moreover have "execution_journal ?st = []" by (simp add: sample_state_def start_state_def frame_simps)
  ultimately show ?thesis
    using repeated_io_refused [of "sample_handler None" ?a ?st "''file_read''" empty_world] by auto
qed

end
