(* ===== verification/Tooling.thy ===== *)
theory Tooling
  imports Handler Runtime
begin

text \<open>
  Tool calls (\<^verbatim>\<open>core/tooling.py\<close>): the file tools with their version check, the runner that routes a
  call to them or to the action handler behind the capability check, and the scheduler that runs
  neighbouring reads in parallel and everything else in order.

  SHA-256, \<^verbatim>\<open>difflib\<close>, path resolution and what the operating system refuses are arguments; a file
  holds text. Results: a file tool changes at most the file it names, inside the workspace and, for
  an existing file, only when the caller knows its current hash; an edit replaces exactly the
  passage it names; every call of a step gets exactly one result, in the order of the model; and
  the order in which the threads of a parallel group finish does not show in the results.
\<close>

section \<open>Results of tools\<close>

record tool_result =
  tr_call_id :: string
  tr_tool :: string
  tr_model_order :: nat
  tr_mode :: string
  tr_content :: jdict
  tr_is_error :: bool
  tr_started_at :: "string option"
  tr_completed_at :: "string option"
  tr_duration_ms :: int

definition tool_result_of :: "tool_call \<Rightarrow> string \<Rightarrow> jdict \<Rightarrow> bool \<Rightarrow> tool_result" where
  "tool_result_of c mode content err =
     \<lparr>tr_call_id = call_id c, tr_tool = tool c, tr_model_order = 0, tr_mode = mode, tr_content = content, tr_is_error = err,
      tr_started_at = None, tr_completed_at = None, tr_duration_ms = 0\<rparr>"

definition tool_observation :: "tool_result \<Rightarrow> observation" where
  "tool_observation r =
     \<lparr>ob_kind = (if tr_is_error r then ''command_error'' else ''command_result''), ob_exit_code = (if tr_is_error r then None else Some 0),
      ob_stdout_preview = dumps (JDict (tr_content r)), ob_stderr_preview = [], ob_artifact_ids = [],
      ob_message = (if tr_is_error r then (case jget_or (tr_content r) ''error'' (JStr []) of JStr m \<Rightarrow> m | _ \<Rightarrow> []) else []),
      ob_duration_ms = tr_duration_ms r\<rparr>"

definition error_result :: "tool_call \<Rightarrow> string \<Rightarrow> string \<Rightarrow> string \<Rightarrow> tool_result" where
  "error_result c mode code message = tool_result_of c mode [(''error_code'', JStr code), (''error'', JStr message)] True"

definition execution_mode :: "tool_call \<Rightarrow> string" where
  "execution_mode c = (if tool c = ''read'' then ''parallel'' else ''exclusive'')"

section \<open>File tools\<close>

record file_system =
  fs_resolve :: "string \<Rightarrow> string"
  fs_cwd :: string
  fs_sha256 :: "string \<Rightarrow> string" \<comment> \<open>hex digest of the UTF-8 bytes\<close>
  fs_diff :: "string \<Rightarrow> string \<Rightarrow> string \<Rightarrow> string" \<comment> \<open>\<^verbatim>\<open>unified_diff\<close> of two texts under a path\<close>
  fs_mkdir_refused :: "string \<Rightarrow> ws_files \<Rightarrow> string option" \<comment> \<open>the \<^verbatim>\<open>OSError\<close> of creating the parents\<close>
  fs_write_refused :: "string \<Rightarrow> ws_files \<Rightarrow> string option" \<comment> \<open>the \<^verbatim>\<open>OSError\<close> of replacing the file\<close>
  fs_max_read_lines :: nat
  fs_max_read_chars :: nat

text \<open>A \<^verbatim>\<open>ToolInputError\<close> or \<^verbatim>\<open>OSError\<close>, as its code and message.\<close>

type_synonym 'a tool_res = "(string \<times> string) + 'a"

text \<open>Reading in text mode translates line ends; writing with \<^verbatim>\<open>newline=""\<close> does not.\<close>

fun universal_newlines :: "string \<Rightarrow> string" where
  "universal_newlines [] = []"
| "universal_newlines [c] = (if c = CHR 0x0D then [nl] else [c])"
| "universal_newlines (c # d # cs) =
     (if c = CHR 0x0D then (if d = nl then nl # universal_newlines cs else nl # universal_newlines (d # cs))
      else c # universal_newlines (d # cs))"

function occurrences :: "string \<Rightarrow> string \<Rightarrow> nat" where \<comment> \<open>\<^verbatim>\<open>s.count(p)\<close> for a non-empty \<open>p\<close>\<close>
  "occurrences s p =
     (if s = [] \<or> p = [] then 0
      else if startswith s p then Suc (occurrences (drop (length p) s) p) else occurrences (tl s) p)"
  by pat_completeness auto
termination
  by (relation "measure (length \<circ> fst)") auto

function replace_text :: "bool \<Rightarrow> string \<Rightarrow> string \<Rightarrow> string \<Rightarrow> string" where \<comment> \<open>\<^verbatim>\<open>s.replace(p, q)\<close>, or only the first\<close>
  "replace_text every s p q =
     (if s = [] \<or> p = [] then s
      else if startswith s p then q @ (if every then replace_text every (drop (length p) s) p q else drop (length p) s)
      else hd s # replace_text every (tl s) p q)"
  by pat_completeness auto
termination
  by (relation "measure (\<lambda>(_, s, _). length s)") auto

declare occurrences.simps [simp del] replace_text.simps [simp del]

definition positive_arg :: "json \<Rightarrow> string \<Rightarrow> int tool_res" where
  "positive_arg v name =
     (case v of
        JInt n \<Rightarrow> if n \<le> 0 then Inl (''INVALID_ARGUMENT'', name @ '' must be a positive integer'') else Inr n
      | _ \<Rightarrow> Inl (''INVALID_ARGUMENT'', name @ '' must be a positive integer''))"

definition fs_root :: "file_system \<Rightarrow> run_state \<Rightarrow> string" where
  "fs_root f st = fs_resolve f (case workspace_host_path st of Some p \<Rightarrow> p | None \<Rightarrow> fs_cwd f)"

definition resolve_path :: "file_system \<Rightarrow> run_state \<Rightarrow> json \<Rightarrow> string tool_res" where
  "resolve_path f st raw =
     (case raw of
        JStr r \<Rightarrow>
          if blank r then Inl (''PATH_REQUIRED'', ''path must be a non-empty relative path'')
          else
            (let candidate = replace_char bsl (CHR ''/'') r; parts = posix_parts candidate
             in if startswith candidate ''/'' \<or> ''..'' \<in> set parts \<or> ''.'' \<in> set parts then
                  Inl (''PATH_OUT_OF_BOUNDS'', ''path must be a safe relative path'')
                else
                  (let resolved = fs_resolve f (path_join (fs_root f st) (join ''/'' parts))
                   in if inside (fs_root f st) resolved then Inr resolved else Inl (''PATH_OUT_OF_BOUNDS'', ''path escapes workspace'')))
      | _ \<Rightarrow> Inl (''PATH_REQUIRED'', ''path must be a non-empty relative path''))"

definition relative_path :: "file_system \<Rightarrow> run_state \<Rightarrow> string \<Rightarrow> string" where
  "relative_path f st p = (if p = fs_root f st then ''.'' else drop (Suc (length (fs_root f st))) p)"

definition file_hash :: "file_system \<Rightarrow> string \<Rightarrow> string" where
  "file_hash f content = ''sha256:'' @ fs_sha256 f content"

fun numbered :: "nat \<Rightarrow> string list \<Rightarrow> string list" where
  "numbered n [] = []"
| "numbered n (l # ls) = (str_nat n @ '': '' @ l) # numbered (Suc n) ls"

definition fs_read :: "file_system \<Rightarrow> run_state \<Rightarrow> jdict \<Rightarrow> ws_files \<Rightarrow> jdict tool_res" where
  "fs_read f st args fs =
     bind_res (resolve_path f st (jget args ''path'')) (\<lambda>p.
       case fs p of
         Some (FileNode content) \<Rightarrow>
           bind_res (positive_arg (jget_or args ''offset'' (JInt 1)) ''offset'') (\<lambda>offset.
           bind_res (positive_arg (jget_or args ''limit'' (JInt (int (fs_max_read_lines f)))) ''limit'') (\<lambda>limit0.
             (let lines = splitlines (universal_newlines content);
                  limit = min limit0 (int (fs_max_read_lines f));
                  start = nat (offset - 1);
                  selected = take (nat limit) (drop start lines);
                  text = join [nl] (numbered (Suc start) selected);
                  truncated = (start + length selected < length lines)
              in Inr [(''path'', JStr (relative_path f st p)), (''content'', JStr (take (fs_max_read_chars f) text)), (''offset'', JInt offset),
                   (''limit'', JInt limit), (''total_lines'', JInt (int (length lines))),
                   (''truncated'', JBool (truncated \<or> fs_max_read_chars f < length text)), (''sha256'', JStr (file_hash f content))])))
       | _ \<Rightarrow> Inl (''READ_NOT_FOUND'', ''File does not exist: '' @ py_str (jget args ''path'')))"

definition count_newlines :: "string \<Rightarrow> nat" where
  "count_newlines s = length (filter (\<lambda>c. c = nl) s)"

definition atomic_write :: "file_system \<Rightarrow> string \<Rightarrow> string \<Rightarrow> ws_files \<Rightarrow> ws_files tool_res" where
  "atomic_write f p content fs =
     (case fs_write_refused f p fs of
        Some m \<Rightarrow> Inl (''FS_RUNTIME_ERROR'', m)
      | None \<Rightarrow> Inr (fs(p \<mapsto> FileNode content)))"

definition text_arg :: "json \<Rightarrow> string option" where
  "text_arg v = (case v of JStr s \<Rightarrow> if s = [] then None else Some s | _ \<Rightarrow> None)"

definition fs_edit :: "file_system \<Rightarrow> run_state \<Rightarrow> jdict \<Rightarrow> ws_files \<Rightarrow> (jdict \<times> ws_files) tool_res" where
  "fs_edit f st args fs =
     bind_res (resolve_path f st (jget args ''path'')) (\<lambda>p.
       case fs p of
         Some (FileNode content) \<Rightarrow>
           (case text_arg (jget args ''expected_hash'') of
              None \<Rightarrow> Inl (''EDIT_EXPECTED_HASH_REQUIRED'', ''edit.expected_hash is required for existing files'')
            | Some expected \<Rightarrow>
                if expected \<noteq> file_hash f content then Inl (''EDIT_VERSION_CONFLICT'', ''File version does not match expected_hash'')
                else
                  (case text_arg (jget args ''old_string'') of
                     None \<Rightarrow> Inl (''EDIT_OLD_STRING_REQUIRED'', ''edit.old_string must be non-empty'')
                   | Some old \<Rightarrow>
                       (case jget args ''new_string'' of
                          JStr new \<Rightarrow>
                            (let original = universal_newlines content; n = occurrences original old;
                                 every = truthy (jget_or args ''replace_all'' (JBool False))
                             in if n = 0 then Inl (''EDIT_MATCH_NOT_FOUND'', ''old_string was not found'')
                                else if n \<noteq> 1 \<and> \<not> every then Inl (''EDIT_MATCH_NOT_UNIQUE'', ''old_string matched more than once'')
                                else
                                  (let updated = replace_text every original old new
                                   in bind_res (atomic_write f p updated fs) (\<lambda>fs'.
                                        Inr ([(''path'', JStr (relative_path f st p)), (''old_hash'', JStr (file_hash f content)),
                                              (''new_hash'', JStr (file_hash f updated)),
                                              (''changed_lines'', JInt \<bar>int (count_newlines updated) - int (count_newlines original)\<bar>),
                                              (''diff'', JStr (fs_diff f original updated p))], fs'))))
                        | _ \<Rightarrow> Inl (''EDIT_NEW_STRING_REQUIRED'', ''edit.new_string must be a string''))))
       | _ \<Rightarrow> Inl (''EDIT_NOT_FOUND'', ''File does not exist: '' @ py_str (jget args ''path'')))"

text \<open>The proper prefixes of a path that end before a slash.\<close>

definition parent_dirs :: "string \<Rightarrow> string list" where
  "parent_dirs p = map (\<lambda>i. take i p) (filter (\<lambda>i. 0 < i \<and> p ! i = CHR ''/'') [0 ..< length p])"

definition make_parents :: "string \<Rightarrow> ws_files \<Rightarrow> ws_files" where
  "make_parents p fs = (\<lambda>q. if q \<in> set (parent_dirs p) \<and> fs q = None then Some DirNode else fs q)"

definition fs_write :: "file_system \<Rightarrow> run_state \<Rightarrow> jdict \<Rightarrow> ws_files \<Rightarrow> jdict tool_res \<times> ws_files" where
  "fs_write f st args fs =
     (case resolve_path f st (jget args ''path'') of
        Inl x \<Rightarrow> (Inl x, fs)
      | Inr p \<Rightarrow>
          (case jget args ''content'' of
             JStr content \<Rightarrow>
               (let old_hash = (case fs p of Some (FileNode c) \<Rightarrow> Some (file_hash f c) | _ \<Rightarrow> None);
                    expected = text_arg (jget args ''expected_hash'')
                in if fs p \<noteq> None \<and> expected = None then
                     (Inl (''WRITE_EXPECTED_HASH_REQUIRED'', ''write.expected_hash is required for existing files''), fs)
                   else if fs p \<noteq> None \<and> expected \<noteq> old_hash then
                     (Inl (''WRITE_VERSION_CONFLICT'', ''File version does not match expected_hash''), fs)
                   else
                     (case fs_mkdir_refused f p fs of
                        Some m \<Rightarrow> (Inl (''FS_RUNTIME_ERROR'', m), fs)
                      | None \<Rightarrow>
                          (case atomic_write f p content (make_parents p fs) of
                             Inl x \<Rightarrow> (Inl x, make_parents p fs)
                           | Inr fs' \<Rightarrow>
                               (Inr [(''path'', JStr (relative_path f st p)), (''created'', JBool (fs p = None)), (''old_hash'', opt_str old_hash),
                                     (''new_hash'', JStr (file_hash f content)), (''bytes'', JInt (utf8_length content))], fs'))))
           | _ \<Rightarrow> (Inl (''WRITE_CONTENT_REQUIRED'', ''write.content must be a string''), fs)))"

definition tool_outcome :: "tool_call \<Rightarrow> jdict tool_res \<Rightarrow> tool_result" where
  "tool_outcome c r =
     (case r of Inr content \<Rightarrow> tool_result_of c (execution_mode c) content False
      | Inl (code, message) \<Rightarrow> error_result c (execution_mode c) code message)"

definition fs_run :: "file_system \<Rightarrow> tool_call \<Rightarrow> run_state \<Rightarrow> ws_files \<Rightarrow> tool_result \<times> ws_files" where
  "fs_run f c st fs =
     (if tool c = ''read'' then (tool_outcome c (fs_read f st (arguments c) fs), fs)
      else if tool c = ''edit'' then
        (case fs_edit f st (arguments c) fs of
           Inl x \<Rightarrow> (tool_outcome c (Inl x), fs)
         | Inr (content, fs') \<Rightarrow> (tool_outcome c (Inr content), fs'))
      else if tool c = ''write'' then (let (r, fs') = fs_write f st (arguments c) fs in (tool_outcome c r, fs'))
      else (error_result c (execution_mode c) ''UNKNOWN_TOOL'' (''Unsupported FS tool: '' @ tool c), fs))"

section \<open>Routing a call\<close>

record hybrid =
  hy_fs :: file_system
  hy_runtime :: "(child_capabilities \<times> lease option) option"
  hy_handler :: "handler option"
  hy_exec :: executor

definition bash_of_call :: "tool_call \<Rightarrow> bash_action result" where
  "bash_of_call c =
     bind_res (int_of_json (jget_or (arguments c) ''timeout_sec'' (JInt 60))) (\<lambda>t.
       Inr \<lparr>command = py_str (jget_or (arguments c) ''command'' (JStr [])), timeout_sec = t,
            purpose = str_or (jget_or (arguments c) ''description'' (jget_or (arguments c) ''purpose'' (JStr []))) []\<rparr>)"

definition handled_observation :: "action_outcome \<Rightarrow> run_state \<Rightarrow> observation" where
  "handled_observation oc st =
     (if status st = ''waiting_approval'' then
        (obs ''approval_result'')\<lparr>ob_message := ''Bash action is waiting for approval and was not executed.''\<rparr>
      else if steps oc \<noteq> [] then ts_observation (last (steps oc))
      else (case last_observation st of
              Some ob \<Rightarrow> ob
            | None \<Rightarrow> (obs ''policy_violation'')\<lparr>ob_message := ''Bash action did not produce an observation.''\<rparr>))"

definition bash_content :: "observation \<Rightarrow> jdict" where
  "bash_content ob = [(''exit_code'', opt_int (ob_exit_code ob)), (''stdout'', JStr (ob_stdout_preview ob)),
     (''stderr'', JStr (ob_stderr_preview ob)), (''kind'', JStr (ob_kind ob)), (''message'', JStr (ob_message ob))]"

definition bash_result :: "tool_call \<Rightarrow> observation \<Rightarrow> tool_result" where
  "bash_result c ob = tool_result_of c (execution_mode c) (bash_content ob) (ob_kind ob \<notin> {''command_result'', ''no_output''})"

definition hybrid_run :: "hybrid \<Rightarrow> tool_call \<Rightarrow> run_state \<Rightarrow> world \<Rightarrow> (tool_result \<times> run_state \<times> world) result" where
  "hybrid_run y c st w =
     (let refused = (case hy_runtime y of
                       None \<Rightarrow> None
                     | Some (caps, lse) \<Rightarrow>
                         (let d = authorize caps lse c (Some (run_id st)) (Some (run_id st)) None in if cd_allowed d then None else Some d))
      in case refused of
           Some d \<Rightarrow> Inr (error_result c (execution_mode c) (cd_code d) (cd_reason d), st, w)
         | None \<Rightarrow>
             if tool c \<in> {''read'', ''edit'', ''write''} then
               (let (r, fs') = fs_run (hy_fs y) c st (ws w) in Inr (r, st, w\<lparr>ws := fs'\<rparr>))
             else if tool c = ''bash'' then
               bind_res (bash_of_call c) (\<lambda>a.
                 case hy_handler y of
                   Some h \<Rightarrow> bind_res (handle h (BashAction a) st w) (\<lambda>(oc, st1, w1). Inr (bash_result c (handled_observation oc st1), st1, w1))
                 | None \<Rightarrow> (let (ob, st1, w1) = hy_exec y a st w in Inr (bash_result c ob, st1, w1)))
             else Inr (error_result c (execution_mode c) ''UNKNOWN_TOOL'' (''Unknown tool: '' @ tool c), st, w))"

section \<open>Scheduling the calls of a step\<close>

type_synonym tool_runner = "tool_call \<Rightarrow> run_state \<Rightarrow> world \<Rightarrow> (tool_result \<times> run_state \<times> world) result"

record scheduler =
  sc_run :: tool_runner
  sc_error_text :: "exn \<Rightarrow> string" \<comment> \<open>\<^verbatim>\<open>str(exc)\<close>\<close>
  sc_now :: "nat \<Rightarrow> string"
  sc_elapsed :: "nat \<Rightarrow> int" \<comment> \<open>milliseconds since the n-th reading of the clock\<close>
  sc_max_parallel :: nat

text \<open>An exception of a call leaves the state as it was: the runner raises before it changes anything.\<close>

definition run_one :: "scheduler \<Rightarrow> tool_call \<Rightarrow> run_state \<Rightarrow> world \<Rightarrow> tool_result \<times> run_state \<times> world" where
  "run_one s c st w =
     (let (r, st1, w1) = (case sc_run s c st (tick w) of
                            Inr x \<Rightarrow> x
                          | Inl err \<Rightarrow> (error_result c (execution_mode c) ''TOOL_RUNTIME_ERROR'' (sc_error_text s err), st, tick w))
      in (r\<lparr>tr_started_at := Some (sc_now s (clock w)), tr_completed_at := Some (sc_now s (clock w1)),
            tr_duration_ms := sc_elapsed s (clock w)\<rparr>, st1, tick w1))"

definition with_order :: "nat \<Rightarrow> string \<Rightarrow> tool_result \<Rightarrow> tool_result" where
  "with_order i mode r = r\<lparr>tr_model_order := i, tr_mode := mode\<rparr>"

definition aborted_result :: "string \<Rightarrow> nat \<Rightarrow> tool_call \<Rightarrow> tool_result" where
  "aborted_result why i c =
     (tool_result_of c (execution_mode c)
        [(''error_code'', JStr ''ABORTED_BEFORE_DISPATCH''), (''error'', JStr (''Call was not dispatched because '' @ why))] True)\<lparr>tr_model_order := i\<rparr>"

fun abort_all :: "string \<Rightarrow> nat \<Rightarrow> tool_call list \<Rightarrow> tool_result list" where
  "abort_all why i [] = []"
| "abort_all why i (c # cs) = aborted_result why i c # abort_all why (Suc i) cs"

text \<open>The thread pool of a group of reads. A worker runs its call at some moment between submission
  and completion; the loop hands out calls while there is room and, once a first call is back, only
  while the run is running.\<close>

record pool =
  po_next :: nat
  po_flying :: "nat list"
  po_done :: "(nat \<times> tool_result) list"
  po_filled :: bool \<comment> \<open>the first filling of the pool is over\<close>
  po_state :: run_state
  po_world :: world

definition new_pool :: "run_state \<Rightarrow> world \<Rightarrow> pool" where
  "new_pool st w = \<lparr>po_next = 0, po_flying = [], po_done = [], po_filled = False, po_state = st, po_world = w\<rparr>"

definition may_submit :: "scheduler \<Rightarrow> tool_call list \<Rightarrow> pool \<Rightarrow> bool" where
  "may_submit s grp p =
     (po_next p < length grp \<and> length (po_flying p) < sc_max_parallel s \<and> (po_filled p \<longrightarrow> status (po_state p) = ''running''))"

definition submit :: "pool \<Rightarrow> pool" where
  "submit p = p\<lparr>po_next := Suc (po_next p), po_flying := po_flying p @ [po_next p]\<rparr>"

definition finish_call :: "scheduler \<Rightarrow> nat \<Rightarrow> tool_call list \<Rightarrow> nat \<Rightarrow> pool \<Rightarrow> pool" where
  "finish_call s start_index grp i p =
     (let (r, st, w) = run_one s (grp ! i) (po_state p) (po_world p)
      in p\<lparr>po_flying := remove1 i (po_flying p), po_done := (i, with_order (start_index + i) ''parallel'' r) # po_done p,
           po_filled := True, po_state := st, po_world := w\<rparr>)"

inductive pool_step :: "scheduler \<Rightarrow> nat \<Rightarrow> tool_call list \<Rightarrow> pool \<Rightarrow> pool \<Rightarrow> bool"
  for s :: scheduler and start_index :: nat and grp :: "tool_call list" where
  Submit: "may_submit s grp p \<Longrightarrow> pool_step s start_index grp p (submit p)"
| Finish: "i \<in> set (po_flying p) \<Longrightarrow> po_filled p \<or> \<not> may_submit s grp p \<Longrightarrow>
    pool_step s start_index grp p (finish_call s start_index grp i p)"

text \<open>The pool is drained: nothing in flight and nothing more to hand out.\<close>

definition drained :: "scheduler \<Rightarrow> tool_call list \<Rightarrow> pool \<Rightarrow> bool" where
  "drained s grp p = (po_flying p = [] \<and> \<not> may_submit s grp p)"

definition pool_results :: "nat \<Rightarrow> tool_call list \<Rightarrow> pool \<Rightarrow> tool_result list" where
  "pool_results start_index grp p =
     map (\<lambda>i. the (map_of (po_done p) i)) (sort (map fst (po_done p))) @
     abort_all ''the step was aborted.'' (start_index + po_next p) (drop (po_next p) grp)"

text \<open>One schedule of the pool, as a function: calls finish in the order of submission.\<close>

fun fill_pool :: "nat \<Rightarrow> scheduler \<Rightarrow> tool_call list \<Rightarrow> pool \<Rightarrow> pool" where
  "fill_pool 0 s grp p = p"
| "fill_pool (Suc n) s grp p = (if may_submit s grp p then fill_pool n s grp (submit p) else p)"

fun drain_pool :: "nat \<Rightarrow> scheduler \<Rightarrow> nat \<Rightarrow> tool_call list \<Rightarrow> pool \<Rightarrow> pool" where
  "drain_pool 0 s start_index grp p = p"
| "drain_pool (Suc n) s start_index grp p =
     (case po_flying p of
        [] \<Rightarrow> p
      | i # _ \<Rightarrow> drain_pool n s start_index grp (fill_pool (length grp) s grp (finish_call s start_index grp i p)))"

definition run_parallel_group :: "scheduler \<Rightarrow> tool_call list \<Rightarrow> nat \<Rightarrow> run_state \<Rightarrow> world \<Rightarrow> tool_result list \<times> run_state \<times> world" where
  "run_parallel_group s grp start_index st w =
     (let p = drain_pool (Suc (length grp)) s start_index grp (fill_pool (length grp) s grp (new_pool st w))
      in (pool_results start_index grp p, po_state p, po_world p))"

function dispatch_from :: "scheduler \<Rightarrow> nat \<Rightarrow> tool_call list \<Rightarrow> run_state \<Rightarrow> world \<Rightarrow> tool_result list \<times> run_state \<times> world" where
  "dispatch_from s i calls st w =
     (if calls = [] then ([], st, w)
      else if execution_mode (hd calls) = ''exclusive'' then
        (let (r, st1, w1) = run_one s (hd calls) st w; r1 = with_order i ''exclusive'' r
         in if status st1 \<in> {''waiting_approval'', ''failed'', ''interrupted''} then
              (r1 # abort_all ''an earlier call stopped the step.'' (Suc i) (tl calls), st1, w1)
            else (let (rs, st2, w2) = dispatch_from s (Suc i) (tl calls) st1 w1 in (r1 # rs, st2, w2)))
      else
        (let grp = takeWhile (\<lambda>c. execution_mode c = ''parallel'') calls;
             (rs1, st1, w1) = run_parallel_group s grp i st w;
             (rs2, st2, w2) = dispatch_from s (i + length grp) (drop (length grp) calls) st1 w1
         in (rs1 @ rs2, st2, w2)))"
  by pat_completeness auto
termination
proof (relation "measure (\<lambda>(_, _, calls, _, _). length calls)", goal_cases)
  case (3 s i calls st w grp)
  then show ?case by (cases calls) (auto simp: execution_mode_def split: if_splits)
qed auto

declare dispatch_from.simps [simp del]

definition dispatch :: "scheduler \<Rightarrow> tool_call list \<Rightarrow> run_state \<Rightarrow> world \<Rightarrow> tool_result list \<times> run_state \<times> world" where
  "dispatch s calls st w = dispatch_from s 0 calls st w"

section \<open>What the scheduler relies on\<close>

locale tool_contract =
  fixes run :: tool_runner
  assumes run_id: "run c st w = Inr (r, st', w') \<Longrightarrow> tr_call_id r = call_id c \<and> tr_tool r = tool c"
    and read_returns: "tool c = ''read'' \<Longrightarrow> \<exists>r. run c st w = Inr (r, st, w)"
    and read_stable: "tool c = ''read'' \<Longrightarrow> ws w = ws w' \<Longrightarrow> run c st w = Inr (r, st, w) \<Longrightarrow> run c st w' = Inr (r, st, w')"

lemma tool_result_of_simps [simp]:
  "tr_call_id (tool_result_of c m d e) = call_id c" "tr_tool (tool_result_of c m d e) = tool c"
  "tr_call_id (error_result c m code t) = call_id c" "tr_tool (error_result c m code t) = tool c"
  "tr_call_id (bash_result c ob) = call_id c" "tr_tool (bash_result c ob) = tool c"
  "tr_call_id (tool_outcome c x) = call_id c" "tr_tool (tool_outcome c x) = tool c"
  by (simp_all add: tool_result_of_def error_result_def bash_result_def tool_outcome_def split: sum.splits prod.splits)

lemma fs_run_ids: "fs_run f c st fs = (r, fs') \<Longrightarrow> tr_call_id r = call_id c \<and> tr_tool r = tool c"
  by (auto simp: fs_run_def Let_def split: if_splits sum.splits prod.splits)

lemma hybrid_run_cases:
  obtains (refused) d :: capability_decision where "hybrid_run y c st w = Inr (error_result c (execution_mode c) (cd_code d) (cd_reason d), st, w)"
  | (on_files) r fs' where "tool c \<in> {''read'', ''edit'', ''write''}" "fs_run (hy_fs y) c st (ws w) = (r, fs')"
      "hybrid_run y c st w = Inr (r, st, w\<lparr>ws := fs'\<rparr>)"
  | (bad_args) err where "tool c = ''bash''" "bash_of_call c = Inl err" "hybrid_run y c st w = Inl err"
  | (handled) h a where "tool c = ''bash''" "bash_of_call c = Inr a" "hy_handler y = Some h"
      "hybrid_run y c st w = bind_res (handle h (BashAction a) st w) (\<lambda>(oc, st1, w1). Inr (bash_result c (handled_observation oc st1), st1, w1))"
  | (direct) a ob st1 w1 where "tool c = ''bash''" "bash_of_call c = Inr a" "hy_handler y = None" "hy_exec y a st w = (ob, st1, w1)"
      "hybrid_run y c st w = Inr (bash_result c ob, st1, w1)"
  | (unknown) "hybrid_run y c st w = Inr (error_result c (execution_mode c) ''UNKNOWN_TOOL'' (''Unknown tool: '' @ tool c), st, w)"
proof -
  define refused where "refused = (case hy_runtime y of None \<Rightarrow> None | Some (caps, lse) \<Rightarrow>
      (let d = authorize caps lse c (Some (run_id st)) (Some (run_id st)) None in if cd_allowed d then None else Some d))"
  note run = hybrid_run_def [of y c st w, folded refused_def, unfolded Let_def]
  show thesis
  proof (cases refused)
    case (Some d)
    then show thesis using that(1) [of d] run by simp
  next
    case None
    consider "tool c \<in> {''read'', ''edit'', ''write''}" | "tool c = ''bash''" | "tool c \<notin> {''read'', ''edit'', ''write'', ''bash''}" by blast
    then show thesis
    proof cases
      case 1
      then show thesis using that(2) run None by (cases "fs_run (hy_fs y) c st (ws w)") auto
    next
      case 2
      then show thesis using that(3-5) run None
        by (cases "bash_of_call c"; cases "hy_handler y"; cases "hy_exec y (projr (bash_of_call c)) st w")
          (auto simp del: bind_res_eq_Inr bind_res_eq_Inl)
    next
      case 3
      then show thesis using that(6) run None by simp
    qed
  qed
qed

interpretation hybrid_tools: tool_contract "hybrid_run y" for y
proof
  fix c st w r st' w'
  assume "hybrid_run y c st w = Inr (r, st', w')"
  then show "tr_call_id r = call_id c \<and> tr_tool r = tool c"
    by (cases y c st w rule: hybrid_run_cases) (auto dest: fs_run_ids split: prod.splits)
next
  fix c :: tool_call and st w
  assume "tool c = ''read''"
  then show "\<exists>r. hybrid_run y c st w = Inr (r, st, w)"
    by (cases y c st w rule: hybrid_run_cases) (auto simp: fs_run_def)
next
  fix c :: tool_call and st r and w w' :: world
  assume "tool c = ''read''" "ws w = ws w'" "hybrid_run y c st w = Inr (r, st, w)"
  then show "hybrid_run y c st w' = Inr (r, st, w')"
    by (auto simp: hybrid_run_def fs_run_def Let_def split: option.splits prod.splits if_splits)
qed

section \<open>Parallel reads\<close>

definition untimed :: "tool_result \<Rightarrow> tool_result" where
  "untimed r = r\<lparr>tr_started_at := None, tr_completed_at := None, tr_duration_ms := 0\<rparr>"

lemma untimed_with_order: "untimed (with_order i m r) = with_order i m (untimed r)"
  by (simp add: untimed_def with_order_def)

lemma untimed_simps [simp]:
  "tr_call_id (untimed r) = tr_call_id r" "tr_tool (untimed r) = tr_tool r" "tr_model_order (untimed r) = tr_model_order r"
  "tr_call_id (with_order i m r) = tr_call_id r" "tr_tool (with_order i m r) = tr_tool r" "tr_model_order (with_order i m r) = i"
  by (simp_all add: untimed_def with_order_def)

lemma abort_all_ids:
  "map tr_call_id (abort_all why i cs) = map call_id cs" "map tr_tool (abort_all why i cs) = map tool cs"
  "map tr_model_order (abort_all why i cs) = [i ..< i + length cs]"
  by (induction why i cs rule: abort_all.induct) (auto simp: aborted_result_def upt_rec)

text \<open>What the read \<open>c\<close> gives as the \<open>i\<close>-th call of the step.\<close>

definition read_result :: "scheduler \<Rightarrow> run_state \<Rightarrow> world \<Rightarrow> nat \<Rightarrow> tool_call \<Rightarrow> tool_result" where
  "read_result s st w i c = untimed (with_order i ''parallel'' (fst (run_one s c st w)))"

definition pool_inv :: "scheduler \<Rightarrow> nat \<Rightarrow> tool_call list \<Rightarrow> run_state \<Rightarrow> world \<Rightarrow> pool \<Rightarrow> bool" where
  "pool_inv s start_index grp st w p =
     (po_state p = st \<and> ws (po_world p) = ws w \<and> po_next p \<le> length grp \<and>
      distinct (po_flying p @ map fst (po_done p)) \<and> set (po_flying p) \<union> fst ` set (po_done p) = {..<po_next p} \<and>
      (\<forall>(i, r) \<in> set (po_done p). untimed r = read_result s st w (start_index + i) (grp ! i)))"

text \<open>One result per call, under its id, numbered in the order of the calls.\<close>

definition answers :: "nat \<Rightarrow> tool_call list \<Rightarrow> tool_result list \<Rightarrow> bool" where
  "answers i calls rs = (map tr_call_id rs = map call_id calls \<and> map tr_tool rs = map tool calls \<and> map tr_model_order rs = [i ..< i + length calls])"

text \<open>The calls of a group that are not back yet.\<close>

definition outstanding :: "tool_call list \<Rightarrow> pool \<Rightarrow> nat" where
  "outstanding grp p = length (po_flying p) + (length grp - po_next p)"

locale tool_scheduling = tool_contract run for run :: tool_runner +
  fixes s :: scheduler
  assumes runs: "sc_run s = run" and workers: "0 < sc_max_parallel s"
begin

lemma run_one_read:
  assumes "tool c = ''read''"
  obtains r w' where "run_one s c st w = (r, st, w')" "ws w' = ws w" "tr_call_id r = call_id c" "tr_tool r = tool c"
    "\<And>v. ws v = ws w \<Longrightarrow> untimed (fst (run_one s c st v)) = untimed r"
proof -
  obtain r where r: "run c st (tick w) = Inr (r, st, tick w)" using read_returns [OF assms] by blast
  have "run c st (tick v) = Inr (r, st, tick v)" if "ws v = ws w" for v
    using read_stable [OF assms _ r] that by (simp add: tick_def)
  with r run_id [OF r] that show thesis by (auto simp: run_one_def runs untimed_def tick_def)
qed

lemma pool_inv_new: "pool_inv s i grp st w (new_pool st w)"
  by (simp add: pool_inv_def new_pool_def)

lemma pool_inv_submit: "pool_inv s i grp st w p \<Longrightarrow> may_submit s grp p \<Longrightarrow> pool_inv s i grp st w (submit p)"
  by (auto simp: pool_inv_def submit_def may_submit_def lessThan_Suc)

lemma pool_inv_finish:
  assumes inv: "pool_inv s i grp st w p" and k: "k \<in> set (po_flying p)" and reads: "\<forall>c \<in> set grp. tool c = ''read''"
  shows "pool_inv s i grp st w (finish_call s i grp k p)"
proof -
  have "k < po_next p" "po_next p \<le> length grp" using inv k unfolding pool_inv_def by blast+
  then have "k < length grp" by simp
  then have "tool (grp ! k) = ''read''" using reads by simp
  then obtain r w' where r: "run_one s (grp ! k) st (po_world p) = (r, st, w')" "ws w' = ws w"
    "untimed (fst (run_one s (grp ! k) st w)) = untimed r"
    using inv by (elim run_one_read [of _ st "po_world p"]) (auto simp: pool_inv_def)
  have "untimed (with_order (i + k) ''parallel'' r) = read_result s st w (i + k) (grp ! k)"
    using r(3) by (simp add: read_result_def untimed_with_order)
  then show ?thesis
    using inv k r(1,2) unfolding pool_inv_def finish_call_def by (auto simp: set_remove1_eq distinct_remove1)
qed

lemma pool_inv_step:
  "pool_step s i grp p q \<Longrightarrow> pool_inv s i grp st w p \<Longrightarrow> \<forall>c \<in> set grp. tool c = ''read'' \<Longrightarrow> pool_inv s i grp st w q"
  by (induction rule: pool_step.induct) (auto intro: pool_inv_submit pool_inv_finish)

lemma pool_inv_reachable:
  "(pool_step s i grp)\<^sup>*\<^sup>* p q \<Longrightarrow> pool_inv s i grp st w p \<Longrightarrow> \<forall>c \<in> set grp. tool c = ''read'' \<Longrightarrow> pool_inv s i grp st w q"
  by (induction rule: rtranclp_induct) (auto intro: pool_inv_step)

text \<open>The results of a drained pool.\<close>

lemma drained_results:
  assumes inv: "pool_inv s i grp st w p" and dr: "drained s grp p"
  shows "map untimed (pool_results i grp p) =
    map (\<lambda>k. read_result s st w (i + k) (grp ! k)) [0 ..< po_next p] @
    map untimed (abort_all ''the step was aborted.'' (i + po_next p) (drop (po_next p) grp))"
proof -
  have dist: "distinct (map fst (po_done p))" and set: "set (map fst (po_done p)) = {..<po_next p}"
    using inv dr by (auto simp: pool_inv_def drained_def)
  have "sort (map fst (po_done p)) = [0 ..< po_next p]"
    by (rule sorted_distinct_set_unique) (use dist set in \<open>auto simp: atLeast_upt\<close>)
  moreover have "untimed (the (map_of (po_done p) k)) = read_result s st w (i + k) (grp ! k)" if "k < po_next p" for k
  proof -
    have "k \<in> fst ` set (po_done p)" using set that by auto
    then obtain r where "map_of (po_done p) k = Some r" by (metis map_of_eq_None_iff option.exhaust)
    moreover from this have "(k, r) \<in> set (po_done p)" by (rule map_of_SomeD)
    ultimately show ?thesis using inv by (auto simp: pool_inv_def)
  qed
  ultimately show ?thesis by (simp add: pool_results_def)
qed

lemma drained_running:
  "pool_inv s i grp st w p \<Longrightarrow> drained s grp p \<Longrightarrow> status st = ''running'' \<Longrightarrow> po_next p = length grp"
  using workers by (auto simp: pool_inv_def drained_def may_submit_def)

text \<open>The in-order schedule is one of them, and it drains the pool.\<close>

lemma fill_pool_steps: "(pool_step s i grp)\<^sup>*\<^sup>* p (fill_pool n s grp p)"
  by (induction n s grp p rule: fill_pool.induct) (auto intro: converse_rtranclp_into_rtranclp pool_step.Submit)

lemma fill_pool_full: "length grp - po_next p \<le> n \<Longrightarrow> \<not> may_submit s grp (fill_pool n s grp p)"
  by (induction n s grp p rule: fill_pool.induct) (auto simp: submit_def may_submit_def)

lemma outstanding_fill: "outstanding grp (fill_pool n s grp p) = outstanding grp p"
  by (induction n s grp p rule: fill_pool.induct) (auto simp: outstanding_def submit_def may_submit_def)

lemma outstanding_finish: "k \<in> set (po_flying p) \<Longrightarrow> outstanding grp (finish_call s i grp k p) < outstanding grp p"
  by (auto simp: outstanding_def finish_call_def length_remove1 split: prod.splits dest: length_pos_if_in_set)

lemma drain_pool_result:
  assumes "\<not> may_submit s grp p" "outstanding grp p < n"
  shows "(pool_step s i grp)\<^sup>*\<^sup>* p (drain_pool n s i grp p) \<and> drained s grp (drain_pool n s i grp p)"
  using assms
proof (induction n arbitrary: p)
  case (Suc n)
  show ?case
  proof (cases "po_flying p")
    case Nil
    with Suc.prems show ?thesis by (simp add: drained_def)
  next
    case (Cons k ks)
    let ?p = "finish_call s i grp k p"
    let ?q = "fill_pool (length grp) s grp ?p"
    have "pool_step s i grp p ?p" using Cons Suc.prems by (auto intro: pool_step.Finish)
    then have "(pool_step s i grp)\<^sup>*\<^sup>* p ?q" using fill_pool_steps by (blast intro: converse_rtranclp_into_rtranclp)
    moreover have "\<not> may_submit s grp ?q" by (rule fill_pool_full) simp
    moreover have "outstanding grp ?q < n" using outstanding_finish [of k p grp i] Cons Suc.prems by (simp add: outstanding_fill)
    ultimately show ?thesis using Suc.IH [of ?q] Cons by (auto intro: rtranclp_trans)
  qed
qed simp

lemma run_parallel_group_pool:
  obtains p where "(pool_step s i grp)\<^sup>*\<^sup>* (new_pool st w) p" "drained s grp p"
    "run_parallel_group s grp i st w = (pool_results i grp p, po_state p, po_world p)"
proof -
  let ?q = "fill_pool (length grp) s grp (new_pool st w)"
  have "outstanding grp ?q < Suc (length grp)" by (simp add: outstanding_fill) (simp add: outstanding_def new_pool_def)
  moreover have "\<not> may_submit s grp ?q" by (rule fill_pool_full) simp
  ultimately show thesis
    using that [of "drain_pool (Suc (length grp)) s i grp ?q"] drain_pool_result [of grp ?q "Suc (length grp)" i]
      fill_pool_steps [of i grp "new_pool st w" "length grp"]
    by (auto simp: run_parallel_group_def Let_def simp del: drain_pool.simps intro: rtranclp_trans)
qed

lemma run_one_ids: "run_one s c st w = (r, st', w') \<Longrightarrow> tr_call_id r = call_id c \<and> tr_tool r = tool c"
  using run_id [of c st "tick w"] by (auto simp: run_one_def runs split: sum.splits)

lemma answers_untimed: "answers i calls (map untimed rs) = answers i calls rs"
  by (simp add: answers_def comp_def)

lemma answers_append:
  "answers i xs rs \<Longrightarrow> answers (i + length xs) ys qs \<Longrightarrow> answers i (xs @ ys) (rs @ qs)"
  using upt_add_eq_append [of i "i + length xs" "length ys"] by (simp add: answers_def add.assoc)

lemma answers_reads:
  assumes "n \<le> length grp" "\<forall>c \<in> set grp. tool c = ''read''"
  shows "answers i (take n grp) (map (\<lambda>k. read_result s st w (i + k) (grp ! k)) [0 ..< n])"
proof -
  have "tr_call_id (read_result s st w j c) = call_id c \<and> tr_tool (read_result s st w j c) = tool c" for j c
    using run_one_ids [of c st w] by (cases "run_one s c st w") (simp add: read_result_def)
  moreover have "tr_model_order (read_result s st w j c) = j" for j c by (simp add: read_result_def)
  moreover have "take n grp = map ((!) grp) [0 ..< n]" using assms(1) by (intro nth_equalityI) simp_all
  moreover have "map (\<lambda>k. i + k) [0 ..< n] = [i ..< i + n]" by (rule nth_equalityI) simp_all
  ultimately show ?thesis using assms(1) by (simp add: answers_def comp_def)
qed

lemma group_answers:
  assumes "\<forall>c \<in> set grp. tool c = ''read''" "run_parallel_group s grp i st w = (rs, st', w')"
  shows "answers i grp rs \<and> st' = st"
proof -
  obtain p where p: "(pool_step s i grp)\<^sup>*\<^sup>* (new_pool st w) p" "drained s grp p"
    "run_parallel_group s grp i st w = (pool_results i grp p, po_state p, po_world p)" by (rule run_parallel_group_pool)
  have inv: "pool_inv s i grp st w p" using p(1) pool_inv_new assms(1) by (rule pool_inv_reachable)
  then have n: "po_next p \<le> length grp" "po_state p = st" by (simp_all add: pool_inv_def)
  have "answers (i + length (take (po_next p) grp)) (drop (po_next p) grp)
      (map untimed (abort_all ''the step was aborted.'' (i + po_next p) (drop (po_next p) grp)))"
    using n by (simp add: answers_untimed) (simp add: answers_def abort_all_ids)
  from answers_append [OF answers_reads [OF n(1) assms(1)] this] have "answers i grp (map untimed (pool_results i grp p))"
    unfolding drained_results [OF inv p(2)] by simp
  with p(3) assms(2) n(2) show ?thesis by (simp add: answers_untimed)
qed

lemma dispatch_from_answers: "dispatch_from s i calls st w = (rs, st', w') \<Longrightarrow> answers i calls rs"
proof (induction "length calls" arbitrary: i calls st w rs st' w' rule: less_induct)
  case less
  show ?case
  proof (cases calls)
    case Nil
    then show ?thesis using less.prems by (simp add: dispatch_from.simps answers_def)
  next
    case (Cons c cs)
    show ?thesis
    proof (cases "execution_mode c = ''exclusive''")
      case True
      obtain r st1 w1 where r: "run_one s c st w = (r, st1, w1)" by (rule prod_cases3)
      obtain rs2 st2 w2 where d: "dispatch_from s (Suc i) cs st1 w1 = (rs2, st2, w2)" by (rule prod_cases3)
      have one: "answers i [c] [with_order i ''exclusive'' r]" using run_one_ids [OF r] by (simp add: answers_def)
      have rest: "answers (Suc i) cs rs2" using less.hyps [OF _ d] Cons by simp
      have "answers (Suc i) cs (abort_all why (Suc i) cs)" for why by (simp add: answers_def abort_all_ids)
      with answers_append [OF one] rest have "answers i (c # cs) (with_order i ''exclusive'' r # rs2)"
        "answers i (c # cs) (with_order i ''exclusive'' r # abort_all why (Suc i) cs)" for why by simp_all
      then show ?thesis using less.prems Cons True by (auto simp: dispatch_from.simps [of s i "c # cs"] r d Let_def split: if_splits)
    next
      case False
      let ?g = "takeWhile (\<lambda>c. execution_mode c = ''parallel'') calls"
      obtain rs1 st1 w1 where g: "run_parallel_group s ?g i st w = (rs1, st1, w1)" by (rule prod_cases3)
      obtain rs2 st2 w2 where d: "dispatch_from s (i + length ?g) (drop (length ?g) calls) st1 w1 = (rs2, st2, w2)" by (rule prod_cases3)
      have reads: "\<forall>c \<in> set ?g. tool c = ''read''" by (auto dest!: set_takeWhileD simp: execution_mode_def split: if_splits)
      have "length (drop (length ?g) calls) < length calls" using Cons False by (simp add: execution_mode_def split: if_splits)
      then have "answers (i + length ?g) (drop (length ?g) calls) rs2" using less.hyps d by blast
      from answers_append [OF conjunct1 [OF group_answers [OF reads g]] this]
      have "answers i (?g @ drop (length ?g) calls) (rs1 @ rs2)" .
      moreover have "?g @ drop (length ?g) calls = calls" by (metis takeWhile_dropWhile_id dropWhile_eq_drop)
      ultimately have "answers i calls (rs1 @ rs2)" by (simp only:)
      moreover have "calls \<noteq> []" "execution_mode (hd calls) \<noteq> ''exclusive''" using Cons False by simp_all
      then have "dispatch_from s i calls st w = (rs1 @ rs2, st2, w2)"
        by (subst dispatch_from.simps) (simp only: if_False Let_def g d prod.case)
      ultimately show ?thesis using less.prems by simp
    qed
  qed
qed

end

interpretation hybrid_scheduling: tool_scheduling "hybrid_run y"
    "\<lparr>sc_run = hybrid_run y, sc_error_text = t, sc_now = n, sc_elapsed = m, sc_max_parallel = Suc k\<rparr>" for y t n m k
  by unfold_locales simp_all

section \<open>What the file tools change\<close>

lemma resolve_path_inside: "resolve_path f st v = Inr p \<Longrightarrow> inside (fs_root f st) p"
  by (auto simp: resolve_path_def Let_def split: json.splits if_splits)

lemma text_arg_Some: "text_arg v = Some x \<longleftrightarrow> v = JStr x \<and> x \<noteq> []"
  by (auto simp: text_arg_def split: json.splits)

lemma text_arg_None: "text_arg (JStr x) = None \<longleftrightarrow> x = []"
  by (simp add: text_arg_def)

lemma text_arg_hash [simp]: "text_arg v = Some (file_hash f c) \<longleftrightarrow> v = JStr (file_hash f c)"
  by (auto simp: text_arg_Some file_hash_def)

lemma atomic_write_Inr: "atomic_write f p c fs = Inr fs' \<longleftrightarrow> fs_write_refused f p fs = None \<and> fs' = fs(p \<mapsto> FileNode c)"
  by (auto simp: atomic_write_def split: option.splits)

lemma occurrences_split:
  "occurrences s p \<noteq> 0 \<Longrightarrow> \<exists>pre post. s = pre @ p @ post \<and> (\<forall>q. replace_text False s p q = pre @ q @ post)"
proof (induction s p rule: occurrences.induct)
  case (1 s p)
  then have ne: "s \<noteq> []" "p \<noteq> []" by (auto simp: occurrences.simps [of s p])
  show ?case
  proof (cases "startswith s p")
    case True
    then have "s = [] @ p @ drop (length p) s" by (simp add: startswith_prefix prefix_def) auto
    moreover have "replace_text False s p q = [] @ q @ drop (length p) s" for q using True ne by (simp add: replace_text.simps)
    ultimately show ?thesis by blast
  next
    case False
    with 1 ne obtain pre post where "tl s = pre @ p @ post" "\<forall>q. replace_text False (tl s) p q = pre @ q @ post"
      by (auto simp: occurrences.simps [of s p])
    with ne False have "s = (hd s # pre) @ p @ post \<and> (\<forall>q. replace_text False s p q = (hd s # pre) @ q @ post)"
      by (cases s) (simp_all add: replace_text.simps [of False "_ # _"])
    then show ?thesis by blast
  qed
qed

lemma fs_edit_Inr:
  assumes "fs_edit f st args fs = Inr (content, fs')"
  obtains p body old repl every where "resolve_path f st (jget args ''path'') = Inr p" "fs p = Some (FileNode body)"
    "jget args ''expected_hash'' = JStr (file_hash f body)" "jget args ''old_string'' = JStr old" "jget args ''new_string'' = JStr repl"
    "every = truthy (jget_or args ''replace_all'' (JBool False))" "occurrences (universal_newlines body) old \<noteq> 0"
    "every \<or> occurrences (universal_newlines body) old = 1"
    "fs' = fs(p \<mapsto> FileNode (replace_text every (universal_newlines body) old repl))"
proof -
  obtain p where p: "resolve_path f st (jget args ''path'') = Inr p"
    using assms by (cases "resolve_path f st (jget args ''path'')") (simp_all add: fs_edit_def)
  obtain body where b: "fs p = Some (FileNode body)"
    using assms p by (cases "fs p"; cases "the (fs p)") (simp_all add: fs_edit_def)
  have h: "jget args ''expected_hash'' = JStr (file_hash f body)"
    using assms p b by (cases "text_arg (jget args ''expected_hash'')") (auto simp: fs_edit_def text_arg_Some split: if_splits)
  then have h': "text_arg (jget args ''expected_hash'') = Some (file_hash f body)" by simp
  obtain old where o: "text_arg (jget args ''old_string'') = Some old"
    using assms p b h' by (cases "text_arg (jget args ''old_string'')") (simp_all add: fs_edit_def)
  obtain repl where r: "jget args ''new_string'' = JStr repl"
    using assms p b h' o by (cases "jget args ''new_string''") (simp_all add: fs_edit_def)
  have o': "jget args ''old_string'' = JStr old" using o by (simp add: text_arg_Some)
  show thesis
    using that [OF p b h o' r refl] assms by (auto simp: fs_edit_def Let_def p b h' o r atomic_write_Inr text_arg_Some split: if_splits)
qed

lemma fs_write_changes:
  assumes "fs_write f st args fs = (r, fs')" "fs' q \<noteq> fs q"
  shows "(fs q = None \<and> fs' q = Some DirNode) \<or>
     (\<exists>c. inside (fs_root f st) q \<and> (\<exists>d. r = Inr d) \<and> fs' q = Some (FileNode c) \<and>
        (fs q = None \<or> (\<exists>old. fs q = Some (FileNode old) \<and> jget args ''expected_hash'' = JStr (file_hash f old))))"
proof -
  have parents: "make_parents p fs q = fs q \<or> (fs q = None \<and> make_parents p fs q = Some DirNode)" for p by (auto simp: make_parents_def)
  show ?thesis
  proof (cases "resolve_path f st (jget args ''path'')")
    case (Inl x)
    then show ?thesis using assms by (simp add: fs_write_def)
  next
    case (Inr p)
    note ins = resolve_path_inside [OF Inr]
    show ?thesis
      using assms Inr ins parents [of p]
      by (auto simp: fs_write_def Let_def atomic_write_def text_arg_Some text_arg_None
          split: json.splits option.splits if_splits sum.splits fs_node.splits)
  qed
qed

definition sample_fs :: file_system where
  "sample_fs = \<lparr>fs_resolve = id, fs_cwd = ''/w'', fs_sha256 = id, fs_diff = (\<lambda>a b p. []), fs_mkdir_refused = (\<lambda>p fs. None),
     fs_write_refused = (\<lambda>p fs. None), fs_max_read_lines = 400, fs_max_read_chars = 30000\<rparr>"

definition sample_hybrid :: hybrid where
  "sample_hybrid = \<lparr>hy_fs = sample_fs, hy_runtime = None, hy_handler = None, hy_exec = disabled_run\<rparr>"

definition sample_scheduler :: scheduler where
  "sample_scheduler = \<lparr>sc_run = hybrid_run sample_hybrid, sc_error_text = exn_text, sc_now = (\<lambda>_. ''t''), sc_elapsed = (\<lambda>_. 0),
     sc_max_parallel = 4\<rparr>"

definition sample_read :: "string \<Rightarrow> string \<Rightarrow> tool_call" where
  "sample_read i p = \<lparr>call_id = i, tool = ''read'', arguments = [(''path'', JStr p)]\<rparr>"

definition sample_args :: jdict where
  "sample_args = [(''path'', JStr ''a''), (''expected_hash'', JStr (''sha256:x'' @ [CHR 0x0D, nl] @ ''y'')),
     (''old_string'', JStr ''y''), (''new_string'', JStr ''z'')]"

definition sample_files :: ws_files where
  "sample_files = (\<lambda>_. None)(''/w/a'' \<mapsto> FileNode (''x'' @ [CHR 0x0D, nl] @ ''y''))"

lemma sample_edit:
  "\<exists>content. fs_edit sample_fs sample_state sample_args sample_files =
     Inr (content, sample_files(''/w/a'' \<mapsto> FileNode (''x'' @ [nl] @ ''z'')))"
  "resolve_path sample_fs sample_state (jget sample_args ''path'') = Inr ''/w/a''"
  "universal_newlines (''x'' @ [CHR 0x0D, nl] @ ''y'') = ''x'' @ [nl] @ ''y''"
  "fs_root sample_fs sample_state = ''/w''"
proof -
  have args: "jget sample_args ''path'' = JStr ''a''" "jget sample_args ''expected_hash'' = JStr (''sha256:x'' @ [CHR 0x0D, nl] @ ''y'')"
    "jget sample_args ''old_string'' = JStr ''y''" "jget sample_args ''new_string'' = JStr ''z''"
    "jget_or sample_args ''replace_all'' (JBool False) = JBool False" by (simp_all add: sample_args_def jget_def jget_or_def)
  show root: "fs_root sample_fs sample_state = ''/w''" by (simp add: fs_root_def sample_fs_def sample_state_def start_state_def)
  have "posix_parts ''a'' = [''a'']" "replace_char bsl (CHR ''/'') ''a'' = ''a''" "\<not> blank ''a''" by code_simp+
  then show path: "resolve_path sample_fs sample_state (jget sample_args ''path'') = Inr ''/w/a''"
    by (simp add: resolve_path_def args root path_join_def inside_def) (simp add: sample_fs_def)
  show un: "universal_newlines (''x'' @ [CHR 0x0D, nl] @ ''y'') = ''x'' @ [nl] @ ''y''" by code_simp
  have "occurrences (''x'' @ [nl] @ ''y'') ''y'' = 1" "replace_text False (''x'' @ [nl] @ ''y'') ''y'' ''z'' = ''x'' @ [nl] @ ''z''" by code_simp+
  moreover have "file_hash sample_fs c = ''sha256:'' @ c" "fs_write_refused sample_fs p fs = None" for c p fs
    by (simp_all add: file_hash_def sample_fs_def)
  moreover have "sample_files ''/w/a'' = Some (FileNode (''x'' @ [CHR 0x0D, nl] @ ''y''))" by (simp add: sample_files_def)
  ultimately show "\<exists>content. fs_edit sample_fs sample_state sample_args sample_files =
     Inr (content, sample_files(''/w/a'' \<mapsto> FileNode (''x'' @ [nl] @ ''z'')))"
    unfolding fs_edit_def path using un by (simp add: args text_arg_def Let_def atomic_write_def)
qed

section \<open>Properties\<close>

text \<open>A step of tool calls is answered completely and in order: whatever the calls are and do,
  dispatching them gives exactly one result per call, with its id and tool, numbered in the order
  of the model, also when a call raises, is refused, or stops the step.\<close>

theorem dispatch_answers:
  assumes "sc_run s = hybrid_run y" "0 < sc_max_parallel s" "dispatch s calls st w = (rs, st', w')"
  shows "map tr_call_id rs = map call_id calls \<and> map tr_tool rs = map tool calls \<and> map tr_model_order rs = [0 ..< length calls]"
proof -
  have "tool_scheduling (hybrid_run y) s"
    by (intro tool_scheduling.intro tool_scheduling_axioms.intro hybrid_tools.tool_contract_axioms assms(1,2))
  from tool_scheduling.dispatch_from_answers [OF this] assms(3) show ?thesis by (simp add: dispatch_def answers_def)
qed

theorem dispatch_answers_witness:
  "map tr_call_id (fst (dispatch sample_scheduler [sample_read ''1'' ''a'', \<lparr>call_id = ''2'', tool = ''bash'', arguments = []\<rparr>] sample_state empty_world))
     = [''1'', ''2'']"
  by (cases "dispatch sample_scheduler [sample_read ''1'' ''a'', \<lparr>call_id = ''2'', tool = ''bash'', arguments = []\<rparr>] sample_state empty_world")
    (use dispatch_answers [of sample_scheduler sample_hybrid] in \<open>auto simp: sample_scheduler_def sample_read_def\<close>)

text \<open>C34: interleaving. However the threads of a group of reads are scheduled, when the pool is
  drained the run state and the files are as before and the results, up to their time stamps, are
  those of the sequential schedule.\<close>

theorem parallel_reads_deterministic:
  assumes "sc_run s = hybrid_run y" "0 < sc_max_parallel s" "\<forall>c \<in> set grp. tool c = ''read''" "status st = ''running''"
    and "(pool_step s i grp)\<^sup>*\<^sup>* (new_pool st w) p" "drained s grp p"
  shows "map untimed (pool_results i grp p) = map untimed (fst (run_parallel_group s grp i st w)) \<and>
    length (pool_results i grp p) = length grp \<and> po_state p = st \<and> ws (po_world p) = ws w"
proof -
  have ts: "tool_scheduling (hybrid_run y) s"
    by (intro tool_scheduling.intro tool_scheduling_axioms.intro hybrid_tools.tool_contract_axioms assms(1,2))
  obtain q where q: "(pool_step s i grp)\<^sup>*\<^sup>* (new_pool st w) q" "drained s grp q"
    "run_parallel_group s grp i st w = (pool_results i grp q, po_state q, po_world q)"
    by (rule tool_scheduling.run_parallel_group_pool [OF ts])
  have inv: "pool_inv s i grp st w r" if "(pool_step s i grp)\<^sup>*\<^sup>* (new_pool st w) r" for r
    using tool_scheduling.pool_inv_reachable [OF ts that tool_scheduling.pool_inv_new [OF ts] assms(3)] .
  have res: "map untimed (pool_results i grp r) = map (\<lambda>k. read_result s st w (i + k) (grp ! k)) [0 ..< length grp]"
    if "(pool_step s i grp)\<^sup>*\<^sup>* (new_pool st w) r" "drained s grp r" for r
    using tool_scheduling.drained_results [OF ts inv [OF that(1)] that(2)]
      tool_scheduling.drained_running [OF ts inv [OF that(1)] that(2) assms(4)] by simp
  have "length (pool_results i grp p) = length grp" using arg_cong [OF res [OF assms(5,6)], of length] by simp
  then show ?thesis using res [OF assms(5,6)] res [OF q(1,2)] q(3) inv [OF assms(5)] by (simp add: pool_inv_def)
qed

theorem parallel_reads_deterministic_witness:
  "let grp = [sample_read ''1'' ''a'', sample_read ''2'' ''b''];
       p = finish_call sample_scheduler 0 grp 0 (finish_call sample_scheduler 0 grp 1 (submit (submit (new_pool sample_state empty_world))))
   in map untimed (pool_results 0 grp p) = map untimed (fst (run_parallel_group sample_scheduler grp 0 sample_state empty_world))"
proof -
  let ?grp = "[sample_read ''1'' ''a'', sample_read ''2'' ''b'']"
  let ?p0 = "new_pool sample_state empty_world"
  let ?p2 = "submit (submit ?p0)"
  let ?p3 = "finish_call sample_scheduler 0 ?grp 1 ?p2"
  let ?p4 = "finish_call sample_scheduler 0 ?grp 0 ?p3"
  have m: "sc_max_parallel sample_scheduler = 4" by (simp add: sample_scheduler_def)
  have "pool_step sample_scheduler 0 ?grp ?p0 (submit ?p0)" "pool_step sample_scheduler 0 ?grp (submit ?p0) ?p2"
    by (rule pool_step.Submit, simp add: may_submit_def new_pool_def submit_def m)+
  moreover have "pool_step sample_scheduler 0 ?grp ?p2 ?p3"
    by (rule pool_step.Finish) (simp_all add: may_submit_def new_pool_def submit_def m)
  moreover have "pool_step sample_scheduler 0 ?grp ?p3 ?p4"
    by (rule pool_step.Finish) (simp_all add: finish_call_def new_pool_def submit_def split: prod.splits)
  ultimately have steps: "(pool_step sample_scheduler 0 ?grp)\<^sup>*\<^sup>* ?p0 ?p4" by (meson r_into_rtranclp rtranclp_trans)
  have dr: "drained sample_scheduler ?grp ?p4"
    by (simp add: drained_def may_submit_def finish_call_def new_pool_def submit_def split: prod.splits)
  have "status sample_state = ''running''" by (simp add: sample_state_def start_state_def)
  from parallel_reads_deterministic [OF _ _ _ this steps dr, of sample_hybrid] show ?thesis
    by (simp add: Let_def m) (simp add: sample_scheduler_def sample_read_def)
qed

text \<open>C35: confinement and optimistic locking. A path whose content a file tool changes either becomes
  a new directory, or is a file inside the workspace that the successful call has written and that
  either did not exist or was overwritten by a caller who named the hash of its current content.\<close>

theorem file_tools_confined:
  assumes "fs_run f c st fs = (r, fs')" "fs' q \<noteq> fs q"
  shows "(fs q = None \<and> fs' q = Some DirNode) \<or>
     (\<exists>content. tool c \<in> {''edit'', ''write''} \<and> \<not> tr_is_error r \<and> inside (fs_root f st) q \<and> fs' q = Some (FileNode content) \<and>
        (fs q = None \<or> (\<exists>old. fs q = Some (FileNode old) \<and> jget (arguments c) ''expected_hash'' = JStr (file_hash f old))))"
proof -
  consider (on_edit) content where "tool c = ''edit''" "fs_edit f st (arguments c) fs = Inr (content, fs')" "\<not> tr_is_error r"
    | (on_write) x where "tool c = ''write''" "fs_write f st (arguments c) fs = (x, fs')" "r = tool_outcome c x"
    using assms by (auto simp: fs_run_def Let_def tool_outcome_def tool_result_of_def split: if_splits sum.splits prod.splits)
  then show ?thesis
  proof cases
    case on_edit
    from on_edit(2) obtain p body old repl every where e: "resolve_path f st (jget (arguments c) ''path'') = Inr p" "fs p = Some (FileNode body)"
      "jget (arguments c) ''expected_hash'' = JStr (file_hash f body)"
      "fs' = fs(p \<mapsto> FileNode (replace_text every (universal_newlines body) old repl))"
      by (rule fs_edit_Inr)
    with assms(2) resolve_path_inside [OF e(1)] on_edit(1,3) show ?thesis by (auto split: if_splits)
  next
    case on_write
    from fs_write_changes [OF on_write(2) assms(2)] on_write show ?thesis
      by (auto simp: tool_outcome_def tool_result_of_def)
  qed
qed

theorem file_tools_confined_witness:
  "inside (fs_root sample_fs sample_state) ''/w/a'' \<and>
   \<not> tr_is_error (fst (fs_run sample_fs \<lparr>call_id = ''1'', tool = ''edit'', arguments = sample_args\<rparr> sample_state sample_files))"
proof -
  let ?c = "\<lparr>call_id = ''1'', tool = ''edit'', arguments = sample_args\<rparr>"
  obtain r where r: "fs_run sample_fs ?c sample_state sample_files = (r, sample_files(''/w/a'' \<mapsto> FileNode (''x'' @ [nl] @ ''z'')))"
    using sample_edit(1) by (auto simp: fs_run_def)
  have "sample_files ''/w/a'' = Some (FileNode (''x'' @ [CHR 0x0D, nl] @ ''y''))" by (simp add: sample_files_def)
  with file_tools_confined [OF r, of "''/w/a''"] show ?thesis unfolding r by simp
qed

text \<open>What an edit does. A successful edit without \<^verbatim>\<open>replace_all\<close> of a file with text \<open>t\<close> replaces the
  first occurrence of the old string in the text with translated line ends, and changes nothing
  else.\<close>

theorem edit_replaces_passage:
  assumes "fs_edit f st args fs = Inr (content, fs')" "\<not> truthy (jget_or args ''replace_all'' (JBool False))"
  shows "\<exists>p t old repl pre post. resolve_path f st (jget args ''path'') = Inr p \<and> fs p = Some (FileNode t) \<and>
     jget args ''old_string'' = JStr old \<and> jget args ''new_string'' = JStr repl \<and>
     universal_newlines t = pre @ old @ post \<and> fs' = fs(p \<mapsto> FileNode (pre @ repl @ post))"
proof -
  from assms(1) obtain p body old repl every where e: "resolve_path f st (jget args ''path'') = Inr p" "fs p = Some (FileNode body)"
    "jget args ''old_string'' = JStr old" "jget args ''new_string'' = JStr repl"
    "every = truthy (jget_or args ''replace_all'' (JBool False))" "occurrences (universal_newlines body) old \<noteq> 0"
    "fs' = fs(p \<mapsto> FileNode (replace_text every (universal_newlines body) old repl))" by (rule fs_edit_Inr)
  from occurrences_split [OF e(6)] obtain pre post where "universal_newlines body = pre @ old @ post"
    "\<forall>q. replace_text False (universal_newlines body) old q = pre @ q @ post" by blast
  with e assms(2) show ?thesis by auto
qed

theorem edit_replaces_passage_witness:
  "\<exists>content fs'. fs_edit sample_fs sample_state sample_args sample_files = Inr (content, fs') \<and>
     (\<exists>pre post. ''x'' @ [nl] @ ''y'' = pre @ ''y'' @ post \<and> fs' ''/w/a'' = Some (FileNode (pre @ ''z'' @ post)))"
proof -
  obtain content fs' where e: "fs_edit sample_fs sample_state sample_args sample_files = Inr (content, fs')" using sample_edit(1) by blast
  have np: "\<not> truthy (jget_or sample_args ''replace_all'' (JBool False))" by (simp add: sample_args_def jget_or_def)
  from edit_replaces_passage [OF e np] sample_edit(2,3) show ?thesis
    unfolding e by (auto simp: sample_files_def sample_args_def jget_def) blast
qed

text \<open>An edit rewrites the whole file's line ends. The text is read with translated line ends and
  written without translation back, so replacing one letter of a file with \<^verbatim>\<open>CR LF\<close> line ends leaves
  it with \<^verbatim>\<open>LF\<close> line ends.\<close>

theorem edit_changes_line_ends:
  "sample_files ''/w/a'' = Some (FileNode (''x'' @ [CHR 0x0D, nl] @ ''y'')) \<and>
   (case fs_edit sample_fs sample_state sample_args sample_files of
      Inr (content, fs') \<Rightarrow> fs' ''/w/a'' = Some (FileNode (''x'' @ [nl] @ ''z'')) | Inl _ \<Rightarrow> False)"
  using sample_edit(1) by (auto simp: sample_files_def)

end
