(* ===== verification/Workflow.thy ===== *)
theory Workflow
  imports Runtime
begin

text \<open>
  Workflows of child runs (\<^verbatim>\<open>multi_agent.py\<close>): the validation of a delegation against its parent, the
  coordinator that runs the tasks in dependency order, readers side by side and one writer at a time
  under the write lease, the two providers of child runs, and the child's side of the transport.

  What a child does is an argument: a function on a world of any type, which also tells when the run
  is cancelled and in which order the children of a batch finish. Results: a child is started only
  after everything it depends on has completed; every run of the coordinator ends; the lease is free
  afterwards; and the answer of a complete workflow is complete, one result per task in their order.
\<close>

section \<open>Results of children\<close>

record child_result =
  ch_task_id :: string
  ch_run_id :: string
  ch_status :: string
  ch_role :: string
  ch_summary :: string
  ch_findings :: "json list"
  ch_artifacts :: "json list"
  ch_usage :: jdict
  ch_failure :: json

definition child_result_of :: "delegate_task \<Rightarrow> string \<Rightarrow> string \<Rightarrow> json \<Rightarrow> child_result" where
  "child_result_of t cid stat failure =
     \<lparr>ch_task_id = dt_id t, ch_run_id = cid, ch_status = stat, ch_role = dt_role t, ch_summary = [], ch_findings = [],
      ch_artifacts = [], ch_usage = [], ch_failure = failure\<rparr>"

definition code_failure :: "string \<Rightarrow> json" where
  "code_failure c = JDict [(''code'', JStr c)]"

definition child_result_dict :: "child_result \<Rightarrow> jdict" where
  "child_result_dict r =
     [(''task_id'', JStr (ch_task_id r)), (''child_run_id'', JStr (ch_run_id r)), (''status'', JStr (ch_status r)),
      (''role'', JStr (ch_role r)), (''summary'', JStr (ch_summary r)), (''findings'', JList (ch_findings r)),
      (''artifacts'', JList (ch_artifacts r)), (''usage'', JDict (ch_usage r)), (''failure'', ch_failure r)]"

record workflow_result =
  wf_id :: string
  wf_status :: string
  wf_results :: "child_result list"
  wf_max_concurrent :: nat
  wf_failure :: json

definition summary_observation :: "workflow_result \<Rightarrow> jdict" where
  "summary_observation w =
     [(''kind'', JStr ''workflow_summary_observation''), (''workflow_id'', JStr (wf_id w)), (''status'', JStr (wf_status w)),
      (''results'', JList (map (JDict \<circ> child_result_dict) (wf_results w)))]"

section \<open>Validation\<close>

definition max_delegate_depth :: nat where "max_delegate_depth = 4"

definition validate_task :: "child_capabilities \<Rightarrow> delegate_task \<Rightarrow> unit result" where
  "validate_task parent t =
     bind_res (for_profile (dt_profile t)) (\<lambda>child.
       if \<not> set (cc_tools child) \<subseteq> set (cc_tools parent) then
         Inl (ValueError (''delegate task '' @ repr_str (dt_id t) @ '' requests capability above parent profile''))
       else if dt_role t \<in> {''scout'', ''planner'', ''reviewer''} \<and> \<not> cc_read_only child then
         Inl (ValueError (''read-only role '' @ repr_str (dt_role t) @ '' must use a read-only capability profile''))
       else if dt_role t = ''worker'' \<and> dt_profile t \<noteq> ''worker'' then
         Inl (ValueError ''worker tasks must use the worker capability profile'')
       else Inr ())"

definition validate_delegate :: "delegate_task list \<Rightarrow> string \<Rightarrow> nat \<Rightarrow> nat \<Rightarrow> unit result" where
  "validate_delegate ts parent_profile depth max_depth =
     (if max_depth \<le> depth then Inl (ValueError ''delegate exceeds the maximum workflow depth'')
      else bind_res (for_profile parent_profile) (\<lambda>parent. bind_res (mapM_res (validate_task parent) ts) (\<lambda>_. Inr ())))"

section \<open>The coordinator\<close>

text \<open>Who asks for a child: the parent run, the root run and the workflow.\<close>

record request =
  rq_parent :: string
  rq_root :: string
  rq_workflow :: string

record 'w coordinator =
  co_run :: "delegate_task \<Rightarrow> request \<Rightarrow> 'w \<Rightarrow> child_result result \<times> 'w"
  co_cancelled :: "'w \<Rightarrow> bool" \<comment> \<open>\<^verbatim>\<open>cancel is not None and cancel.is_set()\<close>\<close>
  co_fresh :: "'w \<Rightarrow> string \<times> 'w" \<comment> \<open>a fresh id for a child that never starts\<close>
  co_order :: "delegate_task list \<Rightarrow> 'w \<Rightarrow> delegate_task list" \<comment> \<open>the order in which a batch finishes\<close>
  co_max :: nat

definition run_task :: "'w coordinator \<Rightarrow> request \<Rightarrow> delegate_task \<Rightarrow> lease \<Rightarrow> 'w \<Rightarrow> child_result result \<times> lease \<times> 'w" where
  "run_task c q t l w =
     (if dt_role t = ''worker'' then
        (case acquire (rq_parent q) (dt_id t) l of
           (None, l1) \<Rightarrow> (let (cid, w1) = co_fresh c w in (Inr (child_result_of t cid ''failed'' (code_failure ''WRITE_LEASE_DENIED'')), l1, w1))
         | (Some epoch, l1) \<Rightarrow>
             (let (r, w1) = co_run c t q w; (_, l2) = release (rq_parent q) (dt_id t) (Some epoch) l1 in (r, l2, w1)))
      else (let (r, w1) = co_run c t q w in (r, l, w1)))"

text \<open>All children of a batch run to their end, also when one of them raises.\<close>

fun run_batch :: "'w coordinator \<Rightarrow> request \<Rightarrow> delegate_task list \<Rightarrow> lease \<Rightarrow> 'w \<Rightarrow> (delegate_task \<times> child_result result) list \<times> lease \<times> 'w" where
  "run_batch c q [] l w = ([], l, w)"
| "run_batch c q (t # ts) l w =
     (let (r, l1, w1) = run_task c q t l w; (rs, l2, w2) = run_batch c q ts l1 w1 in ((t, r) # rs, l2, w2))"

text \<open>Collecting the results in the order of completion; the first exception is raised.\<close>

fun collect_batch :: "(delegate_task \<times> child_result result) list \<Rightarrow> (string \<times> child_result) list \<Rightarrow> (string \<times> child_result) list result" where
  "collect_batch [] res = Inr res"
| "collect_batch ((t, Inl err) # rs) res = Inl err"
| "collect_batch ((t, Inr r) # rs) res = collect_batch rs (AList.update (dt_id t) r res)"

definition dict_tasks :: "delegate_task list \<Rightarrow> (string \<times> delegate_task) list" where
  "dict_tasks ts = fold (\<lambda>t d. AList.update (dt_id t) t d) ts []"

definition done_with :: "(string \<times> child_result) list \<Rightarrow> string \<Rightarrow> bool" where
  "done_with res i = (case map_of res i of Some r \<Rightarrow> ch_status r = ''completed'' | None \<Rightarrow> False)"

definition ready_tasks :: "(string \<times> delegate_task) list \<Rightarrow> string list \<Rightarrow> (string \<times> child_result) list \<Rightarrow> delegate_task list" where
  "ready_tasks tasks started res =
     filter (\<lambda>t. dt_id t \<notin> set started \<and> list_all (done_with res) (dt_depends_on t)) (map snd tasks)"

definition next_batch :: "nat \<Rightarrow> delegate_task list \<Rightarrow> delegate_task list" where
  "next_batch m ready =
     (let readers = take m (filter (\<lambda>t. dt_role t \<noteq> ''worker'') ready)
      in if readers = [] then take 1 (filter (\<lambda>t. dt_role t = ''worker'') ready) else readers)"

text \<open>The results of tasks that are not run any more.\<close>

fun mark_rest :: "'w coordinator \<Rightarrow> string \<Rightarrow> string \<Rightarrow> delegate_task list \<Rightarrow> (string \<times> child_result) list \<Rightarrow> 'w \<Rightarrow> (string \<times> child_result) list \<times> 'w" where
  "mark_rest c stat code [] res w = (res, w)"
| "mark_rest c stat code (t # ts) res w =
     (if map_of res (dt_id t) \<noteq> None then mark_rest c stat code ts res w
      else (let (cid, w1) = co_fresh c w
            in mark_rest c stat code ts (AList.update (dt_id t) (child_result_of t cid stat (code_failure code)) res) w1))"

definition finish_workflow :: "request \<Rightarrow> delegate_task list \<Rightarrow> (string \<times> child_result) list \<Rightarrow> nat \<Rightarrow> workflow_result" where
  "finish_workflow q ts res m =
     (let ordered = map (\<lambda>t. the (map_of res (dt_id t))) ts
      in \<lparr>wf_id = rq_workflow q, wf_status = (if list_all (\<lambda>r. ch_status r = ''completed'') ordered then ''completed'' else ''failed''),
          wf_results = ordered, wf_max_concurrent = m, wf_failure = JNull\<rparr>)"

definition blocked_workflow :: "request \<Rightarrow> (string \<times> child_result) list \<Rightarrow> nat \<Rightarrow> workflow_result" where
  "blocked_workflow q res m =
     \<lparr>wf_id = rq_workflow q, wf_status = ''failed'', wf_results = map snd res, wf_max_concurrent = m, wf_failure = code_failure ''DEPENDENCY_BLOCKED''\<rparr>"

function workflow_loop ::
  "'w coordinator \<Rightarrow> request \<Rightarrow> string \<Rightarrow> delegate_task list \<Rightarrow> (string \<times> child_result) list \<Rightarrow> string list \<Rightarrow> nat \<Rightarrow> lease \<Rightarrow> 'w \<Rightarrow>
   workflow_result result \<times> lease \<times> 'w" where
  "workflow_loop c q jn ts res started m l w =
     (let tasks = dict_tasks ts
      in if length tasks \<le> length res then (Inr (finish_workflow q ts res m), l, w)
         else if co_cancelled c w then
           (let (res1, w1) = mark_rest c ''aborted_before_dispatch'' ''CANCELLED'' (map snd tasks) res w
            in (Inr (finish_workflow q ts res1 m), l, w1))
         else
           (let ready = ready_tasks tasks started res; batch = next_batch (co_max c) ready
            in if ready = [] then (Inr (blocked_workflow q res m), l, w)
               else if min (co_max c) (length batch) = 0 then (Inl (ValueError ''max_workers must be greater than 0''), l, w)
               else
                 (let (rs, l1, w1) = run_batch c q (co_order c batch w) l w
                  in case collect_batch rs res of
                       Inl err \<Rightarrow> (Inl err, l1, w1)
                     | Inr res1 \<Rightarrow>
                         if jn = ''any'' \<and> list_ex (\<lambda>(i, r). ch_status r = ''completed'') res1 then
                           (let (res2, w2) = mark_rest c ''cancelled'' ''JOIN_ANY'' (map snd tasks) res1 w1
                            in (Inr (finish_workflow q ts res2 (max m (length batch))), l1, w2))
                         else workflow_loop c q jn ts res1 (started @ map dt_id batch) (max m (length batch)) l1 w1)))"
  by pat_completeness auto

definition not_started :: "delegate_task list \<Rightarrow> string list \<Rightarrow> delegate_task list" where
  "not_started ts started = filter (\<lambda>t. dt_id t \<notin> set started) (map snd (dict_tasks ts))"

lemma next_batch_subset: "set (next_batch m ready) \<subseteq> set ready"
  by (auto simp: next_batch_def Let_def split: if_splits dest: in_set_takeD)

lemma fewer_left:
  assumes "next_batch m (ready_tasks (dict_tasks ts) started res) = b" "b \<noteq> []"
  shows "length (not_started ts (started @ map dt_id b)) < length (not_started ts started)"
proof -
  obtain t where t: "t \<in> set b" using assms(2) by fastforce
  then have "t \<in> set (ready_tasks (dict_tasks ts) started res)" using next_batch_subset assms(1) by blast
  then have "t \<in> set (not_started ts started)" by (auto simp: ready_tasks_def not_started_def)
  moreover have "not_started ts (started @ map dt_id b) = filter (\<lambda>t. dt_id t \<notin> dt_id ` set b) (not_started ts started)"
    by (auto simp: not_started_def intro!: filter_cong)
  ultimately show ?thesis using t by (simp add: length_filter_less)
qed

termination workflow_loop
  by (relation "measure (\<lambda>(c, q, jn, ts, res, started, m, l, w). length (not_started ts started))") (auto intro: fewer_left)

declare workflow_loop.simps [simp del]

definition execute_workflow :: "'w coordinator \<Rightarrow> request \<Rightarrow> string \<Rightarrow> delegate_task list \<Rightarrow> lease \<Rightarrow> 'w \<Rightarrow> workflow_result result \<times> lease \<times> 'w" where
  "execute_workflow c q jn ts l w =
     (case validate_delegate ts ''root'' 0 max_delegate_depth of
        Inl err \<Rightarrow> (Inl err, l, w)
      | Inr _ \<Rightarrow> workflow_loop c q jn ts [] [] 0 l w)"

section \<open>Running a child in the process\<close>

text \<open>\<^verbatim>\<open>tuple(v)\<close> and \<^verbatim>\<open>dict(v)\<close>, which takes a sequence of pairs too; keys of such
  pairs are strings here (Python also takes numbers and \<^verbatim>\<open>None\<close>).\<close>

definition as_tuple :: "json \<Rightarrow> json list result" where
  "as_tuple v =
     (case v of JList xs \<Rightarrow> Inr xs | JStr x \<Rightarrow> Inr (map (\<lambda>c. JStr [c]) x) | JDict d \<Rightarrow> Inr (map (JStr \<circ> fst) d) | _ \<Rightarrow> Inl TypeError)"

definition dict_pair :: "nat \<times> json \<Rightarrow> (string \<times> json) result" where
  "dict_pair = (\<lambda>(i, v). bind_res (as_tuple v) (\<lambda>p.
     case p of
       [JStr k, x] \<Rightarrow> Inr (k, x)
     | [_, _] \<Rightarrow> Inl TypeError
     | _ \<Rightarrow> Inl (ValueError (''dictionary update sequence element #'' @ str_nat i @ '' has length '' @ str_nat (length p) @ ''; 2 is required''))))"

definition as_dict :: "json \<Rightarrow> jdict result" where
  "as_dict v =
     (case v of
        JDict d \<Rightarrow> Inr d
      | _ \<Rightarrow> bind_res (as_tuple v) (\<lambda>xs. bind_res (mapM_res dict_pair (enumerate 0 xs)) (\<lambda>ps. Inr (fold (\<lambda>(k, x). AList.update k x) ps []))))"

definition child_result_from :: "delegate_task \<Rightarrow> string \<Rightarrow> string \<Rightarrow> jdict \<Rightarrow> child_result result" where
  "child_result_from t cid default_status d =
     bind_res (as_tuple (jget_or d ''findings'' (JList []))) (\<lambda>fs. bind_res (as_tuple (jget_or d ''artifacts'' (JList []))) (\<lambda>as.
     bind_res (as_dict (jget_or d ''usage'' (JDict []))) (\<lambda>u.
       Inr \<lparr>ch_task_id = dt_id t, ch_run_id = cid, ch_status = py_str (jget_or d ''status'' (JStr default_status)), ch_role = dt_role t,
            ch_summary = py_str (jget_or d ''summary'' (JStr [])), ch_findings = fs, ch_artifacts = as, ch_usage = u,
            ch_failure = jget d ''failure''\<rparr>)))"

text \<open>The handler is the caller's; its world, the cancellation and the fresh ids are arguments.\<close>

definition in_process_run ::
  "(delegate_task \<Rightarrow> request \<Rightarrow> 'w \<Rightarrow> (child_result + jdict) result \<times> 'w) \<Rightarrow> ('w \<Rightarrow> bool) \<Rightarrow> ('w \<Rightarrow> string \<times> 'w) \<Rightarrow> (exn \<Rightarrow> string) \<Rightarrow>
   delegate_task \<Rightarrow> request \<Rightarrow> 'w \<Rightarrow> child_result result \<times> 'w" where
  "in_process_run handler cancelled fresh error_text t q w =
     (let (cid, w1) = fresh w
      in if cancelled w1 then (Inr (child_result_of t cid ''cancelled'' (code_failure ''CANCELLED'')), w1)
         else
           (let (raw, w2) = handler t q w1;
                failed = (\<lambda>err. child_result_of t cid ''failed'' (JDict [(''code'', JStr ''CHILD_ERROR''), (''message'', JStr (error_text err))]))
            in (case raw of
                  Inl err \<Rightarrow> Inr (failed err)
                | Inr (Inl r) \<Rightarrow> Inr r
                | Inr (Inr d) \<Rightarrow> (case child_result_from t cid ''completed'' d of Inr r \<Rightarrow> Inr r | Inl err \<Rightarrow> Inr (failed err)), w2)))"

definition default_child :: "delegate_task \<Rightarrow> jdict" where
  "default_child t = [(''status'', JStr ''completed''), (''summary'', JStr (''Child '' @ dt_role t @ '' completed: '' @ dt_goal t))]"

section \<open>Running a child in a process of its own\<close>

definition child_request :: "delegate_task \<Rightarrow> request \<Rightarrow> string \<Rightarrow> bool \<Rightarrow> jdict" where
  "child_request t q cid use_model =
     [(''type'', JStr ''child_start''), (''protocol_version'', JInt 1), (''root_run_id'', JStr (rq_root q)),
      (''parent_run_id'', JStr (rq_parent q)), (''child_run_id'', JStr cid), (''workflow_id'', JStr (rq_workflow q)),
      (''task'', delegate_task_json t), (''execute_model'', JBool use_model)]"

text \<open>One round of the reading loop: whether the run is cancelled, whether the deadline has passed, and
  the line read (empty at the end of the output).\<close>

type_synonym read_round = "bool \<times> bool \<times> string"

fun read_child_events :: "delegate_task \<Rightarrow> string \<Rightarrow> read_round list \<Rightarrow> jdict list \<Rightarrow> (child_result + jdict list) result" where
  "read_child_events t cid [] events = Inr (Inr events)"
| "read_child_events t cid ((cancelled, late, line) # rounds) events =
     (if cancelled then Inr (Inl (child_result_of t cid ''cancelled'' (code_failure ''CANCELLED'')))
      else if late then Inr (Inl (child_result_of t cid ''timeout'' (code_failure ''TIMEOUT'')))
      else if line = [] then Inr (Inr events)
      else (case json_loads line of
              Inl (JSONDecodeError _) \<Rightarrow> Inr (Inl (child_result_of t cid ''failed'' (code_failure ''INVALID_EVENT'')))
            | Inl err \<Rightarrow> Inl err
            | Inr (JDict d) \<Rightarrow> read_child_events t cid rounds (events @ [d])
            | Inr _ \<Rightarrow> read_child_events t cid rounds events))"

text \<open>The exit code, or nothing when the process does not end in time.\<close>

definition subprocess_run :: "delegate_task \<Rightarrow> string \<Rightarrow> read_round list \<Rightarrow> int option \<Rightarrow> child_result result" where
  "subprocess_run t cid rounds exit_code =
     bind_res (read_child_events t cid rounds []) (\<lambda>x.
       case x of
         Inl r \<Rightarrow> Inr r
       | Inr events \<Rightarrow>
           (case exit_code of
              None \<Rightarrow> Inr (child_result_of t cid ''timeout'' (code_failure ''TIMEOUT''))
            | Some code \<Rightarrow>
                (case find (\<lambda>d. jget d ''type'' = JStr ''child_result'') (rev events) of
                   None \<Rightarrow> Inr (child_result_of t cid ''failed''
                     (JDict [(''code'', JStr ''CHILD_PROCESS_ERROR''), (''exit_code'', JInt code)]))
                 | Some d \<Rightarrow> child_result_from t cid ''failed'' (case jget d ''result'' of JDict r \<Rightarrow> r | _ \<Rightarrow> d))))"

text \<open>The child's side: the lines it prints and its exit code. It answers one request and stops.\<close>

definition child_failure :: "string \<Rightarrow> jdict" where
  "child_failure code = [(''type'', JStr ''child_result''), (''status'', JStr ''failed''), (''failure'', code_failure code)]"

definition echo_result :: "jdict \<Rightarrow> string \<Rightarrow> jdict" where
  "echo_result task cid =
     [(''task_id'', JStr (py_str (jget_or task ''id'' (JStr ''child'')))), (''child_run_id'', JStr cid), (''status'', JStr ''completed''),
      (''role'', JStr (py_str (jget_or task ''role'' (JStr ''scout'')))),
      (''summary'', JStr (''Child completed: '' @ py_str (jget_or task ''goal'' (JStr [])))), (''findings'', JList []), (''artifacts'', JList []),
      (''usage'', JDict [(''turns'', JInt 1)]), (''failure'', JNull)]"

fun child_main :: "(jdict \<Rightarrow> string \<Rightarrow> jdict) \<Rightarrow> string \<Rightarrow> string list \<Rightarrow> (jdict list \<times> int) result" where
  "child_main complete_model fresh [] = Inr ([], 2)"
| "child_main complete_model fresh (raw # lines) =
     (let line = strip raw
      in if line = [] then child_main complete_model fresh lines
         else
           (case json_loads line of
              Inl (JSONDecodeError _) \<Rightarrow> Inr ([child_failure ''INVALID_REQUEST''], 2)
            | Inl err \<Rightarrow> Inl err
            | Inr (JDict payload) \<Rightarrow>
                if jget payload ''type'' \<noteq> JStr ''child_start'' then Inr ([child_failure ''PROTOCOL_ERROR''], 2)
                else
                  (let task = (case jget payload ''task'' of JDict d \<Rightarrow> d | _ \<Rightarrow> []);
                       cid = str_or (jget payload ''child_run_id'') fresh;
                       r = (if truthy (jget_or payload ''execute_model'' (JBool True)) then complete_model task cid else echo_result task cid)
                   in Inr ([[(''type'', JStr ''child_start''), (''protocol_version'', JInt 1), (''child_run_id'', JStr cid)],
                            [(''type'', JStr ''child_event''), (''event'', JStr ''turn_started''), (''turn_id'', JStr ''child-t1'')],
                            [(''type'', JStr ''child_result''), (''status'', JStr ''completed''), (''result'', JDict r)]], 0))
            | Inr _ \<Rightarrow> Inl AttributeError))"

section \<open>Standard workflows\<close>

definition plain_task :: "string \<Rightarrow> string \<Rightarrow> string \<Rightarrow> string list \<Rightarrow> string \<Rightarrow> delegate_task" where
  "plain_task i role goal deps schema =
     \<lparr>dt_id = i, dt_role = role, dt_goal = goal, dt_profile = role, dt_depends_on = deps, dt_timeout_sec = 180, dt_output_schema = schema\<rparr>"

definition scout_tasks :: "string list \<Rightarrow> delegate_task list" where
  "scout_tasks goals = map (\<lambda>(i, g). plain_task (''scout-'' @ str_nat (i + 1)) ''scout'' g [] ''investigation_report'') (enumerate 0 goals)"

definition standard_scout_planner_worker :: "string list \<Rightarrow> string \<Rightarrow> string \<Rightarrow> delegate_task list" where
  "standard_scout_planner_worker goals planner_goal worker_goal =
     scout_tasks goals @
     [plain_task ''planner'' ''planner'' planner_goal (map dt_id (scout_tasks goals)) ''plan'',
      plain_task ''worker'' ''worker'' worker_goal [''planner''] ''worker_result'']"

definition review_round :: "string \<Rightarrow> string \<Rightarrow> nat \<Rightarrow> delegate_task list" where
  "review_round worker_goal reviewer_goal i =
     [plain_task (''worker-'' @ str_nat (i + 1)) ''worker''
        (if i = 0 then worker_goal else worker_goal @ [nl] @ ''Findings: reviewer-'' @ str_nat i) [] ''investigation_report'',
      plain_task (''reviewer-'' @ str_nat (i + 1)) ''reviewer'' reviewer_goal [''worker-'' @ str_nat (i + 1)] ''review_report'']"

definition reviewer_loop :: "string \<Rightarrow> string \<Rightarrow> int \<Rightarrow> delegate_task list list result" where
  "reviewer_loop worker_goal reviewer_goal max_iterations =
     (if max_iterations \<le> 0 then Inl (ValueError ''max_iterations must be positive'')
      else Inr (map (review_round worker_goal reviewer_goal) [0 ..< nat max_iterations]))"

section \<open>Properties of the pieces\<close>

lemma run_batch_tasks: "run_batch c q ts l w = (rs, l', w') \<Longrightarrow> map fst rs = ts"
  by (induction c q ts l w arbitrary: rs l' w' rule: run_batch.induct) (auto split: prod.splits)

lemma run_task_lease: "run_task c q t l w = (r, l', w') \<Longrightarrow> owner_run_id l = None \<Longrightarrow> owner_run_id l' = None"
  by (auto simp: run_task_def acquire_def release_def split: if_splits prod.splits)

lemma run_batch_lease: "run_batch c q ts l w = (rs, l', w') \<Longrightarrow> owner_run_id l = None \<Longrightarrow> owner_run_id l' = None"
proof (induction ts arbitrary: l w rs l' w')
  case (Cons t ts)
  obtain r l1 w1 where t: "run_task c q t l w = (r, l1, w1)" by (rule prod_cases3)
  obtain rs' l2 w2 where b: "run_batch c q ts l1 w1 = (rs', l2, w2)" by (rule prod_cases3)
  from Cons.IH [OF b run_task_lease [OF t Cons.prems(2)]] Cons.prems(1) t b show ?case by simp
qed simp

lemma keys_update: "fst ` set (AList.update k v d) = insert k (fst ` set d)"
  using arg_cong [OF update_keys [of k v d], of set] by (auto split: if_splits)

lemma collect_batch_keys:
  "collect_batch rs res = Inr res' \<Longrightarrow> fst ` set res' = fst ` set res \<union> (dt_id \<circ> fst) ` set rs \<and> (distinct (map fst res) \<longrightarrow> distinct (map fst res'))"
  by (induction rs res rule: collect_batch.induct) (auto simp: keys_update distinct_update)

lemma collect_batch_lookup:
  "collect_batch rs res = Inr res' \<Longrightarrow> map_of res' i = Some r \<Longrightarrow> map_of res i = Some r \<or> (\<exists>t. (t, Inr r) \<in> set rs \<and> dt_id t = i)"
  by (induction rs res rule: collect_batch.induct) (auto simp: update_conv' split: if_splits)

lemma mark_rest_keys:
  "mark_rest c stat code ts res w = (res', w') \<Longrightarrow> fst ` set res' = fst ` set res \<union> dt_id ` set ts \<and> (distinct (map fst res) \<longrightarrow> distinct (map fst res'))"
proof (induction ts arbitrary: res w)
  case (Cons t ts)
  obtain cid w1 where f: "co_fresh c w = (cid, w1)" by (cases "co_fresh c w")
  show ?case
  proof (cases "map_of res (dt_id t)")
    case None
    from Cons.IH [of "AList.update (dt_id t) (child_result_of t cid stat (code_failure code)) res" w1] None f Cons.prems
    show ?thesis by (simp add: keys_update distinct_update)
  next
    case (Some r)
    then have "dt_id t \<in> fst ` set res" by (metis map_of_eq_None_iff option.distinct(1))
    with Cons.IH [of res w] Some Cons.prems show ?thesis by auto
  qed
qed simp

lemma dict_tasks_distinct: "distinct (map dt_id ts) \<Longrightarrow> dict_tasks ts = map (\<lambda>t. (dt_id t, t)) ts"
proof -
  have "distinct (map fst d @ map dt_id ts) \<Longrightarrow> fold (\<lambda>t d. AList.update (dt_id t) t d) ts d = d @ map (\<lambda>t. (dt_id t, t)) ts" for d
  proof (induction ts arbitrary: d)
    case (Cons t ts)
    then have "AList.update (dt_id t) t d = d @ [(dt_id t, t)]" by (intro update_new) auto
    with Cons show ?case by auto
  qed simp
  from this [of "[]"] show "distinct (map dt_id ts) \<Longrightarrow> ?thesis" by (simp add: dict_tasks_def)
qed

lemma next_batch_ready: "0 < m \<Longrightarrow> ready \<noteq> [] \<Longrightarrow> next_batch m ready \<noteq> []"
  by (cases ready) (auto simp: next_batch_def Let_def filter_empty_conv)

lemma next_batch_distinct: "distinct (map dt_id ready) \<Longrightarrow> distinct (map dt_id (next_batch m ready))"
  unfolding next_batch_def Let_def
  by (auto simp: take_map [symmetric] intro!: distinct_take distinct_map_filter)

text \<open>One writer at a time: a batch has a single worker or no worker at all.\<close>

lemma next_batch_writers: "(\<forall>t \<in> set (next_batch m ready). dt_role t \<noteq> ''worker'') \<or> length (next_batch m ready) \<le> 1"
  by (auto simp: next_batch_def Let_def dest!: in_set_takeD)

section \<open>A log of the children that ran\<close>

type_synonym child_log = "(delegate_task \<times> child_result result) list"

definition logged :: "'w coordinator \<Rightarrow> ('w \<times> child_log) coordinator" where
  "logged c =
     \<lparr>co_run = (\<lambda>t q (w, hist). let (r, w1) = co_run c t q w in (r, w1, hist @ [(t, r)])),
      co_cancelled = (\<lambda>(w, hist). co_cancelled c w),
      co_fresh = (\<lambda>(w, hist). let (cid, w1) = co_fresh c w in (cid, w1, hist)),
      co_order = (\<lambda>b (w, hist). co_order c b w),
      co_max = co_max c\<rparr>"

definition succeeded :: "child_result result \<Rightarrow> bool" where
  "succeeded r = (case r of Inr x \<Rightarrow> ch_status x = ''completed'' | Inl _ \<Rightarrow> False)"

definition completed_in :: "child_log \<Rightarrow> string \<Rightarrow> bool" where
  "completed_in hist i = (\<exists>(t, r) \<in> set hist. dt_id t = i \<and> succeeded r)"

definition dependencies_first :: "child_log \<Rightarrow> bool" where
  "dependencies_first hist = (\<forall>pre t r post. hist = pre @ (t, r) # post \<longrightarrow> (\<forall>d \<in> set (dt_depends_on t). completed_in pre d))"

lemma completed_in_append: "completed_in hist i \<Longrightarrow> completed_in (hist @ es) i"
  by (auto simp: completed_in_def)

lemma dependencies_first_append:
  assumes "dependencies_first hist" "\<And>t r. (t, r) \<in> set es \<Longrightarrow> \<forall>d \<in> set (dt_depends_on t). completed_in hist d"
  shows "dependencies_first (hist @ es)"
  unfolding dependencies_first_def
proof (intro allI impI ballI)
  fix pre t r post d
  assume eq: "hist @ es = pre @ (t, r) # post" and d: "d \<in> set (dt_depends_on t)"
  from eq consider us where "hist = pre @ us" "us @ es = (t, r) # post" | us where "hist @ us = pre" "es = us @ (t, r) # post"
    by (auto simp: append_eq_append_conv2)
  then show "completed_in pre d"
  proof cases
    case 1
    show ?thesis
    proof (cases us)
      case Nil
      then have "(t, r) \<in> set es" "hist = pre" using 1 by auto
      then show ?thesis using assms(2) d by blast
    next
      case (Cons u us')
      then show ?thesis using 1 assms(1) d unfolding dependencies_first_def by auto
    qed
  next
    case 2
    then have "(t, r) \<in> set es" by simp
    then show ?thesis using assms(2) d completed_in_append 2(1) by blast
  qed
qed

lemma run_task_logged:
  "run_task (logged c) q t l (w, hist) = (r, l', w', hist') \<Longrightarrow> hist' = hist @ [(t, r)] \<or> (hist' = hist \<and> \<not> succeeded r)"
  by (auto simp: run_task_def logged_def succeeded_def child_result_of_def Let_def split: if_splits prod.splits option.splits)

lemma run_batch_logged:
  "run_batch (logged c) q ts l (w, hist) = (rs, l', w', hist') \<Longrightarrow>
   \<exists>es. hist' = hist @ es \<and> subseq es rs \<and> (\<forall>(t, r) \<in> set rs. succeeded r \<longrightarrow> (t, r) \<in> set es)"
proof (induction ts arbitrary: l w hist rs l' w' hist')
  case Nil
  then show ?case by auto
next
  case (Cons t ts)
  obtain r l1 w1 hist1 where t: "run_task (logged c) q t l (w, hist) = (r, l1, w1, hist1)" by (metis prod_cases4)
  obtain rs' l2 w2 hist2 where b: "run_batch (logged c) q ts l1 (w1, hist1) = (rs', l2, w2, hist2)" by (metis prod_cases4)
  have rs: "rs = (t, r) # rs'" "hist' = hist2" using Cons.prems t b by auto
  obtain es where es: "hist2 = hist1 @ es" "subseq es rs'" "\<forall>(t, r) \<in> set rs'. succeeded r \<longrightarrow> (t, r) \<in> set es"
    using Cons.IH [OF b] by blast
  from run_task_logged [OF t] show ?case
  proof
    assume "hist1 = hist @ [(t, r)]"
    with es rs show ?thesis by (intro exI [of _ "(t, r) # es"]) auto
  next
    assume "hist1 = hist \<and> \<not> succeeded r"
    with es rs show ?thesis by (intro exI [of _ es]) auto
  qed
qed

lemma mark_rest_logged: "mark_rest (logged c) stat code ts res (w, hist) = (res', w', hist') \<Longrightarrow> hist' = hist"
proof (induction ts arbitrary: res w res' w')
  case (Cons t ts)
  then show ?case by (auto simp: logged_def Let_def split: if_splits prod.splits)
qed simp

lemma subseq_distinct_map: "subseq xs ys \<Longrightarrow> distinct (map f ys) \<Longrightarrow> distinct (map f xs)"
  unfolding subseq_conv_nths by (auto simp: nths_map [symmetric] intro: distinct_nthsI)

section \<open>The loop\<close>

locale child_workflow =
  fixes c :: "'w coordinator"
  assumes order_set: "set (co_order c b w) = set b"
    and order_distinct: "distinct (map dt_id b) \<Longrightarrow> distinct (map dt_id (co_order c b w))"
    and workers: "0 < co_max c"
begin

lemma ready_not_started:
  "distinct (map dt_id ts) \<Longrightarrow> t \<in> set (next_batch m (ready_tasks (dict_tasks ts) started res)) \<Longrightarrow>
   t \<in> set ts \<and> dt_id t \<notin> set started \<and> list_all (done_with res) (dt_depends_on t)"
  using next_batch_subset by (fastforce simp: ready_tasks_def dict_tasks_distinct comp_def)

lemma batch_distinct:
  "distinct (map dt_id ts) \<Longrightarrow> distinct (map dt_id (next_batch m (ready_tasks (dict_tasks ts) started res)))"
  by (rule next_batch_distinct) (simp add: ready_tasks_def dict_tasks_distinct comp_def distinct_map_filter)

text \<open>What the log looks like at the head of the loop.\<close>

definition log_inv :: "(string \<times> child_result) list \<Rightarrow> string list \<Rightarrow> child_log \<Rightarrow> bool" where
  "log_inv res started hist =
     (dependencies_first hist \<and> distinct (map (dt_id \<circ> fst) hist) \<and> (dt_id \<circ> fst) ` set hist \<subseteq> set started \<and>
      (\<forall>i. done_with res i \<longrightarrow> completed_in hist i))"

lemma log_batch:
  assumes inv: "log_inv res started hist" and dist: "distinct (map dt_id ts)"
    and b: "b = next_batch m (ready_tasks (dict_tasks ts) started res)"
    and run: "run_batch (logged c) q (co_order c b w) l (w, hist) = (rs, l1, w1, hist1)"
  shows "dependencies_first hist1" "distinct (map (dt_id \<circ> fst) hist1)"
    "(dt_id \<circ> fst) ` set hist1 \<subseteq> set (started @ map dt_id b)"
    "completed_in hist i \<or> (\<exists>(t, r) \<in> set rs. dt_id t = i \<and> succeeded r) \<Longrightarrow> completed_in hist1 i"
proof -
  obtain es where es: "hist1 = hist @ es" "subseq es rs" "\<forall>(t, r) \<in> set rs. succeeded r \<longrightarrow> (t, r) \<in> set es"
    using run_batch_logged [OF run] by blast
  have rs: "map fst rs = co_order c b w" by (rule run_batch_tasks [OF run])
  have ids: "map (dt_id \<circ> fst) rs = map dt_id (co_order c b w)" using rs by (metis map_map)
  have sub: "set es \<subseteq> set rs" using es(2) by (auto simp: subseq_conv_nths dest: in_set_nthsD)
  have tasks: "t \<in> set b" if "(t, r) \<in> set es" for t r
    using that sub arg_cong [OF rs, of set] by (force simp: order_set)
  have new: "dt_id ` set b \<inter> set started = {}" using ready_not_started [OF dist] by (auto simp: b)
  have dist_es: "distinct (map (dt_id \<circ> fst) es)"
    using subseq_distinct_map [OF es(2), of "dt_id \<circ> fst"] order_distinct [OF batch_distinct [OF dist]] by (simp add: ids b)
  have ids_es: "(dt_id \<circ> fst) ` set es \<subseteq> dt_id ` set b" using tasks by auto
  show "dependencies_first hist1"
    unfolding es(1)
  proof (rule dependencies_first_append)
    show "dependencies_first hist" using inv by (simp add: log_inv_def)
    show "\<forall>d \<in> set (dt_depends_on t). completed_in hist d" if "(t, r) \<in> set es" for t r
      using ready_not_started [OF dist, of t m started res] tasks [OF that] inv by (auto simp: b log_inv_def list_all_iff)
  qed
  have old: "(dt_id \<circ> fst) ` set hist \<subseteq> set started" "distinct (map (dt_id \<circ> fst) hist)" using inv by (simp_all add: log_inv_def)
  have "(dt_id \<circ> fst) ` set hist \<inter> (dt_id \<circ> fst) ` set es = {}" using old(1) ids_es new by blast
  then show "distinct (map (dt_id \<circ> fst) hist1)" using old(2) dist_es by (simp add: es(1))
  show "(dt_id \<circ> fst) ` set hist1 \<subseteq> set (started @ map dt_id b)" using old(1) ids_es by (auto simp: es(1))
  show "completed_in hist1 i" if "completed_in hist i \<or> (\<exists>(t, r) \<in> set rs. dt_id t = i \<and> succeeded r)"
    using that es(3) unfolding es(1) completed_in_def by fastforce
qed

lemma log_inv_batch:
  assumes inv: "log_inv res started hist" and dist: "distinct (map dt_id ts)"
    and b: "b = next_batch m (ready_tasks (dict_tasks ts) started res)"
    and run: "run_batch (logged c) q (co_order c b w) l (w, hist) = (rs, l1, w1, hist1)"
    and coll: "collect_batch rs res = Inr res1"
  shows "log_inv res1 (started @ map dt_id b) hist1"
proof -
  have "completed_in hist1 i" if fin: "done_with res1 i" for i
  proof -
    obtain r where r: "map_of res1 i = Some r" "ch_status r = ''completed''" using fin by (auto simp: done_with_def split: option.splits)
    have "completed_in hist i \<or> (\<exists>(t, r) \<in> set rs. dt_id t = i \<and> succeeded r)"
      using collect_batch_lookup [OF coll r(1)] inv r(2) by (fastforce simp: log_inv_def done_with_def succeeded_def)
    then show ?thesis by (rule log_batch(4) [OF inv dist b run])
  qed
  then show ?thesis using log_batch(1-3) [OF inv dist b run] by (simp add: log_inv_def)
qed

lemma loop_logged:
  assumes "workflow_loop (logged c) q jn ts res started m l (w, hist) = (R, l', w', hist')"
    and "log_inv res started hist" "distinct (map dt_id ts)" "owner_run_id l = None"
  shows "dependencies_first hist' \<and> distinct (map (dt_id \<circ> fst) hist') \<and> owner_run_id l' = None"
  using assms
proof (induction "length (not_started ts started)" arbitrary: res started m l w hist rule: less_induct)
  case less
  define b where "b = next_batch (co_max (logged c)) (ready_tasks (dict_tasks ts) started res)"
  have base: "dependencies_first hist" "distinct (map (dt_id \<circ> fst) hist)" using less.prems(2) by (simp_all add: log_inv_def)
  note loop = workflow_loop.simps [of "logged c" q jn ts res started m l "(w, hist)", unfolded Let_def, folded b_def]
  show ?case
  proof (cases "length (dict_tasks ts) \<le> length res \<or> co_cancelled (logged c) (w, hist) \<or> ready_tasks (dict_tasks ts) started res = [] \<or>
      min (co_max (logged c)) (length b) = 0")
    case True
    then have "l' = l \<and> hist' = hist"
      using less.prems(1) unfolding loop by (auto simp: b_def split: if_splits prod.splits dest: mark_rest_logged)
    then show ?thesis using base less.prems(4) by simp
  next
    case False
    then have ne: "b \<noteq> []" by auto
    have F: "(length (dict_tasks ts) \<le> length res) = False" "co_cancelled (logged c) (w, hist) = False"
      "(ready_tasks (dict_tasks ts) started res = []) = False" "(min (co_max (logged c)) (length b) = 0) = False"
      using False by blast+
    obtain rs l1 w1 hist1 where r: "run_batch (logged c) q (co_order (logged c) b (w, hist)) l (w, hist) = (rs, l1, w1, hist1)"
      by (metis prod_cases4)
    have ord: "co_order (logged c) b (w, hist) = co_order c b w" by (simp add: logged_def)
    have own: "owner_run_id l1 = None" using run_batch_lease [OF r less.prems(4)] .
    have step: "(case collect_batch rs res of
           Inl err \<Rightarrow> (Inl err, l1, w1, hist1)
         | Inr res1 \<Rightarrow>
             if jn = ''any'' \<and> list_ex (\<lambda>(i, r). ch_status r = ''completed'') res1 then
               (case mark_rest (logged c) ''cancelled'' ''JOIN_ANY'' (map snd (dict_tasks ts)) res1 (w1, hist1) of
                  (res2, w2) \<Rightarrow> (Inr (finish_workflow q ts res2 (max m (length b))), l1, w2))
             else workflow_loop (logged c) q jn ts res1 (started @ map dt_id b) (max m (length b)) l1 (w1, hist1)) = (R, l', w', hist')"
      using less.prems(1) unfolding loop by (simp only: F if_False r prod.case)
    have b: "b = next_batch (co_max c) (ready_tasks (dict_tasks ts) started res)" by (simp add: b_def logged_def)
    note inv = log_inv_batch [OF less.prems(2,3) b r [unfolded ord]]
    note dep = log_batch(1,2) [OF less.prems(2,3) b r [unfolded ord]]
    show ?thesis
    proof (cases "collect_batch rs res")
      case (Inl err)
      then show ?thesis using step dep own by simp
    next
      case (Inr res1)
      have small: "length (not_started ts (started @ map dt_id b)) < length (not_started ts started)" using ne by (intro fewer_left) (simp_all add: b_def)
      show ?thesis
        using step Inr dep own less.hyps [OF small _ inv [OF Inr] less.prems(3) own] by (auto split: if_splits prod.splits dest: mark_rest_logged)
    qed
  qed
qed

end

text \<open>Children that all complete.\<close>

definition all_complete :: "'w coordinator \<Rightarrow> bool" where
  "all_complete c = ((\<forall>t q w. succeeded (fst (co_run c t q w))) \<and> (\<forall>w. \<not> co_cancelled c w))"

definition results_complete :: "delegate_task list \<Rightarrow> (string \<times> child_result) list \<Rightarrow> string list \<Rightarrow> bool" where
  "results_complete ts res started =
     (fst ` set res = set started \<and> set started \<subseteq> dt_id ` set ts \<and> distinct (map fst res) \<and> (\<forall>(i, r) \<in> set res. ch_status r = ''completed''))"

lemma run_batch_complete:
  "all_complete c \<Longrightarrow> owner_run_id l = None \<Longrightarrow> run_batch c q ts l w = (rs, l', w') \<Longrightarrow> \<forall>(t, r) \<in> set rs. succeeded r"
proof (induction ts arbitrary: l w rs l' w')
  case (Cons t ts)
  obtain r l1 w1 where t: "run_task c q t l w = (r, l1, w1)" by (rule prod_cases3)
  obtain rs' l2 w2 where b: "run_batch c q ts l1 w1 = (rs', l2, w2)" by (rule prod_cases3)
  have "succeeded (fst (co_run c t q w))" using Cons.prems(1) by (simp add: all_complete_def)
  then have "succeeded r" using t Cons.prems(2)
    by (cases "co_run c t q w") (auto simp: run_task_def acquire_def Let_def split: if_splits prod.splits)
  then show ?case using Cons.IH [OF Cons.prems(1) run_task_lease [OF t Cons.prems(2)] b] Cons.prems(3) t b by auto
qed simp

lemma set_update_subset: "set (AList.update k v d) \<subseteq> insert (k, v) (set d)"
  by (induction d) auto

lemma collect_batch_complete:
  "\<forall>(t, r) \<in> set rs. succeeded r \<Longrightarrow> \<forall>(i, r) \<in> set res. ch_status r = ''completed'' \<Longrightarrow> distinct (map fst res) \<Longrightarrow>
   \<exists>res'. collect_batch rs res = Inr res' \<and> (\<forall>(i, r) \<in> set res'. ch_status r = ''completed'')"
proof (induction rs res rule: collect_batch.induct)
  case (3 t r rs res)
  have "distinct (map fst (AList.update (dt_id t) r res))" using 3 by (simp add: distinct_update)
  moreover have "ch_status r = ''completed''" using 3 by (simp add: succeeded_def)
  then have "\<forall>(i, x) \<in> set (AList.update (dt_id t) r res). ch_status x = ''completed''"
    using 3 set_update_subset [of "dt_id t" r res] by blast
  ultimately show ?case using 3 by simp
qed (auto simp: succeeded_def)

text \<open>While tasks are left, an acyclic delegation has one that is ready.\<close>

lemma some_ready:
  assumes "distinct (map dt_id ts)" "deps_closed ts" "acyclic (dep_rel ts)" "results_complete ts res started"
    and "\<not> length ts \<le> length res"
  shows "ready_tasks (dict_tasks ts) started res \<noteq> []"
proof -
  have keys: "length res = card (set started)"
    using assms(4) distinct_card [of "map fst res"] by (simp add: results_complete_def)
  have "card (set started) < card (dt_id ` set ts)" using assms(1,5) keys distinct_card [of "map dt_id ts"] by simp
  then obtain i where i: "i \<in> dt_id ` set ts - set started" by (meson Diff_iff card_mono finite_set leD subsetI)
  have "finite (dep_rel ts)"
    by (rule finite_subset [of _ "dt_id ` set ts \<times> (\<Union>t \<in> set ts. set (dt_depends_on t))"]) (auto simp: dep_rel_def)
  then have "wf ((dep_rel ts)\<inverse>)" using assms(3) by (rule finite_acyclic_wf_converse)
  from wfE_min [OF this i] obtain j where j: "j \<in> dt_id ` set ts - set started"
    "\<And>d. (j, d) \<in> dep_rel ts \<Longrightarrow> d \<notin> dt_id ` set ts - set started" by (metis converse_iff)
  then obtain t where t: "t \<in> set ts" "dt_id t = j" by blast
  have "done_with res d" if "d \<in> set (dt_depends_on t)" for d
  proof -
    have "(j, d) \<in> dep_rel ts" "d \<in> dt_id ` set ts" using that t assms(2) by (auto simp: dep_rel_def deps_closed_def)
    then have "d \<in> fst ` set res" using j(2) assms(4) by (auto simp: results_complete_def)
    then obtain r where "map_of res d = Some r" by (metis map_of_eq_None_iff not_Some_eq)
    moreover from this have "(d, r) \<in> set res" by (rule map_of_SomeD)
    ultimately show ?thesis using assms(4) by (auto simp: done_with_def results_complete_def)
  qed
  then have "t \<in> set (ready_tasks (dict_tasks ts) started res)"
    using t j(1) by (auto simp: ready_tasks_def dict_tasks_distinct [OF assms(1)] list_all_iff comp_def)
  then show ?thesis by auto
qed

lemma finish_complete:
  assumes "distinct (map dt_id ts)" "results_complete ts res started" "length ts \<le> length res"
  shows "wf_status (finish_workflow q ts res m) = ''completed''"
proof -
  have "card (dt_id ` set ts) \<le> card (set started)"
    using assms distinct_card [of "map dt_id ts"] distinct_card [of "map fst res"] by (simp add: results_complete_def)
  then have "set started = dt_id ` set ts" using assms(2) by (simp add: results_complete_def card_seteq)
  have "ch_status (the (map_of res (dt_id t))) = ''completed''" if t: "t \<in> set ts" for t
  proof -
    have "dt_id t \<in> fst ` set res" using assms(2) \<open>set started = _\<close> t by (auto simp: results_complete_def)
    then obtain r where r: "map_of res (dt_id t) = Some r" by (metis map_of_eq_None_iff not_Some_eq)
    then have "(dt_id t, r) \<in> set res" by (rule map_of_SomeD)
    then show ?thesis using assms(2) r by (auto simp: results_complete_def)
  qed
  then show ?thesis by (simp add: finish_workflow_def Let_def list_all_iff)
qed

context child_workflow
begin

lemma loop_completes:
  assumes "all_complete c" "distinct (map dt_id ts)" "deps_closed ts" "acyclic (dep_rel ts)" "jn \<noteq> ''any''"
    and "results_complete ts res started" "owner_run_id l = None"
  shows "\<exists>W l' w'. workflow_loop c q jn ts res started m l w = (Inr W, l', w') \<and> wf_status W = ''completed'' \<and>
    length (wf_results W) = length ts \<and> wf_failure W = JNull \<and> owner_run_id l' = None"
  using assms(6,7)
proof (induction "length (not_started ts started)" arbitrary: res started m l w rule: less_induct)
  case less
  define b where "b = next_batch (co_max c) (ready_tasks (dict_tasks ts) started res)"
  note loop = workflow_loop.simps [of c q jn ts res started m l w, unfolded Let_def, folded b_def]
  have len: "length (dict_tasks ts) = length ts" by (simp add: dict_tasks_distinct assms(2))
  show ?case
  proof (cases "length ts \<le> length res")
    case True
    then show ?thesis using finish_complete [OF assms(2) less.prems(1) True, of q m] less.prems(2)
      unfolding loop len by (simp add: finish_workflow_def Let_def)
  next
    case False
    have ready: "ready_tasks (dict_tasks ts) started res \<noteq> []" using some_ready [OF assms(2-4) less.prems(1) False] .
    then have ne: "b \<noteq> []" using next_batch_ready [OF workers] by (simp add: b_def)
    obtain rs l1 w1 where r: "run_batch c q (co_order c b w) l w = (rs, l1, w1)" by (rule prod_cases3)
    obtain res1 where col: "collect_batch rs res = Inr res1" and ok: "\<forall>(i, r) \<in> set res1. ch_status r = ''completed''"
      using collect_batch_complete [OF run_batch_complete [OF assms(1) less.prems(2) r], of res] less.prems(1)
      unfolding results_complete_def by blast
    have F: "(length ts \<le> length res) = False" "co_cancelled c w = False" "(ready_tasks (dict_tasks ts) started res = []) = False"
      "(min (co_max c) (length b) = 0) = False" "(jn = ''any'' \<and> list_ex (\<lambda>(i, r). ch_status r = ''completed'') res1) = False"
      using False ready ne workers assms(1,5) by (auto simp: all_complete_def)
    have step: "workflow_loop c q jn ts res started m l w = workflow_loop c q jn ts res1 (started @ map dt_id b) (max m (length b)) l1 w1"
      unfolding loop len by (simp only: F if_False r prod.case col sum.case)
    have "fst ` set res1 = fst ` set res \<union> dt_id ` set b" "distinct (map fst res1)"
      using collect_batch_keys [OF col] less.prems(1) arg_cong [OF run_batch_tasks [OF r], of "\<lambda>xs. dt_id ` set xs"]
      by (auto simp: results_complete_def order_set image_comp)
    moreover have "dt_id ` set b \<subseteq> dt_id ` set ts" using ready_not_started [OF assms(2)] by (auto simp: b_def)
    ultimately have "results_complete ts res1 (started @ map dt_id b)" using less.prems(1) ok by (auto simp: results_complete_def)
    moreover have "length (not_started ts (started @ map dt_id b)) < length (not_started ts started)" using ne by (intro fewer_left) (simp_all add: b_def)
    ultimately show ?thesis using less.hyps run_batch_lease [OF r less.prems(2)] unfolding step by blast
  qed
qed

end

interpretation in_process: child_workflow
    "\<lparr>co_run = in_process_run handler cancelled fresh err, co_cancelled = cancelled, co_fresh = fresh, co_order = (\<lambda>b w. b), co_max = Suc k\<rparr>"
  for handler cancelled fresh err k
  by unfold_locales simp_all

lemma loads_dumps_line:
  assumes "plain v"
  shows "json_loads (dumps v @ [nl]) = Inr v"
proof -
  have "skip_ws (dumps v @ [nl]) = dumps v @ [nl]" using dumps_hd [OF assms] by (cases "dumps v") (auto simp: skip_ws_def)
  moreover have "skip_ws [nl] = []" by (simp add: skip_ws_def is_ws_def)
  moreover have "num_end [nl]" by (simp add: num_end_def is_digit_def)
  ultimately show ?thesis using raw_decode_dumps [OF assms, of "[nl]"] by (simp add: json_loads_def del: bind_res_eq_Inr)
qed

lemma strip_line:
  assumes "stripped s" "s \<noteq> []"
  shows "strip (s @ [nl]) = s"
  using assms by (auto simp: stripped_def strip_def lstrip_def rstrip_def dropWhile_append3 dropWhile_hd_id hd_rev is_space_def)

section \<open>Properties\<close>

text \<open>A coordinator whose children run in the process and all answer with the default handler.\<close>

definition default_coordinator :: "nat coordinator" where
  "default_coordinator =
     \<lparr>co_run = in_process_run (\<lambda>t q n. (Inr (Inr (default_child t)), n)) (\<lambda>n. False) (\<lambda>n. (''child-'' @ str_nat n, Suc n)) (\<lambda>err. []),
      co_cancelled = (\<lambda>n. False), co_fresh = (\<lambda>n. (''child-'' @ str_nat n, Suc n)), co_order = (\<lambda>b n. b), co_max = 2\<rparr>"

definition sample_tasks :: "delegate_task list" where
  "sample_tasks = standard_scout_planner_worker [''a'', ''b'', ''c''] ''plan'' ''work''"

lemma default_coordinator: "child_workflow default_coordinator"
  by unfold_locales (simp_all add: default_coordinator_def)

lemma default_complete: "all_complete default_coordinator"
  by (simp add: all_complete_def default_coordinator_def in_process_run_def default_child_def child_result_from_def succeeded_def
      as_tuple_def as_dict_def jget_or_def Let_def split: prod.splits)

text \<open>C10: A child starts only after every task it depends on has run and completed, no task is started twice,
  and the write lease is free when the coordinator is done: whatever the children answer, in whatever order a batch
  finishes, whenever the run is cancelled, and also when the coordinator raises.\<close>

theorem dependencies_run_first:
  assumes "child_workflow c" "distinct (map dt_id ts)" "owner_run_id l = None"
    and "execute_workflow (logged c) q jn ts l (w, []) = (R, l', w', hist)"
  shows "dependencies_first hist \<and> distinct (map (dt_id \<circ> fst) hist) \<and> owner_run_id l' = None"
proof (cases "validate_delegate ts ''root'' 0 max_delegate_depth")
  case (Inl err)
  then show ?thesis using assms(3,4) by (simp add: execute_workflow_def dependencies_first_def)
next
  case (Inr u)
  then have "workflow_loop (logged c) q jn ts [] [] 0 l (w, []) = (R, l', w', hist)" using assms(4) by (simp add: execute_workflow_def)
  moreover have "child_workflow.log_inv [] [] []"
    using assms(1) by (simp add: child_workflow.log_inv_def dependencies_first_def done_with_def)
  ultimately show ?thesis using child_workflow.loop_logged [OF assms(1)] assms(2,3) by blast
qed

lemma dependencies_run_first_witness:
  "case execute_workflow (logged default_coordinator) \<lparr>rq_parent = ''p'', rq_root = ''p'', rq_workflow = ''w''\<rparr> ''all'' sample_tasks new_lease (0, []) of
     (R, l', w', hist) \<Rightarrow> dependencies_first hist \<and> distinct (map (dt_id \<circ> fst) hist) \<and> owner_run_id l' = None"
proof -
  have "distinct (map dt_id sample_tasks)" "owner_run_id new_lease = None" by code_simp+
  then show ?thesis using dependencies_run_first [OF default_coordinator] by (fastforce split: prod.splits)
qed



lemma dumps_dict_ne: "dumps (JDict d) \<noteq> []"
  by simp

text \<open>The protocol of a child process: the request the provider writes, answered by the child's own main.\<close>

definition child_output :: "jdict list \<Rightarrow> read_round list" where
  "child_output ds = map (\<lambda>d. (False, False, dumps (JDict d) @ [nl])) ds @ [(False, False, [])]"

lemma read_child_output:
  "\<forall>d \<in> set ds. plain (JDict d) \<Longrightarrow> read_child_events t cid (child_output ds) events = Inr (Inr (events @ ds))"
  by (induction ds arbitrary: events) (simp_all add: child_output_def loads_dumps_line del: dumps.simps plain.simps)

text \<open>The two ends of the child transport agree: a child that gets the request of the provider as its input line
  answers with code 0, and what the provider reads from the lines it prints is a completed result of that child
  for that task, with the goal in its summary.\<close>

theorem child_run_round_trip:
  assumes "plain (delegate_task_json t)" "cid \<noteq> []"
  shows "\<exists>out. child_main complete_model fresh [dumps (JDict (child_request t q cid False)) @ [nl]] = Inr (out, 0) \<and>
    subprocess_run t cid (child_output out) (Some 0) =
      Inr \<lparr>ch_task_id = dt_id t, ch_run_id = cid, ch_status = ''completed'', ch_role = dt_role t,
           ch_summary = ''Child completed: '' @ dt_goal t, ch_findings = [], ch_artifacts = [], ch_usage = [(''turns'', JInt 1)], ch_failure = JNull\<rparr>"
proof -
  let ?d = "child_request t q cid False" and ?e = "echo_result (case delegate_task_json t of JDict d \<Rightarrow> d | _ \<Rightarrow> []) cid"
  let ?out = "[[(''type'', JStr ''child_start''), (''protocol_version'', JInt 1), (''child_run_id'', JStr cid)],
    [(''type'', JStr ''child_event''), (''event'', JStr ''turn_started''), (''turn_id'', JStr ''child-t1'')],
    [(''type'', JStr ''child_result''), (''status'', JStr ''completed''), (''result'', JDict ?e)]]"
  have one: "length (str_nat 1) \<le> max_str_digits" by code_simp
  have p: "plain (JDict ?d)" using assms(1) one by (simp add: child_request_def)
  define line where "line = dumps (JDict ?d)"
  have line: "strip (line @ [nl]) = line" "line \<noteq> []" "json_loads line = Inr (JDict ?d)"
    unfolding line_def by (intro strip_line stripped_dumps_dict, simp_all add: loads_dumps [OF p] del: dumps.simps)
      (simp_all only: dumps_dict_ne not_False_eq_True)
  have main: "child_main complete_model fresh [line @ [nl]] = Inr (?out, 0)"
    using line(2) assms(2) by (simp add: line(1,3)) (simp add: child_request_def jget_def jget_or_def str_or_def delegate_task_json_def)
  have "\<forall>d \<in> set ?out. plain (JDict d)" using one by (simp add: echo_result_def)
  then have "read_child_events t cid (child_output ?out) [] = Inr (Inr ?out)" by (subst read_child_output) simp_all
  then have "subprocess_run t cid (child_output ?out) (Some 0) =
      Inr \<lparr>ch_task_id = dt_id t, ch_run_id = cid, ch_status = ''completed'', ch_role = dt_role t,
           ch_summary = ''Child completed: '' @ dt_goal t, ch_findings = [], ch_artifacts = [], ch_usage = [(''turns'', JInt 1)], ch_failure = JNull\<rparr>"
    by (simp add: subprocess_run_def child_result_from_def echo_result_def delegate_task_json_def jget_def jget_or_def as_tuple_def as_dict_def)
  with main show ?thesis unfolding line_def by blast
qed

lemma child_run_round_trip_witness:
  "\<exists>out. child_main (\<lambda>task cid. []) ''child-1''
      [dumps (JDict (child_request (sample_tasks ! 0) \<lparr>rq_parent = ''p'', rq_root = ''p'', rq_workflow = ''w''\<rparr> ''c'' False)) @ [nl]] = Inr (out, 0) \<and>
    subprocess_run (sample_tasks ! 0) ''c'' (child_output out) (Some 0) =
      Inr \<lparr>ch_task_id = dt_id (sample_tasks ! 0), ch_run_id = ''c'', ch_status = ''completed'', ch_role = dt_role (sample_tasks ! 0),
           ch_summary = ''Child completed: '' @ dt_goal (sample_tasks ! 0), ch_findings = [], ch_artifacts = [], ch_usage = [(''turns'', JInt 1)],
           ch_failure = JNull\<rparr>"
proof (rule child_run_round_trip)
  show "plain (delegate_task_json (sample_tasks ! 0))" by code_simp
qed simp

end
