(* ===== verification/Provider.thy ===== *)
theory Provider
  imports State
begin

text \<open>
  Model providers (\<^verbatim>\<open>core/provider.py\<close>): what a failure is, the retry policy of a route and its
  validation, the reading of answers and usage figures, the classification of HTTP failures, and one
  visible attempt at a completion. The HTTP client is an argument: a function from the number of the
  request and its payload to what came back.

  Results: a policy that validation accepts has sane bounds; status codes are classified to one of the
  stable codes; an answer of a completion is never blank; and the fallback without native JSON mode is
  tried once and only for a bad request.
\<close>

section \<open>Failures, policies, answers\<close>

record llm_failure =
  lf_message :: string
  lf_code :: string
  lf_status :: "int option"
  lf_retry_after_ms :: "int option"
  lf_request_id :: "string option"

definition failure_of :: "string \<Rightarrow> string \<Rightarrow> llm_failure" where
  "failure_of msg code = \<lparr>lf_message = msg, lf_code = code, lf_status = None, lf_retry_after_ms = None, lf_request_id = None\<rparr>"

definition failure_dict :: "llm_failure \<Rightarrow> jdict" where
  "failure_dict f =
     [(''message'', JStr (lf_message f)), (''code'', JStr (lf_code f)), (''status'', opt_int (lf_status f)),
      (''retry_after_ms'', opt_int (lf_retry_after_ms f)), (''request_id'', opt_str (lf_request_id f))]"

definition transient_codes :: "string list" where
  "transient_codes = [''RATE_LIMIT'', ''SERVER'', ''TIMEOUT'', ''TRANSPORT'', ''EMPTY_RESPONSE'']"

definition all_codes :: "string list" where
  "all_codes = transient_codes @ [''AUTH'', ''QUOTA'', ''BAD_REQUEST'', ''CONTEXT_OVERFLOW'', ''ABORTED'', ''UNKNOWN'']"

definition failover_default_on :: "string list" where
  "failover_default_on = [''QUOTA'', ''AUTH'', ''RATE_LIMIT'', ''SERVER'', ''TIMEOUT'', ''TRANSPORT'']"

record model_usage =
  mu_prompt :: "int option"
  mu_completion :: "int option"
  mu_total :: "int option"
  mu_cached :: "int option"
  mu_cache_hit :: "int option"
  mu_cache_miss :: "int option"
  mu_cache_hit_rate :: "pyfloat option"

definition no_usage :: model_usage where
  "no_usage = \<lparr>mu_prompt = None, mu_completion = None, mu_total = None, mu_cached = None, mu_cache_hit = None,
     mu_cache_miss = None, mu_cache_hit_rate = None\<rparr>"

record model_response =
  mr_text :: string
  mr_raw :: jdict
  mr_usage :: model_usage
  mr_latency_ms :: int
  mr_finish_reason :: json

record completion_options =
  opt_temperature :: pyfloat
  opt_stream :: bool
  opt_include_usage :: bool
  opt_json_mode :: bool
  opt_max_tokens :: "int option"

record backoff =
  bo_initial_delay_ms :: int
  bo_max_delay_ms :: int
  bo_jitter_ratio :: pyfloat

record retry_policy =
  rp_mode :: string
  rp_max_retries :: int
  rp_retryable_codes :: "string list"
  rp_backoff :: backoff

definition default_backoff :: backoff where
  "default_backoff = \<lparr>bo_initial_delay_ms = 500, bo_max_delay_ms = 10000, bo_jitter_ratio = f64 (1 / 10)\<rparr>"

definition default_retry_policy :: retry_policy where
  "default_retry_policy = \<lparr>rp_mode = ''normal'', rp_max_retries = 2, rp_retryable_codes = transient_codes, rp_backoff = default_backoff\<rparr>"

section \<open>Numbers\<close>

text \<open>\<^verbatim>\<open>a / b\<close> on integers: the exact quotient, rounded once.\<close>

definition int_div :: "int \<Rightarrow> int \<Rightarrow> pyfloat result" where
  "int_div a b = (case f64 (of_int a / of_int b) of Fin q \<Rightarrow> Inr (Fin q) | _ \<Rightarrow> Inl OverflowError)"

definition float_mul :: "pyfloat \<Rightarrow> rat \<Rightarrow> pyfloat" where \<comment> \<open>by a positive constant\<close>
  "float_mul x k = (case x of Fin q \<Rightarrow> f64 (q * k) | _ \<Rightarrow> x)"

text \<open>\<^verbatim>\<open>float(s)\<close> on text.\<close>

definition unsigned_float :: "string \<Rightarrow> (nat \<times> int) option" where \<comment> \<open>digits and decimal exponent\<close>
  "unsigned_float r =
     (let part = (\<lambda>c. is_digit c \<or> c = CHR ''_''); digits = filter is_digit;
          whole = takeWhile part r; r1 = dropWhile part r;
          frac = (if starts_with_char (CHR ''.'') r1 then takeWhile part (tl r1) else []);
          r2 = (if starts_with_char (CHR ''.'') r1 then dropWhile part (tl r1) else r1);
          expo = (case r2 of
                    [] \<Rightarrow> Some 0
                  | c # r3 \<Rightarrow>
                      if c = CHR ''e'' \<or> c = CHR ''E'' then
                        (let neg = starts_with_char (CHR ''-'') r3;
                             r4 = (if neg \<or> starts_with_char (CHR ''+'') r3 then tl r3 else r3)
                         in if digit_groups r4 then Some ((if neg then -1 else 1) * int (nat_of_digits (digits r4))) else None)
                      else None)
      in if (whole = [] \<and> frac = []) \<or> (whole \<noteq> [] \<and> \<not> digit_groups whole) \<or> (frac \<noteq> [] \<and> \<not> digit_groups frac) then None
         else (case expo of None \<Rightarrow> None | Some e \<Rightarrow> Some (nat_of_digits (digits whole @ digits frac), e - int (length (digits frac)))))"

definition float_of_str :: "string \<Rightarrow> pyfloat result" where
  "float_of_str s =
     (let t = strip s; neg = starts_with_char (CHR ''-'') t;
          r = (if neg \<or> starts_with_char (CHR ''+'') t then tl t else t)
      in if lower r \<in> {''inf'', ''infinity''} then Inr (if neg then NInf else PInf)
         else if lower r = ''nan'' then Inr NaN
         else (case unsigned_float r of
                 None \<Rightarrow> Inl (ValueError ''could not convert string to float'')
               | Some (m, e) \<Rightarrow> Inr (f64 (decimal neg m e))))"

fun float_of_json :: "json \<Rightarrow> pyfloat result" where
  "float_of_json (JInt n) = float_of_int n"
| "float_of_json (JBool b) = Inr (Fin (if b then 1 else 0))"
| "float_of_json (JFloat x) = Inr x"
| "float_of_json (JStr s) = float_of_str s"
| "float_of_json _ = Inl TypeError"

definition within_unit :: "pyfloat \<Rightarrow> bool" where \<comment> \<open>\<^verbatim>\<open>0.0 <= x <= 1.0\<close>\<close>
  "within_unit x = (case x of Fin q \<Rightarrow> 0 \<le> q \<and> q \<le> 1 | _ \<Rightarrow> False)"

section \<open>The retry policy of a route\<close>

definition list_text :: "string list \<Rightarrow> string" where
  "list_text ss = py_repr (JList (map JStr ss))"

definition unknown_keys :: "string list \<Rightarrow> jdict \<Rightarrow> string list" where
  "unknown_keys known d = sort (filter (\<lambda>k. k \<notin> set known) (map fst d))"

definition resolve_backoff :: "json \<Rightarrow> backoff result" where
  "resolve_backoff v =
     (case v of
        JNull \<Rightarrow> Inr default_backoff
      | JDict d \<Rightarrow>
          (let unknown = unknown_keys [''initial_delay_ms'', ''max_delay_ms'', ''jitter_ratio''] d
           in if unknown \<noteq> [] then Inl (ValueError (''retry_policy.backoff has unknown keys: '' @ list_text unknown))
              else
                bind_res (int_of_json (jget_or d ''initial_delay_ms'' (JInt 500))) (\<lambda>initial.
                bind_res (int_of_json (jget_or d ''max_delay_ms'' (JInt 10000))) (\<lambda>maximum.
                bind_res (float_of_json (jget_or d ''jitter_ratio'' (JFloat (f64 (1 / 10))))) (\<lambda>jitter.
                  if initial \<le> 0 \<or> maximum \<le> 0 \<or> maximum < initial then
                    Inl (ValueError ''retry_policy.backoff requires 0 < initial_delay_ms <= max_delay_ms'')
                  else if \<not> within_unit jitter then Inl (ValueError ''retry_policy.backoff.jitter_ratio must be within [0, 1]'')
                  else Inr \<lparr>bo_initial_delay_ms = initial, bo_max_delay_ms = maximum, bo_jitter_ratio = jitter\<rparr>))))
      | _ \<Rightarrow> Inl (ValueError ''retry_policy.backoff must be a mapping''))"

definition resolve_codes :: "json \<Rightarrow> string list result" where
  "resolve_codes v =
     (case v of
        JList (x # xs) \<Rightarrow>
          (let codes = map py_str (x # xs); invalid = filter (\<lambda>c. c \<notin> set all_codes) codes
           in if invalid \<noteq> [] then Inl (ValueError (''retry_policy.retryable_codes has unknown codes: '' @ list_text invalid))
              else if \<not> distinct codes then Inl (ValueError ''retry_policy.retryable_codes must not contain duplicates'')
              else Inr codes)
      | _ \<Rightarrow> Inl (ValueError ''retry_policy.retryable_codes must be a non-empty list''))"

definition resolve_retry_policy :: "jdict option \<Rightarrow> retry_policy result" where
  "resolve_retry_policy config =
     (case config of
        None \<Rightarrow> Inr default_retry_policy
      | Some [] \<Rightarrow> Inr default_retry_policy
      | Some d \<Rightarrow>
          (let unknown = unknown_keys [''mode'', ''max_retries'', ''retryable_codes'', ''backoff''] d;
               mode = jget_or d ''mode'' (JStr ''normal'')
           in if unknown \<noteq> [] then Inl (ValueError (''retry_policy has unknown keys: '' @ list_text unknown))
              else if mode \<noteq> JStr ''normal'' \<and> mode \<noteq> JStr ''always'' then Inl (ValueError (''retry_policy.mode must be '' @ repr_str ''normal'' @ '' or '' @ repr_str ''always''))
              else
                (case jget_or d ''max_retries'' (JInt 2) of
                   JInt n \<Rightarrow>
                     if n < 0 then Inl (ValueError ''retry_policy.max_retries must be a non-negative integer'')
                     else
                       bind_res (resolve_codes (jget_or d ''retryable_codes'' (strs transient_codes))) (\<lambda>codes.
                       bind_res (resolve_backoff (jget d ''backoff'')) (\<lambda>bo.
                         Inr \<lparr>rp_mode = py_str mode, rp_max_retries = n, rp_retryable_codes = codes, rp_backoff = bo\<rparr>))
                 | _ \<Rightarrow> Inl (ValueError ''retry_policy.max_retries must be a non-negative integer''))))"

section \<open>Reading answers\<close>

text \<open>\<^verbatim>\<open>v[0]\<close> of a truthy value.\<close>

definition first_item :: "json \<Rightarrow> json result" where
  "first_item v =
     (case v of JList (x # _) \<Rightarrow> Inr x | JStr (c # _) \<Rightarrow> Inr (JStr [c]) | JDict _ \<Rightarrow> Inl KeyError | _ \<Rightarrow> Inl TypeError)"

definition extract_chat_text :: "jdict \<Rightarrow> string result" where
  "extract_chat_text raw =
     (if \<not> truthy (jget raw ''choices'') then Inr []
      else bind_res (first_item (jget raw ''choices'')) (\<lambda>first.
        Inr (case first of
               JDict d \<Rightarrow>
                 (case jget d ''message'' of
                    JDict m \<Rightarrow> (if jget m ''content'' = JNull then [] else py_str (jget m ''content''))
                  | _ \<Rightarrow> [])
             | _ \<Rightarrow> [])))"

text \<open>What a loop over a truthy value sees of dictionaries: only a list can hold any.\<close>

definition dicts_in :: "json \<Rightarrow> jdict list result" where
  "dicts_in v =
     (if \<not> truthy v then Inr []
      else (case v of
              JList xs \<Rightarrow> Inr (concat (map (\<lambda>x. case x of JDict d \<Rightarrow> [d] | _ \<Rightarrow> []) xs))
            | JStr _ \<Rightarrow> Inr [] | JDict _ \<Rightarrow> Inr [] | _ \<Rightarrow> Inl TypeError))"

definition last_present :: "jdict list \<Rightarrow> json" where
  "last_present ds = fold (\<lambda>d r. if jget d ''finish_reason'' = JNull then r else jget d ''finish_reason'') ds JNull"

definition extract_finish_reason :: "jdict \<Rightarrow> json result" where
  "extract_finish_reason raw =
     (case jget raw ''chunks'' of
        JList items \<Rightarrow>
          bind_res (mapM_res (\<lambda>x. case x of JDict d \<Rightarrow> dicts_in (jget d ''choices'') | _ \<Rightarrow> Inr []) items) (\<lambda>dss.
            Inr (last_present (concat dss)))
      | _ \<Rightarrow>
          if \<not> truthy (jget raw ''choices'') then Inr JNull
          else bind_res (first_item (jget raw ''choices'')) (\<lambda>first.
            Inr (case first of JDict d \<Rightarrow> jget d ''finish_reason'' | _ \<Rightarrow> JNull)))"

definition int_or_none :: "json \<Rightarrow> int option result" where
  "int_or_none v =
     (case v of
        JNull \<Rightarrow> Inr None
      | JBool _ \<Rightarrow> Inr None
      | _ \<Rightarrow> (case int_of_json v of
                 Inr n \<Rightarrow> Inr (Some n)
               | Inl TypeError \<Rightarrow> Inr None
               | Inl (ValueError _) \<Rightarrow> Inr None
               | Inl err \<Rightarrow> Inl err))"

fun first_present_int :: "json list \<Rightarrow> int option result" where
  "first_present_int [] = Inr None"
| "first_present_int (v # vs) =
     bind_res (int_or_none v) (\<lambda>n. case n of Some m \<Rightarrow> Inr (Some m) | None \<Rightarrow> first_present_int vs)"

definition first_int :: "jdict \<Rightarrow> string list \<Rightarrow> int option result" where
  "first_int d ks = first_present_int (map (jget d) ks)"

definition mapping_or_empty :: "json \<Rightarrow> jdict" where
  "mapping_or_empty v = (case v of JDict d \<Rightarrow> d | _ \<Rightarrow> [])"

definition hit_rate :: "int option \<Rightarrow> int option \<Rightarrow> int option \<Rightarrow> int option \<Rightarrow> pyfloat option result" where
  "hit_rate hit miss cached prompt =
     (case (hit, miss) of
        (Some h, Some m) \<Rightarrow> bind_res (int_div h (max (h + m) 1)) (\<lambda>x. Inr (Some x))
      | _ \<Rightarrow>
          (case (cached, prompt) of
             (Some c, Some p) \<Rightarrow> if p = 0 then Inr None else bind_res (int_div c (max p 1)) (\<lambda>x. Inr (Some x))
           | _ \<Rightarrow> Inr None))"

definition parse_model_usage :: "json \<Rightarrow> model_usage result" where
  "parse_model_usage raw =
     (if \<not> truthy raw then Inr no_usage
      else (case raw of
              JDict d \<Rightarrow>
                bind_res (int_or_none (jget d ''prompt_tokens'')) (\<lambda>prompt.
                bind_res (int_or_none (jget d ''completion_tokens'')) (\<lambda>completion.
                bind_res (int_or_none (jget d ''total_tokens'')) (\<lambda>total.
                bind_res (first_int d [''prompt_cache_hit_tokens'', ''cache_read_input_tokens'', ''cache_hit_tokens'']) (\<lambda>hit.
                bind_res (first_int d [''prompt_cache_miss_tokens'', ''cache_creation_input_tokens'', ''cache_miss_tokens'']) (\<lambda>miss.
                bind_res (first_present_int
                    [jget d ''cached_tokens'', jget (mapping_or_empty (jget d ''prompt_tokens_details'')) ''cached_tokens'',
                     jget (mapping_or_empty (jget d ''input_token_details'')) ''cached_tokens'', opt_int hit]) (\<lambda>cached.
                bind_res (hit_rate hit miss cached prompt) (\<lambda>rate.
                  Inr \<lparr>mu_prompt = prompt, mu_completion = completion, mu_total = total, mu_cached = cached, mu_cache_hit = hit,
                       mu_cache_miss = miss, mu_cache_hit_rate = rate\<rparr>)))))))
            | _ \<Rightarrow> Inl AttributeError))"

section \<open>HTTP failures\<close>

definition quota_signatures :: "string list" where
  "quota_signatures = [''insufficient_quota'', ''insufficient quota'', ''quota exceeded'', ''quota has been exhausted'', ''billing'']"

definition context_overflow_signatures :: "string list" where
  "context_overflow_signatures =
     [''context length'', ''context_length'', ''maximum context length'', ''context window'', ''prompt is too long'', ''tokens exceed'',
      ''maximum context'', ''context_length_exceeded'']"

definition has_signature :: "string list \<Rightarrow> string \<Rightarrow> bool" where
  "has_signature sigs body = list_ex (contains (lower body)) sigs"

definition http_code :: "int \<Rightarrow> string \<Rightarrow> string" where
  "http_code stat body =
     (if stat = 401 \<or> stat = 403 then ''AUTH''
      else if stat = 402 \<or> has_signature quota_signatures body then ''QUOTA''
      else if stat = 429 then ''RATE_LIMIT''
      else if stat = 413 \<or> has_signature context_overflow_signatures body then ''CONTEXT_OVERFLOW''
      else if 500 \<le> stat then ''SERVER''
      else if stat = 400 \<or> stat = 422 then ''BAD_REQUEST''
      else ''UNKNOWN'')"

text \<open>Headers are a lookup function. The date reader gives the milliseconds from now to an HTTP date.\<close>

type_synonym headers = "string \<Rightarrow> string option"

definition or_else :: "string option \<Rightarrow> string option \<Rightarrow> string option" where \<comment> \<open>\<^verbatim>\<open>a or b\<close>\<close>
  "or_else a b = (case a of Some (c # cs) \<Rightarrow> a | _ \<Rightarrow> b)"

definition retry_seconds :: "string \<Rightarrow> int option result" where \<comment> \<open>\<^verbatim>\<open>max(0, int(float(value) * 1000))\<close>, nothing for a \<^verbatim>\<open>ValueError\<close>\<close>
  "retry_seconds value =
     (case bind_res (float_of_str value) (\<lambda>x. int_of_float (float_mul x 1000)) of
        Inr n \<Rightarrow> Inr (Some (max 0 n))
      | Inl (ValueError _) \<Rightarrow> Inr None
      | Inl err \<Rightarrow> Inl err)"

definition parse_retry_after_ms :: "(string \<Rightarrow> int option result) \<Rightarrow> headers \<Rightarrow> int option result" where
  "parse_retry_after_ms date_delay hs =
     (let explicit = or_else (hs ''retry-after-ms'') (hs ''Retry-After-Ms'');
          from_header =
            (case or_else (hs ''Retry-After'') (hs ''retry-after'') of
               None \<Rightarrow> Inr None
             | Some v \<Rightarrow>
                 if strip v = [] then Inr None
                 else bind_res (retry_seconds (strip v)) (\<lambda>n.
                   case n of
                     Some m \<Rightarrow> Inr (Some m)
                   | None \<Rightarrow> bind_res (date_delay (strip v)) (\<lambda>d. Inr (map_option (max 0) d))))
      in case explicit of
           Some (c # cs) \<Rightarrow> (case int_of_str (strip (c # cs)) of Inr n \<Rightarrow> Inr (Some (max 0 n)) | Inl _ \<Rightarrow> from_header)
         | _ \<Rightarrow> from_header)"

definition extract_request_id :: "headers \<Rightarrow> string option" where
  "extract_request_id hs =
     find (\<lambda>v. v \<noteq> []) (List.map_filter hs [''x-request-id'', ''x-trace-id'', ''cf-ray'', ''x-ratelimit-request-id''])"

text \<open>\<^verbatim>\<open>" ".join(body.split())\<close>, cut at 500 characters; the ellipsis is outside Latin-1 and an argument.\<close>

function split_blank :: "string \<Rightarrow> string list" where \<comment> \<open>\<^verbatim>\<open>s.split()\<close>\<close>
  "split_blank s =
     (case dropWhile is_space s of
        [] \<Rightarrow> []
      | c # r \<Rightarrow> (c # takeWhile (\<lambda>c. \<not> is_space c) r) # split_blank (dropWhile (\<lambda>c. \<not> is_space c) r))"
  by pat_completeness auto

termination split_blank
proof (relation "measure length", simp, goal_cases)
  case (1 s c r)
  then show ?case
    using length_dropWhile_le [of is_space s] length_dropWhile_le [of "\<lambda>c. \<not> is_space c" r] by simp
qed

declare split_blank.simps [simp del]

definition body_preview :: "string \<Rightarrow> string \<Rightarrow> string" where
  "body_preview ellipsis body =
     (let collapsed = join '' '' (split_blank body)
      in if collapsed = [] then ''no response body''
         else if length collapsed \<le> 500 then collapsed else take 500 collapsed @ ellipsis)"

record http_refusal =
  hr_status :: int
  hr_body :: string
  hr_headers :: headers

definition classify_http_status :: "string \<Rightarrow> (string \<Rightarrow> int option result) \<Rightarrow> http_refusal \<Rightarrow> llm_failure result" where
  "classify_http_status ellipsis date_delay r =
     bind_res (parse_retry_after_ms date_delay (hr_headers r)) (\<lambda>after.
       Inr \<lparr>lf_message = ''Provider HTTP request failed with status '' @ str_int (hr_status r) @ '': '' @ body_preview ellipsis (hr_body r),
            lf_code = http_code (hr_status r) (hr_body r), lf_status = Some (hr_status r), lf_retry_after_ms = after,
            lf_request_id = extract_request_id (hr_headers r)\<rparr>)"

section \<open>One attempt\<close>

text \<open>What the HTTP client gives for a request: a reply (its JSON value, or nothing when it does not
  decode), the lines of a stream with an error that may end it, a refusal, or an error of the transport
  (the name of the exception, and whether it is a timeout). The flag of the watchdog comes with it.\<close>

datatype http_outcome =
    Reply "json option"
  | Lines "string list" "(string \<times> bool) option"
  | Refused http_refusal
  | Broken string bool

record openai_provider =
  pv_name :: string
  pv_model :: string
  pv_send :: "nat \<Rightarrow> jdict \<Rightarrow> http_outcome \<times> bool"
  pv_latency_ms :: "nat \<Rightarrow> int" \<comment> \<open>of the attempt that ends with the n-th request\<close>
  pv_ellipsis :: string
  pv_date_delay :: "string \<Rightarrow> int option result"
  pv_timeout_text :: string \<comment> \<open>the timeout in seconds, formatted\<close>
  pv_stream_timeout_text :: string

text \<open>A provider error is a value of its own; any other exception is an \<open>Inl\<close>.\<close>

type_synonym 'a provided = "(llm_failure + 'a) result"

definition broken :: "string \<Rightarrow> string \<Rightarrow> string \<Rightarrow> bool \<Rightarrow> bool \<Rightarrow> llm_failure" where
  "broken what timeout_text name is_timeout timed_out =
     (if timed_out then failure_of (''Provider '' @ what @ '' exceeded timeout of '' @ timeout_text @ ''s'') ''TIMEOUT''
      else failure_of (''Provider HTTP request failed: '' @ name) (if is_timeout then ''TIMEOUT'' else ''TRANSPORT''))"

definition refused :: "openai_provider \<Rightarrow> http_refusal \<Rightarrow> 'a provided" where
  "refused p r = bind_res (classify_http_status (pv_ellipsis p) (pv_date_delay p) r) (\<lambda>f. Inr (Inl f))"

definition post_json :: "openai_provider \<Rightarrow> http_outcome \<times> bool \<Rightarrow> jdict provided" where
  "post_json p out =
     (case out of
        (Refused r, _) \<Rightarrow> refused p r
      | (Broken name is_timeout, timed_out) \<Rightarrow> Inr (Inl (broken ''request'' (pv_timeout_text p) name is_timeout timed_out))
      | (Reply None, _) \<Rightarrow> Inl (JSONDecodeError ''Expecting value'')
      | (Reply (Some v), timed_out) \<Rightarrow>
          if timed_out then Inr (Inl (broken ''request'' (pv_timeout_text p) [] False True))
          else (case v of JDict d \<Rightarrow> Inr (Inr d) | _ \<Rightarrow> Inr (Inl (failure_of ''Provider response was not a JSON object.'' ''UNKNOWN'')))
      | (Lines _ _, _) \<Rightarrow> Inl IllTyped)"

text \<open>Server-sent events. The reading stops at the line \<^verbatim>\<open>[DONE]\<close>; the result says whether it did.\<close>

definition stream_data :: "string \<Rightarrow> string option" where
  "stream_data line = (if startswith line ''data:'' then Some (strip (drop 5 line)) else None)"

definition choice_piece :: "json \<Rightarrow> string result" where
  "choice_piece choice =
     (case choice of
        JDict c \<Rightarrow>
          if \<not> truthy (jget c ''delta'') then Inr []
          else (case jget c ''delta'' of
                  JDict d \<Rightarrow> Inr (if truthy (jget d ''content'') then py_str (jget d ''content'') else [])
                | _ \<Rightarrow> Inl AttributeError)
      | _ \<Rightarrow> Inl AttributeError)"

definition chunk_pieces :: "jdict \<Rightarrow> string list result" where
  "chunk_pieces d =
     (case jget_or d ''choices'' (JList []) of
        JList cs \<Rightarrow> mapM_res choice_piece cs
      | JDict [] \<Rightarrow> Inr [] | JStr [] \<Rightarrow> Inr []
      | JDict _ \<Rightarrow> Inl AttributeError | JStr _ \<Rightarrow> Inl AttributeError
      | _ \<Rightarrow> Inl TypeError)"

fun read_stream :: "string list \<Rightarrow> jdict list \<Rightarrow> string \<Rightarrow> json \<Rightarrow> (bool \<times> jdict list \<times> string \<times> json) result" where
  "read_stream [] chunks content usage = Inr (False, chunks, content, usage)"
| "read_stream (line # lines) chunks content usage =
     (case stream_data line of
        None \<Rightarrow> read_stream lines chunks content usage
      | Some data \<Rightarrow>
          if data = ''[DONE]'' then Inr (True, chunks, content, usage)
          else
            bind_res (json_loads data) (\<lambda>v.
              case v of
                JDict d \<Rightarrow>
                  bind_res (chunk_pieces d) (\<lambda>ps.
                    read_stream lines (chunks @ [d]) (content @ concat ps) (if truthy (jget d ''usage'') then jget d ''usage'' else usage))
              | _ \<Rightarrow> read_stream lines chunks content usage))"

definition complete_stream :: "openai_provider \<Rightarrow> http_outcome \<times> bool \<Rightarrow> (jdict \<times> string \<times> json) provided" where
  "complete_stream p out =
     (case out of
        (Refused r, _) \<Rightarrow> refused p r
      | (Broken name is_timeout, timed_out) \<Rightarrow> Inr (Inl (broken ''stream'' (pv_stream_timeout_text p) name is_timeout timed_out))
      | (Lines lines end_error, timed_out) \<Rightarrow>
          bind_res (read_stream lines [] [] JNull) (\<lambda>(finished, chunks, content, usage).
            case (if finished then None else end_error) of
              Some (name, is_timeout) \<Rightarrow> Inr (Inl (broken ''stream'' (pv_stream_timeout_text p) name is_timeout timed_out))
            | None \<Rightarrow>
                if timed_out then Inr (Inl (broken ''stream'' (pv_stream_timeout_text p) [] False True))
                else Inr (Inr ([(''chunks'', dicts chunks), (''usage'', usage)], content, usage)))
      | (Reply _, _) \<Rightarrow> Inl IllTyped)"

definition request_once :: "openai_provider \<Rightarrow> bool \<Rightarrow> jdict \<Rightarrow> nat \<Rightarrow> (jdict \<times> string \<times> json) provided" where
  "request_once p stream payload n =
     (if stream then complete_stream p (pv_send p n payload)
      else bind_res (post_json p (pv_send p n payload)) (\<lambda>x.
        case x of
          Inl f \<Rightarrow> Inr (Inl f)
        | Inr raw \<Rightarrow> bind_res (extract_chat_text raw) (\<lambda>text. Inr (Inr (raw, text, jget raw ''usage'')))))"

definition completion_payload :: "openai_provider \<Rightarrow> json \<Rightarrow> completion_options \<Rightarrow> bool \<Rightarrow> jdict" where
  "completion_payload p messages opts json_mode =
     [(''model'', JStr (pv_model p)), (''messages'', messages), (''temperature'', JFloat (opt_temperature opts)), (''stream'', JBool (opt_stream opts))] @
     (case opt_max_tokens opts of Some n \<Rightarrow> if 0 < n then [(''max_tokens'', JInt n)] else [] | None \<Rightarrow> []) @
     (if opt_stream opts \<and> opt_include_usage opts then [(''stream_options'', JDict [(''include_usage'', JBool True)])] else []) @
     (if json_mode then [(''response_format'', JDict [(''type'', JStr ''json_object'')])] else [])"

text \<open>The number of requests made before and after is threaded through.\<close>

definition finish_completion :: "openai_provider \<Rightarrow> nat \<Rightarrow> (jdict \<times> string \<times> json) provided \<Rightarrow> model_response provided" where
  "finish_completion p n x =
     bind_res x (\<lambda>y.
       case y of
         Inl f \<Rightarrow> Inr (Inl f)
       | Inr (raw, text, usage) \<Rightarrow>
           if blank text then Inr (Inl (failure_of ''Provider returned an empty completion'' ''EMPTY_RESPONSE''))
           else
             bind_res (parse_model_usage usage) (\<lambda>u. bind_res (extract_finish_reason raw) (\<lambda>reason.
               Inr (Inr \<lparr>mr_text = text, mr_raw = raw, mr_usage = u, mr_latency_ms = pv_latency_ms p n, mr_finish_reason = reason\<rparr>))))"

definition complete :: "openai_provider \<Rightarrow> json \<Rightarrow> completion_options \<Rightarrow> nat \<Rightarrow> model_response provided \<times> nat" where
  "complete p messages opts n =
     (case request_once p (opt_stream opts) (completion_payload p messages opts (opt_json_mode opts)) n of
        Inr (Inl f) \<Rightarrow>
          if opt_json_mode opts \<and> lf_code f = ''BAD_REQUEST'' then
            (finish_completion p (n + 1) (request_once p (opt_stream opts) (completion_payload p messages opts False) (n + 1)), n + 2)
          else (Inr (Inl f), n + 1)
      | x \<Rightarrow> (finish_completion p n x, n + 1))"

section \<open>Properties\<close>

lemma within_unit_iff: "within_unit x \<longleftrightarrow> (\<exists>q. x = Fin q \<and> 0 \<le> q \<and> q \<le> 1)"
  by (cases x) (auto simp: within_unit_def)

definition sane_backoff :: "backoff \<Rightarrow> bool" where
  "sane_backoff b = (0 < bo_initial_delay_ms b \<and> bo_initial_delay_ms b \<le> bo_max_delay_ms b \<and> within_unit (bo_jitter_ratio b))"

definition sane_policy :: "retry_policy \<Rightarrow> bool" where
  "sane_policy p =
     (rp_mode p \<in> {''normal'', ''always''} \<and> 0 \<le> rp_max_retries p \<and> rp_retryable_codes p \<noteq> [] \<and> distinct (rp_retryable_codes p) \<and>
      set (rp_retryable_codes p) \<subseteq> set all_codes \<and> sane_backoff (rp_backoff p))"

lemma default_backoff_sane: "sane_backoff default_backoff"
  by code_simp

lemma default_policy_sane: "sane_policy default_retry_policy"
  by code_simp

lemma resolve_codes_sane: "resolve_codes v = Inr cs \<Longrightarrow> cs \<noteq> [] \<and> distinct cs \<and> set cs \<subseteq> set all_codes"
  by (auto simp: resolve_codes_def Let_def filter_empty_conv split: json.splits list.splits if_splits)

lemma resolve_backoff_sane: "resolve_backoff v = Inr b \<Longrightarrow> sane_backoff b"
  using default_backoff_sane by (auto simp: resolve_backoff_def sane_backoff_def Let_def split: json.splits if_splits)

lemma resolve_policy_parts:
  assumes "resolve_retry_policy (Some d) = Inr p" "d \<noteq> []"
  shows "\<exists>n codes bo mode. p = \<lparr>rp_mode = mode, rp_max_retries = n, rp_retryable_codes = codes, rp_backoff = bo\<rparr> \<and>
    mode \<in> {''normal'', ''always''} \<and> 0 \<le> n \<and>
    resolve_codes (jget_or d ''retryable_codes'' (strs transient_codes)) = Inr codes \<and> resolve_backoff (jget d ''backoff'') = Inr bo"
proof -
  obtain kv d' where d: "d = kv # d'" using assms(2) by (cases d) auto
  define mode where "mode = jget_or d ''mode'' (JStr ''normal'')"
  have mode: "mode = JStr ''normal'' \<or> mode = JStr ''always''"
    using assms(1) unfolding d resolve_retry_policy_def Let_def by (simp add: mode_def d split: if_splits)
  have unknown: "unknown_keys [''mode'', ''max_retries'', ''retryable_codes'', ''backoff''] d = []"
    using assms(1) unfolding d resolve_retry_policy_def Let_def by (simp split: if_splits)
  have body: "(case jget_or d ''max_retries'' (JInt 2) of
       JInt n \<Rightarrow>
         if n < 0 then Inl (ValueError ''retry_policy.max_retries must be a non-negative integer'')
         else
           bind_res (resolve_codes (jget_or d ''retryable_codes'' (strs transient_codes))) (\<lambda>codes.
           bind_res (resolve_backoff (jget d ''backoff'')) (\<lambda>bo.
             Inr \<lparr>rp_mode = py_str mode, rp_max_retries = n, rp_retryable_codes = codes, rp_backoff = bo\<rparr>))
     | _ \<Rightarrow> Inl (ValueError ''retry_policy.max_retries must be a non-negative integer'')) = Inr p"
    using assms(1) mode unknown unfolding mode_def d resolve_retry_policy_def Let_def by auto
  obtain n where "jget_or d ''max_retries'' (JInt 2) = JInt n" using body by (cases "jget_or d ''max_retries'' (JInt 2)") simp_all
  then show ?thesis using body mode by (cases "n < 0") auto
qed

text \<open>C40: A retry policy that validation accepts is one the executor can rely on: a known mode, a bound that is not
  negative, at least one retryable code, all of them known and none twice, delays that are positive and in order, and a
  jitter between 0 and 1 (so not NaN); whatever the configuration holds, every other one is refused with an exception.\<close>

theorem retry_policy_sane:
  assumes "resolve_retry_policy config = Inr p"
  shows "sane_policy p"
proof (cases "config = None \<or> config = Some []")
  case True
  then show ?thesis using assms default_policy_sane by (auto simp: resolve_retry_policy_def)
next
  case False
  then obtain d where d: "config = Some d" "d \<noteq> []" by auto
  obtain n codes bo mode where p: "p = \<lparr>rp_mode = mode, rp_max_retries = n, rp_retryable_codes = codes, rp_backoff = bo\<rparr>"
    "mode \<in> {''normal'', ''always''}" "0 \<le> n" "resolve_codes (jget_or d ''retryable_codes'' (strs transient_codes)) = Inr codes"
    "resolve_backoff (jget d ''backoff'') = Inr bo"
    using resolve_policy_parts [OF assms [unfolded d(1)] d(2)] by blast
  show ?thesis
    using p(2,3) resolve_codes_sane [OF p(4)] resolve_backoff_sane [OF p(5)] by (auto simp: p(1) sane_policy_def)
qed

lemma retry_policy_sane_witness:
  "sane_policy \<lparr>rp_mode = ''always'', rp_max_retries = 5, rp_retryable_codes = [''SERVER''],
     rp_backoff = \<lparr>bo_initial_delay_ms = 10, bo_max_delay_ms = 20, bo_jitter_ratio = Fin 1\<rparr>\<rparr>"
proof (rule retry_policy_sane)
  show "resolve_retry_policy (Some [(''mode'', JStr ''always''), (''max_retries'', JInt 5), (''retryable_codes'', strs [''SERVER'']),
      (''backoff'', JDict [(''initial_delay_ms'', JInt 10), (''max_delay_ms'', JInt 20), (''jitter_ratio'', JFloat (Fin 1))])]) =
    Inr \<lparr>rp_mode = ''always'', rp_max_retries = 5, rp_retryable_codes = [''SERVER''],
      rp_backoff = \<lparr>bo_initial_delay_ms = 10, bo_max_delay_ms = 20, bo_jitter_ratio = Fin 1\<rparr>\<rparr>"
    by (simp add: resolve_retry_policy_def unknown_keys_def jget_or_def jget_def strs_def resolve_codes_def resolve_backoff_def all_codes_def
        transient_codes_def within_unit_def)
qed

definition stable :: "llm_failure \<Rightarrow> bool" where
  "stable f = (lf_code f \<in> set all_codes)"

lemma stable_http_code: "http_code stat body \<in> set all_codes"
  by (simp add: http_code_def all_codes_def transient_codes_def)

lemma stable_failure_of: "stable (failure_of msg code) \<longleftrightarrow> code \<in> set all_codes"
  by (simp add: stable_def failure_of_def)

lemma stable_broken: "stable (broken what t name is_timeout timed_out)"
  by (simp add: broken_def stable_failure_of) (simp add: all_codes_def transient_codes_def)

lemma stable_refused: "refused p r = Inr (Inl f) \<Longrightarrow> stable f"
  by (auto simp: refused_def classify_http_status_def stable_def stable_http_code)

lemma stable_post: "post_json p out = Inr (Inl f) \<Longrightarrow> stable f"
proof -
  have unknown: "''UNKNOWN'' \<in> set all_codes" by (simp add: all_codes_def)
  obtain o' t where "out = (o', t)" by (cases out)
  then show "post_json p out = Inr (Inl f) \<Longrightarrow> stable f"
    by (cases o') (auto simp: post_json_def stable_broken stable_refused stable_failure_of unknown
        split: if_splits option.splits json.splits)
qed

lemma stable_stream: "complete_stream p out = Inr (Inl f) \<Longrightarrow> stable f"
proof -
  assume a: "complete_stream p out = Inr (Inl f)"
  obtain o' t where out: "out = (o', t)" by (cases out)
  show ?thesis
  proof (cases o')
    case (Lines lines e)
    obtain fin chunks content usage where r: "read_stream lines [] [] JNull = Inr (fin, chunks, content, usage)"
      using a out Lines by (cases "read_stream lines [] [] JNull") (auto simp: complete_stream_def)
    show ?thesis using a out Lines r
      by (cases "if fin then None else e") (auto simp: complete_stream_def stable_broken split: if_splits)
  qed (use a out in \<open>auto simp: complete_stream_def stable_broken stable_refused\<close>)
qed

lemma stable_request: "request_once p stream payload n = Inr (Inl f) \<Longrightarrow> stable f"
proof (cases stream)
  case False
  then show "request_once p stream payload n = Inr (Inl f) \<Longrightarrow> stable f"
    using stable_post [of p "pv_send p n payload"] by (cases "post_json p (pv_send p n payload)") (auto simp: request_once_def split: sum.splits)
qed (auto simp: request_once_def intro: stable_stream)

lemma provided_cases:
  obtains (exn) err where "x = Inl err" | (failure) f where "x = Inr (Inl f)" | (answer) a b c where "x = Inr (Inr (a, b, c))"
  by (metis prod_cases3 sum.exhaust)

lemma finish_simps [simp]:
  "finish_completion p n (Inl err) = Inl err"
  "finish_completion p n (Inr (Inl f)) = Inr (Inl f)"
  by (simp_all add: finish_completion_def)

lemma finish_failure: "finish_completion p n x = Inr (Inl f) \<Longrightarrow> x = Inr (Inl f) \<or> lf_code f = ''EMPTY_RESPONSE''"
  by (cases x rule: provided_cases) (auto simp: finish_completion_def failure_of_def split: if_splits)

lemma finish_success: "finish_completion p n x = Inr (Inr r) \<Longrightarrow> \<not> blank (mr_text r)"
  by (cases x rule: provided_cases) (auto simp: finish_completion_def split: if_splits)

lemma complete_result:
  "case complete p messages opts n of
     (x, n') \<Rightarrow>
       (case x of Inr (Inr r) \<Rightarrow> \<not> blank (mr_text r) | Inr (Inl f) \<Rightarrow> lf_code f \<in> set all_codes | Inl _ \<Rightarrow> True) \<and>
       (if opt_json_mode opts \<and>
           (case request_once p (opt_stream opts) (completion_payload p messages opts (opt_json_mode opts)) n of Inr (Inl f) \<Rightarrow> lf_code f = ''BAD_REQUEST'' | _ \<Rightarrow> False)
        then n' = n + 2 else n' = n + 1)"
proof -
  have empty: "''EMPTY_RESPONSE'' \<in> set all_codes" by (simp add: all_codes_def transient_codes_def)
  have fin: "lf_code f \<in> set all_codes" if "finish_completion p k (request_once p st pl k') = Inr (Inl f)" for k k' st pl f
    using finish_failure [OF that] stable_request empty by (auto simp: stable_def)
  let ?x = "request_once p (opt_stream opts) (completion_payload p messages opts (opt_json_mode opts)) n"
  show ?thesis
  proof (cases ?x rule: provided_cases)
    case (exn err)
    then show ?thesis by (simp add: complete_def)
  next
    case (failure f)
    then have "lf_code f \<in> set all_codes" using stable_request by (simp add: stable_def)
    then show ?thesis using fin finish_success failure by (auto simp: complete_def split: sum.split)
  next
    case (answer a b c)
    have "(case y of Inr (Inr r) \<Rightarrow> \<not> blank (mr_text r) | Inr (Inl f) \<Rightarrow> lf_code f \<in> set all_codes | Inl _ \<Rightarrow> True)"
      if "y = finish_completion p n ?x" for y
      using that fin finish_success by (auto split: sum.split)
    then show ?thesis using answer by (simp add: complete_def)
  qed
qed

text \<open>An attempt at a completion ends in one of three ways: with an answer whose text is not blank, with a provider
  failure that carries one of the stable codes (what retry and failover decide on), or with another exception. It makes
  one request, or two: the second one, without native JSON mode, only after a bad request in JSON mode.\<close>

theorem completion_outcomes:
  "case complete p messages opts n of
     (x, n') \<Rightarrow>
       (case x of Inr (Inr r) \<Rightarrow> \<not> blank (mr_text r) | Inr (Inl f) \<Rightarrow> lf_code f \<in> set all_codes | Inl _ \<Rightarrow> True) \<and>
       (if opt_json_mode opts \<and>
           (case request_once p (opt_stream opts) (completion_payload p messages opts (opt_json_mode opts)) n of Inr (Inl f) \<Rightarrow> lf_code f = ''BAD_REQUEST'' | _ \<Rightarrow> False)
        then n' = n + 2 else n' = n + 1)"
  by (rule complete_result)

end
