(* ===== verification/Turns.thy ===== *)
theory Turns
  imports Provider Handler
begin

text \<open>
  One turn of the model (\<^verbatim>\<open>core/runner.py\<close>), the accounting of its usage, and the two layers around
  it: retries on one route (\<^verbatim>\<open>core/retry.py\<close>) and failover across routes (\<^verbatim>\<open>core/failover.py\<close>).

  The interface the agent loop relies on is the locale \<open>turn_provider\<close>: a turn either fails, and then
  no turn is counted and nothing but metrics has changed, or it is counted exactly once. The direct
  provider, the retrying one and the failover chain all satisfy it. The accounting stays in range: the
  theoretical figures never exceed what was observed, and rates of sane figures are between 0 and 1.
\<close>

section \<open>Runner\<close>

record model_provider =
  mp_name :: string
  mp_complete :: "json \<Rightarrow> completion_options \<Rightarrow> nat \<Rightarrow> model_response provided \<times> nat"

definition openai :: "openai_provider \<Rightarrow> model_provider" where
  "openai p = \<lparr>mp_name = pv_name p, mp_complete = complete p\<rparr>"

record turn_config =
  tc_max_protocol_errors :: int
  tc_max_action_timeout_sec :: int
  tc_options :: completion_options
  tc_max_tool_calls :: int

record runner =
  rn_protocol_errors :: int
  rn_requests :: nat \<comment> \<open>requests sent so far\<close>

record model_turn =
  mt_action :: "action option"
  mt_observation :: "observation option"
  mt_continue :: bool

section \<open>Which model answered\<close>

definition truthy_texts :: "string \<Rightarrow> jdict list \<Rightarrow> string list" where
  "truthy_texts k ds = map py_str (filter truthy (map (\<lambda>d. jget d k) ds))"

definition merge_names :: "string \<Rightarrow> string list \<Rightarrow> run_state \<Rightarrow> run_state result" where
  "merge_names k names st =
     bind_res (get_strs (jget_or (metrics st) k (JList []))) (\<lambda>old. Inr (mset k (strs (sort (remdups (old @ names)))) st))"

definition accumulate_response_identity :: "jdict \<Rightarrow> run_state \<Rightarrow> run_state result" where
  "accumulate_response_identity raw st =
     (let chunks = (case jget raw ''chunks'' of JList xs \<Rightarrow> concat (map (\<lambda>x. case x of JDict d \<Rightarrow> [d] | _ \<Rightarrow> []) xs) | _ \<Rightarrow> []);
          ds = raw # chunks
      in bind_res (merge_names ''provider_response_models'' (truthy_texts ''model'' ds) st)
           (merge_names ''provider_system_fingerprints'' (truthy_texts ''system_fingerprint'' ds)))"

section \<open>Cacheability\<close>

definition optional_int :: "json \<Rightarrow> int option result" where
  "optional_int v = (case v of JList _ \<Rightarrow> Inr None | JDict _ \<Rightarrow> Inr None | _ \<Rightarrow> int_or_none v)"

definition ratio :: "json \<Rightarrow> int \<Rightarrow> int \<Rightarrow> json result" where \<comment> \<open>\<^verbatim>\<open>a / b if b else d\<close>\<close>
  "ratio d a b = (if b = 0 then Inr d else bind_res (int_div a b) (\<lambda>x. Inr (JFloat x)))"

definition mset_ratio :: "string \<Rightarrow> json \<Rightarrow> int \<Rightarrow> int \<Rightarrow> run_state \<Rightarrow> run_state result" where
  "mset_ratio k d a b st = bind_res (ratio d a b) (\<lambda>r. Inr (mset k r st))"

text \<open>How many tokens the cache could have served: input, output and where the figure comes from.\<close>

definition theoretical_tokens :: "int \<Rightarrow> jdict \<Rightarrow> (int \<times> int \<times> string) result" where
  "theoretical_tokens prompt m =
     bind_res (optional_int (jget m ''cache_previous_provider_prompt_tokens'')) (\<lambda>prev_prompt.
     bind_res (optional_int (jget m ''cache_previous_provider_completion_tokens'')) (\<lambda>prev_completion.
       case (if truthy (jget m ''cache_prefix_previous_is_exact'') then prev_prompt else None) of
         Some p \<Rightarrow>
           Inr (min prompt p, min prompt (p + max (case prev_completion of Some c \<Rightarrow> c | None \<Rightarrow> 0) 0), ''provider_input_boundary'')
       | None \<Rightarrow>
           (let est = max (mget m ''cache_prefix_current_estimated_tokens'') 0; lcp = max (mget m ''cache_prefix_lcp_estimated_tokens'') 0
            in if \<not> truthy (jget m ''cache_prefix_local_cold_start'') \<and> 0 < est \<and> 0 < lcp then
                 bind_res (int_div (prompt * lcp) est) (\<lambda>x.
                   let t = min prompt (case x of Fin q \<Rightarrow> round_half_even q | _ \<Rightarrow> 0)
                   in Inr (t, t, ''estimated_message_lcp''))
               else Inr (0, 0, ''unavailable''))))"

definition record_steady_state :: "int \<Rightarrow> int \<Rightarrow> run_state \<Rightarrow> run_state result" where
  "record_steady_state hit prompt st =
     (let seen = truthy (jget (metrics st) ''cache_steady_state_observed'');
          st1 = (if 0 < hit \<and> \<not> seen then
                   mset ''cache_steady_state_start_request_index'' (JInt (mget (metrics st) ''cache_prefix_request_index''))
                     (mset ''cache_steady_state_observed'' (JBool True) st)
                 else st)
      in if 0 < hit \<or> seen then
           (let st2 = bump ''cache_steady_state_request_count''
                  (add_metric ''cache_steady_state_prompt_tokens'' prompt (add_metric ''cache_steady_state_hit_tokens'' hit st1))
            in mset_ratio ''cache_steady_state_hit_rate'' JNull (mget (metrics st2) ''cache_steady_state_hit_tokens'')
                 (mget (metrics st2) ''cache_steady_state_prompt_tokens'') st2)
         else Inr st1)"

definition record_hit_block :: "int \<Rightarrow> run_state \<Rightarrow> run_state" where
  "record_hit_block hit st =
     (if 0 < hit then
        (let b = max (mget (metrics st) ''cache_empirical_hit_block_tokens'') 0
         in mset ''cache_empirical_hit_block_tokens'' (JInt (if b = 0 then hit else gcd b hit)) st)
      else st)"

definition accumulate_cacheability :: "model_usage \<Rightarrow> int \<Rightarrow> int \<Rightarrow> run_state \<Rightarrow> run_state result" where
  "accumulate_cacheability u hit prompt st =
     bind_res (theoretical_tokens prompt (metrics st)) (\<lambda>(tin, tout, tkind).
       let eligible = (if 0 < tin then min hit tin else 0);
           st1 = add_metric ''cache_capture_observed_hit_tokens'' eligible
                   (add_metric ''cache_theoretical_output_tokens'' tout (add_metric ''cache_theoretical_input_tokens'' tin st));
           captured = mget (metrics st1) ''cache_capture_observed_hit_tokens''
       in
         bind_res (mset_ratio ''cache_capture_efficiency_input'' JNull captured (mget (metrics st1) ''cache_theoretical_input_tokens'') st1) (\<lambda>st2.
         bind_res (mset_ratio ''cache_capture_efficiency_output'' JNull captured (mget (metrics st2) ''cache_theoretical_output_tokens'') st2) (\<lambda>st3.
         bind_res (record_steady_state hit prompt st3) (\<lambda>st4.
           let st5 = mset ''cache_theoretical_token_kind_current'' (JStr tkind)
                       (mset ''cache_theoretical_output_tokens_current'' (JInt tout)
                         (mset ''cache_theoretical_input_tokens_current'' (JInt tin) (record_hit_block hit st4)))
           in
             bind_res (mset_ratio ''cache_capture_efficiency_input_current'' JNull (min hit tin) tin st5) (\<lambda>st6.
               Inr (mset ''cache_previous_provider_completion_tokens'' (JInt (case mu_completion u of Some c \<Rightarrow> c | None \<Rightarrow> 0))
                     (mset ''cache_previous_provider_prompt_tokens''
                       (JInt (case mu_prompt u of Some p \<Rightarrow> p | None \<Rightarrow> prompt)) st6)))))))"

section \<open>Usage\<close>

definition add_present :: "string \<Rightarrow> int option \<Rightarrow> run_state \<Rightarrow> run_state" where
  "add_present k v st = (case v of None \<Rightarrow> st | Some n \<Rightarrow> add_metric k n st)"

text \<open>Hit tokens and prompt tokens, when the provider reports enough of them.\<close>

definition observed_tokens :: "model_usage \<Rightarrow> (int \<times> int) option" where
  "observed_tokens u =
     (case (mu_cache_hit u, mu_cache_miss u) of
        (Some h, Some m) \<Rightarrow> Some (h, h + m)
      | _ \<Rightarrow> (case (mu_cached u, mu_prompt u) of (Some c, Some p) \<Rightarrow> Some (c, p) | _ \<Rightarrow> None))"

definition opt_float :: "pyfloat option \<Rightarrow> json" where
  "opt_float v = (case v of None \<Rightarrow> JNull | Some x \<Rightarrow> JFloat x)"

definition request_hit_rate :: "model_usage \<Rightarrow> int option \<Rightarrow> json result" where
  "request_hit_rate u cache_read =
     (case mu_cache_hit_rate u of
        Some x \<Rightarrow> Inr (JFloat x)
      | None \<Rightarrow> (case (cache_read, mu_prompt u) of (Some r, Some p) \<Rightarrow> ratio JNull r p | _ \<Rightarrow> Inr JNull))"

definition record_cache_request :: "model_usage \<Rightarrow> int \<Rightarrow> run_state \<Rightarrow> run_state result" where
  "record_cache_request u latency st =
     (let m = metrics st; prompt = mu_prompt u;
          cache_read = (case mu_cache_hit u of None \<Rightarrow> mu_cached u | x \<Rightarrow> x);
          uncached = (case mu_cache_miss u of
                        None \<Rightarrow> (case (prompt, cache_read) of (Some p, Some r) \<Rightarrow> Some (max (p - r) 0) | _ \<Rightarrow> None)
                      | x \<Rightarrow> x);
          model = (case jget m ''provider_response_models'' of JList xs \<Rightarrow> if xs = [] then JNull else last xs | _ \<Rightarrow> JNull);
          compactions = mget m ''context_compactions''
      in bind_res (request_hit_rate u cache_read) (\<lambda>rate.
           let entry =
             [(''request_index'', JInt (mget m ''cache_prefix_request_index'')), (''provider'', jget m ''provider_name''), (''model'', model),
              (''prompt_tokens'', opt_int prompt), (''completion_tokens'', opt_int (mu_completion u)), (''cache_read_tokens'', opt_int cache_read),
              (''cache_write_tokens'', JNull), (''uncached_tokens'', opt_int uncached), (''cache_hit_rate'', rate),
              (''system_prefix_estimated_tokens'', jget m ''cache_layer_system_estimated_tokens_current''),
              (''project_prefix_estimated_tokens'', jget m ''cache_layer_project_estimated_tokens_current''),
              (''conversation_estimated_tokens'', jget m ''cache_layer_conversation_estimated_tokens_current''),
              (''prefix_hash'', jget m ''cache_prefix_request_sha256''),
              (''previous_request_is_prefix'', JBool (truthy (jget m ''cache_prefix_previous_is_exact''))),
              (''longest_common_prefix_estimated_tokens'', jget m ''cache_prefix_lcp_estimated_tokens''),
              (''prefix_reset_reason'', jget m ''cache_prefix_reset_reason''),
              (''compaction_id'', if compactions = 0 then JNull else JInt compactions), (''latency_ms'', JInt latency)];
             old = (case jget_or m ''cache_requests'' (JList []) of JList xs \<Rightarrow> xs | _ \<Rightarrow> [])
           in Inr (mset ''cache_requests'' (JList (old @ [JDict entry])) st)))"

definition accumulate_observed :: "model_usage \<Rightarrow> run_state \<Rightarrow> run_state result" where
  "accumulate_observed u st =
     (case observed_tokens u of
        None \<Rightarrow> Inr (bump ''cache_unreported_requests'' st)
      | Some (hit, prompt) \<Rightarrow>
          (let st1 = add_metric ''cache_observed_prompt_tokens'' prompt
                       (add_metric ''cache_observed_hit_tokens'' hit
                         (bump ''cache_metric_requests'' (mset ''cache_metrics_available'' (JBool True) st)))
           in bind_res (mset_ratio ''cache_hit_rate'' (JFloat (Fin 0)) (mget (metrics st1) ''cache_observed_hit_tokens'')
                  (mget (metrics st1) ''cache_observed_prompt_tokens'') st1)
                (accumulate_cacheability u hit prompt)))"

definition accumulate_usage :: "model_usage \<Rightarrow> int \<Rightarrow> run_state \<Rightarrow> run_state result" where
  "accumulate_usage u latency st =
     bind_res
       (accumulate_observed u
         (add_present ''prompt_cache_miss_tokens'' (mu_cache_miss u) (add_present ''prompt_cache_hit_tokens'' (mu_cache_hit u)
           (add_present ''cached_tokens'' (mu_cached u) (add_present ''total_tokens'' (mu_total u)
             (add_present ''completion_tokens'' (mu_completion u) (add_present ''prompt_tokens'' (mu_prompt u) st)))))))
       (\<lambda>st1. record_cache_request u latency (add_metric ''latency_ms'' latency st1))"

section \<open>A turn\<close>

text \<open>\<^verbatim>\<open>state.metrics[k] += 1\<close>, which needs the key.\<close>

definition bump_present :: "string \<Rightarrow> run_state \<Rightarrow> run_state result" where
  "bump_present k st = (if has_key (metrics st) k then Inr (bump k st) else Inl KeyError)"

definition protocol_observation :: "string \<Rightarrow> string \<Rightarrow> observation" where
  "protocol_observation msg raw =
     \<lparr>ob_kind = ''protocol_error'', ob_exit_code = None, ob_stdout_preview = [], ob_stderr_preview = take 4000 raw, ob_artifact_ids = [],
      ob_message = msg, ob_duration_ms = 0\<rparr>"

definition answer_turn :: "turn_config \<Rightarrow> model_response \<Rightarrow> run_state \<Rightarrow> runner \<Rightarrow> (model_turn \<times> run_state \<times> runner) result" where
  "answer_turn cfg resp st rn =
     (case parse_action (mr_text resp) 60 (Some (tc_max_action_timeout_sec cfg)) (tc_max_tool_calls cfg) of
        Inr a \<Rightarrow> Inr (\<lparr>mt_action = Some a, mt_observation = None, mt_continue = True\<rparr>, st, rn\<lparr>rn_protocol_errors := 0\<rparr>)
      | Inl (ProtocolError msg raw) \<Rightarrow>
          (let ob = protocol_observation msg raw
           in if mr_finish_reason resp = JStr ''length'' then
                Inr (\<lparr>mt_action = None, mt_observation = Some ob, mt_continue = False\<rparr>,
                     session_fail ''Run failed because the provider truncated the model response at its output limit (finish_reason=length).'' st, rn)
              else
                (let rn1 = rn\<lparr>rn_protocol_errors := rn_protocol_errors rn + 1\<rparr>
                 in bind_res (bump_present ''protocol_errors'' st) (\<lambda>st1.
                      if tc_max_protocol_errors cfg < rn_protocol_errors rn1 then
                        Inr (\<lparr>mt_action = None, mt_observation = Some ob, mt_continue = False\<rparr>,
                             session_fail ''Run failed because the model repeatedly violated the action protocol.'' st1, rn1)
                      else Inr (\<lparr>mt_action = None, mt_observation = Some ob, mt_continue = True\<rparr>, st1, rn1))))
      | Inl err \<Rightarrow> Inl err)"

type_synonym turn_result = "((llm_failure + model_turn) \<times> run_state \<times> runner) result"

definition next_turn :: "turn_config \<Rightarrow> model_provider \<Rightarrow> json \<Rightarrow> run_state \<Rightarrow> runner \<Rightarrow> turn_result" where
  "next_turn cfg p messages st rn =
     (let st1 = mset ''provider_name'' (JStr (mp_name p)) st;
          (answer, n) = mp_complete p messages (tc_options cfg) (rn_requests rn);
          rn1 = rn\<lparr>rn_requests := n\<rparr>
      in bind_res answer (\<lambda>x.
           case x of
             Inl f \<Rightarrow> Inr (Inl f, st1, rn1)
           | Inr resp \<Rightarrow>
               bind_res (bump_present ''turns'' st1) (\<lambda>st2.
               bind_res (accumulate_response_identity (mr_raw resp) st2) (\<lambda>st3.
               bind_res (accumulate_usage (mr_usage resp) (mr_latency_ms resp) st3) (\<lambda>st4.
               bind_res (answer_turn cfg resp st4 rn1) (\<lambda>(t, st5, rn2). Inr (Inr t, st5, rn2)))))))"

section \<open>Retries\<close>

text \<open>Floating-point steps; an infinite result would raise when it is rounded to an integer.\<close>

definition finite_float :: "pyfloat \<Rightarrow> (rat \<Rightarrow> 'a result) \<Rightarrow> 'a result" where
  "finite_float x f = (case x of Fin q \<Rightarrow> f q | _ \<Rightarrow> Inl OverflowError)"

text \<open>\<^verbatim>\<open>max(0, int(round(base * (1.0 + jitter_ratio * (2.0 * rng() - 1.0)))))\<close>, rounded at every step.\<close>

definition jittered :: "pyfloat \<Rightarrow> pyfloat \<Rightarrow> int \<Rightarrow> int result" where
  "jittered jitter_ratio rnd base =
     finite_float jitter_ratio (\<lambda>j. finite_float rnd (\<lambda>r. finite_float (f64 (2 * r)) (\<lambda>two. finite_float (f64 (two - 1)) (\<lambda>d.
     finite_float (f64 (j * d)) (\<lambda>jitter. finite_float (f64 (1 + jitter)) (\<lambda>factor. bind_res (float_of_int base) (\<lambda>b. finite_float b (\<lambda>bq.
     finite_float (f64 (bq * factor)) (\<lambda>x. Inr (max 0 (round_half_even x)))))))))))"

definition base_delay :: "backoff \<Rightarrow> nat \<Rightarrow> int" where
  "base_delay b retry_index = min (bo_initial_delay_ms b * 2 ^ retry_index) (bo_max_delay_ms b)"

definition compute_delay :: "retry_policy \<Rightarrow> nat \<Rightarrow> int option \<Rightarrow> pyfloat \<Rightarrow> int option result" where
  "compute_delay policy retry_index retry_after rnd =
     (let b = rp_backoff policy;
          local = bind_res (jittered (bo_jitter_ratio b) rnd (base_delay b retry_index)) (\<lambda>d. Inr (Some d))
      in case retry_after of
           Some ra \<Rightarrow>
             if 0 < ra then
               (if bo_max_delay_ms b < ra then (if rp_mode policy = ''normal'' then Inr None else local) else Inr (Some ra))
             else local
         | None \<Rightarrow> local)"

definition retry_stops :: "retry_policy \<Rightarrow> nat \<Rightarrow> llm_failure \<Rightarrow> bool" where
  "retry_stops policy attempted f =
     (lf_code f \<notin> set (rp_retryable_codes policy) \<or> (rp_mode policy = ''normal'' \<and> rp_max_retries policy < int attempted))"

definition count_attempts :: "nat \<Rightarrow> run_state \<Rightarrow> run_state" where
  "count_attempts attempted st =
     (let st1 = add_metric ''provider_request_attempts'' (int attempted) st
      in if 1 < attempted then bump ''provider_retried_requests'' st1 else st1)"

text \<open>\<open>None\<close> means that the loop never returns. The random number is the one drawn after the n-th
  request; the list of reasons has one entry per failed attempt.\<close>

partial_function (option) run_with_retry ::
  "turn_config \<Rightarrow> model_provider \<Rightarrow> retry_policy \<Rightarrow> (nat \<Rightarrow> pyfloat) \<Rightarrow> json \<Rightarrow> string list \<Rightarrow> run_state \<Rightarrow> runner \<Rightarrow> turn_result option" where
  "run_with_retry cfg p policy rng messages reasons st rn =
     (case next_turn cfg p messages st rn of
        Inl err \<Rightarrow> Some (Inl err)
      | Inr (x, st1, rn1) \<Rightarrow>
          (case x of
             Inr t \<Rightarrow> Some (Inr (Inr t, count_attempts (Suc (length reasons)) st1, rn1))
           | Inl f \<Rightarrow>
               if retry_stops policy (Suc (length reasons)) f then Some (Inr (Inl f, st1, rn1))
               else
                 (case compute_delay policy (length reasons) (lf_retry_after_ms f) (rng (rn_requests rn1)) of
                    Inl err \<Rightarrow> Some (Inl err)
                  | Inr None \<Rightarrow> Some (Inr (Inl f, st1, rn1))
                  | Inr (Some d) \<Rightarrow> run_with_retry cfg p policy rng messages (reasons @ [lf_code f]) st1 rn1)))"

declare run_with_retry.simps [code]

section \<open>Failover\<close>

type_synonym route = "string \<times> model_provider \<times> retry_policy"

fun failover_turn ::
  "turn_config \<Rightarrow> string list \<Rightarrow> int \<Rightarrow> (nat \<Rightarrow> pyfloat) \<Rightarrow> json \<Rightarrow> int \<Rightarrow> route list \<Rightarrow> run_state \<Rightarrow> runner \<Rightarrow> turn_result option" where
  "failover_turn cfg on max_hops rng messages hops [] st rn = Some (Inl AssertionError)"
| "failover_turn cfg on max_hops rng messages hops ((name, p, policy) # routes) st rn =
     (case run_with_retry cfg p policy rng messages [] st rn of
        Some (Inr (Inl f, st1, rn1)) \<Rightarrow>
          if routes = [] \<or> lf_code f \<notin> set on \<or> (0 < max_hops \<and> max_hops \<le> hops) then Some (Inr (Inl f, st1, rn1))
          else failover_turn cfg on max_hops rng messages (hops + 1) routes st1 rn1
      | x \<Rightarrow> x)"

definition failover_chain :: "route list \<Rightarrow> route list result" where
  "failover_chain routes = (if routes = [] then Inl (ValueError ''ProviderFailoverChain requires at least one route'') else Inr routes)"

section \<open>What a turn leaves alone\<close>

definition account_keys :: "string set" where
  "account_keys =
     {''provider_name'', ''protocol_errors'', ''provider_response_models'', ''provider_system_fingerprints'', ''prompt_tokens'',
      ''completion_tokens'', ''total_tokens'', ''cached_tokens'', ''prompt_cache_hit_tokens'', ''prompt_cache_miss_tokens'',
      ''cache_unreported_requests'', ''cache_metrics_available'', ''cache_metric_requests'', ''cache_observed_hit_tokens'',
      ''cache_observed_prompt_tokens'', ''cache_hit_rate'', ''cache_theoretical_input_tokens'', ''cache_theoretical_output_tokens'',
      ''cache_capture_observed_hit_tokens'', ''cache_capture_efficiency_input'', ''cache_capture_efficiency_output'',
      ''cache_steady_state_observed'', ''cache_steady_state_start_request_index'', ''cache_steady_state_hit_tokens'',
      ''cache_steady_state_prompt_tokens'', ''cache_steady_state_request_count'', ''cache_steady_state_hit_rate'',
      ''cache_empirical_hit_block_tokens'', ''cache_theoretical_input_tokens_current'', ''cache_theoretical_output_tokens_current'',
      ''cache_theoretical_token_kind_current'', ''cache_capture_efficiency_input_current'', ''cache_previous_provider_prompt_tokens'',
      ''cache_previous_provider_completion_tokens'', ''latency_ms'', ''cache_requests'', ''provider_request_attempts'',
      ''provider_retried_requests''}"

lemma account_key [simp]:
  "''provider_name'' \<in> account_keys" "''protocol_errors'' \<in> account_keys" "''provider_response_models'' \<in> account_keys"
  "''provider_system_fingerprints'' \<in> account_keys" "''prompt_tokens'' \<in> account_keys" "''completion_tokens'' \<in> account_keys"
  "''total_tokens'' \<in> account_keys" "''cached_tokens'' \<in> account_keys" "''prompt_cache_hit_tokens'' \<in> account_keys"
  "''prompt_cache_miss_tokens'' \<in> account_keys" "''cache_unreported_requests'' \<in> account_keys"
  "''cache_metrics_available'' \<in> account_keys" "''cache_metric_requests'' \<in> account_keys"
  "''cache_observed_hit_tokens'' \<in> account_keys" "''cache_observed_prompt_tokens'' \<in> account_keys"
  "''cache_hit_rate'' \<in> account_keys" "''cache_theoretical_input_tokens'' \<in> account_keys"
  "''cache_theoretical_output_tokens'' \<in> account_keys" "''cache_capture_observed_hit_tokens'' \<in> account_keys"
  "''cache_capture_efficiency_input'' \<in> account_keys" "''cache_capture_efficiency_output'' \<in> account_keys"
  "''cache_steady_state_observed'' \<in> account_keys" "''cache_steady_state_start_request_index'' \<in> account_keys"
  "''cache_steady_state_hit_tokens'' \<in> account_keys" "''cache_steady_state_prompt_tokens'' \<in> account_keys"
  "''cache_steady_state_request_count'' \<in> account_keys" "''cache_steady_state_hit_rate'' \<in> account_keys"
  "''cache_empirical_hit_block_tokens'' \<in> account_keys" "''cache_theoretical_input_tokens_current'' \<in> account_keys"
  "''cache_theoretical_output_tokens_current'' \<in> account_keys" "''cache_theoretical_token_kind_current'' \<in> account_keys"
  "''cache_capture_efficiency_input_current'' \<in> account_keys" "''cache_previous_provider_prompt_tokens'' \<in> account_keys"
  "''cache_previous_provider_completion_tokens'' \<in> account_keys" "''latency_ms'' \<in> account_keys"
  "''cache_requests'' \<in> account_keys" "''provider_request_attempts'' \<in> account_keys"
  "''provider_retried_requests'' \<in> account_keys"
  by (simp_all add: account_keys_def)

text \<open>The accounting of an answer touches its own keys only.\<close>

abbreviation accounting :: "run_state \<Rightarrow> run_state \<Rightarrow> bool" where
  "accounting \<equiv> only_metrics account_keys"

definition accounts :: "run_state \<Rightarrow> run_state result \<Rightarrow> bool" where
  "accounts st r = (\<forall>st'. r = Inr st' \<longrightarrow> accounting st st')"

named_theorems account_intros

declare only_metrics_mset [account_intros] only_metrics_add [account_intros]

lemma accounts_Inr [account_intros]: "accounting st st' \<Longrightarrow> accounts st (Inr st')"
  by (simp add: accounts_def)

lemma accounts_Inl [account_intros]: "accounts st (Inl err)"
  by (simp add: accounts_def)

text \<open>A bind of two steps on the state, and one whose first part computes something else.\<close>

lemma accounts_step: "accounts st m \<Longrightarrow> (\<And>x. accounting st x \<Longrightarrow> accounts st (f x)) \<Longrightarrow> accounts st (bind_res m f)"
  by (auto simp: accounts_def)

lemma accounts_value: "(\<And>x. accounts st (f x)) \<Longrightarrow> accounts st (bind_res m f)"
  by (auto simp: accounts_def)

lemma accounting_present [account_intros]: "accounting st st' \<Longrightarrow> k \<in> account_keys \<Longrightarrow> accounting st (add_present k v st')"
  by (cases v) (simp_all add: add_present_def only_metrics_add)

lemma accounting_block [account_intros]: "accounting st st1 \<Longrightarrow> accounting st (record_hit_block hit st1)"
  by (simp add: record_hit_block_def Let_def account_intros)

lemma accounting_attempts [account_intros]: "accounting st st1 \<Longrightarrow> accounting st (count_attempts n st1)"
  by (simp add: count_attempts_def Let_def account_intros)

lemma accounts_ratio [account_intros]: "accounting st st1 \<Longrightarrow> k \<in> account_keys \<Longrightarrow> accounts st (mset_ratio k d a b st1)"
  unfolding mset_ratio_def by (intro accounts_value account_intros)

lemma accounts_names [account_intros]: "accounting st st1 \<Longrightarrow> k \<in> account_keys \<Longrightarrow> accounts st (merge_names k names st1)"
  unfolding merge_names_def by (intro accounts_value account_intros)

lemma accounts_identity [account_intros]: "accounting st st1 \<Longrightarrow> accounts st (accumulate_response_identity raw st1)"
  unfolding accumulate_response_identity_def Let_def by (intro accounts_step account_intros) simp_all

lemma accounts_steady [account_intros]: "accounting st st1 \<Longrightarrow> accounts st (record_steady_state hit prompt st1)"
  unfolding record_steady_state_def Let_def by (simp add: account_intros)

lemma accounts_cacheability [account_intros]: "accounting st st1 \<Longrightarrow> accounts st (accumulate_cacheability u hit prompt st1)"
  unfolding accumulate_cacheability_def Let_def
proof (rule accounts_value, goal_cases)
  case (1 x)
  obtain tin tout tkind where "x = (tin, tout, tkind)" by (rule prod_cases3)
  with 1 show ?case by (simp only: prod.case) (intro accounts_step account_intros; simp)
qed

lemma accounts_observed [account_intros]: "accounting st st1 \<Longrightarrow> accounts st (accumulate_observed u st1)"
  unfolding accumulate_observed_def Let_def
  by (auto split: option.split intro!: account_intros accounts_step)

lemma accounts_request [account_intros]: "accounting st st1 \<Longrightarrow> accounts st (record_cache_request u latency st1)"
  unfolding record_cache_request_def Let_def by (rule accounts_value) (simp add: account_intros)

lemma accounts_usage [account_intros]: "accounting st st1 \<Longrightarrow> accounts st (accumulate_usage u latency st1)"
  unfolding accumulate_usage_def by (intro accounts_step account_intros) simp_all

section \<open>The interface of the agent loop\<close>

text \<open>States that agree but for metrics, status and summary.\<close>

definition same_core :: "run_state \<Rightarrow> run_state \<Rightarrow> bool" where
  "same_core st st' = (st'\<lparr>metrics := metrics st, status := status st, state_summary := state_summary st\<rparr> = st)"

lemma same_core_refl [simp]: "same_core st st"
  by (simp add: same_core_def)

lemma same_core_trans: "same_core a b \<Longrightarrow> same_core b c \<Longrightarrow> same_core a c"
proof -
  assume "same_core a b" "same_core b c"
  moreover have "c\<lparr>metrics := metrics a, status := status a, state_summary := state_summary a\<rparr> =
      (c\<lparr>metrics := metrics b, status := status b, state_summary := state_summary b\<rparr>)
        \<lparr>metrics := metrics a, status := status a, state_summary := state_summary a\<rparr>" by simp
  ultimately show ?thesis by (simp only: same_core_def)
qed

lemma same_core_update [simp]:
  "same_core st (st'\<lparr>metrics := m\<rparr>) = same_core st st'" "same_core st (mset k v st') = same_core st st'"
  "same_core st (add_metric k n st') = same_core st st'" "same_core st (session_fail msg st') = same_core st st'"
  by (simp_all add: same_core_def mset_def add_metric_def session_fail_def)

lemma only_metrics_core: "only_metrics K st st' \<Longrightarrow> same_core st st'"
  by (auto simp: only_metrics_def)

text \<open>A turn that was made: it is counted once; besides, the accounting, the status and its summary may have changed.\<close>

definition turn_made :: "run_state \<Rightarrow> model_turn \<Rightarrow> run_state \<Rightarrow> bool" where
  "turn_made st t st' =
     (same_core st st' \<and>
      (\<forall>k. k \<notin> account_keys \<longrightarrow> k \<noteq> ''turns'' \<longrightarrow> map_of (metrics st') k = map_of (metrics st) k) \<and>
      mget (metrics st') ''turns'' = mget (metrics st) ''turns'' + 1 \<and>
      (if mt_continue t then status st' = status st else status st' = ''failed''))"

definition turn_outcome :: "run_state \<Rightarrow> llm_failure + model_turn \<Rightarrow> run_state \<Rightarrow> bool" where
  "turn_outcome st x st' = (case x of Inl f \<Rightarrow> accounting st st' | Inr t \<Rightarrow> turn_made st t st')"

lemma accounting_trans: "accounting a b \<Longrightarrow> accounting b c \<Longrightarrow> accounting a c"
  by (auto simp: only_metrics_def)

lemma turns_key [simp]: "''turns'' \<notin> account_keys"
  by (simp add: account_keys_def)

lemma accounting_keys: "accounting st st' \<Longrightarrow> k \<notin> account_keys \<Longrightarrow> map_of (metrics st') k = map_of (metrics st) k"
  by (auto simp: only_metrics_def)

lemma accounting_status: "accounting st st' \<Longrightarrow> status st' = status st"
  using only_metrics_frame by blast

lemma accounting_turns: "accounting st st' \<Longrightarrow> mget (metrics st') ''turns'' = mget (metrics st) ''turns''"
  by (erule only_metrics_mget [OF _ turns_key])

lemma turn_made_before: "accounting st st1 \<Longrightarrow> turn_made st1 t st2 \<Longrightarrow> turn_made st t st2"
  unfolding turn_made_def
  using same_core_trans [OF only_metrics_core] by (auto simp: accounting_keys accounting_status accounting_turns split: if_splits)

lemma turn_made_after: "turn_made st t st1 \<Longrightarrow> accounting st1 st2 \<Longrightarrow> turn_made st t st2"
  unfolding turn_made_def
  using same_core_trans [OF _ only_metrics_core] by (auto simp: accounting_keys accounting_status accounting_turns split: if_splits)

lemma turn_outcome_before: "accounting st st1 \<Longrightarrow> turn_outcome st1 x st2 \<Longrightarrow> turn_outcome st x st2"
  by (auto simp: turn_outcome_def intro: turn_made_before accounting_trans split: sum.splits)

lemma bump_present_result: "bump_present k st = Inr st' \<Longrightarrow> st' = bump k st"
  by (simp add: bump_present_def split: if_splits)

lemma answer_turn_made:
  assumes "answer_turn cfg resp st rn = Inr (t, st', rn')"
  shows "same_core st st' \<and> (\<forall>k. k \<notin> account_keys \<longrightarrow> map_of (metrics st') k = map_of (metrics st) k) \<and>
    (if mt_continue t then status st' = status st else status st' = ''failed'')"
  using assms account_key(2) unfolding answer_turn_def Let_def
  by (auto dest!: bump_present_result simp: same_core_def session_fail_def add_metric_def mset_def update_conv' frame_simps split: sum.splits exn.splits if_splits)

lemma next_turn_outcome:
  assumes "next_turn cfg p messages st rn = Inr (x, st', rn')"
  shows "turn_outcome st x st'"
proof -
  let ?st1 = "mset ''provider_name'' (JStr (mp_name p)) st"
  obtain answer n where c: "mp_complete p messages (tc_options cfg) (rn_requests rn) = (answer, n)" by fastforce
  have acc: "accounting st ?st1" by (simp add: account_intros)
  obtain y where y: "answer = Inr y" using assms c by (cases answer) (auto simp: next_turn_def Let_def)
  show ?thesis
  proof (cases y)
    case (Inl f)
    then show ?thesis using assms c y acc by (auto simp: next_turn_def Let_def turn_outcome_def)
  next
    case (Inr resp)
    obtain st2 st3 st4 t where s: "bump_present ''turns'' ?st1 = Inr st2" "accumulate_response_identity (mr_raw resp) st2 = Inr st3"
      "accumulate_usage (mr_usage resp) (mr_latency_ms resp) st3 = Inr st4" "answer_turn cfg resp st4 (rn\<lparr>rn_requests := n\<rparr>) = Inr (t, st', rn')" "x = Inr t"
      using assms c y Inr by (auto simp: next_turn_def Let_def)
    have two: "st2 = bump ''turns'' ?st1" by (rule bump_present_result [OF s(1)])
    have "accounting st2 st3" using accounts_identity [OF only_metrics_refl] s(2) by (auto simp: accounts_def)
    then have four: "accounting st2 st4" using accounts_usage s(3) by (auto simp: accounts_def)
    have "same_core st st2" by (simp add: two)
    then have core: "same_core st st4" using same_core_trans only_metrics_core [OF four] by blast
    have keys: "map_of (metrics st4) k = map_of (metrics st) k" if "k \<notin> account_keys" "k \<noteq> ''turns''" for k
      using accounting_keys [OF four that(1)] that by (auto simp: two mset_def add_metric_def update_conv')
    have stat: "status st4 = status st" using accounting_status [OF four] by (simp add: two frame_simps)
    have turns: "mget (metrics st4) ''turns'' = mget (metrics st) ''turns'' + 1"
      using accounting_turns [OF four] by (simp add: two mget_mset)
    have ans: "same_core st4 st'" "\<forall>k. k \<notin> account_keys \<longrightarrow> map_of (metrics st') k = map_of (metrics st4) k"
      "if mt_continue t then status st' = status st4 else status st' = ''failed''" using answer_turn_made [OF s(4)] by blast+
    have "mget (metrics st') ''turns'' = mget (metrics st4) ''turns''" using ans(2) turns_key by (simp add: mget_def)
    then show ?thesis
      using ans(2,3) same_core_trans [OF core ans(1)] keys stat turns by (simp add: s(5) turn_outcome_def turn_made_def)
  qed
qed

lemma attempts_accounting: "accounting st (count_attempts n st)"
  by (intro account_intros) simp

definition result_outcome :: "run_state \<Rightarrow> turn_result \<Rightarrow> bool" where
  "result_outcome st r = (case r of Inl err \<Rightarrow> True | Inr (x, st', rn') \<Rightarrow> turn_outcome st x st')"

lemma result_outcome_before: "accounting st st1 \<Longrightarrow> result_outcome st1 r \<Longrightarrow> result_outcome st r"
  by (auto simp: result_outcome_def intro: turn_outcome_before split: sum.splits)

lemma retry_outcome:
  assumes "run_with_retry cfg p policy rng messages reasons st rn = Some r"
  shows "result_outcome st r"
proof (rule run_with_retry.raw_induct [OF _ assms, where P = "\<lambda>cfg p policy rng messages reasons st rn r. result_outcome st r"], goal_cases)
  case (1 rec cfg p policy rng messages reasons st rn r)
  show ?case
  proof (cases "next_turn cfg p messages st rn")
    case (Inl err)
    then have "r = Inl err" using 1(2) by simp
    then show ?thesis by (simp add: result_outcome_def)
  next
    case (Inr y)
    then obtain x st1 rn1 where y: "next_turn cfg p messages st rn = Inr (x, st1, rn1)" by (cases y) auto
    note out = next_turn_outcome [OF y]
    show ?thesis
    proof (cases x)
      case (Inr t)
      then have "r = Inr (Inr t, count_attempts (Suc (length reasons)) st1, rn1)" using 1(2) y by simp
      then show ?thesis using out Inr turn_made_after [OF _ attempts_accounting] by (simp add: result_outcome_def turn_outcome_def)
    next
      case (Inl f)
      have acc: "accounting st st1" using out Inl by (simp add: turn_outcome_def)
      have "result_outcome st1 r" if "rec cfg p policy rng messages (reasons @ [lf_code f]) st1 rn1 = Some r" using 1(1) [OF that] .
      then have "result_outcome st r" if "rec cfg p policy rng messages (reasons @ [lf_code f]) st1 rn1 = Some r"
        using that result_outcome_before [OF acc] by blast
      then show ?thesis using 1(2) y Inl acc
        by (auto simp: result_outcome_def turn_outcome_def split: if_splits sum.splits option.splits)
    qed
  qed
qed

lemma failover_outcome: "failover_turn cfg on max_hops rng messages hops routes st rn = Some r \<Longrightarrow> result_outcome st r"
proof (induction routes arbitrary: hops st rn)
  case (Cons route routes)
  obtain name p policy where route: "route = (name, p, policy)" by (rule prod_cases3)
  then obtain r1 where r1: "run_with_retry cfg p policy rng messages [] st rn = Some r1" using Cons.prems by (auto split: option.splits)
  note out = retry_outcome [OF r1]
  show ?case
  proof (cases "\<exists>f st1 rn1. r1 = Inr (Inl f, st1, rn1) \<and> r \<noteq> r1")
    case True
    then obtain f st1 rn1 where f: "r1 = Inr (Inl f, st1, rn1)" "r \<noteq> r1" by blast
    then have "failover_turn cfg on max_hops rng messages (hops + 1) routes st1 rn1 = Some r"
      using Cons.prems r1 by (auto simp: route split: if_splits)
    from Cons.IH [OF this] show ?thesis
      using out f(1) result_outcome_before [of st st1 r] by (simp add: result_outcome_def turn_outcome_def)
  next
    case False
    then have "r = r1" using Cons.prems r1 by (auto simp: route split: sum.splits if_splits)
    then show ?thesis using out by simp
  qed
qed (auto simp: result_outcome_def)

text \<open>A source of turns, as the loop sees it: \<open>None\<close> when it does not return, a turn or a failure otherwise.\<close>

locale turn_provider =
  fixes turn :: "json \<Rightarrow> run_state \<Rightarrow> runner \<Rightarrow> turn_result option"
  assumes outcome: "turn messages st rn = Some (Inr (x, st', rn')) \<Longrightarrow> turn_outcome st x st'"
begin

lemma turn_counted: "turn messages st rn = Some (Inr (Inr t, st', rn')) \<Longrightarrow> mget (metrics st') ''turns'' = mget (metrics st) ''turns'' + 1"
  using outcome [of messages st rn "Inr t"] by (simp add: turn_outcome_def turn_made_def)

lemma failure_uncounted: "turn messages st rn = Some (Inr (Inl f, st', rn')) \<Longrightarrow> mget (metrics st') ''turns'' = mget (metrics st) ''turns''"
  using outcome [of messages st rn "Inl f"] by (simp add: turn_outcome_def accounting_turns)

lemma turn_status: "turn messages st rn = Some (Inr (Inr t, st', rn')) \<Longrightarrow> if mt_continue t then status st' = status st else status st' = ''failed''"
  using outcome [of messages st rn "Inr t"] by (simp add: turn_outcome_def turn_made_def)

lemma other_metric:
  "turn messages st rn = Some (Inr (x, st', rn')) \<Longrightarrow> k \<notin> account_keys \<Longrightarrow> k \<noteq> ''turns'' \<Longrightarrow> mget (metrics st') k = mget (metrics st) k"
  using outcome [of messages st rn x] accounting_keys
  by (auto simp: turn_outcome_def turn_made_def mget_def split: sum.splits)

end

definition direct_turn :: "turn_config \<Rightarrow> model_provider \<Rightarrow> json \<Rightarrow> run_state \<Rightarrow> runner \<Rightarrow> turn_result option" where
  "direct_turn cfg p messages st rn = Some (next_turn cfg p messages st rn)"

definition retrying_turn :: "turn_config \<Rightarrow> model_provider \<Rightarrow> retry_policy \<Rightarrow> (nat \<Rightarrow> pyfloat) \<Rightarrow> json \<Rightarrow> run_state \<Rightarrow> runner \<Rightarrow> turn_result option" where
  "retrying_turn cfg p policy rng messages st rn = run_with_retry cfg p policy rng messages [] st rn"

definition chained_turn :: "turn_config \<Rightarrow> string list \<Rightarrow> int \<Rightarrow> (nat \<Rightarrow> pyfloat) \<Rightarrow> route list \<Rightarrow> json \<Rightarrow> run_state \<Rightarrow> runner \<Rightarrow> turn_result option" where
  "chained_turn cfg on max_hops rng routes messages st rn = failover_turn cfg on max_hops rng messages 0 routes st rn"

interpretation direct: turn_provider "direct_turn cfg p" for cfg p
  by unfold_locales (simp add: direct_turn_def next_turn_outcome)

interpretation retrying: turn_provider "retrying_turn cfg p policy rng" for cfg p policy rng
  by unfold_locales (use retry_outcome in \<open>fastforce simp: retrying_turn_def result_outcome_def\<close>)

interpretation chained: turn_provider "chained_turn cfg on max_hops rng routes" for cfg on max_hops rng routes
  by unfold_locales (use failover_outcome in \<open>fastforce simp: chained_turn_def result_outcome_def\<close>)

section \<open>Retries end\<close>

lemma accumulate_no_runner: "answer_turn cfg resp st rn = Inr (t, st', rn') \<Longrightarrow> rn_requests rn' = rn_requests rn"
  by (auto simp: answer_turn_def Let_def split: sum.splits exn.splits if_splits)

lemma next_turn_requests:
  assumes "next_turn cfg p messages st rn = Inr (x, st', rn')"
  shows "rn_requests rn' = snd (mp_complete p messages (tc_options cfg) (rn_requests rn))"
proof -
  obtain answer n where c: "mp_complete p messages (tc_options cfg) (rn_requests rn) = (answer, n)" by fastforce
  obtain y where "answer = Inr y" using assms c by (cases answer) (auto simp: next_turn_def Let_def)
  then show ?thesis using assms c accumulate_no_runner by (cases y) (fastforce simp: next_turn_def Let_def)+
qed

lemma openai_requests: "snd (mp_complete (openai p) messages opts n) \<le> n + 2"
  using complete_result [where p = p and messages = messages and opts = opts and n = n] by (auto simp: openai_def split: prod.splits if_splits)

lemma retries_end:
  assumes "rp_mode policy = ''normal''" and requests: "\<And>messages opts n. snd (mp_complete p messages opts n) \<le> n + k"
  shows "\<exists>r. run_with_retry cfg p policy rng messages reasons st rn = Some r \<and>
    (case r of Inl err \<Rightarrow> True | Inr (x, st', rn') \<Rightarrow> rn_requests rn' \<le> rn_requests rn + k * Suc (nat (rp_max_retries policy) - length reasons))"
proof (induction "nat (rp_max_retries policy) - length reasons" arbitrary: reasons st rn rule: less_induct)
  case less
  show ?case
  proof (cases "next_turn cfg p messages st rn")
    case (Inl err)
    then show ?thesis by (simp add: run_with_retry.simps)
  next
    case (Inr y)
    then obtain x st1 rn1 where y: "next_turn cfg p messages st rn = Inr (x, st1, rn1)" by (cases y) auto
    have one: "rn_requests rn1 \<le> rn_requests rn + k" using next_turn_requests [OF y] requests by simp
    then have two: "rn_requests rn1 \<le> rn_requests rn + (k + k * m)" for m by (simp add: add.assoc [symmetric] trans_le_add1)
    let ?rec = "\<exists>f d. x = Inl f \<and> \<not> retry_stops policy (Suc (length reasons)) f \<and>
      compute_delay policy (length reasons) (lf_retry_after_ms f) (rng (rn_requests rn1)) = Inr (Some d)"
    show ?thesis
    proof (cases ?rec)
      case True
      then obtain f d where f: "x = Inl f" "\<not> retry_stops policy (Suc (length reasons)) f"
        "compute_delay policy (length reasons) (lf_retry_after_ms f) (rng (rn_requests rn1)) = Inr (Some d)" by blast
      then have "length reasons < nat (rp_max_retries policy)" using assms(1) by (auto simp: retry_stops_def)
      then have lt: "nat (rp_max_retries policy) - length (reasons @ [lf_code f]) < nat (rp_max_retries policy) - length reasons"
        and eq: "Suc (nat (rp_max_retries policy) - length (reasons @ [lf_code f])) = nat (rp_max_retries policy) - length reasons" by simp_all
      from less.hyps [OF lt, of st1 rn1] obtain r where
        r: "run_with_retry cfg p policy rng messages (reasons @ [lf_code f]) st1 rn1 = Some r"
          "case r of Inl err \<Rightarrow> True | Inr (x, st', rn') \<Rightarrow> rn_requests rn' \<le> rn_requests rn1 + k * (nat (rp_max_retries policy) - length reasons)"
        unfolding eq by blast
      have "run_with_retry cfg p policy rng messages reasons st rn = Some r"
        using y f r(1) by (subst run_with_retry.simps) simp
      moreover have "case r of Inl err \<Rightarrow> True | Inr (x, st', rn') \<Rightarrow> rn_requests rn' \<le> rn_requests rn + k * Suc (nat (rp_max_retries policy) - length reasons)"
        using r(2) one by (auto split: sum.splits)
      ultimately show ?thesis by blast
    next
      case False
      then show ?thesis using y two
        by (subst run_with_retry.simps) (cases x; auto split: sum.splits option.splits)
    qed
  qed
qed

section \<open>Delays stay in bounds\<close>

lemma f64_abs_bound:
  assumes "\<bar>x\<bar> \<le> z" "representable z" "z < pow2 1024"
  obtains q where "f64 x = Fin q" "\<bar>q\<bar> \<le> z"
proof (cases "0 \<le> x")
  case True
  then show ?thesis using f64_between [of x z] assms that by fastforce
next
  case False
  then obtain q where "f64 (- x) = Fin q" "0 \<le> q" "q \<le> z" using f64_between [of "- x" z] assms by auto
  then show ?thesis using f64_neg [of "- x"] that [of "- q"] by simp
qed

lemma representable_small: "representable 1" "representable 2" "(1::rat) < pow2 1024" "(2::rat) < pow2 1024"
  using representable_int [of 1] representable_int [of 2] by (simp_all add: pow2_def)

lemma jittered_bounds:
  assumes "within_unit j" "within_unit rnd" "0 < base" "base \<le> 2 ^ 52"
  shows "\<exists>d. jittered j rnd base = Inr d \<and> 0 \<le> d \<and> d \<le> 2 * base"
proof -
  obtain jq rq where j: "j = Fin jq" "0 \<le> jq" "jq \<le> 1" and r: "rnd = Fin rq" "0 \<le> rq" "rq \<le> 1"
    using assms(1,2) by (auto simp: within_unit_iff)
  obtain two where two: "f64 (2 * rq) = Fin two" "0 \<le> two" "two \<le> 2"
    using f64_between [of "2 * rq" 2] r representable_small by auto
  have "\<bar>two - 1\<bar> \<le> 1" using two by (simp add: abs_le_iff)
  then obtain d where d: "f64 (two - 1) = Fin d" "\<bar>d\<bar> \<le> 1" using f64_abs_bound [of "two - 1" 1] representable_small by auto
  have "\<bar>jq * d\<bar> \<le> 1" using j d(2) by (simp add: abs_mult mult_le_one)
  then obtain off where off: "f64 (jq * d) = Fin off" "\<bar>off\<bar> \<le> 1" using f64_abs_bound [of "jq * d" 1] representable_small by auto
  obtain factor where factor: "f64 (1 + off) = Fin factor" "0 \<le> factor" "factor \<le> 2"
    using f64_between [of "1 + off" 2] off(2) representable_small by (auto simp: abs_le_iff)
  have repr: "representable (of_int base)" "representable (of_int (2 * base))" using assms(3,4) by (intro representable_int; simp)+
  have big: "(of_int (2 * base) :: rat) < pow2 1024" using assms(4) by (intro representable_below_max [OF repr(2)]) simp
  have "float_of_int base = Inr (Fin (of_int base))"
    using f64_exact [OF _ repr(1)] assms(3) big by (simp add: float_of_int_def)
  moreover obtain x where x: "f64 (of_int base * factor) = Fin x" "0 \<le> x" "x \<le> of_int (2 * base)"
    using f64_between [OF _ _ repr(2) big, of "of_int base * factor"] factor assms(3) by (auto simp: mult.commute mult_right_mono)
  moreover have "round_half_even x \<le> 2 * base" using round_half_even_mono [OF x(3)] by (simp only: round_half_even_int)
  ultimately show ?thesis
    using assms(3) by (simp add: jittered_def finite_float_def j(1) r(1) two(1) d(1) off(1) factor(1))
qed

section \<open>Cache figures stay in range\<close>

definition unit_rate :: "jdict \<Rightarrow> string \<Rightarrow> bool" where
  "unit_rate m k = (case jget m k of JNull \<Rightarrow> True | JFloat x \<Rightarrow> within_unit x | _ \<Rightarrow> False)"

definition hit_figures :: "jdict \<Rightarrow> bool" where
  "hit_figures m =
     (0 \<le> mget m ''cache_observed_hit_tokens'' \<and> mget m ''cache_observed_hit_tokens'' \<le> mget m ''cache_observed_prompt_tokens'' \<and>
      unit_rate m ''cache_hit_rate'')"

definition capture_figures :: "jdict \<Rightarrow> bool" where
  "capture_figures m =
     (0 \<le> mget m ''cache_capture_observed_hit_tokens'' \<and>
      mget m ''cache_capture_observed_hit_tokens'' \<le> mget m ''cache_theoretical_input_tokens'' \<and>
      mget m ''cache_theoretical_input_tokens'' \<le> mget m ''cache_theoretical_output_tokens'' \<and>
      unit_rate m ''cache_capture_efficiency_input'' \<and> unit_rate m ''cache_capture_efficiency_output'' \<and>
      unit_rate m ''cache_capture_efficiency_input_current'')"

definition steady_figures :: "jdict \<Rightarrow> bool" where
  "steady_figures m =
     (0 \<le> mget m ''cache_steady_state_hit_tokens'' \<and> mget m ''cache_steady_state_hit_tokens'' \<le> mget m ''cache_steady_state_prompt_tokens'' \<and>
      unit_rate m ''cache_steady_state_hit_rate'')"

definition previous_figures :: "jdict \<Rightarrow> bool" where
  "previous_figures m = (case jget m ''cache_previous_provider_prompt_tokens'' of JNull \<Rightarrow> True | JInt n \<Rightarrow> 0 \<le> n | _ \<Rightarrow> False)"

definition cache_figures_ok :: "jdict \<Rightarrow> bool" where
  "cache_figures_ok m = (hit_figures m \<and> capture_figures m \<and> steady_figures m \<and> previous_figures m)"

text \<open>Usage as a provider should report it: no negative prompt, no more hits than prompt tokens.\<close>

definition sane_usage :: "model_usage \<Rightarrow> bool" where
  "sane_usage u =
     ((case observed_tokens u of Some (hit, prompt) \<Rightarrow> 0 \<le> hit \<and> hit \<le> prompt | None \<Rightarrow> True) \<and>
      (case mu_prompt u of Some n \<Rightarrow> 0 \<le> n | None \<Rightarrow> True))"

lemma jget_mset: "jget (metrics (mset k v st)) k' = (if k' = k then v else jget (metrics st) k')"
  by (simp add: jget_def mset_def update_conv')

lemma unit_rate_mset:
  "unit_rate (metrics (mset k v st)) k' = (if k' = k then (case v of JNull \<Rightarrow> True | JFloat x \<Rightarrow> within_unit x | _ \<Rightarrow> False) else unit_rate (metrics st) k')"
  by (simp add: unit_rate_def jget_mset)

lemma mget_single: "mget [(k, JInt n)] k = n"
  by (simp add: mget_def)

lemmas figure_simps = mget_single hit_figures_def capture_figures_def steady_figures_def previous_figures_def jget_mset unit_rate_mset mget_mset add_metric_def

lemma round_half_even_nonneg: "0 \<le> x \<Longrightarrow> 0 \<le> round_half_even x"
  using round_half_even_mono [of 0 x] round_half_even_int [of 0] by simp

lemma f64_nonneg: "0 \<le> x \<Longrightarrow> f64 x = Fin q \<Longrightarrow> 0 \<le> q"
  by (auto simp: f64_def round_pos_def Let_def round_half_even_nonneg less_imp_le split: if_splits intro!: mult_nonneg_nonneg)

lemma int_div_unit:
  assumes "0 \<le> a" "a \<le> b" "0 < b"
  shows "\<exists>q. int_div a b = Inr (Fin q) \<and> 0 \<le> q \<and> q \<le> 1"
proof -
  have "0 \<le> (of_int a / of_int b :: rat)" "(of_int a / of_int b :: rat) \<le> 1" using assms by (simp_all add: divide_le_eq)
  then obtain q where "f64 (of_int a / of_int b) = Fin q" "0 \<le> q" "q \<le> 1"
    using f64_between [of "of_int a / of_int b" 1] representable_small by blast
  then show ?thesis by (simp add: int_div_def)
qed

lemma ratio_unit:
  assumes "mset_ratio k d a b st = Inr st'" "0 \<le> a" "a \<le> b" "d = JNull \<or> d = JFloat (Fin 0)"
  obtains r where "st' = mset k r st" "case r of JNull \<Rightarrow> True | JFloat x \<Rightarrow> within_unit x | _ \<Rightarrow> False"
proof (cases "b = 0")
  case True
  then show ?thesis using assms that by (auto simp: mset_ratio_def ratio_def within_unit_def)
next
  case False
  then obtain q where "int_div a b = Inr (Fin q)" "0 \<le> q" "q \<le> 1" using int_div_unit [of a b] assms(2,3) by fastforce
  then show ?thesis using assms(1) False that by (auto simp: mset_ratio_def ratio_def within_unit_def)
qed

lemma theoretical_bounds:
  assumes "theoretical_tokens prompt m = Inr (tin, tout, tkind)" "0 \<le> prompt" "previous_figures m"
  shows "0 \<le> tin \<and> tin \<le> tout"
proof -
  obtain pp where pp: "optional_int (jget m ''cache_previous_provider_prompt_tokens'') = Inr pp" using assms(1) by (auto simp: theoretical_tokens_def)
  obtain pc where pc: "optional_int (jget m ''cache_previous_provider_completion_tokens'') = Inr pc" using assms(1) by (auto simp: theoretical_tokens_def)
  have prev: "0 \<le> p" if "pp = Some p" for p
    using assms(3) pp that by (auto simp: previous_figures_def optional_int_def int_or_none_def split: json.splits)
  have round: "0 \<le> (case x of Fin q \<Rightarrow> round_half_even q | _ \<Rightarrow> 0)"
    if "int_div (prompt * l) e = Inr x" "0 < e" "0 < l" for x l e
  proof (cases x)
    case (Fin q)
    have nonneg: "0 \<le> (of_int (prompt * l) / of_int e :: rat)" using assms(2) that by simp
    have "0 \<le> q" using that(1) Fin f64_nonneg [OF nonneg] by (auto simp: int_div_def split: pyfloat.splits)
    then show ?thesis using Fin by (simp add: round_half_even_nonneg)
  qed simp_all
  show ?thesis
    using assms(1,2) pp pc prev round
    by (cases "if truthy (jget m ''cache_prefix_previous_is_exact'') then pp else None")
      (fastforce simp: theoretical_tokens_def Let_def split: if_splits)+
qed

lemma steady_ok:
  assumes "record_steady_state hit prompt st = Inr st'" "0 \<le> hit" "hit \<le> prompt" "cache_figures_ok (metrics st)"
  shows "cache_figures_ok (metrics st')"
proof -
  let ?seen = "truthy (jget (metrics st) ''cache_steady_state_observed'')"
  define st1 where "st1 = (if 0 < hit \<and> \<not> ?seen then
      mset ''cache_steady_state_start_request_index'' (JInt (mget (metrics st) ''cache_prefix_request_index''))
        (mset ''cache_steady_state_observed'' (JBool True) st) else st)"
  define st2 where "st2 = bump ''cache_steady_state_request_count''
      (add_metric ''cache_steady_state_prompt_tokens'' prompt (add_metric ''cache_steady_state_hit_tokens'' hit st1))"
  have one: "cache_figures_ok (metrics st1)" using assms(4) by (simp add: st1_def cache_figures_ok_def figure_simps)
  then have two: "cache_figures_ok (metrics st2)" using assms(2,3) by (simp add: st2_def cache_figures_ok_def figure_simps)
  show ?thesis
  proof (cases "0 < hit \<or> ?seen")
    case False
    then show ?thesis using assms(1) one by (auto simp: record_steady_state_def st1_def Let_def)
  next
    case True
    then have r: "mset_ratio ''cache_steady_state_hit_rate'' JNull (mget (metrics st2) ''cache_steady_state_hit_tokens'')
        (mget (metrics st2) ''cache_steady_state_prompt_tokens'') st2 = Inr st'"
      using assms(1) unfolding record_steady_state_def Let_def st2_def st1_def by (simp only: if_True)
    have "0 \<le> mget (metrics st2) ''cache_steady_state_hit_tokens''"
      "mget (metrics st2) ''cache_steady_state_hit_tokens'' \<le> mget (metrics st2) ''cache_steady_state_prompt_tokens''"
      using two by (simp_all add: cache_figures_ok_def steady_figures_def)
    then obtain x where "st' = mset ''cache_steady_state_hit_rate'' x st2" "case x of JNull \<Rightarrow> True | JFloat y \<Rightarrow> within_unit y | _ \<Rightarrow> False"
      by (rule ratio_unit [OF r _ _ disjI1 [OF refl]])
    then show ?thesis using two by (simp add: cache_figures_ok_def figure_simps)
  qed
qed

lemma block_ok: "cache_figures_ok (metrics st) \<Longrightarrow> cache_figures_ok (metrics (record_hit_block hit st))"
  by (simp add: record_hit_block_def Let_def cache_figures_ok_def figure_simps)

lemma cacheability_ok:
  assumes "accumulate_cacheability u hit prompt st = Inr st'" "0 \<le> hit" "hit \<le> prompt" "\<forall>n. mu_prompt u = Some n \<longrightarrow> 0 \<le> n"
    and ok: "cache_figures_ok (metrics st)"
  shows "cache_figures_ok (metrics st')"
proof -
  obtain tin tout tkind where t: "theoretical_tokens prompt (metrics st) = Inr (tin, tout, tkind)"
    using assms(1) by (auto simp: accumulate_cacheability_def)
  have th: "0 \<le> tin" "tin \<le> tout" using theoretical_bounds [OF t] assms(2,3) ok by (auto simp: cache_figures_ok_def)
  define eligible where "eligible = (if 0 < tin then min hit tin else 0)"
  define st1 where "st1 = add_metric ''cache_capture_observed_hit_tokens'' eligible
      (add_metric ''cache_theoretical_output_tokens'' tout (add_metric ''cache_theoretical_input_tokens'' tin st))"
  obtain st2 st3 st4 st6 where
    s: "mset_ratio ''cache_capture_efficiency_input'' JNull (mget (metrics st1) ''cache_capture_observed_hit_tokens'')
          (mget (metrics st1) ''cache_theoretical_input_tokens'') st1 = Inr st2"
       "mset_ratio ''cache_capture_efficiency_output'' JNull (mget (metrics st1) ''cache_capture_observed_hit_tokens'')
          (mget (metrics st2) ''cache_theoretical_output_tokens'') st2 = Inr st3"
       "record_steady_state hit prompt st3 = Inr st4"
       "mset_ratio ''cache_capture_efficiency_input_current'' JNull (min hit tin) tin
          (mset ''cache_theoretical_token_kind_current'' (JStr tkind)
            (mset ''cache_theoretical_output_tokens_current'' (JInt tout)
              (mset ''cache_theoretical_input_tokens_current'' (JInt tin) (record_hit_block hit st4)))) = Inr st6"
       "st' = mset ''cache_previous_provider_completion_tokens'' (JInt (case mu_completion u of Some c \<Rightarrow> c | None \<Rightarrow> 0))
          (mset ''cache_previous_provider_prompt_tokens'' (JInt (case mu_prompt u of Some p \<Rightarrow> p | None \<Rightarrow> prompt)) st6)"
    using assms(1) unfolding accumulate_cacheability_def t Let_def by (auto simp: eligible_def st1_def)
  have el: "0 \<le> eligible" "eligible \<le> tin" using th assms(2) by (auto simp: eligible_def)
  have one: "cache_figures_ok (metrics st1)" using ok el th by (simp add: st1_def cache_figures_ok_def figure_simps)
  have "0 \<le> mget (metrics st1) ''cache_capture_observed_hit_tokens''"
    "mget (metrics st1) ''cache_capture_observed_hit_tokens'' \<le> mget (metrics st1) ''cache_theoretical_input_tokens''"
    "mget (metrics st1) ''cache_capture_observed_hit_tokens'' \<le> mget (metrics st1) ''cache_theoretical_output_tokens''"
    using one by (simp_all add: cache_figures_ok_def capture_figures_def)
  note cap = this
  obtain r2 where r2: "st2 = mset ''cache_capture_efficiency_input'' r2 st1" "case r2 of JNull \<Rightarrow> True | JFloat x \<Rightarrow> within_unit x | _ \<Rightarrow> False"
    by (rule ratio_unit [OF s(1) cap(1,2) disjI1 [OF refl]])
  have two: "cache_figures_ok (metrics st2)" using one r2 by (simp add: cache_figures_ok_def figure_simps)
  have "mget (metrics st2) ''cache_theoretical_output_tokens'' = mget (metrics st1) ''cache_theoretical_output_tokens''"
    by (simp add: r2(1) mget_mset)
  then obtain r3 where r3: "st3 = mset ''cache_capture_efficiency_output'' r3 st2" "case r3 of JNull \<Rightarrow> True | JFloat x \<Rightarrow> within_unit x | _ \<Rightarrow> False"
    using ratio_unit [OF s(2) cap(1) _ disjI1 [OF refl]] cap(3) by auto
  have three: "cache_figures_ok (metrics st3)" using two r3 by (simp add: cache_figures_ok_def figure_simps)
  have four: "cache_figures_ok (metrics (record_hit_block hit st4))" by (rule block_ok [OF steady_ok [OF s(3) assms(2,3) three]])
  obtain r6 where r6: "st6 = mset ''cache_capture_efficiency_input_current'' r6
      (mset ''cache_theoretical_token_kind_current'' (JStr tkind)
        (mset ''cache_theoretical_output_tokens_current'' (JInt tout)
          (mset ''cache_theoretical_input_tokens_current'' (JInt tin) (record_hit_block hit st4))))"
    "case r6 of JNull \<Rightarrow> True | JFloat x \<Rightarrow> within_unit x | _ \<Rightarrow> False"
    by (rule ratio_unit [OF s(4) _ _ disjI1 [OF refl]]) (use th assms(2) in auto)
  have "0 \<le> (case mu_prompt u of Some p \<Rightarrow> p | None \<Rightarrow> prompt)" using assms(2-4) by (auto split: option.split)
  then show ?thesis using four r6(2) unfolding s(5) r6(1) by (simp add: cache_figures_ok_def figure_simps)
qed

lemma figures_mset: "\<not> startswith k ''cache_'' \<Longrightarrow> cache_figures_ok (metrics (mset k v st)) = cache_figures_ok (metrics st)"
proof -
  assume "\<not> startswith k ''cache_''"
  then have "k' \<noteq> k" if "startswith k' ''cache_''" for k' using that by blast
  then have ne: "(k' = k) = False" if "startswith k' ''cache_''" for k' using that by blast
  show ?thesis unfolding cache_figures_ok_def figure_simps by (simp add: ne)
qed

lemma present_ok: "\<not> startswith k ''cache_'' \<Longrightarrow> cache_figures_ok (metrics st) \<Longrightarrow> cache_figures_ok (metrics (add_present k v st))"
  by (cases v) (simp_all add: add_present_def add_metric_def figures_mset)

lemma observed_ok:
  assumes "accumulate_observed u st = Inr st'" "sane_usage u" "cache_figures_ok (metrics st)"
  shows "cache_figures_ok (metrics st')"
proof (cases "observed_tokens u")
  case None
  then have "st' = bump ''cache_unreported_requests'' st" using assms(1) by (simp add: accumulate_observed_def)
  then show ?thesis using assms(3) by (simp add: cache_figures_ok_def figure_simps)
next
  case (Some p)
  then obtain hit prompt where o: "observed_tokens u = Some (hit, prompt)" by (cases p) auto
  have h: "0 \<le> hit" "hit \<le> prompt" "\<forall>n. mu_prompt u = Some n \<longrightarrow> 0 \<le> n" using assms(2) o by (auto simp: sane_usage_def)
  define st1 where "st1 = add_metric ''cache_observed_prompt_tokens'' prompt (add_metric ''cache_observed_hit_tokens'' hit
      (bump ''cache_metric_requests'' (mset ''cache_metrics_available'' (JBool True) st)))"
  obtain st2 where s: "mset_ratio ''cache_hit_rate'' (JFloat (Fin 0)) (mget (metrics st1) ''cache_observed_hit_tokens'')
      (mget (metrics st1) ''cache_observed_prompt_tokens'') st1 = Inr st2" "accumulate_cacheability u hit prompt st2 = Inr st'"
    using assms(1) o unfolding accumulate_observed_def st1_def by (auto simp: Let_def)
  have one: "cache_figures_ok (metrics st1)" using assms(3) h by (simp add: st1_def cache_figures_ok_def figure_simps)
  have "0 \<le> mget (metrics st1) ''cache_observed_hit_tokens''"
    "mget (metrics st1) ''cache_observed_hit_tokens'' \<le> mget (metrics st1) ''cache_observed_prompt_tokens''"
    using one by (simp_all add: cache_figures_ok_def hit_figures_def)
  then obtain r where "st2 = mset ''cache_hit_rate'' r st1" "case r of JNull \<Rightarrow> True | JFloat x \<Rightarrow> within_unit x | _ \<Rightarrow> False"
    by (rule ratio_unit [OF s(1) _ _ disjI2 [OF refl]])
  then have "cache_figures_ok (metrics st2)" using one by (simp add: cache_figures_ok_def figure_simps)
  then show ?thesis by (rule cacheability_ok [OF s(2) h])
qed

lemma usage_ok:
  assumes "accumulate_usage u latency st = Inr st'" "sane_usage u" "cache_figures_ok (metrics st)"
  shows "cache_figures_ok (metrics st')"
proof -
  obtain st1 where s: "accumulate_observed u
      (add_present ''prompt_cache_miss_tokens'' (mu_cache_miss u) (add_present ''prompt_cache_hit_tokens'' (mu_cache_hit u)
        (add_present ''cached_tokens'' (mu_cached u) (add_present ''total_tokens'' (mu_total u)
          (add_present ''completion_tokens'' (mu_completion u) (add_present ''prompt_tokens'' (mu_prompt u) st)))))) = Inr st1"
    "record_cache_request u latency (add_metric ''latency_ms'' latency st1) = Inr st'"
    using assms(1) by (auto simp: accumulate_usage_def)
  have "cache_figures_ok (metrics st1)" by (rule observed_ok [OF s(1) assms(2)]) (simp add: present_ok assms(3))
  moreover obtain v where "st' = mset ''cache_requests'' v (add_metric ''latency_ms'' latency st1)"
    using s(2) by (auto simp: record_cache_request_def Let_def)
  ultimately show ?thesis by (simp add: figures_mset add_metric_def) (simp add: cache_figures_ok_def figure_simps)
qed

section \<open>Properties\<close>


definition sample_options :: completion_options where
  "sample_options = \<lparr>opt_temperature = Fin 0, opt_stream = False, opt_include_usage = True, opt_json_mode = True, opt_max_tokens = None\<rparr>"

definition sample_turns :: turn_config where
  "sample_turns = \<lparr>tc_max_protocol_errors = 2, tc_max_action_timeout_sec = 120, tc_options = sample_options, tc_max_tool_calls = 16\<rparr>"

text \<open>A provider whose requests all end in the same way.\<close>

definition steady_provider :: "http_outcome \<Rightarrow> openai_provider" where
  "steady_provider out = \<lparr>pv_name = ''p'', pv_model = ''m'', pv_send = (\<lambda>n payload. (out, False)), pv_latency_ms = (\<lambda>n. 5),
     pv_ellipsis = ''...'', pv_date_delay = (\<lambda>v. Inl (ValueError v)), pv_timeout_text = ''1'', pv_stream_timeout_text = ''1''\<rparr>"

definition busy_server :: http_outcome where
  "busy_server = Refused \<lparr>hr_status = 503, hr_body = [], hr_headers = (\<lambda>k. None)\<rparr>"


text \<open>The wait before a retry is sane: for a validated policy (with a delay bound that a float holds exactly) and a random
  number from 0 to 1, the wait is computed without an exception; it is never negative and at most twice the bound of
  the policy, the bound itself when the upstream says how long to wait; and the route is given up only in normal
  mode, when the upstream asks for more than the bound.\<close>

theorem retry_delay_bounds:
  assumes "sane_policy policy" "bo_max_delay_ms (rp_backoff policy) \<le> 2 ^ 52" "within_unit rnd"
  shows "case compute_delay policy n hint rnd of
      Inl err \<Rightarrow> False
    | Inr None \<Rightarrow> rp_mode policy = ''normal'' \<and> (case hint of Some ra \<Rightarrow> bo_max_delay_ms (rp_backoff policy) < ra | None \<Rightarrow> False)
    | Inr (Some d) \<Rightarrow> 0 \<le> d \<and> d \<le> 2 * bo_max_delay_ms (rp_backoff policy) \<and>
        (case hint of Some ra \<Rightarrow> if 0 < ra \<and> ra \<le> bo_max_delay_ms (rp_backoff policy) then d = ra else True | None \<Rightarrow> True)"
proof -
  let ?b = "rp_backoff policy"
  have b: "0 < bo_initial_delay_ms ?b" "bo_initial_delay_ms ?b \<le> bo_max_delay_ms ?b" "within_unit (bo_jitter_ratio ?b)"
    using assms(1) by (simp_all add: sane_policy_def sane_backoff_def)
  have base: "0 < base_delay ?b n" "base_delay ?b n \<le> bo_max_delay_ms ?b" using b by (simp_all add: base_delay_def)
  obtain d where d: "jittered (bo_jitter_ratio ?b) rnd (base_delay ?b n) = Inr d" "0 \<le> d" "d \<le> 2 * base_delay ?b n"
    using jittered_bounds [OF b(3) assms(3) base(1)] base(2) assms(2) by auto
  then show ?thesis using base b by (auto simp: compute_delay_def Let_def split: option.splits if_splits)
qed

lemma retry_delay_bounds_witness:
  "case compute_delay default_retry_policy 3 None (Fin (1 / 2)) of
      Inl err \<Rightarrow> False | Inr None \<Rightarrow> False | Inr (Some d) \<Rightarrow> 0 \<le> d \<and> d \<le> 20000"
  using retry_delay_bounds [OF default_policy_sane, where rnd = "Fin (1 / 2)" and n = 3 and hint = None]
  by (auto simp: default_retry_policy_def default_backoff_def within_unit_def split: sum.splits option.splits)

text \<open>C8: A turn is counted exactly once, however many attempts and routes it took: a failover chain that comes back with
  a turn has increased the turn counter by one, one that comes back with a failure has not changed it; in both cases
  the goal, the journal, the pending action and all other fields are untouched but for metrics, and the status has
  changed only to failed, which is exactly when the turn says to stop.\<close>

theorem turn_counted_once:
  assumes "chained_turn cfg on max_hops rng routes messages st rn = Some (Inr (x, st', rn'))"
  shows "same_core st st' \<and> mget (metrics st') ''turns'' = mget (metrics st) ''turns'' + (case x of Inl f \<Rightarrow> 0 | Inr t \<Rightarrow> 1) \<and>
    (case x of Inl f \<Rightarrow> status st' = status st | Inr t \<Rightarrow> if mt_continue t then status st' = status st else status st' = ''failed'')"
  using chained.outcome [OF assms]
  by (auto simp: turn_outcome_def turn_made_def only_metrics_core accounting_status accounting_turns split: sum.splits)

text \<open>A provider that refuses every request, and one that always gives the same answer.\<close>

definition refusing :: model_provider where
  "refusing = \<lparr>mp_name = ''a'', mp_complete = (\<lambda>messages opts n. (Inr (Inl (failure_of ''no'' ''AUTH'')), n + 1))\<rparr>"

definition answering :: "string \<Rightarrow> model_provider" where
  "answering answer = \<lparr>mp_name = ''b'', mp_complete = (\<lambda>messages opts n.
     (Inr (Inr \<lparr>mr_text = answer, mr_raw = [], mr_usage = no_usage, mr_latency_ms = 5, mr_finish_reason = JNull\<rparr>), n + 1))\<rparr>"

definition small_state :: run_state where
  "small_state = sample_state\<lparr>metrics := [(''turns'', JInt 0), (''protocol_errors'', JInt 0)]\<rparr>"

lemma refusing_turn:
  "chained_turn sample_turns failover_default_on 0 rng [(''a'', refusing, default_retry_policy), route] messages st rn =
     failover_turn sample_turns failover_default_on 0 rng messages 1 [route] (mset ''provider_name'' (JStr ''a'') st) (rn\<lparr>rn_requests := rn_requests rn + 1\<rparr>)"
  by (simp add: chained_turn_def run_with_retry.simps next_turn_def refusing_def failure_of_def retry_stops_def default_retry_policy_def
      transient_codes_def failover_default_on_def)

lemma answering_turn:
  "case next_turn sample_turns (answering (action_to_json (AskAction ''why''))) (JList []) (mset ''provider_name'' (JStr ''a'') small_state)
       \<lparr>rn_protocol_errors = 0, rn_requests = 1\<rparr> of
     Inr (Inr t, st', rn') \<Rightarrow> mt_action t = Some (AskAction ''why'') \<and> rn_requests rn' = 2 | _ \<Rightarrow> False"
  by code_simp

lemma turn_of_case:
  assumes "case r of Inr (Inr t, st', rn') \<Rightarrow> P t st' rn' | _ \<Rightarrow> False"
  obtains t st' rn' where "r = Inr (Inr t, st', rn')" "P t st' rn'"
proof (cases r)
  case (Inr y)
  obtain x st' rn' where "y = (x, st', rn')" by (rule prod_cases3)
  then show ?thesis using assms Inr that by (cases x) auto
qed (use assms in simp)

lemma turn_counted_once_witness:
  "case chained_turn sample_turns failover_default_on 0 (\<lambda>n. Fin 0)
       [(''a'', refusing, default_retry_policy), (''b'', answering (action_to_json (AskAction ''why'')), default_retry_policy)]
       (JList []) small_state \<lparr>rn_protocol_errors = 0, rn_requests = 0\<rparr> of
     Some (Inr (Inr t, st', rn')) \<Rightarrow> mt_action t = Some (AskAction ''why'') \<and> rn_requests rn' = 2 \<and> mget (metrics st') ''turns'' = 1
   | _ \<Rightarrow> False"
proof -
  let ?routes = "[(''a'', refusing, default_retry_policy), (''b'', answering (action_to_json (AskAction ''why'')), default_retry_policy)]"
  let ?rn = "\<lparr>rn_protocol_errors = 0, rn_requests = 0\<rparr>"
  obtain t st' rn' where t: "next_turn sample_turns (answering (action_to_json (AskAction ''why''))) (JList [])
      (mset ''provider_name'' (JStr ''a'') small_state) \<lparr>rn_protocol_errors = 0, rn_requests = 1\<rparr> = Inr (Inr t, st', rn')"
    "mt_action t = Some (AskAction ''why'')" "rn_requests rn' = 2"
    by (rule turn_of_case [OF answering_turn]) (elim conjE, rule that)
  have c: "chained_turn sample_turns failover_default_on 0 (\<lambda>n. Fin 0) ?routes (JList []) small_state ?rn = Some (Inr (Inr t, count_attempts 1 st', rn'))"
    unfolding refusing_turn using t(1) by (simp add: run_with_retry.simps)
  from turn_counted_once [OF c] have "mget (metrics (count_attempts 1 st')) ''turns'' = 1" by (simp add: small_state_def mget_def)
  then show ?thesis unfolding c using t(2,3) by simp
qed

text \<open>The cache accounting stays in range: if the providers report sane figures (no more hits than prompt tokens, none
  negative), then over any number of answers the totals stay ordered (hits within prompts, captured within
  theoretical tokens, input within output, steady-state hits within steady-state prompts) and every rate that the
  metrics hold is a float between 0 and 1.\<close>

theorem cache_figures_in_range:
  assumes "accumulate_usage u latency st = Inr st'" "sane_usage u" "cache_figures_ok (metrics st)"
  shows "cache_figures_ok (metrics st')"
  by (rule usage_ok [OF assms])

definition sample_usage :: model_usage where
  "sample_usage = \<lparr>mu_prompt = Some 4, mu_completion = Some 2, mu_total = None, mu_cached = None, mu_cache_hit = Some 0, mu_cache_miss = Some 4,
     mu_cache_hit_rate = None\<rparr>"

lemma sample_usage_accounted:
  "case accumulate_usage sample_usage 5 (small_state\<lparr>metrics := []\<rparr>) of
     Inr st \<Rightarrow> mget (metrics st) ''cache_observed_prompt_tokens'' = 4 | Inl _ \<Rightarrow> False"
  by code_simp

lemma cache_figures_in_range_witness:
  "\<exists>st'. accumulate_usage sample_usage 5 (small_state\<lparr>metrics := []\<rparr>) = Inr st' \<and> mget (metrics st') ''cache_observed_prompt_tokens'' = 4 \<and>
     cache_figures_ok (metrics st')"
proof -
  obtain st' where st': "accumulate_usage sample_usage 5 (small_state\<lparr>metrics := []\<rparr>) = Inr st'" "mget (metrics st') ''cache_observed_prompt_tokens'' = 4"
    using sample_usage_accounted by (cases "accumulate_usage sample_usage 5 (small_state\<lparr>metrics := []\<rparr>)") simp_all
  have "cache_figures_ok (metrics (small_state\<lparr>metrics := []\<rparr>))" by (simp add: cache_figures_ok_def figure_simps mget_def jget_def unit_rate_def)
  moreover have "sane_usage sample_usage" by code_simp
  ultimately show ?thesis using cache_figures_in_range [OF st'(1)] st' by blast
qed

end
