(* ===== verification/Checkpoint.thy ===== *)
theory Checkpoint
  imports Session
begin

text \<open>
  Checkpoints of a run (\<^verbatim>\<open>core/checkpoint.py\<close>): writing one (the payload, the pointer to the latest with
  the digest of its content, the live state), the fingerprint of the workspace, and restoring the latest.

  SHA-256 (of the UTF-8 bytes of a text), the resolution of paths, the enumeration of a directory and
  damage done to files behind the program's back are arguments. Results: what was created is restored;
  a restore that succeeds has checked run, directory, digest, workspace and journal; no checkpoint
  overwrites an earlier one; and the fingerprint tells workspaces of text files apart.
\<close>

section \<open>Paths\<close>

definition path_parent :: "string \<Rightarrow> string" where
  "path_parent p =
     (let q = rev (dropWhile (\<lambda>c. c \<noteq> CHR ''/'') (rev p)) in if length q \<le> 1 then q else butlast q)"

section \<open>Failures\<close>

datatype checkpoint_exn =
    CheckpointError string
  | CheckpointDriftError string
  | AmbiguousExecutionError string
  | Raised exn

definition raising :: "'a result \<Rightarrow> checkpoint_exn + 'a" where
  "raising r = (case r of Inl err \<Rightarrow> Inl (Raised err) | Inr x \<Rightarrow> Inr x)"

text \<open>How a file under a path may have been damaged since it was written.\<close>

datatype damage = NotUtf8 | NotJson | NotAnObject

record checkpoint_manager =
  ck_run_dir :: string \<comment> \<open>resolved\<close>
  ck_env :: env
  ck_resolve :: "string \<Rightarrow> string"
  ck_sha256 :: "string \<Rightarrow> string"
  ck_glob :: "string \<Rightarrow> ws_files \<Rightarrow> string list" \<comment> \<open>the entries under a directory, by their path relative to it\<close>
  ck_damage :: "string \<Rightarrow> damage option"

definition checkpoints_dir :: "checkpoint_manager \<Rightarrow> string" where
  "checkpoints_dir m = ck_run_dir m @ ''/checkpoints''"

definition require_workspace :: "checkpoint_manager \<Rightarrow> run_state \<Rightarrow> world \<Rightarrow> checkpoint_exn + string" where
  "require_workspace m st w =
     (case workspace_host_path st of
        None \<Rightarrow> Inl (CheckpointError ''Run state has no workspace path.'')
      | Some p \<Rightarrow>
          if ws w (ck_resolve m p) = Some DirNode then Inr (ck_resolve m p)
          else Inl (CheckpointDriftError (''Workspace does not exist: '' @ ck_resolve m p)))"

definition validate_run_binding :: "checkpoint_manager \<Rightarrow> run_state \<Rightarrow> checkpoint_exn + unit" where
  "validate_run_binding m st =
     (case run_dir st of
        Some d \<Rightarrow> if ck_resolve m d = ck_resolve m (ck_run_dir m) then Inr ()
                  else Inl (CheckpointDriftError ''Run state points to a different run directory.'')
      | None \<Rightarrow> Inl (CheckpointDriftError ''Run state points to a different run directory.''))"

section \<open>The fingerprint of a workspace\<close>

definition ignored_workspace_parts :: "string list" where
  "ignored_workspace_parts = [''.git'', ''.minicc_artifacts'', ''__pycache__'', ''.pytest_cache'', ''.mypy_cache'', ''.ruff_cache'']"

definition ignored_path :: "string \<Rightarrow> bool" where
  "ignored_path rel = list_ex (\<lambda>part. part \<in> set ignored_workspace_parts) (split_slash rel)"

text \<open>Files with their content, in the order of their paths.\<close>

definition workspace_contents :: "checkpoint_manager \<Rightarrow> string \<Rightarrow> ws_files \<Rightarrow> (string \<times> string) list" where
  "workspace_contents m workspace fs =
     List.map_filter (\<lambda>rel.
       case fs (ck_resolve m (workspace @ ''/'' @ rel)) of
         Some (FileNode c) \<Rightarrow> if ignored_path rel then None else Some (rel, c)
       | _ \<Rightarrow> None) (sort (ck_glob m workspace fs))"

definition digest_input :: "(string \<times> string) list \<Rightarrow> string" where
  "digest_input entries = concat (map (\<lambda>(rel, c). rel @ [CHR 0x00] @ c @ [CHR 0x00]) entries)"

definition tree_fingerprint :: "checkpoint_manager \<Rightarrow> string \<Rightarrow> ws_files \<Rightarrow> checkpoint_exn + string" where
  "tree_fingerprint m workspace fs =
     (let r = ck_resolve m workspace
      in if fs r = Some DirNode then Inr (ck_sha256 m (digest_input (workspace_contents m r fs)))
         else Inl (CheckpointDriftError (''Workspace does not exist: '' @ r)))"

section \<open>Creating a checkpoint\<close>

text \<open>\<^verbatim>\<open>json.dumps(..., sort_keys=True, separators=(",", ":"))\<close>.\<close>

fun sort_keys :: "json \<Rightarrow> json" where
  "sort_keys (JList vs) = JList (map sort_keys vs)"
| "sort_keys (JDict kvs) = JDict (sort_key fst (map (\<lambda>(k, v). (k, sort_keys v)) kvs))"
| "sort_keys v = v"

fun compact :: "json \<Rightarrow> string" where
  "compact (JList vs) = ''['' @ join '','' (map compact vs) @ '']''"
| "compact (JDict kvs) = ''{'' @ join '','' (map (\<lambda>(k, v). dumps_str k @ '':'' @ compact v) kvs) @ ''}''"
| "compact v = dumps v"

definition canonical_json :: "jdict \<Rightarrow> string" where
  "canonical_json d = compact (sort_keys (JDict d))"

definition four_digits :: "int \<Rightarrow> string" where \<comment> \<open>\<^verbatim>\<open>f"{n:04d}"\<close>\<close>
  "four_digits n =
     (if 0 \<le> n then pad4 (nat n)
      else (let s = str_nat (nat (- n)) in CHR ''-'' # replicate (3 - length s) (CHR ''0'') @ s))"

definition checkpoint_id_of :: "int \<Rightarrow> string" where
  "checkpoint_id_of n = ''checkpoint-'' @ four_digits n"

definition checkpoint_path :: "checkpoint_manager \<Rightarrow> int \<Rightarrow> string" where
  "checkpoint_path m n = checkpoints_dir m @ ''/'' @ checkpoint_id_of n @ ''.json''"

definition checkpoint_payload ::
  "checkpoint_manager \<Rightarrow> string \<Rightarrow> string \<Rightarrow> string \<Rightarrow> string \<Rightarrow> run_state \<Rightarrow> trajectory_step list \<Rightarrow> jdict" where
  "checkpoint_payload m created reason workspace fingerprint st trajectory =
     [(''schema_version'', JInt 1), (''checkpoint_id'', JStr (checkpoint_id_of (checkpoint_sequence st))),
      (''sequence'', JInt (checkpoint_sequence st)), (''created_at'', JStr created), (''reason'', JStr reason), (''run_id'', JStr (run_id st)),
      (''run_dir'', JStr (ck_run_dir m)), (''workspace_path'', JStr workspace), (''workspace_fingerprint'', JStr fingerprint),
      (''state'', JDict (state_to_dict st)), (''trajectory'', dicts (map step_to_dict trajectory))]"

definition checkpoint_pointer :: "checkpoint_manager \<Rightarrow> run_state \<Rightarrow> jdict \<Rightarrow> jdict" where
  "checkpoint_pointer m st payload =
     [(''schema_version'', JInt 1), (''run_id'', JStr (run_id st)), (''checkpoint_id'', JStr (checkpoint_id_of (checkpoint_sequence st))),
      (''checkpoint_file'', JStr (checkpoint_id_of (checkpoint_sequence st) @ ''.json'')),
      (''checkpoint_sha256'', JStr (ck_sha256 m (canonical_json payload)))]"

definition next_checkpoint :: "run_state \<Rightarrow> run_state" where
  "next_checkpoint st =
     (let n = checkpoint_sequence st + 1
      in bump ''checkpoints_created'' (st\<lparr>checkpoint_sequence := n, latest_checkpoint_id := Some (checkpoint_id_of n)\<rparr>))"

definition create_checkpoint ::
  "checkpoint_manager \<Rightarrow> run_state \<Rightarrow> trajectory_step list \<Rightarrow> string \<Rightarrow> world \<Rightarrow> checkpoint_exn + (string \<times> run_state \<times> world)" where
  "create_checkpoint m st trajectory reason w =
     bind_res (require_workspace m st w) (\<lambda>workspace.
     bind_res (validate_run_binding m st) (\<lambda>_.
       let st1 = next_checkpoint st in
       bind_res (tree_fingerprint m workspace (ws w)) (\<lambda>fingerprint.
         let payload = checkpoint_payload m (now (ck_env m) w) reason workspace fingerprint st1 trajectory;
             path = checkpoint_path m (checkpoint_sequence st1);
             fs = (docs w)(path \<mapsto> payload, checkpoints_dir m @ ''/latest.json'' \<mapsto> checkpoint_pointer m st1 payload)
         in Inr (path, st1, (tick w)\<lparr>docs := save_run_state (cwd (ck_env m)) st1 None fs\<rparr>))))"

section \<open>Restoring the latest checkpoint\<close>

record restored_checkpoint =
  rc_state :: run_state
  rc_trajectory :: "trajectory_step list"
  rc_checkpoint_id :: string
  rc_reason :: string

definition read_json :: "checkpoint_manager \<Rightarrow> string \<Rightarrow> world \<Rightarrow> checkpoint_exn + jdict" where
  "read_json m path w =
     (case docs w path of
        None \<Rightarrow> Inl (CheckpointDriftError (''Checkpoint JSON is unreadable: '' @ path))
      | Some d \<Rightarrow>
          (case ck_damage m path of
             Some NotUtf8 \<Rightarrow> Inl (Raised (ValueError ''invalid start byte'')) \<comment> \<open>\<^verbatim>\<open>UnicodeDecodeError\<close>\<close>
           | Some NotJson \<Rightarrow> Inl (CheckpointDriftError (''Checkpoint JSON is unreadable: '' @ path))
           | Some NotAnObject \<Rightarrow> Inl (CheckpointDriftError (''Checkpoint JSON must contain an object: '' @ path))
           | None \<Rightarrow> Inr d))"

definition has_started :: "run_state \<Rightarrow> bool" where
  "has_started st = list_ex (\<lambda>d. jget d ''status'' = JStr ''started'') (execution_journal st)"

definition guard :: "bool \<Rightarrow> checkpoint_exn \<Rightarrow> checkpoint_exn + unit" where
  "guard ok err = (if ok then Inr () else Inl err)"

text \<open>The latest pointer and the payload it names, with its digest checked.\<close>

definition latest_payload :: "checkpoint_manager \<Rightarrow> string \<Rightarrow> world \<Rightarrow> checkpoint_exn + jdict" where
  "latest_payload m rid w =
     (let pointer_path = checkpoints_dir m @ ''/latest.json'' in
      bind_res (guard (docs w pointer_path \<noteq> None) (CheckpointError (''No checkpoint exists for run '' @ rid @ ''.''))) (\<lambda>_.
      bind_res (read_json m pointer_path w) (\<lambda>pointer.
      bind_res (guard (equals_int 1 (jget pointer ''schema_version'')) (CheckpointDriftError ''Checkpoint pointer schema version is not supported.'')) (\<lambda>_.
      bind_res (guard (jget pointer ''run_id'' = JStr rid) (CheckpointDriftError ''Checkpoint pointer belongs to a different run.'')) (\<lambda>_.
      let path = ck_resolve m (path_join (checkpoints_dir m) (str_or (jget pointer ''checkpoint_file'') [])) in
      bind_res (guard (path_parent path = ck_resolve m (checkpoints_dir m) \<and> docs w path \<noteq> None)
          (CheckpointDriftError ''Checkpoint file is missing or outside the run checkpoint directory.'')) (\<lambda>_.
      bind_res (read_json m path w) (\<lambda>payload.
      bind_res (guard (jget pointer ''checkpoint_sha256'' = JStr (ck_sha256 m (canonical_json payload)))
          (CheckpointDriftError ''Checkpoint content digest does not match latest.json.'')) (\<lambda>_.
        Inr payload))))))))"

definition payload_state :: "checkpoint_manager \<Rightarrow> string \<Rightarrow> jdict \<Rightarrow> checkpoint_exn + run_state" where
  "payload_state m rid payload =
     bind_res (guard (equals_int 1 (jget payload ''schema_version'')) (CheckpointDriftError ''Checkpoint schema version is not supported.'')) (\<lambda>_.
     bind_res (guard (jget payload ''run_id'' = JStr rid \<and> ck_resolve m (path_of (py_str (jget payload ''run_dir''))) = ck_run_dir m)
         (CheckpointDriftError ''Checkpoint run identity does not match the requested run.'')) (\<lambda>_.
     case jget payload ''state'' of
       JDict d \<Rightarrow> bind_res (raising (state_from_dict d)) (\<lambda>st. bind_res (validate_run_binding m st) (\<lambda>_. Inr st))
     | _ \<Rightarrow> Inl (CheckpointDriftError ''Checkpoint state payload is missing.'')))"

definition check_live_state :: "checkpoint_manager \<Rightarrow> run_state \<Rightarrow> world \<Rightarrow> checkpoint_exn + unit" where
  "check_live_state m st w =
     (let path = ck_run_dir m @ ''/state.json''
      in if docs w path = None then Inr ()
         else
           bind_res (raising (load_run_state (docs w) path)) (\<lambda>live.
           bind_res (validate_run_binding m live) (\<lambda>_.
           bind_res (guard (workspace_host_path live = workspace_host_path st)
               (CheckpointDriftError ''Live run state points to a different workspace than the checkpoint.'')) (\<lambda>_.
             guard (\<not> has_started live) (AmbiguousExecutionError
               ''Live run state contains an action with ambiguous execution status; automatic replay is blocked.'')))))"

definition check_workspace :: "checkpoint_manager \<Rightarrow> run_state \<Rightarrow> jdict \<Rightarrow> world \<Rightarrow> checkpoint_exn + unit" where
  "check_workspace m st payload w =
     bind_res (require_workspace m st w) (\<lambda>workspace.
     bind_res (guard (workspace = ck_resolve m (path_of (py_str (jget payload ''workspace_path''))))
         (CheckpointDriftError ''Checkpoint workspace path does not match saved state.'')) (\<lambda>_.
     bind_res (tree_fingerprint m workspace (ws w)) (\<lambda>fingerprint.
       guard (jget payload ''workspace_fingerprint'' = JStr fingerprint)
         (CheckpointDriftError ''Workspace content changed after the latest checkpoint.''))))"

fun read_trajectory :: "json list \<Rightarrow> trajectory_step list result" where
  "read_trajectory [] = Inr []"
| "read_trajectory (JDict d # vs) = bind_res (step_from_dict d) (\<lambda>s. bind_res (read_trajectory vs) (\<lambda>ss. Inr (s # ss)))"
| "read_trajectory (v # vs) = read_trajectory vs"

definition resumed :: "run_state \<Rightarrow> run_state" where
  "resumed st = bump ''resumes_completed'' (st\<lparr>status := ''running'', container_name := None, resume_count := resume_count st + 1\<rparr>)"

definition restore_latest :: "checkpoint_manager \<Rightarrow> string \<Rightarrow> world \<Rightarrow> checkpoint_exn + restored_checkpoint" where
  "restore_latest m rid w =
     bind_res (latest_payload m rid w) (\<lambda>payload.
     bind_res (payload_state m rid payload) (\<lambda>st.
     bind_res (check_live_state m st w) (\<lambda>_.
     bind_res (check_workspace m st payload w) (\<lambda>_.
     bind_res (guard (\<not> has_started st) (AmbiguousExecutionError
         ''The latest checkpoint contains an action with ambiguous execution status; automatic replay is blocked.'')) (\<lambda>_.
     bind_res (guard (status st \<notin> {''completed'', ''failed'', ''waiting_approval''})
         (CheckpointError (''Checkpoint status '' @ status st @ '' is not resumable through checkpoint recovery.''))) (\<lambda>_.
     case jget payload ''trajectory'' of
       JList vs \<Rightarrow>
         bind_res (raising (read_trajectory vs)) (\<lambda>steps.
           Inr \<lparr>rc_state = resumed st, rc_trajectory = steps, rc_checkpoint_id = py_str (jget payload ''checkpoint_id''),
                rc_reason = str_or (jget payload ''reason'') []\<rparr>)
     | _ \<Rightarrow> Inl (CheckpointDriftError ''Checkpoint trajectory payload is missing.'')))))))"

section \<open>Lemmas\<close>

lemma guard_iff [simp]: "guard ok err = Inr u \<longleftrightarrow> ok"
  by (simp add: guard_def)

lemma guard_True [simp]: "guard True err = Inr ()"
  by (simp add: guard_def)

lemma raising_iff [simp]: "raising r = Inr x \<longleftrightarrow> r = Inr x"
  by (auto simp: raising_def split: sum.splits)

lemma raising_Inr [simp]: "raising (Inr x) = Inr x"
  by (simp add: raising_def)

text \<open>The run directory goes by its canonical name and holds no symbolic link, nor is the resolved workspace one.\<close>

definition settled :: "checkpoint_manager \<Rightarrow> int \<Rightarrow> string option \<Rightarrow> bool" where
  "settled m n workspace =
     (ck_run_dir m \<noteq> [] \<and> path_of (ck_run_dir m) = ck_run_dir m \<and> ck_resolve m (ck_run_dir m) = ck_run_dir m \<and>
      ck_resolve m (checkpoints_dir m) = checkpoints_dir m \<and> ck_resolve m (checkpoint_path m n) = checkpoint_path m n \<and>
      (case workspace of None \<Rightarrow> True | Some p \<Rightarrow> ck_resolve m (ck_resolve m p) = ck_resolve m p \<and> path_of (ck_resolve m p) = ck_resolve m p))"

lemma path_parent_child: "CHR ''/'' \<notin> set n \<Longrightarrow> d \<noteq> [] \<Longrightarrow> path_parent (d @ ''/'' @ n) = d"
proof -
  assume "CHR ''/'' \<notin> set n" "d \<noteq> []"
  moreover have "dropWhile (\<lambda>c. c \<noteq> CHR ''/'') (rev n @ CHR ''/'' # rev d) = CHR ''/'' # rev d"
    using \<open>CHR ''/'' \<notin> set n\<close> by (subst dropWhile_append2) auto
  ultimately show ?thesis by (simp add: path_parent_def)
qed

lemma no_slash_digits: "CHR ''/'' \<notin> set (str_nat n)"
  using str_nat_digits [of n] by (auto simp: list_all_iff is_digit_def)

lemma no_slash_id: "CHR ''/'' \<notin> set (checkpoint_id_of n @ ''.json'')"
  using no_slash_digits by (auto simp: checkpoint_id_of_def four_digits_def pad4_def Let_def)

lemma checkpoint_path_latest [simp]: "checkpoint_path m n \<noteq> checkpoints_dir m @ ''/latest.json''"
  by (simp add: checkpoint_path_def checkpoint_id_of_def)

lemma state_path_differs [simp]:
  "ck_run_dir m @ ''/state.json'' \<noteq> checkpoint_path m n" "ck_run_dir m @ ''/state.json'' \<noteq> checkpoints_dir m @ ''/latest.json''"
  "checkpoint_path m n \<noteq> ck_run_dir m @ ''/state.json''" "checkpoints_dir m @ ''/latest.json'' \<noteq> ck_run_dir m @ ''/state.json''"
  by (simp_all add: checkpoint_path_def checkpoints_dir_def)

lemma create_effect:
  assumes "create_checkpoint m st trajectory reason w = Inr (p, st1, w1)"
  obtains workspace fp payload where "require_workspace m st w = Inr workspace" "validate_run_binding m st = Inr ()"
    "tree_fingerprint m workspace (ws w) = Inr fp" "st1 = next_checkpoint st"
    "payload = checkpoint_payload m (now (ck_env m) w) reason workspace fp st1 trajectory" "p = checkpoint_path m (checkpoint_sequence st1)"
    "w1 = (tick w)\<lparr>docs := save_run_state (cwd (ck_env m)) st1 None
       ((docs w)(p \<mapsto> payload, checkpoints_dir m @ ''/latest.json'' \<mapsto> checkpoint_pointer m st1 payload))\<rparr>"
  using assms that by (auto simp: create_checkpoint_def Let_def)

lemma next_checkpoint_frame:
  "checkpoint_sequence (next_checkpoint st) = checkpoint_sequence st + 1" "run_id (next_checkpoint st) = run_id st"
  "run_dir (next_checkpoint st) = run_dir st" "status (next_checkpoint st) = status st" "execution_journal (next_checkpoint st) = execution_journal st"
  "workspace_host_path (next_checkpoint st) = workspace_host_path st"
  by (simp_all add: next_checkpoint_def Let_def add_metric_def mset_def)

lemma storable_next: "storable_state st \<Longrightarrow> storable_state (next_checkpoint st)"
  by (simp add: storable_state_def next_checkpoint_def Let_def add_metric_def mset_def)

definition storable_steps :: "trajectory_step list \<Rightarrow> bool" where
  "storable_steps ss = (\<forall>s \<in> set ss. \<forall>a. ts_action s = Some a \<longrightarrow> storable a)"

lemma read_trajectory_dicts: "storable_steps ss \<Longrightarrow> read_trajectory (map (JDict \<circ> step_to_dict) ss) = Inr ss"
proof (induction ss)
  case (Cons s ss)
  then have "step_from_dict (step_to_dict s) = Inr s" by (intro step_from_to_dict) (simp add: storable_steps_def)
  with Cons show ?case by (simp add: storable_steps_def)
qed simp

lemma latest_created:
  assumes "settled m (checkpoint_sequence st) d" "ck_damage m p = None" "ck_damage m (checkpoints_dir m @ ''/latest.json'') = None" "p = checkpoint_path m (checkpoint_sequence st)"
    and "docs w p = Some payload" "docs w (checkpoints_dir m @ ''/latest.json'') = Some (checkpoint_pointer m st payload)"
  shows "latest_payload m (run_id st) w = Inr payload"
proof -
  let ?name = "checkpoint_id_of (checkpoint_sequence st) @ ''.json''"
  have "?name \<noteq> []" "\<not> startswith ?name ''/''" by (simp_all add: checkpoint_id_of_def)
  then have join: "path_join (checkpoints_dir m) ?name = p" by (simp add: path_join_def assms(4) checkpoint_path_def)
  have "path_parent p = checkpoints_dir m"
    unfolding assms(4) checkpoint_path_def by (rule path_parent_child [OF no_slash_id]) (simp add: checkpoints_dir_def)
  moreover have "ck_resolve m p = p" "ck_resolve m (checkpoints_dir m) = checkpoints_dir m" using assms(1) by (auto simp: settled_def assms(4))
  ultimately show ?thesis
    using assms(2,3,5,6) join
    by (simp add: latest_payload_def Let_def read_json_def checkpoint_pointer_def jget_def str_or_def del: bind_res_eq_Inr)
qed

lemma payload_state_created:
  assumes "settled m n d" "storable_state st" "validate_run_binding m st = Inr ()"
  shows "payload_state m (run_id st) (checkpoint_payload m created reason workspace fp st steps) = Inr (st\<lparr>session_history := []\<rparr>)"
proof -
  have "validate_run_binding m (st\<lparr>session_history := []\<rparr>) = Inr ()" using assms(3) by (simp add: validate_run_binding_def)
  then show ?thesis
    using assms(1,2) by (simp add: payload_state_def checkpoint_payload_def jget_def state_from_to_dict settled_def del: bind_res_eq_Inr)
qed

lemma live_state_created:
  assumes "storable_state st" "validate_run_binding m st = Inr ()" "\<not> has_started st"
    and "docs w (ck_run_dir m @ ''/state.json'') = Some (state_to_dict st)"
  shows "check_live_state m (st\<lparr>session_history := []\<rparr>) w = Inr ()"
  using assms by (simp add: check_live_state_def Let_def load_run_state_def state_from_to_dict validate_run_binding_def has_started_def del: bind_res_eq_Inr)

lemma require_cong: "ws w1 = ws w \<Longrightarrow> workspace_host_path st1 = workspace_host_path st \<Longrightarrow> require_workspace m st1 w1 = require_workspace m st w"
  by (simp add: require_workspace_def cong: option.case_cong)

lemma workspace_created:
  assumes "settled m n (workspace_host_path st)" "require_workspace m st w = Inr workspace" "tree_fingerprint m workspace (ws w) = Inr fp" "ws w1 = ws w"
    and "workspace_host_path st1 = workspace_host_path st"
  shows "check_workspace m st1 (checkpoint_payload m created reason workspace fp st2 steps) w1 = Inr ()"
proof -
  have "require_workspace m st1 w1 = Inr workspace" using assms(2) require_cong [OF assms(4,5)] by simp
  moreover obtain p where "workspace_host_path st = Some p" "workspace = ck_resolve m p"
    using assms(2) by (auto simp: require_workspace_def split: option.splits if_splits)
  ultimately show ?thesis
    using assms(1,3,4) by (simp add: check_workspace_def checkpoint_payload_def jget_def settled_def del: bind_res_eq_Inr)
qed

lemma restore_after_create:
  assumes "create_checkpoint m st steps reason w = Inr (p, st1, w1)"
    and "settled m (checkpoint_sequence st + 1) (workspace_host_path st)" "run_dir st = Some (ck_run_dir m)" "ck_damage m p = None" "ck_damage m (checkpoints_dir m @ ''/latest.json'') = None"
    and "storable_state st" "storable_steps steps" "\<not> has_started st" "status st \<notin> {''completed'', ''failed'', ''waiting_approval''}"
  shows "restore_latest m (run_id st) w1 =
    Inr \<lparr>rc_state = resumed (st1\<lparr>session_history := []\<rparr>), rc_trajectory = steps,
         rc_checkpoint_id = checkpoint_id_of (checkpoint_sequence st + 1), rc_reason = reason\<rparr>"
proof -
  obtain workspace fp payload where c: "require_workspace m st w = Inr workspace" "validate_run_binding m st = Inr ()"
    "tree_fingerprint m workspace (ws w) = Inr fp" "st1 = next_checkpoint st"
    "payload = checkpoint_payload m (now (ck_env m) w) reason workspace fp st1 steps" "p = checkpoint_path m (checkpoint_sequence st1)"
    "w1 = (tick w)\<lparr>docs := save_run_state (cwd (ck_env m)) st1 None
       ((docs w)(p \<mapsto> payload, checkpoints_dir m @ ''/latest.json'' \<mapsto> checkpoint_pointer m st1 payload))\<rparr>"
    by (rule create_effect [OF assms(1)])
  note fr = next_checkpoint_frame [of st, folded c(4)]
  have docs: "docs w1 p = Some payload" "docs w1 (checkpoints_dir m @ ''/latest.json'') = Some (checkpoint_pointer m st1 payload)"
    "docs w1 (ck_run_dir m @ ''/state.json'') = Some (state_to_dict st1)"
    using assms(3) fr(3) by (simp_all add: c(6,7) save_run_state_def state_path_for_def)
  have st1: "storable_state st1" "validate_run_binding m st1 = Inr ()" "\<not> has_started st1" "\<not> has_started (st1\<lparr>session_history := []\<rparr>)"
    using storable_next [OF assms(6)] c(2,4) assms(8) fr by (simp_all add: validate_run_binding_def has_started_def)
  have ws1: "ws w1 = ws w" by (simp add: c(7) tick_def)
  have work: "check_workspace m (st1\<lparr>session_history := []\<rparr>) payload w1 = Inr ()"
    unfolding c(5) by (rule workspace_created [OF assms(2) c(1,3) ws1]) (simp add: fr)
  have traj: "jget payload ''trajectory'' = JList (map (JDict \<circ> step_to_dict) steps)" "jget payload ''checkpoint_id'' = JStr (checkpoint_id_of (checkpoint_sequence st1))"
    "jget payload ''reason'' = JStr reason"
    by (simp_all add: c(5) checkpoint_payload_def jget_def dicts_def)
  have state: "payload_state m (run_id st) payload = Inr (st1\<lparr>session_history := []\<rparr>)"
    using payload_state_created [OF assms(2) st1(1,2)] fr(2) by (simp add: c(5))
  have latest: "latest_payload m (run_id st) w1 = Inr payload"
    using latest_created [OF assms(2) [folded fr(1)] assms(4,5) c(6) docs(1,2)] fr(2) by simp
  have "status (st1\<lparr>session_history := []\<rparr>) \<notin> {''completed'', ''failed'', ''waiting_approval''}" using assms(9) fr(4) by simp
  then show ?thesis
    unfolding restore_latest_def latest state live_state_created [OF st1(1-3) docs(3)] work bind_res.simps traj
    using st1(4) fr(1) read_trajectory_dicts [OF assms(7)] by simp
qed

text \<open>A run directory on a plain file system with one file in its workspace.\<close>

definition sample_manager :: checkpoint_manager where
  "sample_manager =
     \<lparr>ck_run_dir = ''/r'', ck_env = \<lparr>cwd = ''/'', runs_root = None, now_text = (\<lambda>n. ''t''), bash_path = None,
        run_process = (\<lambda>argv d t fs. (Completed 0 [] [] 0, fs))\<rparr>,
      ck_resolve = id, ck_sha256 = id, ck_glob = (\<lambda>d fs. [''a.txt'']), ck_damage = (\<lambda>p. None)\<rparr>"

definition sample_run_state :: run_state where
  "sample_run_state = start_state ''r1'' ''fix'' (Some ''/w'') (Some ''/r'') None None [] ''daily_development'' []"

definition sample_run_world :: "string \<Rightarrow> world" where
  "sample_run_world c = \<lparr>docs = (\<lambda>p. None), art_seq = 0, art_files = (\<lambda>p. None),
     ws = (\<lambda>p. if p = ''/w'' then Some DirNode else if p = ''/w/a.txt'' then Some (FileNode c) else None), clock = 0\<rparr>"

lemma sample_created:
  "create_checkpoint sample_manager sample_run_state [] ''run_started'' (sample_run_world ''x'') =
     Inr (''/r/checkpoints/checkpoint-0001.json'', next_checkpoint sample_run_state,
       snd (snd (projr (create_checkpoint sample_manager sample_run_state [] ''run_started'' (sample_run_world ''x'')))))"
proof -
  have "pad4 1 = ''0001''" by code_simp
  then show ?thesis
    by (simp add: create_checkpoint_def require_workspace_def validate_run_binding_def tree_fingerprint_def sample_manager_def sample_run_state_def
        sample_run_world_def start_state_def next_checkpoint_def checkpoint_path_def checkpoints_dir_def checkpoint_id_of_def four_digits_def Let_def
        add_metric_def mset_def)
qed

definition sample_created_world :: world where
  "sample_created_world = snd (snd (projr (create_checkpoint sample_manager sample_run_state [] ''run_started'' (sample_run_world ''x''))))"

lemma sample_facts:
  "settled sample_manager (checkpoint_sequence sample_run_state + 1) (workspace_host_path sample_run_state)" "storable_state sample_run_state"
  "run_dir sample_run_state = Some (ck_run_dir sample_manager)" "\<not> has_started sample_run_state" "status sample_run_state = ''running''"
  "ck_damage sample_manager p = None" "storable_steps []" "run_id sample_run_state = ''r1''" "checkpoint_sequence sample_run_state = 0"
proof -
  have "path_of ''/r'' = ''/r''" "path_of ''/w'' = ''/w''" by code_simp+
  then show "settled sample_manager (checkpoint_sequence sample_run_state + 1) (workspace_host_path sample_run_state)" "storable_state sample_run_state"
    by (simp_all add: settled_def sample_manager_def sample_run_state_def start_state_def storable_state_def canonical_path_def)
qed (simp_all add: sample_manager_def sample_run_state_def start_state_def has_started_def storable_steps_def)

lemma sample_restored:
  "restore_latest sample_manager ''r1'' sample_created_world =
     Inr \<lparr>rc_state = resumed ((next_checkpoint sample_run_state)\<lparr>session_history := []\<rparr>), rc_trajectory = [],
          rc_checkpoint_id = checkpoint_id_of 1, rc_reason = ''run_started''\<rparr>"
  using restore_after_create [OF sample_created sample_facts(1,3,6,6,2,7,4)] sample_facts(5,8,9) by (simp add: sample_created_world_def)

section \<open>Properties\<close>



text \<open>C20: A restore is safe: whatever lies in the directories, a restore that succeeds has found a payload whose digest is the
  one recorded for this run; the workspace has the fingerprint it had at the checkpoint; neither the restored state nor
  the live state has an action that was started and not completed; and the run continues with status running.\<close>

theorem restore_checked:
  assumes "restore_latest m rid w = Inr r"
  shows "\<exists>payload pointer st workspace. docs w (checkpoints_dir m @ ''/latest.json'') = Some pointer \<and> jget pointer ''run_id'' = JStr rid \<and>
      jget pointer ''checkpoint_sha256'' = JStr (ck_sha256 m (canonical_json payload)) \<and> jget payload ''run_id'' = JStr rid \<and>
      jget payload ''state'' = JDict st \<and> (\<exists>s. state_from_dict st = Inr s \<and> rc_state r = resumed s \<and> \<not> has_started s \<and>
        require_workspace m s w = Inr workspace) \<and>
      (\<exists>fp. tree_fingerprint m workspace (ws w) = Inr fp \<and> jget payload ''workspace_fingerprint'' = JStr fp) \<and>
      (case docs w (ck_run_dir m @ ''/state.json'') of None \<Rightarrow> True
       | Some d \<Rightarrow> (case state_from_dict d of Inl err \<Rightarrow> False | Inr live \<Rightarrow> \<not> has_started live)) \<and>
      status (rc_state r) = ''running'' \<and> \<not> has_started (rc_state r)"
proof -
  obtain payload where l: "latest_payload m rid w = Inr payload" using assms by (auto simp: restore_latest_def)
  obtain st where s: "payload_state m rid payload = Inr st" using assms l by (auto simp: restore_latest_def)
  obtain steps where r: "check_live_state m st w = Inr ()" "check_workspace m st payload w = Inr ()" "\<not> has_started st"
    "r = \<lparr>rc_state = resumed st, rc_trajectory = steps, rc_checkpoint_id = py_str (jget payload ''checkpoint_id''), rc_reason = str_or (jget payload ''reason'') []\<rparr>"
    using assms l s by (auto simp: restore_latest_def split: json.splits)
  obtain pointer where p: "docs w (checkpoints_dir m @ ''/latest.json'') = Some pointer" "jget pointer ''run_id'' = JStr rid"
    "jget pointer ''checkpoint_sha256'' = JStr (ck_sha256 m (canonical_json payload))"
    using l by (auto simp: latest_payload_def Let_def read_json_def split: option.splits damage.splits)
  obtain d where d: "jget payload ''run_id'' = JStr rid" "jget payload ''state'' = JDict d" "state_from_dict d = Inr st"
    using s by (auto simp: payload_state_def split: json.splits)
  obtain workspace fp where w: "require_workspace m st w = Inr workspace" "tree_fingerprint m workspace (ws w) = Inr fp"
    "jget payload ''workspace_fingerprint'' = JStr fp"
    using r(2) by (auto simp: check_workspace_def)
  have live: "case docs w (ck_run_dir m @ ''/state.json'') of None \<Rightarrow> True
       | Some d \<Rightarrow> (case state_from_dict d of Inl err \<Rightarrow> False | Inr live \<Rightarrow> \<not> has_started live)"
    using r(1) by (auto simp: check_live_state_def Let_def load_run_state_def split: option.splits if_splits sum.splits)
  have "status (resumed st) = ''running''" "\<not> has_started (resumed st)"
    using r(3) by (simp_all add: resumed_def has_started_def add_metric_def mset_def)
  then show ?thesis using p d w live r(3,4) by (intro exI [of _ payload] exI [of _ pointer] exI [of _ d] exI [of _ workspace]) simp
qed

lemma restore_checked_witness:
  "\<exists>r. restore_latest sample_manager ''r1'' sample_created_world = Inr r \<and> status (rc_state r) = ''running'' \<and> \<not> has_started (rc_state r)"
  using restore_checked [OF sample_restored] sample_restored by blast

text \<open>No checkpoint overwrites an earlier one, or any other document than the pointer and the live state of the run: the
  files of the checkpoints numbered up to the current sequence are left as they are, for every state and trajectory.\<close>

theorem checkpoints_kept:
  assumes "create_checkpoint m st steps reason w = Inr (p, st1, w1)" "0 \<le> n" "n \<le> checkpoint_sequence st" "run_dir st = Some (ck_run_dir m)"
  shows "docs w1 (checkpoint_path m n) = docs w (checkpoint_path m n) \<and> checkpoint_sequence st1 = checkpoint_sequence st + 1 \<and>
    p = checkpoint_path m (checkpoint_sequence st1) \<and> ws w1 = ws w"
proof -
  obtain workspace fp payload where c: "st1 = next_checkpoint st" "p = checkpoint_path m (checkpoint_sequence st1)"
    "w1 = (tick w)\<lparr>docs := save_run_state (cwd (ck_env m)) st1 None
       ((docs w)(p \<mapsto> payload, checkpoints_dir m @ ''/latest.json'' \<mapsto> checkpoint_pointer m st1 payload))\<rparr>"
    by (rule create_effect [OF assms(1)])
  note fr = next_checkpoint_frame [of st, folded c(1)]
  have "checkpoint_path m n \<noteq> p"
    using assms(2,3) fr(1) by (auto simp: c(2) checkpoint_path_def checkpoint_id_of_def four_digits_def)
  moreover have "state_path_for (cwd (ck_env m)) st1 = ck_run_dir m @ ''/state.json''" using assms(4) fr(3) by (simp add: state_path_for_def)
  ultimately show ?thesis using fr(1) c(2) by (simp add: c(3) save_run_state_def tick_def)
qed

lemma checkpoints_kept_witness:
  "docs sample_created_world (checkpoint_path sample_manager 0) = None"
  using checkpoints_kept [OF sample_created, of 0] sample_facts(3,9) by (simp add: sample_created_world_def sample_run_world_def)

text \<open>Texts without the NUL character.\<close>

definition nul_free :: "(string \<times> string) list \<Rightarrow> bool" where
  "nul_free entries = (\<forall>(rel, c) \<in> set entries. CHR 0x00 \<notin> set rel \<and> CHR 0x00 \<notin> set c)"

lemma split_at_nul: "a @ CHR 0x00 # x = b @ CHR 0x00 # y \<Longrightarrow> CHR 0x00 \<notin> set a \<Longrightarrow> CHR 0x00 \<notin> set b \<Longrightarrow> a = b \<and> x = y"
proof (induction a arbitrary: b)
  case Nil
  then show ?case by (cases b) auto
next
  case (Cons c a)
  then show ?case by (cases b) auto
qed

lemma digest_input_inj: "nul_free as \<Longrightarrow> nul_free bs \<Longrightarrow> digest_input as = digest_input bs \<Longrightarrow> as = bs"
proof (induction as arbitrary: bs)
  case Nil
  then show ?case by (cases bs) (auto simp: digest_input_def)
next
  case (Cons a as)
  obtain rel c where a: "a = (rel, c)" by (cases a)
  obtain b bs' where bs: "bs = b # bs'" using Cons.prems(3) by (cases bs) (auto simp: digest_input_def a)
  obtain rel' c' where b: "b = (rel', c')" by (cases b)
  have n: "CHR 0x00 \<notin> set rel" "CHR 0x00 \<notin> set c" "CHR 0x00 \<notin> set rel'" "CHR 0x00 \<notin> set c'" "nul_free as" "nul_free bs'"
    using Cons.prems(1,2) by (auto simp: nul_free_def a b bs)
  have "rel @ CHR 0x00 # (c @ CHR 0x00 # digest_input as) = rel' @ CHR 0x00 # (c' @ CHR 0x00 # digest_input bs')"
    using Cons.prems(3) by (simp add: digest_input_def a b bs)
  then have "rel = rel' \<and> c @ CHR 0x00 # digest_input as = c' @ CHR 0x00 # digest_input bs'" by (rule split_at_nul) (use n in auto)
  then have "rel = rel' \<and> c = c' \<and> digest_input as = digest_input bs'" using split_at_nul [of c "digest_input as" c'] n by blast
  then show ?case using Cons.IH [OF n(5,6)] by (simp add: a b bs)
qed

text \<open>The fingerprint sees every change of a workspace of text files: if the hash does not collide on the two inputs, two
  directories whose files hold no NUL character have the same fingerprint exactly when they have the same files, apart
  from the ignored ones, with the same contents.\<close>

theorem fingerprint_sees_changes:
  assumes "fs (ck_resolve m d) = Some DirNode" "fs' (ck_resolve m d) = Some DirNode"
    and "nul_free (workspace_contents m (ck_resolve m d) fs)" "nul_free (workspace_contents m (ck_resolve m d) fs')"
    and "inj_on (ck_sha256 m) {digest_input (workspace_contents m (ck_resolve m d) fs), digest_input (workspace_contents m (ck_resolve m d) fs')}"
  shows "tree_fingerprint m d fs = tree_fingerprint m d fs' \<longleftrightarrow>
    workspace_contents m (ck_resolve m d) fs = workspace_contents m (ck_resolve m d) fs'"
proof -
  let ?a = "workspace_contents m (ck_resolve m d) fs" and ?b = "workspace_contents m (ck_resolve m d) fs'"
  have "ck_sha256 m (digest_input ?a) = ck_sha256 m (digest_input ?b) \<longleftrightarrow> digest_input ?a = digest_input ?b"
    using inj_on_eq_iff [OF assms(5)] by blast
  also have "\<dots> \<longleftrightarrow> ?a = ?b" by (rule iffI [OF digest_input_inj [OF assms(3,4)]]) simp_all
  finally show ?thesis using assms(1,2) by (simp add: tree_fingerprint_def Let_def)
qed

lemma fingerprint_sees_changes_witness:
  "tree_fingerprint sample_manager ''/w'' (ws (sample_run_world ''x'')) \<noteq> tree_fingerprint sample_manager ''/w'' (ws (sample_run_world ''y''))"
proof -
  have c: "workspace_contents sample_manager ''/w'' (ws (sample_run_world [a])) = [(''a.txt'', [a])]" for a
    by (simp add: workspace_contents_def sample_manager_def sample_run_world_def ignored_path_def ignored_workspace_parts_def map_filter_simps)
  have d: "ws (sample_run_world a) (ck_resolve sample_manager ''/w'') = Some DirNode" "ck_resolve sample_manager ''/w'' = ''/w''" for a
    by (simp_all add: sample_manager_def sample_run_world_def)
  have "nul_free (workspace_contents sample_manager (ck_resolve sample_manager ''/w'') (ws (sample_run_world ''x'')))"
    "nul_free (workspace_contents sample_manager (ck_resolve sample_manager ''/w'') (ws (sample_run_world ''y'')))"
    by (simp_all add: d c nul_free_def)
  note n = this
  have "inj_on (ck_sha256 sample_manager) A" for A by (simp add: sample_manager_def)
  from fingerprint_sees_changes [OF d(1) d(1) n this] show ?thesis by (simp add: d c)
qed

end
