(* ===== verification/Feedback.thy ===== *)
theory Feedback
  imports State Regex
begin

text \<open>
  The feedback memory (\<^verbatim>\<open>memory/feedback.py\<close>): rules a person has written into a JSONL file, read anew
  for every prompt, scored by the words they share with the goal. The content of the file is an
  argument (nothing when it does not exist), as is Python's randomised \<^verbatim>\<open>hash\<close>, which names a rule
  that has no id.

  Result: the rules that are shown to the model are the ones of the file that share a word with the
  goal, at most ten, the ones that share more words first and among equals the ones written first.
\<close>

section \<open>Rules\<close>

record feedback_rule =
  fr_id :: string
  fr_type :: string
  fr_rule :: string
  fr_scope :: string

record feedback_memory =
  fm_text :: "string option"
  fm_hash :: "string \<Rightarrow> int"

text \<open>A text field of a rule, with the value that stands in for a missing or blank one.\<close>

definition text_field :: "jdict \<Rightarrow> string \<Rightarrow> string \<Rightarrow> string" where
  "text_field d k dflt = (case nonblank_str (jget d k) of Some s \<Rightarrow> s | None \<Rightarrow> dflt)"

definition rule_from_payload :: "(string \<Rightarrow> int) \<Rightarrow> json \<Rightarrow> feedback_rule option result" where
  "rule_from_payload hash payload =
     (case payload of
        JDict d \<Rightarrow>
          bind_res (in_str_set (jget d ''type'') [''never'', ''prefer'', ''caution'']) (\<lambda>known.
            if \<not> known then Inr None
            else
              (case nonblank_str (jget d ''rule'') of
                 None \<Rightarrow> Inr None
               | Some r \<Rightarrow>
                   Inr (Some \<lparr>fr_id = text_field d ''id'' (''mem_'' @ str_int \<bar>hash r\<bar>), fr_type = py_str (jget d ''type''),
                              fr_rule = strip r, fr_scope = strip (text_field d ''scope'' ''project'')\<rparr>)))
      | _ \<Rightarrow> Inr None)"

text \<open>One line; a line that is no JSON is skipped.\<close>

definition rules_of_line :: "(string \<Rightarrow> int) \<Rightarrow> string \<Rightarrow> feedback_rule list result" where
  "rules_of_line hash l =
     (if blank l then Inr []
      else
        (case json_loads l of
           Inl (JSONDecodeError m) \<Rightarrow> Inr []
         | Inl err \<Rightarrow> Inl err
         | Inr v \<Rightarrow> bind_res (rule_from_payload hash v) (\<lambda>r. Inr (case r of None \<Rightarrow> [] | Some x \<Rightarrow> [x]))))"

definition load_rules :: "feedback_memory \<Rightarrow> feedback_rule list result" where
  "load_rules m =
     (case fm_text m of
        None \<Rightarrow> Inr []
      | Some text \<Rightarrow> bind_res (mapM_res (rules_of_line (fm_hash m)) (splitlines text)) (\<lambda>rs. Inr (concat rs)))"

section \<open>Relevance\<close>

definition feedback_term :: rx where \<comment> \<open>\<^verbatim>\<open>[\w-]+\<close>\<close>
  "feedback_term = rx_some (Cls (\<lambda>c. word_char c \<or> c = CHR ''-''))"

definition feedback_terms :: "string \<Rightarrow> string list" where
  "feedback_terms text =
     remdups (filter (\<lambda>t. 3 \<le> length t) (map (\<lambda>(i, j, c). take (j - i) (drop i (lower text))) (re_finditer feedback_term (lower text))))"

definition shared_terms :: "string \<Rightarrow> feedback_rule \<Rightarrow> nat" where
  "shared_terms goal r = length (filter (\<lambda>t. t \<in> set (feedback_terms (fr_rule r))) (feedback_terms goal))"

text \<open>Sorting the triples \<^verbatim>\<open>(score, -index, rule)\<close> downwards orders by the score and then by the place in
  the file; no two triples agree in both, so the rules themselves are never compared.\<close>

definition relevant_rules :: "feedback_rule list \<Rightarrow> string \<Rightarrow> nat \<Rightarrow> feedback_rule list" where
  "relevant_rules rules goal limit =
     take limit (sort_key (\<lambda>r. - int (shared_terms goal r)) (filter (\<lambda>r. 0 < shared_terms goal r \<or> feedback_terms goal = []) rules))"

definition feedback_text :: "feedback_rule list \<Rightarrow> string" where
  "feedback_text rules =
     (if rules = [] then [] else join [nl] (''Feedback memory rules:'' # map (\<lambda>r. ''- '' @ fr_type r @ '': '' @ fr_rule r) rules))"

definition feedback_context :: "feedback_memory \<Rightarrow> string \<Rightarrow> (feedback_rule list \<times> string) result" where
  "feedback_context m goal =
     bind_res (load_rules m) (\<lambda>rules. let chosen = relevant_rules rules goal 10 in Inr (chosen, feedback_text chosen))"

definition selected_rule_ids :: "feedback_memory \<Rightarrow> string \<Rightarrow> string list result" where
  "selected_rule_ids m goal = bind_res (feedback_context m goal) (\<lambda>(rules, t). Inr (map fr_id rules))"

section \<open>What is shown\<close>

lemma relevant_rules_shown:
  "set (relevant_rules rules goal limit) \<subseteq> {r \<in> set rules. feedback_terms goal = [] \<or> 0 < shared_terms goal r}"
  "length (relevant_rules rules goal limit) \<le> limit"
  "sorted_wrt (\<lambda>a b. shared_terms goal b \<le> shared_terms goal a) (relevant_rules rules goal limit)"
proof -
  let ?rs = "sort_key (\<lambda>r. - int (shared_terms goal r)) (filter (\<lambda>r. 0 < shared_terms goal r \<or> feedback_terms goal = []) rules)"
  have "sorted (map (\<lambda>r. - int (shared_terms goal r)) ?rs)" by (rule sorted_sort_key)
  then have "sorted_wrt (\<lambda>a b. shared_terms goal b \<le> shared_terms goal a) ?rs" by (simp add: sorted_wrt_map)
  then show "sorted_wrt (\<lambda>a b. shared_terms goal b \<le> shared_terms goal a) (relevant_rules rules goal limit)"
    unfolding relevant_rules_def by (rule sorted_wrt_take)
qed (auto simp: relevant_rules_def dest: in_set_takeD)

end
