(* ===== verification/LongTerm.thy ===== *)
theory LongTerm
  imports Turns Regex
begin

text \<open>
  The long-term memory of a project: the store of atomic memories with its keyword index, the
  distillation of a turn and the recall (\<^verbatim>\<open>memory/l1.py\<close>), the deduplication of what was distilled
  (\<^verbatim>\<open>memory/dedup.py\<close>) and the synthesis of a persona and of scenarios (\<^verbatim>\<open>memory/escalation.py\<close>).

  SQLite is an argument: whether the n-th connection fails, and the relevance of an index row to a
  query. A failing connection commits nothing. The three tables and the index are the record
  \<open>memory_db\<close>. What an operation of the agent reads and changes beside the files is the record
  \<open>agent_io\<close>, and an operation that can raise is a function \<open>'a io\<close> on it, so that what was changed
  before an exception stays changed. The optional embedding recall, which the program never
  switches on, is left out.

  Results: the hook at the end of a turn never raises and changes nothing of the run but metrics of
  its own, whatever the model and the database do; it keeps the database well-formed (the index in
  step with the rows, ids never reused, one synthesized persona, one scenario per name) and loses no
  row; and what was distilled is in the store afterwards when the deduplication fails.
\<close>

section \<open>Operations with state and exceptions\<close>

record l1_memory =
  lm_type :: string
  lm_content :: string
  lm_priority :: int
  lm_scope :: string
  lm_session_id :: string
  lm_source :: json
  lm_created_at :: string
  lm_updated_at :: string
  lm_metadata :: json
  lm_record_id :: "int option"

record persona_entry =
  pe_profile :: string
  pe_style :: string
  pe_hard_rule :: string
  pe_source_ids :: json
  pe_origin :: string
  pe_confidence :: pyfloat
  pe_updated_at :: string
  pe_id :: "int option"

record scenario_entry =
  sc_scenario :: string
  sc_summary :: string
  sc_recipe :: string
  sc_source_ids :: json
  sc_doc_ref :: string
  sc_updated_at :: string
  sc_id :: "int option"

text \<open>Rows of the tables; JSON values are stored as text.\<close>

record memory_row =
  row_id :: int
  row_type :: string
  row_content :: string
  row_priority :: int
  row_scope :: string
  row_session_id :: string
  row_source :: string
  row_created_at :: string
  row_updated_at :: string
  row_metadata :: string

record persona_row =
  pr_id :: int
  pr_profile :: string
  pr_style :: string
  pr_hard_rule :: string
  pr_source_ids :: string
  pr_origin :: string
  pr_confidence :: pyfloat
  pr_updated_at :: string

record scenario_row =
  sr_id :: int
  sr_scenario :: string
  sr_summary :: string
  sr_recipe :: string
  sr_source_ids :: string
  sr_doc_ref :: string
  sr_updated_at :: string

type_synonym index_row = "int \<times> string \<times> string" \<comment> \<open>record id, content, type\<close>

record memory_db =
  db_memories :: "memory_row list" \<comment> \<open>in order of \<^verbatim>\<open>record_id\<close>\<close>
  db_last_id :: int \<comment> \<open>\<^verbatim>\<open>AUTOINCREMENT\<close>: the last id given out\<close>
  db_index :: "index_row list"
  db_personas :: "persona_row list"
  db_last_persona :: int
  db_scenarios :: "scenario_row list"
  db_last_scenario :: int
  db_connections :: nat \<comment> \<open>opened so far\<close>

record memory_env =
  me_fails :: "nat \<Rightarrow> string option" \<comment> \<open>the class of the error the n-th connection raises\<close>
  me_time :: "nat \<Rightarrow> string" \<comment> \<open>the clock, read when n connections have been opened\<close>
  me_score :: "string \<Rightarrow> index_row list \<Rightarrow> index_row \<Rightarrow> rat option" \<comment> \<open>\<^verbatim>\<open>bm25\<close> of a row that matches a query\<close>
  me_dash :: string \<comment> \<open>the dash of a prompt, outside Latin-1\<close>
  me_markers :: "string list" \<comment> \<open>\<^verbatim>\<open>EMPHASIS_MARKERS\<close>, outside Latin-1\<close>

record agent_io =
  io_state :: run_state
  io_db :: memory_db
  io_requests :: nat \<comment> \<open>requests sent to the provider\<close>
  io_previous :: "(string \<times> (string \<times> string) list) list" \<comment> \<open>the last prompt of each run, as role and content\<close>

type_synonym 'a io = "agent_io \<Rightarrow> 'a result \<times> agent_io"

definition ret_io :: "'a \<Rightarrow> 'a io" where
  "ret_io x s = (Inr x, s)"

definition lift_io :: "'a result \<Rightarrow> 'a io" where
  "lift_io r s = (r, s)"

definition then_io :: "'a io \<Rightarrow> ('a \<Rightarrow> 'b io) \<Rightarrow> 'b io" where
  "then_io m f s = (case m s of (Inl err, s1) \<Rightarrow> (Inl err, s1) | (Inr x, s1) \<Rightarrow> f x s1)"

definition rescue :: "'a io \<Rightarrow> (exn \<Rightarrow> 'a io) \<Rightarrow> 'a io" where \<comment> \<open>\<^verbatim>\<open>try: ... except Exception as exc: ...\<close>\<close>
  "rescue m h s = (case m s of (Inl err, s1) \<Rightarrow> h err s1 | (Inr x, s1) \<Rightarrow> (Inr x, s1))"

definition get_state :: "run_state io" where
  "get_state s = (Inr (io_state s), s)"

definition state_io :: "(run_state \<Rightarrow> run_state) \<Rightarrow> unit io" where
  "state_io f s = (Inr (), s\<lparr>io_state := f (io_state s)\<rparr>)"

fun each_io :: "('a \<Rightarrow> unit io) \<Rightarrow> 'a list \<Rightarrow> unit io" where
  "each_io f [] = ret_io ()"
| "each_io f (x # xs) = then_io (f x) (\<lambda>_. each_io f xs)"

definition exn_name :: "exn \<Rightarrow> string" where \<comment> \<open>\<^verbatim>\<open>type(exc).__name__\<close>\<close>
  "exn_name err =
     (case err of
        ProtocolError m r \<Rightarrow> ''ProtocolError'' | JSONDecodeError m \<Rightarrow> ''JSONDecodeError'' | ValueError m \<Rightarrow> ''ValueError''
      | TypeError \<Rightarrow> ''TypeError'' | OverflowError \<Rightarrow> ''OverflowError'' | KeyError \<Rightarrow> ''KeyError''
      | AttributeError \<Rightarrow> ''AttributeError'' | AssertionError \<Rightarrow> ''AssertionError'' | RuntimeError m \<Rightarrow> ''RuntimeError''
      | DatabaseError c \<Rightarrow> c | NonLatin1 \<Rightarrow> [] | IllTyped \<Rightarrow> [])"

text \<open>A connection: opened, used, committed when nothing was raised, closed.\<close>

definition connection :: "memory_env \<Rightarrow> (memory_db \<Rightarrow> 'a \<times> memory_db) \<Rightarrow> 'a io" where
  "connection me body s =
     (let opened = s\<lparr>io_db := (io_db s)\<lparr>db_connections := Suc (db_connections (io_db s))\<rparr>\<rparr>
      in case me_fails me (db_connections (io_db s)) of
           Some name \<Rightarrow> (Inl (DatabaseError name), opened)
         | None \<Rightarrow> (case body (io_db opened) of (x, db) \<Rightarrow> (Inr x, opened\<lparr>io_db := db\<rparr>)))"

definition clock_io :: "memory_env \<Rightarrow> string io" where \<comment> \<open>\<^verbatim>\<open>_now()\<close>\<close>
  "clock_io me s = (Inr (me_time me (db_connections (io_db s))), s)"

section \<open>The store\<close>

definition loads_json :: "string \<Rightarrow> json \<Rightarrow> json result" where
  "loads_json raw dflt =
     (if raw = [] then Inr dflt
      else (case json_loads raw of Inl (JSONDecodeError m) \<Rightarrow> Inr dflt | r \<Rightarrow> r))"

definition memory_from_row :: "memory_row \<Rightarrow> l1_memory result" where
  "memory_from_row r =
     bind_res (loads_json (row_source r) (JDict [])) (\<lambda>src. bind_res (loads_json (row_metadata r) (JDict [])) (\<lambda>meta.
       Inr \<lparr>lm_type = row_type r, lm_content = row_content r, lm_priority = row_priority r, lm_scope = row_scope r,
            lm_session_id = row_session_id r, lm_source = src, lm_created_at = row_created_at r, lm_updated_at = row_updated_at r,
            lm_metadata = meta, lm_record_id = Some (row_id r)\<rparr>))"

definition clamp_priority :: "json \<Rightarrow> int result" where
  "clamp_priority v =
     (case int_of_json v of
        Inl (ValueError m) \<Rightarrow> Inr 0 | Inl TypeError \<Rightarrow> Inr 0 | Inl err \<Rightarrow> Inl err
      | Inr n \<Rightarrow> Inr (max 0 (min 100 n)))"

definition insert_memory :: "memory_env \<Rightarrow> l1_memory \<Rightarrow> memory_db \<Rightarrow> int \<times> memory_db" where
  "insert_memory me m db =
     (let rid = db_last_id db + 1;
          created = (if lm_created_at m \<noteq> [] then lm_created_at m else me_time me (db_connections db));
          r = \<lparr>row_id = rid, row_type = lm_type m, row_content = lm_content m, row_priority = max 0 (min 100 (lm_priority m)),
               row_scope = lm_scope m, row_session_id = lm_session_id m, row_source = dumps (lm_source m), row_created_at = created,
               row_updated_at = created, row_metadata = dumps (lm_metadata m)\<rparr>
      in (rid, db\<lparr>db_memories := db_memories db @ [r], db_last_id := rid,
                  db_index := db_index db @ [(rid, lm_content m, lm_type m)]\<rparr>))"

fun insert_memories :: "memory_env \<Rightarrow> l1_memory list \<Rightarrow> memory_db \<Rightarrow> int list \<times> memory_db" where
  "insert_memories me [] db = ([], db)"
| "insert_memories me (m # ms) db =
     (let (rid, db1) = insert_memory me m db; (rids, db2) = insert_memories me ms db1 in (rid # rids, db2))"

definition add_memories :: "memory_env \<Rightarrow> l1_memory list \<Rightarrow> int list io" where
  "add_memories me ms = (if ms = [] then ret_io [] else connection me (insert_memories me ms))"

text \<open>The query: at most eight words of the text, quoted.\<close>

definition fts_query :: "string \<Rightarrow> string" where
  "fts_query text =
     join '' OR '' (map (\<lambda>(i, j, c). [dq] @ take (j - i) (drop i text) @ [dq]) (take 8 (re_finditer (rx_some (Cls word_char)) text)))"

definition row_with_id :: "int \<Rightarrow> memory_row list \<Rightarrow> memory_row option" where
  "row_with_id rid rows = find (\<lambda>r. row_id r = rid) rows"

text \<open>The index rows that match, joined with their memories, those of the scope, in the order of the
  score and then of the priority.\<close>

definition matching_rows :: "memory_env \<Rightarrow> string \<Rightarrow> string \<Rightarrow> memory_db \<Rightarrow> memory_row list" where
  "matching_rows me query scope db =
     map snd
       (sort_key fst (sort_key (\<lambda>(x, r). - row_priority r)
         (List.map_filter (\<lambda>f.
            case (me_score me query (db_index db) f, row_with_id (fst f) (db_memories db)) of
              (Some x, Some r) \<Rightarrow> if row_scope r = scope then Some (x, r) else None
            | _ \<Rightarrow> None) (db_index db))))"

definition bm25_search :: "memory_env \<Rightarrow> string \<Rightarrow> string \<Rightarrow> int \<Rightarrow> l1_memory list io" where
  "bm25_search me text scope limit =
     (let query = fts_query text
      in if query = [] then ret_io []
         else
           then_io (connection me (\<lambda>db. (take (nat (max 0 limit)) (matching_rows me query scope db), db)))
             (\<lambda>rows. lift_io (mapM_res memory_from_row rows)))"

definition set_content :: "int \<Rightarrow> string \<Rightarrow> string \<Rightarrow> memory_db \<Rightarrow> memory_db" where
  "set_content rid content time db =
     db\<lparr>db_memories := map (\<lambda>r. if row_id r = rid then r\<lparr>row_content := content, row_updated_at := time\<rparr> else r) (db_memories db),
        db_index := map (\<lambda>(i, c, t). if i = rid then (i, content, t) else (i, c, t)) (db_index db)\<rparr>"

definition update_memory :: "memory_env \<Rightarrow> int \<Rightarrow> string \<Rightarrow> bool io" where
  "update_memory me rid content =
     then_io (clock_io me) (\<lambda>time. connection me (\<lambda>db.
       if row_with_id rid (db_memories db) = None then (False, db) else (True, set_content rid content time db)))"

definition list_memories :: "memory_env \<Rightarrow> string option \<Rightarrow> string option \<Rightarrow> l1_memory list io" where
  "list_memories me scope session =
     then_io (connection me (\<lambda>db.
         (filter (\<lambda>r. (scope = None \<or> scope = Some (row_scope r)) \<and> (session = None \<or> session = Some (row_session_id r))) (db_memories db), db)))
       (\<lambda>rows. lift_io (mapM_res memory_from_row rows))"

definition count_memories :: "memory_env \<Rightarrow> string option \<Rightarrow> int io" where
  "count_memories me scope =
     connection me (\<lambda>db. (int (length (filter (\<lambda>r. scope = None \<or> scope = Some (row_scope r)) (db_memories db))), db))"

definition persona_row_of :: "int \<Rightarrow> string \<Rightarrow> persona_entry \<Rightarrow> persona_row" where
  "persona_row_of pid time e =
     \<lparr>pr_id = pid, pr_profile = pe_profile e, pr_style = pe_style e, pr_hard_rule = pe_hard_rule e, pr_source_ids = dumps (pe_source_ids e),
      pr_origin = pe_origin e, pr_confidence = pe_confidence e, pr_updated_at = time\<rparr>"

text \<open>\<^verbatim>\<open>entry.updated_at or _now()\<close>.\<close>

definition entry_time :: "memory_env \<Rightarrow> string \<Rightarrow> string io" where
  "entry_time me updated = (if updated \<noteq> [] then ret_io updated else clock_io me)"

definition put_persona :: "string \<Rightarrow> persona_entry \<Rightarrow> memory_db \<Rightarrow> int \<times> memory_db" where
  "put_persona time e db =
     (case (if pe_origin e = ''auto'' then find (\<lambda>r. pr_origin r = ''auto'') (db_personas db) else None) of
        Some old \<Rightarrow>
          (pr_id old, db\<lparr>db_personas := map (\<lambda>r. if pr_id r = pr_id old then persona_row_of (pr_id old) time e else r) (db_personas db)\<rparr>)
      | None \<Rightarrow>
          (let pid = db_last_persona db + 1
           in (pid, db\<lparr>db_personas := db_personas db @ [persona_row_of pid time e], db_last_persona := pid\<rparr>)))"

definition upsert_persona :: "memory_env \<Rightarrow> persona_entry \<Rightarrow> int io" where
  "upsert_persona me e = then_io (entry_time me (pe_updated_at e)) (\<lambda>time. connection me (put_persona time e))"

definition persona_from_row :: "persona_row \<Rightarrow> persona_entry result" where
  "persona_from_row r =
     bind_res (loads_json (pr_source_ids r) (JList [])) (\<lambda>ids.
       Inr \<lparr>pe_profile = pr_profile r, pe_style = pr_style r, pe_hard_rule = pr_hard_rule r, pe_source_ids = ids, pe_origin = pr_origin r,
            pe_confidence = pr_confidence r, pe_updated_at = pr_updated_at r, pe_id = Some (pr_id r)\<rparr>)"

definition list_persona :: "memory_env \<Rightarrow> string option \<Rightarrow> persona_entry list io" where
  "list_persona me origin =
     then_io (connection me (\<lambda>db. (filter (\<lambda>r. origin = None \<or> origin = Some (pr_origin r)) (db_personas db), db)))
       (\<lambda>rows. lift_io (mapM_res persona_from_row rows))"

definition scenario_row_of :: "int \<Rightarrow> string \<Rightarrow> scenario_entry \<Rightarrow> scenario_row" where
  "scenario_row_of sid time e =
     \<lparr>sr_id = sid, sr_scenario = sc_scenario e, sr_summary = sc_summary e, sr_recipe = sc_recipe e, sr_source_ids = dumps (sc_source_ids e),
      sr_doc_ref = sc_doc_ref e, sr_updated_at = time\<rparr>"

definition put_scenario :: "string \<Rightarrow> scenario_entry \<Rightarrow> memory_db \<Rightarrow> int \<times> memory_db" where
  "put_scenario time e db =
     (case find (\<lambda>r. sr_scenario r = sc_scenario e) (db_scenarios db) of
        Some old \<Rightarrow>
          (sr_id old, db\<lparr>db_scenarios := map (\<lambda>r. if sr_id r = sr_id old then scenario_row_of (sr_id old) time e else r) (db_scenarios db)\<rparr>)
      | None \<Rightarrow>
          (let sid = db_last_scenario db + 1
           in (sid, db\<lparr>db_scenarios := db_scenarios db @ [scenario_row_of sid time e], db_last_scenario := sid\<rparr>)))"

definition upsert_scenario :: "memory_env \<Rightarrow> scenario_entry \<Rightarrow> int io" where
  "upsert_scenario me e = then_io (entry_time me (sc_updated_at e)) (\<lambda>time. connection me (put_scenario time e))"

definition scenario_from_row :: "scenario_row \<Rightarrow> scenario_entry result" where
  "scenario_from_row r =
     bind_res (loads_json (sr_source_ids r) (JList [])) (\<lambda>ids.
       Inr \<lparr>sc_scenario = sr_scenario r, sc_summary = sr_summary r, sc_recipe = sr_recipe r, sc_source_ids = ids, sc_doc_ref = sr_doc_ref r,
            sc_updated_at = sr_updated_at r, sc_id = Some (sr_id r)\<rparr>)"

definition list_scenarios :: "memory_env \<Rightarrow> int option \<Rightarrow> scenario_entry list io" where
  "list_scenarios me limit =
     then_io (connection me (\<lambda>db. (case limit of None \<Rightarrow> db_scenarios db | Some n \<Rightarrow> take (nat (max 0 n)) (db_scenarios db), db)))
       (\<lambda>rows. lift_io (mapM_res scenario_from_row rows))"

section \<open>Asking a model\<close>

definition chat :: "(string \<times> string) list \<Rightarrow> json" where
  "chat ms = JList (map (\<lambda>(role, content). JDict [(''role'', JStr role), (''content'', JStr content)]) ms)"

definition ask_model :: "model_provider \<Rightarrow> (string \<times> string) list \<Rightarrow> completion_options \<Rightarrow> (llm_failure + model_response) io" where
  "ask_model p ms opts s = (let (r, n) = mp_complete p (chat ms) opts (io_requests s) in (r, s\<lparr>io_requests := n\<rparr>))"

definition json_options :: completion_options where
  "json_options = \<lparr>opt_temperature = Fin 0, opt_stream = False, opt_include_usage = True, opt_json_mode = True, opt_max_tokens = None\<rparr>"

text \<open>\<^verbatim>\<open>except (ProviderError, RuntimeError)\<close>: no answer. Any other exception goes on.\<close>

definition answer_or_none :: "model_provider \<Rightarrow> (string \<times> string) list \<Rightarrow> model_response option io" where
  "answer_or_none p ms s =
     (case ask_model p ms json_options s of
        (Inr (Inr resp), s1) \<Rightarrow> (Inr (Some resp), s1)
      | (Inr (Inl f), s1) \<Rightarrow> (Inr None, s1)
      | (Inl (RuntimeError m), s1) \<Rightarrow> (Inr None, s1)
      | (Inl err, s1) \<Rightarrow> (Inl err, s1))"

text \<open>\<^verbatim>\<open>json.loads\<close> with a handler for \<^verbatim>\<open>JSONDecodeError\<close> only.\<close>

definition json_or_none :: "string \<Rightarrow> json option result" where
  "json_or_none t = (case json_loads t of Inl (JSONDecodeError m) \<Rightarrow> Inr None | Inl err \<Rightarrow> Inl err | Inr v \<Rightarrow> Inr (Some v))"

text \<open>A text with double quotes, written with backquotes.\<close>

abbreviation quoted :: "string \<Rightarrow> string" where
  "quoted \<equiv> replace_char (CHR 0x60) dq"

section \<open>Distillation\<close>

record distill_result =
  dr_ok :: bool
  dr_memories :: "l1_memory list"
  dr_error_code :: "string option"
  dr_usage :: "model_usage option"

definition distill_failed :: "string \<Rightarrow> model_usage option \<Rightarrow> distill_result" where
  "distill_failed code u = \<lparr>dr_ok = False, dr_memories = [], dr_error_code = Some code, dr_usage = u\<rparr>"

definition memory_types :: "string list" where
  "memory_types = [''fact'', ''preference'', ''decision'', ''constraint'', ''todo'']"

definition memory_scopes :: "string list" where
  "memory_scopes = [''project'', ''session'']"

definition coerce_memory :: "string \<Rightarrow> string \<Rightarrow> json \<Rightarrow> l1_memory option result" where
  "coerce_memory time session item =
     (case item of
        JDict d \<Rightarrow>
          (case nonblank_str (jget d ''content'') of
             None \<Rightarrow> Inr None
           | Some content \<Rightarrow>
               bind_res (in_str_set (jget d ''type'') memory_types) (\<lambda>known.
                 if \<not> known then Inr None
                 else
                   bind_res (in_str_set (jget_or d ''scope'' (JStr ''project'')) memory_scopes) (\<lambda>scoped.
                   bind_res (clamp_priority (jget_or d ''priority'' (JInt 0))) (\<lambda>prio.
                     Inr (Some \<lparr>lm_type = py_str (jget d ''type''), lm_content = strip content, lm_priority = prio,
                                lm_scope = (if scoped then py_str (jget_or d ''scope'' (JStr ''project'')) else ''project''),
                                lm_session_id = session,
                                lm_source = (case jget d ''source'' of JDict src \<Rightarrow> JDict src | _ \<Rightarrow> JDict []),
                                lm_created_at = time, lm_updated_at = time, lm_metadata = JDict [], lm_record_id = None\<rparr>)))))
      | _ \<Rightarrow> Inr None)"

definition parse_distilled :: "string \<Rightarrow> string \<Rightarrow> string \<Rightarrow> model_usage \<Rightarrow> distill_result result" where
  "parse_distilled time session text u =
     bind_res (json_or_none text) (\<lambda>v.
       case v of
         None \<Rightarrow> Inr (distill_failed ''bad_json'' (Some u))
       | Some (JList items) \<Rightarrow>
           bind_res (mapM_res (coerce_memory time session) items) (\<lambda>ms.
             Inr \<lparr>dr_ok = True, dr_memories = List.map_filter id ms, dr_error_code = None, dr_usage = Some u\<rparr>)
       | Some _ \<Rightarrow> Inr (distill_failed ''bad_shape'' (Some u)))"

definition distill_prompt :: "string \<Rightarrow> string \<Rightarrow> string \<Rightarrow> string \<Rightarrow> string" where
  "distill_prompt user_message assistant_reply rid facts =
     join [nl, nl]
       [''Distill the turn below into atomic long-term memories.'',
        ''Emit a JSON array of objects with exactly these fields:'',
        quoted ''  {`type`: `fact`|`preference`|`decision`|`constraint`|`todo`,'',
        quoted ''   `content`: `<one self-contained atomic memory>`,'',
        quoted ''   `priority`: 0-100 (higher = more important),'',
        quoted ''   `scope`: `project`|`session`,'',
        quoted ''   `source`: {`run_id`: `...`, `file`: `<path or empty>`, `line`: <int or null>}}'',
        quoted ''Use `project` scope for facts/preferences that hold across sessions for this project; use `session` for this-session-only decisions and todos.'',
        ''When the turn contains nothing worth remembering, return [].'',
        ''run_id: '' @ rid,
        (if blank facts then ''Run facts: (none)'' else ''Run facts:'' @ [nl] @ strip facts),
        ''User message:'' @ [nl] @ strip user_message,
        ''Assistant reply:'' @ [nl] @ strip assistant_reply]"

definition distill :: "memory_env \<Rightarrow> model_provider \<Rightarrow> string \<Rightarrow> string \<Rightarrow> string \<Rightarrow> string \<Rightarrow> string \<Rightarrow> distill_result io" where
  "distill me p user_message assistant_reply rid session facts =
     then_io (answer_or_none p
         [(''system'', ''You extract durable knowledge from one coding-agent turn. Return ONLY a JSON array, no prose. Empty array [] is a valid answer.''),
          (''user'', distill_prompt user_message assistant_reply rid facts)])
       (\<lambda>a. case a of
              None \<Rightarrow> ret_io (distill_failed ''provider'' None)
            | Some resp \<Rightarrow> then_io (clock_io me) (\<lambda>time. lift_io (parse_distilled time session (mr_text resp) (mr_usage resp))))"

section \<open>Recall\<close>

record recall_result =
  re_ok :: bool
  re_memories :: "l1_memory list"
  re_error_code :: "string option"

definition recall_memories :: "memory_env \<Rightarrow> string \<Rightarrow> string \<Rightarrow> int \<Rightarrow> recall_result io" where
  "recall_memories me query scope limit =
     (if blank query then ret_io \<lparr>re_ok = True, re_memories = [], re_error_code = None\<rparr>
      else
        rescue (then_io (bm25_search me query scope limit) (\<lambda>ms. ret_io \<lparr>re_ok = True, re_memories = ms, re_error_code = None\<rparr>))
          (\<lambda>err. ret_io \<lparr>re_ok = False, re_memories = [], re_error_code = Some (''recall_error:'' @ exn_name err)\<rparr>))"

definition memory_entry_line :: "int \<Rightarrow> l1_memory \<Rightarrow> string" where
  "memory_entry_line max_chars m =
     (let c = lm_content m;
          shown = (if max_chars < int (length c) then take (nat (max (max_chars - 3) 0)) c @ ''...'' else c)
      in ''- ['' @ lm_type m @ ''] ('' @ lm_scope m @ '', p'' @ str_int (lm_priority m) @ '') '' @ shown)"

fun memory_lines :: "int \<Rightarrow> int \<Rightarrow> l1_memory list \<Rightarrow> string list \<Rightarrow> int \<Rightarrow> string list" where
  "memory_lines per_memory max_total [] lines used = lines"
| "memory_lines per_memory max_total (m # ms) lines used =
     (let entry = memory_entry_line per_memory m; n = int (length entry)
      in if lines \<noteq> [] \<and> max_total < used + n then lines @ [''- ... (more memories truncated)'']
         else memory_lines per_memory max_total ms (lines @ [entry]) (used + n))"

definition format_relevant_memories :: "int \<Rightarrow> int \<Rightarrow> l1_memory list \<Rightarrow> string" where
  "format_relevant_memories per_memory max_total ms =
     (if ms = [] then []
      else ''<relevant-memories>'' @ [nl] @ join [nl] (memory_lines per_memory max_total ms [] 0) @ [nl] @ ''</relevant-memories>'')"

section \<open>Deduplication\<close>

record dedup_decision =
  dd_index :: int
  dd_action :: string
  dd_record_id :: "int option"
  dd_content :: "string option"

definition dedup_actions :: "string list" where
  "dedup_actions = [''store'', ''skip'', ''update'', ''merge'']"

definition opt_int_value :: "json \<Rightarrow> int option" where \<comment> \<open>\<^verbatim>\<open>isinstance(v, int)\<close>, booleans included\<close>
  "opt_int_value v = (case v of JInt n \<Rightarrow> Some n | JBool b \<Rightarrow> Some (if b then 1 else 0) | _ \<Rightarrow> None)"

definition decision_of :: "json \<Rightarrow> dedup_decision option result" where
  "decision_of item =
     (case item of
        JDict d \<Rightarrow>
          (case opt_int_value (jget d ''index'') of
             None \<Rightarrow> Inr None
           | Some i \<Rightarrow>
               bind_res (in_str_set (jget d ''action'') dedup_actions) (\<lambda>known.
                 Inr (if known then
                        Some \<lparr>dd_index = i, dd_action = py_str (jget d ''action''), dd_record_id = opt_int_value (jget d ''record_id''),
                              dd_content = nonblank_str (jget d ''content'')\<rparr>
                      else None)))
      | _ \<Rightarrow> Inr None)"

definition parse_decisions :: "string \<Rightarrow> dedup_decision list option result" where
  "parse_decisions text =
     bind_res (json_or_none text) (\<lambda>v.
       case v of
         Some (JList items) \<Rightarrow> bind_res (mapM_res decision_of items) (\<lambda>ds. Inr (Some (List.map_filter id ds)))
       | _ \<Rightarrow> Inr None)"

definition candidate_line :: "l1_memory \<Rightarrow> string" where
  "candidate_line m = ''- ['' @ (case lm_record_id m of Some n \<Rightarrow> str_int n | None \<Rightarrow> ''?'') @ ''] ('' @ lm_type m @ '') '' @ lm_content m"

definition dedup_prompt :: "memory_env \<Rightarrow> l1_memory list \<Rightarrow> l1_memory list \<Rightarrow> string" where
  "dedup_prompt me new_memories candidates =
     join [nl]
       ([''Compare each NEW memory against the EXISTING memories and classify it.'',
         ''Actions:'',
         quoted ''  `store`  '' @ me_dash me @ '' brand new, no existing match (record_id: null, content: null)'',
         quoted ''  `skip`   '' @ me_dash me @ '' exact duplicate of an existing memory (give its record_id)'',
         quoted ''  `update` '' @ me_dash me @ '' supersedes an existing memory; give record_id + the new content'',
         quoted ''  `merge`  '' @ me_dash me @ '' combines with an existing memory; give record_id + the merged content'',
         ''Return ONLY a JSON array, one object per NEW memory:'',
         quoted ''  [{`index`: <int>, `action`: `store`|`skip`|`update`|`merge`,'',
         quoted ''    `record_id`: <int|null>, `content`: `<string|null>`}]'',
         [], ''EXISTING memories:''] @
        (if candidates = [] then [''(none)''] else map candidate_line candidates) @
        [[], ''NEW memories:''] @
        map (\<lambda>(i, m). ''- [index '' @ str_nat i @ ''] ('' @ lm_type m @ '') '' @ lm_content m) (List.enumerate 0 new_memories))"

definition dedup :: "memory_env \<Rightarrow> model_provider \<Rightarrow> l1_memory list \<Rightarrow> l1_memory list \<Rightarrow> dedup_decision list option io" where
  "dedup me p new_memories candidates =
     (if new_memories = [] then ret_io (Some [])
      else
        then_io (answer_or_none p
            [(''system'', ''You deduplicate coding-agent memories. Return ONLY a JSON array, no prose.''),
             (''user'', dedup_prompt me new_memories candidates)])
          (\<lambda>a. case a of None \<Rightarrow> ret_io None | Some resp \<Rightarrow> lift_io (parse_decisions (mr_text resp))))"

text \<open>The stored memories the new ones are compared with: the hits of every one, each once.\<close>

definition add_candidate :: "l1_memory \<Rightarrow> l1_memory list \<Rightarrow> l1_memory list" where
  "add_candidate c cs =
     (if lm_record_id c = None \<or> lm_record_id c \<in> lm_record_id ` set cs then cs else cs @ [c])"

fun dedup_candidates :: "memory_env \<Rightarrow> l1_memory list \<Rightarrow> l1_memory list \<Rightarrow> l1_memory list io" where
  "dedup_candidates me [] cs = ret_io cs"
| "dedup_candidates me (m # ms) cs =
     then_io (bm25_search me (lm_content m) (lm_scope m) 5) (\<lambda>hits. dedup_candidates me ms (fold add_candidate hits cs))"

definition decision_for :: "dedup_decision list \<Rightarrow> nat \<Rightarrow> dedup_decision option" where \<comment> \<open>the last one for an index counts\<close>
  "decision_for ds i = find (\<lambda>d. dd_index d = int i) (rev ds)"

definition store_one :: "memory_env \<Rightarrow> dedup_decision option \<Rightarrow> l1_memory \<Rightarrow> int list io" where
  "store_one me decision m =
     (case decision of
        None \<Rightarrow> then_io (state_io (bump ''memory_dedup_store'')) (\<lambda>_. add_memories me [m])
      | Some d \<Rightarrow>
          then_io (state_io (bump (''memory_dedup_'' @ dd_action d))) (\<lambda>_.
            if dd_action d = ''store'' then add_memories me [m]
            else if dd_action d = ''update'' \<or> dd_action d = ''merge'' then
              (case dd_record_id d of
                 None \<Rightarrow> add_memories me [m]
               | Some rid \<Rightarrow>
                   then_io (update_memory me rid (case dd_content d of Some c \<Rightarrow> c | None \<Rightarrow> lm_content m)) (\<lambda>found.
                     if found then ret_io [rid] else add_memories me [m]))
            else ret_io []))"

fun store_decided :: "memory_env \<Rightarrow> dedup_decision list \<Rightarrow> nat \<Rightarrow> l1_memory list \<Rightarrow> int list io" where
  "store_decided me ds i [] = ret_io []"
| "store_decided me ds i (m # ms) =
     then_io (store_one me (decision_for ds i) m) (\<lambda>ids. then_io (store_decided me ds (Suc i) ms) (\<lambda>more. ret_io (ids @ more)))"

definition store_with_dedup :: "memory_env \<Rightarrow> model_provider option \<Rightarrow> l1_memory list \<Rightarrow> int list io" where
  "store_with_dedup me deduper ms =
     (case deduper of
        None \<Rightarrow> add_memories me ms
      | Some p \<Rightarrow>
          then_io (dedup_candidates me ms []) (\<lambda>candidates.
          then_io (rescue (dedup me p ms candidates) (\<lambda>_. ret_io None)) (\<lambda>decisions.
            case decisions of
              None \<Rightarrow> then_io (state_io (bump ''memory_dedup_failed'')) (\<lambda>_. add_memories me ms)
            | Some ds \<Rightarrow> store_decided me ds 0 ms)))"

section \<open>Persona and scenarios\<close>

definition has_emphasis :: "memory_env \<Rightarrow> string \<Rightarrow> bool" where
  "has_emphasis me text = list_ex (contains text) (me_markers me)"

text \<open>\<^verbatim>\<open>_clean\<close>.\<close>

definition clean :: "json \<Rightarrow> string" where
  "clean v = (case v of JStr s \<Rightarrow> strip s | _ \<Rightarrow> [])"

definition record_ids :: "l1_memory list \<Rightarrow> json" where
  "record_ids ms = JList (map JInt (List.map_filter lm_record_id ms))"

definition facet_line :: "string \<Rightarrow> string \<Rightarrow> string \<Rightarrow> string list" where
  "facet_line name origin v = (if blank v then [] else [''- '' @ name @ ''['' @ origin @ '']: '' @ strip v])"

definition render_persona :: "persona_entry list \<Rightarrow> string" where
  "render_persona es =
     (if es = [] then []
      else join [nl] (''Persona (long-term, project-scoped):'' #
        concat (map (\<lambda>e. let origin = (if pe_origin e = ''manual'' then ''manual'' else ''auto'') in
          facet_line ''profile'' origin (pe_profile e) @ facet_line ''style'' origin (pe_style e) @ facet_line ''hard_rule'' origin (pe_hard_rule e)) es)))"

definition persona_prompt :: "l1_memory list \<Rightarrow> string" where
  "persona_prompt signals =
     join [nl]
       ([''Distill the following confirmed preference/constraint memories into a concise persona.'',
         quoted ''Return JSON: {`profile`: `<who the user is>`, `style`: `<how they like to work>`,'',
         quoted '' `hard_rule`: `<non-negotiable constraints>`}'',
         ''Use short phrases; each field may be empty if nothing applies.'',
         ''Memories:''] @
        map (\<lambda>m. ''- ('' @ lm_type m @ '', p'' @ str_int (lm_priority m) @ '') '' @ lm_content m) signals)"

definition parse_persona :: "l1_memory list \<Rightarrow> string \<Rightarrow> persona_entry option result" where
  "parse_persona signals text =
     bind_res (json_or_none text) (\<lambda>v. Inr (
       case v of
         Some (JDict d) \<Rightarrow>
           (let profile = clean (jget d ''profile''); style = clean (jget d ''style''); hard_rule = clean (jget d ''hard_rule'')
            in if profile = [] \<and> style = [] \<and> hard_rule = [] then None
               else Some \<lparr>pe_profile = profile, pe_style = style, pe_hard_rule = hard_rule, pe_source_ids = record_ids signals,
                          pe_origin = ''auto'',
                          pe_confidence = (if 5 < length signals then Fin 1 else f64 (rat_of_nat (length signals) / 5)),
                          pe_updated_at = [], pe_id = None\<rparr>)
       | _ \<Rightarrow> None))"

definition synthesize_persona :: "model_provider \<Rightarrow> l1_memory list \<Rightarrow> persona_entry option io" where
  "synthesize_persona p signals =
     (if signals = [] then ret_io None
      else
        then_io (answer_or_none p
            [(''system'', ''You summarize what a user cares about long-term into a compact persona. Return ONLY a JSON object, no prose.''),
             (''user'', persona_prompt signals)])
          (\<lambda>a. case a of None \<Rightarrow> ret_io None | Some resp \<Rightarrow> lift_io (parse_persona signals (mr_text resp))))"

record escalator =
  es_provider :: model_provider
  es_threshold :: int

definition persona_signals :: "memory_env \<Rightarrow> l1_memory list io" where
  "persona_signals me =
     then_io (rescue (list_memories me (Some ''project'') None) (\<lambda>_. ret_io []))
       (\<lambda>ms. ret_io (filter (\<lambda>m. lm_type m \<in> {''preference'', ''constraint''}) ms))"

definition escalate_persona :: "memory_env \<Rightarrow> escalator \<Rightarrow> unit io" where
  "escalate_persona me e =
     then_io (persona_signals me) (\<lambda>signals. then_io get_state (\<lambda>st.
       if signals = [] \<or> (int (length signals) < max 1 (es_threshold e) \<and> \<not> has_emphasis me (rs_goal st)) then ret_io ()
       else
         then_io (synthesize_persona (es_provider e) signals) (\<lambda>entry.
           case entry of
             None \<Rightarrow> state_io (bump ''persona_synthesis_failed'')
           | Some x \<Rightarrow>
               then_io (rescue (then_io (upsert_persona me x) (\<lambda>_. ret_io True)) (\<lambda>_. ret_io False)) (\<lambda>ok.
                 if ok then state_io (\<lambda>st. mset ''persona_signal_count'' (JInt (int (length signals))) (bump ''persona_synthesized'' st))
                 else state_io (bump ''persona_synthesis_failed'')))))"

definition topic_key :: "l1_memory \<Rightarrow> string" where
  "topic_key m =
     (case lm_source m of
        JDict d \<Rightarrow> (case nonblank_str (jget d ''file'') of Some f \<Rightarrow> strip f | None \<Rightarrow> [])
      | _ \<Rightarrow> [])"

definition render_scenarios :: "scenario_entry list \<Rightarrow> string" where
  "render_scenarios es =
     (if es = [] then []
      else join [nl] (''Scenarios (long-term project knowledge):'' #
        concat (map (\<lambda>e. [''- scenario: '' @ strip (sc_scenario e)] @
          (if blank (sc_summary e) then [] else [''  summary: '' @ strip (sc_summary e)]) @
          (if blank (sc_recipe e) then [] else [''  recipe: '' @ strip (sc_recipe e)])) es)))"

definition scenario_prompt :: "string \<Rightarrow> l1_memory list \<Rightarrow> string" where
  "scenario_prompt topic ms =
     join [nl]
       ([''Distill these memories (all about topic '' @ [CHR 0x27] @ topic @ [CHR 0x27] @ '') into one reusable scenario.'',
         quoted ''Return JSON: {`scenario`: `<short topic name>`, `summary`: `<what we know>`,'',
         quoted '' `recipe`: `<how to fix / what to run next time>`}'',
         ''Use short phrases; a field may be empty if nothing applies.'',
         ''Memories:''] @
        map (\<lambda>m. ''- ('' @ lm_type m @ '') '' @ lm_content m) ms)"

definition parse_scenario :: "string \<Rightarrow> l1_memory list \<Rightarrow> string \<Rightarrow> scenario_entry option result" where
  "parse_scenario topic ms text =
     bind_res (json_or_none text) (\<lambda>v. Inr (
       case v of
         Some (JDict d) \<Rightarrow>
           (let name = clean (jget d ''scenario''); summary = clean (jget d ''summary''); recipe = clean (jget d ''recipe'')
            in if summary = [] \<and> recipe = [] then None
               else Some \<lparr>sc_scenario = (if name = [] then topic else name), sc_summary = summary, sc_recipe = recipe,
                          sc_source_ids = record_ids ms, sc_doc_ref = [], sc_updated_at = [], sc_id = None\<rparr>)
       | _ \<Rightarrow> None))"

definition synthesize_scenario :: "model_provider \<Rightarrow> string \<Rightarrow> l1_memory list \<Rightarrow> scenario_entry option io" where
  "synthesize_scenario p topic ms =
     (if ms = [] then ret_io None
      else
        then_io (answer_or_none p
            [(''system'', ''You distill a set of related coding memories into one reusable project scenario. Return ONLY a JSON object, no prose.''),
             (''user'', scenario_prompt topic ms)])
          (\<lambda>a. case a of None \<Rightarrow> ret_io None | Some resp \<Rightarrow> lift_io (parse_scenario topic ms (mr_text resp))))"

text \<open>The memories by topic, the topics in the order of their first memory.\<close>

definition topics :: "l1_memory list \<Rightarrow> (string \<times> l1_memory list) list" where
  "topics ms =
     map (\<lambda>k. (k, filter (\<lambda>m. topic_key m = k) ms)) (rev (remdups (rev (filter (\<lambda>k. k \<noteq> []) (map topic_key ms)))))"

definition clusters :: "memory_env \<Rightarrow> (string \<times> l1_memory list) list io" where
  "clusters me =
     then_io (rescue (list_memories me (Some ''project'') None) (\<lambda>_. ret_io [])) (\<lambda>ms. ret_io (topics ms))"

definition escalate_topic :: "memory_env \<Rightarrow> escalator \<Rightarrow> string \<times> l1_memory list \<Rightarrow> unit io" where
  "escalate_topic me e cluster =
     (case cluster of (topic, ms) \<Rightarrow>
       if int (length ms) < max 1 (es_threshold e) then ret_io ()
       else
         then_io (synthesize_scenario (es_provider e) topic ms) (\<lambda>entry.
           case entry of
             None \<Rightarrow> state_io (bump ''scenario_synthesis_failed'')
           | Some x \<Rightarrow>
               then_io (rescue (then_io (upsert_scenario me x) (\<lambda>_. ret_io True)) (\<lambda>_. ret_io False)) (\<lambda>ok.
                 state_io (bump (if ok then ''scenario_synthesized'' else ''scenario_synthesis_failed'')))))"

definition escalate_scenarios :: "memory_env \<Rightarrow> escalator \<Rightarrow> unit io" where
  "escalate_scenarios me e =
     then_io (clusters me) (\<lambda>cs.
     then_io (each_io (escalate_topic me e) cs) (\<lambda>_.
     then_io (rescue (then_io (list_scenarios me None) (\<lambda>xs. ret_io (int (length xs)))) (\<lambda>_. ret_io 0)) (\<lambda>n.
       state_io (mset ''scenario_count'' (JInt n)))))"

definition when_present_io :: "('a \<Rightarrow> unit io) \<Rightarrow> 'a option \<Rightarrow> unit io" where
  "when_present_io f x = (case x of None \<Rightarrow> ret_io () | Some y \<Rightarrow> f y)"

definition escalate :: "memory_env \<Rightarrow> escalator option \<times> escalator option \<Rightarrow> unit io" where
  "escalate me e =
     then_io (when_present_io (escalate_persona me) (fst e)) (\<lambda>_. when_present_io (escalate_scenarios me) (snd e))"

section \<open>The end of a turn\<close>

record turn_hook =
  th_env :: memory_env
  th_provider :: model_provider
  th_every :: int
  th_deduper :: "model_provider option"
  th_escalation :: "(escalator option \<times> escalator option) option" \<comment> \<open>persona and scenarios\<close>

record committed_turn =
  ct_user_message :: string
  ct_assistant_reply :: string
  ct_run_id :: string

definition first_text :: "string list \<Rightarrow> string" where \<comment> \<open>\<^verbatim>\<open>a or b or ""\<close>\<close>
  "first_text ts = (case filter (\<lambda>t. t \<noteq> []) ts of [] \<Rightarrow> [] | t # _ \<Rightarrow> t)"

definition run_facts :: "run_state \<Rightarrow> string" where
  "run_facts st =
     join '', ''
       [''status='' @ status st,
        ''turns='' @ py_str (jget_or (metrics st) ''turns'' (JInt 0)),
        ''bash_actions='' @ py_str (jget_or (metrics st) ''bash_actions'' (JInt 0)),
        ''command_failures='' @ py_str (jget_or (metrics st) ''command_failures'' (JInt 0)),
        ''policy_denials='' @ py_str (jget_or (metrics st) ''policy_denials'' (JInt 0))]"

definition int_or_zero :: "int option \<Rightarrow> json" where
  "int_or_zero v = JInt (case v of Some n \<Rightarrow> n | None \<Rightarrow> 0)"

definition record_distilled :: "distill_result \<Rightarrow> run_state \<Rightarrow> run_state" where
  "record_distilled r st =
     (let st1 = mset ''memory_distill_count'' (JInt (int (length (dr_memories r)))) (bump ''memory_distill_successes'' st)
      in case dr_usage r of
           None \<Rightarrow> st1
         | Some u \<Rightarrow> mset ''memory_distill_completion_tokens'' (int_or_zero (mu_completion u))
                      (mset ''memory_distill_prompt_tokens'' (int_or_zero (mu_prompt u)) st1))"

definition distill_and_store :: "turn_hook \<Rightarrow> string \<Rightarrow> committed_turn \<Rightarrow> unit io" where
  "distill_and_store h session t =
     then_io get_state (\<lambda>st.
       let user_message = first_text [ct_user_message t, rs_goal st];
           reply = first_text [ct_assistant_reply t, (case final_answer st of Some a \<Rightarrow> a | None \<Rightarrow> []), state_summary st];
           rid = first_text [ct_run_id t, run_id st]
       in then_io (distill (th_env h) (th_provider h) user_message reply rid session (run_facts st)) (\<lambda>r.
            if \<not> dr_ok r then
              state_io (\<lambda>st. mset ''memory_distill_error'' (opt_str (dr_error_code r)) (bump ''memory_distill_failed'' st))
            else
              then_io (state_io (record_distilled r)) (\<lambda>_.
                if dr_memories r = [] then ret_io ()
                else
                  then_io (store_with_dedup (th_env h) (th_deduper h) (dr_memories r)) (\<lambda>stored.
                  then_io (state_io (mset ''memory_stored'' (JInt (int (length stored))))) (\<lambda>_.
                    when_present_io (escalate (th_env h)) (th_escalation h))))))"

text \<open>The counter of turns is the hook's own; nothing is raised.\<close>

definition turn_end :: "turn_hook \<Rightarrow> string \<Rightarrow> committed_turn \<Rightarrow> int \<Rightarrow> agent_io \<Rightarrow> int \<times> agent_io" where
  "turn_end h session t counter s =
     (let n = counter + 1
      in if n mod max 1 (th_every h) \<noteq> 0 then (n, s)
         else
           (n, snd (rescue (distill_and_store h session t) (\<lambda>err.
                  state_io (\<lambda>st. mset ''memory_distill_error'' (JStr (''hook:'' @ exn_name err)) (bump ''memory_distill_failed'' st))) s)))"

section \<open>What the operations keep\<close>

definition index_of :: "memory_row \<Rightarrow> index_row" where
  "index_of r = (row_id r, row_content r, row_type r)"

definition memories_ok :: "memory_db \<Rightarrow> bool" where
  "memories_ok db =
     (sorted_wrt (<) (map row_id (db_memories db)) \<and> list_all (\<lambda>r. row_id r \<le> db_last_id db \<and> 0 \<le> row_priority r \<and> row_priority r \<le> 100) (db_memories db) \<and>
      db_index db = map index_of (db_memories db))"

definition personas_ok :: "memory_db \<Rightarrow> bool" where
  "personas_ok db =
     (distinct (map pr_id (db_personas db)) \<and> list_all (\<lambda>r. pr_id r \<le> db_last_persona db) (db_personas db) \<and>
      length (filter (\<lambda>r. pr_origin r = ''auto'') (db_personas db)) \<le> 1)"

definition scenarios_ok :: "memory_db \<Rightarrow> bool" where
  "scenarios_ok db =
     (distinct (map sr_id (db_scenarios db)) \<and> list_all (\<lambda>r. sr_id r \<le> db_last_scenario db) (db_scenarios db) \<and>
      distinct (map sr_scenario (db_scenarios db)))"

definition db_ok :: "memory_db \<Rightarrow> bool" where
  "db_ok db = (memories_ok db \<and> personas_ok db \<and> scenarios_ok db)"

text \<open>All of a row but its content and the time of its last change.\<close>

definition kept_part :: "memory_row \<Rightarrow> memory_row" where
  "kept_part r = r\<lparr>row_content := [], row_updated_at := []\<rparr>"

definition rows_kept :: "memory_db \<Rightarrow> memory_db \<Rightarrow> bool" where
  "rows_kept db db' = prefix (map kept_part (db_memories db)) (map kept_part (db_memories db'))"

text \<open>The metrics of the long-term memory.\<close>

definition hook_keys :: "string set" where
  "hook_keys = {k. prefix ''memory_d'' k \<or> k = ''memory_stored'' \<or> prefix ''persona_s'' k \<or> prefix ''scenario_'' k}"

definition db_step :: "memory_db \<Rightarrow> memory_db \<Rightarrow> bool" where
  "db_step db db' = (db_ok db \<longrightarrow> db_ok db' \<and> rows_kept db db')"

definition safe_step :: "agent_io \<Rightarrow> agent_io \<Rightarrow> bool" where
  "safe_step s s' =
     (only_metrics hook_keys (io_state s) (io_state s') \<and> io_previous s' = io_previous s \<and> db_step (io_db s) (io_db s'))"

definition safe_io :: "'a io \<Rightarrow> bool" where
  "safe_io m = (\<forall>s. safe_step s (snd (m s)))"

named_theorems safe_intros \<open>operations that keep the database and the run\<close>

lemma only_metrics_trans: "only_metrics K a b \<Longrightarrow> only_metrics K b c \<Longrightarrow> only_metrics K a c"
  by (auto simp: only_metrics_def)

lemma rows_kept_refl [simp]: "rows_kept db db"
  by (simp add: rows_kept_def)

lemma rows_kept_trans: "rows_kept a b \<Longrightarrow> rows_kept b c \<Longrightarrow> rows_kept a c"
  unfolding rows_kept_def by (rule prefix_order.trans)

lemma db_step_refl [simp]: "db_step db db"
  by (simp add: db_step_def)

lemma db_step_trans: "db_step a b \<Longrightarrow> db_step b c \<Longrightarrow> db_step a c"
  by (auto simp: db_step_def intro: rows_kept_trans)

lemma safe_step_refl [simp]: "safe_step s s"
  by (simp add: safe_step_def)

lemma safe_step_trans: "safe_step a b \<Longrightarrow> safe_step b c \<Longrightarrow> safe_step a c"
  by (auto simp: safe_step_def intro: only_metrics_trans db_step_trans)

lemma safe_ret [safe_intros]: "safe_io (ret_io x)"
  by (simp add: safe_io_def ret_io_def)

lemma safe_lift [safe_intros]: "safe_io (lift_io r)"
  by (simp add: safe_io_def lift_io_def)

lemma safe_clock [safe_intros]: "safe_io (clock_io me)"
  by (simp add: safe_io_def clock_io_def)

lemma safe_then [safe_intros]: "safe_io m \<Longrightarrow> (\<And>x. safe_io (f x)) \<Longrightarrow> safe_io (then_io m f)"
  unfolding safe_io_def then_io_def
proof (intro allI, goal_cases)
  case (1 s)
  then show ?case by (cases "m s") (force split: sum.splits intro: safe_step_trans)
qed

lemma safe_rescue [safe_intros]: "safe_io m \<Longrightarrow> (\<And>err. safe_io (h err)) \<Longrightarrow> safe_io (rescue m h)"
  unfolding safe_io_def rescue_def
proof (intro allI, goal_cases)
  case (1 s)
  then show ?case by (cases "m s") (force split: sum.splits intro: safe_step_trans)
qed

lemma safe_if [safe_intros]: "safe_io m \<Longrightarrow> safe_io n \<Longrightarrow> safe_io (if c then m else n)"
  by simp

lemma safe_option [safe_intros]: "safe_io m \<Longrightarrow> (\<And>x. safe_io (f x)) \<Longrightarrow> safe_io (case v of None \<Rightarrow> m | Some x \<Rightarrow> f x)"
  by (cases v) auto

lemma safe_pair [safe_intros]: "(\<And>x y. safe_io (f x y)) \<Longrightarrow> safe_io (case v of (x, y) \<Rightarrow> f x y)"
  by (cases v) auto

lemma safe_get [safe_intros]: "safe_io get_state"
  by (simp add: safe_io_def get_state_def)

lemma safe_each [safe_intros]: "(\<And>x. safe_io (f x)) \<Longrightarrow> safe_io (each_io f xs)"
  by (induction xs) (auto intro: safe_intros)

lemma safe_state [safe_intros]: "(\<And>st. only_metrics hook_keys st (f st)) \<Longrightarrow> safe_io (state_io f)"
  by (simp add: safe_io_def state_io_def safe_step_def)

lemma db_step_connections [simp]: "db_step db (db\<lparr>db_connections := n\<rparr>)"
  by (simp add: db_step_def db_ok_def memories_ok_def personas_ok_def scenarios_ok_def rows_kept_def)

lemma safe_connection [safe_intros]:
  assumes "\<And>db. db_step db (snd (body db))"
  shows "safe_io (connection me body)"
  unfolding safe_io_def
proof
  fix s :: agent_io
  let ?db = "(io_db s)\<lparr>db_connections := Suc (db_connections (io_db s))\<rparr>"
  have "db_step (io_db s) (snd (body ?db))" using db_step_trans [OF db_step_connections assms] .
  then show "safe_step s (snd (connection me body s))"
    by (cases "body ?db") (simp add: connection_def Let_def safe_step_def split: option.split)
qed

lemma safe_ask [safe_intros]: "safe_io (ask_model p ms opts)"
  by (simp add: safe_io_def ask_model_def safe_step_def Let_def split: prod.split)

lemma safe_answer [safe_intros]: "safe_io (answer_or_none p ms)"
proof -
  have "safe_step s (snd (ask_model p ms json_options s))" for s using safe_ask by (simp add: safe_io_def)
  then show ?thesis
    unfolding safe_io_def answer_or_none_def by (auto split: prod.split sum.split exn.split) (metis snd_conv)+
qed

subsection \<open>The tables\<close>

lemma kept_part_content [simp]: "kept_part (r\<lparr>row_content := c, row_updated_at := t\<rparr>) = kept_part r"
  by (simp add: kept_part_def)

lemma db_step_insert: "db_step db (snd (insert_memory me m db))"
  by (auto simp: db_step_def db_ok_def memories_ok_def personas_ok_def scenarios_ok_def rows_kept_def insert_memory_def Let_def
      sorted_wrt_append list_all_iff index_of_def intro: zle_add1_eq_le [THEN iffD1])

lemma db_step_inserts: "db_step db (snd (insert_memories me ms db))"
proof (induction ms arbitrary: db)
  case (Cons m ms)
  obtain rid db1 where m: "insert_memory me m db = (rid, db1)" by fastforce
  obtain rids db2 where ms: "insert_memories me ms db1 = (rids, db2)" by fastforce
  have "db_step db db1" using db_step_insert [of db me m] m by simp
  moreover have "db_step db1 db2" using Cons [of db1] ms by simp
  ultimately show ?case by (simp add: m ms db_step_trans)
qed simp

lemma safe_add [safe_intros]: "safe_io (add_memories me ms)"
  unfolding add_memories_def by (intro safe_intros db_step_inserts)

lemma safe_search [safe_intros]: "safe_io (bm25_search me q scope limit)"
  unfolding bm25_search_def Let_def by (intro safe_intros) simp

lemma db_step_content: "db_step db (set_content rid c t db)"
  by (auto simp: db_step_def db_ok_def memories_ok_def personas_ok_def scenarios_ok_def rows_kept_def set_content_def
      list_all_iff index_of_def comp_def if_distrib cong: if_cong)

lemma safe_update [safe_intros]: "safe_io (update_memory me rid c)"
  unfolding update_memory_def by (intro safe_intros) (auto simp: db_step_content)

lemma safe_list [safe_intros]: "safe_io (list_memories me scope session)"
  unfolding list_memories_def by (intro safe_intros) simp

lemma safe_entry_time [safe_intros]: "safe_io (entry_time me t)"
  unfolding entry_time_def by (intro safe_intros)

text \<open>Replacing the row with a given id by one that agrees with it on \<open>f\<close>.\<close>

lemma map_replace: "\<forall>x \<in> set xs. k x = k y \<longrightarrow> f z = f x \<Longrightarrow> map f (map (\<lambda>x. if k x = k y then z else x) xs) = map f xs"
  by simp

lemma replaced_by_id: "distinct (map k xs) \<Longrightarrow> y \<in> set xs \<Longrightarrow> f z = f y \<Longrightarrow> \<forall>x \<in> set xs. k x = k y \<longrightarrow> f z = f x"
  by (metis distinct_map inj_onD)

lemma length_filter_map: "length (filter P xs) = length (filter id (map P xs))"
  by (induction xs) auto

lemma personas_ok_put:
  assumes "personas_ok db"
  shows "personas_ok (snd (put_persona t e db))"
proof (cases "if pe_origin e = ''auto'' then find (\<lambda>r. pr_origin r = ''auto'') (db_personas db) else None")
  case None
  then have "pe_origin e = ''auto'' \<longrightarrow> filter (\<lambda>r. pr_origin r = ''auto'') (db_personas db) = []"
    by (auto simp: find_None_iff filter_empty_conv split: if_splits)
  then show ?thesis using assms None
    by (auto simp: personas_ok_def put_persona_def Let_def persona_row_of_def list_all_iff)
next
  case (Some old)
  then have old: "pe_origin e = ''auto''" "old \<in> set (db_personas db)" "pr_origin old = ''auto''"
    by (auto simp: find_Some_iff split: if_splits)
  let ?new = "persona_row_of (pr_id old) t e"
  let ?rows = "map (\<lambda>r. if pr_id r = pr_id old then ?new else r) (db_personas db)"
  have ids: "map pr_id ?rows = map pr_id (db_personas db)" by (rule map_replace) (simp add: persona_row_of_def)
  have "map (\<lambda>r. pr_origin r = ''auto'') ?rows = map (\<lambda>r. pr_origin r = ''auto'') (db_personas db)"
    using assms old by (intro map_replace replaced_by_id) (auto simp: personas_ok_def persona_row_of_def)
  then have "length (filter (\<lambda>r. pr_origin r = ''auto'') ?rows) = length (filter (\<lambda>r. pr_origin r = ''auto'') (db_personas db))"
    by (subst (1 2) length_filter_map) (simp only:)
  moreover have "distinct (map pr_id ?rows)" using ids assms by (simp only: personas_ok_def)
  moreover have "list_all (\<lambda>r. pr_id r \<le> db_last_persona db) ?rows"
    using assms old(2) by (auto simp: personas_ok_def list_all_iff persona_row_of_def)
  ultimately show ?thesis using assms Some by (simp add: personas_ok_def put_persona_def)
qed

lemma scenarios_ok_put:
  assumes "scenarios_ok db"
  shows "scenarios_ok (snd (put_scenario t e db))"
proof (cases "find (\<lambda>r. sr_scenario r = sc_scenario e) (db_scenarios db)")
  case None
  then have "sc_scenario e \<notin> sr_scenario ` set (db_scenarios db)" by (auto simp: find_None_iff)
  with None show ?thesis using assms
    by (auto simp: scenarios_ok_def put_scenario_def Let_def scenario_row_of_def list_all_iff)
next
  case (Some old)
  then have old: "old \<in> set (db_scenarios db)" "sr_scenario old = sc_scenario e" by (auto simp: find_Some_iff)
  let ?new = "scenario_row_of (sr_id old) t e"
  let ?rows = "map (\<lambda>r. if sr_id r = sr_id old then ?new else r) (db_scenarios db)"
  have "map sr_id ?rows = map sr_id (db_scenarios db)" by (rule map_replace) (simp add: scenario_row_of_def)
  moreover have "map sr_scenario ?rows = map sr_scenario (db_scenarios db)"
    using assms old by (intro map_replace replaced_by_id) (auto simp: scenarios_ok_def scenario_row_of_def)
  moreover have "list_all (\<lambda>r. sr_id r \<le> db_last_scenario db) ?rows"
    using assms old(1) by (auto simp: scenarios_ok_def list_all_iff scenario_row_of_def)
  ultimately show ?thesis using assms Some by (simp add: scenarios_ok_def put_scenario_def del: map_map)
qed

lemma put_frame [simp]:
  "db_memories (snd (put_persona t e db)) = db_memories db" "memories_ok (snd (put_persona t e db)) = memories_ok db"
  "scenarios_ok (snd (put_persona t e db)) = scenarios_ok db"
  "db_memories (snd (put_scenario t x db)) = db_memories db" "memories_ok (snd (put_scenario t x db)) = memories_ok db"
  "personas_ok (snd (put_scenario t x db)) = personas_ok db"
  by (auto simp: put_persona_def put_scenario_def memories_ok_def scenarios_ok_def personas_ok_def Let_def split: option.split)

lemma db_step_persona: "db_step db (snd (put_persona t e db))"
  by (simp add: db_step_def db_ok_def rows_kept_def personas_ok_put)

lemma db_step_scenario: "db_step db (snd (put_scenario t e db))"
  by (simp add: db_step_def db_ok_def rows_kept_def scenarios_ok_put)

lemma safe_upsert [safe_intros]: "safe_io (upsert_persona me x)" "safe_io (upsert_scenario me e)"
  unfolding upsert_persona_def upsert_scenario_def by (intro safe_intros db_step_persona db_step_scenario)+

lemma safe_list_scenarios [safe_intros]: "safe_io (list_scenarios me limit)"
  unfolding list_scenarios_def by (intro safe_intros) simp

subsection \<open>The hook\<close>

lemma hook_key [simp]:
  "''memory_dedup_'' @ a \<in> hook_keys" "''memory_dedup_store'' \<in> hook_keys" "''memory_dedup_failed'' \<in> hook_keys"
  "''memory_distill_error'' \<in> hook_keys" "''memory_distill_failed'' \<in> hook_keys" "''memory_distill_count'' \<in> hook_keys"
  "''memory_distill_successes'' \<in> hook_keys" "''memory_distill_prompt_tokens'' \<in> hook_keys"
  "''memory_distill_completion_tokens'' \<in> hook_keys" "''memory_stored'' \<in> hook_keys" "''persona_synthesis_failed'' \<in> hook_keys"
  "''persona_synthesized'' \<in> hook_keys" "''persona_signal_count'' \<in> hook_keys" "''scenario_synthesis_failed'' \<in> hook_keys"
  "''scenario_synthesized'' \<in> hook_keys" "''scenario_count'' \<in> hook_keys"
  by (simp_all add: hook_keys_def)

declare only_metrics_mset [safe_intros] only_metrics_add [safe_intros] only_metrics_refl [safe_intros] hook_key [safe_intros]

lemma safe_distill [safe_intros]: "safe_io (distill me p um ar rid session facts)"
  unfolding distill_def by (intro safe_intros)

lemma safe_dedup [safe_intros]: "safe_io (dedup me p ms cs)"
  unfolding dedup_def by (intro safe_intros)

lemma safe_candidates [safe_intros]: "safe_io (dedup_candidates me ms cs)"
  by (induction me ms cs rule: dedup_candidates.induct) (auto intro!: safe_intros)

lemma safe_store_one [safe_intros]: "safe_io (store_one me d m)"
  unfolding store_one_def by (intro safe_intros)

lemma safe_store_decided [safe_intros]: "safe_io (store_decided me ds i ms)"
  by (induction me ds i ms rule: store_decided.induct) (auto intro!: safe_intros)

lemma safe_store [safe_intros]: "safe_io (store_with_dedup me d ms)"
  unfolding store_with_dedup_def by (intro safe_intros)

lemma safe_signals [safe_intros]: "safe_io (persona_signals me)"
  unfolding persona_signals_def by (intro safe_intros)

lemma safe_synthesize [safe_intros]: "safe_io (synthesize_persona p signals)" "safe_io (synthesize_scenario p topic ms)"
  unfolding synthesize_persona_def synthesize_scenario_def by (intro safe_intros)+

lemma safe_persona [safe_intros]: "safe_io (escalate_persona me e)"
  unfolding escalate_persona_def by (intro safe_intros)

lemma safe_topic [safe_intros]: "safe_io (escalate_topic me e c)"
  unfolding escalate_topic_def by (intro safe_intros) simp

lemma safe_escalate [safe_intros]: "safe_io (escalate me e)"
  unfolding escalate_def escalate_scenarios_def clusters_def when_present_io_def by (intro safe_intros)

lemma safe_distilled [safe_intros]: "only_metrics hook_keys st (record_distilled r st)"
  unfolding record_distilled_def Let_def by (auto intro!: safe_intros split: option.split)

lemma safe_turn: "safe_io (distill_and_store h session t)"
  unfolding distill_and_store_def Let_def when_present_io_def by (intro safe_intros)

lemma turn_end_step: "turn_end h session t n s = (n', s') \<Longrightarrow> n' = n + 1 \<and> safe_step s s'"
proof -
  have "safe_io (rescue (distill_and_store h session t) (\<lambda>err.
      state_io (\<lambda>st. mset ''memory_distill_error'' (JStr (''hook:'' @ exn_name err)) (bump ''memory_distill_failed'' st))))"
    by (intro safe_intros safe_turn)
  then show "turn_end h session t n s = (n', s') \<Longrightarrow> n' = n + 1 \<and> safe_step s s'"
    by (auto simp: turn_end_def Let_def safe_io_def split: if_splits)
qed

section \<open>Search without an index\<close>

definition search_spec :: "memory_env \<Rightarrow> string \<Rightarrow> string \<Rightarrow> memory_row list \<Rightarrow> memory_row list" where
  "search_spec me query scope rows =
     (let score = (\<lambda>r. me_score me query (map index_of rows) (index_of r));
          hits = filter (\<lambda>r. row_scope r = scope \<and> score r \<noteq> None) rows
      in sort_key (\<lambda>r. the (score r)) (sort_key (\<lambda>r. - row_priority r) hits))"

lemma sort_key_map_pair: "sort_key f (map (\<lambda>x. (g x, x)) xs) = map (\<lambda>x. (g x, x)) (sort_key (\<lambda>x. f (g x, x)) xs)"
proof -
  have ins: "insort_key f (g x, x) (map (\<lambda>x. (g x, x)) ys) = map (\<lambda>x. (g x, x)) (insort_key (\<lambda>x. f (g x, x)) x ys)" for x ys
    by (induction ys) auto
  show ?thesis by (induction xs) (auto simp: ins)
qed

lemma map_snd_sort_key: "map snd (sort_key f (map (\<lambda>x. (g x, x)) xs)) = sort_key (\<lambda>x. f (g x, x)) xs"
  by (simp add: sort_key_map_pair comp_def)

lemma find_own_row: "sorted_wrt (<) (map row_id rows) \<Longrightarrow> r \<in> set rows \<Longrightarrow> row_with_id (row_id r) rows = Some r"
  unfolding row_with_id_def by (simp add: find_distinct strict_sorted_iff)

lemma matching_rows_spec:
  assumes "memories_ok db"
  shows "matching_rows me query scope db = search_spec me query scope (db_memories db)"
proof -
  let ?rows = "db_memories db"
  let ?score = "\<lambda>r. me_score me query (map index_of ?rows) (index_of r)"
  have "List.map_filter (\<lambda>f.
            case (me_score me query (map index_of ?rows) f, row_with_id (fst f) ?rows) of
              (Some x, Some r) \<Rightarrow> if row_scope r = scope then Some (x, r) else None
            | _ \<Rightarrow> None) (map index_of xs) =
        map (\<lambda>r. (the (?score r), r)) (filter (\<lambda>r. row_scope r = scope \<and> ?score r \<noteq> None) xs)" if "set xs \<subseteq> set ?rows" for xs
    using that
  proof (induction xs)
    case (Cons r xs)
    have "row_with_id (row_id r) ?rows = Some r" using Cons.prems assms by (intro find_own_row) (auto simp: memories_ok_def)
    then have "row_with_id (fst (index_of r)) ?rows = Some r" by (simp add: index_of_def)
    with Cons show ?case by (auto simp: List.map_filter_def split: option.splits)
  qed (simp add: List.map_filter_def)
  from this [OF subset_refl] show ?thesis
    using assms unfolding matching_rows_def search_spec_def memories_ok_def
    by (simp add: sort_key_map_pair map_snd_sort_key comp_def)
qed

section \<open>Storing without a decision\<close>

text \<open>What is stored as JSON is read back.\<close>

definition readable :: "memory_db \<Rightarrow> bool" where
  "readable db = list_all (\<lambda>r. \<not> isl (memory_from_row r)) (db_memories db)"

lemma mapM_res_total: "list_all (\<lambda>x. \<not> isl (f x)) xs \<Longrightarrow> \<exists>ys. mapM_res f xs = Inr ys"
proof (induction xs)
  case (Cons x xs)
  then show ?case by (cases "f x") auto
qed simp

lemma in_map_filter: "x \<in> set (List.map_filter f xs) \<Longrightarrow> \<exists>y \<in> set xs. f y = Some x"
  by (induction xs) (auto simp: List.map_filter_simps split: option.splits)

lemma row_with_id_in: "row_with_id i rows = Some r \<Longrightarrow> r \<in> set rows"
  by (auto simp: row_with_id_def find_Some_iff)

lemma matching_rows_subset: "set (matching_rows me q scope db) \<subseteq> set (db_memories db)"
  by (auto simp: matching_rows_def dest!: in_map_filter row_with_id_in split: option.splits if_splits)

lemma search_reads:
  assumes "\<forall>n. me_fails me n = None" "readable (io_db s)"
  shows "\<exists>hits n. bm25_search me text scope limit s = (Inr hits, s\<lparr>io_db := (io_db s)\<lparr>db_connections := n\<rparr>\<rparr>)"
proof (cases "fts_query text = []")
  case True
  then show ?thesis
    by (intro exI [of _ "[]"] exI [of _ "db_connections (io_db s)"]) (simp add: bm25_search_def ret_io_def)
next
  case False
  let ?rows = "take (nat (max 0 limit)) (matching_rows me (fts_query text) scope ((io_db s)\<lparr>db_connections := Suc (db_connections (io_db s))\<rparr>))"
  have "set ?rows \<subseteq> set (db_memories (io_db s))"
    using matching_rows_subset [of me _ scope "(io_db s)\<lparr>db_connections := Suc (db_connections (io_db s))\<rparr>"] by (auto dest!: in_set_takeD)
  then have "list_all (\<lambda>r. \<not> isl (memory_from_row r)) ?rows" using assms(2) by (auto simp: readable_def list_all_iff)
  then obtain hits where "mapM_res memory_from_row ?rows = Inr hits" using mapM_res_total by blast
  then show ?thesis using False assms(1)
    by (intro exI [of _ hits] exI [of _ "Suc (db_connections (io_db s))"])
      (simp add: bm25_search_def then_io_def connection_def lift_io_def)
qed

lemma candidates_read:
  assumes "\<forall>n. me_fails me n = None" "readable (io_db s)"
  shows "\<exists>cs' n. dedup_candidates me ms cs s = (Inr cs', s\<lparr>io_db := (io_db s)\<lparr>db_connections := n\<rparr>\<rparr>)"
  using assms(2)
proof (induction ms arbitrary: cs s)
  case Nil
  show ?case by (intro exI [of _ cs] exI [of _ "db_connections (io_db s)"]) (simp add: ret_io_def)
next
  case (Cons m ms)
  obtain hits n where h: "bm25_search me (lm_content m) (lm_scope m) 5 s = (Inr hits, s\<lparr>io_db := (io_db s)\<lparr>db_connections := n\<rparr>\<rparr>)"
    using search_reads [OF assms(1) Cons.prems] by blast
  have "readable (io_db (s\<lparr>io_db := (io_db s)\<lparr>db_connections := n\<rparr>\<rparr>))" using Cons.prems by (simp add: readable_def)
  from Cons.IH [OF this, of "fold add_candidate hits cs"] show ?case by (auto simp: then_io_def h)
qed

lemma answer_db: "io_db (snd (answer_or_none p ms s)) = io_db s"
  by (auto simp: answer_or_none_def ask_model_def Let_def split: prod.split sum.split exn.split)

lemma dedup_db: "io_db (snd (dedup me p ms cs s)) = io_db s"
  using answer_db by (auto simp: dedup_def then_io_def ret_io_def lift_io_def split: prod.split sum.split option.split) (metis snd_conv)+

lemma insert_memory_row:
  "\<exists>r. db_memories (snd (insert_memory me m db)) = db_memories db @ [r] \<and> row_content r = lm_content m \<and> fst (insert_memory me m db) = row_id r"
  by (simp add: insert_memory_def Let_def)

lemma insert_memories_rows:
  "insert_memories me ms db = (ids, db') \<Longrightarrow>
   \<exists>rows. db_memories db' = db_memories db @ rows \<and> map row_content rows = map lm_content ms \<and> ids = map row_id rows"
proof (induction ms arbitrary: db ids db')
  case (Cons m ms)
  obtain rid db1 where m: "insert_memory me m db = (rid, db1)" by fastforce
  then obtain r where r: "db_memories db1 = db_memories db @ [r]" "row_content r = lm_content m" "rid = row_id r"
    using insert_memory_row [of me m db] by auto
  obtain rids db2 where ms: "insert_memories me ms db1 = (rids, db2)" by fastforce
  from Cons.IH [OF ms] obtain rows where "db_memories db2 = db_memories db1 @ rows" "map row_content rows = map lm_content ms" "rids = map row_id rows"
    by blast
  with r Cons.prems show ?case by (intro exI [of _ "r # rows"]) (auto simp: m ms)
qed simp

lemma add_memories_rows:
  assumes "\<forall>n. me_fails me n = None"
  obtains rows s' where "add_memories me ms s = (Inr (map row_id rows), s')" "db_memories (io_db s') = db_memories (io_db s) @ rows"
    "map row_content rows = map lm_content ms"
proof (cases "ms = []")
  case True
  then show thesis using that [of "[]" s] by (simp add: add_memories_def ret_io_def)
next
  case False
  let ?db = "(io_db s)\<lparr>db_connections := Suc (db_connections (io_db s))\<rparr>"
  obtain ids db' where i: "insert_memories me ms ?db = (ids, db')" by fastforce
  from insert_memories_rows [OF i] obtain rows where
    "db_memories db' = db_memories (io_db s) @ rows" "map row_content rows = map lm_content ms" "ids = map row_id rows" by auto
  then show thesis using that [of rows "s\<lparr>io_db := db'\<rparr>"] False i assms
    by (simp add: add_memories_def connection_def Let_def)
qed

lemma append_all:
  assumes fine: "\<forall>n. me_fails me n = None" "readable (io_db s)"
    and fails: "\<And>cs s1. fst (rescue (dedup me p ms cs) (\<lambda>_. ret_io None) s1) = Inr None"
  shows "\<exists>rows s'. store_with_dedup me (Some p) ms s = (Inr (map row_id rows), s') \<and>
    db_memories (io_db s') = db_memories (io_db s) @ rows \<and> map row_content rows = map lm_content ms"
proof -
  obtain cs n where c: "dedup_candidates me ms [] s = (Inr cs, s\<lparr>io_db := (io_db s)\<lparr>db_connections := n\<rparr>\<rparr>)"
    using candidates_read [OF fine] by blast
  let ?s = "s\<lparr>io_db := (io_db s)\<lparr>db_connections := n\<rparr>\<rparr>"
  let ?d = "rescue (dedup me p ms cs) (\<lambda>_. ret_io None)"
  obtain s1 where d: "?d ?s = (Inr None, s1)" using fails [of cs ?s] by (cases "?d ?s") auto
  have "io_db s1 = io_db ?s"
    using d dedup_db [of me p ms cs ?s] by (auto simp: rescue_def ret_io_def split: prod.splits sum.splits)
  moreover obtain rows s2 where "add_memories me ms (snd (state_io (bump ''memory_dedup_failed'') s1)) = (Inr (map row_id rows), s2)"
    "db_memories (io_db s2) = db_memories (io_db (snd (state_io (bump ''memory_dedup_failed'') s1))) @ rows"
    "map row_content rows = map lm_content ms" by (rule add_memories_rows [OF fine(1)])
  ultimately show ?thesis by (auto simp: store_with_dedup_def then_io_def c d state_io_def)
qed

section \<open>Properties\<close>

definition empty_db :: memory_db where
  "empty_db = \<lparr>db_memories = [], db_last_id = 0, db_index = [], db_personas = [], db_last_persona = 0, db_scenarios = [],
     db_last_scenario = 0, db_connections = 0\<rparr>"

definition quiet_env :: memory_env where
  "quiet_env = \<lparr>me_fails = (\<lambda>_. None), me_time = (\<lambda>_. ''2025-01-01T00:00:00''),
     me_score = (\<lambda>q rows (i, c, t). if contains q c then Some 1 else None), me_dash = ''-'', me_markers = []\<rparr>"

definition sample_io :: agent_io where
  "sample_io = \<lparr>io_state = small_state, io_db = snd (insert_memories quiet_env
       [\<lparr>lm_type = ''fact'', lm_content = [dq] @ ''pytest'' @ [dq], lm_priority = 7, lm_scope = ''project'', lm_session_id = [],
         lm_source = JDict [], lm_created_at = [], lm_updated_at = [], lm_metadata = JDict [], lm_record_id = None\<rparr>] empty_db),
     io_requests = 0, io_previous = []\<rparr>"

definition sample_hook :: turn_hook where
  "sample_hook = \<lparr>th_env = quiet_env, th_provider = answering (quoted ''[{`type`:`fact`,`content`:`uv run`},7]''), th_every = 1,
     th_deduper = Some refusing, th_escalation = None\<rparr>"

text \<open>C16: The hook at the end of a turn keeps the project's memory and leaves the run alone: whatever the model answers and whichever
  connections fail, a database that is well-formed (rows by rising id, none above the last id given out, priorities within 0
  and 100, the keyword index in step with the rows, at most one synthesized persona, one scenario per name) stays so, no row is
  lost and nothing of it changes but its content and the time of the change, and of the state of the run only the metrics of the
  memory change.\<close>

theorem turn_end_safe:
  assumes "db_ok (io_db s)" "turn_end h session t n s = (n', s')"
  shows "n' = n + 1 \<and> db_ok (io_db s') \<and> rows_kept (io_db s) (io_db s') \<and> only_metrics hook_keys (io_state s) (io_state s')"
  using turn_end_step [OF assms(2)] assms(1) by (simp add: safe_step_def db_step_def)

lemma sample_ok: "db_ok (io_db sample_io)" "memories_ok (io_db sample_io)" "readable (io_db sample_io)"
  by code_simp+

theorem turn_end_safe_witness:
  "case turn_end sample_hook ''session'' \<lparr>ct_user_message = ''hi'', ct_assistant_reply = ''ok'', ct_run_id = ''run''\<rparr> 0 sample_io of
     (n, s') \<Rightarrow> n = 1 \<and> db_ok (io_db s') \<and> rows_kept (io_db sample_io) (io_db s')"
  using turn_end_safe [OF sample_ok(1), of sample_hook "''session''" "\<lparr>ct_user_message = ''hi'', ct_assistant_reply = ''ok'', ct_run_id = ''run''\<rparr>" 0]
  by (auto split: prod.split)

text \<open>C17: The keyword search refines a search without an index: on a well-formed database, with a connection that works, the
  result is the rows of the scope whose current content and type match the query, ordered by their score and then by falling
  priority, cut at the limit. The index the program maintains beside the table never shows.\<close>

theorem search_refines:
  assumes "memories_ok (io_db s)" "me_fails me (db_connections (io_db s)) = None" "fts_query text \<noteq> []"
  shows "fst (bm25_search me text scope limit s) =
    mapM_res memory_from_row (take (nat (max 0 limit)) (search_spec me (fts_query text) scope (db_memories (io_db s))))"
proof -
  have "memories_ok ((io_db s)\<lparr>db_connections := n\<rparr>)" for n using assms(1) by (simp add: memories_ok_def)
  from matching_rows_spec [OF this, of me "fts_query text" scope] show ?thesis
    using assms(2,3) by (simp add: bm25_search_def then_io_def connection_def lift_io_def)
qed

theorem search_refines_witness:
  "fst (bm25_search quiet_env ''pytest'' ''project'' 5 sample_io) =
     mapM_res memory_from_row (take 5 (search_spec quiet_env (fts_query ''pytest'') ''project'' (db_memories (io_db sample_io)))) \<and>
   search_spec quiet_env (fts_query ''pytest'') ''project'' (db_memories (io_db sample_io)) \<noteq> []"
proof -
  have "fts_query ''pytest'' \<noteq> []" "me_fails quiet_env (db_connections (io_db sample_io)) = None" by code_simp+
  moreover have "search_spec quiet_env (fts_query ''pytest'') ''project'' (db_memories (io_db sample_io)) \<noteq> []" by code_simp
  ultimately show ?thesis using search_refines [OF sample_ok(2), of quiet_env "''pytest''" "''project''" 5] by simp
qed

text \<open>Better redundant than lost: when the model that compares new memories with the stored ones does not answer, answers
  nonsense or raises, every distilled memory is appended, in order, under the ids that are reported as stored.\<close>

theorem failed_dedup_appends:
  assumes "\<forall>n. me_fails me n = None" "readable (io_db s)"
    and "\<And>cs s1. fst (rescue (dedup me p ms cs) (\<lambda>_. ret_io None) s1) = Inr None"
  shows "\<exists>rows s'. store_with_dedup me (Some p) ms s = (Inr (map row_id rows), s') \<and>
    db_memories (io_db s') = db_memories (io_db s) @ rows \<and> map row_content rows = map lm_content ms"
  using append_all [OF assms] .

definition sample_memory :: l1_memory where
  "sample_memory = \<lparr>lm_type = ''todo'', lm_content = ''uv run'', lm_priority = 7, lm_scope = ''project'', lm_session_id = [],
     lm_source = JDict [], lm_created_at = [], lm_updated_at = [], lm_metadata = JDict [], lm_record_id = None\<rparr>"

lemma refusing_dedup: "fst (rescue (dedup me refusing [m] cs) (\<lambda>_. ret_io None) s) = Inr None"
  by (simp add: rescue_def dedup_def then_io_def answer_or_none_def ask_model_def refusing_def ret_io_def)

theorem failed_dedup_appends_witness:
  "\<exists>rows s'. store_with_dedup quiet_env (Some refusing) [sample_memory] sample_io = (Inr (map row_id rows), s') \<and>
    db_memories (io_db s') = db_memories (io_db sample_io) @ rows \<and> map row_content rows = [''uv run'']"
  using failed_dedup_appends [OF _ sample_ok(3) refusing_dedup, of quiet_env sample_memory] by (simp add: quiet_env_def sample_memory_def)

end
