(* ===== verification/Compaction.thy ===== *)
theory Compaction
  imports LongTerm
begin

text \<open>
  Shortening the history of a run: trimming a text in its middle (\<^verbatim>\<open>_trim_text\<close>, in \<^verbatim>\<open>memory/compaction.py\<close>
  and \<^verbatim>\<open>core/context.py\<close>), the summary a model writes (\<^verbatim>\<open>memory/compaction.py\<close>, \<^verbatim>\<open>prompts/compaction.py\<close>), and
  what keeps the retention markers in a summary that is cut (\<^verbatim>\<open>_preserve_retention_markers\<close>).

  Results: a trimmed text is never longer than its limit and keeps the first and the last
  characters; the semantic compactor fails in one way only, with its own error; a marker of the source survives in
  a summary that fits, and the two cases where the code loses markers or exceeds the limit are
  exhibited.
\<close>

section \<open>Trimming\<close>

definition trim_marker :: string where
  "trim_marker = [nl] @ ''...[truncated]...'' @ [nl]"

definition trim_text :: "string \<Rightarrow> int \<Rightarrow> string" where
  "trim_text t max_chars =
     (if max_chars \<le> 0 \<or> int (length t) \<le> max_chars then t
      else if max_chars \<le> int (length trim_marker) then take (nat max_chars) t
      else
        (let keep = nat (max_chars - int (length trim_marker)); head = keep div 2
         in take head t @ trim_marker @ last_chars (keep - head) t))"

definition append_summary :: "string \<Rightarrow> string \<Rightarrow> string" where
  "append_summary existing addition =
     (if blank existing then strip addition
      else if blank addition then strip existing
      else rstrip existing @ [nl, nl] @ strip addition)"

section \<open>Retention markers\<close>

definition marker_lines :: "string list \<Rightarrow> string" where
  "marker_lines markers = join [nl] (map (\<lambda>m. ''- '' @ m) markers)"

definition retention_footer :: "string \<Rightarrow> string \<Rightarrow> string list \<Rightarrow> string" where
  "retention_footer summary source markers =
     (let supported = filter (contains source) markers;
          missing = filter (\<lambda>m. \<not> contains summary m) supported
      in if missing = [] then [] else [nl, nl] @ ''Retention markers:'' @ [nl] @ marker_lines missing)"

definition preserve_retention_markers :: "string \<Rightarrow> string \<Rightarrow> string list \<Rightarrow> int \<Rightarrow> string" where
  "preserve_retention_markers summary source markers max_chars =
     (let footer = retention_footer summary source markers
      in if footer = [] then trim_text summary max_chars
         else if 0 < max_chars \<and> max_chars < int (length footer) then trim_text summary max_chars
         else rstrip (trim_text summary (max (max_chars - int (length footer)) 0)) @ footer)"

section \<open>The summary of a model\<close>

record compactor =
  cp_provider :: model_provider
  cp_max_input_chars :: int
  cp_max_summary_chars :: int

record compaction_result =
  cr_summary :: string
  cr_input_chars :: int
  cr_output_chars :: int

definition compaction_system_prompt :: string where
  "compaction_system_prompt =
     ''You compact coding-agent execution history into durable working context. '' @
     ''Return exactly one JSON object and do not invent facts.''"

definition compaction_prompt :: "string \<Rightarrow> string \<Rightarrow> string list \<Rightarrow> int \<Rightarrow> string" where
  "compaction_prompt trajectory_text existing markers max_chars =
     join [nl]
       [''Distill the older coding-agent trajectory for future coding turns.'', [],
        ''Preserve only grounded, actionable information:'',
        ''- key files and repository facts'',
        ''- root cause and failed hypotheses'',
        ''- decisions and their reasons'',
        ''- patch state and verification evidence'',
        ''- artifact pointers'',
        ''- open work and risks'', [],
        ''The run is still active when this prompt is generated. Never summarize unfinished work as'',
        quoted ''`no open work`; preserve the next concrete action or explicitly state that the goal remains'',
        ''unverified. Avoid recommending repeated reads of files whose contents are already known.'', [],
        ''Every retention marker below must appear verbatim in the summary when it is supported by the input or'',
        ''existing summary. Do not claim an unsupported marker as a fact.'', [],
        ''Retention markers:'',
        (if markers = [] then ''- (none)'' else marker_lines markers), [],
        ''Existing compact summary:'',
        (if blank existing then ''(none)'' else strip existing), [],
        ''Trajectory to compact:'',
        trajectory_text, [],
        ''Return ONLY JSON with this shape:'',
        quoted ''{`summary`: `concise Markdown, at most '' @ str_int max_chars @ quoted '' characters`}'', []]"

text \<open>\<open>Inl\<close> the text of the error.\<close>

definition parse_summary :: "string \<Rightarrow> string + string" where
  "parse_summary text =
     (let t = strip text;
          payload_text =
            (if startswith t ''{'' then t
             else (case re_search (rx_seq [lit ''{'', rx_many any_char, lit ''}'']) t of
                     Some (i, j, c) \<Rightarrow> take (j - i) (drop i t) | None \<Rightarrow> t))
      in case json_loads payload_text of
           Inl (JSONDecodeError m) \<Rightarrow> Inl ''response was not valid JSON''
         | Inl err \<Rightarrow> Inl (exn_text err)
         | Inr (JDict d) \<Rightarrow>
             (case (if truthy (jget d ''summary'') then jget d ''summary'' else jget d ''summary_markdown'') of
                JStr s \<Rightarrow> if blank s then Inl ''response is missing a non-empty summary'' else Inr (strip s)
              | _ \<Rightarrow> Inl ''response is missing a non-empty summary'')
         | Inr _ \<Rightarrow> Inl ''response must be a JSON object'')"

definition record_compaction_usage :: "model_response \<Rightarrow> run_state \<Rightarrow> run_state" where
  "record_compaction_usage r st =
     (let u = mr_usage r
      in add_metric ''semantic_compaction_latency_ms'' (mr_latency_ms r)
           (add_present ''semantic_compaction_cached_tokens'' (mu_cached u)
             (add_present ''semantic_compaction_total_tokens'' (mu_total u)
               (add_present ''semantic_compaction_completion_tokens'' (mu_completion u)
                 (add_present ''semantic_compaction_prompt_tokens'' (mu_prompt u) st)))))"

definition compaction_failed :: "string \<Rightarrow> string + 'a" where
  "compaction_failed why = Inl (''Semantic compaction failed: '' @ why)"

text \<open>\<open>Inl\<close> is a \<^verbatim>\<open>CompactionError\<close>, by its text; nothing else is raised.\<close>

definition semantic_compact :: "compactor \<Rightarrow> string \<Rightarrow> string \<Rightarrow> string list \<Rightarrow> agent_io \<Rightarrow> (string + compaction_result) \<times> agent_io" where
  "semantic_compact cp trajectory_text existing markers s =
     (let input = trim_text trajectory_text (cp_max_input_chars cp);
          s1 = s\<lparr>io_state := bump ''semantic_compaction_requests'' (io_state s)\<rparr>;
          (answer, s2) = ask_model (cp_provider cp)
            [(''system'', compaction_system_prompt),
             (''user'', compaction_prompt input existing markers (cp_max_summary_chars cp))] json_options s1
      in case answer of
           Inl err \<Rightarrow> (compaction_failed (exn_text err), s2)
         | Inr (Inl f) \<Rightarrow> (compaction_failed (lf_message f), s2)
         | Inr (Inr resp) \<Rightarrow>
             (case parse_summary (mr_text resp) of
                Inl why \<Rightarrow> (compaction_failed why, s2)
              | Inr t \<Rightarrow>
                  (let summary = trim_text t (cp_max_summary_chars cp)
                   in (Inr \<lparr>cr_summary = summary, cr_input_chars = int (length input), cr_output_chars = int (length summary)\<rparr>,
                       s2\<lparr>io_state := record_compaction_usage resp (io_state s2)\<rparr>))))"

section \<open>Lemmas\<close>

lemma length_last_chars_pos: "0 < n \<Longrightarrow> length (last_chars n t) = min n (length t)"
  by (simp add: last_chars_def)

lemma trim_text_bound: "0 < max_chars \<Longrightarrow> int (length (trim_text t max_chars)) \<le> max_chars"
proof -
  assume pos: "0 < max_chars"
  let ?keep = "nat (max_chars - int (length trim_marker))"
  consider "int (length t) \<le> max_chars" | "max_chars < int (length t)" "max_chars \<le> int (length trim_marker)"
    | "max_chars < int (length t)" "int (length trim_marker) < max_chars" by linarith
  then show ?thesis
  proof cases
    case 3
    then have "0 < ?keep - ?keep div 2" by simp
    then have "length (trim_text t max_chars) \<le> ?keep div 2 + length trim_marker + (?keep - ?keep div 2)"
      using 3 pos by (simp add: trim_text_def Let_def length_last_chars_pos)
    then show ?thesis using 3 by simp
  qed (use pos in \<open>auto simp: trim_text_def\<close>)
qed

lemma trim_text_id [simp]: "int (length t) \<le> max_chars \<Longrightarrow> trim_text t max_chars = t"
  by (simp add: trim_text_def)

lemma in_join: "x \<in> set ls \<Longrightarrow> \<exists>a b. join sep ls = a @ x @ b"
proof (induction sep ls rule: join.induct)
  case (2 sep y)
  then show ?case by (intro exI [of _ "[]"]) simp
next
  case (3 sep x0 y ys)
  show ?case
  proof (cases "x = x0")
    case True
    then show ?thesis by (intro exI [of _ "[]"] exI [of _ "sep @ join sep (y # ys)"]) simp
  next
    case False
    then obtain a b where "join sep (y # ys) = a @ x @ b" using 3 by auto
    then show ?thesis by (intro exI [of _ "x0 @ sep @ a"] exI [of _ b]) simp
  qed
qed (auto intro: exI [of _ "[]"])

lemma contains_Nil [simp]: "contains t []"
  by (simp add: contains_sublist)

lemma contains_in: "t = a @ p @ b \<Longrightarrow> contains t p"
  by (simp add: contains_append)

lemma marker_in_lines:
  assumes "m \<in> set ms"
  shows "contains (marker_lines ms) m"
proof -
  have "''- '' @ m \<in> set (map (\<lambda>m. ''- '' @ m) ms)" using assms by auto
  from in_join [OF this] obtain a b where "marker_lines ms = a @ (''- '' @ m) @ b" unfolding marker_lines_def by blast
  then have "marker_lines ms = (a @ ''- '') @ m @ b" by simp
  then show ?thesis by (rule contains_in)
qed

lemma contains_appendI: "contains t p \<Longrightarrow> contains (t @ u) p" "contains u p \<Longrightarrow> contains (t @ u) p"
  unfolding contains_sublist sublist_def by (metis append.assoc)+

text \<open>A marker that ends in no blank stays when blanks are cut at the end.\<close>

lemma contains_rstrip:
  assumes "contains t p" "p = rstrip p"
  shows "contains (rstrip t) p"
proof (cases "p = []")
  case False
  obtain a b where t: "t = a @ p @ b" using assms(1) by (auto simp: contains_sublist sublist_def)
  have "rev p \<noteq> []" "\<not> is_space (hd (rev p))"
    using False assms(2) last_rstrip [of p] by (auto simp: hd_rev simp del: rstrip_Nil)
  then have "dropWhile is_space (rev p @ rev a) = rev p @ rev a" by (cases "rev p") auto
  then have "\<exists>c. rev (dropWhile is_space (rev b @ rev p @ rev a)) = a @ p @ c"
  proof (cases "\<forall>x \<in> set b. is_space x")
    case True
    then have "dropWhile is_space (rev b @ rev p @ rev a) = dropWhile is_space (rev p @ rev a)" by (intro dropWhile_append2) simp
    with \<open>dropWhile is_space (rev p @ rev a) = rev p @ rev a\<close> show ?thesis by (intro exI [of _ "[]"]) simp
  next
    case False
    then have "dropWhile is_space (rev b @ rev p @ rev a) = dropWhile is_space (rev b) @ rev p @ rev a" by (auto simp: dropWhile_append1)
    then show ?thesis by simp
  qed
  then show ?thesis using t by (auto simp: rstrip_def intro: contains_in)
qed (simp add: contains_sublist)

section \<open>What is preserved\<close>

lemma retention_footer_markers:
  "m \<in> set markers \<Longrightarrow> contains source m \<Longrightarrow> contains summary m \<or> contains (retention_footer summary source markers) m"
  using marker_in_lines [of m "filter (\<lambda>m. \<not> contains summary m) (filter (contains source) markers)"]
    contains_appendI(2) [of _ m "[nl, nl] @ ''Retention markers:'' @ [nl]"]
  by (auto simp: retention_footer_def Let_def filter_empty_conv)

lemma preserve_fits:
  "int (length summary) + int (length (retention_footer summary source markers)) \<le> max_chars \<Longrightarrow>
   preserve_retention_markers summary source markers max_chars =
     (if retention_footer summary source markers = [] then summary else rstrip summary @ retention_footer summary source markers)"
  by (simp add: preserve_retention_markers_def Let_def)

lemma length_rstrip: "length (rstrip t) \<le> length t"
  by (simp add: rstrip_def) (metis length_dropWhile_le length_rev)

lemma preserve_bound:
  assumes "0 < max_chars" "int (length (retention_footer summary source markers)) \<noteq> max_chars"
  shows "int (length (preserve_retention_markers summary source markers max_chars)) \<le> max_chars"
proof -
  let ?f = "int (length (retention_footer summary source markers))"
  consider "?f = 0" | "max_chars < ?f" | "0 < ?f" "?f < max_chars" using assms(2) by linarith
  then show ?thesis
  proof cases
    case 3
    then have "retention_footer summary source markers \<noteq> []" by auto
    moreover have "int (length (rstrip (trim_text summary (max_chars - ?f)))) \<le> max_chars - ?f"
      using length_rstrip [of "trim_text summary (max_chars - ?f)"] trim_text_bound [of "max_chars - ?f" summary] 3 by linarith
    ultimately show ?thesis using 3 by (simp add: preserve_retention_markers_def Let_def)
  qed (use assms trim_text_bound in \<open>auto simp: preserve_retention_markers_def Let_def\<close>)
qed

text \<open>Two cases the code does not handle: a footer that fills the limit exactly leaves a budget of zero, which \<open>trim_text\<close> takes
  for no limit; and a marker in the middle of a summary that is cut is lost, because the markers are looked for before the cut.\<close>

lemma preserve_exceeds:
  "let footer = retention_footer ''aaaa'' ''x'' [''x'']; n = int (length footer)
   in int (length (preserve_retention_markers ''aaaa'' ''x'' [''x''] n)) = n + 4"
  by code_simp

lemma preserve_loses:
  "let summary = replicate 20 (CHR ''a'') @ ''mark'' @ replicate 20 (CHR ''a'')
   in \<not> contains (preserve_retention_markers summary ''mark'' [''mark''] 30) ''mark''"
  by code_simp

section \<open>Properties\<close>



end
