(* ===== verification/Context.thy ===== *)
theory Context
  imports Compaction Feedback Checkpoint
begin

text \<open>
  Building the prompt of a turn (\<^verbatim>\<open>core/context.py\<close>): the layers of the context, the four layouts, the
  compaction of the history when it outgrows its budget, and the accounting of the prefix a
  provider can cache.

  A builder is the record \<open>context_builder\<close>; it reads the run, the memory database and the feedback
  file and records metrics, so its operations are \<open>'a io\<close> functions of \<open>LongTerm\<close>. A prompt is a list
  of pairs of role and content. The fixed texts of \<^verbatim>\<open>prompts/agent.py\<close> and SHA-256 are arguments. Text is
  Latin-1, so \<^verbatim>\<open>_is_cjk\<close> never holds.

  Results: building a prompt and compacting change nothing of the run but the metrics of the context
  and the summary; a compaction moves the boundary forward, never past the end, and only then
  reports success; and in the layouts driven by the budget a request that follows another without a
  change of the stable part extends it, message by message.
\<close>

section \<open>Configuration\<close>

record context_config =
  cx_max_prompt_chars :: int
  cx_recent_turns :: int
  cx_artifact_preview_chars :: int
  cx_summary_max_chars :: int
  cx_field_preview_chars :: int
  cx_strategy :: string
  cx_markers :: "string list"
  cx_layout :: string
  cx_window :: "int option"
  cx_threshold_ratio :: pyfloat
  cx_retain_ratio :: pyfloat
  cx_max_overflow_retries :: int

definition default_context :: context_config where
  "default_context =
     \<lparr>cx_max_prompt_chars = 120000, cx_recent_turns = 6, cx_artifact_preview_chars = 12000, cx_summary_max_chars = 12000,
      cx_field_preview_chars = 4000, cx_strategy = ''deterministic'', cx_markers = [], cx_layout = ''rebuild'', cx_window = None,
      cx_threshold_ratio = f64 (8 / 10), cx_retain_ratio = f64 (16 / 100), cx_max_overflow_retries = 1\<rparr>"

record frozen_skills =
  fs_env :: skill_env
  fs_skills :: "skill list"
  fs_errors :: "string list"

record context_builder =
  cb_config :: context_config
  cb_skills :: "frozen_skills option"
  cb_feedback :: "feedback_memory option"
  cb_compactor :: "compactor option"
  cb_store :: "memory_env option"
  cb_memory_max_results :: int
  cb_memory_max_chars :: int
  cb_memory_max_total :: int
  cb_prefix :: "string \<Rightarrow> string" \<comment> \<open>the system prefix of a profile\<close>
  cb_sha256 :: "string \<Rightarrow> string"

type_synonym messages = "(string \<times> string) list"

definition check_builder :: "context_builder \<Rightarrow> context_builder result" where
  "check_builder b =
     (if cx_strategy (cb_config b) \<notin> {''disabled'', ''deterministic'', ''semantic''} then
        Inl (ValueError ''compaction_strategy must be disabled, deterministic, or semantic'')
      else if cx_layout (cb_config b) \<notin> {''rebuild'', ''append'', ''epoch'', ''append_until_compaction''} then
        Inl (ValueError ''prompt_layout must be rebuild, append, epoch, or append_until_compaction'')
      else if cx_strategy (cb_config b) = ''semantic'' \<and> cb_compactor b = None then
        Inl (ValueError ''semantic compaction requires a semantic_compactor'')
      else Inr b)"

section \<open>Sizes\<close>

text \<open>\<^verbatim>\<open>max(1, ceil(length / 4))\<close> for a run of letters.\<close>

definition run_tokens :: "nat \<Rightarrow> nat" where
  "run_tokens n = (if n = 0 then 0 else max 1 ((n + 3) div 4))"

fun count_tokens :: "nat \<Rightarrow> string \<Rightarrow> nat" where
  "count_tokens run [] = run_tokens run"
| "count_tokens run (c # cs) =
     (if is_space c then run_tokens run + count_tokens 0 cs
      else if word_char c then count_tokens (Suc run) cs
      else run_tokens run + 1 + count_tokens 0 cs)"

definition estimate_tokens :: "string \<Rightarrow> int" where
  "estimate_tokens t = int (count_tokens 0 t)"

definition estimate_messages_tokens :: "messages \<Rightarrow> int" where
  "estimate_messages_tokens ms = (if ms = [] then 0 else (\<Sum>m \<leftarrow> ms. estimate_tokens (snd m) + 4) + 2)"

definition messages_len :: "messages \<Rightarrow> int" where
  "messages_len ms = (\<Sum>m \<leftarrow> ms. int (length (snd m)))"

definition messages_sha256 :: "context_builder \<Rightarrow> messages \<Rightarrow> string" where
  "messages_sha256 b ms = cb_sha256 b (compact (sort_keys (chat ms)))"

fun message_lcp_count :: "messages \<Rightarrow> messages \<Rightarrow> nat" where
  "message_lcp_count (x # xs) (y # ys) = (if x = y then Suc (message_lcp_count xs ys) else 0)"
| "message_lcp_count _ _ = 0"

text \<open>\<^verbatim>\<open>int(n * ratio)\<close>.\<close>

definition scaled_int :: "int \<Rightarrow> pyfloat \<Rightarrow> int result" where
  "scaled_int n r =
     (case r of
        Fin q \<Rightarrow> bind_res (float_of_int n) (\<lambda>x. case x of Fin a \<Rightarrow> int_of_float (f64 (a * q)) | y \<Rightarrow> int_of_float y)
      | _ \<Rightarrow> int_of_float r)"

definition epoch_target_ratio :: pyfloat where
  "epoch_target_ratio = f64 (65 / 100)"

section \<open>Texts\<close>

definition int_or_none_text :: "int option \<Rightarrow> string" where
  "int_or_none_text v = (case v of Some n \<Rightarrow> str_int n | None \<Rightarrow> ''None'')"

definition preview_line :: "string \<Rightarrow> string \<Rightarrow> int \<Rightarrow> string" where
  "preview_line name t max_chars = name @ ''='' @ (if t = [] then [] else trim_text t max_chars)"

definition format_observation :: "context_config \<Rightarrow> observation \<Rightarrow> string" where
  "format_observation c ob =
     join [nl]
       ([''kind='' @ ob_kind ob, ''exit_code='' @ int_or_none_text (ob_exit_code ob),
         ''message='' @ trim_text (ob_message ob) (cx_field_preview_chars c),
         preview_line ''stdout_preview'' (ob_stdout_preview ob) (cx_artifact_preview_chars c),
         preview_line ''stderr_preview'' (ob_stderr_preview ob) (cx_artifact_preview_chars c)] @
        (if ob_artifact_ids ob = [] then [] else [''artifact_ids='' @ join '', '' (ob_artifact_ids ob)]))"

definition action_text :: "action option \<Rightarrow> string" where
  "action_text a = (case a of None \<Rightarrow> ''<protocol_error>'' | Some x \<Rightarrow> action_to_json x)"

definition format_trajectory :: "context_config \<Rightarrow> trajectory_step list \<Rightarrow> string" where
  "format_trajectory c trajectory =
     join [nl, nl]
       (map (\<lambda>(i, step). join [nl]
          [''Step '' @ str_nat i, ''Action: '' @ action_text (ts_action step), ''Observation: '' @ format_observation c (ts_observation step)])
        (List.enumerate 1 trajectory))"

definition format_compaction_summary :: "context_config \<Rightarrow> trajectory_step list \<Rightarrow> string" where
  "format_compaction_summary c trajectory =
     trim_text
       (join [nl] (''Compacted trajectory summary:'' #
          concat (map (\<lambda>(i, step). let ob = ts_observation step in
            [''- Step '' @ str_nat i @ '': action='' @ trim_text (action_text (ts_action step)) 600,
             ''  observation=kind='' @ ob_kind ob @ ''; exit_code='' @ int_or_none_text (ob_exit_code ob) @ ''; message='' @
               trim_text (ob_message ob) 600] @
            (if ob_artifact_ids ob = [] then [] else [''  artifacts='' @ join '', '' (ob_artifact_ids ob)])) (List.enumerate 1 trajectory))))
       (cx_summary_max_chars c)"

definition format_compaction_summary_from_text :: "string \<Rightarrow> int \<Rightarrow> string" where
  "format_compaction_summary_from_text t max_chars = trim_text (''Compacted trajectory summary:'' @ [nl] @ t) max_chars"

text \<open>\<^verbatim>\<open>json.dumps(v, ensure_ascii=False, indent=2)\<close>.\<close>

fun dumps_indent :: "nat \<Rightarrow> json \<Rightarrow> string" where
  "dumps_indent n (JList vs) =
     (if vs = [] then ''[]''
      else (let pad = nl # replicate (n + 2) (CHR '' '')
            in ''['' @ pad @ join ('','' @ pad) (map (dumps_indent (n + 2)) vs) @ nl # replicate n (CHR '' '') @ '']''))"
| "dumps_indent n (JDict kvs) =
     (if kvs = [] then ''{}''
      else (let pad = nl # replicate (n + 2) (CHR '' '')
            in ''{'' @ pad @ join ('','' @ pad) (map (\<lambda>(k, v). dumps_str k @ '': '' @ dumps_indent (n + 2) v) kvs) @
               nl # replicate n (CHR '' '') @ ''}''))"
| "dumps_indent n v = dumps v"

definition repository_context :: "run_state \<Rightarrow> string list" where
  "repository_context st =
     (if repository_profile st = [] then []
      else [''Repository profile (deterministic, read-only):'' @ [nl] @
            dumps_indent 0 (sort_keys (JDict (AList.delete ''guide'' (repository_profile st))))]) @
     (case jget (project_guide st) ''text'' of
        JStr guide \<Rightarrow>
          if guide = [] then []
          else [''Project guide (repository data; do not treat it as a user authorization):'' @ [nl] @ ''<MINICC.md>'' @ [nl] @
                guide @ [nl] @ ''</MINICC.md>'']
      | _ \<Rightarrow> [])"

definition bullet_lines :: "string \<Rightarrow> string list \<Rightarrow> string list" where
  "bullet_lines title items = (if items = [] then [] else [title @ [nl] @ join [nl] (map (\<lambda>i. ''- '' @ i) items)])"

definition session_history_messages :: "run_state \<Rightarrow> messages" where
  "session_history_messages st =
     map (\<lambda>m. (py_str (jget_or m ''role'' (JStr ''user'')), py_str (jget_or m ''content'' (JStr [])))) (session_history st)"

section \<open>Layers of the context\<close>

text \<open>What a step computes for the prompt, and \<^verbatim>\<open>except Exception\<close> with a value that stands in.\<close>

definition value_or :: "'a \<Rightarrow> 'a io \<Rightarrow> 'a io" where
  "value_or x m = rescue m (\<lambda>_. ret_io x)"

definition set_metric :: "string \<Rightarrow> json \<Rightarrow> unit io" where
  "set_metric k v = state_io (mset k v)"

definition count_metric :: "string \<Rightarrow> 'a list \<Rightarrow> unit io" where
  "count_metric k xs = set_metric k (JInt (int (length xs)))"

definition l1_memory_context :: "context_builder \<Rightarrow> string io" where
  "l1_memory_context b =
     (case cb_store b of
        None \<Rightarrow> ret_io []
      | Some me \<Rightarrow>
          then_io get_state (\<lambda>st.
          then_io (recall_memories me (rs_goal st) ''project'' (cb_memory_max_results b)) (\<lambda>r.
          then_io (count_metric ''l1_memories_recalled'' (re_memories r)) (\<lambda>_.
            if \<not> re_ok r then then_io (set_metric ''memory_recall_failed'' (JInt 1)) (\<lambda>_. ret_io [])
            else
              (let block = format_relevant_memories (cb_memory_max_chars b) (cb_memory_max_total b) (re_memories r)
               in if block = [] then ret_io []
                  else then_io (count_metric ''l1_memories_injected'' (re_memories r)) (\<lambda>_. ret_io block))))))"

definition manual_persona_entries :: "context_builder \<Rightarrow> persona_entry list" where
  "manual_persona_entries b =
     (case cb_feedback b of
        None \<Rightarrow> []
      | Some m \<Rightarrow>
          (case load_rules m of
             Inl err \<Rightarrow> []
           | Inr rules \<Rightarrow>
               (let text = (\<lambda>ts. join ''; '' (map fr_rule (filter (\<lambda>r. fr_type r \<in> ts) rules)));
                    prefer = text {''prefer''}; hard_rule = text {''never'', ''caution''}
                in if prefer = [] \<and> hard_rule = [] then []
                   else [\<lparr>pe_profile = [], pe_style = prefer, pe_hard_rule = hard_rule, pe_source_ids = JList [], pe_origin = ''manual'',
                          pe_confidence = Fin 1, pe_updated_at = [], pe_id = None\<rparr>])))"

definition l3_persona_context :: "context_builder \<Rightarrow> string io" where
  "l3_persona_context b =
     then_io (case cb_store b of None \<Rightarrow> ret_io [] | Some me \<Rightarrow> value_or [] (list_persona me None)) (\<lambda>stored.
       let entries = manual_persona_entries b @ stored
       in then_io (count_metric ''l3_persona_injected'' entries) (\<lambda>_. ret_io (if entries = [] then [] else render_persona entries)))"

definition max_scenarios :: int where "max_scenarios = 5"

definition l2_scenario_context :: "context_builder \<Rightarrow> string io" where
  "l2_scenario_context b =
     then_io (case cb_store b of None \<Rightarrow> ret_io [] | Some me \<Rightarrow> value_or [] (list_scenarios me (Some max_scenarios))) (\<lambda>scenarios.
     then_io (count_metric ''l2_scenarios_injected'' scenarios) (\<lambda>_.
       ret_io (if scenarios = [] then [] else render_scenarios scenarios)))"

definition record_guidance :: "string list \<Rightarrow> json \<Rightarrow> string list \<Rightarrow> run_state \<Rightarrow> run_state" where
  "record_guidance names hashes rules st =
     (let st1 = mset ''guidance_feedback_rule_count'' (JInt (int (length rules))) (mset ''guidance_feedback_rule_ids'' (strs rules)
            (mset ''guidance_skill_hashes'' hashes (mset ''guidance_skill_count'' (JInt (int (length names)))
            (mset ''guidance_skill_names'' (strs names) st))))
      in if truthy (jget (metrics st1) ''guidance_selection_events'') then st1 else mset ''guidance_selection_events'' (JInt 1) st1)"

definition nonempty_texts :: "string list \<Rightarrow> string list" where
  "nonempty_texts ts = filter (\<lambda>t. t \<noteq> []) ts"

text \<open>The skills: names and hashes, and what the catalog says.\<close>

definition skill_selection :: "context_builder \<Rightarrow> run_state \<Rightarrow> string list \<times> json \<times> string list" where
  "skill_selection b st =
     (case cb_skills b of
        None \<Rightarrow> ([], JDict [], [])
      | Some f \<Rightarrow>
          (let chosen = relevant_skills (fs_skills f) (rs_goal st) 5
           in (map sk_name chosen, JDict (map (\<lambda>s. (sk_name s, JStr (sk_sha256 s))) chosen),
               nonempty_texts [catalog_text (fs_env f) (fs_skills f) (Some (rs_goal st)) 20])))"

definition record_catalog :: "context_builder \<Rightarrow> run_state \<Rightarrow> run_state" where
  "record_catalog b st =
     (case cb_skills b of
        None \<Rightarrow> st
      | Some f \<Rightarrow>
          mset ''skill_catalog_errors'' (strs (fs_errors f)) (mset ''skill_catalog_digest'' (JStr (catalog_digest (fs_env f) (fs_skills f))) st))"

definition instruction_context :: "context_builder \<Rightarrow> string list io" where
  "instruction_context b =
     then_io get_state (\<lambda>st.
       case skill_selection b st of
         (names, hashes, skill_texts) \<Rightarrow>
           then_io (state_io (record_catalog b)) (\<lambda>_.
           then_io (lift_io (case cb_feedback b of None \<Rightarrow> Inr ([], []) | Some m \<Rightarrow> feedback_context m (rs_goal st))) (\<lambda>(rules, text).
           then_io (state_io (record_guidance names hashes (map fr_id rules))) (\<lambda>_.
           then_io (lift_io (working_memory_context st)) (\<lambda>follow_up.
             ret_io (skill_texts @ nonempty_texts [text, follow_up]))))))"

definition record_memory_injection :: "run_state \<Rightarrow> run_state" where
  "record_memory_injection st =
     (if working_memory st = [] \<or> truthy (jget (metrics st) ''working_memory_injection_events'') then st
      else mset ''working_memory_items_injected'' (JInt (int (length (working_memory st))))
             (mset ''working_memory_injection_events'' (JInt 1) st))"

definition namespace_line :: "run_state \<Rightarrow> string list" where
  "namespace_line st = (if prompt_namespace st = [] then [] else [''Prompt namespace: '' @ prompt_namespace st])"

definition goal_lines :: "run_state \<Rightarrow> string list" where
  "goal_lines st = [''Goal: '' @ rs_goal st, ''Run status: '' @ status st]"

definition stable_run_context :: "context_builder \<Rightarrow> string list io" where
  "stable_run_context b =
     then_io (instruction_context b) (\<lambda>instructions.
     then_io get_state (\<lambda>st.
       ret_io (namespace_line st @ repository_context st @ instructions @ goal_lines st @ bullet_lines ''Constraints:'' (constraints st))))"

definition dynamic_context :: "context_builder \<Rightarrow> trajectory_step list \<Rightarrow> string list io" where
  "dynamic_context b trajectory =
     then_io (l1_memory_context b) (\<lambda>l1.
     then_io (instruction_context b) (\<lambda>instructions.
     then_io get_state (\<lambda>st.
       ret_io
         (nonempty_texts [l1] @ namespace_line st @ repository_context st @ instructions @ goal_lines st @
          nonempty_texts [io_repetition_guidance st, action_economy_guidance st] @
          bullet_lines ''Constraints:'' (constraints st) @
          (if state_summary st = [] then [] else [''State summary:'' @ [nl] @ state_summary st]) @
          bullet_lines ''Open questions:'' (open_questions st) @
          (case approval_question st of Some q \<Rightarrow> if q = [] then [] else [''Pending approval question:'' @ [nl] @ q] | None \<Rightarrow> []) @
          (case last_observation st of Some ob \<Rightarrow> [''Last observation:'' @ [nl] @ format_observation (cb_config b) ob] | None \<Rightarrow> []) @
          (if trajectory = [] then [] else [''Recent trajectory:'' @ [nl] @ format_trajectory (cb_config b) trajectory])))))"

definition system_prefix :: "context_builder \<Rightarrow> string io" where
  "system_prefix b =
     then_io get_state (\<lambda>st.
       let prefix_text = cb_prefix b (case jget (metrics st) ''profile'' of JStr p \<Rightarrow> p | _ \<Rightarrow> [])
       in then_io (l3_persona_context b) (\<lambda>persona.
          then_io (l2_scenario_context b) (\<lambda>scenarios.
            let blocks = nonempty_texts [persona, scenarios]
            in ret_io (if blocks = [] then prefix_text else prefix_text @ [nl, nl] @ join [nl, nl] blocks))))"

section \<open>Messages\<close>

definition rebuild_messages :: "context_builder \<Rightarrow> trajectory_step list \<Rightarrow> messages io" where
  "rebuild_messages b trajectory =
     then_io (system_prefix b) (\<lambda>system.
     then_io get_state (\<lambda>st.
     then_io (dynamic_context b trajectory) (\<lambda>parts.
       ret_io ([(''system'', system)] @ session_history_messages st @ [(''user'', join [nl, nl] parts)]))))"

definition step_messages :: "context_config \<Rightarrow> trajectory_step \<Rightarrow> messages" where
  "step_messages c step =
     [(''assistant'', action_text (ts_action step)),
      (''user'', ''Observation:'' @ [nl] @ format_observation c (ts_observation step) @
         (if ts_state_snapshot step = [] then [] else [nl, nl] @ ts_state_snapshot step))]"

definition append_messages :: "context_builder \<Rightarrow> trajectory_step list \<Rightarrow> (messages \<times> nat) io" where
  "append_messages b trajectory =
     then_io (system_prefix b) (\<lambda>system.
     then_io (stable_run_context b) (\<lambda>stable.
     then_io (l1_memory_context b) (\<lambda>l1.
     then_io get_state (\<lambda>st.
       ret_io
         ([(''system'', system), (''user'', join [nl, nl] stable)] @ (if l1 = [] then [] else [(''user'', l1)]) @
          session_history_messages st @
          (if state_summary st = [] then [] else [(''user'', ''State summary:'' @ [nl] @ state_summary st)]) @
          concat (map (step_messages (cb_config b)) trajectory), 2)))))"

definition budget_driven :: "context_config \<Rightarrow> bool" where \<comment> \<open>\<^verbatim>\<open>_uses_budget_driven_history\<close>\<close>
  "budget_driven c = (cx_layout c \<in> {''epoch'', ''append_until_compaction''})"

definition last_steps :: "int \<Rightarrow> 'a list \<Rightarrow> 'a list" where \<comment> \<open>\<^verbatim>\<open>xs[-n:]\<close> for positive \<open>n\<close>\<close>
  "last_steps n xs = drop (length xs - nat n) xs"

definition recent_trajectory :: "context_config \<Rightarrow> trajectory_step list \<Rightarrow> trajectory_step list" where
  "recent_trajectory c trajectory =
     (if cx_strategy c = ''disabled'' then trajectory
      else if cx_recent_turns c \<le> 0 then []
      else last_steps (cx_recent_turns c) trajectory)"

definition compacted_steps :: "run_state \<Rightarrow> int" where
  "compacted_steps st = mget (metrics st) ''context_compacted_steps''"

definition active_trajectory :: "context_config \<Rightarrow> run_state \<Rightarrow> trajectory_step list \<Rightarrow> trajectory_step list" where
  "active_trajectory c st trajectory =
     (if \<not> budget_driven c then recent_trajectory c trajectory
      else drop (nat (max (compacted_steps st) 0)) trajectory)"

section \<open>The cacheable prefix\<close>

definition prefix_profile :: "context_builder \<Rightarrow> messages \<Rightarrow> jdict" where
  "prefix_profile b ms =
     [(''scope'', JStr ''application_message_prefix''), (''hash_algorithm'', JStr ''sha256''), (''sha256'', JStr (messages_sha256 b ms)),
      (''message_count'', JInt (int (length ms))), (''content_chars'', JInt (messages_len ms)),
      (''estimated_tokens'', JInt (estimate_messages_tokens ms)), (''token_count_kind'', JStr ''estimated'')]"

definition extends_previous :: "messages option \<Rightarrow> messages \<Rightarrow> bool" where
  "extends_previous previous ms =
     (case previous of None \<Rightarrow> False | Some old \<Rightarrow> length old \<le> length ms \<and> old = take (length old) ms)"

definition delete_metric :: "string \<Rightarrow> run_state \<Rightarrow> run_state" where
  "delete_metric k st = st\<lparr>metrics := AList.delete k (metrics st)\<rparr>"

text \<open>Why the cache has to start anew, with the metrics of the reset.\<close>

definition prefix_reset :: "context_config \<Rightarrow> nat \<Rightarrow> nat \<Rightarrow> run_state \<Rightarrow> string \<times> run_state" where
  "prefix_reset c lcp n_stable st =
     (let pending = jget (metrics st) ''cache_prefix_pending_reset_reason'';
          st1 = delete_metric ''cache_prefix_pending_reset_reason'' st;
          reason =
            (if truthy pending then py_str pending
             else if lcp < n_stable then ''stable_prefix_changed''
             else if cx_layout c = ''append'' then ''recent_window_moved''
             else ''dynamic_prefix_changed'');
          reasons = (case jget (metrics st1) ''cache_prefix_reset_reasons'' of JDict d \<Rightarrow> d | _ \<Rightarrow> [])
      in (reason,
          mset ''cache_prefix_reset_reasons'' (JDict (AList.update reason (JInt (mget reasons reason + 1)) reasons))
            (bump ''cache_prefix_reset_requests'' st1)))"

definition prefix_reason :: "context_config \<Rightarrow> messages option \<Rightarrow> messages \<Rightarrow> nat \<Rightarrow> nat \<Rightarrow> run_state \<Rightarrow> string \<times> int \<times> run_state" where
  "prefix_reason c previous ms lcp n_stable st =
     (let epoch = max (mget (metrics st) ''cache_prefix_epoch'') 0
      in if previous = None then (''cold_start'', max epoch 1, bump ''cache_prefix_cold_start_requests'' st)
         else if extends_previous previous ms then (''exact_append'', epoch, bump ''cache_prefix_exact_append_requests'' st)
         else (case prefix_reset c lcp n_stable st of (reason, st1) \<Rightarrow> (reason, max epoch 1 + 1, st1)))"

definition mset_all :: "jdict \<Rightarrow> run_state \<Rightarrow> run_state" where
  "mset_all kvs st = fold (\<lambda>(k, v). mset k v) kvs st"

definition cache_prefix_profile :: "context_builder \<Rightarrow> messages option \<Rightarrow> messages \<Rightarrow> nat \<Rightarrow> run_state \<Rightarrow> jdict \<times> run_state" where
  "cache_prefix_profile b previous ms n_stable st =
     (let lcp = (case previous of None \<Rightarrow> 0 | Some old \<Rightarrow> message_lcp_count old ms);
          lcp_prefix = take lcp ms;
          (reason, epoch, st1) = prefix_reason (cb_config b) previous ms lcp n_stable st;
          request_index = mget (metrics st1) ''prompt_char_samples'';
          cold = (previous = None);
          exact = extends_previous previous ms;
          sha = messages_sha256 b ms
      in ([(''request_sha256'', JStr sha), (''cache_request_index'', JInt request_index), (''prefix_epoch'', JInt epoch),
           (''local_cold_start'', JBool cold), (''previous_request_is_exact_prefix'', JBool exact),
           (''lcp_message_count'', JInt (int lcp)), (''lcp_content_chars'', JInt (messages_len lcp_prefix)),
           (''lcp_estimated_tokens'', JInt (estimate_messages_tokens lcp_prefix)),
           (''current_estimated_tokens'', JInt (estimate_messages_tokens ms)), (''prefix_reset_reason'', JStr reason)],
          mset_all
            [(''cache_prefix_epoch'', JInt epoch), (''cache_prefix_request_index'', JInt request_index),
             (''cache_prefix_local_cold_start'', JBool cold), (''cache_prefix_previous_is_exact'', JBool exact),
             (''cache_prefix_lcp_message_count'', JInt (int lcp)), (''cache_prefix_lcp_chars'', JInt (messages_len lcp_prefix)),
             (''cache_prefix_lcp_estimated_tokens'', JInt (estimate_messages_tokens lcp_prefix)),
             (''cache_prefix_current_estimated_tokens'', JInt (estimate_messages_tokens ms)),
             (''cache_prefix_reset_reason'', JStr reason), (''cache_prefix_request_sha256'', JStr sha)] st1))"

definition prompt_size_metrics :: "context_builder \<Rightarrow> messages \<Rightarrow> nat \<Rightarrow> run_state \<Rightarrow> run_state result" where
  "prompt_size_metrics b ms n_stable st =
     (let chars = messages_len ms;
          samples = mget (metrics st) ''prompt_char_samples'' + 1;
          sum_chars = mget (metrics st) ''prompt_chars_total'' + chars;
          prof = prefix_profile b (take n_stable ms);
          system_tokens = estimate_messages_tokens (take 1 ms);
          stable_tokens = estimate_messages_tokens (take n_stable ms);
          current_tokens = estimate_messages_tokens ms
      in bind_res (int_div sum_chars samples) (\<lambda>mean. Inr (
           mset_all
             [(''prompt_char_samples'', JInt samples), (''prompt_chars_total'', JInt sum_chars),
              (''prompt_chars_max'', JInt (max (mget (metrics st) ''prompt_chars_max'') chars)), (''prompt_chars_mean'', JFloat mean),
              (''prompt_layout'', JStr (cx_layout (cb_config b))), (''stable_prefix_hash'', jget prof ''sha256''),
              (''stable_prefix_chars'', jget prof ''content_chars''), (''stable_prefix_estimated_tokens'', jget prof ''estimated_tokens''),
              (''stable_prefix_message_count'', jget prof ''message_count''),
              (''cache_layer_system_estimated_tokens_current'', JInt system_tokens),
              (''cache_layer_project_estimated_tokens_current'', JInt (max (stable_tokens - system_tokens) 0)),
              (''cache_layer_conversation_estimated_tokens_current'', JInt (max (current_tokens - stable_tokens) 0))] st)))"

definition remember_messages :: "string \<Rightarrow> messages \<Rightarrow> unit io" where
  "remember_messages rid ms s = (Inr (), s\<lparr>io_previous := AList.update rid ms (io_previous s)\<rparr>)"

definition get_previous :: "messages option io" where
  "get_previous s = (Inr (map_of (io_previous s) (run_id (io_state s))), s)"

definition update_state :: "(run_state \<Rightarrow> run_state result) \<Rightarrow> unit io" where
  "update_state f s = (case f (io_state s) of Inl err \<Rightarrow> (Inl err, s) | Inr st \<Rightarrow> (Inr (), s\<lparr>io_state := st\<rparr>))"

definition prompt_metrics :: "context_builder \<Rightarrow> messages option \<Rightarrow> messages \<Rightarrow> nat \<Rightarrow> run_state \<Rightarrow> run_state result" where
  "prompt_metrics b previous ms n_stable st =
     bind_res (prompt_size_metrics b ms n_stable st) (\<lambda>st1.
       case cache_prefix_profile b previous ms n_stable st1 of
         (prof, st2) \<Rightarrow> Inr (mset ''stable_prefix_profile'' (JDict (prefix_profile b (take n_stable ms) @ prof)) st2))"

definition record_prompt_metrics :: "context_builder \<Rightarrow> messages \<Rightarrow> nat \<Rightarrow> unit io" where
  "record_prompt_metrics b ms n_stable =
     then_io get_previous (\<lambda>previous.
     then_io (update_state (prompt_metrics b previous ms n_stable)) (\<lambda>_.
     then_io get_state (\<lambda>st. remember_messages (run_id st) ms)))"

definition build_messages :: "context_builder \<Rightarrow> trajectory_step list \<Rightarrow> messages io" where
  "build_messages b trajectory =
     then_io (set_metric ''context_compaction_strategy'' (JStr (cx_strategy (cb_config b)))) (\<lambda>_.
     then_io (state_io record_memory_injection) (\<lambda>_.
     then_io get_state (\<lambda>st.
       let recent = active_trajectory (cb_config b) st trajectory
       in then_io
            (if cx_layout (cb_config b) \<in> {''append'', ''epoch'', ''append_until_compaction''} then append_messages b recent
             else then_io (rebuild_messages b recent) (\<lambda>ms. ret_io (ms, 1)))
            (\<lambda>(ms, n_stable). then_io (record_prompt_metrics b ms n_stable) (\<lambda>_. ret_io ms)))))"

section \<open>Compaction\<close>

text \<open>\<^verbatim>\<open>xs[a:b]\<close>.\<close>

definition slice_index :: "int \<Rightarrow> 'a list \<Rightarrow> nat" where
  "slice_index i xs = (if i < 0 then nat (max (int (length xs) + i) 0) else min (nat i) (length xs))"

definition py_slice :: "int \<Rightarrow> int \<Rightarrow> 'a list \<Rightarrow> 'a list" where
  "py_slice a b xs = take (slice_index b xs - slice_index a xs) (drop (slice_index a xs) xs)"

definition py_from :: "int \<Rightarrow> 'a list \<Rightarrow> 'a list" where
  "py_from a xs = drop (slice_index a xs) xs"

text \<open>\<^verbatim>\<open>_build_messages_with_trajectory\<close> is the canonical layout, which only measures.\<close>

definition measured :: "context_builder \<Rightarrow> trajectory_step list \<Rightarrow> messages io" where
  "measured b trajectory = rebuild_messages b trajectory"

definition bound_window :: "context_config \<Rightarrow> int option" where
  "bound_window c = (case cx_window c of Some n \<Rightarrow> if 0 < n then Some n else None | None \<Rightarrow> None)"

definition under_threshold :: "context_config \<Rightarrow> messages \<Rightarrow> int \<Rightarrow> bool result" where
  "under_threshold c ms before_chars =
     (case bound_window c of
        Some w \<Rightarrow> bind_res (scaled_int w (cx_threshold_ratio c)) (\<lambda>t. Inr (estimate_messages_tokens ms \<le> t))
      | None \<Rightarrow> Inr (before_chars \<le> cx_max_prompt_chars c))"

text \<open>The first candidate that passes a test.\<close>

fun first_io :: "('a \<Rightarrow> bool io) \<Rightarrow> 'a list \<Rightarrow> 'a option io" where
  "first_io f [] = ret_io None"
| "first_io f (x # xs) = then_io (f x) (\<lambda>ok. if ok then ret_io (Some x) else first_io f xs)"

definition epoch_compactable_steps :: "context_builder \<Rightarrow> trajectory_step list \<Rightarrow> int io" where
  "epoch_compactable_steps b trajectory =
     (if trajectory = [] then ret_io 0
      else
        then_io get_state (\<lambda>st.
        then_io (lift_io (scaled_int (cx_max_prompt_chars (cb_config b)) epoch_target_ratio)) (\<lambda>target.
          let reserve = max (cx_summary_max_chars (cb_config b) - int (length (state_summary st))) 0;
              target_chars = max (target - reserve) 1
          in then_io (first_io (\<lambda>n. then_io (measured b (drop n trajectory)) (\<lambda>ms. ret_io (messages_len ms \<le> target_chars)))
                 [1 ..< Suc (length trajectory)])
               (\<lambda>r. ret_io (int (case r of Some n \<Rightarrow> n | None \<Rightarrow> length trajectory))))))"

definition retain_tail_step_count :: "context_builder \<Rightarrow> trajectory_step list \<Rightarrow> int \<Rightarrow> int io" where
  "retain_tail_step_count b trajectory retain_tokens =
     (if trajectory = [] then ret_io 0
      else
        then_io (measured b []) (\<lambda>none.
        then_io (first_io (\<lambda>n. then_io (measured b (last_steps (int n) trajectory)) (\<lambda>ms.
              ret_io (retain_tokens < estimate_messages_tokens ms - estimate_messages_tokens none)))
            [1 ..< Suc (length trajectory)])
          (\<lambda>r. ret_io (case r of Some n \<Rightarrow> max (int n - 1) 1 | None \<Rightarrow> int (length trajectory)))))"

definition compactable_end :: "context_builder \<Rightarrow> trajectory_step list \<Rightarrow> int \<Rightarrow> int io" where
  "compactable_end b trajectory compacted =
     then_io
       (if budget_driven (cb_config b) then
          then_io (epoch_compactable_steps b (py_from compacted trajectory)) (\<lambda>n. ret_io (compacted + n))
        else ret_io (int (length trajectory) - max (cx_recent_turns (cb_config b)) 0))
       (\<lambda>stop.
         case bound_window (cb_config b) of
           None \<Rightarrow> ret_io stop
         | Some w \<Rightarrow>
             then_io (lift_io (scaled_int w (cx_retain_ratio (cb_config b)))) (\<lambda>tokens.
             then_io (retain_tail_step_count b trajectory tokens) (\<lambda>kept. ret_io (min stop (int (length trajectory) - kept)))))"

text \<open>\<^verbatim>\<open>dict.fromkeys\<close> on the configured markers and the artifacts of the steps.\<close>

definition step_artifacts :: "trajectory_step list \<Rightarrow> string list" where
  "step_artifacts trajectory = concat (map (\<lambda>step. ob_artifact_ids (ts_observation step)) trajectory)"

definition event_markers :: "context_config \<Rightarrow> trajectory_step list \<Rightarrow> string list" where
  "event_markers c trajectory = first_occurrences (cx_markers c @ step_artifacts trajectory)"

definition marker_list :: "run_state \<Rightarrow> json list" where
  "marker_list st = (case jget (metrics st) ''context_retention_markers'' of JList xs \<Rightarrow> xs | _ \<Rightarrow> [])"

definition record_markers :: "string list \<Rightarrow> run_state \<Rightarrow> run_state" where
  "record_markers new_markers st =
     mset ''context_retention_markers'' (JList (first_occurrences (marker_list st @ map JStr new_markers))) st"

definition retention_rate :: "nat \<Rightarrow> nat \<Rightarrow> json result" where
  "retention_rate retained expected = ratio JNull (int retained) (int expected)"

definition record_retention :: "string list \<Rightarrow> string \<Rightarrow> run_state \<Rightarrow> run_state result" where
  "record_retention markers active st =
     (let retained = length (filter (contains active) markers)
      in bind_res (retention_rate retained (length markers)) (\<lambda>r. Inr (
           mset_all [(''context_retention_expected'', JInt (int (length markers))),
                     (''context_retention_retained'', JInt (int retained)), (''context_retention_rate'', r)] st)))"

definition semantic_summary :: "context_builder \<Rightarrow> string \<Rightarrow> string list \<Rightarrow> string io" where
  "semantic_summary b trajectory_text markers =
     (case cb_compactor b of
        None \<Rightarrow> lift_io (Inl AssertionError)
      | Some cp \<Rightarrow>
          then_io get_state (\<lambda>st.
          then_io (\<lambda>s. let (r, s1) = semantic_compact cp trajectory_text (state_summary st) markers s in (Inr r, s1)) (\<lambda>r.
            case r of
              Inl err \<Rightarrow>
                then_io (state_io (\<lambda>st. mset ''last_semantic_compaction_error'' (JStr err) (bump ''semantic_compaction_failures'' st))) (\<lambda>_.
                  ret_io (append_summary (state_summary st)
                    (format_compaction_summary_from_text trajectory_text (cx_summary_max_chars (cb_config b)))))
            | Inr x \<Rightarrow>
                then_io (state_io (bump ''semantic_compaction_successes'')) (\<lambda>_. then_io get_state (\<lambda>st1.
                  ret_io (append_summary (cr_summary x) (continuity_footer st1)))))))"

text \<open>The limit of the summary in the layouts driven by the budget.\<close>

definition summary_budget :: "context_config \<Rightarrow> int \<Rightarrow> int \<Rightarrow> string list \<Rightarrow> string \<Rightarrow> int result" where
  "summary_budget c post_chars summary_chars markers source =
     bind_res (scaled_int (cx_max_prompt_chars c) epoch_target_ratio) (\<lambda>target.
     bind_res (scaled_int (cx_max_prompt_chars c) (f64 (10 / 100))) (\<lambda>tenth.
       let non_summary = max (post_chars - summary_chars) 0;
           marker_floor = (\<Sum>m \<leftarrow> filter (contains source) markers. int (length m) + 3);
           summary_floor = min (cx_summary_max_chars c) (max tenth 1)
       in Inr (max (max (target - non_summary) marker_floor) summary_floor)))"

definition set_summary :: "string \<Rightarrow> unit io" where
  "set_summary t = state_io (\<lambda>st. st\<lparr>state_summary := t\<rparr>)"

definition fit_summary :: "context_builder \<Rightarrow> trajectory_step list \<Rightarrow> string list \<Rightarrow> string \<Rightarrow> unit io" where
  "fit_summary b rest markers source =
     (if \<not> budget_driven (cb_config b) then ret_io ()
      else
        then_io (measured b rest) (\<lambda>ms.
        then_io get_state (\<lambda>st.
        then_io (lift_io (summary_budget (cb_config b) (messages_len ms) (int (length (state_summary st))) markers source)) (\<lambda>budget.
          if budget < int (length (state_summary st)) then
            set_summary (preserve_retention_markers (state_summary st) source markers budget)
          else ret_io ()))))"

definition record_compaction :: "string \<Rightarrow> string \<Rightarrow> jdict \<Rightarrow> run_state \<Rightarrow> run_state" where
  "record_compaction message strategy details st =
     (let n = mget (metrics st) ''context_compactions'' + 1;
          st1 = mset ''last_context_compaction'' (JStr message) (mset ''context_compactions'' (JInt n) st);
          event = [(''compaction_id'', JInt n), (''strategy'', JStr strategy)] @ details @
            [(''facts_expected'', JInt (mget (metrics st1) ''context_retention_expected'')),
             (''facts_preserved'', JInt (mget (metrics st1) ''context_retention_retained'')),
             (''fact_retention_rate'', jget (metrics st1) ''context_retention_rate'')];
          events = (case jget (metrics st1) ''context_compaction_events'' of JList xs \<Rightarrow> xs | _ \<Rightarrow> [])
      in mset ''context_compaction_events'' (JList (events @ [JDict event])) st1)"

definition compaction_size_metrics :: "context_config \<Rightarrow> int \<Rightarrow> int \<Rightarrow> run_state \<Rightarrow> run_state" where
  "compaction_size_metrics c input stop st =
     (let output = int (length (state_summary st))
      in add_metric ''context_compaction_chars_saved'' (max (input - output) 0)
           (add_metric ''context_compaction_output_chars'' output
             (add_metric ''context_compaction_input_chars'' input
               (mset ''context_compaction_strategy'' (JStr (cx_strategy c)) (mset ''context_compacted_steps'' (JInt stop) st)))))"

definition rollover_metrics :: "context_config \<Rightarrow> run_state \<Rightarrow> run_state result" where
  "rollover_metrics c st =
     (if \<not> budget_driven c then Inr st
      else
        bind_res (scaled_int (cx_max_prompt_chars c) epoch_target_ratio) (\<lambda>target. Inr (
          mset_all [(''cache_prefix_pending_reset_reason'', JStr ''compaction_epoch_rollover''),
                    (''context_compaction_target_ratio'', JFloat epoch_target_ratio), (''context_compaction_target_chars'', JInt target)] st)))"

definition summarized :: "context_builder \<Rightarrow> trajectory_step list \<Rightarrow> string \<Rightarrow> string io" where
  "summarized b compactable trajectory_text =
     (if cx_strategy (cb_config b) = ''semantic'' then
        semantic_summary b trajectory_text (event_markers (cb_config b) compactable)
      else
        then_io get_state (\<lambda>st.
          ret_io (append_summary (state_summary st) (format_compaction_summary (cb_config b) compactable))))"

definition apply_compaction :: "context_builder \<Rightarrow> trajectory_step list \<Rightarrow> int \<Rightarrow> int \<Rightarrow> int \<Rightarrow> unit io" where
  "apply_compaction b trajectory compacted stop before_chars =
     (let c = cb_config b; compactable = py_slice compacted stop trajectory; rest = py_from stop trajectory
      in if compactable = [] then state_io (bump ''context_budget_overflows'')
         else
           (let text = format_trajectory c compactable; input = int (length text)
            in then_io (state_io (record_markers (event_markers c compactable))) (\<lambda>_.
               then_io (summarized b compactable text) (\<lambda>summary.
               then_io get_state (\<lambda>st.
                 let source = append_summary (state_summary st) text; markers = map py_str (marker_list st)
                 in then_io (set_summary (preserve_retention_markers summary source markers (cx_summary_max_chars c))) (\<lambda>_.
                    then_io (fit_summary b rest markers source) (\<lambda>_.
                    then_io (state_io (compaction_size_metrics c input stop)) (\<lambda>_.
                    then_io (update_state (rollover_metrics c)) (\<lambda>_.
                    then_io (update_state (\<lambda>st. record_retention markers (append_summary (state_summary st) (format_trajectory c rest)) st)) (\<lambda>_.
                    then_io (measured b rest) (\<lambda>ms.
                    then_io (set_metric ''context_compaction_post_chars'' (JInt (messages_len ms))) (\<lambda>_.
                      state_io (\<lambda>st. record_compaction
                        (''Compacted '' @ str_nat (length compactable) @ '' older trajectory step(s) into state_summary.'') (cx_strategy c)
                        [(''before_chars'', JInt before_chars), (''after_chars'', JInt (messages_len ms)),
                         (''compacted_step_start'', JInt (compacted + 1)), (''compacted_step_end'', JInt stop),
                         (''preserved_recent_steps'', JInt (int (length trajectory) - stop)), (''summary_input_chars'', JInt input),
                         (''summary_output_chars'', JInt (int (length (state_summary st))))] st)))))))))))))"

text \<open>Without compaction only the overflow is recorded.\<close>

definition record_overflow :: "context_config \<Rightarrow> trajectory_step list \<Rightarrow> run_state \<Rightarrow> run_state result" where
  "record_overflow c trajectory st =
     (let markers = event_markers c trajectory;
          st1 = mset ''context_retention_markers'' (strs markers)
                 (bump ''context_budget_overflows'' (mset ''context_budget_triggered'' (JBool True) st))
      in record_retention markers (format_trajectory c trajectory) st1)"

definition maybe_compact :: "context_builder \<Rightarrow> trajectory_step list \<Rightarrow> unit io" where
  "maybe_compact b trajectory =
     (let c = cb_config b
      in if trajectory = [] then ret_io ()
         else
           then_io (set_metric ''context_compaction_strategy'' (JStr (cx_strategy c))) (\<lambda>_.
             if cx_strategy c = ''disabled'' then
               then_io (measured b trajectory) (\<lambda>ms.
                 if cx_max_prompt_chars c < messages_len ms then update_state (record_overflow c trajectory) else ret_io ())
             else
               then_io get_state (\<lambda>st.
               let compacted = compacted_steps st
               in then_io (measured b (py_from compacted trajectory)) (\<lambda>ms.
                  then_io (lift_io (under_threshold c ms (messages_len ms))) (\<lambda>under.
                    if under then ret_io ()
                    else
                      then_io (set_metric ''context_budget_triggered'' (JBool True)) (\<lambda>_.
                      then_io (compactable_end b trajectory compacted) (\<lambda>stop.
                        if stop \<le> compacted then state_io (bump ''context_budget_overflows'')
                        else apply_compaction b trajectory compacted stop (messages_len ms))))))))"

definition force_compact :: "context_builder \<Rightarrow> trajectory_step list \<Rightarrow> bool io" where
  "force_compact b trajectory =
     (if trajectory = [] \<or> cx_strategy (cb_config b) = ''disabled'' then ret_io False
      else
        then_io get_state (\<lambda>st.
        let compacted = compacted_steps st
        in if int (length trajectory) \<le> compacted then ret_io False
           else
             then_io (measured b (py_from compacted trajectory)) (\<lambda>ms.
             then_io (compactable_end b trajectory compacted) (\<lambda>stop.
               if stop \<le> compacted then ret_io False
               else
                 then_io get_state (\<lambda>st1.
                 then_io (apply_compaction b trajectory compacted stop (messages_len ms)) (\<lambda>_.
                 then_io get_state (\<lambda>st2.
                   ret_io (mget (metrics st1) ''context_compactions'' < mget (metrics st2) ''context_compactions''))))))))"

section \<open>What preparing a prompt leaves alone\<close>

definition context_prefixes :: "string list" where
  "context_prefixes =
     [''context_compact'', ''context_budget_'', ''context_retention_'', ''semantic_compaction_'', ''last_context_'', ''last_semantic_'', ''prompt_char'', ''prompt_layout'', ''stable_prefix_'',
      ''cache_prefix_'', ''cache_layer_'', ''skill_catalog_'', ''guidance_'', ''working_memory_i'', ''memory_recall_failed'', ''l1_'', ''l2_'', ''l3_'']"

definition boundary_keys :: "string set" where
  "boundary_keys = {''context_compactions'', ''context_compacted_steps''}"

definition layer_keys :: "string set" where
  "layer_keys = {k. list_ex (\<lambda>p. prefix p k) context_prefixes} - boundary_keys"

definition context_keys :: "string set" where
  "context_keys = layer_keys \<union> boundary_keys"

text \<open>Nothing but metrics of the context and the summary, and nothing of the stored memories.\<close>

definition context_step :: "string set \<Rightarrow> agent_io \<Rightarrow> agent_io \<Rightarrow> bool" where
  "context_step K s s' =
     (only_metrics K ((io_state s)\<lparr>state_summary := state_summary (io_state s')\<rparr>) (io_state s') \<and>
      (io_db s')\<lparr>db_connections := 0\<rparr> = (io_db s)\<lparr>db_connections := 0\<rparr>)"

definition keeps :: "string set \<Rightarrow> 'a io \<Rightarrow> bool" where
  "keeps K m = (\<forall>s. context_step K s (snd (m s)))"

abbreviation context_io :: "'a io \<Rightarrow> bool" where \<comment> \<open>and the boundary of the compaction stays\<close>
  "context_io \<equiv> keeps layer_keys"

named_theorems context_intros \<open>operations that only prepare a prompt\<close>

lemma only_metrics_summary: "only_metrics K a b \<Longrightarrow> only_metrics K (a\<lparr>state_summary := t\<rparr>) (b\<lparr>state_summary := t\<rparr>)"
  by (cases a, cases b) (auto simp: only_metrics_def)

lemma context_step_refl [simp]: "context_step K s s"
  by (simp add: context_step_def)

lemma context_step_trans: "context_step K a b \<Longrightarrow> context_step K b c \<Longrightarrow> context_step K a c"
  unfolding context_step_def
proof (elim conjE, intro conjI)
  assume ab: "only_metrics K ((io_state a)\<lparr>state_summary := state_summary (io_state b)\<rparr>) (io_state b)"
    and bc: "only_metrics K ((io_state b)\<lparr>state_summary := state_summary (io_state c)\<rparr>) (io_state c)"
  from only_metrics_summary [OF ab, of "state_summary (io_state c)"] bc
  show "only_metrics K ((io_state a)\<lparr>state_summary := state_summary (io_state c)\<rparr>) (io_state c)"
    by (auto intro: only_metrics_trans)
qed simp

lemma context_ret [context_intros]: "keeps K (ret_io x)"
  by (simp add: keeps_def ret_io_def)

lemma context_lift [context_intros]: "keeps K (lift_io r)"
  by (simp add: keeps_def lift_io_def)

lemma context_get [context_intros]: "keeps K get_state"
  by (simp add: keeps_def get_state_def)

lemma context_then [context_intros]: "keeps K m \<Longrightarrow> (\<And>x. keeps K (f x)) \<Longrightarrow> keeps K (then_io m f)"
  unfolding keeps_def then_io_def
proof (intro allI, goal_cases)
  case (1 s)
  then show ?case by (cases "m s") (force split: sum.splits intro: context_step_trans)
qed

lemma context_rescue [context_intros]: "keeps K m \<Longrightarrow> (\<And>err. keeps K (h err)) \<Longrightarrow> keeps K (rescue m h)"
  unfolding keeps_def rescue_def
proof (intro allI, goal_cases)
  case (1 s)
  then show ?case by (cases "m s") (force split: sum.splits intro: context_step_trans)
qed

lemma context_if [context_intros]: "keeps K m \<Longrightarrow> keeps K n \<Longrightarrow> keeps K (if c then m else n)"
  by simp

lemma context_option [context_intros]: "keeps K m \<Longrightarrow> (\<And>x. keeps K (f x)) \<Longrightarrow> keeps K (case v of None \<Rightarrow> m | Some x \<Rightarrow> f x)"
  by (cases v) auto

lemma context_pair [context_intros]: "(\<And>x y. keeps K (f x y)) \<Longrightarrow> keeps K (case v of (x, y) \<Rightarrow> f x y)"
  by (cases v) auto

lemma context_step_state:
  assumes "only_metrics K (io_state s) st"
  shows "context_step K s (s\<lparr>io_state := st\<rparr>)"
proof -
  have "state_summary st = state_summary (io_state s)" using assms by (auto simp: only_metrics_def)
  then have "(io_state s)\<lparr>state_summary := state_summary st\<rparr> = io_state s" by simp
  with assms show ?thesis by (simp add: context_step_def)
qed

lemma context_state [context_intros]: "(\<And>st. only_metrics K st (f st)) \<Longrightarrow> keeps K (state_io f)"
  by (simp add: keeps_def state_io_def context_step_state)

lemma context_summary [context_intros]: "context_io (set_summary t)"
  by (simp add: keeps_def set_summary_def state_io_def context_step_def)

lemma context_remember [context_intros]: "context_io (remember_messages rid ms)" "context_io get_previous"
  by (simp_all add: keeps_def remember_messages_def get_previous_def context_step_def)

text \<open>A connection that only reads.\<close>

lemma context_reading: "(\<And>db. snd (body db) = db) \<Longrightarrow> context_io (connection me body)"
proof (unfold keeps_def, intro allI)
  fix s :: agent_io
  assume reads: "\<And>db. snd (body db) = db"
  let ?db = "(io_db s)\<lparr>db_connections := Suc (db_connections (io_db s))\<rparr>"
  show "context_step layer_keys s (snd (connection me body s))"
    using reads [of ?db] by (cases "body ?db") (auto simp: connection_def Let_def context_step_def split: option.split)
qed

lemma context_update [context_intros]:
  "(\<And>st st'. f st = Inr st' \<Longrightarrow> only_metrics layer_keys st st') \<Longrightarrow> context_io (update_state f)"
  by (auto simp: keeps_def update_state_def context_step_state split: sum.split)

lemma context_asks [context_intros]: "context_io (ask_model p ms opts)"
  by (simp add: keeps_def ask_model_def context_step_def Let_def split: prod.split)

lemma context_first [context_intros]: "(\<And>x. context_io (f x)) \<Longrightarrow> context_io (first_io f xs)"
  by (induction xs) (auto intro: context_intros)

subsection \<open>The metrics of the context\<close>

lemma context_key [simp]:
  "''cache_layer_conversation_estimated_tokens_current'' \<in> layer_keys"
  "''cache_layer_project_estimated_tokens_current'' \<in> layer_keys"
  "''cache_layer_system_estimated_tokens_current'' \<in> layer_keys" "''cache_prefix_cold_start_requests'' \<in> layer_keys"
  "''cache_prefix_current_estimated_tokens'' \<in> layer_keys" "''cache_prefix_epoch'' \<in> layer_keys"
  "''cache_prefix_exact_append_requests'' \<in> layer_keys" "''cache_prefix_lcp_chars'' \<in> layer_keys"
  "''cache_prefix_lcp_estimated_tokens'' \<in> layer_keys" "''cache_prefix_lcp_message_count'' \<in> layer_keys"
  "''cache_prefix_local_cold_start'' \<in> layer_keys" "''cache_prefix_pending_reset_reason'' \<in> layer_keys"
  "''cache_prefix_previous_is_exact'' \<in> layer_keys" "''cache_prefix_request_index'' \<in> layer_keys"
  "''cache_prefix_request_sha256'' \<in> layer_keys" "''cache_prefix_reset_reason'' \<in> layer_keys"
  "''cache_prefix_reset_reasons'' \<in> layer_keys" "''cache_prefix_reset_requests'' \<in> layer_keys"
  "''context_budget_overflows'' \<in> layer_keys" "''context_budget_triggered'' \<in> layer_keys"
  "''context_compaction_chars_saved'' \<in> layer_keys"
  "''context_compaction_events'' \<in> layer_keys" "''context_compaction_input_chars'' \<in> layer_keys"
  "''context_compaction_output_chars'' \<in> layer_keys" "''context_compaction_post_chars'' \<in> layer_keys"
  "''context_compaction_strategy'' \<in> layer_keys" "''context_compaction_target_chars'' \<in> layer_keys"
  "''context_compaction_target_ratio'' \<in> layer_keys"
  "''context_retention_expected'' \<in> layer_keys" "''context_retention_markers'' \<in> layer_keys"
  "''context_retention_rate'' \<in> layer_keys" "''context_retention_retained'' \<in> layer_keys"
  "''guidance_feedback_rule_count'' \<in> layer_keys" "''guidance_feedback_rule_ids'' \<in> layer_keys"
  "''guidance_selection_events'' \<in> layer_keys" "''guidance_skill_count'' \<in> layer_keys"
  "''guidance_skill_hashes'' \<in> layer_keys" "''guidance_skill_names'' \<in> layer_keys"
  "''l1_memories_injected'' \<in> layer_keys" "''l1_memories_recalled'' \<in> layer_keys"
  "''l2_scenarios_injected'' \<in> layer_keys" "''l3_persona_injected'' \<in> layer_keys"
  "''last_context_compaction'' \<in> layer_keys" "''last_semantic_compaction_error'' \<in> layer_keys"
  "''memory_recall_failed'' \<in> layer_keys" "''prompt_char_samples'' \<in> layer_keys" "''prompt_chars_max'' \<in> layer_keys"
  "''prompt_chars_mean'' \<in> layer_keys" "''prompt_chars_total'' \<in> layer_keys" "''prompt_layout'' \<in> layer_keys"
  "''semantic_compaction_cached_tokens'' \<in> layer_keys" "''semantic_compaction_completion_tokens'' \<in> layer_keys"
  "''semantic_compaction_failures'' \<in> layer_keys" "''semantic_compaction_latency_ms'' \<in> layer_keys"
  "''semantic_compaction_prompt_tokens'' \<in> layer_keys" "''semantic_compaction_requests'' \<in> layer_keys"
  "''semantic_compaction_successes'' \<in> layer_keys" "''semantic_compaction_total_tokens'' \<in> layer_keys"
  "''skill_catalog_digest'' \<in> layer_keys" "''skill_catalog_errors'' \<in> layer_keys"
  "''stable_prefix_changed'' \<in> layer_keys" "''stable_prefix_chars'' \<in> layer_keys"
  "''stable_prefix_estimated_tokens'' \<in> layer_keys" "''stable_prefix_hash'' \<in> layer_keys"
  "''stable_prefix_message_count'' \<in> layer_keys" "''stable_prefix_profile'' \<in> layer_keys"
  "''working_memory_injection_events'' \<in> layer_keys" "''working_memory_items_injected'' \<in> layer_keys"
  by (simp_all add: layer_keys_def boundary_keys_def context_prefixes_def)

lemma only_metrics_all: "only_metrics K st st' \<Longrightarrow> fst ` set kvs \<subseteq> K \<Longrightarrow> only_metrics K st (mset_all kvs st')"
proof (unfold mset_all_def, induction kvs arbitrary: st')
  case (Cons kv kvs)
  from Cons.prems have "only_metrics K st (mset (fst kv) (snd kv) st')" by (auto intro: only_metrics_mset)
  with Cons show ?case by (simp add: case_prod_beta)
qed simp

lemma only_metrics_delete: "only_metrics K st st' \<Longrightarrow> k \<in> K \<Longrightarrow> only_metrics K st (delete_metric k st')"
  by (auto simp: only_metrics_def delete_metric_def AList.delete_conv')

lemmas metric_intros = only_metrics_mset only_metrics_add only_metrics_all only_metrics_delete only_metrics_refl

lemma context_only [context_intros]:
  "only_metrics layer_keys st (record_guidance names hashes rules st)"
  "only_metrics layer_keys st (record_memory_injection st)"
  "only_metrics layer_keys st (record_catalog b st)"
  "only_metrics layer_keys st (record_markers ms st)"
  by (auto simp: record_guidance_def record_memory_injection_def record_catalog_def record_markers_def Let_def split: option.split intro!: metric_intros)

lemma context_reset:
  "prefix_reset c lcp n st = (reason, st') \<Longrightarrow> only_metrics layer_keys st st'"
  "prefix_reason c previous ms lcp n st = (reason, epoch, st') \<Longrightarrow> only_metrics layer_keys st st'"
proof -
  show reset: "prefix_reset c lcp n st = (reason, st') \<Longrightarrow> only_metrics layer_keys st st'" for reason st'
    by (auto simp: prefix_reset_def Let_def intro!: metric_intros)
  show "prefix_reason c previous ms lcp n st = (reason, epoch, st') \<Longrightarrow> only_metrics layer_keys st st'"
    by (auto simp: prefix_reason_def Let_def split: prod.splits if_splits intro!: metric_intros dest: reset)
qed

lemma context_profile:
  assumes "cache_prefix_profile b previous ms n st = (prof, st')"
  shows "only_metrics layer_keys st st'"
proof -
  define lcp where "lcp = (case previous of None \<Rightarrow> 0 | Some old \<Rightarrow> message_lcp_count old ms)"
  obtain reason epoch st1 where r: "prefix_reason (cb_config b) previous ms lcp n st = (reason, epoch, st1)" by (metis prod_cases3)
  then have "only_metrics layer_keys st st1" by (rule context_reset)
  then show ?thesis
    using assms r by (auto simp: cache_prefix_profile_def Let_def lcp_def intro!: only_metrics_all)
qed

lemma context_sizes: "prompt_size_metrics b ms n st = Inr st' \<Longrightarrow> only_metrics layer_keys st st'"
  by (auto simp: prompt_size_metrics_def Let_def split: sum.splits intro!: metric_intros)

lemma context_prompt_metrics:
  assumes "prompt_metrics b previous ms n st = Inr st'"
  shows "only_metrics layer_keys st st'"
proof -
  obtain st1 where st1: "prompt_size_metrics b ms n st = Inr st1" using assms by (auto simp: prompt_metrics_def)
  obtain prof st2 where st2: "cache_prefix_profile b previous ms n st1 = (prof, st2)" by fastforce
  from only_metrics_trans [OF context_sizes [OF st1] context_profile [OF st2]] have "only_metrics layer_keys st st2" .
  then show ?thesis using assms st1 st2 by (auto simp: prompt_metrics_def intro: only_metrics_mset)
qed

lemma context_retention:
  "record_retention ms active st = Inr st' \<Longrightarrow> only_metrics layer_keys st st'"
  "rollover_metrics c st = Inr st' \<Longrightarrow> only_metrics layer_keys st st'"
  "record_overflow c trajectory st = Inr st' \<Longrightarrow> only_metrics layer_keys st st'"
  by (auto simp: record_retention_def rollover_metrics_def record_overflow_def Let_def
      split: sum.splits if_splits intro!: metric_intros)

subsection \<open>The layers and the messages\<close>

lemma context_set_metric [context_intros]: "k \<in> layer_keys \<Longrightarrow> context_io (set_metric k v)"
  unfolding set_metric_def by (intro context_intros metric_intros)

lemma context_count_metric [context_intros]: "k \<in> layer_keys \<Longrightarrow> context_io (count_metric k xs)"
  unfolding count_metric_def by (intro context_intros)

lemma context_value_or [context_intros]: "context_io m \<Longrightarrow> context_io (value_or x m)"
  unfolding value_or_def by (intro context_intros)

lemma context_store [context_intros]:
  "context_io (bm25_search me q scope limit)" "context_io (list_persona me origin)" "context_io (list_scenarios me n)"
  unfolding bm25_search_def list_persona_def list_scenarios_def Let_def by (intro context_intros context_reading, simp)+

lemma context_recall [context_intros]: "context_io (recall_memories me q scope limit)"
  unfolding recall_memories_def by (intro context_intros)

lemma context_layers [context_intros]:
  "context_io (l1_memory_context b)" "context_io (l3_persona_context b)" "context_io (l2_scenario_context b)"
  unfolding l1_memory_context_def l3_persona_context_def l2_scenario_context_def Let_def
  by ((intro context_intros; simp)+)

lemma context_instructions [context_intros]: "context_io (instruction_context b)"
  unfolding instruction_context_def by (intro context_intros)

lemma context_parts [context_intros]:
  "context_io (stable_run_context b)" "context_io (dynamic_context b trajectory)" "context_io (system_prefix b)"
  unfolding stable_run_context_def dynamic_context_def system_prefix_def Let_def by (intro context_intros)+

lemma context_messages [context_intros]: "context_io (rebuild_messages b trajectory)" "context_io (append_messages b trajectory)"
  unfolding rebuild_messages_def append_messages_def by (intro context_intros)+

lemma context_record_prompt [context_intros]: "context_io (record_prompt_metrics b ms n)"
  unfolding record_prompt_metrics_def by (intro context_intros context_prompt_metrics)

lemma build_context: "context_io (build_messages b trajectory)"
  unfolding build_messages_def Let_def by (intro context_intros) simp

subsection \<open>Compaction\<close>

lemma context_usage:
  "only_metrics layer_keys st (record_compaction_usage r st)" "only_metrics layer_keys st (bump ''semantic_compaction_requests'' st)"
proof -
  have "only_metrics layer_keys st (add_present k v st')" if "only_metrics layer_keys st st'" "k \<in> layer_keys" for k v st'
    using that by (cases v) (auto simp: add_present_def intro: only_metrics_add)
  then show "only_metrics layer_keys st (record_compaction_usage r st)"
    by (simp add: record_compaction_usage_def Let_def only_metrics_add)
  show "only_metrics layer_keys st (bump ''semantic_compaction_requests'' st)"
    by (rule only_metrics_add) (simp_all)
qed

lemma context_compact: "context_step layer_keys s (snd (semantic_compact cp t existing markers s))"
proof -
  define s1 where "s1 = s\<lparr>io_state := bump ''semantic_compaction_requests'' (io_state s)\<rparr>"
  let ?ms = "[(''system'', compaction_system_prompt),
     (''user'', compaction_prompt (trim_text t (cp_max_input_chars cp)) existing markers (cp_max_summary_chars cp))]"
  obtain answer s2 where a: "ask_model (cp_provider cp) ?ms json_options s1 = (answer, s2)" by fastforce
  have s1: "context_step layer_keys s s1" unfolding s1_def by (rule context_step_state) (rule context_usage)
  have "context_step layer_keys s1 s2" using context_asks a unfolding keeps_def by (metis snd_conv)
  then have s2: "context_step layer_keys s s2" using s1 by (rule context_step_trans [rotated])
  have "context_step layer_keys s (s2\<lparr>io_state := record_compaction_usage r (io_state s2)\<rparr>)" for r
    using s2 context_step_state [OF context_usage(1)] by (rule context_step_trans)
  then show ?thesis using a s2
    by (auto simp: semantic_compact_def Let_def s1_def [symmetric] split: sum.splits)
qed

lemma context_compacted [context_intros]:
  "context_io (\<lambda>s. let (r, s1) = semantic_compact cp t existing markers s in (Inr r, s1))"
  unfolding keeps_def using context_compact by (simp add: split_beta)

lemma context_sum [context_intros]:
  "(\<And>x. context_io (f x)) \<Longrightarrow> (\<And>x. context_io (g x)) \<Longrightarrow> context_io (case v of Inl x \<Rightarrow> f x | Inr x \<Rightarrow> g x)"
  by (cases v) auto

lemma context_bump [context_intros]: "k \<in> layer_keys \<Longrightarrow> context_io (state_io (bump k))"
  by (intro context_state only_metrics_add) simp_all

lemma context_semantic [context_intros]: "context_io (semantic_summary b t markers)"
  unfolding semantic_summary_def
  by (intro context_intros; simp add: only_metrics_mset only_metrics_add)

lemma context_measured [context_intros]: "context_io (measured b trajectory)"
  unfolding measured_def by (intro context_intros)

lemma context_boundaries [context_intros]: "context_io (compactable_end b trajectory compacted)"
  unfolding compactable_end_def epoch_compactable_steps_def retain_tail_step_count_def Let_def by (intro context_intros)

lemma context_summarized [context_intros]: "context_io (summarized b compactable t)" "context_io (fit_summary b rest markers source)"
  unfolding summarized_def fit_summary_def by (intro context_intros)+

lemma context_update_retention [context_intros]:
  "context_io (update_state (\<lambda>st. record_retention (ms st) (active st) st))" "context_io (update_state (rollover_metrics c))"
  "context_io (update_state (record_overflow c trajectory))"
  by (intro context_update; erule context_retention)+

lemma context_wide: "context_io m \<Longrightarrow> keeps context_keys m"
  unfolding keeps_def context_step_def only_metrics_def context_keys_def by fastforce

lemma boundary_key [simp]: "k \<in> boundary_keys \<Longrightarrow> k \<in> context_keys" "''context_compactions'' \<in> boundary_keys" "''context_compacted_steps'' \<in> boundary_keys"
  by (auto simp: context_keys_def boundary_keys_def)

lemma layer_key [simp]: "k \<in> layer_keys \<Longrightarrow> k \<in> context_keys"
  by (simp add: context_keys_def)

lemma boundary_only:
  "keeps context_keys (state_io (compaction_size_metrics c input stop))"
  "keeps context_keys (state_io (\<lambda>st. record_compaction message strategy (details st) st))"
  by (auto simp: compaction_size_metrics_def record_compaction_def Let_def intro!: context_state metric_intros)

lemmas context_wide_intros = context_if context_then context_option context_pair boundary_only

lemma apply_context: "keeps context_keys (apply_compaction b trajectory compacted stop before_chars)"
  unfolding apply_compaction_def Let_def by (intro context_wide_intros; rule context_wide, intro context_intros; simp)

lemma maybe_compact_keeps: "keeps context_keys (maybe_compact b trajectory)"
  unfolding maybe_compact_def Let_def
  by (intro context_wide_intros apply_context; rule context_wide, intro context_intros; simp)

lemma force_compact_keeps: "keeps context_keys (force_compact b trajectory)"
  unfolding force_compact_def Let_def
  by (intro context_wide_intros apply_context; rule context_wide, intro context_intros; simp)

subsection \<open>The boundary of the compaction\<close>

definition boundary :: "run_state \<Rightarrow> int \<times> int" where
  "boundary st = (mget (metrics st) ''context_compactions'', compacted_steps st)"

text \<open>Where the operation returns, it leads from one boundary to another.\<close>

definition leads :: "int \<times> int \<Rightarrow> 'a io \<Rightarrow> int \<times> int \<Rightarrow> bool" where
  "leads p m q = (\<forall>s x s'. boundary (io_state s) = p \<longrightarrow> m s = (Inr x, s') \<longrightarrow> boundary (io_state s') = q)"

lemma boundary_kept: "context_step layer_keys s s' \<Longrightarrow> boundary (io_state s') = boundary (io_state s)"
proof -
  assume s: "context_step layer_keys s s'"
  have "mget (metrics (io_state s')) k = mget (metrics (io_state s)) k" if "k \<in> boundary_keys" for k
    using s that only_metrics_mget [of layer_keys "(io_state s)\<lparr>state_summary := state_summary (io_state s')\<rparr>" "io_state s'" k]
    by (simp add: context_step_def layer_keys_def)
  then show ?thesis by (simp add: boundary_def compacted_steps_def)
qed

lemma leads_layer: "context_io m \<Longrightarrow> leads p m p"
  unfolding leads_def keeps_def by (metis boundary_kept snd_conv)

lemma then_ret: "then_io (ret_io x) f = f x"
  by (rule ext) (simp add: then_io_def ret_io_def)

lemma then_io_returns: "then_io m f s = (Inr y, s') \<longleftrightarrow> (\<exists>x s1. m s = (Inr x, s1) \<and> f x s1 = (Inr y, s'))"
  by (auto simp: then_io_def split: prod.split sum.split)

lemma leads_then:
  assumes "leads p m r" "\<And>x. leads r (f x) q"
  shows "leads p (then_io m f) q"
  unfolding leads_def
proof (intro allI impI)
  fix s y s' assume p: "boundary (io_state s) = p" and run: "then_io m f s = (Inr y, s')"
  then obtain x s1 where m: "m s = (Inr x, s1)" and f: "f x s1 = (Inr y, s')" by (auto simp: then_io_returns)
  have "boundary (io_state s1) = r" using assms(1) p m by (simp add: leads_def)
  then show "boundary (io_state s') = q" using assms(2) f unfolding leads_def by blast
qed

lemma leads_state: "(\<And>st. boundary st = p \<Longrightarrow> boundary (f st) = q) \<Longrightarrow> leads p (state_io f) q"
  by (simp add: leads_def state_io_def)

lemma boundary_size: "boundary st = (n, k) \<Longrightarrow> boundary (compaction_size_metrics c input stop st) = (n, stop)"
  by (simp add: boundary_def compaction_size_metrics_def Let_def compacted_steps_def mget_mset mget_single)

lemma boundary_record: "boundary st = (n, k) \<Longrightarrow> boundary (record_compaction message strategy details st) = (n + 1, k)"
  by (simp add: boundary_def record_compaction_def Let_def compacted_steps_def mget_mset mget_single)

lemma apply_leads:
  assumes "py_slice compacted stop trajectory \<noteq> []"
  shows "leads (n, k) (apply_compaction b trajectory compacted stop before_chars) (n + 1, stop)"
proof -
  have size: "leads (n, k) (state_io (compaction_size_metrics c input stop)) (n, stop)" for c input
    by (intro leads_state boundary_size)
  have done_with: "leads (n, stop) (state_io (\<lambda>st. record_compaction message strategy (details st) st)) (n + 1, stop)" for message strategy details
    by (intro leads_state boundary_record)
  show ?thesis
    using assms unfolding apply_compaction_def Let_def
    by (simp, intro leads_then [OF leads_layer] leads_then [OF size] done_with context_intros) simp_all
qed

lemma slice_index_in: "0 \<le> i \<Longrightarrow> i \<le> int (length xs) \<Longrightarrow> slice_index i xs = nat i"
  by (simp add: slice_index_def)

lemma slice_nonempty: "0 \<le> a \<Longrightarrow> a < b \<Longrightarrow> b \<le> int (length xs) \<Longrightarrow> py_slice a b xs \<noteq> []"
  by (auto simp: py_slice_def slice_index_in)

lemma first_io_in: "first_io f xs s = (Inr (Some x), s') \<Longrightarrow> x \<in> set xs"
  by (induction xs arbitrary: s) (auto simp: then_io_returns ret_io_def split: if_splits)

text \<open>The boundary a compaction would reach is never past the end.\<close>

lemma compactable_steps_le:
  assumes "epoch_compactable_steps b trajectory s = (Inr n, s')"
  shows "n \<le> int (length trajectory)"
  using assms first_io_in
  by (force simp: epoch_compactable_steps_def then_io_returns ret_io_def Let_def split: if_splits option.splits)

lemma compactable_end_le:
  assumes "compactable_end b trajectory compacted s = (Inr stop, s')" "0 \<le> compacted" "compacted \<le> int (length trajectory)"
  shows "stop \<le> int (length trajectory)"
proof -
  have rest: "int (length (py_from compacted trajectory)) = int (length trajectory) - compacted"
    using assms by (simp add: py_from_def slice_index_in)
  show ?thesis
    using assms(1) compactable_steps_le [of b "py_from compacted trajectory"]
    unfolding rest compactable_end_def
    by (fastforce simp: then_io_returns ret_io_def split: if_splits option.splits)
qed

text \<open>The boundary stays, or one more compaction moves it forward.\<close>

definition advanced :: "int \<times> int \<Rightarrow> int \<Rightarrow> int \<times> int \<Rightarrow> bool" where
  "advanced p end_of q = (fst q = fst p + 1 \<and> snd p < snd q \<and> snd q \<le> end_of)"

lemma apply_advances:
  assumes "compactable_end b trajectory (compacted_steps st) s = (Inr stop, s1)"
    and "apply_compaction b trajectory (compacted_steps st) stop before_chars s2 = (Inr (), s3)"
    and "compacted_steps st < stop" "0 \<le> compacted_steps st" "compacted_steps st < int (length trajectory)"
    and "boundary (io_state s2) = boundary st"
  shows "advanced (boundary st) (int (length trajectory)) (boundary (io_state s3))"
proof -
  have stop: "stop \<le> int (length trajectory)" using compactable_end_le [OF assms(1)] assms(4,5) by simp
  then have "py_slice (compacted_steps st) stop trajectory \<noteq> []" using assms(3,4) by (intro slice_nonempty)
  from apply_leads [OF this] assms(2,6) have "boundary (io_state s3) = (fst (boundary st) + 1, stop)"
    unfolding leads_def boundary_def by (metis fst_conv)
  then show ?thesis using stop assms(3) by (simp add: advanced_def boundary_def)
qed

lemma keeps_boundary: "context_io m \<Longrightarrow> m s = (x, s') \<Longrightarrow> boundary (io_state s') = boundary (io_state s)"
  unfolding keeps_def by (metis boundary_kept snd_conv)

lemma get_state_returns: "get_state s = (Inr x, s') \<longleftrightarrow> x = io_state s \<and> s' = s"
  by (auto simp: get_state_def)

lemma ret_io_returns: "ret_io x s = (Inr y, s') \<longleftrightarrow> y = x \<and> s' = s"
  by (auto simp: ret_io_def)

lemmas io_returns = then_io_returns get_state_returns ret_io_returns

lemma force_compact_progress:
  assumes run: "force_compact b trajectory s = (Inr r, s')" and c: "0 \<le> compacted_steps (io_state s)"
  shows "if r then advanced (boundary (io_state s)) (int (length trajectory)) (boundary (io_state s'))
         else boundary (io_state s') = boundary (io_state s)"
proof (cases "trajectory = [] \<or> cx_strategy (cb_config b) = ''disabled'' \<or> int (length trajectory) \<le> compacted_steps (io_state s)")
  case True
  then show ?thesis using run by (auto simp: force_compact_def io_returns Let_def split: if_splits)
next
  case False
  let ?c = "compacted_steps (io_state s)"
  obtain ms s1 stop s2 where m: "measured b (py_from ?c trajectory) s = (Inr ms, s1)" "compactable_end b trajectory ?c s1 = (Inr stop, s2)"
    and rest: "(if stop \<le> ?c then ret_io False
       else then_io get_state (\<lambda>st1. then_io (apply_compaction b trajectory ?c stop (messages_len ms)) (\<lambda>_.
         then_io get_state (\<lambda>st2. ret_io (mget (metrics st1) ''context_compactions'' < mget (metrics st2) ''context_compactions''))))) s2 = (Inr r, s')"
    using run False by (auto simp: force_compact_def io_returns Let_def)
  have s2: "boundary (io_state s2) = boundary (io_state s)"
    using keeps_boundary [OF context_measured m(1)] keeps_boundary [OF context_boundaries m(2)] by simp
  show ?thesis
  proof (cases "stop \<le> ?c")
    case True
    then show ?thesis using rest s2 by (simp add: io_returns)
  next
    case ahead: False
    then obtain s3 where a: "apply_compaction b trajectory ?c stop (messages_len ms) s2 = (Inr (), s3)" "s' = s3"
      "r = (mget (metrics (io_state s2)) ''context_compactions'' < mget (metrics (io_state s3)) ''context_compactions'')"
      using rest by (auto simp: io_returns)
    have "advanced (boundary (io_state s)) (int (length trajectory)) (boundary (io_state s3))"
      using apply_advances [OF m(2) a(1)] ahead False c s2 by simp
    with a s2 show ?thesis by (auto simp: advanced_def boundary_def)
  qed
qed

lemma maybe_compact_progress:
  assumes run: "maybe_compact b trajectory s = (Inr (), s')"
    and c: "0 \<le> compacted_steps (io_state s)" "compacted_steps (io_state s) < int (length trajectory)"
  shows "boundary (io_state s') = boundary (io_state s) \<or>
    advanced (boundary (io_state s)) (int (length trajectory)) (boundary (io_state s'))"
proof -
  let ?c = "cb_config b"
  obtain s1 where s1: "set_metric ''context_compaction_strategy'' (JStr (cx_strategy ?c)) s = (Inr (), s1)"
    by (simp add: set_metric_def state_io_def)
  have b1: "boundary (io_state s1) = boundary (io_state s)" using s1 by (rule keeps_boundary [rotated]) (intro context_intros, simp)
  let ?n = "compacted_steps (io_state s)"
  have n1: "compacted_steps (io_state s1) = ?n" using b1 by (simp add: boundary_def)
  have nonempty: "trajectory \<noteq> []" using c by auto
  show ?thesis
  proof (cases "cx_strategy ?c = ''disabled''")
    case True
    have "context_io (then_io (measured b trajectory) (\<lambda>ms. if cx_max_prompt_chars ?c < messages_len ms
        then update_state (record_overflow ?c trajectory) else ret_io ()))"
      by (intro context_intros)
    note kept = keeps_boundary [OF this, of s1 "Inr ()" s']
    from run True s1 nonempty have "(then_io (measured b trajectory) (\<lambda>ms. if cx_max_prompt_chars ?c < messages_len ms
        then update_state (record_overflow ?c trajectory) else ret_io ())) s1 = (Inr (), s')"
      unfolding maybe_compact_def Let_def by (simp add: then_io_def)
    then show ?thesis using kept b1 by simp
  next
    case False
    obtain ms s2 under where m: "measured b (py_from ?n trajectory) s1 = (Inr ms, s2)"
        "under_threshold ?c ms (messages_len ms) = Inr under"
      and rest: "(if under then ret_io () else then_io (set_metric ''context_budget_triggered'' (JBool True)) (\<lambda>_.
          then_io (compactable_end b trajectory ?n) (\<lambda>stop.
            if stop \<le> ?n then state_io (bump ''context_budget_overflows'')
            else apply_compaction b trajectory ?n stop (messages_len ms)))) s2 = (Inr (), s')"
      using run False s1 nonempty by (auto simp: maybe_compact_def Let_def io_returns lift_io_def n1 cong del: if_weak_cong)
    have b2: "boundary (io_state s2) = boundary (io_state s)" using keeps_boundary [OF context_measured m(1)] b1 by simp
    show ?thesis
    proof (cases under)
      case True
      then show ?thesis using rest b2 by (simp add: io_returns)
    next
      case over: False
      then obtain s3 s4 stop where t: "set_metric ''context_budget_triggered'' (JBool True) s2 = (Inr (), s3)"
          "compactable_end b trajectory ?n s3 = (Inr stop, s4)"
        and last_part: "(if stop \<le> ?n then state_io (bump ''context_budget_overflows'')
            else apply_compaction b trajectory ?n stop (messages_len ms)) s4 = (Inr (), s')"
        using rest by (auto simp: io_returns)
      have b4: "boundary (io_state s4) = boundary (io_state s)"
        using keeps_boundary [OF context_set_metric t(1)] keeps_boundary [OF context_boundaries t(2)] b2 by simp
      show ?thesis
      proof (cases "stop \<le> ?n")
        case True
        then show ?thesis using last_part keeps_boundary [OF context_bump, of "''context_budget_overflows''" s4] b4 by simp
      next
        case False
        then show ?thesis using apply_advances [OF t(2), of "messages_len ms" s4 s'] last_part b4 c by simp
      qed
    qed
  qed
qed

section \<open>Requests that extend one another\<close>

lemma append_layout:
  "append_messages b trajectory s =
     (case append_messages b [] s of
        (Inl err, s1) \<Rightarrow> (Inl err, s1)
      | (Inr (ms, n), s1) \<Rightarrow> (Inr (ms @ concat (map (step_messages (cb_config b)) trajectory), n), s1))"
  by (simp add: append_messages_def then_io_def get_state_def ret_io_def split: prod.split sum.split)

text \<open>What the part before the steps is made of.\<close>

definition same_header :: "run_state \<Rightarrow> run_state \<Rightarrow> bool" where
  "same_header st st' =
     (rs_goal st' = rs_goal st \<and> status st' = status st \<and> constraints st' = constraints st \<and>
      prompt_namespace st' = prompt_namespace st \<and> repository_profile st' = repository_profile st \<and>
      project_guide st' = project_guide st \<and> session_history st' = session_history st \<and> state_summary st' = state_summary st \<and>
      working_memory st' = working_memory st \<and> working_memory_source_run_id st' = working_memory_source_run_id st \<and>
      jget (metrics st') ''profile'' = jget (metrics st) ''profile'')"

text \<open>Two operations that answer alike for states with the same header.\<close>

definition alike :: "'a io \<Rightarrow> 'a io \<Rightarrow> bool" where
  "alike m n =
     (\<forall>s u. same_header (io_state s) (io_state u) \<longrightarrow>
        fst (m s) = fst (n u) \<and> same_header (io_state (snd (m s))) (io_state (snd (n u))))"

named_theorems alike_intros \<open>operations that answer alike\<close>

lemma alike_ret [alike_intros]: "x = y \<Longrightarrow> alike (ret_io x) (ret_io y)"
  by (simp add: alike_def ret_io_def)

lemma alike_lift [alike_intros]: "x = y \<Longrightarrow> alike (lift_io x) (lift_io y)"
  by (simp add: alike_def lift_io_def)

lemma alike_then [alike_intros]:
  assumes "alike m n" "\<And>x. alike (f x) (g x)"
  shows "alike (then_io m f) (then_io n g)"
  unfolding alike_def
proof (intro allI impI)
  fix s u :: agent_io
  assume "same_header (io_state s) (io_state u)"
  then have "fst (m s) = fst (n u) \<and> same_header (io_state (snd (m s))) (io_state (snd (n u)))"
    using assms(1) by (simp add: alike_def)
  then show "fst (then_io m f s) = fst (then_io n g u) \<and>
      same_header (io_state (snd (then_io m f s))) (io_state (snd (then_io n g u)))"
    using assms(2) by (cases "m s"; cases "n u") (auto simp: then_io_def alike_def split: sum.split)
qed

lemma alike_get: "(\<And>st st'. same_header st st' \<Longrightarrow> alike (f st) (g st')) \<Longrightarrow> alike (then_io get_state f) (then_io get_state g)"
  by (simp add: alike_def then_io_def get_state_def)

lemma alike_state [alike_intros]:
  "(\<And>st st'. same_header st st' \<Longrightarrow> same_header (f st) (g st')) \<Longrightarrow> alike (state_io f) (state_io g)"
  by (simp add: alike_def state_io_def)

lemma same_header_set [simp]:
  "k \<noteq> ''profile'' \<Longrightarrow> same_header (mset k v st) st' = same_header st st'"
  "k \<noteq> ''profile'' \<Longrightarrow> same_header st (mset k v st') = same_header st st'"
  by (simp_all add: same_header_def jget_mset, simp_all add: mset_def)

lemma alike_count [alike_intros]: "k \<noteq> ''profile'' \<Longrightarrow> xs = ys \<Longrightarrow> alike (count_metric k xs) (count_metric k ys)"
  unfolding count_metric_def set_metric_def by (intro alike_intros) simp

lemma alike_instructions [alike_intros]: "alike (instruction_context b) (instruction_context b)"
  unfolding instruction_context_def
proof (rule alike_get)
  fix st st' assume same: "same_header st st'"
  have "skill_selection b st = skill_selection b st'" "working_memory_context st = working_memory_context st'" "rs_goal st = rs_goal st'"
    using same by (simp_all add: skill_selection_def working_memory_context_def same_header_def split: option.split)
  then show "alike
      (case skill_selection b st of (names, hashes, skill_texts) \<Rightarrow>
         then_io (state_io (record_catalog b)) (\<lambda>_.
         then_io (lift_io (case cb_feedback b of None \<Rightarrow> Inr ([], []) | Some m \<Rightarrow> feedback_context m (rs_goal st))) (\<lambda>(rules, text).
         then_io (state_io (record_guidance names hashes (map fr_id rules))) (\<lambda>_.
         then_io (lift_io (working_memory_context st)) (\<lambda>follow_up. ret_io (skill_texts @ nonempty_texts [text, follow_up]))))))
      (case skill_selection b st' of (names, hashes, skill_texts) \<Rightarrow>
         then_io (state_io (record_catalog b)) (\<lambda>_.
         then_io (lift_io (case cb_feedback b of None \<Rightarrow> Inr ([], []) | Some m \<Rightarrow> feedback_context m (rs_goal st'))) (\<lambda>(rules, text).
         then_io (state_io (record_guidance names hashes (map fr_id rules))) (\<lambda>_.
         then_io (lift_io (working_memory_context st')) (\<lambda>follow_up. ret_io (skill_texts @ nonempty_texts [text, follow_up]))))))"
    by (auto split: prod.split intro!: alike_intros simp: record_catalog_def record_guidance_def Let_def split: option.split)
qed

lemma header_alike:
  assumes "cb_store b = None"
  shows "alike (append_messages b []) (append_messages b [])"
proof -
  have memory: "l1_memory_context b = ret_io []" using assms by (simp add: l1_memory_context_def)
  have persona: "alike (l3_persona_context b) (l3_persona_context b)" "alike (l2_scenario_context b) (l2_scenario_context b)"
    using assms by (auto simp: l3_persona_context_def l2_scenario_context_def Let_def intro!: alike_intros)
  have system: "alike (system_prefix b) (system_prefix b)"
    unfolding system_prefix_def Let_def by (intro alike_get alike_then persona alike_ret) (simp add: same_header_def)
  have run: "alike (stable_run_context b) (stable_run_context b)"
    unfolding stable_run_context_def
    by (intro alike_then alike_instructions alike_get alike_ret)
      (simp add: same_header_def namespace_line_def repository_context_def goal_lines_def)
  show ?thesis
    unfolding append_messages_def memory
    by (intro alike_then system run alike_get alike_ret refl) (simp add: same_header_def session_history_messages_def)
qed

lemma injection_same: "same_header st st' \<Longrightarrow> same_header (record_memory_injection st) (record_memory_injection st')"
  by (auto simp: record_memory_injection_def same_header_def [of st st'])

text \<open>The part of a prompt before the steps.\<close>

definition prompt_header :: "context_builder \<Rightarrow> (messages \<times> nat) io" where
  "prompt_header b =
     then_io (set_metric ''context_compaction_strategy'' (JStr (cx_strategy (cb_config b)))) (\<lambda>_.
     then_io (state_io record_memory_injection) (\<lambda>_. append_messages b []))"

lemma prompt_header_alike: "cb_store b = None \<Longrightarrow> alike (prompt_header b) (prompt_header b)"
  unfolding prompt_header_def set_metric_def
  by (intro alike_intros header_alike injection_same) simp_all

lemma budget_driven_messages:
  assumes "budget_driven (cb_config b)" "fst (build_messages b trajectory s) = Inr ms"
  shows "\<exists>h n. fst (prompt_header b s) = Inr (h, n) \<and>
    ms = h @ concat (map (step_messages (cb_config b)) (drop (nat (max (compacted_steps (io_state s)) 0)) trajectory))"
proof -
  define s0 where "s0 = s\<lparr>io_state := record_memory_injection (mset ''context_compaction_strategy'' (JStr (cx_strategy (cb_config b))) (io_state s))\<rparr>"
  have n: "compacted_steps (io_state s0) = compacted_steps (io_state s)"
    by (simp add: s0_def compacted_steps_def record_memory_injection_def mget_mset)
  have "cx_layout (cb_config b) \<in> {''append'', ''epoch'', ''append_until_compaction''}" using assms(1) by (auto simp: budget_driven_def)
  with assms obtain k where "fst (append_messages b (drop (nat (max (compacted_steps (io_state s)) 0)) trajectory) s0) = Inr (ms, k)"
    by (auto simp: build_messages_def Let_def then_io_def set_metric_def state_io_def get_state_def ret_io_def s0_def [symmetric] n
        active_trajectory_def split: sum.splits prod.splits)
  moreover have "fst (prompt_header b s) = fst (append_messages b [] s0)"
    by (simp add: prompt_header_def then_io_def set_metric_def state_io_def s0_def)
  ultimately show ?thesis
    by (subst (asm) append_layout) (auto split: sum.splits prod.splits)
qed

lemma build_returns:
  assumes "append_messages b (active_trajectory (cb_config b) (io_state s0) trajectory) s0 = (Inr (ms, n), s1)"
    and "s0 = s\<lparr>io_state := record_memory_injection (mset ''context_compaction_strategy'' (JStr (cx_strategy (cb_config b))) (io_state s))\<rparr>"
    and "int_div (mget (metrics (io_state s1)) ''prompt_chars_total'' + messages_len ms)
           (mget (metrics (io_state s1)) ''prompt_char_samples'' + 1) = Inr x"
    and "budget_driven (cb_config b)"
  shows "fst (build_messages b trajectory s) = Inr ms"
proof -
  have "cx_layout (cb_config b) \<in> {''append'', ''epoch'', ''append_until_compaction''}" using assms(4) by (auto simp: budget_driven_def)
  with assms show ?thesis
    by (simp add: build_messages_def then_io_def set_metric_def state_io_def get_state_def ret_io_def record_prompt_metrics_def
        get_previous_def update_state_def prompt_metrics_def prompt_size_metrics_def Let_def remember_messages_def split: prod.split)
qed

text \<open>A run with two steps and no memory database.\<close>

definition sample_step :: "string \<Rightarrow> trajectory_step" where
  "sample_step t = \<lparr>ts_action = None, ts_observation = (obs ''bash'')\<lparr>ob_message := t\<rparr>, ts_state_snapshot = []\<rparr>"

definition sample_context :: "string \<Rightarrow> context_builder" where
  "sample_context layout =
     \<lparr>cb_config = default_context\<lparr>cx_layout := layout, cx_recent_turns := 1\<rparr>, cb_skills = None, cb_feedback = None, cb_compactor = None,
      cb_store = None, cb_memory_max_results = 5, cb_memory_max_chars = 100, cb_memory_max_total = 500, cb_prefix = (\<lambda>p. ''agent''),
      cb_sha256 = (\<lambda>t. ''sha'')\<rparr>"

definition sample_two :: agent_io where
  "sample_two = sample_io\<lparr>io_state := sample_run_state\<lparr>metrics := []\<rparr>\<rparr>"

text \<open>With nothing but a goal, the prompt is the system prefix, the goal and the steps.\<close>

definition bare :: "context_builder \<Rightarrow> run_state \<Rightarrow> bool" where
  "bare b st =
     (cb_skills b = None \<and> cb_feedback b = None \<and> cb_store b = None \<and> working_memory st = [] \<and> prompt_namespace st = [] \<and>
      repository_profile st = [] \<and> project_guide st = [] \<and> constraints st = [] \<and> session_history st = [] \<and> state_summary st = [])"

lemma bare_append:
  assumes "bare b (io_state s)"
  shows "\<exists>s1. append_messages b trajectory s =
      (Inr ([(''system'', cb_prefix b (case jget (metrics (io_state s)) ''profile'' of JStr p \<Rightarrow> p | _ \<Rightarrow> [])),
             (''user'', join [nl, nl] (goal_lines (io_state s)))] @ concat (map (step_messages (cb_config b)) trajectory), 2), s1) \<and>
    mget (metrics (io_state s1)) ''prompt_chars_total'' = mget (metrics (io_state s)) ''prompt_chars_total'' \<and>
    mget (metrics (io_state s1)) ''prompt_char_samples'' = mget (metrics (io_state s)) ''prompt_char_samples''"
proof -
  have layers: "l1_memory_context b = ret_io []" "l3_persona_context b = then_io (set_metric ''l3_persona_injected'' (JInt 0)) (\<lambda>_. ret_io [])"
      "l2_scenario_context b = then_io (set_metric ''l2_scenarios_injected'' (JInt 0)) (\<lambda>_. ret_io [])"
    using assms by (simp_all add: bare_def l1_memory_context_def l3_persona_context_def l2_scenario_context_def manual_persona_entries_def
        count_metric_def then_ret Let_def)
  show ?thesis
    using assms
    by (simp add: bare_def append_messages_def system_prefix_def layers stable_run_context_def instruction_context_def skill_selection_def
        record_catalog_def record_guidance_def then_io_def get_state_def ret_io_def lift_io_def state_io_def set_metric_def
        nonempty_texts_def working_memory_context_def Let_def namespace_line_def repository_context_def goal_lines_def
        session_history_messages_def bullet_lines_def mset_def jget_def update_conv' mget_def)
qed

lemma bare_builds:
  assumes "bare b (io_state s)" "budget_driven (cb_config b)" "metrics (io_state s) = []"
    and "int_div (messages_len ([(''system'', cb_prefix b []), (''user'', join [nl, nl] (goal_lines (io_state s)))] @
           concat (map (step_messages (cb_config b)) trajectory))) 1 = Inr x"
  shows "\<exists>ms. fst (build_messages b trajectory s) = Inr ms"
proof -
  define s0 where "s0 = s\<lparr>io_state := record_memory_injection (mset ''context_compaction_strategy'' (JStr (cx_strategy (cb_config b))) (io_state s))\<rparr>"
  have s0: "bare b (io_state s0)" "goal_lines (io_state s0) = goal_lines (io_state s)"
      "metrics (io_state s0) = [(''context_compaction_strategy'', JStr (cx_strategy (cb_config b)))]"
    using assms(1,3) by (simp_all add: s0_def record_memory_injection_def bare_def mset_def goal_lines_def)
  obtain s1 where s1: "append_messages b (active_trajectory (cb_config b) (io_state s0) trajectory) s0 =
      (Inr ([(''system'', cb_prefix b []), (''user'', join [nl, nl] (goal_lines (io_state s)))] @
        concat (map (step_messages (cb_config b)) trajectory), 2), s1)"
      "mget (metrics (io_state s1)) ''prompt_chars_total'' = 0" "mget (metrics (io_state s1)) ''prompt_char_samples'' = 0"
    using bare_append [OF s0(1), of trajectory] s0(2,3) assms(2)
    by (auto simp: active_trajectory_def compacted_steps_def mget_def)
  show ?thesis
    using build_returns [OF s1(1) s0_def, of x] s1(2,3) assms(2,4) by simp
qed

lemma messages_len_append: "messages_len (xs @ ys) = messages_len xs + messages_len ys"
  by (simp add: messages_len_def)

lemma messages_len_pair: "messages_len [(a, x), (c, y)] = int (length x) + int (length y)" "messages_len [] = 0"
  by (simp_all add: messages_len_def)

lemma sample_parts:
  "cb_prefix (sample_context ''epoch'') [] = ''agent''" "goal_lines (io_state sample_two) = [''Goal: fix'', ''Run status: running'']"
  "step_messages (cb_config (sample_context ''epoch'')) (sample_step [c]) =
      [(''assistant'', ''<protocol_error>''),
       (''user'', ''Observation:'' @ [nl] @ join [nl] [''kind=bash'', ''exit_code=None'', ''message='' @ [c], ''stdout_preview='', ''stderr_preview=''])]"
  by (simp_all add: sample_context_def sample_two_def sample_run_state_def start_state_def goal_lines_def step_messages_def sample_step_def
      obs_def format_observation_def default_context_def trim_text_def action_text_def int_or_none_text_def preview_line_def)

lemma int_div_exact:
  assumes "0 \<le> n" "n \<le> 2 ^ 53"
  shows "int_div n 1 = Inr (Fin (of_int n))"
  using f64_exact [OF _ representable_int [OF assms] representable_below_max [OF representable_int [OF assms]]] assms
  by (simp add: int_div_def)

lemma sample_figures:
  "int_div (messages_len ([(''system'', cb_prefix (sample_context ''epoch'') []), (''user'', join [nl, nl] (goal_lines (io_state sample_two)))] @
     concat (map (step_messages (cb_config (sample_context ''epoch''))) [sample_step ''a'']))) 1 = Inr (Fin 130)"
  "int_div (messages_len ([(''system'', cb_prefix (sample_context ''epoch'') []), (''user'', join [nl, nl] (goal_lines (io_state sample_two)))] @
     concat (map (step_messages (cb_config (sample_context ''epoch''))) [sample_step ''a'', sample_step ''b'']))) 1 = Inr (Fin 225)"
  by (simp only: sample_parts list.map concat.simps messages_len_append messages_len_pair, simp add: int_div_exact)+

lemma sample_builds:
  "\<exists>ms. fst (build_messages (sample_context ''epoch'') [sample_step ''a''] sample_two) = Inr ms"
  "\<exists>ms. fst (build_messages (sample_context ''epoch'') [sample_step ''a'', sample_step ''b''] sample_two) = Inr ms"
proof -
  have bare: "bare (sample_context ''epoch'') (io_state sample_two)" "budget_driven (cb_config (sample_context ''epoch''))"
      "metrics (io_state sample_two) = []"
    by (simp_all add: bare_def sample_two_def sample_context_def sample_run_state_def start_state_def budget_driven_def)
  from bare_builds [OF bare sample_figures(1)] bare_builds [OF bare sample_figures(2)]
  show "\<exists>ms. fst (build_messages (sample_context ''epoch'') [sample_step ''a''] sample_two) = Inr ms"
    "\<exists>ms. fst (build_messages (sample_context ''epoch'') [sample_step ''a'', sample_step ''b''] sample_two) = Inr ms" .
qed

subsection \<open>A compaction that succeeds\<close>

definition sure :: "'a io \<Rightarrow> bool" where
  "sure m = (\<forall>s. working_memory (io_state s) = [] \<longrightarrow> (\<exists>x s'. m s = (Inr x, s') \<and> working_memory (io_state s') = []))"

named_theorems sure_intros \<open>operations that return, for a run without working memory\<close>

lemma sure_ret [sure_intros]: "sure (ret_io x)" "sure (lift_io (Inr x))" "sure get_state"
  by (simp_all add: sure_def ret_io_def lift_io_def get_state_def)

lemma sure_then [sure_intros]: "sure m \<Longrightarrow> (\<And>x. sure (f x)) \<Longrightarrow> sure (then_io m f)"
  unfolding sure_def then_io_def by (metis (no_types, lifting) old.prod.case sum.case(2))

lemma sure_if [sure_intros]: "(c \<Longrightarrow> sure m) \<Longrightarrow> (\<not> c \<Longrightarrow> sure n) \<Longrightarrow> sure (if c then m else n)"
  by simp

lemma sure_state [sure_intros]: "(\<And>st. working_memory (f st) = working_memory st) \<Longrightarrow> sure (state_io f)"
  by (simp add: sure_def state_io_def)

lemma sure_update:
  "(\<And>st. \<exists>st'. f st = Inr st' \<and> working_memory st' = working_memory st) \<Longrightarrow> sure (update_state f)"
  unfolding sure_def
proof (intro allI impI)
  fix s :: agent_io
  assume f: "\<And>st. \<exists>st'. f st = Inr st' \<and> working_memory st' = working_memory st" and "working_memory (io_state s) = []"
  with f [of "io_state s"] show "\<exists>x s'. update_state f s = (Inr x, s') \<and> working_memory (io_state s') = []"
    by (auto simp: update_state_def)
qed

lemma sure_metric [sure_intros]: "sure (set_metric k v)" "sure (count_metric k xs)"
  unfolding count_metric_def set_metric_def by (intro sure_state; simp add: mset_def)+

lemma sure_set_summary [sure_intros]: "sure (set_summary t)"
  unfolding set_summary_def by (intro sure_state) simp

text \<open>Measuring a prompt without skills, feedback and memory database.\<close>

definition plain_context :: "context_builder \<Rightarrow> bool" where
  "plain_context b = (cb_skills b = None \<and> cb_feedback b = None \<and> cb_store b = None)"

lemma sure_instructions: "plain_context b \<Longrightarrow> sure (instruction_context b)"
  unfolding sure_def
  by (auto simp: instruction_context_def plain_context_def skill_selection_def record_catalog_def record_guidance_def then_io_def get_state_def
      state_io_def lift_io_def ret_io_def working_memory_context_def Let_def mset_def)

lemma sure_measured:
  assumes "plain_context b"
  shows "sure (measured b trajectory)"
proof -
  have layers: "l1_memory_context b = ret_io []" "sure (l3_persona_context b)" "sure (l2_scenario_context b)"
    using assms by (auto simp: plain_context_def l1_memory_context_def l3_persona_context_def l2_scenario_context_def Let_def intro!: sure_intros)
  show ?thesis
    unfolding measured_def rebuild_messages_def system_prefix_def dynamic_context_def layers(1) Let_def
    by (intro sure_intros layers sure_instructions [OF assms])
qed

lemma retention_returns: "\<exists>st'. record_retention ms active st = Inr st' \<and> working_memory st' = working_memory st"
proof -
  let ?n = "length (filter (contains active) ms)"
  have "\<exists>v. retention_rate ?n (length ms) = Inr v"
    using int_div_unit [of "int ?n" "int (length ms)"] by (auto simp: retention_rate_def ratio_def)
  then show ?thesis by (auto simp: record_retention_def Let_def mset_all_def mset_def)
qed

lemma sure_apply:
  assumes "plain_context b" "cx_strategy (cb_config b) = ''deterministic''" "\<not> budget_driven (cb_config b)"
  shows "sure (apply_compaction b trajectory compacted stop before_chars)"
proof -
  have rollover: "sure (update_state (rollover_metrics (cb_config b)))"
    using assms(3) by (intro sure_update) (simp add: rollover_metrics_def)
  have retention: "sure (update_state (\<lambda>st. record_retention (ms st) (active st) st))" for ms active
    by (intro sure_update retention_returns)
  have recorded: "sure (state_io (bump k))" "sure (state_io (record_markers ms))" "sure (state_io (compaction_size_metrics c i e))"
      "sure (state_io (\<lambda>st. record_compaction message strategy (details st) st))" for k ms c i e message strategy details
    by (intro sure_state; simp add: record_markers_def compaction_size_metrics_def record_compaction_def Let_def mset_def add_metric_def)+
  show ?thesis
    unfolding apply_compaction_def summarized_def fit_summary_def Let_def
    by (simp add: assms(2,3), intro conjI impI sure_intros sure_measured assms(1) rollover retention recorded)
qed

text \<open>Where there is something to compact, the counter rises.\<close>

lemma force_compact_succeeds:
  assumes "plain_context b" "cx_strategy (cb_config b) = ''deterministic''" "\<not> budget_driven (cb_config b)" "bound_window (cb_config b) = None"
    and "working_memory (io_state s) = []" "0 \<le> compacted_steps (io_state s)"
    and "compacted_steps (io_state s) < int (length trajectory) - max (cx_recent_turns (cb_config b)) 0"
  shows "\<exists>s'. force_compact b trajectory s = (Inr True, s')"
proof -
  let ?c = "compacted_steps (io_state s)" and ?stop = "int (length trajectory) - max (cx_recent_turns (cb_config b)) 0"
  have more: "trajectory \<noteq> []" "\<not> int (length trajectory) \<le> ?c" "\<not> ?stop \<le> ?c" using assms(6,7) by auto
  obtain ms s1 where m: "measured b (py_from ?c trajectory) s = (Inr ms, s1)" "working_memory (io_state s1) = []"
    using sure_measured [OF assms(1)] assms(5) unfolding sure_def by blast
  obtain s2 where a: "apply_compaction b trajectory ?c ?stop (messages_len ms) s1 = (Inr (), s2)"
    using sure_apply [OF assms(1-3)] m(2) unfolding sure_def by (metis old.unit.exhaust)
  have e: "compactable_end b trajectory ?c s1 = (Inr ?stop, s1)"
    using assms(3,4) by (simp add: compactable_end_def then_ret ret_io_def)
  have run: "force_compact b trajectory s =
      (Inr (mget (metrics (io_state s1)) ''context_compactions'' < mget (metrics (io_state s2)) ''context_compactions''), s2)"
    using more m(1) a e assms(2) by (simp add: force_compact_def Let_def then_io_def get_state_def ret_io_def)
  have "py_slice ?c ?stop trajectory \<noteq> []" using assms(6) more by (intro slice_nonempty) auto
  from apply_leads [OF this] a have "boundary (io_state s2) = (fst (boundary (io_state s1)) + 1, ?stop)"
    unfolding leads_def boundary_def by (metis fst_conv)
  with run show ?thesis by (simp add: boundary_def)
qed


section \<open>Properties\<close>

text \<open>C13: Preparing a prompt changes of the run only metrics of the context and, when compacting, the summary: building one keeps
  the boundary of the compaction, and neither building nor compacting writes to the long-term memory.\<close>

theorem prompt_only_prepares:
  "context_step layer_keys s (snd (build_messages b trajectory s)) \<and>
   context_step context_keys s (snd (maybe_compact b trajectory s)) \<and>
   context_step context_keys s (snd (force_compact b trajectory s))"
  using build_context maybe_compact_keeps force_compact_keeps by (simp add: keeps_def)

text \<open>C14: A forced compaction reports success exactly when one more compaction moved the boundary forward, to a step of the
  trajectory; otherwise the boundary is where it was. A compaction on demand does one or the other.\<close>

theorem compaction_progress:
  assumes "0 \<le> compacted_steps (io_state s)" "compacted_steps (io_state s) < int (length trajectory)"
  shows "(case force_compact b trajectory s of
           (Inr True, s') \<Rightarrow> advanced (boundary (io_state s)) (int (length trajectory)) (boundary (io_state s'))
         | (Inr False, s') \<Rightarrow> boundary (io_state s') = boundary (io_state s)
         | (Inl err, s') \<Rightarrow> True) \<and>
    (case maybe_compact b trajectory s of
           (Inr _, s') \<Rightarrow> boundary (io_state s') = boundary (io_state s) \<or>
             advanced (boundary (io_state s)) (int (length trajectory)) (boundary (io_state s'))
         | (Inl err, s') \<Rightarrow> True)"
  using force_compact_progress [of b trajectory s] maybe_compact_progress [of b trajectory s] assms
  by (auto split: prod.splits sum.splits bool.splits)

theorem compaction_progress_witness:
  "\<exists>s'. force_compact (sample_context ''rebuild'') [sample_step ''a'', sample_step ''b''] sample_two = (Inr True, s') \<and>
     advanced (0, 0) 2 (boundary (io_state s'))"
proof -
  let ?b = "sample_context ''rebuild''" and ?t = "[sample_step ''a'', sample_step ''b'']"
  have start: "boundary (io_state sample_two) = (0, 0)" "compacted_steps (io_state sample_two) = 0"
    by (simp_all add: boundary_def compacted_steps_def mget_def sample_two_def)
  have "plain_context ?b" "cx_strategy (cb_config ?b) = ''deterministic''" "\<not> budget_driven (cb_config ?b)" "bound_window (cb_config ?b) = None"
      "working_memory (io_state sample_two) = []" "cx_recent_turns (cb_config ?b) = 1"
    by (simp_all add: plain_context_def sample_context_def budget_driven_def bound_window_def default_context_def sample_two_def
        sample_run_state_def start_state_def)
  then obtain s' where "force_compact ?b ?t sample_two = (Inr True, s')"
    using force_compact_succeeds [of ?b sample_two ?t] start by auto
  then show ?thesis using compaction_progress [of sample_two ?t ?b] start by auto
qed



end
