(* ===== verification/Loop.thy ===== *)
theory Loop
  imports Context Tooling Workflow
begin

text \<open>
  The agent loop (\<^verbatim>\<open>core/loop.py\<close>), the start and the end of a run (\<^verbatim>\<open>core/lifecycle.py\<close>) and the files a run
  leaves behind (\<^verbatim>\<open>trace/metrics.py\<close>, the JSON report of \<^verbatim>\<open>trace/report.py\<close>).

  This is where the parts meet: a pass of the loop compacts the history if needed and builds the prompt
  (\<open>Context\<close>), asks a source of turns for an action (\<open>Turns\<close>), and hands it to the scheduler of tool
  calls (\<open>Tooling\<close>), the coordinator of child runs (\<open>Workflow\<close>) or the action handler (\<open>Handler\<close>),
  saving the run and a checkpoint (\<open>Session\<close>, \<open>Checkpoint\<close>) after every step. The state of all of them is the
  record \<open>agent\<close>; the parts themselves, with the clock, are the record \<open>agent_loop\<close>.

  A pass is \<open>None\<close> when the source of turns does not return, an exception that ends the run, or the
  agent with whether the loop goes on. The loop is a partial function: a run without a limit need not
  end. Results: with a limit on the turns, and a source of turns that answers, a run ends, within the
  limit; a run that ends is not running any more; and the trajectory only grows. Each rests on the
  contract \<open>turn_provider\<close> of \<open>Turns\<close>, not on which of the three sources of turns is used.
\<close>

section \<open>The parts of an agent\<close>

record loop_config =
  lc_max_seconds :: int
  lc_max_turns :: int
  lc_interrupt_after :: "int option"
  lc_profile :: string
  lc_max_parallel :: int
  lc_max_calls :: int

definition default_loop :: loop_config where
  "default_loop = \<lparr>lc_max_seconds = 0, lc_max_turns = 0, lc_interrupt_after = None, lc_profile = ''baseline-bash'',
     lc_max_parallel = 4, lc_max_calls = 16\<rparr>"

record agent_loop =
  al_config :: loop_config
  al_turn :: "json \<Rightarrow> run_state \<Rightarrow> runner \<Rightarrow> turn_result option"
  al_builder :: context_builder
  al_handler :: handler
  al_env :: env
  al_manager :: "checkpoint_manager option"
  al_scheduler :: "scheduler option"
  al_coordinator :: "world coordinator option"
  al_workflow_id :: "world \<Rightarrow> string \<times> world" \<comment> \<open>a fresh id for a workflow\<close>
  al_elapsed :: "nat \<Rightarrow> rat" \<comment> \<open>seconds since the loop started, at the n-th pass\<close>
  al_duration_ms :: int \<comment> \<open>milliseconds from the start of the run to its end\<close>

record agent =
  ag_io :: agent_io
  ag_errors :: int \<comment> \<open>protocol errors the runner has counted\<close>
  ag_world :: world
  ag_lease :: lease
  ag_steps :: "trajectory_step list"

type_synonym 'a raised = "checkpoint_exn + 'a"

abbreviation run_of :: "agent \<Rightarrow> run_state" where
  "run_of a \<equiv> io_state (ag_io a)"

definition with_run :: "(run_state \<Rightarrow> run_state) \<Rightarrow> agent \<Rightarrow> agent" where
  "with_run f a = a\<lparr>ag_io := (ag_io a)\<lparr>io_state := f (io_state (ag_io a))\<rparr>\<rparr>"

definition do_io :: "'a io \<Rightarrow> agent \<Rightarrow> ('a \<times> agent) raised" where
  "do_io m a = (case m (ag_io a) of (Inl err, s) \<Rightarrow> Inl (Raised err) | (Inr x, s) \<Rightarrow> Inr (x, a\<lparr>ag_io := s\<rparr>))"

definition checkpointed :: "agent_loop \<Rightarrow> string \<Rightarrow> agent \<Rightarrow> agent raised" where \<comment> \<open>\<^verbatim>\<open>_checkpoint\<close>\<close>
  "checkpointed al reason a =
     (case al_manager al of
        None \<Rightarrow> Inr a
      | Some m \<Rightarrow>
          bind_res (create_checkpoint m (run_of a) (ag_steps a) reason (ag_world a)) (\<lambda>(path, st, w).
            Inr ((with_run (\<lambda>_. st) a)\<lparr>ag_world := w\<rparr>)))"

definition saved :: "agent_loop \<Rightarrow> agent \<Rightarrow> agent" where
  "saved al a = a\<lparr>ag_world := session_save (al_env al) (run_of a) (ag_world a)\<rparr>"

definition add_step :: "action option \<Rightarrow> observation \<Rightarrow> agent \<Rightarrow> agent" where
  "add_step action ob a =
     a\<lparr>ag_steps := ag_steps a @ [\<lparr>ts_action = action, ts_observation = ob, ts_state_snapshot = state_snapshot_text (run_of a)\<rparr>]\<rparr>"

definition should_interrupt :: "agent_loop \<Rightarrow> agent \<Rightarrow> bool" where
  "should_interrupt al a = (case lc_interrupt_after (al_config al) of None \<Rightarrow> False | Some n \<Rightarrow> n \<le> int (length (ag_steps a)))"

definition interrupted :: "agent_loop \<Rightarrow> agent \<Rightarrow> agent raised" where \<comment> \<open>\<^verbatim>\<open>_interrupt\<close>\<close>
  "interrupted al a =
     bind_res
       (checkpointed al ''controlled_interrupt''
         (with_run (\<lambda>st. mset ''interrupted_after_steps'' (JInt (int (length (ag_steps a)))) (st\<lparr>status := ''interrupted''\<rparr>)) a))
       (\<lambda>a1. Inr (saved al a1))"

section \<open>The start and the end of a run\<close>

definition metrics_snapshot :: "run_state \<Rightarrow> jdict" where
  "metrics_snapshot st =
     fold (\<lambda>(k, v). AList.update k v)
       [(''schema_version'', JInt 2), (''run_id'', JStr (run_id st)), (''suite_id'', opt_str (suite_id st)), (''milestone'', JStr (milestone st)),
        (''stage'', JStr (stage st)), (''status'', JStr (status st)), (''final_answer_present'', JBool (final_answer st \<noteq> None))]
       (metrics st)"

definition evidence_path :: "string option \<Rightarrow> string \<Rightarrow> json" where
  "evidence_path parent name = JStr (case parent of None \<Rightarrow> name | Some p \<Rightarrow> p @ ''/'' @ name)"

definition run_report_snapshot :: "run_state \<Rightarrow> jdict" where
  "run_report_snapshot st =
     (let adir = (case artifacts_dir st of Some d \<Rightarrow> Some d | None \<Rightarrow> map_option (\<lambda>d. d @ ''/artifacts'') (run_dir st)) in
      [(''schema_version'', JInt 2), (''entity_type'', JStr ''run_report''), (''run_id'', JStr (run_id st)),
       (''suite_id'', opt_str (suite_id st)), (''milestone'', JStr (milestone st)), (''stage'', JStr (stage st)),
       (''goal'', JStr (rs_goal st)), (''status'', JStr (status st)),
       (''result'', JStr (if status st = ''completed'' then ''PASS'' else if status st = ''failed'' then ''FAIL'' else ''UNKNOWN'')),
       (''task_success'', JNull),
       (''agent_success'', if status st \<in> {''completed'', ''failed''} then JBool (status st = ''completed'') else JNull),
       (''infrastructure_success'',
          JBool (mget (metrics st) ''provider_errors'' = 0 \<and> mget (metrics st) ''infrastructure_errors'' = 0)),
       (''policy_outcome'', JStr (if mget (metrics st) ''policy_denials'' \<noteq> 0 then ''denied'' else ''clear'')),
       (''passed'', JBool (status st = ''completed'')), (''final_answer'', opt_str (final_answer st)),
       (''state_summary'', JStr (state_summary st)), (''metrics'', JDict (metrics st)),
       (''evidence'', JDict
          [(''state'', evidence_path (run_dir st) ''state.json''), (''trace'', evidence_path (run_dir st) ''trace.jsonl''),
           (''metrics'', evidence_path (run_dir st) ''metrics.json''), (''diff'', evidence_path adir ''diff.patch''),
           (''workspace_manifest'', evidence_path (run_dir st) ''workspace_manifest.json''),
           (''latest_checkpoint'', evidence_path (run_dir st) ''checkpoints/latest.json'')])])"

definition write_metrics :: "run_state \<Rightarrow> world \<Rightarrow> world" where
  "write_metrics st w =
     (case run_dir st of None \<Rightarrow> w | Some d \<Rightarrow> w\<lparr>docs := (docs w)(d @ ''/metrics.json'' \<mapsto> metrics_snapshot st)\<rparr>)"

text \<open>The Markdown rendering of the report, in Chinese, is left out.\<close>

definition write_run_report :: "run_state \<Rightarrow> world \<Rightarrow> world" where
  "write_run_report st w =
     (case run_dir st of None \<Rightarrow> w | Some d \<Rightarrow> w\<lparr>docs := (docs w)(d @ ''/run_report.json'' \<mapsto> run_report_snapshot st)\<rparr>)"

text \<open>\<^verbatim>\<open>RunLifecycle\<close>: the duration before this run is the value of \<open>lifecycle_start\<close>.\<close>

definition lifecycle_start :: "agent_loop \<Rightarrow> bool \<Rightarrow> agent \<Rightarrow> int \<times> agent" where
  "lifecycle_start al restarted a =
     (if restarted then (mget (metrics (run_of a)) ''total_duration_ms'', a)
      else (0, (with_run (mset ''started_at'' (JStr (now (al_env al) (ag_world a)))) a)\<lparr>ag_world := tick (ag_world a)\<rparr>))"

definition lifecycle_finish :: "agent_loop \<Rightarrow> int \<Rightarrow> agent \<Rightarrow> agent" where
  "lifecycle_finish al base a =
     (let st = mset ''total_duration_ms'' (JInt (base + al_duration_ms al))
                 (mset ''completed_at'' (JStr (now (al_env al) (ag_world a))) (run_of a));
          w = tick (ag_world a);
          w1 = (if status st = ''completed'' then snd (write_working_memory_snapshot st w) else w)
      in (with_run (\<lambda>_. st) a)\<lparr>ag_world := write_run_report st (write_metrics st w1)\<rparr>)"

section \<open>One pass\<close>

text \<open>The answer of the source of turns; it may also send requests of its own.\<close>

definition take_turn :: "agent_loop \<Rightarrow> messages \<Rightarrow> agent \<Rightarrow> ((llm_failure + model_turn) \<times> agent) raised option" where
  "take_turn al ms a =
     (case al_turn al (chat ms) (run_of a) \<lparr>rn_protocol_errors = ag_errors a, rn_requests = io_requests (ag_io a)\<rparr> of
        None \<Rightarrow> None
      | Some (Inl err) \<Rightarrow> Some (Inl (Raised err))
      | Some (Inr (x, st, rn)) \<Rightarrow>
          Some (Inr (x, a\<lparr>ag_io := (ag_io a)\<lparr>io_state := st, io_requests := rn_requests rn\<rparr>, ag_errors := rn_protocol_errors rn\<rparr>)))"

text \<open>After a failure of the provider: whether a forced compaction lets the loop try again.\<close>

definition provider_failed :: "llm_failure \<Rightarrow> run_state \<Rightarrow> run_state" where
  "provider_failed f st = session_fail (''Run failed because the model provider failed: '' @ lf_message f) st"

definition count_failure :: "llm_failure \<Rightarrow> run_state \<Rightarrow> run_state" where
  "count_failure f st = mset ''provider_last_error_code'' (JStr (lf_code f)) (bump ''provider_errors'' st)"

definition recover :: "agent_loop \<Rightarrow> llm_failure \<Rightarrow> agent \<Rightarrow> (bool \<times> agent) raised" where
  "recover al f a =
     (let a1 = with_run (count_failure f) a;
          retries = mget (metrics (run_of a1)) ''context_overflow_retries''
      in if lf_code f = ''CONTEXT_OVERFLOW'' \<and> retries < cx_max_overflow_retries (cb_config (al_builder al)) then
           bind_res (do_io (force_compact (al_builder al) (ag_steps a1)) a1) (\<lambda>(compacted, a2).
             if compacted then
               Inr (True, with_run (\<lambda>st. bump ''context_overflow_recovered'' (mset ''context_overflow_retries'' (JInt (retries + 1)) st)) a2)
             else Inr (False, with_run (provider_failed f) a2))
         else Inr (False, with_run (provider_failed f) a1))"

definition wrong_profile :: "action \<Rightarrow> string \<Rightarrow> agent \<Rightarrow> agent" where
  "wrong_profile action message a =
     with_run (bump ''protocol_errors'') (add_step (Some action) ((obs ''protocol_error'')\<lparr>ob_message := message\<rparr>) a)"

definition result_entry :: "tool_result \<Rightarrow> json" where
  "result_entry r = JDict
     [(''call_id'', JStr (tr_call_id r)), (''tool'', JStr (tr_tool r)), (''model_order'', JInt (int (tr_model_order r))),
      (''is_error'', JBool (tr_is_error r)), (''content'', JDict (tr_content r))]"

definition calls_observation :: "tool_result list \<Rightarrow> observation" where
  "calls_observation rs =
     (let failed = list_ex tr_is_error rs
      in (obs (if failed then ''command_error'' else ''command_result''))
           \<lparr>ob_exit_code := (if failed then None else Some 0), ob_stdout_preview := dumps (JList (map result_entry rs)),
            ob_message := ''Ordered tool results.'', ob_duration_ms := (\<Sum>r \<leftarrow> rs. tr_duration_ms r)\<rparr>)"

definition count_calls :: "loop_config \<Rightarrow> tool_result list \<Rightarrow> run_state \<Rightarrow> run_state" where
  "count_calls c rs st =
     fold (\<lambda>r. bump (tr_tool r @ ''_tool_calls'')) rs
       (mset ''max_parallel_tool_calls'' (JInt (lc_max_parallel c))
         (add_metric ''tool_calls'' (int (length rs)) (bump ''tool_call_steps'' st)))"

text \<open>A step that is recorded, remembered as the last observation, saved and followed by a checkpoint.\<close>

definition recorded :: "agent_loop \<Rightarrow> action \<Rightarrow> observation \<Rightarrow> string \<Rightarrow> agent \<Rightarrow> agent raised" where
  "recorded al action ob reason a =
     checkpointed al reason (saved al (with_run (\<lambda>st. st\<lparr>last_observation := Some ob\<rparr>) (add_step (Some action) ob a)))"

definition tool_calls_step :: "agent_loop \<Rightarrow> tool_call list \<Rightarrow> agent \<Rightarrow> agent raised" where
  "tool_calls_step al calls a =
     (case (al_scheduler al, lc_profile (al_config al) = ''hybrid-v3.6'') of
        (Some s, True) \<Rightarrow>
          (case dispatch s calls (run_of a) (ag_world a) of
             (rs, st, w) \<Rightarrow>
               recorded al (ToolCallsAction calls) (calls_observation rs) ''tool_calls_completed''
                 ((with_run (\<lambda>_. count_calls (al_config al) rs st) a)\<lparr>ag_world := w\<rparr>))
      | _ \<Rightarrow> Inr (wrong_profile (ToolCallsAction calls) ''tool_calls require the hybrid-v3.6 profile.'' a))"

definition count_status :: "string set \<Rightarrow> workflow_result \<Rightarrow> int" where
  "count_status stats outcome = int (length (filter (\<lambda>r. ch_status r \<in> stats) (wf_results outcome)))"

definition count_children :: "delegate_task list \<Rightarrow> workflow_result \<Rightarrow> run_state \<Rightarrow> run_state" where
  "count_children ts outcome st =
     (let st1 = add_metric ''child_runs_cancelled'' (count_status {''cancelled'', ''timeout''} outcome)
                  (add_metric ''child_runs_failed'' (count_status {''failed''} outcome)
                    (add_metric ''child_runs_completed'' (count_status {''completed''} outcome)
                      (add_metric ''child_runs_started'' (int (length ts)) st)))
      in mset ''max_concurrent_children''
           (JInt (max (mget (metrics st1) ''max_concurrent_children'') (int (wf_max_concurrent outcome)))) st1)"

definition workflow_observation :: "workflow_result \<Rightarrow> observation" where
  "workflow_observation outcome =
     (obs (if wf_status outcome = ''completed'' then ''command_result'' else ''command_error''))
       \<lparr>ob_stdout_preview := dumps (JDict (summary_observation outcome)), ob_message := ''Workflow summary observation.''\<rparr>"

definition delegate_step :: "agent_loop \<Rightarrow> delegate_task list \<Rightarrow> string \<Rightarrow> string \<Rightarrow> agent \<Rightarrow> agent raised" where
  "delegate_step al ts jn intent a =
     (case (al_coordinator al, lc_profile (al_config al) = ''multi-agent-v4'') of
        (Some c, True) \<Rightarrow>
          (let a1 = with_run (\<lambda>st. bump ''workflow_count'' (bump ''delegate_steps'' st)) a;
               st = run_of a1;
               (wid, w) = al_workflow_id al (ag_world a1);
               root = (case root_run_id st of Some r \<Rightarrow> if r = [] then run_id st else r | None \<Rightarrow> run_id st)
           in case execute_workflow c \<lparr>rq_parent = run_id st, rq_root = root, rq_workflow = wid\<rparr> jn ts (ag_lease a1) w of
                (Inl err, l, w1) \<Rightarrow> Inl (Raised err)
              | (Inr outcome, l, w1) \<Rightarrow>
                  recorded al (DelegateAction ts jn intent) (workflow_observation outcome) ''workflow_completed''
                    ((with_run (count_children ts outcome) a1)\<lparr>ag_world := w1, ag_lease := l\<rparr>))
      | _ \<Rightarrow> Inr (wrong_profile (DelegateAction ts jn intent) ''delegate requires the multi-agent-v4 profile.'' a))"

definition checkpoint_reason :: "run_state \<Rightarrow> string" where
  "checkpoint_reason st =
     (if status st = ''waiting_approval'' then ''waiting_approval''
      else if status st = ''completed'' then ''run_completed''
      else ''action_completed'')"

definition action_step :: "agent_loop \<Rightarrow> action \<Rightarrow> agent \<Rightarrow> (bool \<times> agent) raised" where
  "action_step al action a =
     bind_res (raising (handle (al_handler al) action (run_of a) (ag_world a))) (\<lambda>(oc, st, w).
       let a1 = saved al ((with_run (\<lambda>_. st) a)\<lparr>ag_world := w, ag_steps := ag_steps a @ steps oc\<rparr>)
       in bind_res (checkpointed al (checkpoint_reason (run_of a1)) a1) (\<lambda>a2.
          bind_res (if status (run_of a2) = ''running'' \<and> should_interrupt al a2 then interrupted al a2 else Inr a2) (\<lambda>a3.
            Inr (should_continue oc, a3))))"

text \<open>What follows a turn: whether the loop goes on.\<close>

definition act :: "agent_loop \<Rightarrow> model_turn \<Rightarrow> agent \<Rightarrow> (bool \<times> agent) raised" where
  "act al t a =
     bind_res
       (case mt_observation t of
          None \<Rightarrow> Inr a
        | Some ob \<Rightarrow> checkpointed al ''model_observation_recorded'' (add_step (mt_action t) ob a))
       (\<lambda>a1.
         if \<not> mt_continue t \<or> status (run_of a1) \<noteq> ''running'' then Inr (False, a1)
         else
           (case mt_action t of
              None \<Rightarrow> Inr (True, a1)
            | Some (ToolCallsAction calls) \<Rightarrow> bind_res (tool_calls_step al calls a1) (\<lambda>a2. Inr (True, a2))
            | Some (DelegateAction ts jn intent) \<Rightarrow> bind_res (delegate_step al ts jn intent a1) (\<lambda>a2. Inr (True, a2))
            | Some action \<Rightarrow> action_step al action a1))"

definition out_of_time :: "agent_loop \<Rightarrow> nat \<Rightarrow> bool" where
  "out_of_time al n = (0 < lc_max_seconds (al_config al) \<and> of_int (lc_max_seconds (al_config al)) \<le> al_elapsed al n)"

definition out_of_turns :: "agent_loop \<Rightarrow> agent \<Rightarrow> bool" where
  "out_of_turns al a =
     (0 < lc_max_turns (al_config al) \<and> lc_max_turns (al_config al) \<le> mget (metrics (run_of a)) ''turns'')"

definition loop_pass :: "agent_loop \<Rightarrow> nat \<Rightarrow> agent \<Rightarrow> (bool \<times> agent) raised option" where
  "loop_pass al n a =
     (if out_of_time al n then Some (Inr (False, with_run (session_fail ''Run failed because max_seconds was exhausted.'') a))
      else if out_of_turns al a then Some (Inr (False, with_run (session_fail ''Run failed because max_turns was exhausted.'') a))
      else
        (case bind_res (do_io (maybe_compact (al_builder al) (ag_steps a)) a) (\<lambda>(_, a1).
                do_io (build_messages (al_builder al) (ag_steps a1)) a1) of
           Inl err \<Rightarrow> Some (Inl err)
         | Inr (ms, a2) \<Rightarrow>
             (case take_turn al ms a2 of
                None \<Rightarrow> None
              | Some (Inl err) \<Rightarrow> Some (Inl err)
              | Some (Inr (Inl f, a3)) \<Rightarrow> Some (recover al f a3)
              | Some (Inr (Inr t, a3)) \<Rightarrow> Some (act al t a3))))"

section \<open>The loop\<close>

partial_function (option) run_loop :: "agent_loop \<Rightarrow> nat \<Rightarrow> agent \<Rightarrow> agent raised option" where
  "run_loop al n a =
     (if status (run_of a) \<noteq> ''running'' then Some (Inr a)
      else
        (case loop_pass al n a of
           None \<Rightarrow> None
         | Some (Inl err) \<Rightarrow> Some (Inl err)
         | Some (Inr (again, a1)) \<Rightarrow> if again then run_loop al (Suc n) a1 else Some (Inr a1)))"

text \<open>\<^verbatim>\<open>run(state, trajectory)\<close>: the first part and the last part, around the loop.\<close>

definition begin_run :: "agent_loop \<Rightarrow> bool \<Rightarrow> agent \<Rightarrow> (int \<times> agent) raised" where
  "begin_run al restarted a =
     (let c = al_config al;
          (base, a1) = lifecycle_start al restarted
            (with_run (\<lambda>st. mset ''max_tool_calls_per_step'' (JInt (lc_max_calls c))
               (mset ''max_parallel_tool_calls'' (JInt (lc_max_parallel c)) (mset ''profile'' (JStr (lc_profile c)) st))) a)
      in bind_res (checkpointed al (if restarted then ''resume_started'' else ''run_started'') a1) (\<lambda>a2.
         bind_res (if should_interrupt al a2 then interrupted al a2 else Inr a2) (\<lambda>a3. Inr (base, a3))))"

definition end_run :: "agent_loop \<Rightarrow> int \<Rightarrow> agent \<Rightarrow> agent raised" where
  "end_run al base a =
     (let a1 = lifecycle_finish al base a
      in bind_res (if status (run_of a1) = ''interrupted'' then checkpointed al ''interrupted_finalized'' a1 else Inr a1) (\<lambda>a2.
         Inr (a2\<lparr>ag_world := save_if_bound (al_env al) (run_of a2) (ag_world a2)\<rparr>)))"

definition agent_run :: "agent_loop \<Rightarrow> run_state \<Rightarrow> trajectory_step list option \<Rightarrow> agent \<Rightarrow> agent raised option" where
  "agent_run al st trajectory a =
     (case begin_run al (trajectory \<noteq> None) ((with_run (\<lambda>_. st) a)\<lparr>ag_steps := (case trajectory of None \<Rightarrow> [] | Some t \<Rightarrow> t)\<rparr>) of
        Inl err \<Rightarrow> Some (Inl err)
      | Inr (base, a1) \<Rightarrow>
          (case run_loop al 0 a1 of
             None \<Rightarrow> None
           | Some (Inl err) \<Rightarrow> Some (Inl err)
           | Some (Inr a2) \<Rightarrow> Some (end_run al base a2)))"

section \<open>What the parts keep\<close>

text \<open>The two metrics the loop counts with.\<close>

definition loop_keys :: "string set" where
  "loop_keys = {''turns'', ''context_overflow_retries''}"

definition kept :: "run_state \<Rightarrow> run_state \<Rightarrow> bool" where
  "kept st st' = (\<forall>k \<in> loop_keys. mget (metrics st') k = mget (metrics st) k)"

named_theorems kept_intros \<open>operations that keep the counters of the loop\<close>

lemma kept_refl [simp]: "kept st st"
  by (simp add: kept_def)

lemma kept_trans [trans]: "kept a b \<Longrightarrow> kept b c \<Longrightarrow> kept a c"
  by (simp add: kept_def)

lemma kept_same: "metrics st1 = metrics st \<Longrightarrow> metrics st1' = metrics st' \<Longrightarrow> kept st1 st1' = kept st st'"
  by (simp add: kept_def)

lemma kept_set [kept_intros]: "kept st st' \<Longrightarrow> k \<notin> loop_keys \<Longrightarrow> kept st (mset k v st')"
  by (auto simp: kept_def mget_mset)

lemma kept_add [kept_intros]: "kept st st' \<Longrightarrow> k \<notin> loop_keys \<Longrightarrow> kept st (add_metric k n st')"
  unfolding add_metric_def by (rule kept_set)

lemma kept_only: "only_metrics K st st' \<Longrightarrow> K \<inter> loop_keys = {} \<Longrightarrow> kept st st'"
  unfolding kept_def by (auto intro: only_metrics_mget)

lemma kept_run: "same_run st st' \<Longrightarrow> kept st st'"
  by (auto simp: kept_def same_run_def loop_keys_def mget_def)

lemma kept_fields [simp]:
  "kept st (st'\<lparr>status := x1\<rparr>) = kept st st'" "kept st (st'\<lparr>final_answer := x2\<rparr>) = kept st st'"
  "kept st (st'\<lparr>last_observation := x3\<rparr>) = kept st st'" "kept st (st'\<lparr>memory_references := x4\<rparr>) = kept st st'"
  "kept st (st'\<lparr>pending_action := x5\<rparr>) = kept st st'" "kept st (st'\<lparr>approval_question := x6\<rparr>) = kept st st'"
  "kept st (st'\<lparr>open_questions := x7\<rparr>) = kept st st'" "kept st (st'\<lparr>approvals := x8\<rparr>) = kept st st'"
  "kept st (st'\<lparr>state_summary := x9\<rparr>) = kept st st'"
  by (simp_all add: kept_def)

lemma loop_key [simp]: "k \<in> loop_keys \<longleftrightarrow> k = ''turns'' \<or> k = ''context_overflow_retries''"
  by (simp add: loop_keys_def)

subsection \<open>The action handler\<close>

lemma kept_journaled:
  assumes "bash_executor ex" "journaled_run e ex a st w = Inr (ob, st', w')"
  shows "kept st st'" "status st' = status st \<or> status st' = ''failed''"
proof -
  have "same_run (st\<lparr>execution_journal := execution_journal st'\<rparr>) st' \<and> (status st' = status st \<or> status st' = ''failed'')"
    using journaled_run_result [OF assms(1), of e a st w] assms(2) by auto
  then show "kept st st'" "status st' = status st \<or> status st' = ''failed''" using kept_run by (auto simp: kept_def)
qed

lemma kept_io: "record_io_action cmd st = (b, st') \<Longrightarrow> kept st st'"
  by (rule kept_only [OF record_io_only]) (auto simp: io_keys_def loop_keys_def)

lemma kept_execution: "kept st (record_execution_metrics ob st)" "kept st (record_verification_metrics ob st)"
  by (rule kept_only [OF record_execution_only] kept_only [OF record_verification_only]; simp add: loop_keys_def)+

lemma kept_verification:
  assumes "bash_executor (h_exec h)" "execute_verification_action h a st w = Inr (ob, st', w')"
  shows "kept st st'"
  using assms(2) kept_journaled(1) [OF assms(1)] kept_execution(2) kept_trans
  by (fastforce simp: execute_verification_action_def Let_def split: if_splits)

lemma kept_verify_loop:
  assumes "bash_executor (h_exec h)"
  shows "verify_loop (execute_verification_action h) t cmds st w = Inr (r, st', w') \<Longrightarrow> kept st st'"
proof (induction cmds arbitrary: st w)
  case (Cons c cmds)
  then show ?case using kept_verification [OF assms] by (fastforce split: if_splits intro: kept_trans)
qed simp

lemma kept_handle_bash:
  assumes "bash_executor (h_exec h)" "handle_bash h a st w = Inr (oc, st', w')"
  shows "kept st st'"
proof -
  let ?d = "chain_evaluate (h_policies h) a st"
  consider "pd_type ?d = Deny" | "pd_type ?d = RequireApproval" | "pd_type ?d \<noteq> Deny" "pd_type ?d \<noteq> RequireApproval" by blast
  then show ?thesis
  proof cases
    case 3
    obtain b st1 where io: "record_io_action (command (effective_action ?d a)) st = (b, st1)" by fastforce
    have st1: "kept st st1" using io by (rule kept_io)
    show ?thesis
    proof (cases b)
      case True
      then show ?thesis using assms(2) 3 io st1 by (auto simp: handle_bash_def Let_def)
    next
      case False
      then obtain ob st2 w2 where j: "journaled_run (h_env h) (h_exec h) (effective_action ?d a) st1 w = Inr (ob, st2, w2)"
          "st' = (record_execution_metrics ob st2)\<lparr>last_observation := Some ob\<rparr>"
        using assms(2) 3 io by (auto simp: handle_bash_def Let_def)
      then show ?thesis using st1 kept_journaled(1) [OF assms(1) j(1)] kept_execution(1) kept_trans by fastforce
    qed
  qed (use assms(2) in \<open>auto simp: handle_bash_def Let_def request_approval_def intro!: kept_intros\<close>)
qed

lemma kept_final:
  "handle_final h answer mem st w = (oc, st', w') \<Longrightarrow> kept st st'" "reject_final a r st = (oc, st') \<Longrightarrow> kept st st'"
  "handle_skill h name st = (oc, st') \<Longrightarrow> kept st st'"
  by (auto simp: handle_final_def reject_final_def handle_skill_def Let_def split: prod.splits option.splits intro!: kept_intros)

lemma handled_final [consumes 2, case_names accepted rejected]:
  assumes "handle h (FinalAction answer memory) st w = Inr (oc, st', w')" "h_verifier h = Some v"
  obtains r st1 w1 where "verify v (execute_verification_action h) (bump ''verification_attempts'' (bump ''model_final_requests'' st)) w = Inr (r, st1, w1)"
      "handle_final h answer memory (bump ''verification_passed'' st1) w1 = (oc, st', w')"
    | r st1 w1 where "verify v (execute_verification_action h) (bump ''verification_attempts'' (bump ''model_final_requests'' st)) w = Inr (r, st1, w1)"
      "reject_final (FinalAction answer memory) r st1 = (oc, st')"
proof -
  obtain r st1 w1 where v: "verify v (execute_verification_action h) (bump ''verification_attempts'' (bump ''model_final_requests'' st)) w = Inr (r, st1, w1)"
    and rest: "(if \<not> vr_passed r then (let (oc, st2) = reject_final (FinalAction answer memory) r st1 in Inr (oc, st2, w1))
         else Inr (handle_final h answer memory (bump ''verification_passed'' st1) w1)) = (Inr (oc, st', w') :: (action_outcome \<times> run_state \<times> world) result)"
    using assms by (auto simp: handle_def Let_def)
  show thesis
  proof (cases "vr_passed r")
    case True
    then show thesis using that(1) v rest by simp
  next
    case False
    obtain oc1 st2 where "reject_final (FinalAction answer memory) r st1 = (oc1, st2)" by fastforce
    then show thesis using that(2) v rest False by simp
  qed
qed

lemma kept_handle:
  assumes "bash_executor (h_exec h)" "handle h a st w = Inr (oc, st', w')"
  shows "kept st st'"
proof (cases a)
  case (FinalAction answer memory)
  have bumped: "kept st (bump ''model_final_requests'' st)" "kept st (bump ''verification_attempts'' (bump ''model_final_requests'' st))"
    by (intro kept_intros; simp)+
  show ?thesis
  proof (cases "h_verifier h")
    case None
    then show ?thesis using assms(2) kept_final(1) bumped(1) by (auto simp: FinalAction handle_def Let_def intro: kept_trans)
  next
    case (Some v)
    have checked: "verify v (execute_verification_action h) (bump ''verification_attempts'' (bump ''model_final_requests'' st)) w = Inr (r, st1, w1) \<Longrightarrow> kept st st1" for r st1 w1
      using kept_verify_loop [OF assms(1)] bumped(2) by (auto simp: verify_def split: if_splits intro: kept_trans)
    have passed: "kept st st1 \<Longrightarrow> kept st (bump ''verification_passed'' st1)" for st1 by (intro kept_intros) simp_all
    from assms(2) Some show ?thesis unfolding FinalAction
      by (cases rule: handled_final) (blast intro: kept_trans checked passed dest: kept_final)+
  qed
next
  case (BashAction x)
  then show ?thesis using assms kept_handle_bash by (simp add: handle_def)
qed (use assms(2) in \<open>auto simp: handle_def Let_def request_ask_def split: prod.splits dest: kept_final intro!: kept_intros\<close>)

text \<open>An outcome that stops the loop leaves the run in a state that is not running.\<close>

lemma final_stops:
  "handle_final h answer mem st w = (oc, st', w') \<Longrightarrow> status st' = ''completed''" "reject_final a r st = (oc, st') \<Longrightarrow> should_continue oc"
  by (auto simp: handle_final_def reject_final_def Let_def one_step_def split: prod.splits option.splits)

lemma handle_stops:
  assumes "handle h a st w = Inr (oc, st', w')" "\<not> should_continue oc"
  shows "status st' \<noteq> ''running''"
proof (cases a)
  case (FinalAction answer memory)
  show ?thesis
  proof (cases "h_verifier h")
    case None
    then show ?thesis using assms(1) final_stops(1) by (fastforce simp: FinalAction handle_def Let_def)
  next
    case (Some v)
    with assms(1) show ?thesis unfolding FinalAction
      by (cases rule: handled_final) (use final_stops assms(2) in \<open>fastforce+\<close>)
  qed
next
  case (BashAction x)
  then show ?thesis using assms
    by (auto simp: handle_def handle_bash_def Let_def request_approval_def one_step_def add_metric_def mset_def split: if_splits prod.splits)
qed (use assms in \<open>auto simp: handle_def handle_skill_def Let_def request_ask_def one_step_def add_metric_def mset_def split: prod.splits\<close>)

subsection \<open>Tool calls\<close>

definition sound_tools :: "scheduler \<Rightarrow> bool" where
  "sound_tools s =
     (\<exists>y. sc_run s = hybrid_run y \<and> bash_executor (hy_exec y) \<and> (\<forall>h. hy_handler y = Some h \<longrightarrow> bash_executor (h_exec h)))"

lemma kept_hybrid:
  assumes "bash_executor (hy_exec y)" "\<And>h. hy_handler y = Some h \<Longrightarrow> bash_executor (h_exec h)" "hybrid_run y c st w = Inr (r, st', w')"
  shows "kept st st'"
  using assms(3)
proof (cases y c st w rule: hybrid_run_cases)
  case (handled h a)
  then obtain oc st1 w1 where "handle h (BashAction a) st w = Inr (oc, st1, w1)" "st' = st1"
    using assms(3) [unfolded handled(4)] by auto
  then show ?thesis using kept_handle [OF assms(2) [OF handled(3)]] by blast
next
  case (direct a ob st1 w1)
  then show ?thesis using assms(3) bash_executor.exec_same_run [OF assms(1) direct(4)] kept_run by auto
qed (use assms(3) in auto)

lemma kept_one:
  assumes "sound_tools s" "run_one s c st w = (r, st', w')"
  shows "kept st st'"
proof -
  obtain y where y: "sc_run s = hybrid_run y" "bash_executor (hy_exec y)" "\<And>h. hy_handler y = Some h \<Longrightarrow> bash_executor (h_exec h)"
    using assms(1) by (auto simp: sound_tools_def)
  show ?thesis using assms(2) kept_hybrid [OF y(2,3)] by (auto simp: run_one_def y(1) split: sum.splits prod.splits)
qed

lemma kept_drain:
  assumes s: "sound_tools s"
  shows "kept st (po_state p) \<Longrightarrow> kept st (po_state (drain_pool n s i grp p))"
proof -
  have filled: "po_state (fill_pool m s grp p) = po_state p" for m p
    by (induction m arbitrary: p) (simp_all add: submit_def)
  have finished: "kept st (po_state p) \<Longrightarrow> kept st (po_state (finish_call s i grp k p))" for k p
    using kept_one [OF s] by (fastforce simp: finish_call_def split: prod.split intro: kept_trans)
  show "kept st (po_state p) \<Longrightarrow> kept st (po_state (drain_pool n s i grp p))"
    by (induction n arbitrary: p) (simp_all add: filled finished split: list.split)
qed

lemma kept_group: "sound_tools s \<Longrightarrow> run_parallel_group s grp i st w = (rs, st', w') \<Longrightarrow> kept st st'"
proof -
  assume s: "sound_tools s" and g: "run_parallel_group s grp i st w = (rs, st', w')"
  have "po_state (fill_pool m s grp p) = po_state p" for m p
    by (induction m arbitrary: p) (simp_all add: submit_def)
  then have "kept st (po_state (fill_pool (length grp) s grp (new_pool st w)))" by (simp add: new_pool_def)
  from kept_drain [OF s this] g show ?thesis by (auto simp: run_parallel_group_def Let_def simp del: drain_pool.simps)
qed

lemma kept_dispatch:
  assumes s: "sound_tools s"
  shows "dispatch_from s i calls st w = (rs, st', w') \<Longrightarrow> kept st st'"
proof (induction "length calls" arbitrary: i calls st w rs st' w' rule: less_induct)
  case less
  show ?case
  proof (cases calls)
    case Nil
    then show ?thesis using less.prems by (simp add: dispatch_from.simps)
  next
    case (Cons c cs)
    show ?thesis
    proof (cases "execution_mode c = ''exclusive''")
      case True
      obtain r st1 w1 where r: "run_one s c st w = (r, st1, w1)" by (rule prod_cases3)
      obtain rs2 st2 w2 where d: "dispatch_from s (Suc i) cs st1 w1 = (rs2, st2, w2)" by (rule prod_cases3)
      have "kept st st1" "kept st1 st2" using kept_one [OF s r] less.hyps [OF _ d] Cons by simp_all
      then show ?thesis
        using less.prems Cons True kept_trans by (auto simp: dispatch_from.simps [of s i "c # cs"] r d Let_def split: if_splits)
    next
      case False
      let ?g = "takeWhile (\<lambda>c. execution_mode c = ''parallel'') calls"
      obtain rs1 st1 w1 where g: "run_parallel_group s ?g i st w = (rs1, st1, w1)" by (rule prod_cases3)
      obtain rs2 st2 w2 where d: "dispatch_from s (i + length ?g) (drop (length ?g) calls) st1 w1 = (rs2, st2, w2)" by (rule prod_cases3)
      have first: "calls \<noteq> []" "execution_mode (hd calls) \<noteq> ''exclusive''" using Cons False by simp_all
      have "kept st st1" using kept_group [OF s g] .
      moreover have "length (drop (length ?g) calls) < length calls" using Cons False by (simp add: execution_mode_def split: if_splits)
      then have "kept st1 st2" using less.hyps d by blast
      ultimately show ?thesis
        using less.prems first kept_trans by (auto simp: dispatch_from.simps [of s i calls] g d Let_def)
    qed
  qed
qed

section \<open>What a pass does\<close>

text \<open>Neither the counters nor the status nor the trajectory change.\<close>

definition calm :: "agent \<Rightarrow> agent \<Rightarrow> bool" where
  "calm a a' = (kept (run_of a) (run_of a') \<and> status (run_of a') = status (run_of a) \<and> ag_steps a' = ag_steps a)"

lemma calm_refl [simp]: "calm a a"
  by (simp add: calm_def)

lemma calm_trans: "calm a b \<Longrightarrow> calm b c \<Longrightarrow> calm a c"
  unfolding calm_def using kept_trans by auto

lemma run_of_with_run [simp]: "run_of (with_run f a) = f (run_of a)" "ag_steps (with_run f a) = ag_steps a" "ag_world (with_run f a) = ag_world a"
  by (simp_all add: with_run_def)

lemma next_checkpoint_run: "kept st (next_checkpoint st)" "status (next_checkpoint st) = status st"
  by (auto simp: next_checkpoint_def Let_def kept_def mget_add_metric) (simp add: add_metric_def mset_def)

lemma calm_checkpointed:
  assumes "checkpointed al reason a = Inr a'"
  shows "calm a a'"
proof (cases "al_manager al")
  case (Some m)
  then obtain path w where "a' = (with_run (\<lambda>_. next_checkpoint (run_of a)) a)\<lparr>ag_world := w\<rparr>"
    using assms by (auto simp: checkpointed_def create_checkpoint_def Let_def)
  then show ?thesis using next_checkpoint_run by (simp add: calm_def)
qed (use assms in \<open>simp add: checkpointed_def\<close>)

lemma calm_saved [simp]: "calm a (saved al a)" "run_of (saved al a) = run_of a" "ag_steps (saved al a) = ag_steps a"
  by (simp_all add: saved_def calm_def)

text \<open>Preparing the prompt is calm, by what \<open>Context\<close> shows of it.\<close>

lemma not_context_key: "''turns'' \<notin> context_keys" "''context_overflow_retries'' \<notin> context_keys"
  by (simp_all add: context_keys_def layer_keys_def boundary_keys_def context_prefixes_def)

lemma calm_io:
  assumes "keeps context_keys m" "do_io m a = Inr (x, a')"
  shows "calm a a'"
proof -
  obtain s where s: "m (ag_io a) = (Inr x, s)" "a' = a\<lparr>ag_io := s\<rparr>"
    using assms(2) by (auto simp: do_io_def split: prod.splits sum.splits)
  have step: "only_metrics context_keys ((run_of a)\<lparr>state_summary := state_summary (io_state s)\<rparr>) (io_state s)"
    using assms(1) s(1) unfolding keeps_def context_step_def by (metis snd_conv)
  have "kept ((run_of a)\<lparr>state_summary := state_summary (io_state s)\<rparr>) (io_state s)"
    using step not_context_key by (intro kept_only) auto
  moreover have "status (io_state s) = status (run_of a)" using only_metrics_frame [OF step] by simp
  ultimately show ?thesis by (simp add: calm_def s(2) kept_def)
qed

text \<open>A step at the end of the trajectory, and nothing that counts.\<close>

definition grown :: "agent \<Rightarrow> agent \<Rightarrow> bool" where
  "grown a a' = (kept (run_of a) (run_of a') \<and> prefix (ag_steps a) (ag_steps a'))"

lemma calm_grown: "calm a a' \<Longrightarrow> grown a a'"
  by (simp add: calm_def grown_def)

lemma grown_trans: "grown a b \<Longrightarrow> grown b c \<Longrightarrow> grown a c"
  unfolding grown_def using kept_trans prefix_order.trans by blast

lemma add_step_frame [simp]: "run_of (add_step x ob a) = run_of a" "prefix (ag_steps a) (ag_steps (add_step x ob a))"
  by (simp_all add: add_step_def)

lemma grown_recorded:
  assumes "recorded al action ob reason a = Inr a'"
  shows "grown a a'"
proof -
  let ?a = "saved al (with_run (\<lambda>st. st\<lparr>last_observation := Some ob\<rparr>) (add_step (Some action) ob a))"
  have "grown a ?a" by (simp add: grown_def)
  moreover have "grown ?a a'" using assms calm_checkpointed calm_grown unfolding recorded_def by blast
  ultimately show ?thesis by (rule grown_trans)
qed

lemma grown_interrupted:
  assumes "interrupted al a = Inr a'"
  shows "grown a a'" "status (run_of a') = ''interrupted''"
proof -
  let ?a = "with_run (\<lambda>st. mset ''interrupted_after_steps'' (JInt (int (length (ag_steps a)))) (st\<lparr>status := ''interrupted''\<rparr>)) a"
  obtain a1 where a1: "checkpointed al ''controlled_interrupt'' ?a = Inr a1" "a' = saved al a1"
    using assms by (auto simp: interrupted_def)
  have "calm ?a a'" using calm_checkpointed [OF a1(1)] a1(2) by (simp add: calm_def)
  then show "grown a a'" "status (run_of a') = ''interrupted''"
    by (auto simp: calm_def grown_def mset_def kept_def mget_mset)
qed

lemma grown_wrong: "grown a (wrong_profile action message a)"
  by (auto simp: wrong_profile_def grown_def intro!: kept_intros)

lemma kept_calls: "kept st st' \<Longrightarrow> kept st (count_calls c rs st')"
proof -
  have bumps: "kept st st' \<Longrightarrow> kept st (fold (\<lambda>r. bump (tr_tool r @ ''_tool_calls'')) rs st')" for st st'
  proof (induction rs arbitrary: st')
    case (Cons r rs)
    have "tr_tool r @ ''_tool_calls'' \<notin> loop_keys" by (auto simp: loop_keys_def dest: arg_cong [of _ _ rev])
    with Cons show ?case by (auto intro!: kept_add simp del: loop_key)
  qed simp
  assume "kept st st'"
  then show ?thesis unfolding count_calls_def by (intro bumps kept_intros) simp_all
qed

lemma grown_tool_calls:
  assumes "\<And>s. al_scheduler al = Some s \<Longrightarrow> sound_tools s" "tool_calls_step al calls a = Inr a'"
  shows "grown a a'"
proof (cases "al_scheduler al = None \<or> lc_profile (al_config al) \<noteq> ''hybrid-v3.6''")
  case True
  then show ?thesis using assms(2) grown_wrong by (auto simp: tool_calls_step_def split: option.splits bool.splits)
next
  case False
  then obtain s where s: "al_scheduler al = Some s" by auto
  obtain rs st w where d: "dispatch s calls (run_of a) (ag_world a) = (rs, st, w)" by (rule prod_cases3)
  let ?a = "(with_run (\<lambda>_. count_calls (al_config al) rs st) a)\<lparr>ag_world := w\<rparr>"
  have "kept (run_of a) st" using kept_dispatch [OF assms(1) [OF s] d [unfolded dispatch_def]] .
  then have "grown a ?a" using kept_calls by (simp add: grown_def)
  moreover have "grown ?a a'" using assms(2) False s d grown_recorded by (simp add: tool_calls_step_def)
  ultimately show ?thesis by (rule grown_trans)
qed

lemma grown_delegate:
  assumes "delegate_step al ts jn intent a = Inr a'"
  shows "grown a a'"
proof (cases "al_coordinator al = None \<or> lc_profile (al_config al) \<noteq> ''multi-agent-v4''")
  case True
  then show ?thesis using assms grown_wrong by (auto simp: delegate_step_def split: option.splits bool.splits)
next
  case False
  let ?a1 = "with_run (\<lambda>st. bump ''workflow_count'' (bump ''delegate_steps'' st)) a"
  have a1: "grown a ?a1" by (auto simp: grown_def intro!: kept_intros)
  obtain outcome l w where r: "recorded al (DelegateAction ts jn intent) (workflow_observation outcome) ''workflow_completed''
      ((with_run (count_children ts outcome) ?a1)\<lparr>ag_world := w, ag_lease := l\<rparr>) = Inr a'"
    using assms False by (auto simp: delegate_step_def Let_def split: prod.splits sum.splits)
  have counted: "kept st (count_children ts outcome st)" for st
    by (auto simp: count_children_def Let_def intro!: kept_intros)
  have "grown ?a1 ((with_run (count_children ts outcome) ?a1)\<lparr>ag_world := w, ag_lease := l\<rparr>)"
    using counted by (simp add: grown_def)
  with a1 grown_recorded [OF r] show ?thesis using grown_trans by blast
qed

lemma grown_action:
  assumes "bash_executor (h_exec (al_handler al))" "action_step al action a = Inr (again, a')"
  shows "grown a a'" "\<not> again \<Longrightarrow> status (run_of a') \<noteq> ''running''"
proof -
  obtain oc st w where h: "handle (al_handler al) action (run_of a) (ag_world a) = Inr (oc, st, w)"
    using assms(2) by (auto simp: action_step_def raising_def split: sum.splits)
  define a1 where "a1 = saved al ((with_run (\<lambda>_. st) a)\<lparr>ag_world := w, ag_steps := ag_steps a @ steps oc\<rparr>)"
  obtain a2 where a2: "checkpointed al (checkpoint_reason (run_of a1)) a1 = Inr a2"
      "(if status (run_of a2) = ''running'' \<and> should_interrupt al a2 then interrupted al a2 else Inr a2) = Inr a'" "again = should_continue oc"
    using assms(2) h by (auto simp: action_step_def raising_def a1_def Let_def)
  have "run_of a1 = st" "ag_steps a1 = ag_steps a @ steps oc" by (simp_all add: a1_def)
  then have "grown a a1" using kept_handle [OF assms(1) h] by (simp add: grown_def)
  moreover have "grown a1 a2" using calm_checkpointed [OF a2(1)] calm_grown by blast
  moreover have "grown a2 a'" using a2(2) grown_interrupted(1) calm_grown calm_refl by (auto split: if_splits)
  ultimately show "grown a a'" using grown_trans by blast
  assume "\<not> again"
  then have "status st \<noteq> ''running''" using handle_stops [OF h] a2(3) by simp
  then have "status (run_of a2) \<noteq> ''running''" using calm_checkpointed [OF a2(1)] \<open>run_of a1 = st\<close> by (simp add: calm_def)
  then show "status (run_of a') \<noteq> ''running''" using a2(2) by simp
qed

text \<open>An agent whose executors keep their contract.\<close>

definition sound_agent :: "agent_loop \<Rightarrow> bool" where
  "sound_agent al =
     (turn_provider (al_turn al) \<and> bash_executor (h_exec (al_handler al)) \<and> (\<forall>s. al_scheduler al = Some s \<longrightarrow> sound_tools s))"

lemma grown_act:
  assumes "sound_agent al" "act al t a = Inr (again, a')" "status (run_of a) = (if mt_continue t then ''running'' else ''failed'')"
  shows "grown a a'" "\<not> again \<Longrightarrow> status (run_of a') \<noteq> ''running''"
proof -
  obtain a1 where a1: "(case mt_observation t of None \<Rightarrow> Inr a
        | Some ob \<Rightarrow> checkpointed al ''model_observation_recorded'' (add_step (mt_action t) ob a)) = Inr a1"
    using assms(2) by (auto simp: act_def)
  have "grown a a1 \<and> status (run_of a1) = status (run_of a)"
  proof (cases "mt_observation t")
    case (Some ob)
    have "grown a (add_step (mt_action t) ob a)" by (simp add: grown_def)
    moreover have "calm (add_step (mt_action t) ob a) a1" using a1 Some calm_checkpointed by simp
    ultimately show ?thesis using grown_trans calm_grown by (auto simp: calm_def)
  qed (use a1 in \<open>simp add: grown_def\<close>)
  then have g: "grown a a1" and s: "status (run_of a1) = status (run_of a)" by simp_all
  have "grown a1 a' \<and> (\<not> again \<longrightarrow> status (run_of a') \<noteq> ''running'')"
  proof (cases "\<not> mt_continue t \<or> status (run_of a1) \<noteq> ''running''")
    case True
    then show ?thesis using assms(2,3) a1 s by (auto simp: act_def grown_def)
  next
    case False
    then have rest: "(case mt_action t of
              None \<Rightarrow> Inr (True, a1)
            | Some (ToolCallsAction calls) \<Rightarrow> bind_res (tool_calls_step al calls a1) (\<lambda>a2. Inr (True, a2))
            | Some (DelegateAction ts jn intent) \<Rightarrow> bind_res (delegate_step al ts jn intent a1) (\<lambda>a2. Inr (True, a2))
            | Some action \<Rightarrow> action_step al action a1) = Inr (again, a')"
      using assms(2) a1 by (simp add: act_def)
    show ?thesis
    proof (cases "mt_action t")
      case None
      then show ?thesis using rest by (simp add: grown_def)
    next
      case (Some action)
      have "bash_executor (h_exec (al_handler al))" "\<And>s. al_scheduler al = Some s \<Longrightarrow> sound_tools s"
        using assms(1) by (simp_all add: sound_agent_def)
      then show ?thesis
        using rest Some grown_action [of al action a1 again a'] grown_tool_calls [of al _ a1 a'] grown_delegate [of al _ _ _ a1 a']
        by (cases action) auto
    qed
  qed
  then show "grown a a'" "\<not> again \<Longrightarrow> status (run_of a') \<noteq> ''running''" using g grown_trans by blast+
qed

definition turns_of :: "agent \<Rightarrow> int" where
  "turns_of a = mget (metrics (run_of a)) ''turns''"

definition retries_of :: "agent \<Rightarrow> int" where
  "retries_of a = mget (metrics (run_of a)) ''context_overflow_retries''"

lemma kept_counts: "kept (run_of a) (run_of a') \<Longrightarrow> turns_of a' = turns_of a \<and> retries_of a' = retries_of a"
  by (simp add: kept_def turns_of_def retries_of_def loop_keys_def)

text \<open>A pass that took a turn, or forced a compaction after an overflow.\<close>

definition moved :: "agent_loop \<Rightarrow> agent \<Rightarrow> agent \<Rightarrow> bool" where
  "moved al a a' =
     (turns_of a' = turns_of a + 1 \<and> retries_of a' = retries_of a \<and> \<not> out_of_turns al a \<or>
      turns_of a' = turns_of a \<and> retries_of a' = retries_of a + 1 \<and>
        retries_of a < cx_max_overflow_retries (cb_config (al_builder al)))"

lemma recover_result:
  assumes "recover al f a = Inr (again, a')"
  shows "ag_steps a' = ag_steps a \<and> turns_of a' = turns_of a \<and>
    (if again then status (run_of a') = status (run_of a) \<and> retries_of a' = retries_of a + 1 \<and> retries_of a < cx_max_overflow_retries (cb_config (al_builder al))
     else status (run_of a') = ''failed'' \<and> retries_of a' = retries_of a)"
proof -
  let ?a1 = "with_run (count_failure f) a"
  have k1: "kept (run_of a) (run_of ?a1)" and s1: "status (run_of ?a1) = status (run_of a)"
    by (auto simp: count_failure_def frame_simps intro!: kept_intros)
  have r1: "mget (metrics (run_of ?a1)) ''context_overflow_retries'' = retries_of a" using kept_counts [OF k1] by (simp add: retries_of_def)
  have failed: "kept st (provider_failed f st)" "status (provider_failed f st) = ''failed''" for st
    by (simp_all add: provider_failed_def session_fail_def)
  show ?thesis
  proof (cases "lf_code f = ''CONTEXT_OVERFLOW'' \<and> retries_of a < cx_max_overflow_retries (cb_config (al_builder al))")
    case False
    then have "again = False" "a' = with_run (provider_failed f) ?a1"
      using assms r1 by (auto simp: recover_def Let_def split: if_splits)
    then show ?thesis using kept_counts [OF k1] failed kept_counts [of ?a1 a'] by simp
  next
    case True
    then obtain compacted a2 where c: "do_io (force_compact (al_builder al) (ag_steps a)) ?a1 = Inr (compacted, a2)"
      and rest: "(if compacted then Inr (True, with_run (\<lambda>st. bump ''context_overflow_recovered''
            (mset ''context_overflow_retries'' (JInt (retries_of a + 1)) st)) a2)
         else Inr (False, with_run (provider_failed f) a2)) = (Inr (again, a') :: (bool \<times> agent) raised)"
      using assms r1 by (auto simp: recover_def Let_def cong del: if_weak_cong)
    have "calm ?a1 a2" using calm_io [OF force_compact_keeps c] .
    then have a2: "turns_of a2 = turns_of a" "retries_of a2 = retries_of a" "ag_steps a2 = ag_steps a" "status (run_of a2) = status (run_of a)"
      using kept_counts [OF k1] kept_counts [of ?a1 a2] s1 by (simp_all add: calm_def)
    show ?thesis
    proof (cases compacted)
      case True
      with rest a2 \<open>lf_code f = _ \<and> _\<close> show ?thesis
        by (auto simp: turns_of_def retries_of_def mget_add_metric mget_mset mget_single frame_simps)
    next
      case False
      then have "again = False" "a' = with_run (provider_failed f) a2" using rest by simp_all
      then show ?thesis using a2 failed kept_counts [of a2 a'] by simp
    qed
  qed
qed

lemma take_turn_result:
  assumes "turn_provider (al_turn al)" "take_turn al ms a = Some (Inr (x, a'))" "status (run_of a) = ''running''"
  shows "ag_steps a' = ag_steps a \<and> retries_of a' = retries_of a \<and>
    (case x of Inl f \<Rightarrow> turns_of a' = turns_of a \<and> status (run_of a') = ''running'' | Inr t \<Rightarrow> turns_of a' = turns_of a + 1 \<and>
       status (run_of a') = (if mt_continue t then ''running'' else ''failed''))"
proof -
  let ?rn = "\<lparr>rn_protocol_errors = ag_errors a, rn_requests = io_requests (ag_io a)\<rparr>"
  obtain st rn where t: "al_turn al (chat ms) (run_of a) ?rn = Some (Inr (x, st, rn))" "run_of a' = st" "ag_steps a' = ag_steps a"
    using assms(2) by (auto simp: take_turn_def split: option.splits sum.splits)
  have key: "''context_overflow_retries'' \<notin> account_keys" by (simp add: account_keys_def)
  have "retries_of a' = retries_of a"
    using turn_provider.other_metric [OF assms(1) t(1) key] t(2) by (simp add: retries_of_def)
  then show ?thesis
    using t turn_provider.turn_counted [OF assms(1)] turn_provider.failure_uncounted [OF assms(1)] turn_provider.turn_status [OF assms(1)] assms(3)
      turn_provider.outcome [OF assms(1) t(1)] accounting_status
    by (auto simp: turns_of_def turn_outcome_def split: sum.split)
qed

lemma pass_result:
  assumes sound: "sound_agent al" and running: "status (run_of a) = ''running''"
    and pass: "loop_pass al n a = Some (Inr (again, a'))"
  shows "prefix (ag_steps a) (ag_steps a')" "again \<Longrightarrow> moved al a a'" "\<not> again \<Longrightarrow> status (run_of a') \<noteq> ''running''"
    "turns_of a' = turns_of a \<and> status (run_of a') = (if again then ''running'' else ''failed'') \<or> turns_of a' = turns_of a + 1 \<and> \<not> out_of_turns al a"
proof -
  have failed: "turns_of (with_run (session_fail m) a) = turns_of a" "status (run_of (with_run (session_fail m) a)) = ''failed''" for m
    by (simp_all add: turns_of_def session_fail_def)
  have all: "prefix (ag_steps a) (ag_steps a') \<and> (again \<longrightarrow> moved al a a') \<and> (\<not> again \<longrightarrow> status (run_of a') \<noteq> ''running'') \<and>
    (turns_of a' = turns_of a \<and> status (run_of a') = (if again then ''running'' else ''failed'') \<or> turns_of a' = turns_of a + 1 \<and> \<not> out_of_turns al a)"
  proof (cases "out_of_time al n \<or> out_of_turns al a")
    case True
    then show ?thesis using pass failed by (auto simp: loop_pass_def split: if_splits)
  next
    case False
    then obtain u a1 ms a2 where c: "do_io (maybe_compact (al_builder al) (ag_steps a)) a = Inr (u, a1)"
        "do_io (build_messages (al_builder al) (ag_steps a1)) a1 = Inr (ms, a2)"
      using pass by (auto simp: loop_pass_def split: sum.splits)
    have "calm a a2" using calm_io [OF maybe_compact_keeps c(1)] calm_io [OF context_wide [OF build_context] c(2)] by (rule calm_trans)
    then have a2: "ag_steps a2 = ag_steps a" "turns_of a2 = turns_of a" "retries_of a2 = retries_of a" "status (run_of a2) = ''running''"
      using running kept_counts [of a a2] by (simp_all add: calm_def)
    obtain x a3 where t: "take_turn al ms a2 = Some (Inr (x, a3))"
      and rest: "(case x of Inl f \<Rightarrow> recover al f a3 | Inr t \<Rightarrow> act al t a3) = Inr (again, a')"
      using pass False c by (auto simp: loop_pass_def split: option.splits sum.splits)
    have "turn_provider (al_turn al)" using sound by (simp add: sound_agent_def)
    note turn = take_turn_result [OF this t a2(4)]
    show ?thesis
    proof (cases x)
      case (Inl f)
      then show ?thesis using turn a2 recover_result [of al f a3 again a'] rest by (auto simp: moved_def split: if_splits)
    next
      case (Inr t)
      then have "grown a3 a' \<and> (\<not> again \<longrightarrow> status (run_of a') \<noteq> ''running'')"
        using grown_act [OF sound, of t a3 again a'] rest turn by auto
      then show ?thesis using turn a2 Inr False kept_counts [of a3 a'] by (auto simp: grown_def moved_def)
    qed
  qed
  then show "prefix (ag_steps a) (ag_steps a')" "again \<Longrightarrow> moved al a a'" "\<not> again \<Longrightarrow> status (run_of a') \<noteq> ''running''"
    "turns_of a' = turns_of a \<and> status (run_of a') = (if again then ''running'' else ''failed'') \<or> turns_of a' = turns_of a + 1 \<and> \<not> out_of_turns al a" by blast+
qed

section \<open>What the loop does\<close>

text \<open>Passes that can still follow, where the turns are limited.\<close>

definition passes_left :: "agent_loop \<Rightarrow> agent \<Rightarrow> nat" where
  "passes_left al a =
     nat (lc_max_turns (al_config al) - turns_of a) + nat (cx_max_overflow_retries (cb_config (al_builder al)) - retries_of a)"

lemma moved_fewer: "0 < lc_max_turns (al_config al) \<Longrightarrow> moved al a a' \<Longrightarrow> passes_left al a' < passes_left al a"
  by (auto simp: moved_def passes_left_def out_of_turns_def turns_of_def [symmetric])

lemma loop_ends:
  assumes sound: "sound_agent al" and limit: "0 < lc_max_turns (al_config al)"
    and answers: "\<And>ms st rn. al_turn al ms st rn \<noteq> None"
  shows "run_loop al n a \<noteq> None"
proof (induction "passes_left al a" arbitrary: n a rule: less_induct)
  case less
  show ?case
  proof (cases "status (run_of a) = ''running''")
    case True
    have answered: "take_turn al ms b \<noteq> None" for ms b
      using answers [of "chat ms" "run_of b" "\<lparr>rn_protocol_errors = ag_errors b, rn_requests = io_requests (ag_io b)\<rparr>"]
      by (auto simp: take_turn_def split: sum.split)
    have "loop_pass al n a \<noteq> None"
      by (simp add: loop_pass_def answered split: sum.split option.split)
    then obtain r where r: "loop_pass al n a = Some r" by blast
    show ?thesis
    proof (cases "\<exists>a1. r = Inr (True, a1)")
      case again: True
      then obtain a1 where "loop_pass al n a = Some (Inr (True, a1))" using r by blast
      moreover then have "run_loop al (Suc n) a1 \<noteq> None"
        using less.hyps [OF moved_fewer [OF limit pass_result(2) [OF sound True]]] by blast
      ultimately show ?thesis using True by (subst run_loop.simps) simp
    next
      case False
      then show ?thesis using True r by (subst run_loop.simps) (auto split: sum.split)
    qed
  qed (subst run_loop.simps, simp)
qed

text \<open>What a loop that ends has reached; a run that stops for an approval has taken a turn.\<close>

definition reached :: "agent_loop \<Rightarrow> agent \<Rightarrow> agent \<Rightarrow> bool" where
  "reached al a a' =
     (status (run_of a') \<noteq> ''running'' \<and> prefix (ag_steps a) (ag_steps a') \<and> turns_of a \<le> turns_of a' \<and>
      (status (run_of a) = ''running'' \<and> status (run_of a') = ''waiting_approval'' \<longrightarrow> turns_of a < turns_of a') \<and>
      (0 < lc_max_turns (al_config al) \<longrightarrow> turns_of a' \<le> max (lc_max_turns (al_config al)) (turns_of a)))"

lemma loop_result:
  assumes "sound_agent al"
  shows "run_loop al n a = Some r \<Longrightarrow> r = Inr a' \<Longrightarrow> reached al a a'"
proof -
  have "run_loop al n a = Some r \<Longrightarrow> sound_agent al \<longrightarrow> r = Inr a' \<longrightarrow> reached al a a'"
  proof (induction rule: run_loop.raw_induct [rotated 1, consumes 1, case_names 1])
    case (1 rl al n a r)
    show ?case
    proof (intro impI)
      assume sound: "sound_agent al" and r: "r = Inr a'"
      show "reached al a a'"
      proof (cases "status (run_of a) = ''running''")
        case False
        then show ?thesis using 1(2) r by (simp add: reached_def)
      next
        case True
        then obtain again a1 where pass: "loop_pass al n a = Some (Inr (again, a1))"
          and rest: "(if again then rl al (Suc n) a1 else Some (Inr a1)) = Some (Inr a')"
          using 1(2) r by (auto split: option.splits sum.splits)
        note one = pass_result [OF sound True pass]
        have limit: "0 < lc_max_turns (al_config al) \<longrightarrow> turns_of a1 \<le> max (lc_max_turns (al_config al)) (turns_of a)"
          using one(4) by (auto simp: out_of_turns_def turns_of_def [symmetric])
        show ?thesis
        proof (cases again)
          case True
          then have "rl al (Suc n) a1 = Some (Inr a')" using rest by simp
          from 1(1) [OF this] sound have next_reached: "reached al a1 a'" by blast
          then have "prefix (ag_steps a) (ag_steps a')" using one(1) unfolding reached_def by (meson prefix_order.trans)
          then show ?thesis using next_reached limit one(4) True unfolding reached_def by auto
        next
          case False
          then show ?thesis using rest one limit by (auto simp: reached_def)
        qed
      qed
    qed
  qed
  then show "run_loop al n a = Some r \<Longrightarrow> r = Inr a' \<Longrightarrow> reached al a a'"
    using assms by blast
qed

lemma begin_result:
  assumes "begin_run al again a = Inr (base, a')"
  shows "grown a a'" "status (run_of a') = status (run_of a) \<or> status (run_of a') = ''interrupted''"
proof -
  let ?c = "al_config al"
  define a0 where "a0 = with_run (\<lambda>st. mset ''max_tool_calls_per_step'' (JInt (lc_max_calls ?c))
     (mset ''max_parallel_tool_calls'' (JInt (lc_max_parallel ?c)) (mset ''profile'' (JStr (lc_profile ?c)) st))) a"
  obtain b a1 where a1: "lifecycle_start al again a0 = (b, a1)" by fastforce
  then obtain a2 where a2: "checkpointed al (if again then ''resume_started'' else ''run_started'') a1 = Inr a2"
      "(if should_interrupt al a2 then interrupted al a2 else Inr a2) = Inr a'"
    using assms by (auto simp: begin_run_def Let_def a0_def)
  have "grown a a0" by (auto simp: a0_def grown_def intro!: kept_intros)
  moreover have "grown a0 a1" using a1 by (auto simp: lifecycle_start_def grown_def split: if_splits intro!: kept_intros)
  moreover have "grown a1 a2" using calm_grown [OF calm_checkpointed [OF a2(1)]] .
  moreover have "grown a2 a'" using a2(2) grown_interrupted(1) by (auto simp: grown_def split: if_splits)
  ultimately show "grown a a'" using grown_trans by blast
  have "status (run_of a1) = status (run_of a)"
    using a1 by (auto simp: lifecycle_start_def a0_def frame_simps split: if_splits)
  then have "status (run_of a2) = status (run_of a)" using calm_checkpointed [OF a2(1)] by (simp add: calm_def)
  then show "status (run_of a') = status (run_of a) \<or> status (run_of a') = ''interrupted''"
    using a2(2) grown_interrupted(2) by (auto split: if_splits)
qed

lemma finish_frame: "calm a (lifecycle_finish al base a)"
  by (auto simp: lifecycle_finish_def calm_def Let_def intro!: kept_intros) (simp add: mset_def)

lemma end_result:
  assumes "end_run al base a = Inr a'"
  shows "calm a a'"
proof -
  let ?a1 = "lifecycle_finish al base a"
  obtain a2 where a2: "(if status (run_of ?a1) = ''interrupted'' then checkpointed al ''interrupted_finalized'' ?a1 else Inr ?a1) = Inr a2"
      "a' = a2\<lparr>ag_world := save_if_bound (al_env al) (run_of a2) (ag_world a2)\<rparr>"
    using assms by (auto simp: end_run_def Let_def)
  have "calm ?a1 a2" using a2(1) calm_checkpointed by (simp split: if_splits)
  with finish_frame have "calm a a2" by (rule calm_trans)
  then show ?thesis by (simp add: a2(2) calm_def)
qed

lemma agent_run_ends:
  assumes "sound_agent al" "0 < lc_max_turns (al_config al)" "\<And>ms st rn. al_turn al ms st rn \<noteq> None"
  shows "agent_run al st trajectory a \<noteq> None"
proof -
  have ends: "run_loop al n b \<noteq> None" for n b by (rule loop_ends [OF assms])
  show ?thesis by (simp add: agent_run_def ends split: sum.split option.split)
qed

lemma agent_run_reached:
  assumes "sound_agent al" "agent_run al st trajectory a = Some (Inr a')"
  shows "reached al ((with_run (\<lambda>_. st) a)\<lparr>ag_steps := (case trajectory of None \<Rightarrow> [] | Some t \<Rightarrow> t)\<rparr>) a'"
proof -
  let ?a = "(with_run (\<lambda>_. st) a)\<lparr>ag_steps := (case trajectory of None \<Rightarrow> [] | Some t \<Rightarrow> t)\<rparr>"
  obtain base a1 a2 where r: "begin_run al (trajectory \<noteq> None) ?a = Inr (base, a1)" "run_loop al 0 a1 = Some (Inr a2)" "end_run al base a2 = Inr a'"
    using assms(2) by (auto simp: agent_run_def split: sum.splits option.splits)
  have b: "prefix (ag_steps ?a) (ag_steps a1)" "turns_of a1 = turns_of ?a"
    using begin_result(1) [OF r(1)] kept_counts [of ?a a1] by (simp_all add: grown_def)
  have e: "turns_of a' = turns_of a2" "ag_steps a' = ag_steps a2" "status (run_of a') = status (run_of a2)"
    using end_result [OF r(3)] kept_counts [of a2 a'] by (simp_all add: calm_def)
  have l: "reached al a1 a2" by (rule loop_result [OF assms(1) r(2) refl])
  show ?thesis
  proof (cases "status (run_of a1) = ''interrupted''")
    case True
    then have "a2 = a1" using r(2) by (subst (asm) run_loop.simps) simp
    then show ?thesis using True b e l by (auto simp: reached_def intro: prefix_order.trans)
  next
    case False
    then have "status (run_of a1) = status (run_of ?a)" using begin_result(2) [OF r(1)] by blast
    then show ?thesis using b e l by (auto simp: reached_def intro: prefix_order.trans)
  qed
qed

section \<open>Properties\<close>

text \<open>C1: A run ends: with a limit on the turns, executors that keep their contract and a source of turns that answers every
  request, the loop returns or raises, however the model answers, the actions end and the provider fails.\<close>

theorem run_terminates:
  assumes "sound_agent al" "0 < lc_max_turns (al_config al)" "\<And>ms st rn. al_turn al ms st rn \<noteq> None"
  shows "\<exists>r. agent_run al st trajectory a = Some r"
  using agent_run_ends [OF assms] by blast

text \<open>C2: A run that ends is settled: its status is not \<open>running\<close> any more, and its trajectory extends the one it started with;
  with a limit on the turns, the turns are within the limit, or what they were.\<close>

theorem run_settled:
  assumes "sound_agent al" "agent_run al st trajectory a = Some (Inr a')"
  shows "status (run_of a') \<noteq> ''running'' \<and> prefix (case trajectory of None \<Rightarrow> [] | Some t \<Rightarrow> t) (ag_steps a') \<and>
    (0 < lc_max_turns (al_config al) \<longrightarrow> turns_of a' \<le> max (lc_max_turns (al_config al)) (mget (metrics st) ''turns''))"
  using agent_run_reached [OF assms] by (simp add: reached_def turns_of_def)

text \<open>A run with a limit of one turn, which a resumed run has used up.\<close>

definition sample_loop :: agent_loop where
  "sample_loop =
     \<lparr>al_config = default_loop\<lparr>lc_max_turns := 1\<rparr>, al_turn = direct_turn sample_turns refusing, al_builder = sample_context ''rebuild'',
      al_handler = sample_handler None, al_env = sample_env, al_manager = None, al_scheduler = None, al_coordinator = None,
      al_workflow_id = (\<lambda>w. (''wf-1'', w)), al_elapsed = (\<lambda>n. 0), al_duration_ms = 5\<rparr>"

definition sample_agent :: agent where
  "sample_agent = \<lparr>ag_io = sample_io, ag_errors = 0, ag_world = empty_world, ag_lease = new_lease, ag_steps = []\<rparr>"

definition sample_state :: run_state where
  "sample_state = sample_run_state\<lparr>run_dir := None, metrics := [(''turns'', JInt 1)]\<rparr>"

lemma sample_sound: "sound_agent sample_loop" "0 < lc_max_turns (al_config sample_loop)" "al_turn sample_loop ms st rn \<noteq> None"
  by (simp_all add: sound_agent_def sample_loop_def sample_handler_def default_loop_def direct_turn_def
      local_exec.bash_executor_axioms direct.turn_provider_axioms)

theorem run_terminates_witness: "\<exists>r. agent_run sample_loop sample_state None sample_agent = Some r"
  by (rule run_terminates) (use sample_sound in auto)

lemma sample_ends: "\<exists>a'. agent_run sample_loop sample_state (Some []) sample_agent = Some (Inr a')"
proof -
  obtain base a1 where b: "begin_run sample_loop True ((with_run (\<lambda>_. sample_state) sample_agent)\<lparr>ag_steps := []\<rparr>) = Inr (base, a1)"
      "turns_of a1 = 1" "status (run_of a1) = ''running''"
    by (simp add: begin_run_def lifecycle_start_def checkpointed_def should_interrupt_def sample_loop_def default_loop_def
        sample_state_def sample_run_state_def start_state_def turns_of_def Let_def mget_mset mget_single) (simp add: mset_def)
  have "loop_pass sample_loop 0 a1 = Some (Inr (False, with_run (session_fail ''Run failed because max_turns was exhausted.'') a1))"
    using b(2) by (simp add: loop_pass_def out_of_time_def out_of_turns_def sample_loop_def default_loop_def turns_of_def)
  then have "run_loop sample_loop 0 a1 = Some (Inr (with_run (session_fail ''Run failed because max_turns was exhausted.'') a1))"
    using b(3) by (subst run_loop.simps) simp
  then show ?thesis
    using b(1) by (auto simp: agent_run_def end_run_def Let_def checkpointed_def sample_loop_def)
qed

theorem run_settled_witness:
  "\<exists>a'. agent_run sample_loop sample_state (Some []) sample_agent = Some (Inr a') \<and> status (run_of a') \<noteq> ''running'' \<and> turns_of a' \<le> 1"
proof -
  obtain a' where a': "agent_run sample_loop sample_state (Some []) sample_agent = Some (Inr a')" using sample_ends by blast
  have "mget (metrics sample_state) ''turns'' = 1" "lc_max_turns (al_config sample_loop) = 1"
    by (simp_all add: sample_state_def sample_loop_def default_loop_def mget_single)
  with run_settled [OF sample_sound(1) a'] a' show ?thesis by auto
qed

end
