(* ===== verification/Files.thy ===== *)
theory Files
  imports Sandbox "HOL-Library.Sublist"
begin

text \<open>
  A file system that can be listed: a list of paths with their nodes, a path being the list of its
  components. The operations are those of \<^verbatim>\<open>pathlib\<close> and \<^verbatim>\<open>shutil\<close> that the evidence ledger and the
  workspaces use; \<^verbatim>\<open>tree_simps\<close> says what each leaves at a path.
\<close>

section \<open>Paths and trees\<close>

type_synonym path = "string list"
type_synonym tree = "(path \<times> fs_node) list"

definition path_text :: "path \<Rightarrow> string" where
  "path_text p = CHR ''/'' # join ''/'' p"

definition is_file :: "tree \<Rightarrow> path \<Rightarrow> bool" where
  "is_file t p = (case map_of t p of Some (FileNode _) \<Rightarrow> True | _ \<Rightarrow> False)"

definition is_dir :: "tree \<Rightarrow> path \<Rightarrow> bool" where
  "is_dir t p = (map_of t p = Some DirNode)"

definition file_text :: "tree \<Rightarrow> path \<Rightarrow> string" where
  "file_text t p = (case map_of t p of Some (FileNode s) \<Rightarrow> s | _ \<Rightarrow> [])"

definition below :: "(path \<times> 'n) list \<Rightarrow> path \<Rightarrow> path list" where
  "below t p = filter (strict_prefix p) (map fst t)"

definition children :: "(path \<times> 'n) list \<Rightarrow> path \<Rightarrow> path list" where
  "children t p = filter (\<lambda>q. length q = Suc (length p)) (below t p)"

definition write_text :: "path \<Rightarrow> string \<Rightarrow> tree \<Rightarrow> tree" where
  "write_text p s t = AList.update p (FileNode s) t"

text \<open>\<^verbatim>\<open>mkdir(parents=True)\<close>; the root of the file system is there.\<close>

definition make_dirs :: "path \<Rightarrow> tree \<Rightarrow> tree" where
  "make_dirs p t =
     fold (\<lambda>q t. if map_of t q = None then t @ [(q, DirNode)] else t) (filter (\<lambda>q. q \<noteq> []) (prefixes p)) t"

definition remove_tree :: "path \<Rightarrow> (path \<times> 'n) list \<Rightarrow> (path \<times> 'n) list" where
  "remove_tree p t = filter (\<lambda>(q, _). \<not> prefix p q) t"

definition move_tree :: "path \<Rightarrow> path \<Rightarrow> (path \<times> 'n) list \<Rightarrow> (path \<times> 'n) list" where
  "move_tree p p' t = map (\<lambda>(q, n). (if prefix p q then p' @ drop (length p) q else q, n)) t"

section \<open>The entry of a path after an operation\<close>

named_theorems tree_simps \<open>the entry of a path after an operation on the tree\<close>

lemma map_of_write [tree_simps]: "map_of (write_text p s t) q = (if q = p then Some (FileNode s) else map_of t q)"
  by (simp add: write_text_def)

lemma map_of_remove [tree_simps]: "map_of (remove_tree p t) q = (if prefix p q then None else map_of t q)"
  by (induction t) (auto simp: remove_tree_def)

lemma map_of_make [tree_simps]:
  "map_of (make_dirs p t) q = (if map_of t q = None \<and> prefix q p \<and> q \<noteq> [] then Some DirNode else map_of t q)"
proof -
  have "map_of (fold (\<lambda>q t. if map_of t q = None then t @ [(q, DirNode)] else t) qs t) q =
      (if map_of t q = None \<and> q \<in> set qs then Some DirNode else map_of t q)" for qs
    by (induction qs arbitrary: t) (auto simp: map_add_def split: option.splits)
  then show ?thesis by (simp add: make_dirs_def)
qed

lemma map_of_move [tree_simps]:
  assumes "\<forall>q \<in> set (map fst t). \<not> prefix p' q"
  shows "map_of (move_tree p p' t) q =
    (if prefix p' q then map_of t (p @ drop (length p') q) else if prefix p q then None else map_of t q)"
proof -
  have inside: "map_of (move_tree p p' t) (p' @ z) = map_of t (p @ z)" for z
    using assms by (induction t) (auto simp: move_tree_def elim!: prefixE split: if_splits)
  have gone: "map_of (move_tree p p' t) q = None" if "\<not> prefix p' q" "prefix p q"
    using that by (induction t) (auto simp: move_tree_def split: if_splits)
  have kept: "map_of (move_tree p p' t) q = map_of t q" if "\<not> prefix p' q" "\<not> prefix p q"
    using that by (induction t) (auto simp: move_tree_def split: if_splits)
  show ?thesis using inside [of "drop (length p') q"] gone kept by (auto elim!: prefixE)
qed

text \<open>Every part of a path that is there is there.\<close>

definition tree_ok :: "tree \<Rightarrow> bool" where
  "tree_ok t = list_all (\<lambda>q. list_all (\<lambda>p. p = [] \<or> p \<in> set (map fst t)) (prefixes q)) (map fst t)"

lemma nothing_below:
  assumes "tree_ok t" "map_of t p = None" "p \<noteq> []" "prefix p q"
  shows "map_of t q = None"
proof (rule ccontr)
  assume "map_of t q \<noteq> None"
  then have "q \<in> set (map fst t)" by (simp add: map_of_eq_None_iff)
  then have "list_all (\<lambda>p. p = [] \<or> p \<in> set (map fst t)) (prefixes q)"
    using assms(1) unfolding tree_ok_def list_all_iff by blast
  then have "p \<in> set (map fst t)" using assms(3,4) by (simp only: list_all_iff set_prefixes_eq) blast
  then show False using assms(2) by (simp add: map_of_eq_None_iff)
qed

end
