(* ===== verification/Sessions.thy ===== *)
theory Sessions
  imports Loop
begin

text \<open>
  Conversations: the store of sessions (\<^verbatim>\<open>core/session_store.py\<close>) and the engine that runs a turn of
  one (\<^verbatim>\<open>core/session_engine.py\<close>).

  A session is a record \<^verbatim>\<open>session.json\<close> and an append-only transcript \<^verbatim>\<open>transcript.jsonl\<close>, a text of
  one JSON object per line. The engine replays the transcript into the state of a fresh run, runs one
  agent loop, resolves the approvals the loop stops for and then, once, appends the message and the
  reply. The files of the store are the record \<open>session_files\<close>, apart from the files of the runs,
  which are in the world of the agent.

  Results: the text of a transcript represents a list of messages, and appending and reading it back
  refine the operations of the list, for messages without the character NEL, which
  \<^verbatim>\<open>splitlines\<close> takes for a line end and \<^verbatim>\<open>json.dumps\<close> does not escape; a turn that is not waiting
  for an approval is committed, whatever the hook at its end does; a turn ends when the turns of its
  runs are limited, however often it stops for an approval.
\<close>

section \<open>The store\<close>

record session_message =
  sm_seq :: int
  sm_role :: string
  sm_content :: string
  sm_run_id :: "string option"

definition message_to_dict :: "session_message \<Rightarrow> jdict" where
  "message_to_dict m =
     [(''seq'', JInt (sm_seq m)), (''run_id'', opt_str (sm_run_id m)), (''role'', JStr (sm_role m)), (''content'', JStr (sm_content m))]"

definition message_from_dict :: "jdict \<Rightarrow> session_message result" where
  "message_from_dict d =
     bind_res (bind_res (need_key d ''seq'') int_of_json) (\<lambda>seq.
     bind_res (bind_res (need_key d ''role'') get_str) (\<lambda>role.
     bind_res (get_opt_str (jget d ''run_id'')) (\<lambda>rid.
       Inr \<lparr>sm_seq = seq, sm_role = role, sm_content = py_str (jget_or d ''content'' (JStr [])), sm_run_id = rid\<rparr>)))"

record session_record =
  sr_schema_version :: int
  sr_session_id :: string
  sr_project_root :: string
  sr_title :: string
  sr_created_at :: string
  sr_updated_at :: string
  sr_turns :: "string list"
  sr_compaction :: jdict

definition record_to_dict :: "session_record \<Rightarrow> jdict" where
  "record_to_dict r =
     [(''schema_version'', JInt (sr_schema_version r)), (''session_id'', JStr (sr_session_id r)), (''project_root'', JStr (sr_project_root r)),
      (''title'', JStr (sr_title r)), (''created_at'', JStr (sr_created_at r)), (''updated_at'', JStr (sr_updated_at r)),
      (''turns'', strs (sr_turns r)), (''compaction'', JDict (sr_compaction r))]"

definition record_from_dict :: "jdict \<Rightarrow> session_record result" where
  "record_from_dict d =
     bind_res (int_of_json (jget_or d ''schema_version'' (JInt 1))) (\<lambda>schema.
     bind_res (get_strs (jget_or d ''turns'' (JList []))) (\<lambda>ts.
     bind_res (get_dict (jget_or d ''compaction'' (JDict []))) (\<lambda>compaction.
       Inr \<lparr>sr_schema_version = schema, sr_session_id = py_str (jget_or d ''session_id'' (JStr [])),
         sr_project_root = py_str (jget_or d ''project_root'' (JStr [])), sr_title = py_str (jget_or d ''title'' (JStr [])),
         sr_created_at = py_str (jget_or d ''created_at'' (JStr [])), sr_updated_at = py_str (jget_or d ''updated_at'' (JStr [])),
         sr_turns = ts, sr_compaction = compaction\<rparr>)))"

text \<open>The files under the root of the store: the JSON documents, the transcripts, the directories of the
  sessions in the order a listing gives them, and how often the clock was read.\<close>

record session_files =
  sf_docs :: files
  sf_texts :: "string \<Rightarrow> string option"
  sf_dirs :: "string list"
  sf_clock :: nat

record session_store =
  ss_root :: string
  ss_now :: "nat \<Rightarrow> string" \<comment> \<open>the n-th reading of the clock, as text\<close>
  ss_new_id :: "nat \<Rightarrow> string" \<comment> \<open>a fresh session id: the time and a random suffix\<close>
  ss_resolve :: "string \<Rightarrow> string" \<comment> \<open>\<^verbatim>\<open>Path(p).resolve()\<close>\<close>

definition session_dir :: "session_store \<Rightarrow> string \<Rightarrow> string" where
  "session_dir s sid = ss_root s @ ''/'' @ sid"

definition session_json :: "session_store \<Rightarrow> string \<Rightarrow> string" where
  "session_json s sid = session_dir s sid @ ''/session.json''"

definition transcript_path :: "session_store \<Rightarrow> string \<Rightarrow> string" where
  "transcript_path s sid = session_dir s sid @ ''/transcript.jsonl''"

definition session_runs_dir :: "session_store \<Rightarrow> string \<Rightarrow> string" where
  "session_runs_dir s sid = session_dir s sid @ ''/runs''"

definition session_exists :: "session_store \<Rightarrow> string \<Rightarrow> session_files \<Rightarrow> bool" where
  "session_exists s sid f = (sf_docs f (session_json s sid) \<noteq> None)"

definition make_dir :: "string \<Rightarrow> session_files \<Rightarrow> session_files" where
  "make_dir sid f = (if sid \<in> set (sf_dirs f) then f else f\<lparr>sf_dirs := sf_dirs f @ [sid]\<rparr>)"

text \<open>\<^verbatim>\<open>_write_record\<close> stamps the record it is given.\<close>

definition stamp :: "session_store \<Rightarrow> session_record \<times> session_files \<Rightarrow> session_record \<times> session_files" where
  "stamp s = (\<lambda>(r, f). (r\<lparr>sr_updated_at := ss_now s (sf_clock f)\<rparr>, f\<lparr>sf_clock := Suc (sf_clock f)\<rparr>))"

definition write_record :: "session_store \<Rightarrow> session_record \<Rightarrow> session_files \<Rightarrow> session_record \<times> session_files" where
  "write_record s r f =
     (let (r1, f1) = stamp s (r, f);
          f2 = make_dir (sr_session_id r1) f1
      in (r1, f2\<lparr>sf_docs := (sf_docs f2)(session_json s (sr_session_id r1) \<mapsto> record_to_dict r1)\<rparr>))"

definition create_session :: "session_store \<Rightarrow> string \<Rightarrow> string \<Rightarrow> session_files \<Rightarrow> session_record \<times> session_files" where
  "create_session s project title f =
     (let n = sf_clock f; sid = ss_new_id s n; path = transcript_path s sid;
          r = \<lparr>sr_schema_version = 1, sr_session_id = sid, sr_project_root = ss_resolve s project, sr_title = title,
               sr_created_at = ss_now s (n + 1), sr_updated_at = ss_now s (n + 2), sr_turns = [], sr_compaction = []\<rparr>;
          f1 = make_dir sid (f\<lparr>sf_clock := n + 3\<rparr>);
          f2 = (if sf_texts f1 path = None then f1\<lparr>sf_texts := (sf_texts f1)(path \<mapsto> [])\<rparr> else f1)
      in write_record s r f2)"

text \<open>A missing session is \<^verbatim>\<open>SessionNotFoundError\<close>, a \<^verbatim>\<open>KeyError\<close>.\<close>

definition load_session :: "session_store \<Rightarrow> string \<Rightarrow> session_files \<Rightarrow> session_record result" where
  "load_session s sid f =
     (case sf_docs f (session_json s sid) of None \<Rightarrow> Inl KeyError | Some d \<Rightarrow> record_from_dict d)"

definition save_session :: "session_store \<Rightarrow> session_record \<Rightarrow> session_files \<Rightarrow> session_record \<times> session_files" where
  "save_session s r f = (let (r1, f1) = stamp s (r, f) in write_record s r1 f1)"

text \<open>Newest first; a reversed sort of Python keeps the order of equal keys.\<close>

definition list_sessions :: "session_store \<Rightarrow> session_files \<Rightarrow> session_record list result" where
  "list_sessions s f =
     bind_res (mapM_res (\<lambda>sid. load_session s sid f) (filter (\<lambda>sid. session_exists s sid f) (sf_dirs f))) (\<lambda>rs.
       Inr (rev (sort_key sr_updated_at (rev rs))))"

definition edit_session ::
  "session_store \<Rightarrow> string \<Rightarrow> (session_record \<Rightarrow> session_record) \<Rightarrow> session_files \<Rightarrow> (session_record \<times> session_files) result" where
  "edit_session s sid change f = bind_res (load_session s sid f) (\<lambda>r. Inr (write_record s (change r) f))"

definition rename_session :: "session_store \<Rightarrow> string \<Rightarrow> string \<Rightarrow> session_files \<Rightarrow> (session_record \<times> session_files) result" where
  "rename_session s sid title = edit_session s sid (\<lambda>r. r\<lparr>sr_title := title\<rparr>)"

definition add_turn :: "session_store \<Rightarrow> string \<Rightarrow> string \<Rightarrow> session_files \<Rightarrow> (session_record \<times> session_files) result" where
  "add_turn s sid rid =
     edit_session s sid (\<lambda>r. if rid \<in> set (sr_turns r) then r else r\<lparr>sr_turns := sr_turns r @ [rid]\<rparr>)"

definition set_compaction :: "session_store \<Rightarrow> string \<Rightarrow> string \<Rightarrow> int \<Rightarrow> session_files \<Rightarrow> (session_record \<times> session_files) result" where
  "set_compaction s sid summary retained =
     edit_session s sid (\<lambda>r. r\<lparr>sr_compaction := [(''summary'', JStr summary), (''retained_from_seq'', JInt retained)]\<rparr>)"

text \<open>The transcript: reading skips blank lines; a line that is not a JSON object raises.\<close>

definition message_of_line :: "string \<Rightarrow> session_message result" where
  "message_of_line l =
     bind_res (json_loads l) (\<lambda>v. case v of JDict d \<Rightarrow> message_from_dict d | _ \<Rightarrow> Inl TypeError)"

definition messages_of_text :: "string \<Rightarrow> session_message list result" where
  "messages_of_text t =
     mapM_res message_of_line (filter (\<lambda>l. l \<noteq> []) (map strip (splitlines (universal_newlines t))))"

definition read_transcript :: "session_store \<Rightarrow> string \<Rightarrow> session_files \<Rightarrow> session_message list result" where
  "read_transcript s sid f =
     (case sf_texts f (transcript_path s sid) of None \<Rightarrow> Inr [] | Some t \<Rightarrow> messages_of_text t)"

definition message_line :: "session_message \<Rightarrow> string" where
  "message_line m = dumps (JDict (message_to_dict m)) @ [nl]"

definition next_seq :: "session_message list \<Rightarrow> int" where
  "next_seq ms = (case ms of [] \<Rightarrow> 0 | m # rest \<Rightarrow> Max (sm_seq ` set (m # rest))) + 1"

text \<open>Opening a file of a session without a directory is an \<^verbatim>\<open>OSError\<close>.\<close>

definition append_message ::
  "session_store \<Rightarrow> string \<Rightarrow> string \<Rightarrow> string \<Rightarrow> string option \<Rightarrow> session_files \<Rightarrow> (session_message \<times> session_files) result" where
  "append_message s sid role content rid f =
     bind_res (read_transcript s sid f) (\<lambda>existing.
       let m = \<lparr>sm_seq = next_seq existing, sm_role = role, sm_content = content, sm_run_id = rid\<rparr>;
           path = transcript_path s sid;
           old = (case sf_texts f path of None \<Rightarrow> [] | Some t \<Rightarrow> t)
       in if sid \<notin> set (sf_dirs f) then Inl (RuntimeError ''No such file or directory'')
          else Inr (m, f\<lparr>sf_texts := (sf_texts f)(path \<mapsto> old @ message_line m)\<rparr>))"

definition history_message :: "session_message \<Rightarrow> jdict" where
  "history_message m = [(''role'', JStr (sm_role m)), (''content'', JStr (sm_content m))]"

definition history_messages :: "session_store \<Rightarrow> string \<Rightarrow> session_files \<Rightarrow> jdict list result" where
  "history_messages s sid f = bind_res (read_transcript s sid f) (\<lambda>ms. Inr (map history_message ms))"

section \<open>The engine\<close>

text \<open>A loop is built for every run: its factory may change the state, as attaching the profile of the
  repository does. A hook gets the counter of turns it keeps and tells whether it raised.\<close>

type_synonym end_hook = "string \<Rightarrow> committed_turn \<Rightarrow> int \<times> agent_io \<Rightarrow> bool \<times> int \<times> agent_io"

record session_engine =
  se_store :: session_store
  se_factory :: "run_state \<Rightarrow> agent_loop \<times> run_state"
  se_env :: env
  se_run_id :: "nat \<Rightarrow> string" \<comment> \<open>a fresh run id\<close>
  se_executor :: "executor option"
  se_on_approval :: "(agent \<Rightarrow> string) option"
  se_on_turn_end :: "end_hook option"

record session_turn =
  sn_run_id :: string
  sn_user_message :: string
  sn_reply :: string
  sn_status :: string

record conversation =
  cv_agent :: agent
  cv_files :: session_files
  cv_hook_turns :: int

definition is_deny :: "string \<Rightarrow> bool" where
  "is_deny decision = startswith (lower (strip decision)) ''deny''"

definition deny_reason :: "string \<Rightarrow> string" where
  "deny_reason decision =
     (let d = strip decision
      in if lower d = ''deny'' then ''User denied the action.''
         else
           (let rest = strip (dropWhile (\<lambda>c. c = CHR '':'' \<or> c = CHR '' '') (drop 4 d))
            in if rest = [] then ''User denied the action.'' else rest))"

definition assistant_reply :: "run_state \<Rightarrow> string" where
  "assistant_reply st =
     (case final_answer st of
        Some (c # cs) \<Rightarrow> c # cs
      | _ \<Rightarrow>
          if status st = ''waiting_approval'' then
            (case approval_question st of
               Some (c # cs) \<Rightarrow> c # cs
             | _ \<Rightarrow> if open_questions st \<noteq> [] then last (open_questions st) else ''Waiting for approval.'')
          else state_summary st)"

definition awaits_approval :: "run_state \<Rightarrow> bool" where
  "awaits_approval st = (status st = ''waiting_approval'' \<and> pending_action st \<noteq> None)"

text \<open>A new loop, with a new runner and a new builder, over the state of the turn.\<close>

definition fresh_agent :: "agent \<Rightarrow> agent" where
  "fresh_agent a = a\<lparr>ag_errors := 0, ag_io := (ag_io a)\<lparr>io_previous := []\<rparr>\<rparr>"

definition run_fresh :: "session_engine \<Rightarrow> agent \<Rightarrow> agent raised option" where
  "run_fresh e a = (let (al, st) = se_factory e (run_of a) in agent_run al st None (fresh_agent a))"

definition apply_decision :: "session_engine \<Rightarrow> string \<Rightarrow> agent \<Rightarrow> agent" where
  "apply_decision e decision a =
     (let (st, w) = (if is_deny decision then deny (se_env e) (deny_reason decision) (run_of a) (ag_world a)
                     else approve (se_env e) (run_of a) (ag_world a))
      in (with_run (\<lambda>_. st) a)\<lparr>ag_world := w\<rparr>)"

definition apply_pending :: "session_engine \<Rightarrow> executor \<Rightarrow> agent \<Rightarrow> agent raised" where
  "apply_pending e exec a =
     bind_res (raising (apply_pending_approval_result (se_env e) exec (run_of a) (ag_world a))) (\<lambda>(st, w).
       Inr ((with_run (\<lambda>_. st) a)\<lparr>ag_world := w\<rparr>))"

text \<open>The loop of \<^verbatim>\<open>_run_turn\<close>; it need not end.\<close>

partial_function (option) approvals_loop :: "session_engine \<Rightarrow> executor \<Rightarrow> (agent \<Rightarrow> string) \<Rightarrow> agent \<Rightarrow> agent raised option" where
  "approvals_loop e exec ask a =
     (if \<not> awaits_approval (run_of a) then Some (Inr a)
      else
        (case apply_pending e exec (apply_decision e (ask a) a) of
           Inl err \<Rightarrow> Some (Inl err)
         | Inr a1 \<Rightarrow>
             if status (run_of a1) \<noteq> ''running'' then Some (Inr a1)
             else
               (case run_fresh e a1 of
                  None \<Rightarrow> None
                | Some (Inl err) \<Rightarrow> Some (Inl err)
                | Some (Inr a2) \<Rightarrow> approvals_loop e exec ask a2)))"

definition run_turn :: "session_engine \<Rightarrow> agent \<Rightarrow> agent raised option" where
  "run_turn e a =
     (case run_fresh e a of
        Some (Inr a1) \<Rightarrow>
          (case (se_executor e, se_on_approval e) of
             (Some exec, Some ask) \<Rightarrow> approvals_loop e exec ask a1
           | _ \<Rightarrow> Some (Inr a1))
      | r \<Rightarrow> r)"

text \<open>The hook at the end of a turn: an exception becomes a metric.\<close>

definition invoke_turn_end :: "session_engine \<Rightarrow> string \<Rightarrow> session_turn \<Rightarrow> conversation \<Rightarrow> conversation" where
  "invoke_turn_end e sid t c =
     (case se_on_turn_end e of
        None \<Rightarrow> c
      | Some hook \<Rightarrow>
          (let ct = \<lparr>ct_user_message = sn_user_message t, ct_assistant_reply = sn_reply t, ct_run_id = sn_run_id t\<rparr>;
               (failed, n, s) = hook sid ct (cv_hook_turns c, ag_io (cv_agent c));
               a = (cv_agent c)\<lparr>ag_io := s\<rparr>
           in c\<lparr>cv_agent := (if failed then with_run (bump ''memory_turn_end_hook_errors'') a else a), cv_hook_turns := n\<rparr>))"

definition record_turn :: "session_engine \<Rightarrow> string \<Rightarrow> session_turn \<Rightarrow> session_files \<Rightarrow> session_files result" where
  "record_turn e sid t f =
     bind_res (append_message (se_store e) sid ''user'' (sn_user_message t) (Some (sn_run_id t)) f) (\<lambda>(_, f1).
     bind_res (append_message (se_store e) sid ''assistant'' (sn_reply t) (Some (sn_run_id t)) f1) (\<lambda>(_, f2).
     bind_res (add_turn (se_store e) sid (sn_run_id t) f2) (\<lambda>(_, f3). Inr f3)))"

definition commit_turn :: "session_engine \<Rightarrow> string \<Rightarrow> session_turn \<Rightarrow> conversation \<Rightarrow> (session_turn \<times> conversation) raised" where
  "commit_turn e sid t c =
     (let c1 = invoke_turn_end e sid t c
      in bind_res (raising (record_turn e sid t (cv_files c1))) (\<lambda>f. Inr (t, c1\<lparr>cv_files := f\<rparr>)))"

definition turn_state :: "session_engine \<Rightarrow> session_record \<Rightarrow> string \<Rightarrow> string \<Rightarrow> jdict list \<Rightarrow> nat \<Rightarrow> run_state" where
  "turn_state e r sid message past n =
     (let rid = se_run_id e n; rdir = session_runs_dir (se_store e) sid @ ''/'' @ rid
      in (start_state rid message (Some (path_of (sr_project_root r))) (Some rdir) (Some (rdir @ ''/artifacts'')) None [] ''daily_development'' [])
           \<lparr>session_history := past\<rparr>)"

definition turn_of_state :: "string \<Rightarrow> string \<Rightarrow> run_state \<Rightarrow> session_turn" where
  "turn_of_state rid message st = \<lparr>sn_run_id = rid, sn_user_message = message, sn_reply = assistant_reply st, sn_status = status st\<rparr>"

definition submit_turn :: "session_engine \<Rightarrow> string \<Rightarrow> string \<Rightarrow> conversation \<Rightarrow> (session_turn \<times> conversation) raised option" where
  "submit_turn e sid message c =
     (case bind_res (load_session (se_store e) sid (cv_files c)) (\<lambda>r.
             bind_res (history_messages (se_store e) sid (cv_files c)) (\<lambda>past. Inr (r, past))) of
        Inl err \<Rightarrow> Some (Inl (Raised err))
      | Inr (r, past) \<Rightarrow>
          (let st = turn_state e r sid message past (clock (ag_world (cv_agent c)))
           in case run_turn e (with_run (\<lambda>_. st) (cv_agent c)) of
                None \<Rightarrow> None
              | Some (Inl err) \<Rightarrow> Some (Inl err)
              | Some (Inr a) \<Rightarrow>
                  (let t = turn_of_state (run_id st) message (run_of a); c1 = c\<lparr>cv_agent := a\<rparr>
                   in if awaits_approval (run_of a) then Some (Inr (t, c1)) else Some (commit_turn e sid t c1))))"

text \<open>\<^verbatim>\<open>resolve_turn\<close>: the run is read back from its directory.\<close>

definition paused_run :: "session_engine \<Rightarrow> string \<Rightarrow> string \<Rightarrow> conversation \<Rightarrow> run_state result" where
  "paused_run e sid rid c =
     bind_res (load_run_state (docs (ag_world (cv_agent c))) (session_runs_dir (se_store e) sid @ ''/'' @ rid @ ''/state.json'')) (\<lambda>st.
     bind_res (history_messages (se_store e) sid (cv_files c)) (\<lambda>past.
       if pending_action st = None then Inl (ValueError (''Run '' @ rid @ '' has no pending action to resolve.''))
       else Inr (st\<lparr>session_history := past\<rparr>)))"

definition resumed_turn :: "session_engine \<Rightarrow> executor \<Rightarrow> string \<Rightarrow> agent \<Rightarrow> agent raised option" where
  "resumed_turn e exec decision a =
     (case apply_pending e exec (apply_decision e decision a) of
        Inl err \<Rightarrow> Some (Inl err)
      | Inr a1 \<Rightarrow> if status (run_of a1) = ''running'' then run_fresh e a1 else Some (Inr a1))"

definition resolve_turn :: "session_engine \<Rightarrow> string \<Rightarrow> string \<Rightarrow> string \<Rightarrow> conversation \<Rightarrow> (session_turn \<times> conversation) raised option" where
  "resolve_turn e sid rid decision c =
     (case paused_run e sid rid c of
        Inl err \<Rightarrow> Some (Inl (Raised err))
      | Inr st \<Rightarrow>
          (case se_executor e of
             None \<Rightarrow> Some (Inl (Raised (ValueError ''A SessionEngine with no executor cannot resolve approvals.'')))
           | Some exec \<Rightarrow>
               (case resumed_turn e exec decision (with_run (\<lambda>_. st) (cv_agent c)) of
                  None \<Rightarrow> None
                | Some (Inl err) \<Rightarrow> Some (Inl err)
                | Some (Inr a) \<Rightarrow>
                    Some (commit_turn e sid (turn_of_state rid (rs_goal (run_of a)) (run_of a)) (c\<lparr>cv_agent := a\<rparr>)))))"

text \<open>The memory hook of \<open>LongTerm\<close> as the hook of an engine.\<close>

definition memory_hook :: "turn_hook \<Rightarrow> end_hook" where
  "memory_hook h sid t = (\<lambda>(n, s). (False, turn_end h sid t n s))"

section \<open>A transcript is a list of messages\<close>

text \<open>An append-only log: what a text stands for, and the two operations on it.\<close>

locale append_log =
  fixes stands_for :: "'t \<Rightarrow> 'm list \<Rightarrow> bool"
    and read :: "'t \<Rightarrow> 'e + 'm list"
    and add :: "'m \<Rightarrow> 't \<Rightarrow> 't"
    and ok :: "'m \<Rightarrow> bool"
    and empty :: 't
  assumes stands_empty: "stands_for empty []"
    and stands_add: "stands_for t ms \<Longrightarrow> ok m \<Longrightarrow> stands_for (add m t) (ms @ [m])"
    and read_back: "stands_for t ms \<Longrightarrow> read t = Inr ms"
begin

lemma stands_fold: "stands_for t ms \<Longrightarrow> list_all ok xs \<Longrightarrow> stands_for (fold add xs t) (ms @ xs)"
proof (induction xs arbitrary: t ms)
  case (Cons x xs)
  then show ?case using stands_add [of t ms x] Cons.IH [of "add x t" "ms @ [x]"] by simp
qed simp

lemma read_log: "list_all ok xs \<Longrightarrow> read (fold add xs empty) = Inr xs"
  using stands_fold [OF stands_empty] read_back by fastforce

end

definition one_line :: "string \<Rightarrow> bool" where \<comment> \<open>no NEL, the one line end of Latin-1 that JSON leaves as it is\<close>
  "one_line s = (CHR 0x85 \<notin> set s)"

definition message_ok :: "session_message \<Rightarrow> bool" where
  "message_ok m =
     (one_line (sm_role m) \<and> one_line (sm_content m) \<and> (case sm_run_id m of None \<Rightarrow> True | Some r \<Rightarrow> one_line r) \<and> plain (JInt (sm_seq m)))"

definition represents :: "string \<Rightarrow> session_message list \<Rightarrow> bool" where
  "represents t ms = (t = concat (map message_line ms) \<and> list_all message_ok ms)"

lemma char_of_nat_133: "char_of (133 :: nat) = CHR 0x85"
  by code_simp

lemma printed_char: "32 \<le> ord c \<Longrightarrow> c \<noteq> CHR 0x85 \<Longrightarrow> \<not> is_line_end c"
proof -
  have "ord c \<noteq> 133" if "c \<noteq> CHR 0x85" using that by (metis char_of_char char_of_nat_133)
  then show "32 \<le> ord c \<Longrightarrow> c \<noteq> CHR 0x85 \<Longrightarrow> \<not> is_line_end c" by (auto simp: is_line_end_def Let_def)
qed

lemma escape_one_line:
  assumes "c \<noteq> CHR 0x85" "x \<in> set (escape_char c)"
  shows "\<not> is_line_end x"
proof -
  have hex: "\<not> is_line_end (hex_digit d)" if "d < 16" for d
    using that by (auto simp: hex_digit_def is_line_end_def)
  have letters: "\<forall>y \<in> {dq, bsl, CHR ''n'', CHR ''r'', CHR ''t'', CHR ''f'', CHR ''b'', CHR ''u'', CHR ''0''}. \<not> is_line_end y"
    by (simp add: is_line_end_def)
  have "ord c < 256" using nat_of_char_less_256 [of c] by simp
  then have digits: "ord c div 16 < 16" "ord c mod 16 < 16" by (simp_all add: less_mult_imp_div_less)
  have "x = c \<and> 32 \<le> ord c \<or> x \<in> {hex_digit (ord c div 16), hex_digit (ord c mod 16)} \<or>
      x \<in> {dq, bsl, CHR ''n'', CHR ''r'', CHR ''t'', CHR ''f'', CHR ''b'', CHR ''u'', CHR ''0''}"
    using assms(2) by (auto simp: escape_char_def split: if_splits)
  then show ?thesis using hex [OF digits(1)] hex [OF digits(2)] letters printed_char [OF _ assms(1)] by blast
qed

lemma dumps_str_line:
  assumes "one_line s"
  shows "\<forall>x \<in> set (dumps_str s). \<not> is_line_end x"
proof
  fix x assume "x \<in> set (dumps_str s)"
  then have "x = dq \<or> (\<exists>c \<in> set s. x \<in> set (escape_char c))" by (auto simp: dumps_str_def)
  moreover have "\<not> is_line_end dq" by (simp add: is_line_end_def)
  moreover have "c \<noteq> CHR 0x85" if "c \<in> set s" for c using that assms by (auto simp: one_line_def)
  ultimately show "\<not> is_line_end x" using escape_one_line by blast
qed

lemma str_int_line: "\<forall>x \<in> set (str_int n). \<not> is_line_end x"
proof -
  have digit: "is_digit c \<Longrightarrow> \<not> is_line_end c" for c by (auto simp: is_digit_def is_line_end_def Let_def)
  show ?thesis using str_nat_digits digit by (auto simp: str_int_def is_line_end_def)
qed

lemma message_dump_line:
  assumes "message_ok m"
  shows "\<forall>x \<in> set (dumps (JDict (message_to_dict m))). \<not> is_line_end x"
proof -
  have keys: "\<forall>x \<in> set (dumps_str k). \<not> is_line_end x" if "k \<in> set [''seq'', ''run_id'', ''role'', ''content'']" for k
    using that by (intro dumps_str_line) (auto simp: one_line_def)
  have "\<forall>x \<in> set (dumps (opt_str (sm_run_id m))). \<not> is_line_end x"
    using assms dumps_str_line by (auto simp: message_ok_def opt_str_def is_line_end_def split: option.splits)
  moreover have "\<forall>x \<in> set (dumps_str (sm_role m)) \<union> set (dumps_str (sm_content m)). \<not> is_line_end x"
    using assms dumps_str_line by (auto simp: message_ok_def)
  moreover have "\<forall>c \<in> set ''{}, :''. \<not> is_line_end c" by (simp add: is_line_end_def)
  ultimately show ?thesis
    using keys [of "''seq''"] keys [of "''run_id''"] keys [of "''role''"] keys [of "''content''"] str_int_line [of "sm_seq m"]
    by (simp add: message_to_dict_def ball_Un)
qed

lemma splitlines_line: "\<forall>x \<in> set s. \<not> is_line_end x \<Longrightarrow> splitlines (s @ nl # t) = s # splitlines t"
proof -
  have end_nl: "is_line_end nl" by (simp add: is_line_end_def)
  have "\<forall>x \<in> set s. \<not> is_line_end x \<Longrightarrow> lines_acc acc (s @ nl # t) = (rev acc @ s) # lines_acc [] t" for acc
  proof (induction s arbitrary: acc)
    case Nil
    then show ?case by (cases t) (simp_all add: end_nl)
  next
    case (Cons c s)
    moreover have "c \<noteq> CHR 0x0D" using Cons.prems by (auto simp: is_line_end_def)
    ultimately show ?case by (cases "s @ nl # t") auto
  qed
  then show "\<forall>x \<in> set s. \<not> is_line_end x \<Longrightarrow> splitlines (s @ nl # t) = s # splitlines t" by (simp add: splitlines_def)
qed

lemma universal_id: "CHR 0x0D \<notin> set s \<Longrightarrow> universal_newlines s = s"
  by (induction s rule: universal_newlines.induct) auto

lemma no_return:
  assumes "represents t ms"
  shows "CHR 0x0D \<notin> set t"
proof
  assume "CHR 0x0D \<in> set t"
  then obtain m where "message_ok m" "CHR 0x0D \<in> set (message_line m)"
    using assms by (auto simp: represents_def list_all_iff)
  then show False using message_dump_line [of m] by (auto simp: message_line_def is_line_end_def simp del: dumps.simps)
qed

lemma message_round_trip: "message_from_dict (message_to_dict m) = Inr m"
  by (cases m) (auto simp: message_from_dict_def message_to_dict_def need_key_def jget_def jget_or_def opt_str_def get_opt_str_def get_str_def
      split: option.splits)

lemma plain_message: "message_ok m \<Longrightarrow> plain (JDict (message_to_dict m))"
  by (simp add: message_ok_def message_to_dict_def opt_str_def split: option.splits)

lemma line_read:
  assumes "message_ok m"
  shows "strip (dumps (JDict (message_to_dict m))) = dumps (JDict (message_to_dict m))"
    "message_of_line (dumps (JDict (message_to_dict m))) = Inr m"
  using plain_message [OF assms]
  by (simp_all add: strip_id stripped_dumps_dict message_of_line_def loads_dumps message_round_trip del: dumps.simps plain.simps bind_res_eq_Inr)

lemma split_transcript:
  "list_all message_ok ms \<Longrightarrow>
   splitlines (concat (map message_line ms)) = map (\<lambda>m. dumps (JDict (message_to_dict m))) ms"
proof (induction ms)
  case Nil
  then show ?case by (simp add: splitlines_def)
next
  case (Cons m ms)
  then show ?case using splitlines_line [OF message_dump_line, of m] by (simp add: message_line_def del: dumps.simps)
qed

lemma lines_read:
  "list_all message_ok ms \<Longrightarrow>
   mapM_res message_of_line (filter (\<lambda>l. l \<noteq> []) (map strip (map (\<lambda>m. dumps (JDict (message_to_dict m))) ms))) = Inr ms"
proof (induction ms)
  case (Cons m ms)
  moreover have "dumps (JDict (message_to_dict m)) \<noteq> []" by simp
  ultimately show ?case using line_read [of m] by (simp del: dumps.simps)
qed simp

lemma represents_read:
  assumes "represents t ms"
  shows "messages_of_text t = Inr ms"
  using assms lines_read [of ms] split_transcript [of ms] universal_id [OF no_return [OF assms]]
  by (simp add: messages_of_text_def represents_def del: dumps.simps map_map)

interpretation transcript_log: append_log represents messages_of_text "\<lambda>m t. t @ message_line m" message_ok "[]"
  by unfold_locales (simp_all add: represents_read, simp_all add: represents_def)

section \<open>Appending and committing\<close>

text \<open>What a session holds: its record, a transcript whose messages are numbered from 1, and its directory.\<close>

definition session_holds ::
  "session_store \<Rightarrow> string \<Rightarrow> session_record \<Rightarrow> session_message list \<Rightarrow> session_files \<Rightarrow> bool" where
  "session_holds s sid r ms f =
     (load_session s sid f = Inr r \<and> sr_session_id r = sid \<and> sid \<in> set (sf_dirs f) \<and>
      (\<exists>t. sf_texts f (transcript_path s sid) = Some t \<and> represents t ms) \<and> map sm_seq ms = map int [1..<Suc (length ms)])"

lemma record_round_trip: "record_from_dict (record_to_dict r) = Inr r"
  by (cases r) (simp add: record_from_dict_def record_to_dict_def jget_or_def get_dict_def get_strs_strs)

lemma next_numbered:
  assumes "map sm_seq ms = map int [1..<Suc (length ms)]"
  shows "next_seq ms = int (length ms) + 1"
proof (cases ms)
  case (Cons m rest)
  have "sm_seq ` set ms = int ` {1..<Suc (length ms)}"
    using assms by (metis list.set_map set_upt)
  moreover have "Max (int ` {1..<Suc (length ms)}) = int (length ms)"
  proof (rule Max_eqI)
    show "int (length ms) \<in> int ` {1..<Suc (length ms)}" using Cons by (intro imageI) simp
  qed auto
  ultimately show ?thesis using Cons by (simp add: next_seq_def)
qed (simp add: next_seq_def)

lemma digits_bound: "n < 10 ^ k \<Longrightarrow> 0 < k \<Longrightarrow> length (str_nat n) \<le> k"
proof (induction n arbitrary: k rule: str_nat.induct)
  case (1 n)
  show ?case
  proof (cases "n < 10")
    case True
    then show ?thesis using 1 by (subst str_nat.simps) simp
  next
    case False
    then obtain j where k: "k = Suc j" "0 < j" using 1(2,3) by (cases k; cases "k - 1") auto
    then have "n div 10 < 10 ^ j" using 1(2) by (simp add: less_mult_imp_div_less mult.commute)
    then have "length (str_nat (n div 10)) \<le> j" using 1(1) False k by simp
    then show ?thesis using False k by (subst str_nat.simps) simp
  qed
qed

lemma some_digits: "0 < max_str_digits"
  by (simp add: max_str_digits_def)

text \<open>Room for one more message: its number is within the limit of Python's conversion of integers.\<close>

definition room :: "nat \<Rightarrow> bool" where
  "room n = (n < 10 ^ max_str_digits)"

lemma append_holds:
  assumes "session_holds s sid r ms f" "one_line role" "one_line content" "one_line rid" "room (Suc (length ms))"
  shows "\<exists>f'. append_message s sid role content (Some rid) f =
      Inr (\<lparr>sm_seq = int (length ms) + 1, sm_role = role, sm_content = content, sm_run_id = Some rid\<rparr>, f') \<and>
    session_holds s sid r (ms @ [\<lparr>sm_seq = int (length ms) + 1, sm_role = role, sm_content = content, sm_run_id = Some rid\<rparr>]) f' \<and>
    sf_docs f' = sf_docs f \<and> (\<forall>p. p \<noteq> transcript_path s sid \<longrightarrow> sf_texts f' p = sf_texts f p)"
proof -
  let ?m = "\<lparr>sm_seq = int (length ms) + 1, sm_role = role, sm_content = content, sm_run_id = Some rid\<rparr>"
  obtain t where t: "sf_texts f (transcript_path s sid) = Some t" "represents t ms"
    using assms(1) by (auto simp: session_holds_def)
  have next_m: "next_seq ms = int (length ms) + 1" using assms(1) next_numbered by (simp add: session_holds_def)
  have ok: "message_ok ?m"
    using assms(2-5) digits_bound [OF _ some_digits, of "Suc (length ms)"]
    by (simp add: message_ok_def room_def nat_add_distrib)
  let ?f = "f\<lparr>sf_texts := (sf_texts f)(transcript_path s sid \<mapsto> t @ message_line ?m)\<rparr>"
  have "append_message s sid role content (Some rid) f = Inr (?m, ?f)"
    using assms(1) t transcript_log.read_back [OF t(2)]
    by (simp add: append_message_def read_transcript_def next_m session_holds_def Let_def)
  moreover have "session_holds s sid r (ms @ [?m]) ?f"
    using assms(1) transcript_log.stands_add [OF t(2) ok] by (simp add: session_holds_def load_session_def)
  ultimately show ?thesis by simp
qed

lemma add_turn_holds:
  assumes "session_holds s sid r ms f"
  shows "\<exists>r' f'. add_turn s sid rid f = Inr (r', f') \<and> session_holds s sid r' ms f' \<and>
    sr_turns r' = (if rid \<in> set (sr_turns r) then sr_turns r else sr_turns r @ [rid]) \<and> sf_texts f' = sf_texts f \<and>
    sr_project_root r' = sr_project_root r \<and> sr_title r' = sr_title r \<and> sr_compaction r' = sr_compaction r"
  using assms by (auto simp: add_turn_def edit_session_def session_holds_def write_record_def stamp_def make_dir_def Let_def
      load_session_def record_round_trip)

lemma record_turn_holds:
  assumes "session_holds s sid r ms f" "se_store e = s" "one_line (sn_user_message t)" "one_line (sn_reply t)" "one_line (sn_run_id t)"
    "room (length ms + 2)"
  shows "\<exists>r' f'. record_turn e sid t f = Inr f' \<and>
    session_holds s sid r'
      (ms @ [\<lparr>sm_seq = int (length ms) + 1, sm_role = ''user'', sm_content = sn_user_message t, sm_run_id = Some (sn_run_id t)\<rparr>,
             \<lparr>sm_seq = int (length ms) + 2, sm_role = ''assistant'', sm_content = sn_reply t, sm_run_id = Some (sn_run_id t)\<rparr>]) f' \<and>
    sr_turns r' = (if sn_run_id t \<in> set (sr_turns r) then sr_turns r else sr_turns r @ [sn_run_id t]) \<and>
    (\<forall>p. p \<noteq> transcript_path s sid \<longrightarrow> sf_texts f' p = sf_texts f p)"
proof -
  have roles: "one_line ''user''" "one_line ''assistant''" by (simp_all add: one_line_def)
  have rooms: "room (Suc (length ms))" "room (Suc (Suc (length ms)))" using assms(6) by (simp_all add: room_def)
  let ?u = "\<lparr>sm_seq = int (length ms) + 1, sm_role = ''user'', sm_content = sn_user_message t, sm_run_id = Some (sn_run_id t)\<rparr>"
  obtain f1 where f1: "append_message s sid ''user'' (sn_user_message t) (Some (sn_run_id t)) f = Inr (?u, f1)"
      "session_holds s sid r (ms @ [?u]) f1" "\<forall>p. p \<noteq> transcript_path s sid \<longrightarrow> sf_texts f1 p = sf_texts f p"
    using append_holds [OF assms(1) roles(1) assms(3,5) rooms(1)] by blast
  have two: "int (length (ms @ [?u])) + 1 = int (length ms) + 2" by simp
  obtain m f2 where f2: "append_message s sid ''assistant'' (sn_reply t) (Some (sn_run_id t)) f1 = Inr (m, f2)"
      "session_holds s sid r ((ms @ [?u]) @ [m]) f2" "\<forall>p. p \<noteq> transcript_path s sid \<longrightarrow> sf_texts f2 p = sf_texts f1 p"
      "m = \<lparr>sm_seq = int (length ms) + 2, sm_role = ''assistant'', sm_content = sn_reply t, sm_run_id = Some (sn_run_id t)\<rparr>"
    using append_holds [OF f1(2) roles(2) assms(4,5), unfolded two] rooms(2) by auto
  obtain r' f3 where f3: "add_turn s sid (sn_run_id t) f2 = Inr (r', f3)" "session_holds s sid r' ((ms @ [?u]) @ [m]) f3"
      "sr_turns r' = (if sn_run_id t \<in> set (sr_turns r) then sr_turns r else sr_turns r @ [sn_run_id t])" "sf_texts f3 = sf_texts f2"
    using add_turn_holds [OF f2(2)] by blast
  have "record_turn e sid t f = Inr f3" using f1(1) f2(1) f3(1) assms(2) by (simp add: record_turn_def)
  then show ?thesis using f1(3) f2(3,4) f3 by auto
qed

lemma invoke_files [simp]: "cv_files (invoke_turn_end e sid t c) = cv_files c"
  by (simp add: invoke_turn_end_def Let_def split: option.split prod.split)

section \<open>A turn ends\<close>

text \<open>What is asked of an engine: every loop it builds is sound, limits the turns and has a source of turns that answers, and
  its factory leaves status and turns of the state alone.\<close>

definition sound_engine :: "session_engine \<Rightarrow> int \<Rightarrow> bool" where
  "sound_engine e limit =
     (0 < limit \<and> (\<forall>exec. se_executor e = Some exec \<longrightarrow> bash_executor exec) \<and>
      (\<forall>st al st'. se_factory e st = (al, st') \<longrightarrow>
         sound_agent al \<and> lc_max_turns (al_config al) = limit \<and> (\<forall>ms st rn. al_turn al ms st rn \<noteq> None) \<and>
         status st' = status st \<and> mget (metrics st') ''turns'' = mget (metrics st) ''turns''))"

lemma run_fresh_result:
  assumes "sound_engine e limit"
  shows "run_fresh e a \<noteq> None"
    "run_fresh e a = Some (Inr a') \<Longrightarrow> status (run_of a) = ''running'' \<Longrightarrow> awaits_approval (run_of a') \<Longrightarrow>
       turns_of a < turns_of a' \<and> turns_of a' \<le> limit"
proof -
  obtain al st where f: "se_factory e (run_of a) = (al, st)" by fastforce
  have al: "sound_agent al" "lc_max_turns (al_config al) = limit" "\<And>ms st rn. al_turn al ms st rn \<noteq> None" "0 < limit"
      "status st = status (run_of a)" "mget (metrics st) ''turns'' = turns_of a"
    using assms f unfolding sound_engine_def turns_of_def by blast+
  show "run_fresh e a \<noteq> None" using agent_run_ends [OF al(1) _ al(3)] al(2,4) by (simp add: run_fresh_def f)
  assume r: "run_fresh e a = Some (Inr a')" "status (run_of a) = ''running''" "awaits_approval (run_of a')"
  have start: "turns_of ((with_run (\<lambda>_. st) (fresh_agent a))\<lparr>ag_steps := []\<rparr>) = turns_of a"
      "status (run_of ((with_run (\<lambda>_. st) (fresh_agent a))\<lparr>ag_steps := []\<rparr>)) = ''running''"
    using al(5,6) r(2) by (simp_all add: turns_of_def)
  have "reached al ((with_run (\<lambda>_. st) (fresh_agent a))\<lparr>ag_steps := []\<rparr>) a'"
    using agent_run_reached [OF al(1), of st None "fresh_agent a" a'] r(1) by (simp add: run_fresh_def f)
  then show "turns_of a < turns_of a' \<and> turns_of a' \<le> limit"
    using start r(3) al(2,4) by (auto simp: reached_def awaits_approval_def)
qed

lemma kept_reply:
  assumes "bash_executor exec" "apply_pending_approval_result en exec st w = Inr (st', w')"
  shows "kept st st'"
proof (cases "\<exists>action d. pending_action st = Some action \<and> latest_approval_result st = Some d \<and> jget d ''status'' = JStr ''approved''")
  case True
  then obtain action ob st1 w1 where j: "journaled_run en exec action (st\<lparr>pending_action := None, approval_question := None, status := ''running''\<rparr>) w
        = Inr (ob, st1, w1)"
    "st' = (record_execution_metrics ob st1)\<lparr>last_observation := Some ob,
        state_summary := ''Approved pending action was executed before resuming the agent loop.''\<rparr>"
    using assms(2) by (auto simp: apply_pending_approval_result_def)
  have "kept st st1" using kept_journaled(1) [OF assms(1) j(1)] by (simp add: kept_def)
  then show ?thesis using kept_execution(1) [of st1 ob] kept_trans by (simp add: j(2))
next
  case False
  then show ?thesis using assms(2) by (auto simp: apply_pending_approval_result_def Let_def kept_def split: option.splits if_splits)
qed

lemma apply_pending_kept:
  assumes "bash_executor exec" "apply_pending e exec (apply_decision e decision a) = Inr a'"
  shows "kept (run_of a) (run_of a')"
proof -
  let ?d = "apply_decision e decision a"
  have "kept (run_of a) (run_of ?d)"
    by (simp add: apply_decision_def deny_def approve_def Let_def kept_def)
  moreover have "kept (run_of ?d) (run_of a')"
    using assms(2) kept_reply [OF assms(1)] by (auto simp: apply_pending_def)
  ultimately show ?thesis by (rule kept_trans)
qed

lemma approvals_end:
  assumes "sound_engine e limit" "bash_executor exec"
  shows "turns_of a \<le> limit \<Longrightarrow> approvals_loop e exec ask a \<noteq> None"
proof (induction "nat (limit - turns_of a)" arbitrary: a rule: less_induct)
  case less
  show ?case
  proof (cases "\<exists>a1. awaits_approval (run_of a) \<and> apply_pending e exec (apply_decision e (ask a) a) = Inr a1 \<and> status (run_of a1) = ''running''")
    case True
    then obtain a1 where a1: "awaits_approval (run_of a)" "apply_pending e exec (apply_decision e (ask a) a) = Inr a1" "status (run_of a1) = ''running''"
      by blast
    have same: "turns_of a1 = turns_of a" using apply_pending_kept [OF assms(2) a1(2)] kept_counts by blast
    note fresh = run_fresh_result [OF assms(1), of a1]
    show ?thesis
    proof (cases "\<exists>a2. run_fresh e a1 = Some (Inr a2) \<and> awaits_approval (run_of a2)")
      case True
      then obtain a2 where a2: "run_fresh e a1 = Some (Inr a2)" "awaits_approval (run_of a2)" by blast
      then have "turns_of a < turns_of a2" "turns_of a2 \<le> limit" using fresh(2) [of a2] a1(3) same by simp_all
      then have "approvals_loop e exec ask a2 \<noteq> None" using less.hyps [of a2] by simp
      then show ?thesis using a1 a2 by (subst approvals_loop.simps) simp
    next
      case False
      moreover obtain r where "run_fresh e a1 = Some r" using fresh(1) by blast
      moreover have "approvals_loop e exec ask b = Some (Inr b)" if "\<not> awaits_approval (run_of b)" for b
        using that by (subst approvals_loop.simps) simp
      ultimately show ?thesis using a1 by (subst approvals_loop.simps) (auto split: sum.split)
    qed
  next
    case False
    then show ?thesis by (subst approvals_loop.simps) (auto split: sum.split)
  qed
qed

lemma run_turn_ends:
  assumes "sound_engine e limit" "status (run_of a) = ''running''"
  shows "run_turn e a \<noteq> None"
proof -
  obtain r where r: "run_fresh e a = Some r" using run_fresh_result(1) [OF assms(1)] by blast
  have loop: "approvals_loop e exec ask a1 \<noteq> None" if "se_executor e = Some exec" "r = Inr a1" for exec ask a1
  proof (cases "awaits_approval (run_of a1)")
    case True
    have "bash_executor exec" using assms(1) that(1) unfolding sound_engine_def by blast
    then show ?thesis using approvals_end [OF assms(1)] run_fresh_result(2) [OF assms(1) _ assms(2) True] r that(2) by simp
  next
    case False
    then show ?thesis by (subst approvals_loop.simps) simp
  qed
  then show ?thesis using r by (auto simp: run_turn_def split: sum.split option.split)
qed

section \<open>Properties\<close>


text \<open>C4: A turn of a conversation ends: with sound loops that limit their turns, submitting a message returns or raises,
  however often the run stops for an approval and whatever is decided; so does resolving an approval.\<close>

theorem conversation_turn_ends:
  assumes "sound_engine e limit"
  shows "(\<exists>r. submit_turn e sid message c = Some r) \<and> (\<exists>r. resolve_turn e sid rid decision c = Some r)"
proof -
  have started: "\<exists>x. run_turn e (with_run (\<lambda>_. turn_state e r sid message past n) a) = Some x" for r past n a
    using run_turn_ends [OF assms, of "with_run (\<lambda>_. turn_state e r sid message past n) a"]
    by (simp add: turn_state_def start_state_def Let_def)
  have "submit_turn e sid message c \<noteq> None"
    using started by (auto simp: submit_turn_def Let_def split: sum.split option.split)
      (metis option.distinct(1))
  moreover have "\<exists>x. resumed_turn e exec decision a = Some x" for exec a
    using run_fresh_result(1) [OF assms] by (simp add: resumed_turn_def split: sum.split)
  then have "resolve_turn e sid rid decision c \<noteq> None"
    by (auto simp: resolve_turn_def split: sum.split option.split) (metis option.distinct(1))
  ultimately show ?thesis by blast
qed

text \<open>A session of one message, and an engine whose loop has no turn left.\<close>

definition sample_store :: session_store where
  "sample_store = \<lparr>ss_root = ''/s'', ss_now = (\<lambda>_. ''t''), ss_new_id = (\<lambda>_. ''id''), ss_resolve = (\<lambda>p. p)\<rparr>"

definition sample_record :: session_record where
  "sample_record = \<lparr>sr_schema_version = 1, sr_session_id = ''id'', sr_project_root = ''/p'', sr_title = [], sr_created_at = ''t'',
     sr_updated_at = ''t'', sr_turns = [], sr_compaction = []\<rparr>"

definition sample_message :: session_message where
  "sample_message = \<lparr>sm_seq = 1, sm_role = ''user'', sm_content = ''hello'', sm_run_id = None\<rparr>"

definition sample_files :: session_files where
  "sample_files = \<lparr>sf_docs = [session_json sample_store ''id'' \<mapsto> record_to_dict sample_record],
     sf_texts = [transcript_path sample_store ''id'' \<mapsto> message_line sample_message], sf_dirs = [''id''], sf_clock = 0\<rparr>"

definition sample_engine :: session_engine where
  "sample_engine = \<lparr>se_store = sample_store, se_factory = (\<lambda>st. (sample_loop, st\<lparr>run_dir := None, metrics := [(''turns'', JInt 1)]\<rparr>)),
     se_env = sample_env, se_run_id = (\<lambda>_. ''run''), se_executor = None, se_on_approval = None, se_on_turn_end = None\<rparr>"

definition sample_conversation :: conversation where
  "sample_conversation = \<lparr>cv_agent = sample_agent, cv_files = sample_files, cv_hook_turns = 0\<rparr>"

lemma sample_holds: "session_holds sample_store ''id'' sample_record [sample_message] sample_files"
proof -
  have "message_ok sample_message" by code_simp
  then show ?thesis
    by (simp add: session_holds_def sample_files_def load_session_def record_round_trip represents_def sample_message_def)
      (simp add: sample_record_def)
qed

lemma sample_turn:
  assumes "rs_goal st = message" "state_summary st = []" "final_answer st = None" "status st = ''running''"
  shows "\<exists>a. run_turn sample_engine (with_run (\<lambda>_. st) sample_agent) = Some (Inr a) \<and> status (run_of a) = ''failed'' \<and>
    assistant_reply (run_of a) = ''Run failed because max_turns was exhausted.''"
proof -
  let ?st = "st\<lparr>run_dir := None, metrics := [(''turns'', JInt 1)]\<rparr>"
  let ?a = "fresh_agent (with_run (\<lambda>_. st) sample_agent)"
  obtain base a1 where b: "begin_run sample_loop False ((with_run (\<lambda>_. ?st) ?a)\<lparr>ag_steps := []\<rparr>) = Inr (base, a1)"
      "turns_of a1 = 1" "status (run_of a1) = ''running''" "final_answer (run_of a1) = None" "run_dir (run_of a1) = None"
    using assms
    by (simp add: begin_run_def lifecycle_start_def checkpointed_def should_interrupt_def sample_loop_def default_loop_def
        turns_of_def Let_def mget_mset mget_single frame_simps) 
  let ?a2 = "with_run (session_fail ''Run failed because max_turns was exhausted.'') a1"
  have "loop_pass sample_loop 0 a1 = Some (Inr (False, ?a2))"
    using b(2) by (simp add: loop_pass_def out_of_time_def out_of_turns_def sample_loop_def default_loop_def turns_of_def)
  then have loop: "run_loop sample_loop 0 a1 = Some (Inr ?a2)"
    using b(3) by (subst run_loop.simps) simp
  obtain a3 where e: "end_run sample_loop base ?a2 = Inr a3" "status (run_of a3) = ''failed''" "final_answer (run_of a3) = None"
      "state_summary (run_of a3) = ''Run failed because max_turns was exhausted.''"
    using b(4,5) by (simp add: end_run_def lifecycle_finish_def Let_def session_fail_def mset_def)
  have "run_turn sample_engine (with_run (\<lambda>_. st) sample_agent) = Some (Inr a3)"
    using b(1) loop e(1) by (simp add: run_turn_def run_fresh_def sample_engine_def agent_run_def)
  then show ?thesis using e by (auto simp: assistant_reply_def)
qed


theorem conversation_turn_ends_witness:
  "\<exists>r. submit_turn (sample_engine\<lparr>se_factory := (\<lambda>st. (sample_loop, st))\<rparr>) ''id'' ''go'' sample_conversation = Some r"
proof -
  have "sound_engine (sample_engine\<lparr>se_factory := (\<lambda>st. (sample_loop, st))\<rparr>) 1"
    using sample_sound by (simp add: sound_engine_def sample_engine_def) (simp add: sample_loop_def default_loop_def)
  then show ?thesis using conversation_turn_ends by blast
qed

text \<open>A message with the character NEL makes the transcript unreadable, and with it every further turn of the session.\<close>

lemma nel_breaks_transcript:
  "messages_of_text (message_line (sample_message\<lparr>sm_content := [CHR 0x85]\<rparr>)) =
     Inl (JSONDecodeError ''Unterminated string starting at'')"
  by code_simp

end
