(* ===== verification/Ledger.thy ===== *)
theory Ledger
  imports Context Files
begin

text \<open>
  The evidence ledger (\<^verbatim>\<open>core/ledger.py\<close>): suites that are written once, as a whole or not at all, the
  index of the artifacts of a run, what the files of a run say about it, and the cleanup of old runs.

  The file system is the one of \<^verbatim>\<open>Files\<close>. SHA-256, the resolution of links, the times of modification and the
  reader of dates are arguments, as is which writes fail.

  Results: writing a suite never touches what is there, and leaves the complete suite or nothing; a
  cleanup removes only run directories directly under the root of the runs that no manifest names.
\<close>

section \<open>Files\<close>

record ledger_env =
  le_sha :: "string \<Rightarrow> string" \<comment> \<open>of the UTF-8 bytes of a text\<close>
  le_resolve :: "path \<Rightarrow> path"
  le_mtime :: "path \<Rightarrow> rat option" \<comment> \<open>\<^verbatim>\<open>stat().st_mtime\<close>, if it does not fail\<close>
  le_date :: "string \<Rightarrow> rat option" \<comment> \<open>\<^verbatim>\<open>datetime.fromisoformat\<close>, in seconds, where it accepts the text\<close>
  le_span :: "rat \<Rightarrow> string" \<comment> \<open>\<^verbatim>\<open>str\<close> of a time span\<close>
  le_suffix :: string \<comment> \<open>eight random digits\<close>
  le_fails :: "path \<Rightarrow> bool" \<comment> \<open>writing there raises\<close>

datatype ledger_exn = FileExistsErr string | OSErr | LedgerRaised exn

definition as_ledger :: "'a result \<Rightarrow> ledger_exn + 'a" where
  "as_ledger r = (case r of Inl err \<Rightarrow> Inl (LedgerRaised err) | Inr x \<Rightarrow> Inr x)"

text \<open>Writing a list of files, up to the first that fails.\<close>

fun write_all :: "ledger_env \<Rightarrow> (path \<times> string) list \<Rightarrow> tree \<Rightarrow> bool \<times> tree" where
  "write_all e [] t = (True, t)"
| "write_all e ((p, s) # rest) t = (if le_fails e p then (False, t) else write_all e rest (write_text p s t))"

definition json_text :: "jdict \<Rightarrow> string" where
  "json_text d = dumps_indent 0 (JDict d) @ [nl]"

definition read_dict :: "tree \<Rightarrow> path \<Rightarrow> jdict result" where \<comment> \<open>\<^verbatim>\<open>_read_json\<close>\<close>
  "read_dict t p =
     (if \<not> is_file t p then Inr []
      else
        (case json_loads (file_text t p) of
           Inl (JSONDecodeError _) \<Rightarrow> Inr []
         | Inl err \<Rightarrow> Inl err
         | Inr (JDict d) \<Rightarrow> Inr d
         | Inr _ \<Rightarrow> Inr []))"

definition safe_identifier :: "string \<Rightarrow> string \<Rightarrow> string result" where
  "safe_identifier kind v =
     (let s = strip v
      in if s = [] \<or> s \<in> {''.'', ''..''} \<or> CHR ''/'' \<in> set s \<or> bsl \<in> set s
         then Inl (ValueError (''Unsafe '' @ kind @ '': '' @ s)) else Inr s)"

section \<open>Suites\<close>

record suite_bundle =
  sb_id :: string
  sb_dir :: path
  sb_manifest :: path
  sb_report_json :: path
  sb_report_markdown :: path
  sb_report_csv :: path

definition bundle_at :: "string \<Rightarrow> path \<Rightarrow> suite_bundle" where
  "bundle_at sid d = \<lparr>sb_id = sid, sb_dir = d, sb_manifest = d @ [''manifest.json''], sb_report_json = d @ [''report.json''],
     sb_report_markdown = d @ [''report.md''], sb_report_csv = d @ [''report.csv'']\<rparr>"

lemma bundle_at_dir [simp]: "sb_dir (bundle_at sid d) = d"
  by (simp add: bundle_at_def)

definition artifact_entry :: "ledger_env \<Rightarrow> tree \<Rightarrow> path \<Rightarrow> json" where
  "artifact_entry e t p =
     (let s = file_text t p
      in JDict [(''path'', JStr (last p)), (''bytes'', JInt (utf8_length s)), (''sha256'', JStr (le_sha e s))])"

definition suite_manifest :: "ledger_env \<Rightarrow> jdict \<Rightarrow> path \<Rightarrow> tree \<Rightarrow> jdict" where
  "suite_manifest e manifest d t =
     AList.update ''artifacts''
       (JDict [(''report_json'', artifact_entry e t (d @ [''report.json''])), (''report_markdown'', artifact_entry e t (d @ [''report.md''])),
               (''report_csv'', artifact_entry e t (d @ [''report.csv'']))]) manifest"

definition suite_reports :: "path \<Rightarrow> jdict \<Rightarrow> string \<Rightarrow> string \<Rightarrow> (path \<times> string) list" where
  "suite_reports d report markdown csv =
     [(d @ [''report.json''], json_text report), (d @ [''report.md''], markdown), (d @ [''report.csv''], csv)]"

text \<open>The body of the \<^verbatim>\<open>try\<close>: the reports, the manifest with their hashes, and the move into place.\<close>

definition fill_suite :: "ledger_env \<Rightarrow> path \<Rightarrow> path \<Rightarrow> jdict \<Rightarrow> jdict \<Rightarrow> string \<Rightarrow> string \<Rightarrow> tree \<Rightarrow> bool \<times> tree" where
  "fill_suite e temp dir manifest report markdown csv t =
     (let (ok, t1) = write_all e (suite_reports temp report markdown csv) t
      in if \<not> ok then (False, t1)
         else
           (let (ok2, t2) = write_all e [(temp @ [''manifest.json''], json_text (suite_manifest e manifest temp t1))] t1
            in if \<not> ok2 \<or> le_fails e dir then (False, t2) else (True, move_tree temp dir t2)))"

definition temporary_dir :: "ledger_env \<Rightarrow> path \<Rightarrow> string \<Rightarrow> path" where
  "temporary_dir e base sid = base @ [''.'' @ sid @ ''.tmp-'' @ le_suffix e]"

definition write_suite ::
  "ledger_env \<Rightarrow> path \<Rightarrow> string \<Rightarrow> jdict \<Rightarrow> jdict \<Rightarrow> string \<Rightarrow> string \<Rightarrow> tree \<Rightarrow> (ledger_exn + suite_bundle) \<times> tree" where
  "write_suite e suites_root suite manifest report markdown csv t =
     (case safe_identifier ''suite id'' suite of
        Inl err \<Rightarrow> (Inl (LedgerRaised err), t)
      | Inr sid \<Rightarrow>
          (let base = le_resolve e suites_root; dir = base @ [sid]; temp = temporary_dir e base sid
           in if map_of t dir \<noteq> None then
                (Inl (FileExistsErr (''Suite evidence is immutable and already exists: '' @ path_text dir)), t)
              else if map_of t temp \<noteq> None then (Inl (FileExistsErr (path_text temp)), t)
              else
                (case fill_suite e temp dir manifest report markdown csv (make_dirs temp t) of
                   (False, t1) \<Rightarrow> (Inl OSErr, remove_tree temp t1)
                 | (True, t1) \<Rightarrow> (Inr (bundle_at sid dir), t1))))"

section \<open>The index of artifacts\<close>

definition indexed_artifact :: "ledger_env \<Rightarrow> tree \<Rightarrow> path \<Rightarrow> json" where
  "indexed_artifact e t p =
     (let s = file_text t p
      in JDict [(''path'', JStr (path_text (le_resolve e p))), (''bytes'', JInt (utf8_length s)), (''sha256'', JStr (le_sha e s))])"

definition index_payload :: "ledger_env \<Rightarrow> string \<Rightarrow> path \<Rightarrow> (string \<times> path) list \<Rightarrow> bool \<Rightarrow> tree \<Rightarrow> jdict" where
  "index_payload e rid run_path evidence hash t =
     (let normalized = map (\<lambda>(k, p). (k, le_resolve e p)) evidence
      in [(''schema_version'', JInt 2), (''entity_type'', JStr ''artifact_index''), (''run_id'', JStr rid),
          (''run_dir'', JStr (path_text (le_resolve e run_path))),
          (''evidence'', JDict (map (\<lambda>(k, p). (k, JStr (path_text p))) normalized))] @
         (if hash then
            [(''artifacts'', JDict (map (\<lambda>(k, p). (k, indexed_artifact e t p))
               (filter (\<lambda>(k, p). k \<noteq> ''suite_manifest'' \<and> is_file t p) normalized)))]
          else []))"

definition write_index ::
  "ledger_env \<Rightarrow> path \<Rightarrow> string \<Rightarrow> path \<Rightarrow> (string \<times> path) list \<Rightarrow> bool \<Rightarrow> tree \<Rightarrow> (ledger_exn + path) \<times> tree" where
  "write_index e base run run_path evidence hash t =
     (case safe_identifier ''run id'' run of
        Inl err \<Rightarrow> (Inl (LedgerRaised err), t)
      | Inr rid \<Rightarrow>
          (let target = le_resolve e base @ [rid, ''manifest.json'']; payload = index_payload e rid run_path evidence hash t
           in if map_of t target \<noteq> None then
                (case read_dict t target of
                   Inl err \<Rightarrow> (Inl (LedgerRaised err), t)
                 | Inr d \<Rightarrow>
                     if d = payload then (Inr target, t)
                     else (Inl (FileExistsErr (''Artifact index is immutable and already exists: '' @ path_text target)), t))
              else if le_fails e target then (Inl OSErr, make_dirs (butlast target) t)
              else (Inr target, write_text target (json_text payload) (make_dirs (butlast target) t))))"

section \<open>What the files of a run say\<close>

definition required_evidence :: "path list" where
  "required_evidence =
     [[''state.json''], [''trace.jsonl''], [''metrics.json''], [''workspace_manifest.json''], [''artifacts'', ''diff.patch'']]"

definition evidence_complete :: "tree \<Rightarrow> path \<Rightarrow> bool \<Rightarrow> bool" where
  "evidence_complete t d require_verifier =
     (is_dir t d \<and> list_all (\<lambda>p. is_file t (d @ p)) (required_evidence @ (if require_verifier then [[''eval_result.json'']] else [])))"

definition optional_bool :: "json \<Rightarrow> bool option" where
  "optional_bool v = (case v of JBool b \<Rightarrow> Some b | _ \<Rightarrow> None)"

definition schema_version_of :: "jdict \<Rightarrow> int result" where
  "schema_version_of d =
     (case int_of_json (jget_or d ''schema_version'' (JInt 1)) of
        Inl TypeError \<Rightarrow> Inr 1 | Inl (ValueError _) \<Rightarrow> Inr 1 | r \<Rightarrow> r)"

definition result_from_status :: "string \<Rightarrow> string" where
  "result_from_status s =
     (case map_of [(''completed'', ''PASS''), (''failed'', ''FAIL''), (''waiting_approval'', ''WAITING''), (''interrupted'', ''INTERRUPTED''),
        (''orphaned'', ''UNKNOWN''), (''running'', ''RUNNING'')] s of Some r \<Rightarrow> r | None \<Rightarrow> ''UNKNOWN'')"

text \<open>\<^verbatim>\<open>a or b\<close> of JSON values.\<close>

definition first_true :: "json list \<Rightarrow> json \<Rightarrow> json" where
  "first_true vs d = (case find truthy vs of Some v \<Rightarrow> v | None \<Rightarrow> d)"

definition zulu :: "string \<Rightarrow> string" where \<comment> \<open>\<^verbatim>\<open>replace("Z", "+00:00")\<close>\<close>
  "zulu s = concat (map (\<lambda>c. if c = CHR ''Z'' then ''+00:00'' else [c]) s)"

definition parse_datetime :: "ledger_env \<Rightarrow> json \<Rightarrow> rat option" where
  "parse_datetime e v = (if truthy v then le_date e (zulu (py_str v)) else None)"

definition is_stale :: "ledger_env \<Rightarrow> jdict \<Rightarrow> jdict \<Rightarrow> path \<Rightarrow> rat \<Rightarrow> rat \<Rightarrow> bool" where
  "is_stale e state ms d time orphan_after =
     (let sm = (case jget state ''metrics'' of JDict m \<Rightarrow> m | _ \<Rightarrow> []);
          started = first_true [jget ms ''started_at''] (jget sm ''started_at'')
      in case (case parse_datetime e started of Some x \<Rightarrow> Some x | None \<Rightarrow> le_mtime e d) of
           None \<Rightarrow> False
         | Some x \<Rightarrow> orphan_after \<le> time - x)"

record inspection =
  in_schema_version :: int
  in_semantics :: string
  in_run_id :: string
  in_suite_id :: string
  in_milestone :: string
  in_stage :: string
  in_status :: string
  in_status_source :: string
  in_result :: string
  in_task_success :: "bool option"
  in_agent_success :: "bool option"
  in_infrastructure_success :: "bool option"
  in_policy_outcome :: string
  in_formal_metric_eligible :: bool
  in_evidence_complete :: bool

definition inspect_run :: "ledger_env \<Rightarrow> tree \<Rightarrow> path \<Rightarrow> rat \<Rightarrow> rat \<Rightarrow> inspection result" where
  "inspect_run e t d time orphan_after =
     bind_res (read_dict t (d @ [''state.json''])) (\<lambda>state.
     bind_res (read_dict t (d @ [''metrics.json''])) (\<lambda>ms.
     bind_res (read_dict t (d @ [''eval_result.json''])) (\<lambda>eval.
     bind_res (read_dict t (d @ [''run_report.json''])) (\<lambda>report.
       let record = (if eval \<noteq> [] then eval else report)
       in bind_res (schema_version_of (if record \<noteq> [] then record else if ms \<noteq> [] then ms else state)) (\<lambda>version.
         let recorded = py_str (first_true [jget ms ''status'', jget state ''status''] (JStr ''unknown''));
             orphan = (recorded = ''running'' \<and> is_stale e state ms d time orphan_after);
             status = (if orphan then ''orphaned'' else recorded);
             current = (2 \<le> version);
             task = (if current then optional_bool (jget record ''task_success'') else None);
             agent = (if current then optional_bool (jget record ''agent_success'') else None);
             infra = (if current then optional_bool (jget record ''infrastructure_success'') else None);
             outcome = (if current then py_str (first_true [jget record ''policy_outcome''] (JStr ''unknown'')) else ''unknown'');
             whole = evidence_complete t d (truthy (jget state ''suite_id''));
             terminal = (status \<in> {''completed'', ''failed''} \<or> status = ''waiting_approval'' \<and> jget record ''passed'' = JBool True);
             text = (\<lambda>k. py_str (first_true [jget eval k, jget state k] (JStr [])))
         in Inr \<lparr>in_schema_version = version,
              in_semantics = (if current then (if record \<noteq> [] then ''v2'' else ''v2/incomplete'') else ''legacy/unknown''),
              in_run_id = py_str (first_true [jget state ''run_id''] (JStr (last d))), in_suite_id = text ''suite_id'',
              in_milestone = text ''milestone'', in_stage = text ''stage'', in_status = status,
              in_status_source = (if orphan then ''recovery_scan'' else ''recorded''), in_result = result_from_status status,
              in_task_success = task, in_agent_success = agent, in_infrastructure_success = infra, in_policy_outcome = outcome,
              in_formal_metric_eligible =
                (current \<and> whole \<and> terminal \<and> task \<noteq> None \<and> agent \<noteq> None \<and> infra \<noteq> None \<and> outcome \<noteq> ''unknown''),
              in_evidence_complete = whole\<rparr>)))))"

section \<open>Cleanup\<close>

fun extract_run_ids :: "json \<Rightarrow> string list" where
  "extract_run_ids (JDict kvs) =
     (case map_of kvs ''run_id'' of Some (JStr s) \<Rightarrow> if s = [] then [] else [s] | _ \<Rightarrow> []) @
     (case map_of kvs ''run_ids'' of Some (JList vs) \<Rightarrow> map py_str (filter truthy vs) | _ \<Rightarrow> []) @
     concat (map (\<lambda>kv. extract_run_ids (snd kv)) kvs)"
| "extract_run_ids (JList vs) = concat (map extract_run_ids vs)"
| "extract_run_ids _ = []"

definition manifests_in :: "tree \<Rightarrow> path \<Rightarrow> path list" where \<comment> \<open>\<^verbatim>\<open>*/manifest.json\<close>\<close>
  "manifests_in t base = filter (\<lambda>q. length q = length base + 2 \<and> last q = ''manifest.json'') (below t base)"

definition json_files_in :: "tree \<Rightarrow> path \<Rightarrow> path list" where \<comment> \<open>\<^verbatim>\<open>**/*.json\<close>\<close>
  "json_files_in t base = filter (\<lambda>q. startswith (rev (last q)) (rev ''.json'')) (below t base)"

definition referenced_run_ids :: "tree \<Rightarrow> path \<Rightarrow> path list \<Rightarrow> string list result" where
  "referenced_run_ids t base paths =
     (if map_of t base = None then Inr []
      else bind_res (mapM_res (read_dict t) paths) (\<lambda>ds. Inr (concat (map (\<lambda>d. extract_run_ids (JDict d)) ds))))"

record cleanup_candidate =
  cc_run_id :: string
  cc_run_dir :: path
  cc_reason :: string

record cleanup_plan =
  cp_runs_root :: path
  cp_protected :: "string list"
  cp_candidates :: "cleanup_candidate list"

definition protected_ids :: "tree \<Rightarrow> path \<Rightarrow> path option \<Rightarrow> path option \<Rightarrow> string list result" where
  "protected_ids t runs versions acceptance =
     bind_res (case versions of None \<Rightarrow> Inr [] | Some v \<Rightarrow> referenced_run_ids t v (manifests_in t v)) (\<lambda>a.
     bind_res (referenced_run_ids t (butlast runs @ [''suites'']) (manifests_in t (butlast runs @ [''suites'']))) (\<lambda>b.
     bind_res (case acceptance of None \<Rightarrow> Inr [] | Some v \<Rightarrow> referenced_run_ids t v (json_files_in t v)) (\<lambda>c.
       Inr (a @ b @ c))))"

definition plan_candidate :: "ledger_env \<Rightarrow> tree \<Rightarrow> string list \<Rightarrow> rat \<Rightarrow> rat \<Rightarrow> path \<Rightarrow> cleanup_candidate list result" where
  "plan_candidate e t protected time older_than d =
     (if last d = ''eval_reports'' \<or> last d \<in> set protected then Inr []
      else
        (case le_mtime e d of
           None \<Rightarrow> Inr []
         | Some modified \<Rightarrow>
             if time - older_than < modified then Inr []
             else
               bind_res (inspect_run e t d time older_than) (\<lambda>r.
                 Inr [\<lparr>cc_run_id = last d, cc_run_dir = le_resolve e d,
                       cc_reason = ''unreferenced '' @ in_status r @ '' run older than '' @ le_span e older_than\<rparr>])))"

definition build_cleanup_plan ::
  "ledger_env \<Rightarrow> tree \<Rightarrow> path \<Rightarrow> path option \<Rightarrow> path option \<Rightarrow> rat \<Rightarrow> rat \<Rightarrow> cleanup_plan result" where
  "build_cleanup_plan e t runs_base versions acceptance older_than time =
     (let runs = le_resolve e runs_base
      in bind_res (protected_ids t runs versions acceptance) (\<lambda>protected.
         bind_res
           (if map_of t runs = None then Inr []
            else mapM_res (plan_candidate e t protected time older_than) (sort (filter (is_dir t) (children t runs)))) (\<lambda>cs.
           Inr \<lparr>cp_runs_root = runs, cp_protected = sort (remdups protected), cp_candidates = concat cs\<rparr>)))"

record cleanup_result =
  cl_candidates :: "string list"
  cl_deleted :: "string list"
  cl_dry_run :: bool

fun delete_candidates :: "ledger_env \<Rightarrow> path \<Rightarrow> cleanup_candidate list \<Rightarrow> string list \<Rightarrow> tree \<Rightarrow> (exn + string list) \<times> tree" where
  "delete_candidates e base [] deleted t = (Inr deleted, t)"
| "delete_candidates e base (c # cs) deleted t =
     (let target = le_resolve e (cc_run_dir c)
      in if target = [] \<or> butlast target \<noteq> base \<or> last target \<noteq> cc_run_id c then
           (Inl (ValueError (''Cleanup candidate escapes runs base: '' @ path_text target)), t)
         else if is_dir t target then delete_candidates e base cs (deleted @ [cc_run_id c]) (remove_tree target t)
         else delete_candidates e base cs deleted t)"

definition apply_cleanup_plan :: "ledger_env \<Rightarrow> cleanup_plan \<Rightarrow> bool \<Rightarrow> tree \<Rightarrow> (exn + cleanup_result) \<times> tree" where
  "apply_cleanup_plan e plan apply_it t =
     (let ids = map cc_run_id (cp_candidates plan)
      in if \<not> apply_it then (Inr \<lparr>cl_candidates = ids, cl_deleted = [], cl_dry_run = True\<rparr>, t)
         else
           (case delete_candidates e (le_resolve e (cp_runs_root plan)) (cp_candidates plan) [] t of
              (r, t1) \<Rightarrow> (bind_res r (\<lambda>deleted. Inr \<lparr>cl_candidates = ids, cl_deleted = deleted, cl_dry_run = False\<rparr>), t1)))"

section \<open>What the operations do to the files\<close>

lemma write_all_frame:
  "write_all e fs t = (ok, t') \<Longrightarrow> list_all (\<lambda>(p, s). prefix d p) fs \<Longrightarrow> \<not> prefix d q \<Longrightarrow> map_of t' q = map_of t q"
  by (induction e fs t rule: write_all.induct) (auto simp: tree_simps split: if_splits)

lemma not_under_temp: "\<not> prefix (base @ [''.'' @ sid @ rest]) (base @ [sid] @ z)" "\<not> prefix (base @ [sid]) (base @ [''.'' @ sid @ rest])"
proof -
  have "length (''.'' @ sid @ rest) \<noteq> length sid" by simp
  then have "''.'' @ sid @ rest \<noteq> sid" by metis
  then show "\<not> prefix (base @ [''.'' @ sid @ rest]) (base @ [sid] @ z)" "\<not> prefix (base @ [sid]) (base @ [''.'' @ sid @ rest])"
    by auto
qed

lemma fill_suite_frame:
  assumes "fill_suite e temp dir manifest report markdown csv t = (False, t')" "\<not> prefix temp q"
  shows "map_of t' q = map_of t q"
proof -
  obtain ok t1 where a: "write_all e (suite_reports temp report markdown csv) t = (ok, t1)" by fastforce
  obtain ok2 t2 where b: "write_all e [(temp @ [''manifest.json''], json_text (suite_manifest e manifest temp t1))] t1 = (ok2, t2)" by fastforce
  have "map_of t1 q = map_of t q" using write_all_frame [OF a _ assms(2)] by (simp add: suite_reports_def)
  moreover have "map_of t2 q = map_of t1 q" using write_all_frame [OF b _ assms(2)] by simp
  moreover have "t' = t1 \<or> t' = t2" using assms(1) a b by (auto simp: fill_suite_def Let_def split: if_splits prod.splits)
  ultimately show ?thesis by auto
qed

text \<open>The suite as it is read back: the three reports and a manifest with their sizes and hashes.\<close>

definition text_entry :: "ledger_env \<Rightarrow> string \<Rightarrow> string \<Rightarrow> json" where
  "text_entry e name s = JDict [(''path'', JStr name), (''bytes'', JInt (utf8_length s)), (''sha256'', JStr (le_sha e s))]"

definition whole_suite :: "ledger_env \<Rightarrow> path \<Rightarrow> jdict \<Rightarrow> jdict \<Rightarrow> string \<Rightarrow> string \<Rightarrow> tree \<Rightarrow> bool" where
  "whole_suite e dir manifest report markdown csv t =
     (map_of t (dir @ [''report.json'']) = Some (FileNode (json_text report)) \<and> map_of t (dir @ [''report.md'']) = Some (FileNode markdown) \<and>
      map_of t (dir @ [''report.csv'']) = Some (FileNode csv) \<and>
      map_of t (dir @ [''manifest.json'']) =
        Some (FileNode (json_text (AList.update ''artifacts''
          (JDict [(''report_json'', text_entry e ''report.json'' (json_text report)), (''report_markdown'', text_entry e ''report.md'' markdown),
                  (''report_csv'', text_entry e ''report.csv'' csv)]) manifest))))"

lemma fill_suite_whole:
  assumes "fill_suite e temp dir manifest report markdown csv t = (True, t')"
    and "\<And>q. prefix dir q \<Longrightarrow> map_of t q = None" "\<not> prefix temp dir" "\<not> prefix dir temp"
  shows "whole_suite e dir manifest report markdown csv t'"
    "\<not> prefix temp q \<Longrightarrow> \<not> prefix dir q \<Longrightarrow> map_of t' q = map_of t q" "prefix temp q \<Longrightarrow> map_of t' q = None"
proof -
  obtain t1 where a: "write_all e (suite_reports temp report markdown csv) t = (True, t1)"
    using assms(1) by (auto simp: fill_suite_def Let_def split: if_splits prod.splits)
  define m where "m = json_text (suite_manifest e manifest temp t1)"
  define t2 where "t2 = write_text (temp @ [''manifest.json'']) m t1"
  have t': "t' = move_tree temp dir t2"
    using assms(1) a by (auto simp: fill_suite_def Let_def t2_def m_def split: if_splits)
  have t1: "t1 = write_text (temp @ [''report.csv'']) csv (write_text (temp @ [''report.md'']) markdown
      (write_text (temp @ [''report.json'']) (json_text report) t))"
    using a by (simp add: suite_reports_def split: if_splits)
  have apart: "\<not> prefix dir (temp @ [x])" for x using assms(3,4) by (auto simp: prefix_snoc)
  have none: "map_of t2 q = None" if "prefix dir q" for q
  proof -
    have "q \<noteq> temp @ [x]" for x using that apart by blast
    then show ?thesis using assms(2) [OF that] by (simp add: t2_def t1 map_of_write)
  qed
  have "\<forall>q \<in> set (map fst t2). \<not> prefix dir q"
  proof (intro ballI notI)
    fix q assume "q \<in> set (map fst t2)" "prefix dir q"
    then show False using none [of q] by (simp add: map_of_eq_None_iff)
  qed
  note moved = map_of_move [OF this, of temp, folded t']
  have m: "suite_manifest e manifest temp t1 = AList.update ''artifacts''
      (JDict [(''report_json'', text_entry e ''report.json'' (json_text report)), (''report_markdown'', text_entry e ''report.md'' markdown),
              (''report_csv'', text_entry e ''report.csv'' csv)]) manifest"
    by (simp add: suite_manifest_def artifact_entry_def text_entry_def file_text_def t1 map_of_write Let_def)
  have at: "map_of t' (dir @ z) = map_of t2 (temp @ z)" for z by (simp add: moved)
  have entry: "map_of t2 (temp @ [x]) = (if x = ''manifest.json'' then Some (FileNode m) else if x = ''report.csv'' then Some (FileNode csv)
      else if x = ''report.md'' then Some (FileNode markdown) else if x = ''report.json'' then Some (FileNode (json_text report))
      else map_of t (temp @ [x]))" for x
    unfolding t2_def t1 map_of_write by (simp only: same_append_eq list.inject simp_thms)
  show "whole_suite e dir manifest report markdown csv t'"
    unfolding whole_suite_def at entry m_def m by simp
  show "map_of t' q = map_of t q" if "\<not> prefix temp q" "\<not> prefix dir q"
  proof -
    have "q \<noteq> temp @ [x]" for x using that(1) by auto
    then have "map_of t2 q = map_of t q" unfolding t2_def t1 map_of_write by (simp only: if_False)
    then show ?thesis unfolding moved using that by (simp only: if_False)
  qed
  show "map_of t' q = None" if "prefix temp q"
  proof -
    have "\<not> prefix dir q" using that assms(3,4) prefix_same_cases by blast
    then show ?thesis unfolding moved using that by (simp only: if_False if_True)
  qed
qed

text \<open>What a plan promises of a candidate: an old directory right under the runs that no manifest names.\<close>

definition names_run :: "tree \<Rightarrow> path \<Rightarrow> path list \<Rightarrow> string \<Rightarrow> bool" where
  "names_run t base paths rid =
     (map_of t base \<noteq> None \<and> list_ex (\<lambda>p. case read_dict t p of Inr d \<Rightarrow> rid \<in> set (extract_run_ids (JDict d)) | Inl _ \<Rightarrow> False) paths)"

definition named_by_evidence :: "tree \<Rightarrow> path \<Rightarrow> path option \<Rightarrow> path option \<Rightarrow> string \<Rightarrow> bool" where
  "named_by_evidence t runs versions acceptance rid =
     (names_run t (butlast runs @ [''suites'']) (manifests_in t (butlast runs @ [''suites''])) rid \<or>
      (\<exists>v. versions = Some v \<and> names_run t v (manifests_in t v) rid) \<or>
      (\<exists>v. acceptance = Some v \<and> names_run t v (json_files_in t v) rid))"

lemma referenced_named:
  assumes "referenced_run_ids t base paths = Inr ids" "names_run t base paths rid"
  shows "rid \<in> set ids"
proof -
  obtain p where p: "p \<in> set paths" and named: "case read_dict t p of Inr d \<Rightarrow> rid \<in> set (extract_run_ids (JDict d)) | Inl _ \<Rightarrow> False"
    and there: "map_of t base \<noteq> None"
    using assms(2) by (auto simp only: names_run_def list_ex_iff)
  then obtain d where d: "read_dict t p = Inr d" "rid \<in> set (extract_run_ids (JDict d))" by (cases "read_dict t p") auto
  obtain ds where ds: "mapM_res (read_dict t) paths = Inr ds" and ids: "ids = concat (map (\<lambda>d. extract_run_ids (JDict d)) ds)"
    using assms(1) there by (auto simp: referenced_run_ids_def)
  have "d \<in> set ds" using ds p d(1) by (auto simp: mapM_res_eq_Inr list_all2_conv_all_nth in_set_conv_nth)
  then show ?thesis unfolding ids using d(2) by (simp del: extract_run_ids.simps) blast
qed

lemma protected_named:
  assumes "protected_ids t runs versions acceptance = Inr ids" "named_by_evidence t runs versions acceptance rid"
  shows "rid \<in> set ids"
proof -
  obtain a b c where a: "(case versions of None \<Rightarrow> Inr [] | Some v \<Rightarrow> referenced_run_ids t v (manifests_in t v)) = Inr a"
    and b: "referenced_run_ids t (butlast runs @ [''suites'']) (manifests_in t (butlast runs @ [''suites''])) = Inr b"
    and c: "(case acceptance of None \<Rightarrow> Inr [] | Some v \<Rightarrow> referenced_run_ids t v (json_files_in t v)) = Inr c"
    and ids: "ids = a @ b @ c"
    using assms(1) by (auto simp: protected_ids_def)
  show ?thesis
    using assms(2) referenced_named [OF b] a c referenced_named unfolding named_by_evidence_def ids by fastforce
qed

lemma plan_candidate_old:
  assumes "plan_candidate e t protected time older d = Inr cs" "c \<in> set cs"
  shows "cc_run_id c = last d \<and> last d \<noteq> ''eval_reports'' \<and> last d \<notin> set protected \<and>
    (\<exists>x. le_mtime e d = Some x \<and> x \<le> time - older)"
  using assms by (auto simp: plan_candidate_def not_less split: if_splits option.splits)

lemma child_path: "d \<in> set (children t p) \<Longrightarrow> d = p @ [last d]"
proof -
  assume "d \<in> set (children t p)"
  then obtain z where "d = p @ z" "length z = 1" by (auto simp: children_def below_def strict_prefix_def elim: prefixE)
  then show ?thesis by (auto simp: length_Suc_conv)
qed

lemma planned_candidates:
  assumes "build_cleanup_plan e t runs versions acceptance older time = Inr plan" "c \<in> set (cp_candidates plan)"
  shows "cc_run_id c \<noteq> ''eval_reports'' \<and> \<not> named_by_evidence t (le_resolve e runs) versions acceptance (cc_run_id c) \<and>
    (\<exists>x. le_mtime e (le_resolve e runs @ [cc_run_id c]) = Some x \<and> x \<le> time - older)"
proof -
  let ?runs = "le_resolve e runs"
  obtain protected css where protected: "protected_ids t ?runs versions acceptance = Inr protected"
    and css: "(if map_of t ?runs = None then Inr [] else
      mapM_res (plan_candidate e t protected time older) (sort (filter (is_dir t) (children t ?runs)))) = Inr css"
    and "cp_candidates plan = concat css"
    using assms(1) unfolding build_cleanup_plan_def Let_def bind_res_eq_Inr by fastforce
  then obtain cs where cs: "cs \<in> set css" "c \<in> set cs" using assms(2) by auto
  then have "css \<noteq> []" by auto
  then have "mapM_res (plan_candidate e t protected time older) (sort (filter (is_dir t) (children t ?runs))) = Inr css"
    using css by (auto split: if_splits)
  from mapM_res_all [OF this cs(1)] obtain d
    where d: "d \<in> set (children t ?runs)" "plan_candidate e t protected time older d = Inr cs" by auto
  show ?thesis
    using plan_candidate_old [OF d(2) cs(2)] child_path [OF d(1)] protected_named [OF protected] by metis
qed

text \<open>What is removed lies under a candidate right below the root.\<close>

lemma delete_candidates_frame:
  assumes "delete_candidates e base cs deleted t = (r, t')"
  shows "set t' \<subseteq> set t"
    "(q, n) \<in> set t \<Longrightarrow> (q, n) \<notin> set t' \<Longrightarrow> \<exists>c \<in> set cs. prefix (base @ [cc_run_id c]) q"
proof -
  have "set t' \<subseteq> set t \<and> ((q, n) \<in> set t \<longrightarrow> (q, n) \<notin> set t' \<longrightarrow> (\<exists>c \<in> set cs. prefix (base @ [cc_run_id c]) q))"
    using assms
  proof (induction e base cs deleted t rule: delete_candidates.induct)
    case (2 e base c cs deleted t)
    let ?target = "le_resolve e (cc_run_dir c)"
    show ?case
    proof (cases "?target = [] \<or> butlast ?target \<noteq> base \<or> last ?target \<noteq> cc_run_id c")
      case True
      then show ?thesis using "2.prems" by (simp add: Let_def)
    next
      case False
      then have target: "?target = base @ [cc_run_id c]" by (metis append_butlast_last_id)
      show ?thesis
      proof (cases "is_dir t ?target")
        case True
        then have "set t' \<subseteq> set (remove_tree ?target t) \<and> ((q, n) \<in> set (remove_tree ?target t) \<longrightarrow> (q, n) \<notin> set t' \<longrightarrow>
            (\<exists>c \<in> set cs. prefix (base @ [cc_run_id c]) q))"
          using "2.IH"(1) [OF refl False True] "2.prems" False by (simp add: Let_def)
        then show ?thesis by (auto simp: remove_tree_def target)
      next
        case False2: False
        then show ?thesis using "2.IH"(2) [OF refl False False2] "2.prems" False by (simp add: Let_def)
      qed
    qed
  qed auto
  then show "set t' \<subseteq> set t"
    "(q, n) \<in> set t \<Longrightarrow> (q, n) \<notin> set t' \<Longrightarrow> \<exists>c \<in> set cs. prefix (base @ [cc_run_id c]) q" by blast+
qed

section \<open>Properties\<close>

text \<open>C21: Evidence of a suite is immutable and whole. Writing a suite changes nothing that is there; if it raises, it leaves
  nothing but directories above the suites; if it returns, the directory of the suite is new and holds the reports and the
  manifest with the sizes and hashes of exactly these reports, and nothing else has appeared but directories above.\<close>

theorem suite_all_or_nothing:
  assumes "tree_ok t" "write_suite e suites_base suite manifest report markdown csv t = (r, t')"
  shows "(\<forall>q n. map_of t q = Some n \<longrightarrow> map_of t' q = Some n) \<and>
    (\<forall>q n. map_of t' q = Some n \<longrightarrow> map_of t q = Some n \<or> n = DirNode \<and> prefix q (le_resolve e suites_base) \<or>
       (\<exists>b. r = Inr b \<and> prefix (sb_dir b) q)) \<and>
    (\<forall>b. r = Inr b \<longrightarrow> map_of t (sb_dir b) = None \<and> whole_suite e (sb_dir b) manifest report markdown csv t')"
proof (cases "t' = t \<and> (\<forall>b. r \<noteq> Inr b)")
  case False
  let ?base = "le_resolve e suites_base"
  obtain sid where sid: "safe_identifier ''suite id'' suite = Inr sid"
    using assms(2) False by (auto simp: write_suite_def split: sum.splits)
  let ?dir = "?base @ [sid]" and ?temp = "temporary_dir e ?base sid"
  let ?t0 = "make_dirs ?temp t"
  have new: "map_of t ?dir = None" "map_of t ?temp = None"
    using assms(2) False sid by (auto simp: write_suite_def Let_def split: if_splits)
  have apart: "\<not> prefix ?temp ?dir" "\<not> prefix ?dir ?temp"
    using not_under_temp [of ?base sid "''.tmp-'' @ le_suffix e"] by (auto simp: temporary_dir_def)
  have temp_new: "map_of t q = None" if "prefix ?temp q" for q
    by (rule nothing_below [OF assms(1) new(2) _ that]) (simp add: temporary_dir_def)
  have dir_new: "map_of t q = None" if "prefix ?dir q" for q
    by (rule nothing_below [OF assms(1) new(1) _ that]) simp
  have above: "prefix q ?base" if "prefix q ?temp" "\<not> prefix ?temp q" for q
    using that by (auto simp: temporary_dir_def)
  have start: "map_of ?t0 q = (if map_of t q = None \<and> prefix q ?base \<and> q \<noteq> [] then Some DirNode else map_of t q)" if "\<not> prefix ?temp q" for q
    using that above [of q] by (auto simp: map_of_make temporary_dir_def intro: prefix_order.trans)
  obtain ok t1 where fill: "fill_suite e ?temp ?dir manifest report markdown csv ?t0 = (ok, t1)" by fastforce
  show ?thesis
  proof (cases ok)
    case True
    then have fill: "fill_suite e ?temp ?dir manifest report markdown csv ?t0 = (True, t')" and r: "r = Inr (bundle_at sid ?dir)"
      using assms(2) sid new fill by (auto simp: write_suite_def Let_def)
    have free: "map_of ?t0 q = None" if "prefix ?dir q" for q
      using that dir_new [OF that] apart start [of q] by (auto simp: map_of_make dest: prefix_order.trans)
    note w = fill_suite_whole [OF fill free apart]
    show ?thesis
    proof (intro conjI allI impI)
      fix q n assume "map_of t q = Some n"
      then show "map_of t' q = Some n" using w(2) [of q] temp_new [of q] dir_new [of q] start [of q] by fastforce
    next
      fix q n assume "map_of t' q = Some n"
      then show "map_of t q = Some n \<or> n = DirNode \<and> prefix q ?base \<or> (\<exists>b. r = Inr b \<and> prefix (sb_dir b) q)"
        using w(2,3) [of q] start [of q] by (cases "prefix ?temp q"; cases "prefix ?dir q") (auto simp: r split: if_splits)
    qed (use w(1) new r in auto)
  next
    case False
    then have t': "t' = remove_tree ?temp t1" and r: "r = Inl OSErr" using assms(2) sid new fill by (auto simp: write_suite_def Let_def)
    have same: "map_of t' q = (if prefix ?temp q then None else map_of ?t0 q)" for q
      using fill_suite_frame [of e ?temp ?dir manifest report markdown csv ?t0 t1 q] fill False by (simp add: t' map_of_remove)
    show ?thesis
      using same start temp_new by (auto simp: r split: if_splits)
  qed
qed auto


definition sample_ledger :: ledger_env where
  "sample_ledger = \<lparr>le_sha = id, le_resolve = id, le_mtime = (\<lambda>_. Some 0), le_date = (\<lambda>_. None), le_span = (\<lambda>_. ''1 day''),
     le_suffix = ''0'', le_fails = (\<lambda>_. False)\<rparr>"

theorem suite_all_or_nothing_witness:
  "whole_suite sample_ledger [''suites'', ''s1''] [] [] ''# report'' ''a,b''
     (snd (write_suite sample_ledger [''suites''] ''s1'' [] [] ''# report'' ''a,b'' []))"
proof -
  have "fst (write_suite sample_ledger [''suites''] ''s1'' [] [] ''# report'' ''a,b'' []) = Inr (bundle_at ''s1'' [''suites'', ''s1''])"
    by code_simp
  moreover have "tree_ok []" by code_simp
  ultimately show ?thesis
    using suite_all_or_nothing [of "[]" sample_ledger "[''suites'']" "''s1''" "[]" "[]" "''# report''" "''a,b''", OF _ prod.collapse [symmetric]]
    by simp
qed

text \<open>C22: A cleanup is safe. Applying a plan only removes; a dry run removes nothing; and whatever is removed lies under a
  directory right below the root of the runs that is not \<^verbatim>\<open>eval_reports\<close>, that no manifest of a suite, of a version or of an
  acceptance names as a run, and that is at least as old as asked.\<close>

theorem cleanup_safe:
  assumes "build_cleanup_plan e t runs versions acceptance older time = Inr plan" "apply_cleanup_plan e plan apply_it t1 = (r, t2)"
  shows "set t2 \<subseteq> set t1 \<and> (apply_it \<or> t2 = t1) \<and>
    (\<forall>(q, n) \<in> set t1 - set t2. \<exists>rid. prefix (le_resolve e (le_resolve e runs) @ [rid]) q \<and> rid \<noteq> ''eval_reports'' \<and>
       \<not> named_by_evidence t (le_resolve e runs) versions acceptance rid \<and>
       (\<exists>x. le_mtime e (le_resolve e runs @ [rid]) = Some x \<and> x \<le> time - older))"
proof -
  have root: "cp_runs_root plan = le_resolve e runs" using assms(1) by (auto simp: build_cleanup_plan_def Let_def)
  show ?thesis
  proof (cases apply_it)
    case True
    then obtain d where d: "delete_candidates e (le_resolve e (le_resolve e runs)) (cp_candidates plan) [] t1 = (d, t2)"
      using assms(2) by (auto simp: apply_cleanup_plan_def Let_def root split: prod.splits)
    show ?thesis
      using delete_candidates_frame [OF d] planned_candidates [OF assms(1)] True by fast
  qed (use assms(2) in \<open>simp add: apply_cleanup_plan_def\<close>)
qed

definition sample_runs :: tree where
  "sample_runs = [([''runs''], DirNode), ([''runs'', ''r1''], DirNode), ([''runs'', ''r1'', ''state.json''], FileNode ''{}''), ([''runs'', ''r2''], DirNode),
     ([''suites''], DirNode), ([''suites'', ''s1''], DirNode), ([''suites'', ''s1'', ''manifest.json''], FileNode ''{\"run_ids\": [\"r2\"]}'')]"

theorem cleanup_safe_witness:
  "\<exists>plan. build_cleanup_plan sample_ledger sample_runs [''runs''] None None 1 2 = Inr plan \<and> map cc_run_id (cp_candidates plan) = [''r1''] \<and>
     (\<forall>(q, n) \<in> set sample_runs - set (snd (apply_cleanup_plan sample_ledger plan True sample_runs)).
        \<exists>rid. prefix [''runs'', rid] q \<and> \<not> named_by_evidence sample_runs [''runs''] None None rid)"
proof -
  define plan where "plan = \<lparr>cp_runs_root = [''runs''], cp_protected = [''r2''],
    cp_candidates = [\<lparr>cc_run_id = ''r1'', cc_run_dir = [''runs'', ''r1''], cc_reason = ''unreferenced unknown run older than 1 day''\<rparr>]\<rparr>"
  have "build_cleanup_plan sample_ledger sample_runs [''runs''] None None 1 2 =
      Inr \<lparr>cp_runs_root = [''runs''], cp_protected = [''r2''],
        cp_candidates = [\<lparr>cc_run_id = ''r1'', cc_run_dir = [''runs'', ''r1''], cc_reason = ''unreferenced unknown run older than 1 day''\<rparr>]\<rparr>"
    by code_simp
  then have plan: "build_cleanup_plan sample_ledger sample_runs [''runs''] None None 1 2 = Inr plan" by (simp add: plan_def)
  have id: "le_resolve sample_ledger = id" by (simp add: sample_ledger_def)
  have "\<forall>(q, n) \<in> set sample_runs - set (snd (apply_cleanup_plan sample_ledger plan True sample_runs)).
      \<exists>rid. prefix [''runs'', rid] q \<and> \<not> named_by_evidence sample_runs [''runs''] None None rid"
    using cleanup_safe [OF plan prod.collapse [symmetric], of True sample_runs] unfolding id by fastforce
  then show ?thesis using plan by (intro exI [of _ plan]) (simp add: plan_def)
qed

end
