(* ===== verification/Workspace.thy ===== *)
theory Workspace
  imports Files Checkpoint
begin

text \<open>
  The workspace of a run (\<^verbatim>\<open>sandbox/workspace.py\<close>): a snapshot of the project, taken from its Git
  repository or by copying, without the paths that must never reach the agent; the manifest of the
  snapshot and the digest of its contents.

  A directory is a list of paths relative to it with their entries; what has something under it is a
  folder. Files hold bytes. Git, SHA-256, the clock and where links lead are arguments; what Git
  prints is given as text, a patch as bytes.

  Results: whatever Git and the project hold, nothing with a forbidden name is in the workspace
  outside the workspace's own \<^verbatim>\<open>.git\<close>; the files that are audited are exactly those without one; two
  directories have the same digest exactly when their audited files are the same, unless SHA-256
  collides.
\<close>

section \<open>Directories\<close>

datatype ws_entry = Regular string | Folder | Symlink string

type_synonym ws_tree = "(path \<times> ws_entry) list"

definition posix :: "path \<Rightarrow> string" where
  "posix p = join ''/'' p"

definition nodes_below :: "ws_tree \<Rightarrow> path \<Rightarrow> path list" where \<comment> \<open>\<^verbatim>\<open>rglob("*")\<close>\<close>
  "nodes_below t d = remdups (concat (map (\<lambda>q. filter (strict_prefix d) (prefixes q)) (map fst t)))"

definition dir_entries :: "ws_tree \<Rightarrow> path \<Rightarrow> path list" where \<comment> \<open>\<^verbatim>\<open>iterdir()\<close>\<close>
  "dir_entries t d = filter (\<lambda>p. length p = Suc (length d)) (nodes_below t d)"

definition node :: "ws_tree \<Rightarrow> path \<Rightarrow> ws_entry option" where
  "node t p = (if nodes_below t p \<noteq> [] then Some Folder else map_of t p)"

definition put_entry :: "path \<Rightarrow> ws_entry \<Rightarrow> ws_tree \<Rightarrow> ws_tree" where
  "put_entry p n t = AList.update p n t"

definition make_folders :: "path \<Rightarrow> ws_tree \<Rightarrow> ws_tree" where
  "make_folders p t =
     fold (\<lambda>q t. if map_of t q = None then t @ [(q, Folder)] else t) (filter (\<lambda>q. q \<noteq> []) (prefixes p)) t"

record workspace_env =
  wv_sha :: "string \<Rightarrow> string" \<comment> \<open>of bytes\<close>
  wv_git :: "string list \<Rightarrow> string \<Rightarrow> ws_tree \<Rightarrow> int \<times> string \<times> ws_tree" \<comment> \<open>code, output and what is left in the directory\<close>
  wv_clone :: "ws_tree \<Rightarrow> ws_tree option"
  wv_follow :: "ws_tree \<Rightarrow> path \<Rightarrow> path option" \<comment> \<open>where a link leads, if it stays in the directory\<close>
  wv_resolve :: "string \<Rightarrow> string"
  wv_now :: string

datatype ws_exn =
    NotADirectory string
  | CalledProcessError
  | UnsafePath string
  | NoPathParts \<comment> \<open>\<^verbatim>\<open>IndexError\<close> of \<^verbatim>\<open>parts[0]\<close>\<close>
  | NoBaseline
  | CopyError

fun utf8 :: "string \<Rightarrow> string" where
  "utf8 [] = []"
| "utf8 (c # s) =
     (if ord c < 128 then c # utf8 s else char_of (192 + ord c div 64) # char_of (128 + ord c mod 64) # utf8 s)"

section \<open>Which paths are kept out\<close>

definition hard_deny_names :: "string list" where
  "hard_deny_names =
     [''.git'', ''.hg'', ''.svn'', ''.venv'', ''venv'', ''env'', ''__pycache__'', ''.pytest_cache'', ''.mypy_cache'', ''.ruff_cache'',
      ''node_modules'', ''target'', ''.minicc'', ''.workbuddy'', ''dist'', ''build'']"

definition pure_parts :: "string \<Rightarrow> string list" where \<comment> \<open>\<^verbatim>\<open>PurePosixPath(s).parts\<close> of a relative path\<close>
  "pure_parts s = filter (\<lambda>p. p \<noteq> [] \<and> p \<noteq> ''.'') (split_slash s)"

definition casefold :: "string \<Rightarrow> string" where
  "casefold s = concat (map (\<lambda>c. if ord c = 223 then ''ss'' else [lower_char c]) s)"

definition relative_posix :: "string \<Rightarrow> string" where
  "relative_posix s = strip_char (CHR ''/'') (replace_char bsl (CHR ''/'') s)"

definition endswith :: "string \<Rightarrow> string \<Rightarrow> bool" where
  "endswith s z = startswith (rev s) (rev z)"

definition denied_name :: "string \<Rightarrow> bool" where
  "denied_name n =
     (n = ''.env'' \<or> startswith n ''.env.'' \<and> n \<noteq> ''.env.example'' \<or> endswith n ''.pyc'' \<or> endswith n ''.pyo'')"

definition hard_denied :: "string \<Rightarrow> bool" where
  "hard_denied s =
     (let parts = map casefold (pure_parts (relative_posix s))
      in list_ex (\<lambda>p. p \<in> set hard_deny_names) parts \<or> denied_name (if parts = [] then [] else last parts))"

text \<open>\<^verbatim>\<open>fnmatch.fnmatchcase\<close>: a set of characters ends at the first bracket that is not its first member.\<close>

definition split_set :: "string \<Rightarrow> (bool \<times> string \<times> string) option" where
  "split_set p =
     (let (neg, q) = (case p of c # q \<Rightarrow> if c = CHR ''!'' then (True, q) else (False, p) | [] \<Rightarrow> (False, []));
          (first, q1) = (case q of c # r \<Rightarrow> if c = CHR '']'' then ([c], r) else ([], q) | [] \<Rightarrow> ([], []));
          rest = dropWhile (\<lambda>c. c \<noteq> CHR '']'') q1
      in if rest = [] then None else Some (neg, first @ takeWhile (\<lambda>c. c \<noteq> CHR '']'') q1, tl rest))"

fun in_set :: "char \<Rightarrow> string \<Rightarrow> bool" where
  "in_set c (a # h # b # s) =
     (if h = CHR ''-'' then ord a \<le> ord c \<and> ord c \<le> ord b \<or> in_set c s else c = a \<or> in_set c (h # b # s))"
| "in_set c (a # s) = (c = a \<or> in_set c s)"
| "in_set c [] = False"

lemma dropWhile_shorter: "length (dropWhile P q) - k < Suc (length q)" "length (dropWhile P q) - k < Suc (Suc (length q))"
  using length_dropWhile_le [of P q] by linarith+

lemma split_set_shorter: "split_set p = Some (neg, body, rest) \<Longrightarrow> length rest < length p"
  unfolding split_set_def Let_def
  by (auto split: list.split_asm if_split_asm simp del: dropWhile_eq_Nil_conv simp: dropWhile_shorter)

function fnmatch :: "string \<Rightarrow> string \<Rightarrow> bool" where
  "fnmatch [] s = (s = [])"
| "fnmatch (c # p) s =
     (if c = CHR ''*'' then (\<exists>z \<in> set (suffixes s). fnmatch p z)
      else
        (case s of
           [] \<Rightarrow> False
         | x # z \<Rightarrow>
             if c = CHR ''?'' then fnmatch p z
             else if c = CHR ''['' then
               (case split_set p of
                  None \<Rightarrow> x = c \<and> fnmatch p z
                | Some (neg, body, rest) \<Rightarrow> in_set x body \<noteq> neg \<and> fnmatch rest z)
             else x = c \<and> fnmatch p z))"
  by pat_completeness auto
termination by (relation "measure (length \<circ> fst)") (auto dest: split_set_shorter)

definition path_match :: "string \<Rightarrow> string \<Rightarrow> bool" where \<comment> \<open>\<^verbatim>\<open>PurePosixPath.match\<close> with a relative pattern that has a part\<close>
  "path_match s pattern =
     (let parts = rev (pure_parts s); pats = rev (pure_parts pattern)
      in length pats \<le> length parts \<and> list_all (\<lambda>(part, pat). fnmatch pat part) (zip parts pats))"

definition allowlisted :: "string list \<Rightarrow> string \<Rightarrow> bool" where
  "allowlisted allow s =
     (let relative = relative_posix s
      in list_ex (\<lambda>pattern.
           let n = strip_char (CHR ''/'') (replace_char bsl (CHR ''/'') pattern)
           in n \<noteq> [] \<and> (relative = n \<or> startswith relative (n @ ''/'') \<or> fnmatch n relative \<or> path_match relative n)) allow)"

definition validate_allowlist :: "string list \<Rightarrow> ws_exn + string list" where
  "validate_allowlist paths =
     mapM_res (\<lambda>raw.
       let path = strip_char (CHR ''/'') (replace_char bsl (CHR ''/'') raw)
       in if path = [] then Inl (UnsafePath raw)
          else if pure_parts path = [] then Inl NoPathParts
          else if CHR '':'' \<in> set (hd (pure_parts path)) \<or> ''..'' \<in> set (pure_parts path) then Inl (UnsafePath raw)
          else Inr path) paths"

section \<open>The audited files and their digest\<close>

lemma in_dir_entries: "p \<in> set (dir_entries t d) \<longleftrightarrow> length p = Suc (length d) \<and> prefix d p \<and> (\<exists>q \<in> fst ` set t. prefix p q)"
  by (auto simp: dir_entries_def nodes_below_def strict_prefix_def)

definition depth :: "ws_tree \<Rightarrow> nat" where
  "depth t = Max (insert 0 (length ` fst ` set t))"

lemma dir_entries_depth: "p \<in> set (dir_entries t d) \<Longrightarrow> length d < depth t \<and> length p = Suc (length d)"
proof -
  assume p: "p \<in> set (dir_entries t d)"
  then obtain q where q: "q \<in> fst ` set t" "prefix p q" "length p = Suc (length d)" by (auto simp: in_dir_entries)
  then have "length q \<le> depth t" unfolding depth_def by (intro Max_ge) auto
  then show ?thesis using q prefix_length_le [OF q(2)] by simp
qed

function auditable_below :: "ws_tree \<Rightarrow> path \<Rightarrow> path list" where
  "auditable_below t d =
     concat (map (\<lambda>p.
       if posix p = ''.git'' \<or> hard_denied (posix p) then []
       else if node t p = Some Folder then auditable_below t p
       else [p]) (dir_entries t d))"
  by pat_completeness auto
termination
  by (relation "measure (\<lambda>(t, d). depth t - length d)") (auto dest: dir_entries_depth)

declare auditable_below.simps [simp del]

definition auditable_paths :: "ws_tree \<Rightarrow> path list" where
  "auditable_paths t = sort_key posix (auditable_below t [])"

definition auditable_files :: "ws_tree \<Rightarrow> string list" where
  "auditable_files t = map posix (auditable_paths t)"

text \<open>The path, the kind and the bytes of an audited file.\<close>

type_synonym content_record = "string \<times> string \<times> string"

definition content_record :: "ws_tree \<Rightarrow> path \<Rightarrow> content_record" where
  "content_record t p =
     (posix p,
      case map_of t p of
        Some (Symlink target) \<Rightarrow> (''symlink'', utf8 target)
      | Some (Regular content) \<Rightarrow> (''file'', content)
      | _ \<Rightarrow> (''file'', []))"

definition content_records :: "ws_tree \<Rightarrow> path list \<Rightarrow> content_record list" where
  "content_records t paths = map (content_record t) paths"

definition record_entry :: "(string \<Rightarrow> string) \<Rightarrow> content_record \<Rightarrow> json" where
  "record_entry sha r =
     (case r of (relative, kind, content) \<Rightarrow>
        JDict [(''path'', JStr relative), (''kind'', JStr kind), (''bytes'', JInt (int (length content))), (''sha256'', JStr (sha content))])"

definition content_digest_from_entries :: "(string \<Rightarrow> string) \<Rightarrow> json list \<Rightarrow> string" where
  "content_digest_from_entries sha entries = sha (utf8 (compact (sort_keys (JList entries))))"

definition content_digest_from_records :: "(string \<Rightarrow> string) \<Rightarrow> content_record list \<Rightarrow> string" where
  "content_digest_from_records sha rs = content_digest_from_entries sha (map (record_entry sha) (sort_key fst rs))"

definition content_digest :: "(string \<Rightarrow> string) \<Rightarrow> ws_tree \<Rightarrow> path list \<Rightarrow> string" where
  "content_digest sha t paths = content_digest_from_entries sha (map (\<lambda>p. record_entry sha (content_record t p)) (sort_key posix paths))"

definition workspace_content_digest :: "(string \<Rightarrow> string) \<Rightarrow> ws_tree option \<Rightarrow> ws_exn + string" where
  "workspace_content_digest sha source =
     (case source of None \<Rightarrow> Inl (NotADirectory []) | Some t \<Rightarrow> Inr (content_digest sha t (auditable_paths t)))"

definition workspace_content_records :: "ws_tree option \<Rightarrow> ws_exn + content_record list" where
  "workspace_content_records source =
     (case source of None \<Rightarrow> Inl (NotADirectory []) | Some t \<Rightarrow> Inr (content_records t (auditable_paths t)))"

definition path_digest :: "(string \<Rightarrow> string) \<Rightarrow> string list \<Rightarrow> string" where
  "path_digest sha paths = sha (utf8 (join [CHR 0x00] paths))"

section \<open>Git\<close>

definition run_git :: "workspace_env \<Rightarrow> string list \<Rightarrow> string \<Rightarrow> ws_tree \<Rightarrow> ws_exn + (string \<times> ws_tree)" where \<comment> \<open>with \<^verbatim>\<open>check=True\<close>\<close>
  "run_git e args input t =
     (case wv_git e args input t of (rc, out, t') \<Rightarrow> if rc = 0 then Inr (out, t') else Inl CalledProcessError)"

definition git_text :: "workspace_env \<Rightarrow> string list \<Rightarrow> ws_tree \<Rightarrow> ws_exn + (string \<times> ws_tree)" where
  "git_text e args t = bind_res (run_git e args [] t) (\<lambda>(out, t'). Inr (strip out, t'))"

fun split_nul :: "string \<Rightarrow> string list" where
  "split_nul [] = [[]]"
| "split_nul (c # s) = (if c = CHR 0x00 then [] # split_nul s else case split_nul s of [] \<Rightarrow> [[c]] | x # xs \<Rightarrow> (c # x) # xs)"

definition nul_items :: "string \<Rightarrow> string list" where
  "nul_items out = map (replace_char bsl (CHR ''/'')) (filter (\<lambda>x. x \<noteq> []) (split_nul out))"

definition git_zlist :: "workspace_env \<Rightarrow> string \<Rightarrow> string list \<Rightarrow> ws_tree \<Rightarrow> ws_exn + (string list \<times> ws_tree)" where
  "git_zlist e sub args t =
     bind_res (run_git e (sub # ''-z'' # args) [] t) (\<lambda>(out, t'). Inr (sort (nul_items out), t'))"

function batches :: "nat \<Rightarrow> 'a list \<Rightarrow> 'a list list" where
  "batches n xs = (if xs = [] \<or> n = 0 then [] else take n xs # batches n (drop n xs))"
  by pat_completeness auto
termination by (relation "measure (length \<circ> snd)") (auto simp: neq_Nil_conv)

declare batches.simps [simp del]

text \<open>\<^verbatim>\<open>git add\<close> in batches of a hundred paths.\<close>

fun add_batches :: "workspace_env \<Rightarrow> string list \<Rightarrow> string list list \<Rightarrow> ws_tree \<Rightarrow> ws_exn + ws_tree" where
  "add_batches e flags [] t = Inr t"
| "add_batches e flags (b # bs) t = bind_res (run_git e (''add'' # flags @ [''--''] @ b) [] t) (\<lambda>(_, t'). add_batches e flags bs t')"

record git_source =
  gs_commit :: string
  gs_dirty_patch :: string
  gs_dirty_tracked :: "string list"
  gs_untracked :: "string list"
  gs_dirty :: bool

definition exact_git_root :: "workspace_env \<Rightarrow> string \<Rightarrow> ws_tree \<Rightarrow> bool" where
  "exact_git_root e source t =
     (case wv_git e [''rev-parse'', ''--show-toplevel''] [] t of
        (rc, out, _) \<Rightarrow> rc = 0 \<and> strip out \<noteq> [] \<and> wv_resolve e (strip out) = source)"

definition inspect_git_source :: "workspace_env \<Rightarrow> ws_tree \<Rightarrow> ws_exn + git_source" where
  "inspect_git_source e t =
     bind_res (git_text e [''rev-parse'', ''--verify'', ''HEAD^{commit}''] t) (\<lambda>(commit, _).
     bind_res (run_git e [''diff'', ''--binary'', ''--full-index'', ''--no-ext-diff'', ''HEAD'', ''--''] [] t) (\<lambda>(patch, _).
     bind_res (git_zlist e ''diff'' [''--name-only'', ''HEAD'', ''--''] t) (\<lambda>(dirty, _).
     bind_res (git_zlist e ''ls-files'' [''--others'', ''--exclude-standard''] t) (\<lambda>(untracked, _).
     bind_res (run_git e [''status'', ''--porcelain=v1'', ''-z'', ''--untracked-files=all''] [] t) (\<lambda>(status, _).
       Inr \<lparr>gs_commit = commit, gs_dirty_patch = patch, gs_dirty_tracked = dirty, gs_untracked = untracked, gs_dirty = (status \<noteq> [])\<rparr>)))))"

section \<open>Filling the workspace\<close>

text \<open>The file a path leads to, links followed.\<close>

definition follow :: "workspace_env \<Rightarrow> ws_tree \<Rightarrow> path \<Rightarrow> path option" where
  "follow e t p = (case node t p of Some (Symlink _) \<Rightarrow> wv_follow e t p | _ \<Rightarrow> Some p)"

definition symlink_escapes :: "workspace_env \<Rightarrow> ws_tree \<Rightarrow> path \<Rightarrow> bool" where
  "symlink_escapes e t p = (follow e t p = None)"

definition copy_source_path :: "workspace_env \<Rightarrow> ws_tree \<Rightarrow> string \<Rightarrow> string list \<times> ws_tree \<Rightarrow> ws_exn + (string list \<times> ws_tree)" where
  "copy_source_path e source relative st =
     (case st of (copied, t) \<Rightarrow>
        let p = split_slash relative in
        if hard_denied relative then Inr st
        else
          (case node source p of
             Some Folder \<Rightarrow> Inr st
           | None \<Rightarrow> Inr st
           | _ \<Rightarrow>
               (let t1 = make_folders (butlast p) t
                in case follow e source p of
                     None \<Rightarrow> Inr (copied, t1)
                   | Some q \<Rightarrow>
                       (case map_of source q of
                          Some (Regular content) \<Rightarrow> Inr (copied @ [relative_posix relative], put_entry p (Regular content) t1)
                        | _ \<Rightarrow> Inl CopyError))))"

fun fold_res :: "('a \<Rightarrow> 's \<Rightarrow> 'e + 's) \<Rightarrow> 'a list \<Rightarrow> 's \<Rightarrow> 'e + 's" where
  "fold_res f [] s = Inr s"
| "fold_res f (x # xs) s = bind_res (f x s) (fold_res f xs)"

definition copy_source_paths :: "workspace_env \<Rightarrow> ws_tree \<Rightarrow> string list \<Rightarrow> ws_tree \<Rightarrow> ws_exn + (string list \<times> ws_tree)" where
  "copy_source_paths e source paths t =
     bind_res (fold_res (copy_source_path e source) paths ([], t)) (\<lambda>(copied, t'). Inr (sort (remdups copied), t'))"

function allowlisted_below :: "workspace_env \<Rightarrow> string list \<Rightarrow> ws_tree \<Rightarrow> path \<Rightarrow> string list" where
  "allowlisted_below e allow t d =
     concat (map (\<lambda>p.
       let relative = posix p
       in if hard_denied relative \<or> symlink_escapes e t p then []
          else if node t p = Some Folder then allowlisted_below e allow t p
          else if (case node t p of Some (Symlink _) \<Rightarrow> (case follow e t p of Some q \<Rightarrow> node t q = Some Folder | None \<Rightarrow> False) | _ \<Rightarrow> False) then []
          else if allowlisted allow relative then [relative] else []) (dir_entries t d))"
  by pat_completeness auto
termination
  by (relation "measure (\<lambda>(e, allow, t, d). depth t - length d)") (auto dest: dir_entries_depth)

declare allowlisted_below.simps [simp del]

definition expand_allowlisted_files :: "workspace_env \<Rightarrow> string list \<Rightarrow> ws_tree \<Rightarrow> string list" where
  "expand_allowlisted_files e allow source = sort (remdups (allowlisted_below e allow source []))"

definition copy_allowlisted_ignored ::
  "workspace_env \<Rightarrow> string list \<Rightarrow> ws_tree \<Rightarrow> ws_tree \<Rightarrow> ws_exn + (string list \<times> ws_tree)" where
  "copy_allowlisted_ignored e allow source t =
     (let candidates = expand_allowlisted_files e allow source
      in if allow = [] \<or> candidates = [] then Inr ([], t)
         else
           (case wv_git e [''check-ignore'', ''-z'', ''--stdin''] (join [CHR 0x00] (map utf8 candidates) @ [CHR 0x00]) source of
              (_, out, _) \<Rightarrow> copy_source_paths e source (filter (\<lambda>p. p \<in> set (nul_items out)) candidates) t))"

definition hard_denied_allowlist_matches :: "string list \<Rightarrow> ws_tree \<Rightarrow> string list" where
  "hard_denied_allowlist_matches allow source =
     sort (filter (\<lambda>s. hard_denied s \<and> allowlisted allow s) (map posix (dir_entries source [])))"

text \<open>\<^verbatim>\<open>shutil.copytree\<close> with its \<^verbatim>\<open>ignore\<close> function, which follows links: \<^verbatim>\<open>place\<close> is where the directory is
  read. Links that lead around in a circle make the system call fail, here the fuel runs out.\<close>

fun copy_tree :: "nat \<Rightarrow> workspace_env \<Rightarrow> ws_tree \<Rightarrow> path \<Rightarrow> path \<Rightarrow> ws_exn + (ws_tree \<times> string list)" where
  "copy_tree 0 e source d place = Inl CopyError"
| "copy_tree (Suc n) e source d place =
     bind_res
       (mapM_res (\<lambda>name.
          let p = d @ [name]; there = place @ [name]
          in if hard_denied (posix p) \<or> symlink_escapes e source there then Inr ([], [posix p])
             else
               (case follow e source there of
                  None \<Rightarrow> Inl CopyError
                | Some q \<Rightarrow>
                    (case node source q of
                       Some (Regular content) \<Rightarrow> Inr ([(p, Regular content)], [])
                     | Some Folder \<Rightarrow> bind_res (copy_tree n e source p q) (\<lambda>(t, excluded). Inr ((p, Folder) # t, excluded))
                     | _ \<Rightarrow> Inl CopyError))) (map last (dir_entries source place)))
       (\<lambda>rs. Inr (concat (map fst rs), concat (map snd rs)))"

text \<open>What is forbidden is removed again, wherever it came from; the workspace's own \<^verbatim>\<open>.git\<close> stays.\<close>

definition remove_step :: "path \<Rightarrow> ws_tree \<times> string list \<Rightarrow> ws_tree \<times> string list" where
  "remove_step p st =
     (case st of (t, removed) \<Rightarrow>
        if hard_denied (posix p) \<and> node t p \<noteq> None then (remove_tree p t, removed @ [posix p]) else st)"

definition remove_child :: "path \<Rightarrow> ws_tree \<times> string list \<Rightarrow> ws_tree \<times> string list" where
  "remove_child child st =
     (case st of (t, removed) \<Rightarrow>
        if last child = ''.git'' then st
        else if hard_denied (posix child) then (remove_tree child t, removed @ [posix child])
        else if node t child = Some Folder then
          fold remove_step (rev (sort_key length (rev (nodes_below t child)))) st
        else st)"

definition remove_hard_denied_paths :: "ws_tree \<Rightarrow> string list \<times> ws_tree" where
  "remove_hard_denied_paths t =
     (case fold remove_child (dir_entries t []) (t, []) of (t', removed) \<Rightarrow> (sort (remdups removed), t'))"

definition git_exclude_patterns :: "string list" where
  "git_exclude_patterns =
     [''**/__pycache__/'', ''*.py[cod]'', ''.pytest_cache/'', ''.mypy_cache/'', ''.ruff_cache/'', ''.minicc_artifacts/'']"

definition baseline_ref :: string where
  "baseline_ref = ''refs/minicc/baseline''"

definition exclude_rules :: "ws_tree \<Rightarrow> ws_tree" where
  "exclude_rules t =
     (let p = [''.git'', ''info'', ''exclude''];
          existing = (case map_of t p of Some (Regular s) \<Rightarrow> s | _ \<Rightarrow> [])
      in put_entry p (Regular (existing @ join [nl] git_exclude_patterns @ [nl])) (make_folders [''.git'', ''info''] t))"

definition commit_baseline :: "workspace_env \<Rightarrow> string list \<Rightarrow> ws_tree \<Rightarrow> ws_exn + (string \<times> ws_tree)" where
  "commit_baseline e force_add t =
     bind_res (run_git e [''config'', ''user.email'', ''minicc@example.local''] [] t) (\<lambda>(_, t1).
     bind_res (run_git e [''config'', ''user.name'', ''miniCC''] [] t1) (\<lambda>(_, t2).
     bind_res (run_git e [''add'', ''-A''] [] (exclude_rules t2)) (\<lambda>(_, t3).
     bind_res (add_batches e [''-f''] (batches 100 (sort (remdups force_add))) t3) (\<lambda>t4.
     bind_res (run_git e [''commit'', ''--quiet'', ''--allow-empty'', ''-m'', ''miniCC workspace baseline''] [] t4) (\<lambda>(_, t5).
     bind_res (git_text e [''rev-parse'', ''HEAD''] t5) (\<lambda>(baseline, t6).
     bind_res (run_git e [''update-ref'', baseline_ref, baseline] [] t6) (\<lambda>(_, t7). Inr (baseline, t7))))))))"

definition remove_origin :: "workspace_env \<Rightarrow> ws_tree \<Rightarrow> ws_exn + ws_tree" where
  "remove_origin e t =
     (case wv_git e [''remote'', ''get-url'', ''origin''] [] t of
        (rc, _, t1) \<Rightarrow> if rc = 0 then bind_res (run_git e [''remote'', ''remove'', ''origin''] [] t1) (\<lambda>(_, t2). Inr t2) else Inr t1)"

section \<open>The snapshot and its manifest\<close>

text \<open>The parts \<^verbatim>\<open>included\<close> and \<^verbatim>\<open>excluded\<close> of the manifest, and the workspace.\<close>

type_synonym snapshot = "jdict \<times> jdict \<times> ws_tree"

abbreviation jstrs :: "string list \<Rightarrow> json" where "jstrs ss \<equiv> JList (map JStr ss)"

definition line_count :: "string \<Rightarrow> int" where
  "line_count s = int (count_list s nl) + (if s = [] then 0 else 1)"

definition prepare_git_snapshot :: "workspace_env \<Rightarrow> string list \<Rightarrow> ws_tree \<Rightarrow> git_source \<Rightarrow> ws_exn + snapshot" where
  "prepare_git_snapshot e allow source g =
     bind_res (case wv_clone e source of None \<Rightarrow> Inl CalledProcessError | Some t \<Rightarrow> Inr t) (\<lambda>t0.
     bind_res (run_git e [''checkout'', ''--quiet'', ''--detach'', ''--force'', gs_commit g] [] t0) (\<lambda>(_, t1).
     bind_res (remove_origin e t1) (\<lambda>t2.
     bind_res (if gs_dirty_patch g = [] then Inr ([], t2)
               else run_git e [''apply'', ''--binary'', ''--whitespace=nowarn'', ''-''] (gs_dirty_patch g) t2) (\<lambda>(_, t3).
     bind_res (copy_source_paths e source (gs_untracked g) t3) (\<lambda>(untracked, t4).
     bind_res (copy_allowlisted_ignored e allow source t4) (\<lambda>(copied, t5).
       let denied = filter hard_denied (gs_untracked g) @ hard_denied_allowlist_matches allow source;
           (removed, t6) = remove_hard_denied_paths t5
       in bind_res (commit_baseline e copied t6) (\<lambda>(baseline, t7).
          bind_res (git_text e [''ls-files''] t7) (\<lambda>(tracked, t8).
            Inr ([(''tracked_count'', JInt (line_count tracked)), (''dirty_tracked_paths'', jstrs (gs_dirty_tracked g)),
                  (''untracked_paths'', jstrs untracked), (''ignored_allowlisted_paths'', jstrs copied), (''baseline_commit'', JStr baseline)],
                 [(''hard_denied_paths'', jstrs (sort (remdups (denied @ removed)))),
                  (''ignored_default'', JStr ''excluded by source Git ignore rules unless allowlisted'')],
                 t8)))))))))"

definition remove_ignored :: "string list \<Rightarrow> string list \<Rightarrow> ws_tree \<Rightarrow> string list \<times> ws_tree" where
  "remove_ignored allow ignored t =
     fold (\<lambda>relative (removed, t).
       let p = split_slash relative
       in if allowlisted allow relative \<and> \<not> hard_denied relative \<or> node t p = None then (removed, t)
          else (removed @ [relative], remove_tree p t)) ignored ([], t)"

definition prepare_copy_snapshot :: "workspace_env \<Rightarrow> nat \<Rightarrow> string list \<Rightarrow> ws_tree \<Rightarrow> ws_exn + snapshot" where
  "prepare_copy_snapshot e fuel allow source =
     bind_res (copy_tree fuel e source [] []) (\<lambda>(t0, excluded).
     bind_res (run_git e [''init'', ''--quiet''] [] t0) (\<lambda>(_, t1).
     bind_res (git_zlist e ''ls-files'' [''--others'', ''--ignored'', ''--exclude-standard''] t1) (\<lambda>(ignored, t2).
       let (removed_ignored, t3) = remove_ignored allow ignored t2;
           (removed, t4) = remove_hard_denied_paths t3
       in bind_res (commit_baseline e (auditable_files t4) t4) (\<lambda>(baseline, t5).
            Inr ([(''tracked_count'', JInt (int (length (auditable_files t5)))), (''dirty_tracked_paths'', JList []), (''untracked_paths'', JList []),
                  (''ignored_allowlisted_paths'', jstrs (filter (allowlisted allow) ignored)), (''baseline_commit'', JStr baseline)],
                 [(''hard_denied_paths'', jstrs (sort (remdups (excluded @ removed)))), (''ignored_paths'', jstrs (sort removed_ignored)),
                  (''ignored_default'', JStr ''excluded by copied .gitignore unless allowlisted'')],
                 t5)))))"

record run_workspace =
  rw_run_id :: string
  rw_run_dir :: string
  rw_workspace_dir :: string
  rw_artifacts_dir :: string
  rw_manifest_path :: string
  rw_content_digest :: string

definition json_opt :: "string option \<Rightarrow> json" where
  "json_opt v = (case v of None \<Rightarrow> JNull | Some s \<Rightarrow> JStr s)"

definition workspace_manifest ::
  "workspace_env \<Rightarrow> string \<Rightarrow> string \<Rightarrow> git_source option \<Rightarrow> string list \<Rightarrow> string option \<Rightarrow> string \<Rightarrow> jdict \<Rightarrow> jdict \<Rightarrow> ws_tree \<Rightarrow> jdict" where
  "workspace_manifest e source rid g allow allow_source baseline included excluded t =
     [(''schema_version'', JInt 1), (''run_id'', JStr rid), (''created_at'', JStr (wv_now e)), (''source_root'', JStr source),
      (''source_commit'', json_opt (map_option gs_commit g)),
      (''source_dirty'', JBool (case g of None \<Rightarrow> False | Some s \<Rightarrow> gs_dirty s)),
      (''dirty_patch_sha256'', json_opt (case g of None \<Rightarrow> None | Some s \<Rightarrow> if gs_dirty s then Some (wv_sha e (gs_dirty_patch s)) else None)),
      (''snapshot_mode'', JStr (if g = None then ''copy'' else ''git'')), (''baseline_commit'', JStr baseline),
      (''included'', JDict (included @
         [(''file_count'', JInt (int (length (auditable_paths t)))), (''path_digest_sha256'', JStr (path_digest (wv_sha e) (auditable_files t))),
          (''content_digest_sha256'', JStr (content_digest (wv_sha e) t (auditable_paths t)))])),
      (''excluded'', JDict excluded),
      (''ignore_rules'', JDict
         [(''hard_deny_names'', jstrs (sort hard_deny_names)), (''dotenv_policy'', JStr ''.env and .env.* except .env.example''),
          (''ignored_allowlist'', jstrs allow),
          (''allowlist_source'', JStr (case allow_source of Some s \<Rightarrow> if s = [] then ''prepare_run_workspace argument'' else s | None \<Rightarrow> ''prepare_run_workspace argument'')),
          (''git_ignore_source'', JStr (if g = None then ''copied .gitignore'' else ''source repository exclude-standard''))]),
      (''evidence'', JDict
         [(''manifest'', JStr ''workspace_manifest.json''), (''workspace'', JStr ''workspace''), (''state'', JStr ''state.json''),
          (''trace'', JStr ''trace.jsonl''), (''metrics'', JStr ''metrics.json''), (''diff'', JStr ''artifacts/diff.patch'')])]"

definition prepare_run_workspace ::
  "workspace_env \<Rightarrow> nat \<Rightarrow> string \<Rightarrow> ws_tree option \<Rightarrow> string \<Rightarrow> string \<Rightarrow> string list \<Rightarrow> string option \<Rightarrow>
     ws_exn + (run_workspace \<times> jdict \<times> ws_tree)" where
  "prepare_run_workspace e fuel source_dir source rid runs allowlist allow_source =
     (case source of
        None \<Rightarrow> Inl (NotADirectory source_dir)
      | Some src \<Rightarrow>
          bind_res (validate_allowlist allowlist) (\<lambda>allow.
          bind_res (if exact_git_root e source_dir src then map_sum id Some (inspect_git_source e src) else Inr None) (\<lambda>g.
          bind_res (case g of Some s \<Rightarrow> prepare_git_snapshot e allow src s | None \<Rightarrow> prepare_copy_snapshot e fuel allow src)
            (\<lambda>(included, excluded, t1).
          bind_res (git_text e [''rev-parse'', baseline_ref] t1) (\<lambda>(baseline, t).
            let dir = runs @ ''/'' @ rid
            in Inr (\<lparr>rw_run_id = rid, rw_run_dir = dir, rw_workspace_dir = dir @ ''/workspace'', rw_artifacts_dir = dir @ ''/artifacts'',
                     rw_manifest_path = dir @ ''/workspace_manifest.json'',
                     rw_content_digest = content_digest (wv_sha e) t (auditable_paths t)\<rparr>,
                    workspace_manifest e source_dir rid g allow allow_source baseline included excluded t, t))))))"

section \<open>The diff of a workspace\<close>

definition workspace_baseline :: "workspace_env \<Rightarrow> ws_tree \<Rightarrow> ws_exn + ws_tree" where
  "workspace_baseline e t =
     (case wv_git e [''rev-parse'', ''--verify'', baseline_ref] [] t of
        (rc, _, t1) \<Rightarrow>
          if rc = 0 then Inr t1
          else
            bind_res (git_text e [''rev-list'', ''--max-parents=0'', ''--reverse'', ''HEAD''] t1) (\<lambda>(out, t2).
              case splitlines out of
                [] \<Rightarrow> Inl NoBaseline
              | first # _ \<Rightarrow> bind_res (run_git e [''update-ref'', baseline_ref, first] [] t2) (\<lambda>(_, t3). Inr t3)))"

definition write_workspace_diff :: "workspace_env \<Rightarrow> ws_tree \<Rightarrow> ws_exn + (string \<times> ws_tree)" where
  "write_workspace_diff e t =
     bind_res (workspace_baseline e t) (\<lambda>t1.
     bind_res (add_batches e [''-N'', ''-f''] (batches 100 (auditable_files t1)) t1) (\<lambda>t2.
       run_git e [''diff'', ''--binary'', ''--no-ext-diff'', baseline_ref, ''--''] [] t2))"

section \<open>What is removed\<close>

definition clear_path :: "path \<Rightarrow> bool" where
  "clear_path q = list_all (\<lambda>p. p = [] \<or> \<not> hard_denied (posix p)) (prefixes q)"

definition own_git :: "path \<Rightarrow> bool" where
  "own_git q = (take 1 q = [''.git''])"

lemma clear_path_iff: "clear_path q \<longleftrightarrow> (\<forall>p. prefix p q \<longrightarrow> p \<noteq> [] \<longrightarrow> \<not> hard_denied (posix p))"
  by (auto simp: clear_path_def list_all_iff)

lemma in_nodes_below: "p \<in> set (nodes_below t d) \<longleftrightarrow> strict_prefix d p \<and> (\<exists>q n. (q, n) \<in> set t \<and> prefix p q)"
  by (auto simp: nodes_below_def) force

lemma node_None: "node t p = None \<Longrightarrow> (q, n) \<in> set t \<Longrightarrow> \<not> prefix p q"
proof
  assume p: "node t p = None" and q: "(q, n) \<in> set t" "prefix p q"
  from p have none: "nodes_below t p = []" "map_of t p = None" by (auto simp: node_def split: if_splits)
  then have "q \<noteq> p" using q(1) by (force simp: map_of_eq_None_iff)
  then have "q \<in> set (nodes_below t p)" using q unfolding in_nodes_below by (auto simp: strict_prefix_def)
  then show False using none by simp
qed

lemma remove_step_filter: "fst (remove_step p (t, r)) = filter (\<lambda>(q, _). \<not> (hard_denied (posix p) \<and> prefix p q)) t"
proof (cases "hard_denied (posix p) \<and> node t p = None")
  case True
  then have "filter (\<lambda>(q, _). \<not> (hard_denied (posix p) \<and> prefix p q)) t = t"
    using node_None [of t p] by (auto simp: filter_id_conv)
  then show ?thesis using True by (simp add: remove_step_def)
qed (auto simp: remove_step_def remove_tree_def)

lemma remove_steps_filter:
  "fst (fold remove_step ps st) = filter (\<lambda>(q, _). \<not> (\<exists>p \<in> set ps. hard_denied (posix p) \<and> prefix p q)) (fst st)"
proof (induction ps arbitrary: st)
  case (Cons p ps)
  then show ?case using remove_step_filter [of p "fst st" "snd st"] by (simp add: filter_filter case_prod_unfold conj_commute)
qed simp

definition child_clear :: "path \<Rightarrow> path \<Rightarrow> bool" where
  "child_clear c q = (c = [''.git''] \<or> (\<forall>p. prefix c p \<longrightarrow> prefix p q \<longrightarrow> \<not> hard_denied (posix p)))"

lemma remove_child_filter:
  assumes "length c = 1"
  shows "fst (remove_child c (t, r)) = filter (\<lambda>(q, _). child_clear c q) t"
proof -
  have git: "last c = ''.git'' \<longleftrightarrow> c = [''.git'']" using assms by (cases c) auto
  consider "c = [''.git'']" | "c \<noteq> [''.git'']" "hard_denied (posix c)"
    | "c \<noteq> [''.git'']" "\<not> hard_denied (posix c)" "node t c = Some Folder"
    | "c \<noteq> [''.git'']" "\<not> hard_denied (posix c)" "node t c \<noteq> Some Folder" by blast
  then show ?thesis
  proof cases
    case 2
    then have "child_clear c q \<longleftrightarrow> \<not> prefix c q" for q by (auto simp: child_clear_def dest: prefix_order.trans)
    then show ?thesis using 2 git by (simp add: remove_child_def remove_tree_def)
  next
    case 3
    have "(\<exists>p \<in> set (nodes_below t c). hard_denied (posix p) \<and> prefix p q) \<longleftrightarrow> \<not> child_clear c q" if "(q, n) \<in> set t" for q n
    proof
      assume "\<exists>p \<in> set (nodes_below t c). hard_denied (posix p) \<and> prefix p q"
      then show "\<not> child_clear c q" using 3 by (auto simp: in_nodes_below child_clear_def strict_prefix_def)
    next
      assume "\<not> child_clear c q"
      then obtain p where p: "prefix c p" "prefix p q" "hard_denied (posix p)" by (auto simp: child_clear_def)
      then have "p \<noteq> c" using 3(2) by auto
      then have "p \<in> set (nodes_below t c)" using p that unfolding in_nodes_below by (auto simp: strict_prefix_def)
      then show "\<exists>p \<in> set (nodes_below t c). hard_denied (posix p) \<and> prefix p q" using p by blast
    qed
    then show ?thesis using 3 git by (auto simp: remove_child_def remove_steps_filter intro!: filter_cong)
  next
    case 4
    have "child_clear c q" if "(q, n) \<in> set t" for q n
    proof -
      have none: "nodes_below t c = []" using 4(3) by (auto simp: node_def split: if_splits)
      have "\<not> strict_prefix c q"
        using none that in_nodes_below [of q t c] by auto
      then show ?thesis using 4(2) by (auto simp: child_clear_def strict_prefix_def dest: prefix_order.antisym)
    qed
    then have "filter (\<lambda>(q, _). child_clear c q) t = t" by (auto simp: filter_id_conv)
    then show ?thesis using 4 git by (simp add: remove_child_def)
  qed (simp add: remove_child_def child_clear_def)
qed

lemma remove_children_filter:
  "\<forall>c \<in> set cs. length c = 1 \<Longrightarrow> fst (fold remove_child cs st) = filter (\<lambda>(q, _). \<forall>c \<in> set cs. child_clear c q) (fst st)"
proof (induction cs arbitrary: st)
  case (Cons c cs)
  then show ?case using remove_child_filter [of c "fst st" "snd st"] by (simp add: filter_filter case_prod_unfold conj_commute)
qed simp

lemma remove_hard_denied_filter: "snd (remove_hard_denied_paths t) = filter (\<lambda>(q, _). own_git q \<or> clear_path q) t"
proof -
  have "(\<forall>c \<in> set (dir_entries t []). child_clear c q) \<longleftrightarrow> own_git q \<or> clear_path q" if "(q, n) \<in> set t" for q n
  proof (cases q)
    case (Cons x z)
    have only: "c \<in> set (dir_entries t []) \<and> prefix c q \<longleftrightarrow> c = [x]" for c
      using that Cons by (auto simp: in_dir_entries length_Suc_conv) force
    have other: "child_clear c q" if "\<not> prefix c q" for c
      using that by (auto simp: child_clear_def dest: prefix_order.trans)
    have "(\<forall>c \<in> set (dir_entries t []). child_clear c q) \<longleftrightarrow> child_clear [x] q"
      using only other by metis
    also have "\<dots> \<longleftrightarrow> own_git q \<or> clear_path q"
      using Cons by (auto simp: child_clear_def own_git_def clear_path_iff prefix_Cons)
    finally show ?thesis .
  qed (auto simp: clear_path_iff child_clear_def in_dir_entries)
  then have "filter (\<lambda>(q, _). \<forall>c \<in> set (dir_entries t []). child_clear c q) t = filter (\<lambda>(q, _). own_git q \<or> clear_path q) t"
    by (intro filter_cong) auto
  then show ?thesis
    using remove_children_filter [of "dir_entries t []" "(t, [])"]
    by (auto simp: remove_hard_denied_paths_def in_dir_entries split: prod.splits)
qed

section \<open>What Git leaves alone\<close>

text \<open>Outside \<^verbatim>\<open>.git\<close> these commands change nothing of a directory.\<close>

definition outside_git :: "ws_tree \<Rightarrow> ws_tree" where
  "outside_git t = filter (\<lambda>(q, _). \<not> own_git q) t"

definition git_keeps :: "workspace_env \<Rightarrow> bool" where
  "git_keeps e \<longleftrightarrow>
     (\<forall>args input t. hd args \<in> {''config'', ''add'', ''commit'', ''rev-parse'', ''update-ref'', ''ls-files''} \<longrightarrow>
        outside_git (snd (snd (wv_git e args input t))) = outside_git t)"

lemma run_git_outside:
  assumes "git_keeps e" "run_git e args input t = Inr (out, t')"
    "hd args \<in> {''config'', ''add'', ''commit'', ''rev-parse'', ''update-ref'', ''ls-files''}"
  shows "outside_git t' = outside_git t"
proof -
  have "outside_git (snd (snd (wv_git e args input t))) = outside_git t"
    using assms(1,3) unfolding git_keeps_def by blast
  then show ?thesis using assms(2) by (auto simp: run_git_def split: prod.splits if_splits)
qed

lemma git_text_outside:
  "git_keeps e \<Longrightarrow> git_text e args t = Inr (out, t') \<Longrightarrow>
     hd args \<in> {''config'', ''add'', ''commit'', ''rev-parse'', ''update-ref'', ''ls-files''} \<Longrightarrow> outside_git t' = outside_git t"
  by (auto simp: git_text_def dest: run_git_outside)

lemma add_batches_outside:
  "git_keeps e \<Longrightarrow> add_batches e flags bs t = Inr t' \<Longrightarrow> outside_git t' = outside_git t"
proof (induction e flags bs t rule: add_batches.induct)
  case (2 e flags b bs t)
  then obtain out t1 where t1: "run_git e (''add'' # flags @ [''--''] @ b) [] t = Inr (out, t1)" "add_batches e flags bs t1 = Inr t'" by auto
  have "outside_git t1 = outside_git t" using run_git_outside [OF "2.prems"(1) t1(1)] by simp
  then show ?case using "2.IH" [OF "2.prems"(1) t1(2)] by simp
qed simp

lemma put_entry_outside: "own_git p \<Longrightarrow> outside_git (put_entry p n t) = outside_git t"
  by (induction t) (auto simp: outside_git_def put_entry_def)

lemma make_folders_outside: "own_git p \<Longrightarrow> outside_git (make_folders p t) = outside_git t"
proof -
  assume p: "own_git p"
  have "outside_git (fold (\<lambda>q t. if map_of t q = None then t @ [(q, Folder)] else t) qs t) = outside_git t"
    if "\<forall>q \<in> set qs. own_git q" for qs
    using that by (induction qs arbitrary: t) (auto simp: outside_git_def)
  moreover have "own_git q" if "q \<noteq> []" "prefix q p" for q
    using that p by (cases q; cases p) (auto simp: own_git_def)
  ultimately show ?thesis by (simp add: make_folders_def)
qed

lemma exclude_rules_outside: "outside_git (exclude_rules t) = outside_git t"
  by (simp add: exclude_rules_def Let_def put_entry_outside make_folders_outside own_git_def)

lemma commit_baseline_outside:
  assumes "git_keeps e" "commit_baseline e ps t = Inr (b, t')"
  shows "outside_git t' = outside_git t"
proof -
  obtain o1 t1 o2 t2 o3 t3 t4 o5 t5 t6 o7 where run: "run_git e [''config'', ''user.email'', ''minicc@example.local''] [] t = Inr (o1, t1)"
    "run_git e [''config'', ''user.name'', ''miniCC''] [] t1 = Inr (o2, t2)"
    "run_git e [''add'', ''-A''] [] (exclude_rules t2) = Inr (o3, t3)"
    "run_git e [''commit'', ''--quiet'', ''--allow-empty'', ''-m'', ''miniCC workspace baseline''] [] t4 = Inr (o5, t5)"
    "run_git e [''update-ref'', baseline_ref, b] [] t6 = Inr (o7, t')"
    and added: "add_batches e [''-f''] (batches 100 (sort (remdups ps))) t3 = Inr t4"
    and head: "git_text e [''rev-parse'', ''HEAD''] t5 = Inr (b, t6)"
    using assms(2) by (auto simp: commit_baseline_def)
  show ?thesis
    using run [THEN run_git_outside [OF assms(1)]] head [THEN git_text_outside [OF assms(1)]] added [THEN add_batches_outside [OF assms(1)]]
    by (simp add: exclude_rules_outside)
qed

definition clean_tree :: "ws_tree \<Rightarrow> bool" where
  "clean_tree t = list_all (\<lambda>(q, _). own_git q \<or> clear_path q) t"

lemma clean_outside: "clean_tree t \<longleftrightarrow> list_all (\<lambda>(q, _). clear_path q) (outside_git t)"
  by (auto simp: clean_tree_def outside_git_def list_all_iff)

lemma removal_clean: "clean_tree (snd (remove_hard_denied_paths t))"
  unfolding remove_hard_denied_filter by (auto simp: clean_tree_def list_all_iff)

lemma snapshot_clean:
  assumes "git_keeps e"
  shows "prepare_git_snapshot e allow source g = Inr (inc, exc, t) \<Longrightarrow> clean_tree t"
    "prepare_copy_snapshot e fuel allow source = Inr (inc, exc, t) \<Longrightarrow> clean_tree t"
  by (auto simp: prepare_git_snapshot_def prepare_copy_snapshot_def Let_def case_prod_unfold clean_outside removal_clean [unfolded clean_outside case_prod_unfold]
      dest!: commit_baseline_outside [OF assms] git_text_outside [OF assms])

section \<open>What is audited\<close>

definition audited :: "ws_tree \<Rightarrow> path \<Rightarrow> bool" where
  "audited t q = (q \<in> set (map fst t) \<and> q \<noteq> [] \<and> node t q \<noteq> Some Folder \<and> clear_path q)"

lemma hard_denied_git [simp]: "hard_denied ''.git''"
  by code_simp

lemma leaf_below: "nodes_below t p = [] \<Longrightarrow> q \<in> fst ` set t \<Longrightarrow> prefix p q \<Longrightarrow> q = p"
  using in_nodes_below [of q t p] by (auto simp: strict_prefix_def)

lemma in_auditable_below:
  "q \<in> set (auditable_below t d) \<longleftrightarrow>
     (\<exists>p \<in> set (dir_entries t d). \<not> hard_denied (posix p) \<and> (if node t p = Some Folder then q \<in> set (auditable_below t p) else q = p))"
  by (subst auditable_below.simps) (auto split: if_splits)

lemma auditable_below_set:
  "q \<in> set (auditable_below t d) \<longleftrightarrow>
     strict_prefix d q \<and> q \<in> fst ` set t \<and> node t q \<noteq> Some Folder \<and> (\<forall>p. strict_prefix d p \<longrightarrow> prefix p q \<longrightarrow> \<not> hard_denied (posix p))"
proof (induction t d rule: auditable_below.induct)
  case (1 t d)
  have ih: "q \<in> set (auditable_below t p) \<longleftrightarrow> strict_prefix p q \<and> q \<in> fst ` set t \<and> node t q \<noteq> Some Folder \<and>
      (\<forall>p'. strict_prefix p p' \<longrightarrow> prefix p' q \<longrightarrow> \<not> hard_denied (posix p'))"
    if "p \<in> set (dir_entries t d)" "\<not> hard_denied (posix p)" "node t p = Some Folder" for p
    using "1.IH" [OF that(1)] that(2,3) hard_denied_git by metis
  show ?case
  proof
    assume "q \<in> set (auditable_below t d)"
    then obtain p where p: "p \<in> set (dir_entries t d)" "\<not> hard_denied (posix p)"
        "if node t p = Some Folder then q \<in> set (auditable_below t p) else q = p" by (auto dest: in_auditable_below [THEN iffD1])
    then have dp: "strict_prefix d p" "length p = Suc (length d)" "\<exists>q \<in> fst ` set t. prefix p q"
      by (auto simp: in_dir_entries strict_prefix_def)
    have q: "prefix p q \<and> q \<in> fst ` set t \<and> node t q \<noteq> Some Folder \<and> (\<forall>p'. strict_prefix p p' \<longrightarrow> prefix p' q \<longrightarrow> \<not> hard_denied (posix p'))"
    proof (cases "node t p = Some Folder")
      case True
      then show ?thesis using p ih [OF p(1,2) True] by auto
    next
      case False
      then have "q = p" "nodes_below t p = []" using p(3) by (auto simp: node_def split: if_splits)
      moreover from this dp(3) have "p \<in> fst ` set t" using leaf_below [of t p] by blast
      ultimately show ?thesis using False by (auto simp: strict_prefix_def dest: prefix_order.antisym)
    qed
    moreover have "\<not> hard_denied (posix p')" if p': "strict_prefix d p'" "prefix p' q" for p'
    proof (cases "strict_prefix p p'")
      case False
      have "prefix p p' \<or> prefix p' p" using prefix_same_cases p'(2) q by blast
      moreover have "length p \<le> length p'" using prefix_length_less [OF p'(1)] dp(2) by simp
      ultimately have "p' = p" using False by (metis prefix_length_le prefix_order.antisym prefix_length_prefix strict_prefix_def le_antisym prefix_order.refl)
      then show ?thesis using p(2) by simp
    qed (use q p' in blast)
    ultimately show "strict_prefix d q \<and> q \<in> fst ` set t \<and> node t q \<noteq> Some Folder \<and>
        (\<forall>p. strict_prefix d p \<longrightarrow> prefix p q \<longrightarrow> \<not> hard_denied (posix p))"
      using dp(1) prefix_order.less_le_trans by blast
  next
    assume q: "strict_prefix d q \<and> q \<in> fst ` set t \<and> node t q \<noteq> Some Folder \<and>
        (\<forall>p. strict_prefix d p \<longrightarrow> prefix p q \<longrightarrow> \<not> hard_denied (posix p))"
    then obtain x z where xz: "q = d @ x # z" by (meson strict_prefixE')
    define p where "p = d @ [x]"
    have dp: "strict_prefix d p" "prefix p q" "length p = Suc (length d)" by (auto simp: p_def xz strict_prefix_def)
    then have p: "p \<in> set (dir_entries t d)" "\<not> hard_denied (posix p)"
      using q by (auto simp: in_dir_entries strict_prefix_def)
    show "q \<in> set (auditable_below t d)"
    proof (cases "node t p = Some Folder")
      case True
      have "strict_prefix p q" using True q dp(2) by (auto simp: strict_prefix_def)
      then have "q \<in> set (auditable_below t p)"
        using ih [OF p True] q dp(1) by (meson prefix_order.less_trans)
      then show ?thesis using p True by (intro in_auditable_below [THEN iffD2]) auto
    next
      case False
      then have "nodes_below t p = []" by (auto simp: node_def split: if_splits)
      then have "q = p" using dp(2) q leaf_below [of t p q] by simp
      then show ?thesis using p False by (intro in_auditable_below [THEN iffD2]) auto
    qed
  qed
qed

lemma own_git_unclear: "own_git q \<Longrightarrow> \<not> clear_path q"
proof -
  assume "own_git q"
  then obtain z where "q = ''.git'' # z" by (cases q) (auto simp: own_git_def)
  then have "prefix [''.git''] q" by simp
  moreover have "hard_denied (posix [''.git''])" by code_simp
  ultimately show ?thesis unfolding clear_path_iff by blast
qed

lemma auditable_paths_audited: "set (auditable_paths t) = {q. audited t q}"
  by (auto simp: auditable_paths_def auditable_below_set audited_def clear_path_iff strict_prefix_def rev_image_eqI)

section \<open>What the digest tells\<close>

fun un_utf8 :: "string \<Rightarrow> string" where
  "un_utf8 (a # b # s) = (if ord a < 128 then a # un_utf8 (b # s) else char_of ((ord a - 192) * 64 + (ord b - 128)) # un_utf8 s)"
| "un_utf8 s = s"

lemma un_utf8_Cons: "ord a < 128 \<Longrightarrow> un_utf8 (a # s) = a # un_utf8 s"
  by (cases s) simp_all

lemma un_utf8_utf8 [simp]: "un_utf8 (utf8 s) = s"
proof (induction s)
  case (Cons c s)
  show ?case
  proof (cases "ord c < 128")
    case False
    have small: "ord c div 64 < 4" using nat_of_char_less_256 [of c] by (simp add: less_mult_imp_div_less)
    have high: "ord (char_of (192 + ord c div 64) :: char) = 192 + ord c div 64" using small by (simp add: of_char_of)
    have low: "ord (char_of (128 + ord c mod 64) :: char) = 128 + ord c mod 64" by (simp add: of_char_of)
    have "(ord c div 64) * 64 + ord c mod 64 = ord c" by simp
    then show ?thesis using False Cons high low by simp
  qed (simp add: Cons un_utf8_Cons)
qed simp

lemma utf8_inj [simp]: "utf8 s = utf8 s' \<longleftrightarrow> s = s'"
  by (metis un_utf8_utf8)

lemma dumps_str_cancel [simp]: "dumps_str s @ r = dumps_str s' @ r' \<longleftrightarrow> s = s' \<and> r = r'"
proof
  assume "dumps_str s @ r = dumps_str s' @ r'"
  then have "scan_chars (concat (map escape_char s) @ dq # r) = scan_chars (concat (map escape_char s') @ dq # r')"
    by (simp add: dumps_str_def)
  then show "s = s' \<and> r = r'" by (simp add: scan_chars_dumps)
qed simp

lemma str_nat_cancel: "str_nat m @ CHR '','' # r = str_nat n @ CHR '','' # r' \<longleftrightarrow> m = n \<and> r = r'"
proof
  assume eq: "str_nat m @ CHR '','' # r = str_nat n @ CHR '','' # r'"
  then have "takeWhile is_digit (str_nat m @ CHR '','' # r) = takeWhile is_digit (str_nat n @ CHR '','' # r')" by simp
  then have "m = n" using takeWhile_digits [OF num_end_punct(1) str_nat_digits] by simp
  then show "m = n \<and> r = r'" using eq by simp
qed simp

definition record_text :: "string \<Rightarrow> string \<Rightarrow> nat \<Rightarrow> string \<Rightarrow> string" where
  "record_text relative kind n digest =
     ''{'' @ dumps_str ''bytes'' @ '':'' @ str_nat n @ '','' @ dumps_str ''kind'' @ '':'' @ dumps_str kind @ '','' @
       dumps_str ''path'' @ '':'' @ dumps_str relative @ '','' @ dumps_str ''sha256'' @ '':'' @ dumps_str digest @ ''}''"

lemma record_entry_text: "compact (sort_keys (record_entry sha (relative, kind, content))) = record_text relative kind (length content) (sha content)"
proof -
  have "sort_key fst [(''path'', a), (''kind'', b), (''bytes'', c), (''sha256'', d)] = [(''bytes'', c), (''kind'', b), (''path'', a), (''sha256'', d)]"
    for a b c d :: json by (simp add: less_char_def)
  then show ?thesis by (simp add: record_entry_def record_text_def str_int_def)
qed

lemma record_text_cancel: "record_text p k n h @ r = record_text p' k' n' h' @ r' \<longleftrightarrow> p = p' \<and> k = k' \<and> n = n' \<and> h = h' \<and> r = r'"
  by (auto simp: record_text_def str_nat_cancel)

lemma joined_cancel:
  assumes cancel: "\<And>x y r r'. f x @ r = f y @ r' \<Longrightarrow> g x = g y \<and> r = r'" and start: "\<And>x. \<exists>s. f x = CHR ''{'' # s"
  shows "join '','' (map f xs) @ '']'' = join '','' (map f ys) @ '']'' \<Longrightarrow> map g xs = map g ys"
proof (induction xs arbitrary: ys)
  case Nil
  then show ?case using start [of "hd ys"] by (cases ys; cases "tl ys") auto
next
  case (Cons x xs)
  have tail: "join '','' (map f (z # zs)) @ '']'' = f z @ (if zs = [] then '']'' else CHR '','' # join '','' (map f zs) @ '']'')" for z zs
    by (cases zs) simp_all
  obtain y ys' where ys: "ys = y # ys'" using Cons.prems start [of x] by (cases ys; cases xs) auto
  note both = Cons.prems [unfolded ys tail, THEN cancel]
  then have "map g xs = map g ys'" using Cons.IH [of ys'] by (cases "xs = []"; cases "ys' = []") auto
  then show ?case using both by (simp add: ys)
qed

lemma digest_of_records: "content_digest sha t (auditable_paths t) = content_digest_from_records sha (content_records t (auditable_paths t))"
proof -
  have sorted: "sorted (map posix (auditable_paths t))" by (simp add: auditable_paths_def)
  then have "sort_key posix (auditable_paths t) = auditable_paths t" by (rule sort_key_id_if_sorted)
  moreover have "sort_key fst (content_records t (auditable_paths t)) = content_records t (auditable_paths t)"
    using sorted by (intro sort_key_id_if_sorted) (simp add: content_records_def content_record_def comp_def)
  ultimately show ?thesis by (simp add: content_digest_def content_digest_from_records_def content_records_def comp_def)
qed

definition records_text :: "(string \<Rightarrow> string) \<Rightarrow> content_record list \<Rightarrow> string" where
  "records_text sha rs = compact (sort_keys (JList (map (record_entry sha) rs)))"

lemma records_text_inj:
  assumes "records_text sha rs = records_text sha rs'" "inj_on sha (snd ` snd ` set rs \<union> snd ` snd ` set rs')"
  shows "rs = rs'"
proof -
  let ?f = "\<lambda>r. record_text (fst r) (fst (snd r)) (length (snd (snd r))) (sha (snd (snd r)))"
  let ?g = "\<lambda>r :: content_record. (fst r, fst (snd r), sha (snd (snd r)))"
  have "compact (sort_keys (record_entry sha r)) = ?f r" for r by (cases r) (simp add: record_entry_text)
  then have "join '','' (map ?f rs) @ '']'' = join '','' (map ?f rs') @ '']''"
    using assms(1) by (simp add: records_text_def comp_def)
  moreover have "?g x = ?g y \<and> z = z'" if "?f x @ z = ?f y @ z'" for x y z z' using that by (simp only: record_text_cancel prod.inject)
  moreover have "\<exists>s. ?f x = CHR ''{'' # s" for x by (simp add: record_text_def)
  ultimately have same: "map ?g rs = map ?g rs'" using joined_cancel [of ?f ?g rs rs'] by blast
  show ?thesis
  proof (rule nth_equalityI)
    show len: "length rs = length rs'" using map_eq_imp_length_eq [OF same] .
    fix i assume i: "i < length rs"
    then have "?g (rs ! i) = ?g (rs' ! i)" using arg_cong [OF same, of "\<lambda>l. l ! i"] len by simp
    moreover have "snd (snd (rs ! i)) \<in> snd ` snd ` set rs" "snd (snd (rs' ! i)) \<in> snd ` snd ` set rs'" using i len by simp_all
    ultimately show "rs ! i = rs' ! i" using assms(2) by (auto simp: prod_eq_iff dest: inj_onD)
  qed
qed

text \<open>What is hashed to digest a directory.\<close>

definition hashed :: "(string \<Rightarrow> string) \<Rightarrow> ws_tree \<Rightarrow> string set" where
  "hashed sha t =
     (let rs = content_records t (auditable_paths t) in insert (utf8 (records_text sha rs)) (snd ` snd ` set rs))"

section \<open>Properties\<close>

text \<open>C23: The workspace holds nothing forbidden. Whatever Git puts into it and whatever the project and the allowlist name, when a
  workspace has been prepared no path outside its own \<^verbatim>\<open>.git\<close> has a forbidden component or name; every file outside
  \<^verbatim>\<open>.git\<close> is audited; and the digest handed on is the one of exactly these files.\<close>

theorem workspace_clean:
  assumes "git_keeps e" "prepare_run_workspace e fuel source_dir source rid runs allowlist allow_source = Inr (rw, manifest, t)"
  shows "(\<forall>(q, n) \<in> set t. take 1 q \<noteq> [''.git''] \<longrightarrow> list_all (\<lambda>p. p = [] \<or> \<not> hard_denied (posix p)) (prefixes q)) \<and>
    set (auditable_paths t) = {q \<in> fst ` set t. q \<noteq> [] \<and> node t q \<noteq> Some Folder \<and> take 1 q \<noteq> [''.git'']} \<and>
    rw_content_digest rw = content_digest_from_records (wv_sha e) (content_records t (auditable_paths t))"
proof -
  have "clean_tree t"
    using assms(2) snapshot_clean [OF assms(1)] git_text_outside [OF assms(1)]
    by (auto simp: prepare_run_workspace_def Let_def clean_outside split: option.splits)
  then have clean: "clear_path q" if "(q, n) \<in> set t" "\<not> own_git q" for q n using that by (auto simp: clean_tree_def list_all_iff)
  moreover have "audited t q \<longleftrightarrow> q \<in> fst ` set t \<and> q \<noteq> [] \<and> node t q \<noteq> Some Folder \<and> \<not> own_git q" for q
    using clean own_git_unclear by (force simp: audited_def)
  moreover have "rw_content_digest rw = content_digest (wv_sha e) t (auditable_paths t)"
    using assms(2) by (auto simp: prepare_run_workspace_def Let_def split: option.splits)
  ultimately show ?thesis
    by (auto simp: auditable_paths_audited digest_of_records own_git_def clear_path_def)
qed

definition sample_git :: workspace_env where
  "sample_git = \<lparr>wv_sha = (\<lambda>s. s),
     wv_git = (\<lambda>args input t. if args = [''rev-parse'', ''--show-toplevel''] then (128, [], t) else (0, [], t)),
     wv_clone = (\<lambda>t. None), wv_follow = (\<lambda>t p. None), wv_resolve = (\<lambda>s. s), wv_now = ''now''\<rparr>"

definition sample_project :: ws_tree where
  "sample_project = [([''main.py''], Regular ''x''), ([''.env''], Regular ''secret''), ([''pkg'', ''venv'', ''a.py''], Regular ''y'')]"

theorem workspace_clean_witness:
  "\<exists>rw manifest t. prepare_run_workspace sample_git 5 ''/p'' (Some sample_project) ''r'' ''/runs'' [] None = Inr (rw, manifest, t) \<and>
     auditable_files t = [''main.py''] \<and> rw_content_digest rw = content_digest_from_records (\<lambda>s. s) [(''main.py'', ''file'', ''x'')]"
proof -
  let ?r = "prepare_run_workspace sample_git 5 ''/p'' (Some sample_project) ''r'' ''/runs'' [] None"
  have "map_sum id (\<lambda>(rw, manifest, t). (auditable_files t, content_records t (auditable_paths t))) ?r =
      Inr ([''main.py''], [(''main.py'', ''file'', ''x'')])"
    by code_simp
  then obtain rw manifest t where r: "?r = Inr (rw, manifest, t)"
    and t: "auditable_files t = [''main.py'']" "content_records t (auditable_paths t) = [(''main.py'', ''file'', ''x'')]"
    by (cases ?r) auto
  moreover have "git_keeps sample_git" by (simp add: git_keeps_def sample_git_def)
  ultimately show ?thesis
    using workspace_clean [OF _ r] by (simp add: sample_git_def)
qed

text \<open>C24: The digest of a workspace identifies its contents: it is the digest of the records of its audited files, and unless
  SHA-256 collides on what is hashed, two directories have the same digest exactly when they have the same audited files of
  the same kind with the same bytes.\<close>

theorem digest_identifies:
  assumes "inj_on sha (hashed sha t \<union> hashed sha t')"
  shows "workspace_content_digest sha (Some t) = map_sum id (content_digest_from_records sha) (workspace_content_records (Some t)) \<and>
    (workspace_content_digest sha (Some t) = workspace_content_digest sha (Some t') \<longleftrightarrow>
       workspace_content_records (Some t) = workspace_content_records (Some t'))"
proof -
  let ?r = "content_records t (auditable_paths t)" and ?r' = "content_records t' (auditable_paths t')"
  have sorted: "sort_key fst (content_records t (auditable_paths t)) = content_records t (auditable_paths t)" for t
    by (intro sort_key_id_if_sorted) (simp add: content_records_def content_record_def comp_def auditable_paths_def)
  have hashes: "content_digest_from_records sha (content_records t (auditable_paths t)) = sha (utf8 (records_text sha (content_records t (auditable_paths t))))" for t
    by (simp add: content_digest_from_records_def content_digest_from_entries_def records_text_def sorted)
  have "sha (utf8 (records_text sha ?r)) = sha (utf8 (records_text sha ?r')) \<longleftrightarrow> records_text sha ?r = records_text sha ?r'"
    using inj_on_eq_iff [OF assms, of "utf8 (records_text sha ?r)" "utf8 (records_text sha ?r')"] by (simp add: hashed_def Let_def)
  also have "\<dots> \<longleftrightarrow> ?r = ?r'"
    using records_text_inj [of sha ?r ?r'] inj_on_subset [OF assms] by (auto simp: hashed_def Let_def)
  finally show ?thesis
    by (simp add: workspace_content_digest_def workspace_content_records_def digest_of_records hashes)
qed

theorem digest_identifies_witness:
  "workspace_content_digest (\<lambda>s. s) (Some sample_project) \<noteq> workspace_content_digest (\<lambda>s. s) (Some [([''main.py''], Regular ''z'')])"
proof -
  have "workspace_content_records (Some sample_project) \<noteq> workspace_content_records (Some [([''main.py''], Regular ''z'')])" by code_simp
  moreover have "inj_on (\<lambda>s. s) (hashed (\<lambda>s. s) sample_project \<union> hashed (\<lambda>s. s) [([''main.py''], Regular ''z'')])" by simp
  ultimately show ?thesis using digest_identifies by blast
qed

end
