(* ===== verification/Evals.thy ===== *)
theory Evals
  imports Workspace Context
begin

text \<open>
  The judgement of a run by the assertions of its evaluation case (\<^verbatim>\<open>evals/assertions.py\<close>) and the
  loading of the cases (\<^verbatim>\<open>evals/case.py\<close>).

  The files are the map of \<^verbatim>\<open>Sandbox\<close>, from the text of a path to its node; an assertion that runs a
  command returns them as the command and its own artifact leave them. Processes, SHA-256, YAML,
  regular expressions of a case and the resolution of paths are arguments; the host is POSIX.

  Results: the trimmed evidence of a run is judged as the whole trace is; for a patch of text files
  the changed files are those it leaves, the deleted ones those it removes; a case that loads is
  well-formed, and what it may write stays under its workspace.
\<close>

section \<open>Values\<close>

text \<open>\<^verbatim>\<open>==\<close> of two JSON values: numbers and booleans by value, dicts without order.\<close>

fun number_of :: "json \<Rightarrow> pyfloat option" where
  "number_of (JInt n) = Some (Fin (of_int n))"
| "number_of (JBool b) = Some (Fin (of_bool b))"
| "number_of (JFloat x) = Some x"
| "number_of _ = None"

function json_eq :: "json \<Rightarrow> json \<Rightarrow> bool" where
  "json_eq (JList xs) v = (case v of JList ys \<Rightarrow> length xs = length ys \<and> (\<forall>(x, y) \<in> set (zip xs ys). json_eq x y) | _ \<Rightarrow> False)"
| "json_eq (JDict kvs) v =
     (case v of
        JDict kws \<Rightarrow> length kvs = length kws \<and> (\<forall>(k, x) \<in> set kvs. case map_of kws k of Some y \<Rightarrow> json_eq x y | None \<Rightarrow> False)
      | _ \<Rightarrow> False)"
| "json_eq JNull v = (v = JNull)"
| "json_eq (JStr s) v = (v = JStr s)"
| "json_eq (JInt n) v = (number_of v = Some (Fin (of_int n)))"
| "json_eq (JBool b) v = (number_of v = Some (Fin (of_bool b)))"
| "json_eq (JFloat x) v = (x \<noteq> NaN \<and> number_of v = Some x)"
  by pat_completeness auto
termination
proof (relation "measure (size \<circ> fst)")
  fix xs :: "json list" and v :: json and ys :: "json list" and p x y
  assume "p \<in> set (zip xs ys)" "(x, y) = p"
  then have "x \<in> set xs" using set_zip_leftD by metis
  then have "size x \<le> size_list size xs" by (rule size_list_estimation' [OF _ order_refl])
  then show "((x, y), JList xs, v) \<in> measure (size \<circ> fst)" by simp
next
  fix kvs :: jdict and v y :: json and p k x
  assume "p \<in> set kvs" "(k, x) = p"
  then have "(k, x) \<in> set kvs" by simp
  then have "size_prod (\<lambda>_. 0) size (k, x) \<le> size_list (size_prod (\<lambda>_. 0) size) kvs" by (rule size_list_estimation' [OF _ order_refl])
  then show "((x, y), JDict kvs, v) \<in> measure (size \<circ> fst)" by simp
qed simp

fun float_ge :: "pyfloat \<Rightarrow> pyfloat \<Rightarrow> bool" where
  "float_ge NaN y = False"
| "float_ge x NaN = False"
| "float_ge PInf y = True"
| "float_ge x NInf = True"
| "float_ge (Fin a) (Fin b) = (b \<le> a)"
| "float_ge x y = False"

definition float_eq :: "pyfloat \<Rightarrow> pyfloat \<Rightarrow> bool" where
  "float_eq x y = (x \<noteq> NaN \<and> x = y)"

definition str_or_empty :: "json \<Rightarrow> string" where \<comment> \<open>\<^verbatim>\<open>str(v or "")\<close>\<close>
  "str_or_empty v = (if truthy v then py_str v else [])"

definition repr_list :: "string list \<Rightarrow> string" where
  "repr_list ss = py_repr (JList (map JStr ss))"

definition removeprefix :: "string \<Rightarrow> string \<Rightarrow> string" where
  "removeprefix s p = (if startswith s p then drop (length p) s else s)"

definition last_chars :: "nat \<Rightarrow> string \<Rightarrow> string" where \<comment> \<open>\<^verbatim>\<open>s[-n:]\<close>\<close>
  "last_chars n s = drop (length s - n) s"

section \<open>Assertions\<close>

datatype process_outcome =
    Completed int string string \<comment> \<open>code and what was printed\<close>
  | TimedOut string string string \<comment> \<open>the text of the exception and what was printed\<close>
  | NotStarted string

record assert_env =
  av_sha :: "string \<Rightarrow> string" \<comment> \<open>of the UTF-8 bytes of a text\<close>
  av_shell :: "string list \<Rightarrow> string \<Rightarrow> int \<Rightarrow> ws_files \<Rightarrow> process_outcome \<times> ws_files" \<comment> \<open>arguments, directory, seconds\<close>
  av_python :: "string \<Rightarrow> string \<Rightarrow> string \<Rightarrow> int \<Rightarrow> ws_files \<Rightarrow> process_outcome \<times> ws_files" \<comment> \<open>script, directory, workspace\<close>
  av_resolve :: "string \<Rightarrow> string"
  av_fullmatch :: "string \<Rightarrow> string \<Rightarrow> bool result" \<comment> \<open>\<^verbatim>\<open>re.fullmatch\<close> with the pattern of a case\<close>

record assertion_result =
  ar_type :: string
  ar_passed :: bool
  ar_message :: string
  ar_spec_sha256 :: "string option"

definition verdict :: "string \<Rightarrow> bool \<Rightarrow> string \<Rightarrow> assertion_result" where
  "verdict ty ok msg = \<lparr>ar_type = ty, ar_passed = ok, ar_message = msg, ar_spec_sha256 = None\<rparr>"

definition verdict_sha :: "string \<Rightarrow> bool \<Rightarrow> string \<Rightarrow> string \<Rightarrow> assertion_result" where
  "verdict_sha ty ok msg sha = \<lparr>ar_type = ty, ar_passed = ok, ar_message = msg, ar_spec_sha256 = Some sha\<rparr>"

definition text_at :: "ws_files \<Rightarrow> string \<Rightarrow> string option" where
  "text_at fs p = (case fs p of Some (FileNode s) \<Rightarrow> Some s | _ \<Rightarrow> None)"

fun squash :: "bool \<Rightarrow> string \<Rightarrow> string" where \<comment> \<open>\<^verbatim>\<open>re.sub(r"[^a-z0-9_-]+", "-", s)\<close>; the flag says that the last character was replaced\<close>
  "squash b [] = []"
| "squash b (c # s) =
     (if CHR ''a'' \<le> c \<and> c \<le> CHR ''z'' \<or> is_digit c \<or> c = CHR ''_'' \<or> c = CHR ''-'' then c # squash False s
      else if b then squash True s else CHR ''-'' # squash True s)"

definition artifact_label :: "jdict \<Rightarrow> string" where
  "artifact_label a =
     squash False (lower (let v = jget a ''_artifact_label'' in if truthy v then py_str v else ''final''))"

definition verification_path :: "assert_env \<Rightarrow> string \<Rightarrow> jdict \<Rightarrow> string \<Rightarrow> string" where
  "verification_path e rd a key =
     rd @ ''/artifacts/verification/'' @ artifact_label a @ ''-'' @ take 12 (av_sha e key) @ ''.json''"

definition exit_json :: "int option \<Rightarrow> json" where
  "exit_json rc = (case rc of None \<Rightarrow> JNull | Some n \<Rightarrow> JInt n)"

definition put_json :: "string \<Rightarrow> jdict \<Rightarrow> ws_files \<Rightarrow> ws_files" where
  "put_json p d fs = fs(p \<mapsto> FileNode (dumps_indent 0 (JDict d) @ [nl]))"

definition shell_args :: "string \<Rightarrow> string list" where
  "shell_args command_text = [''bash'', ''-lc'', command_text]"

definition assert_command :: "assert_env \<Rightarrow> jdict \<Rightarrow> string \<Rightarrow> string option \<Rightarrow> ws_files \<Rightarrow> (assertion_result \<times> ws_files) result" where
  "assert_command e a workspace rd fs =
     (let cmd = str_or_empty (jget a ''command'')
      in bind_res (int_of_json (jget_or a ''expect_exit_code'' (JInt 0))) (\<lambda>expected.
         bind_res (int_of_json (jget_or a ''timeout_sec'' (JInt 120))) (\<lambda>limit.
           let (p, fs1) = av_shell e (shell_args cmd) workspace limit fs;
               (rc, out, err) = (case p of Completed n o1 e1 \<Rightarrow> (Some n, o1, e1) | TimedOut _ o1 e1 \<Rightarrow> (None, o1, e1) | NotStarted m \<Rightarrow> (None, [], m));
               fs2 = (case rd of None \<Rightarrow> fs1
                 | Some d \<Rightarrow> put_json (verification_path e d a cmd)
                     [(''command'', JStr cmd), (''expected_exit_code'', JInt expected), (''exit_code'', exit_json rc), (''stdout'', JStr out), (''stderr'', JStr err)] fs1);
               passed = (rc = Some expected)
           in Inr (verdict ''command'' passed
                (''command exit_code='' @ py_str (exit_json rc) @ '', expected='' @ str_int expected @ '': '' @ cmd @
                 (if \<not> passed \<and> err \<noteq> [] then nl # ''stderr='' @ last_chars 1000 err else [])), fs2))))"

definition hex_digest_text :: "string \<Rightarrow> bool" where \<comment> \<open>\<^verbatim>\<open>re.fullmatch(r"[0-9a-f]{64}", s)\<close>\<close>
  "hex_digest_text s = (length s = 64 \<and> list_all (\<lambda>c. is_digit c \<or> CHR ''a'' \<le> c \<and> c \<le> CHR ''f'') s)"

definition assert_python_verifier ::
  "assert_env \<Rightarrow> jdict \<Rightarrow> string \<Rightarrow> string option \<Rightarrow> string option \<Rightarrow> ws_files \<Rightarrow> (assertion_result \<times> ws_files) result" where
  "assert_python_verifier e a workspace rd verifier_dir fs =
     (let relative = strip (replace_char bsl (CHR ''/'') (str_or_empty (jget a ''path'')));
          expected_sha = lower (str_or_empty (jget a ''sha256''))
      in case verifier_dir of
           None \<Rightarrow> Inr (verdict ''python_verifier'' False ''python verifier directory is not configured'', fs)
         | Some vd \<Rightarrow>
             if relative = [] \<or> startswith relative ''/'' \<or> ''..'' \<in> set (pure_parts relative) \<or> \<not> hex_digest_text expected_sha then
               Inr (verdict ''python_verifier'' False ''python verifier requires a safe relative path and a SHA-256 digest'', fs)
             else
               (let top = av_resolve e vd; script = av_resolve e (path_join top relative)
                in case (if script = top \<or> \<not> inside top script then None else text_at fs script) of
                     None \<Rightarrow> Inr (verdict ''python_verifier'' False (''python verifier is missing or escapes its root: '' @ relative), fs)
                   | Some code \<Rightarrow>
                       if av_sha e code \<noteq> expected_sha then
                         Inr (verdict_sha ''python_verifier'' False
                           (''python verifier digest mismatch: expected='' @ expected_sha @ '', actual='' @ av_sha e code) expected_sha, fs)
                       else
                         bind_res (int_of_json (jget_or a ''timeout_sec'' (JInt 120))) (\<lambda>limit.
                           case av_python e script top (av_resolve e workspace) limit fs of
                             (TimedOut m _ _, fs1) \<Rightarrow> Inr (verdict_sha ''python_verifier'' False (''python verifier could not complete: '' @ m) expected_sha, fs1)
                           | (NotStarted m, fs1) \<Rightarrow> Inr (verdict_sha ''python_verifier'' False (''python verifier could not complete: '' @ m) expected_sha, fs1)
                           | (Completed rc out err, fs1) \<Rightarrow>
                               bind_res (int_of_json (jget_or a ''expect_exit_code'' (JInt 0))) (\<lambda>expected.
                                 let fs2 = (case rd of None \<Rightarrow> fs1
                                       | Some d \<Rightarrow> put_json (verification_path e d a relative)
                                           [(''type'', JStr ''python_verifier''), (''path'', JStr relative), (''expected_exit_code'', JInt expected),
                                            (''exit_code'', JInt rc), (''sha256'', JStr expected_sha), (''stdout'', JStr out), (''stderr'', JStr err)] fs1);
                                     passed = (rc = expected); output = strip (out @ err)
                                 in Inr (verdict_sha ''python_verifier'' passed
                                      (''python verifier exit_code='' @ str_int rc @ '': '' @ relative @ ''; sha256='' @ expected_sha @
                                       (if \<not> passed \<and> output \<noteq> [] then nl # ''output='' @ last_chars 2000 output else [])) expected_sha, fs2)))))"

definition assert_file_exists :: "jdict \<Rightarrow> string \<Rightarrow> ws_files \<Rightarrow> assertion_result" where
  "assert_file_exists a workspace fs =
     (let p = str_or_empty (jget a ''path'') in verdict ''file_exists'' (fs (path_join workspace p) \<noteq> None) (''file exists: '' @ p))"

definition assert_file_not_exists :: "jdict \<Rightarrow> string \<Rightarrow> ws_files \<Rightarrow> assertion_result" where
  "assert_file_not_exists a workspace fs =
     (let p = str_or_empty (jget a ''path'') in verdict ''file_not_exists'' (fs (path_join workspace p) = None) (''file does not exist: '' @ p))"

text \<open>Iterating over a value: a list gives its elements, a text its characters, a dict its keys.\<close>

fun iter_json :: "json \<Rightarrow> json list result" where
  "iter_json (JList vs) = Inr vs"
| "iter_json (JStr s) = Inr (map (\<lambda>c. JStr [c]) s)"
| "iter_json (JDict kvs) = Inr (map (JStr \<circ> fst) kvs)"
| "iter_json _ = Inl TypeError"

definition str_items :: "jdict \<Rightarrow> string \<Rightarrow> string list result" where \<comment> \<open>\<^verbatim>\<open>[str(x) for x in d.get(k, [])]\<close>\<close>
  "str_items d k = bind_res (iter_json (jget_or d k (JList []))) (\<lambda>vs. Inr (map py_str vs))"

definition assert_file_contains :: "jdict \<Rightarrow> string \<Rightarrow> bool \<Rightarrow> ws_files \<Rightarrow> assertion_result result" where
  "assert_file_contains a workspace should_contain fs =
     (let p = str_or_empty (jget a ''path'')
      in bind_res (str_items a ''patterns'') (\<lambda>patterns.
         case fs (path_join workspace p) of
           None \<Rightarrow> Inr (verdict (py_str (jget a ''type'')) False (''file missing: '' @ p))
         | Some DirNode \<Rightarrow> Inl (RuntimeError ''IsADirectoryError'')
         | Some (FileNode text0) \<Rightarrow>
             let missing = filter (\<lambda>q. \<not> contains text0 q) patterns; present = filter (contains text0) patterns
             in Inr (if should_contain then verdict ''file_contains'' (missing = []) (''missing patterns in '' @ p @ '': '' @ repr_list missing)
                else verdict ''file_not_contains'' (present = []) (''unexpected patterns in '' @ p @ '': '' @ repr_list present))))"

definition metric_value :: "jdict \<Rightarrow> string \<Rightarrow> pyfloat result" where
  "metric_value ms name = (let v = jget_or ms name (JInt 0) in float_of_json (if truthy v then v else JInt 0))"

definition assert_metric_at_least :: "jdict \<Rightarrow> jdict \<Rightarrow> assertion_result result" where
  "assert_metric_at_least a ms =
     (let name = str_or_empty (jget a ''name'')
      in bind_res (float_of_json (jget_or a ''value'' (JInt 0))) (\<lambda>expected.
         bind_res (metric_value ms name) (\<lambda>actual.
           Inr (verdict ''metric_at_least'' (float_ge actual expected)
             (''metric '' @ name @ ''='' @ py_str (JFloat actual) @ '', expected at least '' @ py_str (JFloat expected))))))"

definition assert_metric_equals :: "jdict \<Rightarrow> jdict \<Rightarrow> assertion_result result" where
  "assert_metric_equals a ms =
     (let name = str_or_empty (jget a ''name'')
      in bind_res (float_of_json (jget_or a ''value'' (JInt 0))) (\<lambda>expected.
         bind_res (metric_value ms name) (\<lambda>actual.
           Inr (verdict ''metric_equals'' (has_key ms name \<and> float_eq actual expected)
             (''metric '' @ name @ ''='' @ py_str (JFloat actual) @ '', expected exactly '' @ py_str (JFloat expected) @
              ''; field_present='' @ py_str (JBool (has_key ms name)))))))"

definition assert_run_status :: "jdict \<Rightarrow> jdict \<Rightarrow> assertion_result" where
  "assert_run_status a ms =
     (let expected = str_or_empty (jget a ''value''); actual = str_or_empty (jget ms ''status'')
      in verdict ''run_status'' (actual = expected) (''run status='' @ actual @ '', expected='' @ expected))"

section \<open>Assertions on the trace\<close>

text \<open>Lines that are no JSON are passed over, and what is no object.\<close>

fun trace_events :: "string list \<Rightarrow> jdict list result" where
  "trace_events [] = Inr []"
| "trace_events (l # ls) =
     (case json_loads l of
        Inl (JSONDecodeError _) \<Rightarrow> trace_events ls
      | Inl err \<Rightarrow> Inl err
      | Inr (JDict d) \<Rightarrow> bind_res (trace_events ls) (\<lambda>ds. Inr (d # ds))
      | Inr _ \<Rightarrow> trace_events ls)"

definition read_run_trace :: "string \<Rightarrow> ws_files \<Rightarrow> jdict list result" where
  "read_run_trace rd fs =
     (case fs (rd @ ''/trace.jsonl'') of
        None \<Rightarrow> Inr []
      | Some DirNode \<Rightarrow> Inl (RuntimeError ''IsADirectoryError'')
      | Some (FileNode text0) \<Rightarrow> trace_events (splitlines text0))"

definition is_event :: "string \<Rightarrow> jdict \<Rightarrow> bool" where
  "is_event name event = (jget event ''event'' = JStr name)"

definition has_field :: "jdict \<Rightarrow> string \<times> json \<Rightarrow> bool" where
  "has_field event kv = json_eq (jget event (fst kv)) (snd kv)"

definition assert_trace_contains_event :: "jdict \<Rightarrow> string \<Rightarrow> ws_files \<Rightarrow> assertion_result result" where
  "assert_trace_contains_event a rd fs =
     (let ty = str_or_empty (jget a ''event_type'');
          fields = (case jget_or a ''fields'' (JDict []) of JDict d \<Rightarrow> d | _ \<Rightarrow> [])
      in bind_res (read_run_trace rd fs) (\<lambda>events.
           Inr (verdict ''trace_contains_event''
             (list_ex (\<lambda>event. is_event ty event \<and> list_all (has_field event) fields) events)
             (''trace contains event: '' @ ty @ (if fields = [] then [] else '' with fields '' @ py_repr (JDict fields))))))"

text \<open>The command of a parsed shell action.\<close>

definition bash_command :: "jdict \<Rightarrow> string option" where
  "bash_command event =
     (if is_event ''action_parsed'' event then
        (case jget event ''action'' of
           JDict act \<Rightarrow> if jget act ''type'' = JStr ''bash'' then Some (strip (str_or_empty (jget act ''command''))) else None
         | _ \<Rightarrow> None)
      else None)"

definition normalize_trace_command :: "string \<Rightarrow> string" where
  "normalize_trace_command s = strip s"

definition assert_trace_action_sequence :: "jdict \<Rightarrow> string \<Rightarrow> ws_files \<Rightarrow> assertion_result result" where
  "assert_trace_action_sequence a rd fs =
     (let bad = Inr (verdict ''trace_action_sequence'' False ''trace action sequence requires a non-empty list of exact commands'')
      in case jget a ''commands'' of
           JList raws \<Rightarrow>
             if raws = [] \<or> \<not> list_all (\<lambda>v. case v of JStr s \<Rightarrow> strip s \<noteq> [] | _ \<Rightarrow> False) raws then bad
             else
               (let expected = map (\<lambda>v. case v of JStr s \<Rightarrow> normalize_trace_command s | _ \<Rightarrow> []) raws; n = length expected;
                    raw_start = jget a ''start_index''
                in bind_res (read_run_trace rd fs) (\<lambda>events.
                   let actual = List.map_filter bash_command events
                   in bind_res
                        (if raw_start = JNull then
                           Inr (list_ex (\<lambda>i. take n (drop i actual) = expected) [0..<Suc (length actual) - n], ''at any position'')
                         else
                           (case (case int_of_json raw_start of Inl TypeError \<Rightarrow> Inr 0 | Inl (ValueError _) \<Rightarrow> Inr 0 | r \<Rightarrow> r) of
                              Inl err \<Rightarrow> Inl err
                            | Inr start \<Rightarrow>
                                Inr (1 \<le> start \<and> take n (drop (nat (start - 1)) actual) = expected,
                                     ''at 1-based bash index '' @ py_str raw_start)))
                        (\<lambda>(passed, position).
                           Inr (verdict ''trace_action_sequence'' passed
                             (''trace contains contiguous exact bash command sequence '' @ position @ '': '' @ repr_list expected @
                              ''; observed bash commands: '' @ repr_list actual)))))
         | _ \<Rightarrow> bad)"

text \<open>The specification of one action: exactly one way to match it, and no unknown key.\<close>

definition nonempty_str :: "json \<Rightarrow> bool" where
  "nonempty_str v = (case v of JStr s \<Rightarrow> s \<noteq> [] | _ \<Rightarrow> False)"

definition valid_heredoc :: "json \<Rightarrow> bool" where
  "valid_heredoc v =
     (case v of
        JDict d \<Rightarrow> set (map fst d) = {''path'', ''delimiter''} \<and> list_all (nonempty_str \<circ> snd) d
      | _ \<Rightarrow> False)"

definition valid_action_shape_spec :: "jdict \<Rightarrow> bool" where
  "valid_action_shape_spec spec =
     (let matchers = filter (has_key spec) [''command'', ''command_regex'', ''heredoc_write'']
      in length matchers = 1 \<and>
         list_all (\<lambda>k. k \<in> set (matchers @ [''expect_exit_code'', ''artifact_ids''])) (map fst spec) \<and>
         (has_key spec ''command'' \<longrightarrow> (case jget spec ''command'' of JStr _ \<Rightarrow> True | _ \<Rightarrow> False)) \<and>
         (has_key spec ''command_regex'' \<longrightarrow> (case jget spec ''command_regex'' of JStr _ \<Rightarrow> True | _ \<Rightarrow> False)) \<and>
         (has_key spec ''heredoc_write'' \<longrightarrow> valid_heredoc (jget spec ''heredoc_write'')) \<and>
         (has_key spec ''expect_exit_code'' \<longrightarrow> (case jget spec ''expect_exit_code'' of JInt _ \<Rightarrow> True | JBool _ \<Rightarrow> True | _ \<Rightarrow> False)) \<and>
         (has_key spec ''artifact_ids'' \<longrightarrow> (case jget spec ''artifact_ids'' of JList vs \<Rightarrow> list_all nonempty_str vs | _ \<Rightarrow> False)))"

definition matches_heredoc_write :: "string \<Rightarrow> string \<Rightarrow> string \<Rightarrow> bool" where
  "matches_heredoc_write cmd path delimiter =
     (let ls = splitlines cmd; body = butlast (tl ls)
      in 3 \<le> length ls \<and> hd ls = ''cat > '' @ path @ '' << '' @ [CHR 0x27] @ delimiter @ [CHR 0x27] \<and> last ls = delimiter \<and>
         body \<noteq> [] \<and> delimiter \<notin> set body)"

definition command_matches :: "assert_env \<Rightarrow> string \<Rightarrow> jdict \<Rightarrow> bool result" where
  "command_matches e cmd spec =
     (case jget spec ''command'' of
        JStr exact \<Rightarrow> Inr (cmd = strip exact)
      | _ \<Rightarrow>
          (case jget spec ''command_regex'' of
             JStr pattern \<Rightarrow> av_fullmatch e pattern cmd
           | _ \<Rightarrow>
               (case jget spec ''heredoc_write'' of
                  JDict h \<Rightarrow> Inr (matches_heredoc_write cmd (py_str (jget h ''path'')) (py_str (jget h ''delimiter'')))
                | _ \<Rightarrow> Inr False)))"

text \<open>What the events between an action and the next one must show.\<close>

definition outcome_matches :: "jdict \<Rightarrow> jdict list \<Rightarrow> bool" where
  "outcome_matches spec between =
     (case filter (is_event ''sandbox_exec_finished'') between of
        [done] \<Rightarrow>
          (case jget done ''observation'' of
             JDict ob \<Rightarrow>
               (jget spec ''expect_exit_code'' = JNull \<or> json_eq (jget ob ''exit_code'') (jget spec ''expect_exit_code'')) \<and>
               (has_key spec ''artifact_ids'' \<longrightarrow>
                  json_eq (jget ob ''artifact_ids'') (jget spec ''artifact_ids'') \<and>
                  (case jget spec ''artifact_ids'' of
                     JList ids \<Rightarrow> list_all (\<lambda>i. list_ex (json_eq i) (map (\<lambda>w. jget w ''artifact_id'') (filter (is_event ''artifact_written'') between))) ids
                   | _ \<Rightarrow> False))
           | _ \<Rightarrow> False)
      | _ \<Rightarrow> False)"

text \<open>The shell actions of a trace, each with the events up to the next one.\<close>

fun bash_steps :: "jdict list \<Rightarrow> (string \<times> jdict list) list" where
  "bash_steps [] = []"
| "bash_steps (event # events) =
     (case bash_command event of
        None \<Rightarrow> bash_steps events
      | Some cmd \<Rightarrow> (cmd, takeWhile (\<lambda>x. bash_command x = None) events) # bash_steps events)"

primrec steps_match :: "assert_env \<Rightarrow> ((string \<times> jdict list) \<times> jdict) list \<Rightarrow> bool result" where
  "steps_match e [] = Inr True"
| "steps_match e (step # rest) =
     (case step of ((cmd, between), spec) \<Rightarrow>
        bind_res (command_matches e cmd spec) (\<lambda>ok.
          if ok \<and> outcome_matches spec between then steps_match e rest else Inr False))"

definition assertion_spec_sha256 :: "assert_env \<Rightarrow> jdict \<Rightarrow> string" where
  "assertion_spec_sha256 e spec = av_sha e (compact (sort_keys (JDict spec)))"

definition assert_trace_action_shape_events :: "assert_env \<Rightarrow> jdict \<Rightarrow> jdict list \<Rightarrow> assertion_result result" where
  "assert_trace_action_shape_events e a events =
     (let bad = Inr (verdict ''trace_action_shape'' False ''trace action shape requires a non-empty list of action specs'')
      in case jget a ''actions'' of
           JList raws \<Rightarrow>
             if raws = [] \<or> \<not> list_all (\<lambda>v. case v of JDict _ \<Rightarrow> True | _ \<Rightarrow> False) raws then bad
             else
               (let specs = map (\<lambda>v. case v of JDict d \<Rightarrow> d | _ \<Rightarrow> []) raws; shown = bash_steps events
                in bind_res
                     (if list_all valid_action_shape_spec specs \<and> length shown = length specs then steps_match e (zip shown specs) else Inr False)
                     (\<lambda>matched.
                        let sha = assertion_spec_sha256 e [(''type'', JStr ''trace_action_shape''), (''actions'', JList (map JDict specs))]
                        in Inr (verdict_sha ''trace_action_shape'' matched
                             (''trace bash action shape matches locked spec '' @ sha @ ''; observed bash commands: '' @ repr_list (map fst shown)) sha)))
         | _ \<Rightarrow> bad)"

definition assert_trace_action_shape :: "assert_env \<Rightarrow> jdict \<Rightarrow> string \<Rightarrow> ws_files \<Rightarrow> assertion_result result" where
  "assert_trace_action_shape e a rd fs = bind_res (read_run_trace rd fs) (assert_trace_action_shape_events e a)"

text \<open>The fields of the trace that a shape looks at.\<close>

definition evidence_event :: "jdict \<Rightarrow> jdict option" where
  "evidence_event event =
     (if is_event ''action_parsed'' event then
        (case jget event ''action'' of
           JDict act \<Rightarrow>
             if jget act ''type'' = JStr ''bash'' then
               Some [(''event'', JStr ''action_parsed''), (''action'', JDict [(''type'', JStr ''bash''), (''command'', jget act ''command'')])]
             else None
         | _ \<Rightarrow> None)
      else if is_event ''sandbox_exec_finished'' event then
        Some [(''event'', JStr ''sandbox_exec_finished''),
              (''observation'',
               case jget event ''observation'' of
                 JDict ob \<Rightarrow> JDict [(''exit_code'', jget ob ''exit_code''), (''artifact_ids'', jget ob ''artifact_ids'')]
               | _ \<Rightarrow> JNull)]
      else if is_event ''artifact_written'' event then
        Some [(''event'', JStr ''artifact_written''), (''artifact_id'', jget event ''artifact_id'')]
      else None)"

definition trace_action_shape_evidence_events :: "jdict list \<Rightarrow> jdict list" where
  "trace_action_shape_evidence_events events = List.map_filter evidence_event events"

definition assert_no_trace_event :: "string \<Rightarrow> ws_files \<Rightarrow> string \<Rightarrow> (string \<times> string) list \<Rightarrow> assertion_result result" where
  "assert_no_trace_event rd fs ty wanted =
     bind_res (read_run_trace rd fs) (\<lambda>events.
       let matches = filter (\<lambda>event. is_event ty event \<and> list_all (\<lambda>(k, v). jget event k = JStr v) wanted) events
       in Inr (verdict ''no_policy_violation'' (matches = []) (''matching denied policy events: '' @ str_nat (length matches))))"

section \<open>Assertions on the patch\<close>

definition patch_lines :: "string \<Rightarrow> ws_files \<Rightarrow> string list" where
  "patch_lines rd fs = (case text_at fs (rd @ ''/artifacts/diff.patch'') of None \<Rightarrow> [] | Some s \<Rightarrow> splitlines s)"

definition changed_path :: "string \<Rightarrow> string option" where
  "changed_path l =
     (if startswith l ''+++ b/'' then
        (let p = strip (removeprefix l ''+++ b/'') in if p = ''/dev/null'' then None else Some (replace_char bsl (CHR ''/'') p))
      else None)"

definition changed_files :: "string \<Rightarrow> ws_files \<Rightarrow> string list" where
  "changed_files rd fs = sort (remdups (List.map_filter changed_path (patch_lines rd fs)))"

fun deleted_paths :: "string option \<Rightarrow> string list \<Rightarrow> string list" where
  "deleted_paths current [] = []"
| "deleted_paths current (l # ls) =
     (if startswith l ''--- a/'' then deleted_paths (Some (strip (removeprefix l ''--- a/''))) ls
      else
        (case current of
           Some p \<Rightarrow> if l = ''+++ /dev/null'' then replace_char bsl (CHR ''/'') p # deleted_paths current ls else deleted_paths current ls
         | None \<Rightarrow> deleted_paths current ls))"

definition deleted_files :: "string \<Rightarrow> ws_files \<Rightarrow> string list" where
  "deleted_files rd fs = sort (remdups (deleted_paths None (patch_lines rd fs)))"

text \<open>A directory of a list is kept with one slash at its end.\<close>

definition rstrip_slash :: "string \<Rightarrow> string" where
  "rstrip_slash s = rev (dropWhile (\<lambda>c. c = CHR ''/'') (rev s))"

definition path_items :: "jdict \<Rightarrow> string list result" where
  "path_items a = bind_res (str_items a ''paths'') (\<lambda>ps. Inr (map (\<lambda>p. rstrip_slash (replace_char bsl (CHR ''/'') p) @ ''/'') ps))"

definition under_item :: "string \<Rightarrow> string \<Rightarrow> bool" where
  "under_item path item = (path = rstrip_slash item \<or> startswith path item)"

definition assert_diff_allowlist :: "jdict \<Rightarrow> string \<Rightarrow> ws_files \<Rightarrow> assertion_result result" where
  "assert_diff_allowlist a rd fs =
     bind_res (path_items a) (\<lambda>allowed.
       let blocked = filter (\<lambda>p. \<not> list_ex (under_item p) allowed) (changed_files rd fs)
       in Inr (verdict ''diff_allowlist'' (blocked = []) (''changed files outside allowlist: '' @ repr_list blocked)))"

definition assert_no_source_diff :: "jdict \<Rightarrow> string \<Rightarrow> ws_files \<Rightarrow> assertion_result result" where
  "assert_no_source_diff a rd fs =
     bind_res (path_items a) (\<lambda>protected.
       let blocked = filter (\<lambda>p. list_ex (under_item p) protected) (changed_files rd fs)
       in Inr (verdict ''no_source_diff'' (blocked = []) (''protected files changed: '' @ repr_list blocked)))"

definition assert_diff_does_not_delete :: "jdict \<Rightarrow> string \<Rightarrow> ws_files \<Rightarrow> assertion_result result" where
  "assert_diff_does_not_delete a rd fs =
     bind_res (path_items a) (\<lambda>protected.
       let blocked = filter (\<lambda>p. list_ex (under_item p) protected) (deleted_files rd fs)
       in Inr (verdict ''diff_does_not_delete'' (blocked = []) (''protected files deleted: '' @ repr_list blocked)))"

definition assert_max_changed_files :: "jdict \<Rightarrow> string \<Rightarrow> ws_files \<Rightarrow> assertion_result result" where
  "assert_max_changed_files a rd fs =
     bind_res (int_of_json (jget_or a ''value'' (JInt 0))) (\<lambda>limit.
       let n = int (length (changed_files rd fs))
       in Inr (verdict ''max_changed_files'' (n \<le> limit) (''changed_files='' @ str_int n @ '', limit='' @ str_int limit)))"

section \<open>Judging a run\<close>

definition reading :: "ws_files \<Rightarrow> assertion_result result \<Rightarrow> (assertion_result \<times> ws_files) result" where
  "reading fs r = bind_res r (\<lambda>v. Inr (v, fs))"

definition run_assertion ::
  "assert_env \<Rightarrow> string \<Rightarrow> string \<Rightarrow> jdict \<Rightarrow> string option \<Rightarrow> jdict \<Rightarrow> ws_files \<Rightarrow> (assertion_result \<times> ws_files) result" where
  "run_assertion e workspace rd ms verifier_dir a fs =
     (let ty = str_or_empty (jget a ''type'')
      in if ty = ''command'' then assert_command e a workspace (Some rd) fs
         else if ty = ''python_verifier'' then assert_python_verifier e a workspace (Some rd) verifier_dir fs
         else if ty = ''file_exists'' then Inr (assert_file_exists a workspace fs, fs)
         else if ty = ''file_not_exists'' then Inr (assert_file_not_exists a workspace fs, fs)
         else if ty = ''file_contains'' then reading fs (assert_file_contains a workspace True fs)
         else if ty = ''file_not_contains'' then reading fs (assert_file_contains a workspace False fs)
         else if ty = ''metric_at_least'' then reading fs (assert_metric_at_least a ms)
         else if ty = ''metric_equals'' then reading fs (assert_metric_equals a ms)
         else if ty = ''run_status'' then Inr (assert_run_status a ms, fs)
         else if ty = ''trace_contains_event'' then reading fs (assert_trace_contains_event a rd fs)
         else if ty = ''trace_action_sequence'' then reading fs (assert_trace_action_sequence a rd fs)
         else if ty = ''trace_action_shape'' then reading fs (assert_trace_action_shape e a rd fs)
         else if ty = ''no_policy_violation'' then reading fs (assert_no_trace_event rd fs ''policy_decision'' [(''decision_type'', ''deny'')])
         else if ty = ''diff_allowlist'' then reading fs (assert_diff_allowlist a rd fs)
         else if ty = ''diff_does_not_delete'' then reading fs (assert_diff_does_not_delete a rd fs)
         else if ty = ''no_source_diff'' then reading fs (assert_no_source_diff a rd fs)
         else if ty = ''max_changed_files'' then reading fs (assert_max_changed_files a rd fs)
         else Inr (verdict (if ty = [] then ''<missing>'' else ty) False (''Unsupported assertion type: '' @ ty), fs))"

fun run_assertions ::
  "assert_env \<Rightarrow> string \<Rightarrow> string \<Rightarrow> jdict \<Rightarrow> string option \<Rightarrow> jdict list \<Rightarrow> ws_files \<Rightarrow> (assertion_result list \<times> ws_files) result" where
  "run_assertions e workspace rd ms verifier_dir [] fs = Inr ([], fs)"
| "run_assertions e workspace rd ms verifier_dir (a # rest) fs =
     bind_res (run_assertion e workspace rd ms verifier_dir a fs) (\<lambda>(r, fs1).
     bind_res (run_assertions e workspace rd ms verifier_dir rest fs1) (\<lambda>(rs, fs2). Inr (r # rs, fs2)))"

section \<open>Cases\<close>

record eval_case =
  ec_name :: string
  ec_prompt :: string
  ec_case_dir :: string
  ec_fixture_dir :: string
  ec_sandbox_mode :: string
  ec_capability :: string
  ec_proves :: string
  ec_budget :: jdict
  ec_assertions :: "jdict list"
  ec_writable_paths :: "string list option"
  ec_context :: jdict
  ec_completion_gate :: bool
  ec_initial_verify :: "jdict option"
  ec_cleanup_workspace :: bool

record case_env =
  cv_yaml :: "string \<Rightarrow> string + json"
  cv_resolve :: "string \<Rightarrow> string"
  cv_paths :: "string \<Rightarrow> string list" \<comment> \<open>the cases under a directory\<close>

definition invalid :: "string \<Rightarrow> 'a result" where
  "invalid m = Inl (ValueError m)"

definition safe_relative_path :: "json \<Rightarrow> string \<Rightarrow> string result" where
  "safe_relative_path v path =
     (let n = strip_char (CHR ''/'') (strip (replace_char bsl (CHR ''/'') (py_str v)))
      in if n = [] \<or> startswith n ''/'' \<or> ''..'' \<in> set (pure_parts n)
         then invalid (''workspace.writable_paths contains an unsafe path in '' @ path @ '': '' @ py_str v) else Inr n)"

definition parent_of :: "string \<Rightarrow> string" where
  "parent_of p = join ''/'' (butlast (split_slash p))"

definition dict_or_empty :: "json \<Rightarrow> jdict" where
  "dict_or_empty v = (case v of JDict d \<Rightarrow> d | _ \<Rightarrow> [])"

definition case_context :: "string \<Rightarrow> jdict \<Rightarrow> jdict result" where
  "case_context path data =
     (case jget_or data ''context'' (JDict []) of
        JDict context \<Rightarrow>
          (case jget_or context ''retention_markers'' (JList []) of
             JList ms \<Rightarrow>
               if list_all (\<lambda>m. case m of JStr s \<Rightarrow> strip s \<noteq> [] | _ \<Rightarrow> False) ms
               then Inr (AList.update ''retention_markers'' (JList ms) context)
               else invalid (''context.retention_markers must be a list of non-empty strings: '' @ path)
           | _ \<Rightarrow> invalid (''context.retention_markers must be a list of non-empty strings: '' @ path))
      | _ \<Rightarrow> invalid (''context must be a mapping: '' @ path))"

definition case_writable_paths :: "string \<Rightarrow> jdict \<Rightarrow> string list option result" where
  "case_writable_paths path data =
     (case jget (dict_or_empty (jget_or data ''workspace'' (JDict []))) ''writable_paths'' of
        JNull \<Rightarrow> Inr None
      | JList vs \<Rightarrow> bind_res (mapM_res (\<lambda>v. safe_relative_path v path) vs) (\<lambda>ps. Inr (Some ps))
      | _ \<Rightarrow> invalid (''workspace.writable_paths must be a list: '' @ path))"

definition case_initial_verify :: "string \<Rightarrow> jdict \<Rightarrow> jdict option result" where
  "case_initial_verify path data =
     (case jget data ''initial_verify'' of
        JNull \<Rightarrow> Inr None
      | JDict raw \<Rightarrow>
          (let ty = (let v = jget raw ''type'' in if truthy v then py_str v else ''command'');
               verify = fold (\<lambda>(k, v). AList.update k v) raw [(''type'', JStr ty)]
           in if ty \<notin> {''command'', ''python_verifier''} then invalid (''initial_verify has unsupported type: '' @ path)
              else if ty = ''command'' \<and> strip (str_or_empty (jget verify ''command'')) = []
                then invalid (''initial_verify requires a command: '' @ path)
              else
                bind_res
                  (if ty = ''python_verifier'' then
                     (case jget verify ''path'' of
                        JStr p \<Rightarrow>
                          bind_res (safe_relative_path (JStr p) path) (\<lambda>_.
                            let digest = lower (str_or_empty (jget verify ''sha256''))
                            in if hex_digest_text digest then Inr (AList.update ''sha256'' (JStr digest) verify)
                               else invalid (''initial_verify python_verifier requires a SHA-256 digest: '' @ path))
                      | _ \<Rightarrow> invalid (''initial_verify python_verifier requires path: '' @ path))
                   else Inr verify)
                  (\<lambda>verify1.
                     case int_of_json (jget_or verify1 ''expect_exit_code'' (JInt 1)) of
                       Inl TypeError \<Rightarrow> invalid (''initial_verify.expect_exit_code must be an integer: '' @ path)
                     | Inl (ValueError _) \<Rightarrow> invalid (''initial_verify.expect_exit_code must be an integer: '' @ path)
                     | Inl err \<Rightarrow> Inl err
                     | Inr n \<Rightarrow>
                         if n = 0 then invalid (''initial_verify must expect a failing command: '' @ path)
                         else Inr (Some (AList.update ''expect_exit_code'' (JInt n) verify1))))
      | _ \<Rightarrow> invalid (''initial_verify must be a mapping: '' @ path))"

definition load_case :: "case_env \<Rightarrow> ws_files \<Rightarrow> string \<Rightarrow> eval_case result" where
  "load_case e fs path =
     (case text_at fs path of
        None \<Rightarrow> Inl (RuntimeError ''FileNotFoundError'')
      | Some source \<Rightarrow>
          (case cv_yaml e source of
             Inl m \<Rightarrow> invalid m
           | Inr loaded \<Rightarrow>
               (case (if truthy loaded then loaded else JDict []) of
                  JDict data \<Rightarrow>
                    (case jget data ''prompt'' of
                       JStr prompt \<Rightarrow>
                         if strip prompt = [] then invalid (''Eval case missing prompt: '' @ path)
                         else
                           (let dir = parent_of path; fixture = cv_resolve e (path_join dir (py_str (jget_or data ''fixture'' (JStr ''fixture''))))
                            in if fs fixture = None then invalid (''Eval fixture does not exist: '' @ fixture)
                               else
                                 (case jget_or data ''assertions'' (JList []) of
                                    JList as \<Rightarrow>
                                      bind_res (case_context path data) (\<lambda>context.
                                      bind_res (case_writable_paths path data) (\<lambda>writable.
                                      bind_res (case_initial_verify path data) (\<lambda>verify.
                                        Inr \<lparr>ec_name = (let v = jget data ''name'' in if truthy v then py_str v else last (split_slash dir)),
                                          ec_prompt = strip prompt, ec_case_dir = dir, ec_fixture_dir = fixture,
                                          ec_sandbox_mode = (let v = jget data ''sandbox_mode'' in if truthy v then py_str v else ''locked''),
                                          ec_capability = str_or_empty (jget data ''capability''), ec_proves = str_or_empty (jget data ''proves''),
                                          ec_budget = dict_or_empty (jget_or data ''budget'' (JDict [])),
                                          ec_assertions = List.map_filter (\<lambda>v. case v of JDict d \<Rightarrow> Some d | _ \<Rightarrow> None) as,
                                          ec_writable_paths = writable, ec_context = context,
                                          ec_completion_gate = truthy (jget_or data ''completion_gate'' (JBool False)), ec_initial_verify = verify,
                                          ec_cleanup_workspace = truthy (jget_or data ''cleanup_workspace'' (JBool False))\<rparr>)))
                                  | _ \<Rightarrow> invalid (''Eval assertions must be a list: '' @ path)))
                     | _ \<Rightarrow> invalid (''Eval case missing prompt: '' @ path))
                | _ \<Rightarrow> invalid (''Eval case must be a YAML mapping: '' @ path))))"

definition discover_cases :: "case_env \<Rightarrow> ws_files \<Rightarrow> string \<Rightarrow> eval_case list result" where
  "discover_cases e fs path =
     (case fs path of
        Some (FileNode _) \<Rightarrow> bind_res (load_case e fs path) (\<lambda>c. Inr [c])
      | _ \<Rightarrow> mapM_res (load_case e fs) (sort (cv_paths e path)))"

definition project_relative_path :: "case_env \<Rightarrow> string \<Rightarrow> string \<Rightarrow> string" where
  "project_relative_path e path project =
     (let p = cv_resolve e path; top = cv_resolve e project
      in if p = top then ''.'' else if inside top p then drop (length top + 1) p else ''external:'' @ p)"

definition case_source_path :: "case_env \<Rightarrow> eval_case \<Rightarrow> string \<Rightarrow> string" where
  "case_source_path e c project = project_relative_path e (ec_case_dir c @ ''/case.yaml'') project"

definition fixture_source_path :: "case_env \<Rightarrow> eval_case \<Rightarrow> string \<Rightarrow> string" where
  "fixture_source_path e c project = project_relative_path e (ec_fixture_dir c) project"

section \<open>The evidence is enough\<close>

lemma jget_simps [simp]: "jget ((k, v) # d) j = (if j = k then v else jget d j)" "jget [] j = JNull"
  by (simp_all add: jget_def)

lemma evidence_command: "evidence_event event = Some ev \<Longrightarrow> bash_command ev = bash_command event"
  by (auto simp: evidence_event_def bash_command_def is_event_def split: if_splits json.splits)

lemma evidence_dropped:
  "evidence_event event = None \<Longrightarrow>
     bash_command event = None \<and> \<not> is_event ''sandbox_exec_finished'' event \<and> \<not> is_event ''artifact_written'' event"
  by (auto simp: evidence_event_def bash_command_def is_event_def split: if_splits json.splits)

lemma evidence_kind:
  "evidence_event event = Some ev \<Longrightarrow>
     is_event ''sandbox_exec_finished'' ev = is_event ''sandbox_exec_finished'' event \<and>
     is_event ''artifact_written'' ev = is_event ''artifact_written'' event"
  by (auto simp: evidence_event_def is_event_def split: if_splits json.splits)

abbreviation evidence :: "jdict list \<Rightarrow> jdict list" where
  "evidence \<equiv> List.map_filter evidence_event"

lemma evidence_takeWhile:
  "takeWhile (\<lambda>x. bash_command x = None) (evidence events) = evidence (takeWhile (\<lambda>x. bash_command x = None) events)"
  by (induction events) (auto simp: map_filter_simps dest: evidence_dropped evidence_command split: option.splits)

lemma evidence_steps: "bash_steps (evidence events) = map (map_prod id evidence) (bash_steps events)"
proof (induction events)
  case (Cons event events)
  then show ?case
    using evidence_dropped [of event] evidence_command [of event]
    by (cases "evidence_event event") (auto simp: map_filter_simps evidence_takeWhile split: option.splits)
qed (simp add: map_filter_simps)

lemma filter_evidence:
  assumes "name \<in> {''sandbox_exec_finished'', ''artifact_written''}"
  shows "filter (is_event name) (evidence events) = evidence (filter (is_event name) events)"
  using assms evidence_dropped evidence_kind
  by (induction events) (auto simp: map_filter_simps split: option.splits)

lemma evidence_finished:
  "is_event ''sandbox_exec_finished'' event \<Longrightarrow>
     evidence_event event = Some [(''event'', JStr ''sandbox_exec_finished''),
       (''observation'', case jget event ''observation'' of
          JDict ob \<Rightarrow> JDict [(''exit_code'', jget ob ''exit_code''), (''artifact_ids'', jget ob ''artifact_ids'')] | _ \<Rightarrow> JNull)]"
  by (auto simp: evidence_event_def is_event_def)

lemma evidence_written:
  "\<forall>event \<in> set events. is_event ''artifact_written'' event \<Longrightarrow>
     map (\<lambda>w. jget w ''artifact_id'') (evidence events) = map (\<lambda>w. jget w ''artifact_id'') events"
  by (induction events) (auto simp: map_filter_simps evidence_event_def is_event_def)

lemma evidence_kept: "\<forall>event \<in> set events. evidence_event event \<noteq> None \<Longrightarrow> evidence events = map (the \<circ> evidence_event) events"
  by (induction events) (auto simp: map_filter_simps)

lemma evidence_outcome: "outcome_matches spec (evidence between) = outcome_matches spec between"
proof -
  let ?done = "filter (is_event ''sandbox_exec_finished'') between"
  have written: "map (\<lambda>w. jget w ''artifact_id'') (filter (is_event ''artifact_written'') (evidence between)) =
      map (\<lambda>w. jget w ''artifact_id'') (filter (is_event ''artifact_written'') between)"
    by (simp add: filter_evidence evidence_written)
  have finished: "filter (is_event ''sandbox_exec_finished'') (evidence between) = map (the \<circ> evidence_event) ?done"
  proof -
    have "\<forall>event \<in> set ?done. evidence_event event \<noteq> None" using evidence_finished by auto
    from evidence_kept [OF this] show ?thesis by (simp add: filter_evidence)
  qed
  consider "?done = []" | event where "?done = [event]" | x y z where "?done = x # y # z" by (cases ?done rule: remdups_adj.cases)
  then show ?thesis
  proof cases
    case (2 event)
    then have "event \<in> set ?done" by simp
    then have "is_event ''sandbox_exec_finished'' event" by simp
    note ev = evidence_finished [OF this]
    show ?thesis
      unfolding outcome_matches_def finished written 2 by (cases "jget event ''observation''") (simp_all add: ev)
  qed (simp_all add: outcome_matches_def finished)
qed

lemma evidence_match: "steps_match e (zip (map (map_prod id evidence) shown) specs) = steps_match e (zip shown specs)"
  by (induction shown arbitrary: specs) (auto simp: zip_Cons1 evidence_outcome cong del: if_weak_cong split: list.splits)

lemma evidence_commands: "map fst (map (map_prod id evidence) shown) = map fst shown"
  by simp

section \<open>Properties\<close>

text \<open>C29: The evidence that is kept of a trace is enough: judging a shape on the trimmed events gives the very result, verdict
  and message and digest, that judging it on the whole trace gives.\<close>

theorem evidence_suffices:
  "assert_trace_action_shape_events e a (trace_action_shape_evidence_events events) = assert_trace_action_shape_events e a events"
  unfolding assert_trace_action_shape_events_def trace_action_shape_evidence_events_def evidence_steps Let_def evidence_match evidence_commands length_map
  by (rule refl)

text \<open>A patch of text files as Git prints it. A line of a hunk starts with a blank, a sign, an at sign or a backslash; hunks whose
  changed lines look like the name lines of a patch are left out.\<close>

datatype file_change = Modified string "string list" | Added string "string list" | Deleted string "string list"

fun patch_of :: "file_change \<Rightarrow> string list" where
  "patch_of (Modified p hunks) = (''diff --git a/'' @ p @ '' b/'' @ p) # (''--- a/'' @ p) # (''+++ b/'' @ p) # hunks"
| "patch_of (Added p hunks) = (''diff --git a/'' @ p @ '' b/'' @ p) # ''new file mode 100644'' # ''--- /dev/null'' # (''+++ b/'' @ p) # hunks"
| "patch_of (Deleted p hunks) = (''diff --git a/'' @ p @ '' b/'' @ p) # ''deleted file mode 100644'' # (''--- a/'' @ p) # ''+++ /dev/null'' # hunks"

fun touched :: "file_change \<Rightarrow> string" where
  "touched (Modified p _) = p" | "touched (Added p _) = p" | "touched (Deleted p _) = p"

fun hunk_lines :: "file_change \<Rightarrow> string list" where
  "hunk_lines (Modified _ hs) = hs" | "hunk_lines (Added _ hs) = hs" | "hunk_lines (Deleted _ hs) = hs"

fun is_deletion :: "file_change \<Rightarrow> bool" where
  "is_deletion (Deleted _ _) = True" | "is_deletion _ = False"

definition plain_hunk_line :: "string \<Rightarrow> bool" where
  "plain_hunk_line l = (\<not> startswith l ''+++ b/'' \<and> \<not> startswith l ''--- a/'' \<and> l \<noteq> ''+++ /dev/null'')"

definition plain_change :: "file_change \<Rightarrow> bool" where
  "plain_change c = (strip (touched c) = touched c \<and> bsl \<notin> set (touched c) \<and> touched c \<noteq> ''/dev/null'' \<and> list_all plain_hunk_line (hunk_lines c))"

lemma hunk_paths: "list_all plain_hunk_line hs \<Longrightarrow> List.map_filter changed_path (hs @ ls) = List.map_filter changed_path ls"
  "list_all plain_hunk_line hs \<Longrightarrow> deleted_paths current (hs @ ls) = deleted_paths current ls"
  by (induction hs) (auto simp: plain_hunk_line_def changed_path_def map_filter_simps split: option.splits)

lemma no_backslash: "bsl \<notin> set p \<Longrightarrow> replace_char bsl c p = p"
  by (induction p) (auto simp: replace_char_def)

lemma startswith_append [simp]: "startswith (p @ s) p"
  by (simp add: startswith_prefix)

lemma changed_of_patch:
  "plain_change c \<Longrightarrow> List.map_filter changed_path (patch_of c @ ls) = (if is_deletion c then [] else [touched c]) @ List.map_filter changed_path ls"
  by (cases c) (auto simp: plain_change_def map_filter_simps hunk_paths changed_path_def removeprefix_def no_backslash)

lemma deleted_of_patch:
  "plain_change c \<Longrightarrow> \<exists>current'. deleted_paths current (patch_of c @ ls) = (if is_deletion c then [touched c] else []) @ deleted_paths current' ls"
  by (cases c; cases current) (auto simp: plain_change_def hunk_paths removeprefix_def no_backslash)

lemma patch_paths:
  assumes "list_all plain_change cs"
  shows "List.map_filter changed_path (concat (map patch_of cs)) = map touched (filter (\<lambda>c. \<not> is_deletion c) cs)"
    "deleted_paths current (concat (map patch_of cs)) = map touched (filter is_deletion cs)"
proof -
  show "List.map_filter changed_path (concat (map patch_of cs)) = map touched (filter (\<lambda>c. \<not> is_deletion c) cs)"
    using assms by (induction cs) (auto simp: changed_of_patch map_filter_simps)
  show "deleted_paths current (concat (map patch_of cs)) = map touched (filter is_deletion cs)"
    using assms
  proof (induction cs arbitrary: current)
    case (Cons c cs)
    then obtain current' where "deleted_paths current (patch_of c @ concat (map patch_of cs)) =
        (if is_deletion c then [touched c] else []) @ deleted_paths current' (concat (map patch_of cs))"
      using deleted_of_patch by fastforce
    then show ?case using Cons by simp
  qed simp
qed


definition sample_run_files :: ws_files where
  "sample_run_files = [''/r/artifacts/diff.patch'' \<mapsto> FileNode (join [nl] (patch_of (Deleted ''src/a.py'' [''@@ -1 +0,0 @@'', ''-x'']) @ patch_of (Modified ''b.py'' [''@@ -1 +1 @@'', ''-x'', ''+y''])))]"


lemma safe_path: "safe_relative_path v path = Inr p \<Longrightarrow> p \<noteq> [] \<and> \<not> startswith p ''/'' \<and> ''..'' \<notin> set (pure_parts p)"
  by (auto simp: safe_relative_path_def Let_def invalid_def split: if_splits)

lemma writable_safe:
  "case_writable_paths path data = Inr (Some ps) \<Longrightarrow> p \<in> set ps \<Longrightarrow> p \<noteq> [] \<and> \<not> startswith p ''/'' \<and> ''..'' \<notin> set (pure_parts p)"
proof -
  assume "case_writable_paths path data = Inr (Some ps)" "p \<in> set ps"
  then obtain vs where "mapM_res (\<lambda>v. safe_relative_path v path) vs = Inr ps" "p \<in> set ps"
    by (auto simp: case_writable_paths_def invalid_def split: json.splits)
  then show ?thesis using mapM_res_all [of "\<lambda>v. safe_relative_path v path" vs ps p] safe_path by blast
qed

lemma jget_update [simp]: "jget (AList.update k v d) j = (if j = k then v else jget d j)"
  by (simp add: jget_def update_conv')

lemma context_markers:
  "case_context path data = Inr context \<Longrightarrow>
     \<exists>ms. jget context ''retention_markers'' = JList ms \<and> list_all (\<lambda>m. case m of JStr s \<Rightarrow> strip s \<noteq> [] | _ \<Rightarrow> False) ms"
  by (auto simp: case_context_def invalid_def split: json.splits if_splits)

lemma verifier_fails_first:
  "case_initial_verify path data = Inr (Some v) \<Longrightarrow> \<exists>n. jget v ''expect_exit_code'' = JInt n \<and> n \<noteq> 0"
  by (auto simp: case_initial_verify_def invalid_def Let_def split: json.splits if_splits sum.splits exn.splits)

lemma load_case_parts:
  assumes "load_case e fs path = Inr c"
  shows "ec_prompt c \<noteq> []" "fs (ec_fixture_dir c) \<noteq> None"
    "\<exists>data. case_context path data = Inr (ec_context c) \<and> case_writable_paths path data = Inr (ec_writable_paths c) \<and>
       case_initial_verify path data = Inr (ec_initial_verify c)"
  using assms
  by (auto simp: load_case_def invalid_def Let_def split: option.splits sum.splits json.splits if_splits)

text \<open>C31: A case that loads is well-formed: it has a prompt and a fixture, its markers have text, the paths it may write are
  relative and do not climb out of the workspace, and a verifier that must fail at first expects an exit code other than
  zero.\<close>

theorem loaded_case_wf:
  assumes "load_case e fs path = Inr c"
  shows "ec_prompt c \<noteq> [] \<and> fs (ec_fixture_dir c) \<noteq> None \<and>
    (\<forall>ps p. ec_writable_paths c = Some ps \<longrightarrow> p \<in> set ps \<longrightarrow> p \<noteq> [] \<and> \<not> startswith p ''/'' \<and> ''..'' \<notin> set (pure_parts p)) \<and>
    (\<exists>ms. jget (ec_context c) ''retention_markers'' = JList ms \<and> list_all (\<lambda>m. case m of JStr s \<Rightarrow> strip s \<noteq> [] | _ \<Rightarrow> False) ms) \<and>
    (\<forall>v. ec_initial_verify c = Some v \<longrightarrow> (\<exists>n. jget v ''expect_exit_code'' = JInt n \<and> n \<noteq> 0))"
proof -
  obtain data where "case_context path data = Inr (ec_context c)" "case_writable_paths path data = Inr (ec_writable_paths c)"
      "case_initial_verify path data = Inr (ec_initial_verify c)"
    using load_case_parts(3) [OF assms] by blast
  then show ?thesis
    using load_case_parts(1,2) [OF assms] context_markers writable_safe verifier_fails_first by metis
qed

definition sample_case_env :: case_env where
  "sample_case_env = \<lparr>cv_yaml = (\<lambda>_. Inr (JDict [(''prompt'', JStr ''fix''), (''workspace'', JDict [(''writable_paths'', JList [JStr ''src/''])])])),
     cv_resolve = id, cv_paths = (\<lambda>_. [])\<rparr>"

definition sample_case_files :: ws_files where
  "sample_case_files = [''/c/case.yaml'' \<mapsto> FileNode [], ''/c/fixture'' \<mapsto> DirNode]"

theorem loaded_case_wf_witness:
  "\<exists>c. load_case sample_case_env sample_case_files ''/c/case.yaml'' = Inr c \<and> ec_prompt c = ''fix'' \<and>
     ec_writable_paths c = Some [''src''] \<and> ''..'' \<notin> set (pure_parts ''src'') \<and> sample_case_files (ec_fixture_dir c) \<noteq> None"
proof -
  let ?r = "load_case sample_case_env sample_case_files ''/c/case.yaml''"
  have "map_sum id (\<lambda>c. (ec_prompt c, ec_writable_paths c)) ?r = Inr (''fix'', Some [''src''])" by code_simp
  then obtain c where c: "?r = Inr c" "ec_prompt c = ''fix''" "ec_writable_paths c = Some [''src'']" by (cases ?r) auto
  then show ?thesis using loaded_case_wf [OF c(1)] by simp
qed

end
