(* ===== verification/Replay.thy ===== *)
theory Replay
  imports Evals Ledger
begin

text \<open>
  Replay of a recorded run (\<^verbatim>\<open>trace/replay.py\<close>): the bundle that is packed from a run or from an
  evaluation case, the offline check that the recorded responses reproduce the recorded actions, and
  the comparison with a fresh run.

  Files are the trees of \<^verbatim>\<open>Files\<close>; a text path is its components. SHA-256, the clock, Git's archive and
  its extraction, and the resolution of links are arguments.

  Results: an offline replay that passes has read every recorded action back from the response it was
  parsed from, and its bundle is the one that was packed; replaying writes nothing but its reports.
\<close>

section \<open>Paths and files\<close>

definition path_at :: "path \<Rightarrow> string \<Rightarrow> path" where
  "path_at d s = d @ pure_parts s"

definition ws_files_of :: "tree \<Rightarrow> ws_files" where
  "ws_files_of t = (\<lambda>s. map_of t (pure_parts s))"

record tar_member =
  tm_name :: string
  tm_link :: "string option" \<comment> \<open>the target of a symbolic or hard link\<close>

record replay_env =
  rp_sha :: "string \<Rightarrow> string" \<comment> \<open>of bytes, in hexadecimal\<close>
  rp_raw :: "string \<Rightarrow> string" \<comment> \<open>of bytes, as bytes\<close>
  rp_now :: string
  rp_resolve :: "path \<Rightarrow> path"
  rp_archive :: "tree \<Rightarrow> path \<Rightarrow> string \<Rightarrow> tar_member list option" \<comment> \<open>\<^verbatim>\<open>git archive\<close> of a revision, if it succeeds\<close>
  rp_extract :: "tar_member list \<Rightarrow> path \<Rightarrow> tree \<Rightarrow> tree" \<comment> \<open>\<^verbatim>\<open>extractall\<close>\<close>

abbreviation replay_error :: "string \<Rightarrow> 'a result" where
  "replay_error m \<equiv> Inl (ValueError m)"

definition json_at :: "tree \<Rightarrow> path \<Rightarrow> jdict result" where \<comment> \<open>\<^verbatim>\<open>_read_json\<close>\<close>
  "json_at t p =
     (if \<not> is_file t p then Inl (RuntimeError ''FileNotFoundError'')
      else bind_res (json_loads (file_text t p)) (\<lambda>v.
        case v of JDict d \<Rightarrow> Inr d | _ \<Rightarrow> replay_error (''Expected JSON object: '' @ path_text p)))"

definition copy_file :: "path \<Rightarrow> path \<Rightarrow> tree \<Rightarrow> tree" where
  "copy_file p q t = write_text q (file_text t p) t"

definition copy_subtree :: "path \<Rightarrow> path \<Rightarrow> tree \<Rightarrow> tree" where \<comment> \<open>\<^verbatim>\<open>shutil.copytree\<close> into a new directory\<close>
  "copy_subtree p q t =
     make_dirs q t @ List.map_filter (\<lambda>(r, n). if strict_prefix p r then Some (q @ drop (length p) r, n) else None) t"

definition sha_at :: "replay_env \<Rightarrow> tree \<Rightarrow> path \<Rightarrow> string" where \<comment> \<open>\<^verbatim>\<open>_sha256\<close>\<close>
  "sha_at e t p = (if is_file t p then rp_sha e (utf8 (file_text t p)) else [])"

definition file_metadata :: "replay_env \<Rightarrow> tree \<Rightarrow> path \<Rightarrow> json" where
  "file_metadata e t p = JDict [(''bytes'', JInt (utf8_length (file_text t p))), (''sha256'', JStr (sha_at e t p))]"

definition directory_files :: "tree \<Rightarrow> path \<Rightarrow> path list" where
  "directory_files t d =
     (if is_dir t d then filter (\<lambda>p. is_file t p \<and> ''.git'' \<notin> set (drop (length d) p)) (sort (remdups (below t d))) else [])"

definition directory_metadata :: "replay_env \<Rightarrow> tree \<Rightarrow> path \<Rightarrow> json" where
  "directory_metadata e t d =
     (let fs = directory_files t d
      in JDict [(''file_count'', JInt (int (length fs))),
         (''sha256'', JStr (rp_sha e (concat (map (\<lambda>p.
            utf8 (join ''/'' (drop (length d) p)) @ CHR 0x00 # rp_raw e (utf8 (file_text t p))) fs))))])"

definition sub_dict :: "jdict \<Rightarrow> string \<Rightarrow> jdict result" where \<comment> \<open>\<^verbatim>\<open>(d.get(k) or {})\<close>, used as a dict\<close>
  "sub_dict d k = (let v = jget d k in if truthy v then (case v of JDict x \<Rightarrow> Inr x | _ \<Rightarrow> Inl AttributeError) else Inr [])"

definition int_or :: "jdict \<Rightarrow> string \<Rightarrow> int \<Rightarrow> int result" where \<comment> \<open>\<^verbatim>\<open>int(d.get(k) or n)\<close>\<close>
  "int_or d k n = (let v = jget d k in int_of_json (if truthy v then v else JInt n))"

definition text_or :: "jdict \<Rightarrow> string \<Rightarrow> string \<Rightarrow> string" where \<comment> \<open>\<^verbatim>\<open>str(d.get(k) or s)\<close>\<close>
  "text_or d k s = (let v = jget d k in if truthy v then py_str v else s)"

section \<open>Reading a trace\<close>

fun strict_events :: "nat \<Rightarrow> string list \<Rightarrow> jdict list result" where
  "strict_events n [] = Inr []"
| "strict_events n (l # ls) =
     (if strip l = [] then strict_events (Suc n) ls
      else
        (case json_loads l of
           Inl (JSONDecodeError m) \<Rightarrow> replay_error (''Invalid trace JSON at line '' @ str_nat n @ '': '' @ m)
         | Inl err \<Rightarrow> Inl err
         | Inr (JDict d) \<Rightarrow> bind_res (strict_events (Suc n) ls) (\<lambda>ds. Inr (d # ds))
         | Inr _ \<Rightarrow> replay_error (''Trace event at line '' @ str_nat n @ '' is not an object.'')))"

definition read_trace :: "tree \<Rightarrow> path \<Rightarrow> jdict list result" where
  "read_trace t p =
     (if \<not> is_file t p then replay_error (''Trace file does not exist: '' @ path_text p) else strict_events 1 (splitlines (file_text t p)))"

section \<open>Packing a bundle\<close>

definition safe_member :: "replay_env \<Rightarrow> path \<Rightarrow> tar_member \<Rightarrow> bool result" where
  "safe_member e dest m =
     (let base = rp_resolve e dest; target = rp_resolve e (dest @ split_slash (tm_name m))
      in if \<not> prefix base target then replay_error (''Unsafe path in workspace snapshot: '' @ tm_name m)
         else
           (case tm_link m of
              None \<Rightarrow> Inr True
            | Some l \<Rightarrow>
                if \<not> prefix base (rp_resolve e (butlast target @ split_slash l))
                then replay_error (''Unsafe link in workspace snapshot: '' @ tm_name m) else Inr True))"

definition safe_extract_tar :: "replay_env \<Rightarrow> tar_member list \<Rightarrow> path \<Rightarrow> tree \<Rightarrow> tree result" where
  "safe_extract_tar e ms dest t = bind_res (mapM_res (safe_member e dest) ms) (\<lambda>_. Inr (rp_extract e ms dest t))"

definition snapshot_baseline :: "replay_env \<Rightarrow> path \<Rightarrow> path \<Rightarrow> tree \<Rightarrow> (string \<times> tree) result" where
  "snapshot_baseline e source dest t =
     (if \<not> is_dir t source then Inr (''missing'', t)
      else
        bind_res
          (let m = butlast source @ [''workspace_manifest.json'']
           in if is_file t m then
                bind_res (json_at t m) (\<lambda>d. bind_res (sub_dict d ''included'') (\<lambda>included.
                  Inr (text_or included ''baseline_commit'' baseline_ref)))
              else Inr baseline_ref)
          (\<lambda>revision.
             case rp_archive e t source revision of
               Some ms \<Rightarrow> bind_res (safe_extract_tar e ms dest (make_dirs dest t)) (\<lambda>t'. Inr (''git-baseline'', t'))
             | None \<Rightarrow> Inr (''copy'', copy_subtree source dest t)))"

definition bundle_files :: "string list" where
  "bundle_files =
     [''trace.jsonl'', ''state.json'', ''metrics.json'', ''run_report.json'', ''run_report.md'', ''workspace_manifest.json'',
      ''transcript.jsonl'', ''transcript.md'', ''repository_profile.json'']"

definition response_row :: "jdict \<Rightarrow> jdict" where
  "response_row ev =
     [(''sequence'', jget ev ''sequence''), (''response_text'', jget ev ''response_text''), (''latency_ms'', jget ev ''latency_ms''), (''usage'', jget ev ''usage'')]"

definition claim_target :: "path \<Rightarrow> bool \<Rightarrow> tree \<Rightarrow> tree result" where
  "claim_target target overwrite t =
     (if map_of t target \<noteq> None then
        (if overwrite then Inr (make_dirs target (remove_tree target t)) else replay_error (''Replay case already exists: '' @ path_text target))
      else Inr (make_dirs target t))"

definition copy_evidence :: "path \<Rightarrow> path \<Rightarrow> tree \<Rightarrow> tree" where
  "copy_evidence source target t =
     (let t1 = fold (\<lambda>name t. if is_file t (source @ [name]) then copy_file (source @ [name]) (target @ [name]) t else t) bundle_files t
      in if is_dir t1 (source @ [''artifacts'']) then copy_subtree (source @ [''artifacts'']) (target @ [''artifacts'']) t1 else t1)"

definition copied_names :: "path \<Rightarrow> tree \<Rightarrow> string list" where
  "copied_names source t =
     filter (\<lambda>name. is_file t (source @ [name])) bundle_files @
     (if is_dir t (source @ [''artifacts''])
      then map (\<lambda>p. ''artifacts/'' @ join ''/'' (drop (length source + 1) p)) (below t (source @ [''artifacts''])) else []) @
     [''model_responses.jsonl'']"

definition listed_files :: "replay_env \<Rightarrow> tree \<Rightarrow> path \<Rightarrow> string list \<Rightarrow> json" where
  "listed_files e t target names =
     JDict (fold (\<lambda>n d. if is_file t (path_at target n) then AList.update n (file_metadata e t (path_at target n)) d else d) names [])"

definition case_manifest ::
  "replay_env \<Rightarrow> tree \<Rightarrow> path \<Rightarrow> path \<Rightarrow> string \<Rightarrow> jdict \<Rightarrow> string \<Rightarrow> jdict list \<Rightarrow> string list \<Rightarrow> jdict result" where
  "case_manifest e t source target rid state mode events names =
     (let rows = map response_row (filter (is_event ''model_response'') events);
          whole = list_all (\<lambda>r. jget r ''response_text'' \<noteq> JNull) rows
      in bind_res (sub_dict state ''metrics'') (\<lambda>ms.
         bind_res (int_or ms ''max_action_timeout_sec'' 60) (\<lambda>limit.
         bind_res (int_or ms ''max_tool_calls_per_step'' 16) (\<lambda>calls.
         bind_res (iter_json (let v = jget ms ''completion_verifier_commands'' in if truthy v then v else JList [])) (\<lambda>verifiers.
         bind_res (int_or ms ''completion_verifier_timeout_sec'' 120) (\<lambda>vlimit.
           Inr [(''schema_version'', JInt 1), (''case_id'', JStr (''replay-'' @ rid)), (''created_at'', JStr (rp_now e)), (''source_run_id'', JStr rid),
             (''source_run_dir'', JStr (path_text source)), (''goal'', JStr (text_or state ''goal'' [])), (''profile'', JStr (text_or ms ''profile'' ''baseline-bash'')),
             (''action_defaults'', JDict [(''timeout_sec'', JInt limit), (''max_tool_calls'', JInt calls)]),
             (''source_status'', JStr (text_or state ''status'' ''unknown'')), (''verification_commands'', JList verifiers),
             (''verification_timeout_sec'', JInt vlimit), (''workspace_mode'', JStr mode),
             (''fresh_eligible'', JBool (mode \<in> {''git-baseline'', ''copy''})), (''deterministic_eligible'', JBool (rows \<noteq> [] \<and> whole)),
             (''event_count'', JInt (int (length events))), (''model_response_count'', JInt (int (length rows))), (''model_responses_complete'', JBool whole),
             (''tool_result_count'', JInt (int (length (filter (\<lambda>ev. is_event ''tool/result'' ev \<or> is_event ''sandbox_exec_finished'' ev) events)))),
             (''workspace'', directory_metadata e t (target @ [''workspace''])), (''files'', listed_files e t target names)]))))))"

definition create_replay_case :: "replay_env \<Rightarrow> path \<Rightarrow> path \<Rightarrow> bool \<Rightarrow> tree \<Rightarrow> (path \<times> tree) result" where
  "create_replay_case e run output overwrite t =
     (let source = rp_resolve e run
      in if \<not> is_dir t source then replay_error (''Run directory does not exist: '' @ path_text source)
         else if \<not> is_file t (source @ [''trace.jsonl'']) \<or> \<not> is_file t (source @ [''state.json''])
           then replay_error ''A replay source must contain both trace.jsonl and state.json.''
         else
           bind_res (json_at t (source @ [''state.json''])) (\<lambda>state.
             let rid = text_or state ''run_id'' (last source); target = path_at (rp_resolve e output) (''replay-'' @ rid)
             in bind_res (claim_target target overwrite t) (\<lambda>t1.
                let t2 = copy_evidence source target t1; names = copied_names source t1
                in bind_res (snapshot_baseline e (source @ [''workspace'']) (target @ [''workspace'']) t2) (\<lambda>(mode, t3).
                   let t4 = (if mode = ''missing'' then make_dirs (target @ [''workspace'']) t3 else t3)
                   in bind_res (read_trace t4 (target @ [''trace.jsonl''])) (\<lambda>events.
                      let t5 = write_text (target @ [''model_responses.jsonl''])
                            (concat (map (\<lambda>ev. dumps (JDict (response_row ev)) @ [nl]) (filter (is_event ''model_response'') events))) t4
                      in bind_res (case_manifest e t5 source target rid state mode events names) (\<lambda>manifest.
                           Inr (target, write_text (target @ [''case.json'']) (json_text manifest) t5)))))))"

text \<open>The seed of a fresh replay, from an evaluation case: its fixture, the case and the scripts it verifies with.\<close>

definition seed_assertion :: "path \<Rightarrow> path \<Rightarrow> jdict \<Rightarrow> tree \<Rightarrow> jdict \<times> tree" where
  "seed_assertion case_dir verifier a t =
     (case jget a ''path'' of
        JStr raw \<Rightarrow>
          (let source = path_at case_dir raw
           in if strip raw \<noteq> [] \<and> is_file t source then
                (AList.update ''path'' (JStr (last source)) a, copy_file source (verifier @ [last source]) t)
              else (a, t))
      | _ \<Rightarrow> (a, t))"

fun seed_assertions :: "path \<Rightarrow> path \<Rightarrow> jdict list \<Rightarrow> tree \<Rightarrow> jdict list \<times> tree" where
  "seed_assertions case_dir verifier [] t = ([], t)"
| "seed_assertions case_dir verifier (a # as) t =
     (let (a1, t1) = seed_assertion case_dir verifier a t; (as1, t2) = seed_assertions case_dir verifier as t1 in (a1 # as1, t2))"

definition create_replay_case_from_eval_case ::
  "replay_env \<Rightarrow> case_env \<Rightarrow> path \<Rightarrow> path \<Rightarrow> bool \<Rightarrow> tree \<Rightarrow> (path \<times> tree) result" where
  "create_replay_case_from_eval_case e ce case_path output overwrite t =
     (let p = rp_resolve e case_path; source = (if is_dir t p then p @ [''case.yaml''] else p)
      in bind_res (load_case ce (ws_files_of t) (path_text source)) (\<lambda>c.
           let target = path_at (rp_resolve e output) (''eval-'' @ ec_name c)
           in bind_res (claim_target target overwrite t) (\<lambda>t1.
              let t2 = copy_subtree (pure_parts (ec_fixture_dir c)) (target @ [''workspace'']) t1;
                  t3 = write_text (target @ [''case.yaml'']) (file_text t2 source) t2;
                  verifier = target @ [''verifier''];
                  (as, t4) = seed_assertions (pure_parts (ec_case_dir c)) verifier (ec_assertions c) (make_dirs verifier t3);
                  names = ''case.yaml'' # map (\<lambda>q. join ''/'' (drop (length target) q)) (below t4 verifier);
                  manifest =
                    [(''schema_version'', JInt 1), (''case_id'', JStr (''eval-'' @ ec_name c)), (''created_at'', JStr (rp_now e)),
                     (''source_kind'', JStr ''eval_case''), (''source_eval_case'', JStr (path_text source)), (''goal'', JStr (ec_prompt c)),
                     (''profile'', JStr ''baseline-bash''), (''source_status'', JStr ''not_run''), (''workspace_mode'', JStr ''copy''),
                     (''fresh_eligible'', JBool True), (''deterministic_eligible'', JBool False), (''event_count'', JInt 0),
                     (''model_response_count'', JInt 0), (''model_responses_complete'', JBool False), (''tool_result_count'', JInt 0),
                     (''verification_commands'', JList []), (''verification_timeout_sec'', JInt 120), (''assertions'', JList (map JDict as)),
                     (''files'', listed_files e t4 target names), (''workspace'', directory_metadata e t4 (target @ [''workspace'']))]
              in Inr (target, write_text (target @ [''case.json'']) (json_text manifest) t4))))"

section \<open>The checks\<close>

definition load_replay_case :: "tree \<Rightarrow> path \<Rightarrow> jdict result" where \<comment> \<open>\<^verbatim>\<open>_load_case\<close>\<close>
  "load_replay_case t d =
     (let p = d @ [''case.json'']
      in if \<not> is_file t p then replay_error (''Replay case manifest does not exist: '' @ path_text p)
         else
           bind_res (json_at t p) (\<lambda>m.
           bind_res (int_of_json (jget_or m ''schema_version'' (JInt 0))) (\<lambda>v.
             if v = 1 then Inr m else replay_error ''Unsupported replay case schema version.'')))"

definition pair_call_results :: "jdict list \<Rightarrow> jdict list \<Rightarrow> bool" where
  "pair_call_results calls results =
     (calls = [] \<and> results = [] \<or>
      list_all (\<lambda>ev. py_str (jget ev ''call_id'') \<in> set (map (\<lambda>r. py_str (jget r ''call_id'')) results)) calls \<and> length calls = length results)"

definition hashes_match :: "replay_env \<Rightarrow> tree \<Rightarrow> path \<Rightarrow> jdict \<Rightarrow> bool result" where
  "hashes_match e t d manifest =
     (if (case jget manifest ''workspace'' of JDict m \<Rightarrow> \<not> json_eq (directory_metadata e t (d @ [''workspace''])) (JDict m) | _ \<Rightarrow> False)
      then Inr False
      else
        bind_res (sub_dict manifest ''files'') (\<lambda>files.
          Inr (list_all (\<lambda>(n, v). is_file t (path_at d n) \<and> json_eq (file_metadata e t (path_at d n)) v) files)))"

text \<open>The numbers of the events; they must rise.\<close>

definition sequence_numbers :: "jdict list \<Rightarrow> pyfloat list" where
  "sequence_numbers events = List.map_filter (\<lambda>ev. number_of (jget ev ''sequence'')) events"

definition rising :: "pyfloat list \<Rightarrow> bool" where
  "rising xs = sorted_wrt (\<lambda>x y. \<not> float_ge x y) xs"

text \<open>The action a response parses to now; what the parser refuses is no action.\<close>

definition replayed_action :: "jdict \<Rightarrow> string \<Rightarrow> json result" where
  "replayed_action manifest text0 =
     (case bind_res (sub_dict manifest ''action_defaults'') (\<lambda>d.
           bind_res (int_or d ''timeout_sec'' 60) (\<lambda>limit.
           bind_res (int_or d ''max_tool_calls'' 16) (\<lambda>calls.
             parse_action text0 limit None calls))) of
        Inr a \<Rightarrow> Inr (JDict (action_to_dict a))
      | Inl TypeError \<Rightarrow> Inr JNull
      | Inl (ValueError _) \<Rightarrow> Inr JNull
      | Inl (ProtocolError _ _) \<Rightarrow> Inr JNull
      | Inl (JSONDecodeError _) \<Rightarrow> Inr JNull
      | Inl err \<Rightarrow> Inl err)"

definition recorded_action :: "jdict list \<Rightarrow> json" where
  "recorded_action rest = (case find (is_event ''action_parsed'') rest of Some ev \<Rightarrow> jget ev ''action'' | None \<Rightarrow> JNull)"

fun protocol_replay :: "jdict \<Rightarrow> int \<Rightarrow> jdict list \<Rightarrow> (bool \<times> json list) result" where
  "protocol_replay manifest n [] = Inr (True, [])"
| "protocol_replay manifest n (ev # rest) =
     (if \<not> is_event ''model_response'' ev then protocol_replay manifest n rest
      else
        (case jget ev ''response_text'' of
           JStr s \<Rightarrow>
             bind_res (replayed_action manifest s) (\<lambda>now.
             bind_res (protocol_replay manifest (n + 1) rest) (\<lambda>(ok, ms).
               if json_eq now (recorded_action rest) then Inr (ok, ms)
               else Inr (False, JDict [(''response_index'', JInt (n + 1)), (''replayed'', now), (''recorded'', recorded_action rest)] # ms)))
         | _ \<Rightarrow> bind_res (protocol_replay manifest (n + 1) rest) (\<lambda>(ok, ms). Inr (False, ms))))"

definition check_entry :: "bool \<Rightarrow> json \<Rightarrow> string \<Rightarrow> json" where
  "check_entry passed observed detail = JDict [(''passed'', JBool passed), (''observed'', observed), (''detail'', JStr detail)]"

record replay_result =
  rr_case_id :: string
  rr_mode :: string
  rr_passed :: bool
  rr_report_path :: path
  rr_report :: jdict

text \<open>A check: its name, whether it passed, what was seen, its description, and what a failure is called.\<close>

type_synonym replay_check = "string \<times> bool \<times> json \<times> string \<times> string"

definition count :: "string \<Rightarrow> jdict list \<Rightarrow> nat" where
  "count name events = length (filter (is_event name) events)"

abbreviation jnat :: "nat \<Rightarrow> json" where "jnat n \<equiv> JInt (int n)"

definition replay_checks :: "replay_env \<Rightarrow> tree \<Rightarrow> path \<Rightarrow> jdict \<Rightarrow> jdict list \<Rightarrow> replay_check list result" where
  "replay_checks e t d manifest events =
     (let starts = count ''run_started'' events;
          ends = count ''run_completed'' events + count ''run_failed'' events + count ''run_interrupted'' events;
          responses = filter (is_event ''model_response'') events;
          complete = filter (\<lambda>ev. case jget ev ''response_text'' of JStr _ \<Rightarrow> True | _ \<Rightarrow> False) responses;
          n = length responses; parsed = count ''action_parsed'' events;
          calls = filter (is_event ''tool/call'') events; results = filter (is_event ''tool/result'') events;
          s1 = count ''sandbox_exec_started'' events; s2 = count ''sandbox_exec_finished'' events
      in bind_res (protocol_replay manifest 0 events) (\<lambda>(same, mismatches).
         bind_res (hashes_match e t d manifest) (\<lambda>intact.
         bind_res (case jget_or manifest ''files'' (JDict []) of JDict m \<Rightarrow> Inr (length m) | JList m \<Rightarrow> Inr (length m) | JStr m \<Rightarrow> Inr (length m) | _ \<Rightarrow> Inl TypeError) (\<lambda>listed.
           Inr [(''event_order'', rising (sequence_numbers events), jnat (length events), ''trace sequence is monotonic and unique'',
                   ''trace event sequence is not monotonic''),
                (''lifecycle'', 1 \<le> starts \<and> 1 \<le> ends, JDict [(''run_started'', jnat starts), (''terminal_events'', jnat ends)],
                   ''run has a start and terminal event'', ''run lifecycle markers are incomplete''),
                (''model_response_fixtures'', responses \<noteq> [] \<and> n = length complete, JDict [(''responses'', jnat n), (''complete'', jnat (length complete))],
                   ''every model response has a full replay fixture'', ''one or more model responses are preview-only''),
                (''action_parse_coverage'', parsed = n, JDict [(''responses'', jnat n), (''action_parsed'', jnat parsed)],
                   ''every model response has a recorded protocol parse result'', ''model response/action parse coverage is incomplete''),
                (''protocol_replay'', same, JDict [(''responses'', jnat n), (''mismatches'', JList mismatches)],
                   ''recorded model responses parse to the recorded actions'', ''recorded model response does not reproduce its parsed action''),
                (''tool_fixtures'', pair_call_results calls results \<and> s1 = s2,
                   JDict [(''tool_calls'', jnat (length calls)), (''tool_results'', jnat (length results)), (''shell_starts'', jnat s1), (''shell_finishes'', jnat s2)],
                   ''tool and shell executions have complete result pairs'', ''tool result coverage is incomplete''),
                (''artifact_manifest'', intact, jnat listed, ''replay bundle file hashes are intact'', ''replay bundle hash verification failed'')]))))"

definition checks_json :: "replay_check list \<Rightarrow> json" where
  "checks_json cs = JDict (map (\<lambda>(name, ok, seen, detail, _). (name, check_entry ok seen detail)) cs)"

definition failures_of :: "replay_check list \<Rightarrow> string list" where
  "failures_of cs = List.map_filter (\<lambda>(name, ok, seen, detail, failure). if ok then None else Some failure) cs"

section \<open>The reports\<close>

definition digits2 :: "int \<Rightarrow> string" where
  "digits2 n = (let s = str_int n in if length s < 2 then CHR ''0'' # s else s)"

definition fixed2 :: "rat \<Rightarrow> string" where \<comment> \<open>\<^verbatim>\<open>f"{x:.2f}"\<close> of a number that is not negative\<close>
  "fixed2 x = (let n = round_half_even (100 * x) in str_int (n div 100) @ ''.'' @ digits2 (n mod 100))"

definition title_case :: "string \<Rightarrow> string" where \<comment> \<open>\<^verbatim>\<open>str.title()\<close> of one word in small letters\<close>
  "title_case s = (case s of [] \<Rightarrow> [] | c # r \<Rightarrow> (if 97 \<le> ord c \<and> ord c \<le> 122 then char_of (ord c - 32) else c) # r)"

definition bar :: "string list \<Rightarrow> string" where
  "bar cells = ''| '' @ join '' | '' cells @ '' |''"

definition ticked :: "string \<Rightarrow> string" where
  "ticked s = CHR ''`'' # s @ ''`''"

definition markdown_report :: "jdict \<Rightarrow> string result" where
  "markdown_report report =
     bind_res (sub_dict report ''scorecard'') (\<lambda>score.
     bind_res (case jget score ''overall'' of JNull \<Rightarrow> Inr ''n/a''
               | v \<Rightarrow> bind_res (float_of_json v) (\<lambda>x. case x of Fin r \<Rightarrow> Inr (fixed2 r) | _ \<Rightarrow> Inl OverflowError)) (\<lambda>shown.
     bind_res (sub_dict report ''checks'') (\<lambda>checks.
     bind_res (mapM_res (\<lambda>(name, v). case v of
         JDict c \<Rightarrow> Inr (bar [ticked name, ticked (py_str (jget c ''passed'')), py_str (jget_or c ''detail'' (JStr []))])
       | _ \<Rightarrow> Inl AttributeError) checks) (\<lambda>rows.
     bind_res (iter_json (let v = jget report ''failures'' in if truthy v then v else JList [])) (\<lambda>failures.
       let ls = [''# '' @ title_case (py_str (jget_or report ''mode'' (JStr ''replay''))) @ '' Replay Report'', [],
                 ''- Case: '' @ ticked (py_str (jget_or report ''case_id'' (JStr []))),
                 ''- Passed: '' @ ticked (py_str (jget report ''passed'')), ''- Score: '' @ ticked shown, [], ''## Checks'', [],
                 bar [''Check'', ''Passed'', ''Detail''], ''|---|---:|---|''] @ rows @
                (if failures = [] then [] else [[], ''## Failures'', []] @ map (\<lambda>f. ''- '' @ py_str f) failures)
       in Inr (join [nl] ls @ [nl]))))))"

definition write_reports :: "replay_env \<Rightarrow> path \<Rightarrow> string \<Rightarrow> jdict \<Rightarrow> tree \<Rightarrow> (path \<times> tree) result" where
  "write_reports e output name report t =
     (let dest = rp_resolve e output; p = dest @ [name @ ''.json'']
      in bind_res (markdown_report report) (\<lambda>md.
           Inr (p, write_text (dest @ [name @ ''.md'']) md (write_text p (json_text report) (make_dirs dest t)))))"

definition case_id_of :: "path \<Rightarrow> jdict \<Rightarrow> string" where
  "case_id_of d manifest = text_or manifest ''case_id'' (last d)"

definition is_seed :: "tree \<Rightarrow> path \<Rightarrow> jdict \<Rightarrow> bool" where
  "is_seed t d manifest = (jget manifest ''source_kind'' = JStr ''eval_case'' \<and> \<not> is_file t (d @ [''trace.jsonl'']))"

definition finish_replay :: "replay_env \<Rightarrow> path \<Rightarrow> path \<Rightarrow> jdict \<Rightarrow> string \<Rightarrow> string \<Rightarrow> bool \<Rightarrow> jdict \<Rightarrow> tree \<Rightarrow> (replay_result \<times> tree) result" where
  "finish_replay e d output manifest mode name passed report t =
     bind_res (write_reports e output name report t) (\<lambda>(p, t').
       Inr (\<lparr>rr_case_id = case_id_of d manifest, rr_mode = mode, rr_passed = passed, rr_report_path = p, rr_report = report\<rparr>, t'))"

definition seed_report :: "path \<Rightarrow> jdict \<Rightarrow> jdict" where
  "seed_report d manifest =
     [(''schema_version'', JInt 1), (''case_id'', JStr (case_id_of d manifest)), (''mode'', JStr ''deterministic''), (''passed'', JBool False),
      (''status'', JStr ''not_available''),
      (''detail'', JStr ''An eval-case seed has no recorded trace yet; run it first for deterministic replay.''),
      (''scorecard'', JDict [(''overall'', JNull), (''checks_passed'', JInt 0), (''checks_total'', JInt 0)]), (''checks'', JDict []),
      (''failures'', JList [JStr ''eval-case seed has not been executed''])]"

definition deterministic_report :: "replay_env \<Rightarrow> path \<Rightarrow> jdict \<Rightarrow> jdict list \<Rightarrow> replay_check list \<Rightarrow> jdict" where
  "deterministic_report e d manifest events cs =
     (let passed = (failures_of cs = [])
      in [(''schema_version'', JInt 1), (''case_id'', JStr (case_id_of d manifest)), (''mode'', JStr ''deterministic''), (''passed'', JBool passed),
          (''created_at'', JStr (rp_now e)), (''source_run_id'', jget manifest ''source_run_id''),
          (''scorecard'', JDict [(''overall'', JFloat (Fin (if passed then 1 else 0))),
             (''checks_passed'', jnat (length (filter (\<lambda>(_, ok, _). ok) cs))), (''checks_total'', jnat (length cs)),
             (''event_count'', jnat (length events)), (''model_response_count'', jnat (count ''model_response'' events)),
             (''tool_result_count'', jnat (count ''tool/result'' events + count ''sandbox_exec_finished'' events))]),
          (''checks'', checks_json cs), (''failures'', JList (map JStr (failures_of cs)))])"

definition run_deterministic_replay :: "replay_env \<Rightarrow> path \<Rightarrow> path option \<Rightarrow> tree \<Rightarrow> (replay_result \<times> tree) result" where
  "run_deterministic_replay e case_dir output t =
     (let d = rp_resolve e case_dir; dest = (case output of None \<Rightarrow> d | Some p \<Rightarrow> p)
      in bind_res (load_replay_case t d) (\<lambda>manifest.
         if is_seed t d manifest then
           finish_replay e d dest manifest ''deterministic'' ''deterministic_replay_report'' False (seed_report d manifest) t
         else
           bind_res (read_trace t (d @ [''trace.jsonl''])) (\<lambda>events.
           bind_res (replay_checks e t d manifest events) (\<lambda>cs.
             finish_replay e d dest manifest ''deterministic'' ''deterministic_replay_report'' (failures_of cs = [])
               (deterministic_report e d manifest events cs) t))))"

section \<open>Comparison with a fresh run\<close>

definition action_signature :: "jdict \<Rightarrow> json option" where
  "action_signature ev =
     (if is_event ''action_started'' ev then
        (case jget ev ''action'' of JDict a \<Rightarrow> Some (JDict [(''type'', jget a ''type''), (''action'', JDict a)]) | _ \<Rightarrow> None)
      else if is_event ''tool/call'' ev then
        Some (JDict [(''type'', JStr ''tool_call''), (''tool'', jget ev ''tool''), (''arguments'', jget ev ''arguments'')])
      else None)"

definition action_signatures :: "jdict list \<Rightarrow> json list" where
  "action_signatures events = List.map_filter action_signature events"

definition fresh_header :: "replay_env \<Rightarrow> path \<Rightarrow> jdict \<Rightarrow> bool \<Rightarrow> jdict" where
  "fresh_header e d manifest passed =
     [(''schema_version'', JInt 1), (''case_id'', JStr (case_id_of d manifest)), (''mode'', JStr ''fresh''), (''passed'', JBool passed), (''created_at'', JStr (rp_now e))]"

definition passed_checks :: "(string \<times> bool \<times> json \<times> string) list \<Rightarrow> nat" where
  "passed_checks cs = length (filter (\<lambda>(_, ok, _). ok) cs)"

definition fresh_score :: "(string \<times> bool \<times> json \<times> string) list \<Rightarrow> jdict" where
  "fresh_score cs =
     [(''overall'', JFloat (Fin (of_nat (passed_checks cs) / of_nat (length cs)))), (''checks_passed'', jnat (passed_checks cs)), (''checks_total'', jnat (length cs))]"

definition fresh_checks_json :: "(string \<times> bool \<times> json \<times> string) list \<Rightarrow> json" where
  "fresh_checks_json cs = JDict (map (\<lambda>(name, ok, seen, detail). (name, check_entry ok seen detail)) cs)"

definition fresh_run_id :: "path \<Rightarrow> jdict \<Rightarrow> json" where
  "fresh_run_id fresh state = (let v = jget state ''run_id'' in if truthy v then v else JStr (last fresh))"

text \<open>The seed of an evaluation case is judged by its assertions; what they leave in the files is not followed.\<close>

definition compare_seed ::
  "replay_env \<Rightarrow> assert_env \<Rightarrow> path \<Rightarrow> path \<Rightarrow> path \<Rightarrow> jdict \<Rightarrow> jdict \<Rightarrow> tree \<Rightarrow> (replay_result \<times> tree) result" where
  "compare_seed e ae d fresh dest manifest state t =
     bind_res (iter_json (let v = jget manifest ''assertions'' in if truthy v then v else JList [])) (\<lambda>vs.
     bind_res (mapM_res (\<lambda>v. case v of JDict a \<Rightarrow> Inr a | _ \<Rightarrow> Inl AttributeError) vs) (\<lambda>as.
     bind_res (sub_dict state ''metrics'') (\<lambda>ms.
     bind_res (run_assertions ae (path_text (fresh @ [''workspace''])) (path_text fresh) ms (Some (path_text (d @ [''verifier'']))) as (ws_files_of t))
       (\<lambda>(rs, _).
         let completed = (jget state ''status'' = JStr ''completed''); ok = list_all ar_passed rs;
             cs = [(''fresh_run_completed'', completed, jget state ''status'', ''fresh run completed''),
                   (''eval_assertions'', ok,
                    JList (map (\<lambda>r. JDict [(''type'', JStr (ar_type r)), (''passed'', JBool (ar_passed r)), (''message'', JStr (ar_message r))]) rs),
                    ''eval case assertions pass on the fresh workspace'')];
             report = fresh_header e d manifest (completed \<and> ok) @
               [(''source_kind'', JStr ''eval_case''), (''fresh_run_id'', fresh_run_id fresh state),
                (''scorecard'', JDict (fresh_score cs @ [(''assertion_count'', jnat (length vs))])), (''checks'', fresh_checks_json cs),
                (''fresh_run_dir'', JStr (path_text fresh)), (''assertions'', JList vs)]
         in finish_replay e d dest manifest ''fresh'' ''fresh_replay_report'' completed report t))))"

definition compare_fresh_replay ::
  "replay_env \<Rightarrow> assert_env \<Rightarrow> path \<Rightarrow> path \<Rightarrow> path option \<Rightarrow> tree \<Rightarrow> (replay_result \<times> tree) result" where
  "compare_fresh_replay e ae case_dir fresh_dir output t =
     (let d = rp_resolve e case_dir; fresh = rp_resolve e fresh_dir; dest = (case output of None \<Rightarrow> d | Some p \<Rightarrow> p)
      in bind_res (load_replay_case t d) (\<lambda>manifest.
         if \<not> is_dir t fresh then replay_error (''Fresh run directory does not exist: '' @ path_text fresh)
         else
           bind_res (json_at t (fresh @ [''state.json''])) (\<lambda>state.
             if is_seed t d manifest then compare_seed e ae d fresh dest manifest state t
             else
               bind_res (json_at t (d @ [''state.json''])) (\<lambda>recorded.
               bind_res (read_trace t (d @ [''trace.jsonl''])) (\<lambda>old.
               bind_res (read_trace t (fresh @ [''trace.jsonl''])) (\<lambda>new.
                 let a = action_signatures old; b = action_signatures new;
                     da = sha_at e t (d @ [''artifacts'', ''diff.patch'']); db = sha_at e t (fresh @ [''artifacts'', ''diff.patch'']);
                     both = (da \<noteq> [] \<and> db \<noteq> []);
                     cs = [(''fresh_run_completed'', jget state ''status'' = JStr ''completed'', jget state ''status'', ''fresh run completed''),
                           (''status_match'', json_eq (jget recorded ''status'') (jget state ''status''),
                            JDict [(''source'', jget recorded ''status''), (''fresh'', jget state ''status'')], ''terminal status matches''),
                           (''action_sequence_match'', json_eq (JList a) (JList b),
                            JDict [(''source'', jnat (length a)), (''fresh'', jnat (length b))], ''action sequence matches exactly''),
                           (''diff_match'', both \<and> da = db, (if both then JDict [(''source'', JStr da), (''fresh'', JStr db)] else JNull),
                            if both then ''workspace diff hash matches'' else ''diff is unavailable'')];
                     passed = list_all (\<lambda>(_, ok, _). ok) cs;
                     report = fresh_header e d manifest passed @
                       [(''source_run_id'', jget manifest ''source_run_id''), (''fresh_run_id'', fresh_run_id fresh state),
                        (''scorecard'', JDict (fresh_score cs @ [(''source_actions'', jnat (length a)), (''fresh_actions'', jnat (length b)),
                           (''source_event_count'', jnat (length old)), (''fresh_event_count'', jnat (length new))])),
                        (''checks'', fresh_checks_json cs), (''fresh_run_dir'', JStr (path_text fresh))]
                 in finish_replay e d dest manifest ''fresh'' ''fresh_replay_report'' passed report t))))))"

section \<open>Packing stays inside the bundle\<close>

text \<open>From one tree to another, outside a directory only directories above it appear.\<close>

definition confined :: "path \<Rightarrow> tree \<Rightarrow> tree \<Rightarrow> bool" where
  "confined d t t' =
     (\<forall>q. \<not> prefix d q \<longrightarrow> map_of t' q = map_of t q \<or> map_of t q = None \<and> strict_prefix q d \<and> q \<noteq> [] \<and> map_of t' q = Some DirNode)"

named_theorems confined_intros \<open>steps that stay inside a directory\<close>

lemma confined_refl [confined_intros]: "confined d t t"
  by (simp add: confined_def)

lemma confined_trans: "confined d t t' \<Longrightarrow> confined d t' t'' \<Longrightarrow> confined d t t''"
  unfolding confined_def by (metis option.distinct(1))

lemma confined_write [confined_intros]: "prefix d p \<Longrightarrow> confined d t t' \<Longrightarrow> confined d t (write_text p s t')"
  by (rule confined_trans [of d t t']) (auto simp: confined_def tree_simps)

lemma confined_make [confined_intros]: "prefix d p \<Longrightarrow> confined d t t' \<Longrightarrow> confined d t (make_dirs p t')"
  by (rule confined_trans [of d t t']) (auto simp: confined_def tree_simps strict_prefix_def dest: prefix_same_cases)

lemma confined_remove [confined_intros]: "prefix d p \<Longrightarrow> confined d t t' \<Longrightarrow> confined d t (remove_tree p t')"
  by (rule confined_trans [of d t t']) (auto simp: confined_def tree_simps dest: prefix_order.trans)

lemma confined_copy_file [confined_intros]: "prefix d q \<Longrightarrow> confined d t t' \<Longrightarrow> confined d t (copy_file p q t')"
  by (simp add: copy_file_def confined_write)

lemma confined_append: "prefix d p \<Longrightarrow> \<forall>x \<in> set us. prefix p (fst x) \<Longrightarrow> confined d t t' \<Longrightarrow> confined d t (t' @ us)"
proof (rule confined_trans [of d t t'])
  assume "prefix d p" "\<forall>x \<in> set us. prefix p (fst x)"
  then have "map_of us q = None" if "\<not> prefix d q" for q
    using that prefix_order.trans by (fastforce simp: map_of_eq_None_iff)
  then show "confined d t' (t' @ us)" by (auto simp: confined_def map_add_def split: option.splits)
qed

lemma confined_copy_subtree [confined_intros]: "prefix d q \<Longrightarrow> confined d t t' \<Longrightarrow> confined d t (copy_subtree p q t')"
  unfolding copy_subtree_def
  by (rule confined_append [of d q]) (auto simp: List.map_filter_def confined_make split: if_splits)

lemma confined_evidence [confined_intros]: "confined d t t' \<Longrightarrow> confined d t (copy_evidence source d t')"
proof -
  have "confined d t (fold (\<lambda>name t. if is_file t (source @ [name]) then copy_file (source @ [name]) (d @ [name]) t else t) ns t')"
    if "confined d t t'" for ns t' using that by (induction ns arbitrary: t') (auto simp: confined_copy_file)
  then show "confined d t t' \<Longrightarrow> confined d t (copy_evidence source d t')"
    by (auto simp: copy_evidence_def Let_def intro: confined_intros)
qed

lemma confined_claim: "claim_target d ow t = Inr t' \<Longrightarrow> confined d t t'"
  by (auto simp: claim_target_def intro!: confined_intros split: if_splits)

text \<open>Extraction, of members that all stay below its directory, writes below its directory.\<close>

definition extracts_below :: "replay_env \<Rightarrow> bool" where
  "extracts_below e = (\<forall>ms d oks t. mapM_res (safe_member e d) ms = Inr oks \<longrightarrow> confined d t (rp_extract e ms d t))"

lemma confined_widen: "confined p t t' \<Longrightarrow> prefix d p \<Longrightarrow> confined d t t'"
  unfolding confined_def strict_prefix_def by (metis prefix_order.trans prefix_same_cases prefix_order.refl)

lemma confined_snapshot:
  assumes "extracts_below e" "snapshot_baseline e source p t = Inr (mode, t')" "prefix d p"
  shows "confined d t t'"
proof -
  from assms(2) consider "t' = t" | "t' = copy_subtree source p t"
    | ms oks where "mapM_res (safe_member e p) ms = Inr oks" "t' = rp_extract e ms p (make_dirs p t)"
    by (auto simp: snapshot_baseline_def safe_extract_tar_def split: if_splits option.splits)
  then show ?thesis
  proof cases
    case 3
    then have "confined p (make_dirs p t) t'" using assms(1) by (auto simp: extracts_below_def)
    then have "confined p t t'" using confined_trans [OF confined_make [OF _ confined_refl]] by blast
    then show ?thesis using assms(3) by (rule confined_widen)
  qed (auto intro: confined_intros assms(3))
qed

lemma confined_seed_assertions: "seed_assertions cd v as t = (as', t') \<Longrightarrow> prefix d v \<Longrightarrow> confined d t0 t \<Longrightarrow> confined d t0 t'"
proof (induction as arbitrary: t as' t')
  case (Cons a as)
  obtain a1 t1 where a1: "seed_assertion cd v a t = (a1, t1)" by fastforce
  have "confined d t0 t1"
    using a1 Cons.prems(2,3) by (auto simp: seed_assertion_def Let_def split: json.splits if_splits intro!: confined_intros)
  then show ?case using Cons a1 by (auto simp: Let_def split: prod.splits)
qed simp


section \<open>What a replay that passes has shown\<close>

lemma protocol_replay_step:
  assumes "protocol_replay m n (ev # rest) = Inr (True, ms)"
  shows "(\<exists>n' ms'. protocol_replay m n' rest = Inr (True, ms')) \<and>
    (is_event ''model_response'' ev \<longrightarrow>
      (\<exists>s a. jget ev ''response_text'' = JStr s \<and> replayed_action m s = Inr a \<and> json_eq a (recorded_action rest)))"
  using assms by (auto simp: split: if_splits json.splits prod.splits)

lemma protocol_replay_sound:
  assumes "protocol_replay m n es = Inr (True, ms)" "i < length es" "is_event ''model_response'' (es ! i)"
  shows "\<exists>s a. jget (es ! i) ''response_text'' = JStr s \<and> replayed_action m s = Inr a \<and> json_eq a (recorded_action (drop (Suc i) es))"
  using assms
proof (induction es arbitrary: n ms i)
  case (Cons ev rest)
  note step = protocol_replay_step [OF Cons.prems(1)]
  show ?case
  proof (cases i)
    case 0
    then show ?thesis using step Cons.prems(3) by simp
  next
    case (Suc j)
    from step obtain n' ms' where "protocol_replay m n' rest = Inr (True, ms')" by blast
    then show ?thesis using Cons.IH [of n' ms' j] Cons.prems(2,3) Suc by simp
  qed
qed simp

lemma failures_none: "failures_of cs = [] \<longleftrightarrow> list_all (\<lambda>(name, ok, _). ok) cs"
  by (induction cs) (auto simp: failures_of_def List.map_filter_def split: if_splits)

lemma finish_replay_passed:
  assumes "finish_replay e d dest m mode name ok rep t = Inr (r, t')"
  shows "rr_passed r = ok"
  using assms by (auto simp: finish_replay_def split: prod.splits)

lemma finish_replay_frame:
  assumes "finish_replay e d dest m mode name ok rep t = Inr (r, t')"
    and "q \<noteq> rp_resolve e dest @ [name @ ''.json'']" "q \<noteq> rp_resolve e dest @ [name @ ''.md'']"
  shows "map_of t' q = map_of (make_dirs (rp_resolve e dest) t) q"
  using assms by (auto simp: finish_replay_def write_reports_def Let_def map_of_write split: prod.splits)

lemma finish_replay_result:
  assumes "finish_replay e d dest m mode name ok rep t = Inr (r, t')"
  shows "rr_report_path r = rp_resolve e dest @ [name @ ''.json'']"
    and "map_of t' (rr_report_path r) = Some (FileNode (json_text (rr_report r)))"
  using assms by (auto simp: finish_replay_def write_reports_def Let_def map_of_write split: prod.splits)

lemma replay_checks_hold:
  assumes "replay_checks e t d m es = Inr cs" "failures_of cs = []"
  shows "rising (sequence_numbers es)" "\<exists>ms. protocol_replay m 0 es = Inr (True, ms)" "hashes_match e t d m = Inr True"
    "filter (is_event ''model_response'') es \<noteq> []" "count ''action_parsed'' es = count ''model_response'' es"
    "pair_call_results (filter (is_event ''tool/call'') es) (filter (is_event ''tool/result'') es)"
proof -
  obtain same ms intact where same: "protocol_replay m 0 es = Inr (same, ms)" and intact: "hashes_match e t d m = Inr intact"
    using assms(1) unfolding replay_checks_def Let_def bind_res_eq_Inr by fastforce
  have all: "list_all (\<lambda>(name, ok, _). ok) cs" using assms(2) by (simp only: failures_none)
  show "rising (sequence_numbers es)" "\<exists>ms. protocol_replay m 0 es = Inr (True, ms)" "hashes_match e t d m = Inr True"
    "filter (is_event ''model_response'') es \<noteq> []" "count ''action_parsed'' es = count ''model_response'' es"
    "pair_call_results (filter (is_event ''tool/call'') es) (filter (is_event ''tool/result'') es)"
    using assms(1) all unfolding replay_checks_def Let_def bind_res_eq_Inr same intact
    by (clarsimp simp: count_def simp del: json.case)+
qed

lemma deterministic_passed:
  assumes "run_deterministic_replay e c out t = Inr (r, t')" "rr_passed r"
  obtains m es cs where "load_replay_case t (rp_resolve e c) = Inr m" "read_trace t (rp_resolve e c @ [''trace.jsonl'']) = Inr es"
    "replay_checks e t (rp_resolve e c) m es = Inr cs" "failures_of cs = []"
  using assms by (auto simp: run_deterministic_replay_def Let_def dest!: finish_replay_passed split: if_splits)

text \<open>C28: an offline replay passes only if the bundle is intact and its responses explain its actions: every
  file the manifest lists is there with its recorded length and hash, the event numbers rise, the run had
  a model response, there are as many parsed actions as responses, and every response was recorded
  in full and parses, with the bundle's own limits, to the very action that the next parsing event
  recorded.\<close>

theorem replay_sound:
  assumes "run_deterministic_replay e c out t = Inr (r, t')" "rr_passed r"
  shows "\<exists>m files es. load_replay_case t (rp_resolve e c) = Inr m \<and> sub_dict m ''files'' = Inr files \<and>
    (\<forall>(n, v) \<in> set files. is_file t (path_at (rp_resolve e c) n) \<and> json_eq (file_metadata e t (path_at (rp_resolve e c) n)) v) \<and>
    read_trace t (rp_resolve e c @ [''trace.jsonl'']) = Inr es \<and> rising (sequence_numbers es) \<and>
    0 < count ''model_response'' es \<and> count ''action_parsed'' es = count ''model_response'' es \<and>
    (\<forall>i < length es. is_event ''model_response'' (es ! i) \<longrightarrow>
       (\<exists>s a. jget (es ! i) ''response_text'' = JStr s \<and> replayed_action m s = Inr a \<and> json_eq a (recorded_action (drop (Suc i) es))))"
proof -
  from assms obtain m es cs where m: "load_replay_case t (rp_resolve e c) = Inr m"
    and es: "read_trace t (rp_resolve e c @ [''trace.jsonl'']) = Inr es"
    and cs: "replay_checks e t (rp_resolve e c) m es = Inr cs" "failures_of cs = []" by (rule deterministic_passed)
  note hold = replay_checks_hold [OF cs]
  from hold(3) obtain files where "sub_dict m ''files'' = Inr files"
    "\<forall>(n, v) \<in> set files. is_file t (path_at (rp_resolve e c) n) \<and> json_eq (file_metadata e t (path_at (rp_resolve e c) n)) v"
    by (auto simp: hashes_match_def list_all_iff split: if_splits)
  moreover from hold(2) have "\<forall>i < length es. is_event ''model_response'' (es ! i) \<longrightarrow>
      (\<exists>s a. jget (es ! i) ''response_text'' = JStr s \<and> replayed_action m s = Inr a \<and> json_eq a (recorded_action (drop (Suc i) es)))"
    using protocol_replay_sound by blast
  ultimately show ?thesis using m es hold(1,4,5) by (auto simp: count_def)
qed

text \<open>A replay, offline or against a fresh run, writes its two reports and makes their directory; it
  changes nothing else, neither the bundle nor the runs, and the report it names is the one it returns.\<close>

theorem replay_leaves_files:
  assumes "run_deterministic_replay e c out t = Inr (r, t') \<or> compare_fresh_replay e ae c fresh out t = Inr (r, t')"
  shows "\<exists>dest name. rr_report_path r = dest @ [name @ ''.json''] \<and> map_of t' (rr_report_path r) = Some (FileNode (json_text (rr_report r))) \<and>
    (\<forall>q. q \<noteq> rr_report_path r \<and> q \<noteq> dest @ [name @ ''.md''] \<longrightarrow>
       map_of t' q = (if map_of t q = None \<and> prefix q dest \<and> q \<noteq> [] then Some DirNode else map_of t q))"
proof -
  from assms obtain d dest m mode name ok rep where fin: "finish_replay e d dest m mode name ok rep t = Inr (r, t')"
    by (auto simp: run_deterministic_replay_def compare_fresh_replay_def compare_seed_def Let_def split: if_splits prod.splits)
  show ?thesis
    using finish_replay_result [OF fin] finish_replay_frame [OF fin] by (intro exI [of _ "rp_resolve e dest"] exI [of _ name]) (simp add: map_of_make)
qed

lemma rows_total: "\<exists>rows. mapM_res (\<lambda>(name, v). case v of
         JDict c \<Rightarrow> Inr (bar [ticked name, ticked (py_str (jget c ''passed'')), py_str (jget_or c ''detail'' (JStr []))])
       | _ \<Rightarrow> Inl AttributeError) (map (\<lambda>(name, ok, seen, detail, _). (name, check_entry ok seen detail)) cs) = Inr rows"
  by (induction cs) (auto simp: check_entry_def)

text \<open>The report of a replay can always be printed.\<close>

lemma report_checks: "sub_dict (deterministic_report e d m es cs) ''checks'' = Inr (map (\<lambda>(name, ok, seen, detail, _). (name, check_entry ok seen detail)) cs)"
  by (simp add: deterministic_report_def sub_dict_def Let_def checks_json_def jget_def)

lemma report_score:
  "\<exists>score r. sub_dict (deterministic_report e d m es cs) ''scorecard'' = Inr score \<and> jget score ''overall'' = JFloat (Fin r)"
  by (simp add: deterministic_report_def sub_dict_def Let_def jget_def)

lemma report_failures:
  "\<exists>fs. iter_json (let v = jget (deterministic_report e d m es cs) ''failures'' in if truthy v then v else JList []) = Inr fs"
  by (simp add: deterministic_report_def Let_def jget_def)

lemma deterministic_report_prints: "\<exists>md. markdown_report (deterministic_report e d m es cs) = Inr md"
proof -
  obtain score r where score: "sub_dict (deterministic_report e d m es cs) ''scorecard'' = Inr score" "jget score ''overall'' = JFloat (Fin r)"
    using report_score by blast
  obtain rows where rows: "mapM_res (\<lambda>(name, v). case v of
         JDict c \<Rightarrow> Inr (bar [ticked name, ticked (py_str (jget c ''passed'')), py_str (jget_or c ''detail'' (JStr []))])
       | _ \<Rightarrow> Inl AttributeError) (map (\<lambda>(name, ok, seen, detail, _). (name, check_entry ok seen detail)) cs) = Inr rows"
    using rows_total by blast
  obtain fs where fs: "iter_json (let v = jget (deterministic_report e d m es cs) ''failures'' in if truthy v then v else JList []) = Inr fs"
    using report_failures by blast
  show ?thesis by (simp add: markdown_report_def score report_checks rows fs)
qed

lemma deterministic_replay_passes:
  assumes "load_replay_case t d = Inr m" "\<not> is_seed t d m" "read_trace t (d @ [''trace.jsonl'']) = Inr es"
    and "map_sum id (map (\<lambda>(name, ok, _). ok)) (replay_checks e t d m es) = Inr oks" "list_all id oks" "rp_resolve e c = d"
  shows "\<exists>r t'. run_deterministic_replay e c out t = Inr (r, t') \<and> rr_passed r"
proof -
  obtain cs where cs: "replay_checks e t d m es = Inr cs" "oks = map (\<lambda>(name, ok, _). ok) cs"
    using assms(4) by (cases "replay_checks e t d m es") auto
  then have "failures_of cs = []" using assms(5) by (auto simp: failures_none list_all_iff)
  moreover obtain md where "markdown_report (deterministic_report e d m es cs) = Inr md" using deterministic_report_prints by blast
  ultimately show ?thesis
    using assms cs(1) by (simp add: run_deterministic_replay_def finish_replay_def write_reports_def Let_def)
qed

section \<open>A bundle that replays\<close>

text \<open>A run that answered once, with the final action.\<close>

definition sample_event :: "int \<Rightarrow> string \<Rightarrow> jdict \<Rightarrow> string" where
  "sample_event n name rest = dumps (JDict ([(''sequence'', JInt n), (''event'', JStr name)] @ rest)) @ [nl]"

definition sample_bundle :: tree where
  "sample_bundle =
     [([''b''], DirNode),
      ([''b'', ''case.json''], FileNode (dumps (JDict [(''schema_version'', JInt 1), (''case_id'', JStr ''c'')]))),
      ([''b'', ''trace.jsonl''], FileNode
        (sample_event 1 ''run_started'' [] @
         sample_event 2 ''model_response'' [(''response_text'', JStr (dumps (JDict [(''type'', JStr ''bash''), (''command'', JStr ''ls'')])))] @
         sample_event 3 ''action_parsed'' [(''action'', JDict [(''type'', JStr ''bash''), (''command'', JStr ''ls''), (''timeout_sec'', JInt 60), (''purpose'', JStr [])])] @
         sample_event 4 ''run_completed'' []))]"

definition sample_replay_env :: replay_env where
  "sample_replay_env =
     \<lparr>rp_sha = (\<lambda>s. ''h''), rp_raw = id, rp_now = ''now'', rp_resolve = id, rp_archive = (\<lambda>_ _ _. None), rp_extract = (\<lambda>_ _ t. t)\<rparr>"

definition sample_events :: "jdict list" where
  "sample_events =
     [[(''sequence'', JInt 1), (''event'', JStr ''run_started'')],
      [(''sequence'', JInt 2), (''event'', JStr ''model_response''), (''response_text'', JStr (dumps (JDict [(''type'', JStr ''bash''), (''command'', JStr ''ls'')])))],
      [(''sequence'', JInt 3), (''event'', JStr ''action_parsed''),
       (''action'', JDict [(''type'', JStr ''bash''), (''command'', JStr ''ls''), (''timeout_sec'', JInt 60), (''purpose'', JStr [])])],
      [(''sequence'', JInt 4), (''event'', JStr ''run_completed'')]]"

lemma sample_case: "load_replay_case sample_bundle [''b''] = Inr [(''schema_version'', JInt 1), (''case_id'', JStr ''c'')]"
  by code_simp

lemma sample_trace: "read_trace sample_bundle [''b'', ''trace.jsonl''] = Inr sample_events"
  by code_simp

lemma sample_checks:
  "map_sum id (map (\<lambda>(name, ok, _). ok)) (replay_checks sample_replay_env sample_bundle [''b''] [(''schema_version'', JInt 1), (''case_id'', JStr ''c'')] sample_events)
   = Inr [True, True, True, True, True, True, True]"
  by code_simp

lemma sample_bundle_passes:
  obtains r t' where "run_deterministic_replay sample_replay_env [''b''] (Some [''o'']) sample_bundle = Inr (r, t')" "rr_passed r"
proof -
  have seed: "\<not> is_seed sample_bundle [''b''] [(''schema_version'', JInt 1), (''case_id'', JStr ''c'')]" by code_simp
  have same: "rp_resolve sample_replay_env [''b''] = [''b'']" by (simp add: sample_replay_env_def)
  have read: "read_trace sample_bundle ([''b''] @ [''trace.jsonl'']) = Inr sample_events" using sample_trace by simp
  show ?thesis using deterministic_replay_passes [OF sample_case seed read sample_checks _ same] that by auto
qed

theorem replay_sound_witness:
  "\<exists>es. read_trace sample_bundle [''b'', ''trace.jsonl''] = Inr es \<and> rising (sequence_numbers es) \<and>
     count ''action_parsed'' es = count ''model_response'' es \<and> 0 < count ''model_response'' es"
proof -
  obtain r t' where run: "run_deterministic_replay sample_replay_env [''b''] (Some [''o'']) sample_bundle = Inr (r, t')" "rr_passed r"
    by (rule sample_bundle_passes)
  show ?thesis using replay_sound [OF run] by (auto simp: sample_replay_env_def)
qed

theorem replay_leaves_files_witness:
  "\<exists>r t'. run_deterministic_replay sample_replay_env [''b''] (Some [''o'']) sample_bundle = Inr (r, t') \<and>
     map_of t' (rr_report_path r) = Some (FileNode (json_text (rr_report r)))"
proof -
  obtain r t' where run: "run_deterministic_replay sample_replay_env [''b''] (Some [''o'']) sample_bundle = Inr (r, t')"
    by (rule sample_bundle_passes)
  show ?thesis using replay_leaves_files [OF disjI1 [OF run]] run by blast
qed

definition sample_run_tree :: tree where
  "sample_run_tree = [([''r''], DirNode), ([''r'', ''state.json''], FileNode ''{}''), ([''r'', ''trace.jsonl''], FileNode [])]"

lemma sample_manifest: "\<exists>m. case_manifest e t source target rid [] mode [] names = Inr m"
  by (simp add: case_manifest_def sub_dict_def int_or_def Let_def jget_def)

lemma sample_packed: "\<exists>t'. create_replay_case sample_replay_env [''r''] [''o''] False sample_run_tree = Inr ([''o'', ''replay-r''], t')"
proof -
  let ?e = sample_replay_env and ?t1 = "make_dirs [''o'', ''replay-r''] sample_run_tree"
  let ?t2 = "copy_evidence [''r''] [''o'', ''replay-r''] ?t1"
  let ?t4 = "make_dirs [''o'', ''replay-r'', ''workspace''] ?t2"
  have files: "is_dir sample_run_tree [''r'']" "is_file sample_run_tree [''r'', ''trace.jsonl'']" "is_file sample_run_tree [''r'', ''state.json'']"
    "json_at sample_run_tree [''r'', ''state.json''] = Inr []" "path_at [''o''] ''replay-r'' = [''o'', ''replay-r'']"
    "claim_target [''o'', ''replay-r''] False sample_run_tree = Inr ?t1" by code_simp+
  have packed: "snapshot_baseline ?e [''r'', ''workspace''] [''o'', ''replay-r'', ''workspace''] ?t2 = Inr (''missing'', ?t2)"
    "read_trace ?t4 [''o'', ''replay-r'', ''trace.jsonl''] = Inr []" by code_simp+
  have "rp_resolve ?e p = p" for p by (simp add: sample_replay_env_def)
  moreover obtain m where "case_manifest ?e (write_text [''o'', ''replay-r'', ''model_responses.jsonl''] [] ?t4)
      [''r''] [''o'', ''replay-r''] ''r'' [] ''missing'' [] (copied_names [''r''] ?t1) = Inr m" using sample_manifest by blast
  ultimately show ?thesis using files packed by (simp add: create_replay_case_def Let_def text_or_def jget_def)
qed


end
