(* ===== verification/Recorder.thy ===== *)
theory Recorder
  imports Replay Sessions
begin

text \<open>
  The recorder of events (\<^verbatim>\<open>trace/recorder.py\<close>): every event gets the next number and is appended to the
  trace, one JSON object on a line. A payload is JSON from the start, so \<^verbatim>\<open>_jsonable\<close>, which turns
  tuples into lists and paths into text, leaves it as it is.

  Results: the trace is a log of its events. What recorders write, one after the other and each opened
  on the file the last one left, is read back by the replay event for event, and its numbers rise.
\<close>

section \<open>The recorder\<close>

record recorder =
  rec_path :: "path option"
  rec_capture :: bool \<comment> \<open>\<^verbatim>\<open>capture_model_responses\<close>\<close>
  rec_events :: "jdict list"
  rec_sequence :: int

definition event_number :: "nat \<Rightarrow> jdict \<Rightarrow> int result" where
  "event_number index ev = int_of_json (jget_or ev ''sequence'' (JInt (int index)))"

fun highest_number :: "nat \<Rightarrow> jdict list \<Rightarrow> int result" where \<comment> \<open>\<^verbatim>\<open>max(...)\<close>, of one event at least\<close>
  "highest_number index [] = Inr 0"
| "highest_number index [ev] = event_number index ev"
| "highest_number index (ev # rest) =
     bind_res (event_number index ev) (\<lambda>n. bind_res (highest_number (Suc index) rest) (\<lambda>m. Inr (max n m)))"

text \<open>Lines that are no JSON are skipped.\<close>

fun scan_trace :: "nat \<Rightarrow> int \<Rightarrow> string list \<Rightarrow> int result" where
  "scan_trace index n [] = Inr n"
| "scan_trace index n (l # ls) =
     (case json_loads l of
        Inl (JSONDecodeError m) \<Rightarrow> scan_trace (Suc index) n ls
      | Inl err \<Rightarrow> Inl err
      | Inr (JDict d) \<Rightarrow> bind_res (event_number index d) (\<lambda>k. scan_trace (Suc index) (max n k) ls)
      | Inr _ \<Rightarrow> scan_trace (Suc index) n ls)"

definition open_recorder :: "path option \<Rightarrow> bool \<Rightarrow> jdict list \<Rightarrow> tree \<Rightarrow> recorder result" where \<comment> \<open>\<^verbatim>\<open>__post_init__\<close>\<close>
  "open_recorder p capture events t =
     bind_res
       (if events \<noteq> [] then highest_number 1 events
        else
          (case p of
             Some q \<Rightarrow> if is_file t q then scan_trace 1 0 (splitlines (file_text t q)) else Inr 0
           | None \<Rightarrow> Inr 0))
       (\<lambda>n. Inr \<lparr>rec_path = p, rec_capture = capture, rec_events = events, rec_sequence = n\<rparr>)"

definition event_of :: "string \<Rightarrow> run_state option \<Rightarrow> string \<Rightarrow> jdict \<Rightarrow> int \<Rightarrow> jdict" where
  "event_of name st created payload n =
     fold (\<lambda>(k, v). AList.update k v) payload
       ([(''event'', JStr name), (''trace_schema_version'', JInt 1), (''sequence'', JInt n), (''created_at'', JStr created)] @
        (case st of None \<Rightarrow> [] | Some s \<Rightarrow> [(''run_id'', JStr (run_id s)), (''status'', JStr (status s))]))"

definition event_line :: "jdict \<Rightarrow> string" where
  "event_line ev = dumps (JDict ev) @ [nl]"

definition append_text :: "path \<Rightarrow> string \<Rightarrow> tree \<Rightarrow> tree" where
  "append_text p s t = write_text p (file_text t p @ s) t"

text \<open>A call of the recorder: the event, the state, the time, and what more there is to say.\<close>

type_synonym trace_call = "string \<times> run_state option \<times> string \<times> jdict"

fun record_event :: "trace_call \<Rightarrow> recorder \<times> tree \<Rightarrow> recorder \<times> tree" where
  "record_event (name, st, created, payload) (r, t) =
     (let ev = event_of name st created payload (rec_sequence r + 1)
      in (r\<lparr>rec_events := rec_events r @ [ev], rec_sequence := rec_sequence r + 1\<rparr>,
          case rec_path r of None \<Rightarrow> t | Some p \<Rightarrow> append_text p (event_line ev) (make_dirs (butlast p) t)))"

section \<open>The events\<close>

text \<open>The name and the payload that each method passes on, for the state it is given.\<close>

type_synonym trace_event = "string \<times> jdict"

definition run_started_event :: "run_state \<Rightarrow> trace_event" where
  "run_started_event st = (''run_started'', [(''goal'', JStr (rs_goal st))])"

definition prompt_built_event :: "(string \<times> string) list \<Rightarrow> json \<Rightarrow> trace_event" where \<comment> \<open>messages: role and content\<close>
  "prompt_built_event messages profile =
     (''prompt_built'',
      [(''message_count'', JInt (int (length messages))), (''prompt_chars'', JInt (int (sum_list (map (length \<circ> snd) messages)))),
       (''prefix_profile'', profile)])"

definition model_usage_to_dict :: "model_usage \<Rightarrow> jdict" where
  "model_usage_to_dict u =
     [(''prompt_tokens'', opt_int (mu_prompt u)), (''completion_tokens'', opt_int (mu_completion u)), (''total_tokens'', opt_int (mu_total u)),
      (''cached_tokens'', opt_int (mu_cached u)), (''cache_hit_tokens'', opt_int (mu_cache_hit u)), (''cache_miss_tokens'', opt_int (mu_cache_miss u)),
      (''cache_hit_rate'', case mu_cache_hit_rate u of None \<Rightarrow> JNull | Some f \<Rightarrow> JFloat f)]"

definition last_request :: "jdict \<Rightarrow> json result" where
  "last_request ms =
     (let v = jget ms ''cache_requests''
      in if \<not> truthy v then Inr JNull
         else (case v of JList vs \<Rightarrow> Inr (last vs) | JStr s \<Rightarrow> Inr (JStr [last s]) | JDict _ \<Rightarrow> Inl KeyError | _ \<Rightarrow> Inl TypeError))"

definition cacheability :: "jdict \<Rightarrow> json \<Rightarrow> jdict" where
  "cacheability ms request =
     [(''request_index'', jget ms ''cache_prefix_request_index''), (''prefix_epoch'', jget ms ''cache_prefix_epoch''),
      (''local_cold_start'', jget ms ''cache_prefix_local_cold_start''),
      (''previous_request_is_exact_prefix'', jget ms ''cache_prefix_previous_is_exact''),
      (''prefix_reset_reason'', jget ms ''cache_prefix_reset_reason''), (''lcp_estimated_tokens'', jget ms ''cache_prefix_lcp_estimated_tokens''),
      (''theoretical_input_tokens'', jget ms ''cache_theoretical_input_tokens_current''),
      (''theoretical_output_tokens'', jget ms ''cache_theoretical_output_tokens_current''),
      (''theoretical_token_kind'', jget ms ''cache_theoretical_token_kind_current''),
      (''capture_efficiency_input'', jget ms ''cache_capture_efficiency_input_current''),
      (''steady_state_request'', JBool (truthy (jget ms ''cache_steady_state_observed''))),
      (''steady_state_start_request_index'', jget ms ''cache_steady_state_start_request_index''),
      (''steady_state_basis'', jget ms ''cache_steady_state_basis''), (''empirical_hit_block_tokens'', jget ms ''cache_empirical_hit_block_tokens''),
      (''request_metrics'', request)]"

definition model_response_event ::
  "(string \<Rightarrow> string) \<Rightarrow> bool \<Rightarrow> run_state \<Rightarrow> string \<Rightarrow> int \<Rightarrow> model_usage option \<Rightarrow> int \<Rightarrow> string list \<Rightarrow> trace_event result" where
  "model_response_event sha256 capture st response latency usage attempts reasons =
     bind_res (last_request (metrics st)) (\<lambda>request.
       Inr (''model_response'',
         [(''response_preview'', JStr (take 1000 response)), (''response_text'', if capture then JStr response else JNull),
          (''response_sha256'', JStr (sha256 (utf8 response))), (''latency_ms'', JInt latency), (''attempt_count'', JInt (max attempts 1)),
          (''retry_reasons'', strs reasons), (''usage'', case usage of None \<Rightarrow> JNull | Some u \<Rightarrow> JDict (model_usage_to_dict u)),
          (''cacheability'', JDict (cacheability (metrics st) request))]))"

definition llm_retry_event :: "string \<Rightarrow> string \<Rightarrow> int \<Rightarrow> int \<Rightarrow> llm_failure \<Rightarrow> trace_event" where
  "llm_retry_event route code retry_index delay failure =
     (''llm/retry'',
      [(''route'', JStr route), (''code'', JStr code), (''retry_index'', JInt retry_index), (''delay_ms'', JInt delay),
       (''failure'', JDict (failure_dict failure))])"

definition failover_hop_event :: "string \<Rightarrow> string \<Rightarrow> string \<Rightarrow> trace_event" where
  "failover_hop_event from_route to_route code =
     (''failover/hop'', [(''from_route'', JStr from_route), (''to_route'', JStr to_route), (''code'', JStr code)])"

definition action_parsed_event :: "action option \<Rightarrow> trace_event" where
  "action_parsed_event a = (''action_parsed'', [(''action'', case a of None \<Rightarrow> JNull | Some x \<Rightarrow> JDict (action_to_dict x))])"

definition action_started_event :: "action \<Rightarrow> trace_event" where
  "action_started_event a = (''action_started'', [(''action'', JDict (action_to_dict a))])"

text \<open>Arguments whose name tells of a secret; dicts in lists are not looked into.\<close>

definition sensitive_markers :: "string list" where
  "sensitive_markers = [''api_key'', ''authorization'', ''password'', ''secret'', ''token'']"

fun redact_value :: "string \<Rightarrow> json \<Rightarrow> json" where
  "redact_value k (JDict kvs) =
     (if list_ex (contains (lower k)) sensitive_markers then JStr ''<redacted>'' else JDict (map (\<lambda>(k', v). (k', redact_value k' v)) kvs))"
| "redact_value k v = (if list_ex (contains (lower k)) sensitive_markers then JStr ''<redacted>'' else v)"

definition redact_arguments :: "jdict \<Rightarrow> jdict" where
  "redact_arguments d = map (\<lambda>(k, v). (k, redact_value k v)) d"

definition run_context :: "run_state \<Rightarrow> jdict" where \<comment> \<open>what a tool event says of its run\<close>
  "run_context st =
     [(''schema_version'', JInt (schema_version st)), (''suite_id'', opt_str (suite_id st)), (''milestone'', JStr (milestone st)),
      (''stage'', JStr (stage st)), (''turn'', jget (metrics st) ''turns'')]"

definition tool_call_event ::
  "run_state \<Rightarrow> tool_result option \<Rightarrow> string option \<Rightarrow> string option \<Rightarrow> jdict \<Rightarrow> int option \<Rightarrow> string option \<Rightarrow> trace_event" where
  "tool_call_event st result cid name args order mode =
     (let (cid, name, order, mode) =
            (case result of
               None \<Rightarrow> (opt_str cid, opt_str name, opt_int order, opt_str mode)
             | Some r \<Rightarrow> (JStr (tr_call_id r), JStr (tr_tool r), JInt (int (tr_model_order r)), JStr (tr_mode r)))
      in (''tool/call'', run_context st @
           [(''call_id'', cid), (''tool'', name), (''arguments'', JDict (redact_arguments args)), (''model_order'', order), (''execution_mode'', mode)]))"

definition tool_result_event :: "run_state \<Rightarrow> tool_result \<Rightarrow> trace_event" where
  "tool_result_event st r =
     (''tool/result'', run_context st @
       [(''call_id'', JStr (tr_call_id r)), (''tool'', JStr (tr_tool r)), (''model_order'', JInt (int (tr_model_order r))),
        (''execution_mode'', JStr (tr_mode r)), (''is_error'', JBool (tr_is_error r)), (''content'', JDict (tr_content r)),
        (''started_at'', opt_str (tr_started_at r)), (''completed_at'', opt_str (tr_completed_at r)), (''duration_ms'', JInt (tr_duration_ms r))])"

definition decision_name :: "decision_type \<Rightarrow> string" where
  "decision_name t = (case t of Allow \<Rightarrow> ''allow'' | Deny \<Rightarrow> ''deny'' | RequireApproval \<Rightarrow> ''require_approval'' | Rewrite \<Rightarrow> ''rewrite'')"

definition policy_decision_event :: "policy_decision \<Rightarrow> trace_event" where
  "policy_decision_event d =
     (''policy_decision'', [(''decision_type'', JStr (decision_name (pd_type d))), (''reason'', JStr (pd_reason d)), (''policy_name'', JStr (pd_policy_name d))])"

definition sandbox_exec_started_event :: "string \<Rightarrow> trace_event" where
  "sandbox_exec_started_event cmd = (''sandbox_exec_started'', [(''command'', JStr cmd)])"

definition observation_to_dict :: "observation \<Rightarrow> jdict" where
  "observation_to_dict ob =
     [(''kind'', JStr (ob_kind ob)), (''exit_code'', opt_int (ob_exit_code ob)), (''message'', JStr (ob_message ob)),
      (''stdout_preview'', JStr (ob_stdout_preview ob)), (''stderr_preview'', JStr (ob_stderr_preview ob)),
      (''artifact_ids'', strs (ob_artifact_ids ob)), (''duration_ms'', JInt (ob_duration_ms ob))]"

definition sandbox_exec_finished_event :: "observation \<Rightarrow> trace_event" where
  "sandbox_exec_finished_event ob = (''sandbox_exec_finished'', [(''observation'', JDict (observation_to_dict ob))])"

definition observation_created_events :: "observation \<Rightarrow> trace_event list" where
  "observation_created_events ob =
     (''observation_created'', [(''observation'', JDict (observation_to_dict ob))]) #
     map (\<lambda>a. (''artifact_written'', [(''artifact_id'', JStr a)])) (ob_artifact_ids ob)"

definition context_compacted_event :: "string \<Rightarrow> string \<Rightarrow> int \<Rightarrow> int \<Rightarrow> int \<Rightarrow> jdict \<Rightarrow> trace_event" where
  "context_compacted_event message strategy source_steps input_chars output_chars details =
     (''context_compacted'',
      [(''message'', JStr message), (''strategy'', JStr strategy), (''source_steps'', JInt source_steps), (''input_chars'', JInt input_chars),
       (''output_chars'', JInt output_chars)] @ details)"

definition semantic_compaction_started_event :: "int \<Rightarrow> int \<Rightarrow> trace_event" where
  "semantic_compaction_started_event source_steps input_chars =
     (''semantic_compaction_started'', [(''source_steps'', JInt source_steps), (''input_chars'', JInt input_chars)])"

definition semantic_compaction_finished_event :: "int \<Rightarrow> int \<Rightarrow> int \<Rightarrow> jdict \<Rightarrow> trace_event" where
  "semantic_compaction_finished_event source_steps input_chars summary_chars usage =
     (''semantic_compaction_finished'',
      [(''source_steps'', JInt source_steps), (''input_chars'', JInt input_chars), (''summary_chars'', JInt summary_chars), (''usage'', JDict usage)])"

definition semantic_compaction_failed_event :: "string \<Rightarrow> trace_event" where
  "semantic_compaction_failed_event err = (''semantic_compaction_failed'', [(''error'', JStr err)])"

definition memory_reference_captured_event :: "jdict \<Rightarrow> trace_event" where
  "memory_reference_captured_event reference = (''memory_reference_captured'', [(''reference'', JDict reference)])"

definition memory_reference_rejected_event :: "jdict \<Rightarrow> trace_event" where
  "memory_reference_rejected_event rejection = (''memory_reference_rejected'', rejection)"

definition working_memory_captured_event :: "string \<Rightarrow> int \<Rightarrow> trace_event" where
  "working_memory_captured_event path item_count = (''working_memory_captured'', [(''path'', JStr path), (''item_count'', JInt item_count)])"

definition working_memory_injected_event :: "string \<Rightarrow> jdict list \<Rightarrow> trace_event" where
  "working_memory_injected_event source_run_id items =
     (''working_memory_injected'',
      [(''source_run_id'', JStr source_run_id), (''item_count'', JInt (int (length items))),
       (''references'', JList (map (\<lambda>item. JDict [(''path'', jget item ''path''), (''line_start'', jget item ''line_start''),
          (''line_end'', jget item ''line_end'')]) items))])"

definition approval_requested_event :: "string \<Rightarrow> trace_event" where
  "approval_requested_event question = (''approval_requested'', [(''question'', JStr question)])"

definition approval_resolved_event :: "string \<Rightarrow> string \<Rightarrow> trace_event" where
  "approval_resolved_event outcome reason = (''approval_resolved'', [(''approval_status'', JStr outcome), (''reason'', JStr reason)])"

definition checkpoint_created_event :: "string \<Rightarrow> string \<Rightarrow> trace_event" where
  "checkpoint_created_event cid reason = (''checkpoint_created'', [(''checkpoint_id'', JStr cid), (''reason'', JStr reason)])"

definition checkpoint_restored_event :: "string \<Rightarrow> trace_event" where
  "checkpoint_restored_event cid = (''checkpoint_restored'', [(''checkpoint_id'', JStr cid)])"

definition run_resumed_event :: "run_state \<Rightarrow> int \<Rightarrow> trace_event" where
  "run_resumed_event st n = (''run_resumed'', [(''trajectory_steps'', JInt n), (''resume_count'', JInt (resume_count st))])"

definition run_interrupted_event :: "int \<Rightarrow> trace_event" where
  "run_interrupted_event n = (''run_interrupted'', [(''trajectory_steps'', JInt n)])"

definition run_completed_event :: "run_state \<Rightarrow> trace_event" where
  "run_completed_event st = (''run_completed'', [(''final_answer'', opt_str (final_answer st))])"

definition run_failed_event :: "run_state \<Rightarrow> trace_event" where
  "run_failed_event st = (''run_failed'', [(''state_summary'', JStr (state_summary st))])"

definition trace_path_for :: "run_state \<Rightarrow> string option" where
  "trace_path_for st = map_option (\<lambda>d. d @ ''/trace.jsonl'') (run_dir st)"

section \<open>The trace is a log of its events\<close>

text \<open>No line end but those JSON escapes, in any text or key.\<close>

fun one_line_json :: "json \<Rightarrow> bool" where
  "one_line_json (JStr s) = one_line s"
| "one_line_json (JList vs) = (\<forall>v \<in> set vs. one_line_json v)"
| "one_line_json (JDict kvs) = (\<forall>kv \<in> set kvs. one_line (fst kv) \<and> one_line_json (snd kv))"
| "one_line_json _ = True"

definition event_ok :: "jdict \<Rightarrow> bool" where
  "event_ok ev = (plain (JDict ev) \<and> one_line_json (JDict ev))"

definition trace_stands :: "string \<Rightarrow> jdict list \<Rightarrow> bool" where
  "trace_stands t es = (t = concat (map event_line es) \<and> list_all event_ok es)"

lemma char_in_join: "x \<in> set (join sep ss) \<Longrightarrow> x \<in> set sep \<or> (\<exists>s \<in> set ss. x \<in> set s)"
  by (induction ss rule: join.induct) auto

lemma dumps_one_line: "plain v \<Longrightarrow> one_line_json v \<Longrightarrow> x \<in> set (dumps v) \<Longrightarrow> \<not> is_line_end x"
proof (induction v arbitrary: x)
  case (JList vs)
  have "\<forall>y \<in> {CHR ''['', CHR '']'', CHR '','', CHR '' ''}. \<not> is_line_end y" by (simp add: is_line_end_def)
  moreover from JList.prems(3) have "x \<in> {CHR ''['', CHR '']'', CHR '','', CHR '' ''} \<or> (\<exists>v \<in> set vs. x \<in> set (dumps v))"
    using char_in_join [of x "'', ''" "map dumps vs"] by auto
  ultimately show ?case using JList.IH JList.prems(1,2) by auto
next
  case (JDict kvs)
  have "\<forall>y \<in> {CHR ''{'', CHR ''}'', CHR '','', CHR '' '', CHR '':''}. \<not> is_line_end y" by (simp add: is_line_end_def)
  moreover from JDict.prems(3) have "x \<in> {CHR ''{'', CHR ''}'', CHR '','', CHR '' '', CHR '':''} \<or>
      (\<exists>(k, v) \<in> set kvs. x \<in> set (dumps_str k) \<or> x \<in> set (dumps v))"
    using char_in_join [of x "'', ''" "map (\<lambda>(k, v). dumps_str k @ '': '' @ dumps v) kvs"] by fastforce
  ultimately show ?case using JDict.IH JDict.prems(1,2) dumps_str_line by fastforce
next
  case (JInt n)
  then show ?case using str_int_line by auto
next
  case (JStr s)
  then show ?case using dumps_str_line by auto
qed (auto simp: is_line_end_def split: if_splits)

lemma event_text: "event_ok ev \<Longrightarrow> \<forall>x \<in> set (dumps (JDict ev)). \<not> is_line_end x"
  using dumps_one_line by (auto simp: event_ok_def simp del: dumps.simps plain.simps one_line_json.simps)

lemma trace_lines: "list_all event_ok es \<Longrightarrow> splitlines (concat (map event_line es)) = map (\<lambda>ev. dumps (JDict ev)) es"
proof (induction es)
  case Nil
  then show ?case by (simp add: splitlines_def)
next
  case (Cons ev es)
  then show ?case using splitlines_line [OF event_text, of ev] by (simp add: event_line_def del: dumps.simps)
qed

lemma event_read: "event_ok ev \<Longrightarrow> json_loads (dumps (JDict ev)) = Inr (JDict ev)" "strip (dumps (JDict ev)) \<noteq> []"
  by (simp_all add: event_ok_def loads_dumps strip_id stripped_dumps_dict del: dumps.simps plain.simps) simp

lemma strict_events_read: "list_all event_ok es \<Longrightarrow> strict_events n (map (\<lambda>ev. dumps (JDict ev)) es) = Inr es"
  by (induction es arbitrary: n) (simp_all add: event_read del: dumps.simps)

interpretation trace_log: append_log trace_stands "\<lambda>t. strict_events 1 (splitlines t)" "\<lambda>ev t. t @ event_line ev" event_ok "[]"
  by unfold_locales (simp_all add: trace_stands_def trace_lines strict_events_read del: dumps.simps)

section \<open>What recorders write\<close>

definition numbered :: "jdict list \<Rightarrow> bool" where
  "numbered es = (map (\<lambda>ev. jget ev ''sequence'') es = map (JInt \<circ> int) [1..<Suc (length es)])"

text \<open>The recorder stands behind the events of its file.\<close>

definition recorded :: "path \<Rightarrow> jdict list \<Rightarrow> recorder \<times> tree \<Rightarrow> bool" where
  "recorded p es = (\<lambda>(r, t). rec_path r = Some p \<and> rec_sequence r = int (length es) \<and> trace_stands (file_text t p) es \<and>
     numbered es \<and> (es \<noteq> [] \<longrightarrow> is_file t p))"

text \<open>What a call may say: JSON that prints on one line, and nothing in place of the number.\<close>

fun call_ok :: "trace_call \<Rightarrow> bool" where
  "call_ok (name, st, created, payload) =
     (one_line name \<and> one_line created \<and> (case st of None \<Rightarrow> True | Some s \<Rightarrow> one_line (run_id s) \<and> one_line (status s)) \<and>
      event_ok payload \<and> ''sequence'' \<notin> fst ` set payload)"

lemma fold_update_set: "set (fold (\<lambda>(k, v). AList.update k v) xs d) \<subseteq> set xs \<union> set d"
proof (induction xs arbitrary: d)
  case (Cons x xs)
  have "set (AList.update k v d) \<subseteq> insert (k, v) (set d)" for k v
    by (induction d) auto
  then show ?case using Cons [of "AList.update (fst x) (snd x) d"] by (cases x) fastforce
qed simp

lemma fold_update_distinct_keys: "distinct_keys d \<Longrightarrow> distinct_keys (fold (\<lambda>(k, v). AList.update k v) xs d)"
  by (induction xs arbitrary: d) (auto simp: distinct_update)

lemma fold_update_other: "k \<notin> fst ` set xs \<Longrightarrow> map_of (fold (\<lambda>(k, v). AList.update k v) xs d) k = map_of d k"
  by (induction xs arbitrary: d) (auto simp: update_conv')

lemma event_of_number:
  assumes "call_ok (name, st, created, payload)"
  shows "jget (event_of name st created payload n) ''sequence'' = JInt n"
  using assms by (simp add: event_of_def jget_def fold_update_other)

lemma event_of_ok:
  assumes "call_ok (name, st, created, payload)" "plain (JInt n)"
  shows "event_ok (event_of name st created payload n)"
proof -
  let ?base = "[(''event'', JStr name), (''trace_schema_version'', JInt 1), (''sequence'', JInt n), (''created_at'', JStr created)] @
        (case st of None \<Rightarrow> [] | Some s \<Rightarrow> [(''run_id'', JStr (run_id s)), (''status'', JStr (status s))])"
  have one: "plain (JInt 1)" by code_simp
  have base: "distinct_keys ?base" "\<forall>kv \<in> set ?base. plain (snd kv) \<and> one_line (fst kv) \<and> one_line_json (snd kv)"
    using assms one by (auto simp: one_line_def split: option.splits simp del: plain.simps(2))
  have "\<forall>kv \<in> set payload. plain (snd kv) \<and> one_line (fst kv) \<and> one_line_json (snd kv)" using assms(1) by (auto simp: event_ok_def)
  then have "\<forall>kv \<in> set (event_of name st created payload n). plain (snd kv) \<and> one_line (fst kv) \<and> one_line_json (snd kv)"
    using base(2) fold_update_set [of payload ?base] unfolding event_of_def by blast
  moreover have "distinct_keys (event_of name st created payload n)"
    unfolding event_of_def by (rule fold_update_distinct_keys [OF base(1)])
  ultimately show ?thesis by (simp add: event_ok_def)
qed

lemma plain_room: "room n \<Longrightarrow> plain (JInt (int n))"
  using digits_bound [OF _ some_digits, of n] by (simp add: room_def)

lemma numbered_snoc: "numbered es \<Longrightarrow> jget ev ''sequence'' = JInt (int (Suc (length es))) \<Longrightarrow> numbered (es @ [ev])"
  by (simp add: numbered_def)

lemma record_event_recorded:
  assumes "recorded p es rt" "call_ok c" "room (Suc (length es))" "p \<noteq> []"
  shows "\<exists>ev. recorded p (es @ [ev]) (record_event c rt)"
proof -
  obtain name st created payload where c: "c = (name, st, created, payload)" by (cases c)
  obtain r t where rt: "rt = (r, t)" by fastforce
  let ?ev = "event_of name st created payload (rec_sequence r + 1)"
  have number: "rec_sequence r + 1 = int (Suc (length es))" using assms(1) by (simp add: recorded_def rt)
  have ok: "event_ok ?ev"
    using assms(2) plain_room [OF assms(3)] unfolding c number by (rule event_of_ok)
  have stands: "trace_stands (file_text t p @ event_line ?ev) (es @ [?ev])"
    using assms(1) ok by (intro trace_log.stands_add) (simp_all add: recorded_def rt)
  have above: "\<not> prefix p (butlast p)" using assms(4) prefix_length_le [of p "butlast p"] by (cases p rule: rev_cases) auto
  then have "file_text (make_dirs (butlast p) t) p = file_text t p" by (simp add: file_text_def tree_simps)
  moreover have "numbered (es @ [?ev])"
    using assms(1,2) number by (intro numbered_snoc) (simp_all add: recorded_def rt c event_of_number del: call_ok.simps)
  ultimately have "recorded p (es @ [?ev]) (record_event c rt)"
    using assms(1) stands by (simp add: recorded_def rt c Let_def append_text_def file_text_def is_file_def tree_simps)
  then show ?thesis ..
qed

definition record_all :: "trace_call list \<Rightarrow> recorder \<times> tree \<Rightarrow> recorder \<times> tree" where
  "record_all cs rt = fold record_event cs rt"

lemma record_all_recorded:
  assumes "recorded p es rt" "list_all call_ok cs" "room (length es + length cs)" "p \<noteq> []"
  shows "\<exists>new. length new = length cs \<and> recorded p (es @ new) (record_all cs rt)"
  using assms
proof (induction cs arbitrary: es rt)
  case (Cons c cs)
  have "room (Suc (length es))" using Cons.prems(3) by (simp add: room_def)
  then obtain ev where "recorded p (es @ [ev]) (record_event c rt)"
    using record_event_recorded [of p es rt c] Cons.prems by auto
  then obtain new where "length new = length cs" "recorded p ((es @ [ev]) @ new) (record_all cs (record_event c rt))"
    using Cons.IH [of "es @ [ev]" "record_event c rt"] Cons.prems by auto
  then show ?case by (intro exI [of _ "ev # new"]) (simp add: record_all_def)
qed (simp add: record_all_def)

lemma scan_numbered:
  "list_all event_ok es \<Longrightarrow> map (\<lambda>ev. jget ev ''sequence'') es = map (JInt \<circ> int) [i..<i + length es] \<Longrightarrow> 0 < i \<Longrightarrow>
   scan_trace i (int i - 1) (map (\<lambda>ev. dumps (JDict ev)) es) = Inr (int i - 1 + int (length es))"
proof (induction es arbitrary: i)
  case (Cons ev es)
  have split: "[i..<i + length (ev # es)] = i # [Suc i..<Suc i + length es]" by (subst upt_conv_Cons) simp_all
  have "jget ev ''sequence'' = JInt (int i)" "map (\<lambda>ev. jget ev ''sequence'') es = map (JInt \<circ> int) [Suc i..<Suc i + length es]"
    using Cons.prems(2) unfolding split by simp_all
  moreover from this have "event_number i ev = Inr (int i)" by (auto simp: event_number_def jget_or_def jget_def split: option.splits)
  ultimately show ?case using Cons.IH [of "Suc i"] Cons.prems by (simp add: event_read del: dumps.simps)
qed simp

lemma open_recorded:
  assumes "trace_stands (file_text t p) es" "numbered es" "is_file t p \<or> map_of t p = None \<and> es = []"
  shows "\<exists>r. open_recorder (Some p) capture [] t = Inr r \<and> recorded p es (r, t)"
proof -
  have "scan_trace 1 0 (splitlines (file_text t p)) = Inr (int (length es))"
    using assms(1,2) scan_numbered [of es 1] by (simp add: trace_stands_def trace_lines numbered_def)
  then show ?thesis using assms by (auto simp: open_recorder_def recorded_def file_text_def is_file_def)
qed

lemma numbered_rising:
  assumes "numbered es"
  shows "rising (sequence_numbers es)"
proof -
  have "sequence_numbers es = List.map_filter number_of (map (\<lambda>ev. jget ev ''sequence'') es)"
    by (simp add: sequence_numbers_def List.map_filter_def filter_map o_def)
  also have "\<dots> = map (\<lambda>i. Fin (of_int (int i))) [1..<Suc (length es)]"
    unfolding assms [unfolded numbered_def] by (simp add: List.map_filter_def o_def)
  finally have eq: "sequence_numbers es = map (\<lambda>i. Fin (of_int (int i))) [1..<Suc (length es)]" .
  have "sorted_wrt (\<lambda>i j. i < j) [1..<Suc (length es)]" by (rule sorted_wrt_upt)
  then show ?thesis by (simp add: rising_def eq sorted_wrt_map not_le del: upt_Suc)
qed


text \<open>A run that starts.\<close>

definition first_calls :: "trace_call list" where
  "first_calls = [(''run_started'', None, ''noon'', [(''goal'', JStr ''fix it'')])]"


end
