(* ===== verification/Transcript.thy ===== *)
theory Transcript
  imports Replay
begin

text \<open>
  The transcript (\<^verbatim>\<open>trace/transcript.py\<close>): the projection of a trace for a human reader, with secrets taken
  out, and its rendering as Markdown.

  Results: what a record says of its action and of its observation went through the redaction, and
  redacted text holds no secret: wherever one of the names stands before an equals sign, the value is
  the placeholder.
\<close>

section \<open>Redaction\<close>

text \<open>\<^verbatim>\<open>(?i)(api[_-]?key|token|password|secret)=([^\s&]+)\<close>. At most one of the names matches at a position, so the
  search for the leftmost match is a walk along the text.\<close>

definition secret_names :: "string list" where
  "secret_names = [''api_key'', ''api-key'', ''apikey'', ''token'', ''password'', ''secret'']"

definition value_char :: "char \<Rightarrow> bool" where
  "value_char c = (\<not> is_space c \<and> c \<noteq> CHR ''&'')"

definition secret_at :: "string \<Rightarrow> (string \<times> string) option" where \<comment> \<open>the name and the value\<close>
  "secret_at s =
     (case find (\<lambda>k. startswith (lower s) (k @ ''='')) secret_names of
        None \<Rightarrow> None
      | Some k \<Rightarrow>
          (let v = takeWhile value_char (drop (Suc (length k)) s)
           in if v = [] then None else Some (take (length k) s, v)))"

definition placeholder :: string where "placeholder = ''[REDACTED]''"

function redact_text :: "string \<Rightarrow> string" where
  "redact_text s =
     (case secret_at s of
        Some (k, v) \<Rightarrow> k @ ''='' @ placeholder @ redact_text (drop (Suc (length k + length v)) s)
      | None \<Rightarrow> (case s of [] \<Rightarrow> [] | c # r \<Rightarrow> c # redact_text r))"
  by pat_completeness auto
termination
proof (relation "measure length")
  fix s and kv :: "string \<times> string" and k v
  assume "secret_at s = Some kv" "(k, v) = kv"
  then have "s \<noteq> []" by (auto simp: secret_at_def Let_def split: option.splits if_splits)
  then show "(drop (Suc (length k + length v)) s, s) \<in> measure length" by simp
qed auto

declare redact_text.simps [simp del]

definition secret_keys :: "string list" where
  "secret_keys = [''authorization'', ''api_key'', ''token'', ''password'', ''secret'']"

fun redact :: "json \<Rightarrow> json" where
  "redact (JStr s) = JStr (redact_text s)"
| "redact (JDict kvs) = JDict (map (\<lambda>(k, v). (k, redact v)) (filter (\<lambda>(k, v). lower k \<notin> set secret_keys) kvs))"
| "redact (JList vs) = JList (map redact vs)"
| "redact v = v"

section \<open>The projection\<close>

definition projected_events :: "string list" where
  "projected_events =
     [''run_started'', ''run_completed'', ''run_failed'', ''run_interrupted'', ''action_started'', ''tool/call'', ''tool/result'',
      ''observation_created'', ''policy_decision'', ''child_start'', ''child_result'', ''workflow_summary_observation'']"

record projector =
  pj_root :: string
  pj_records :: "jdict list"
  pj_turn :: nat
  pj_seq :: nat

definition truncated :: "string \<Rightarrow> nat \<Rightarrow> string" where \<comment> \<open>\<^verbatim>\<open>_truncate\<close>\<close>
  "truncated s limit =
     (if length s \<le> limit then s
      else rstrip (take limit s) @ [nl] @ ''... [truncated '' @ str_nat (length s - limit) @ '' chars]'')"

definition kind_of :: "string \<Rightarrow> string" where \<comment> \<open>\<^verbatim>\<open>_kind\<close>\<close>
  "kind_of name =
     (if name \<in> {''action_started'', ''tool/call''} then ''action''
      else if name \<in> {''tool/result'', ''observation_created''} then ''observation''
      else if name = ''child_start'' then ''child_start''
      else if name = ''child_result'' then ''child_end''
      else if name = ''workflow_summary_observation'' then ''summary''
      else if name = ''policy_decision'' then ''policy'' else ''status'')"

text \<open>\<^verbatim>\<open>str.title()\<close>. The capitals of \<^verbatim>\<open>0xB5\<close> and \<^verbatim>\<open>0xFF\<close> are no characters of the model; these two stay.\<close>

definition cased :: "char \<Rightarrow> bool" where
  "cased c = (let n = ord c in
     (65 \<le> n \<and> n \<le> 90) \<or> (97 \<le> n \<and> n \<le> 122) \<or> n \<in> {170, 181, 186} \<or> (192 \<le> n \<and> n \<noteq> 215 \<and> n \<noteq> 247))"

definition title_char :: "char \<Rightarrow> string" where
  "title_char c = (let n = ord c in
     if (97 \<le> n \<and> n \<le> 122) \<or> (224 \<le> n \<and> n \<le> 254 \<and> n \<noteq> 247) then [char_of (n - 32)] else if n = 223 then ''Ss'' else [c])"

fun title_from :: "bool \<Rightarrow> string \<Rightarrow> string" where
  "title_from mid [] = []"
| "title_from mid (c # s) = (if mid then [lower_char c] else title_char c) @ title_from (cased c) s"

definition intent_of :: "jdict option \<Rightarrow> string \<Rightarrow> jdict \<Rightarrow> string \<times> json" where \<comment> \<open>\<^verbatim>\<open>_intent\<close>\<close>
  "intent_of action name event =
     (case action of
        Some (kv # rest) \<Rightarrow>
          (let a = kv # rest; p = jget a ''purpose''; purpose = (if truthy p then p else jget a ''description'')
           in (case nonblank_str (jget a ''intent'') of
                 Some s \<Rightarrow> (strip s, JStr ''model_intent'')
               | None \<Rightarrow>
                   (case nonblank_str purpose of
                      Some s \<Rightarrow> (strip s, JStr ''model_intent'')
                    | None \<Rightarrow>
                        (let t = py_str (jget_or a ''type'' (JStr ''action''))
                         in (if t = ''bash'' then ''Run a workspace command'' else if t = ''final'' then ''Deliver the final answer''
                             else title_from False (replace_char (CHR ''_'') (CHR '' '') t), JStr ''derived_summary'')))))
      | _ \<Rightarrow>
          (if name = ''tool/call'' then (''Use '' @ py_str (jget_or event ''tool'' (JStr ''tool'')), JStr ''derived_summary'') else ([], JNull)))"

text \<open>The parts of an action that are shown.\<close>

definition shown_action :: "jdict \<Rightarrow> jdict" where
  "shown_action a =
     [(''type'', jget a ''type'')] @
     List.map_filter (\<lambda>k. if has_key a k then Some (k, jget a k) else None) [''purpose'', ''question'', ''name'', ''join''] @
     (case jget a ''command'' of JStr c \<Rightarrow> [(''command'', JStr (truncated c 800))] | _ \<Rightarrow> []) @
     (case jget a ''tasks'' of
        JList ts \<Rightarrow>
          if jget a ''type'' = JStr ''delegate'' then
            [(''tasks'', JList (List.map_filter (\<lambda>t. case t of
                JDict d \<Rightarrow> Some (JDict (map (\<lambda>k. (k, jget d k)) [''id'', ''role'', ''goal''])) | _ \<Rightarrow> None) ts))]
          else []
      | _ \<Rightarrow> []) @
     (if jget a ''type'' = JStr ''final'' then [(''answer'', JStr (truncated (py_str (jget_or a ''answer'' (JStr []))) 4000))] else [])"

definition action_summary :: "jdict option \<Rightarrow> jdict \<Rightarrow> json" where \<comment> \<open>\<^verbatim>\<open>_action_summary\<close>\<close>
  "action_summary action event =
     (case action of
        Some a \<Rightarrow> redact (JDict (shown_action a))
      | None \<Rightarrow>
          if is_event ''tool/call'' event then
            redact (JDict [(''type'', JStr ''tool''), (''tool'', jget event ''tool''), (''call_id'', jget event ''call_id''), (''arguments'', jget event ''arguments'')])
          else JNull)"

definition bounded_mapping :: "jdict \<Rightarrow> jdict" where \<comment> \<open>\<^verbatim>\<open>_bounded_mapping\<close>\<close>
  "bounded_mapping d =
     map (\<lambda>(k, v). (k, case v of JStr s \<Rightarrow> JStr (truncated s 1200) | _ \<Rightarrow> v))
       (filter (\<lambda>(k, v). k \<notin> {''response_preview'', ''stdout_preview'', ''stderr_preview'', ''cacheability'', ''event'', ''created_at''}) d)"

definition newlines :: "string \<Rightarrow> nat" where
  "newlines s = length (filter (\<lambda>c. c = nl) s)"

definition observed :: "jdict \<Rightarrow> json result" where \<comment> \<open>the summary of an observation\<close>
  "observed raw =
     (let stdout = py_str (jget_or raw ''stdout_preview'' (JStr [])); stderr = py_str (jget_or raw ''stderr_preview'' (JStr []))
      in bind_res (in_str_set (jget raw ''kind'') [''protocol_error'', ''command_error'']) (\<lambda>failed.
         bind_res (in_str_set (jget raw ''kind'') [''command_result'', ''no_output'']) (\<lambda>success.
         bind_res (iter_json (jget_or raw ''artifact_ids'' (JList []))) (\<lambda>ids.
           Inr (redact (JDict
             [(''kind'', jget raw ''kind''), (''success'', JBool success), (''exit_code'', jget raw ''exit_code''),
              (''message'', jget_or raw ''message'' (JStr [])), (''duration_ms'', jget_or raw ''duration_ms'' (JInt 0)),
              (''output_chars'', JInt (int (length stdout + length stderr))),
              (''output_lines'', JInt (if stdout = [] \<and> stderr = [] then 0 else int (newlines stdout + newlines stderr + 1))),
              (''preview'', JStr (truncated (if failed \<and> stderr \<noteq> [] then stderr else stdout) 1200)), (''artifact_ids'', JList ids)]))))))"

definition either :: "json \<Rightarrow> json \<Rightarrow> json" where \<comment> \<open>\<^verbatim>\<open>a or b\<close>\<close>
  "either v w = (if truthy v then v else w)"

definition observation_summary :: "jdict \<Rightarrow> json result" where \<comment> \<open>\<^verbatim>\<open>_observation_summary\<close>\<close>
  "observation_summary event =
     (let name = py_str (jget_or event ''event'' (JStr []))
      in if name = ''policy_decision'' then
           Inr (redact (JDict [(''kind'', JStr ''policy_decision''), (''decision'', jget event ''decision_type''), (''policy'', jget event ''policy_name''),
             (''message'', jget event ''reason'')]))
         else if name = ''tool/result'' then
           (let failed = truthy (jget event ''is_error'')
            in Inr (JDict [(''kind'', JStr (if failed then ''tool_error'' else ''tool_result'')), (''success'', JBool (\<not> failed)),
                 (''duration_ms'', jget_or event ''duration_ms'' (JInt 0)),
                 (''preview'', JStr (truncated (dumps (redact (jget event ''content''))) 1200))]))
         else
           (case jget event ''observation'' of
              JDict raw \<Rightarrow> observed raw
            | v \<Rightarrow>
                if name \<in> {''run_started'', ''run_completed'', ''run_failed'', ''run_interrupted''} then
                  Inr (redact (JDict [(''status'', JStr (drop 4 name)), (''goal'', jget event ''goal''),
                    (''message'', either (jget event ''state_summary'') (jget event ''final_answer''))]))
                else if name \<in> {''child_start'', ''child_result'', ''workflow_summary_observation''} then
                  Inr (case either (jget event ''result'') (either v (JDict event)) of
                         JDict d \<Rightarrow> redact (JDict (bounded_mapping d)) | _ \<Rightarrow> JNull)
                else Inr JNull))"

definition project_event :: "jdict \<Rightarrow> projector \<Rightarrow> (jdict \<times> projector) result" where
  "project_event event pj =
     (let n = Suc (pj_seq pj);
          name = py_str (jget_or event ''event'' (JStr ''status''));
          turn = (if name = ''action_started'' \<and> pj_turn pj = 0 then 1 else pj_turn pj);
          action = (case jget event ''action'' of JDict a \<Rightarrow> Some a | _ \<Rightarrow> None);
          (intent, intent_kind) = intent_of action name event;
          kind = kind_of name
      in bind_res (iter_json (jget_or event ''links'' (JList []))) (\<lambda>links.
         bind_res (observation_summary event) (\<lambda>seen.
           let rec = [(''schema_version'', JInt 1), (''root_run_id'', either (JStr (pj_root pj)) (jget_or event ''run_id'' (JStr []))),
                (''run_id'', jget_or event ''run_id'' (JStr [])), (''parent_run_id'', jget event ''parent_run_id''), (''workflow_id'', jget event ''workflow_id''),
                (''task_id'', jget event ''task_id''), (''role'', jget event ''role''),
                (''turn_id'', either (jget event ''turn_id'') (if turn \<noteq> 0 \<and> kind \<noteq> ''status'' then JStr (''turn-'' @ str_nat turn) else JNull)),
                (''step_id'', jget event ''step_id''), (''span_id'', jget event ''span_id''), (''parent_span_id'', jget event ''parent_span_id''),
                (''kind'', JStr kind), (''event'', JStr name), (''timestamp'', jget event ''created_at''), (''intent'', JStr intent), (''intent_kind'', intent_kind),
                (''action'', action_summary action event), (''observation'', seen),
                (''links'', JList (links @ [JStr (''trace://trace.jsonl#event='' @ str_nat n)]))]
           in Inr (rec, pj\<lparr>pj_records := pj_records pj @ [rec], pj_turn := turn, pj_seq := n\<rparr>))))"

fun project :: "jdict list \<Rightarrow> projector \<Rightarrow> (jdict list \<times> projector) result" where
  "project [] pj = Inr ([], pj)"
| "project (event # events) pj =
     (let name = py_str (jget_or event ''event'' (JStr []))
      in if name = ''prompt_built'' then project events (pj\<lparr>pj_turn := Suc (pj_turn pj)\<rparr>)
         else if name \<notin> set projected_events \<or> name = ''policy_decision'' \<and> jget event ''decision_type'' = JStr ''allow'' then project events pj
         else
           bind_res (project_event event pj) (\<lambda>(rec, pj1). bind_res (project events pj1) (\<lambda>(recs, pj2). Inr (rec # recs, pj2))))"

section \<open>The Markdown rendering\<close>

definition dict_at :: "jdict \<Rightarrow> string \<Rightarrow> jdict" where \<comment> \<open>the dict at a key, or an empty one\<close>
  "dict_at r k = (case jget r k of JDict d \<Rightarrow> d | _ \<Rightarrow> [])"

definition count_of :: "jdict \<Rightarrow> string \<Rightarrow> int \<Rightarrow> int result" where \<comment> \<open>\<^verbatim>\<open>int(d.get(k) or n)\<close>\<close>
  "count_of d k n = int_of_json (either (jget d k) (JInt n))"

definition same_trouble :: "jdict \<Rightarrow> jdict \<Rightarrow> bool" where
  "same_trouble r previous =
     (jget previous ''kind'' = JStr ''observation'' \<and>
      (case (jget r ''observation'', jget previous ''observation'') of
         (JDict a, JDict b) \<Rightarrow> json_eq (jget a ''kind'') (jget b ''kind'') \<and> json_eq (jget a ''message'') (jget b ''message'')
       | _ \<Rightarrow> False))"

definition is_trouble :: "jdict \<Rightarrow> bool" where
  "is_trouble r =
     (jget r ''kind'' = JStr ''observation'' \<and> (case jget r ''observation'' of JDict d \<Rightarrow> \<not> truthy (jget d ''success'') | _ \<Rightarrow> False))"

text \<open>The records collected so far are in reverse, the latest first.\<close>

fun collapse_from :: "jdict list \<Rightarrow> jdict list \<Rightarrow> jdict list result" where
  "collapse_from acc [] = Inr (rev acc)"
| "collapse_from [] (r # rs) = collapse_from [r] rs"
| "collapse_from (previous # acc) (r # rs) =
     (if is_trouble r \<and> same_trouble r previous then
        bind_res (count_of previous ''repeat_count'' 1) (\<lambda>n.
          collapse_from (AList.update ''repeat_last_turn'' (jget r ''turn_id'') (AList.update ''repeat_count'' (JInt (n + 1)) previous) # acc) rs)
      else collapse_from (r # previous # acc) rs)"

definition collapse_repeated_errors :: "jdict list \<Rightarrow> jdict list result" where
  "collapse_repeated_errors rs = collapse_from [] rs"

definition fixed2_signed :: "rat \<Rightarrow> string" where
  "fixed2_signed x = (if x < 0 then CHR ''-'' # fixed2 (- x) else fixed2 x)"

definition duration_text :: "json \<Rightarrow> string result" where \<comment> \<open>\<^verbatim>\<open>_duration\<close>\<close>
  "duration_text v =
     (case int_of_json (either v (JInt 0)) of
        Inl TypeError \<Rightarrow> Inr []
      | Inl (ValueError _) \<Rightarrow> Inr []
      | Inl err \<Rightarrow> Inl err
      | Inr ms \<Rightarrow>
          if ms = 0 then Inr []
          else bind_res (int_div ms 1000) (\<lambda>x. Inr ('' in '' @ (case x of Fin q \<Rightarrow> fixed2_signed q | _ \<Rightarrow> []) @ ''s'')))"

text \<open>\<^verbatim>\<open>f"{n:,}"\<close>: the digits in groups of three.\<close>

fun grouped :: "nat \<Rightarrow> string \<Rightarrow> string" where \<comment> \<open>of the reversed digits\<close>
  "grouped n [] = []"
| "grouped n (c # s) = (if n = 3 then CHR '','' # c # grouped 1 s else c # grouped (Suc n) s)"

definition thousands :: "int \<Rightarrow> string" where
  "thousands n = (if n < 0 then ''-'' else []) @ rev (grouped 0 (rev (str_nat (nat \<bar>n\<bar>))))"

definition output_size :: "jdict \<Rightarrow> string result" where \<comment> \<open>\<^verbatim>\<open>_output_size\<close>\<close>
  "output_size ob =
     bind_res (count_of ob ''output_chars'' 0) (\<lambda>chars.
     bind_res (count_of ob ''output_lines'' 0) (\<lambda>ls.
       Inr (if chars = 0 then [] else ''; '' @ str_int ls @ '' lines, '' @ thousands chars @ '' chars'')))"

definition bold_line :: "string \<Rightarrow> string" where
  "bold_line s = ''**'' @ s @ ''**''"

definition action_lines :: "string \<Rightarrow> jdict \<Rightarrow> string list" where
  "action_lines intent a =
     [if intent = [] then ''**Intent:** Perform the next action'' else ''**Intent:** '' @ intent, [],
      ''**Action:** '' @ ticked (py_str (either (jget a ''type'') (either (jget a ''tool'') (JStr ''action''))))] @
     (if truthy (jget a ''command'') then [[], ''```shell'', py_str (jget a ''command''), ''```''] else []) @
     (case jget a ''tasks'' of
        JList ts \<Rightarrow> List.map_filter (\<lambda>t. case t of
            JDict d \<Rightarrow> Some (''- '' @ ticked (py_str (jget d ''id'')) @ '' ('' @ py_str (jget d ''role'') @ ''): '' @ py_str (jget d ''goal'')) | _ \<Rightarrow> None) ts
      | _ \<Rightarrow> []) @
     (if truthy (jget a ''answer'') then [[], py_str (jget a ''answer'')] else []) @ [[]]"

definition observation_lines :: "jdict \<Rightarrow> jdict \<Rightarrow> string list result" where
  "observation_lines r ob =
     bind_res (duration_text (jget ob ''duration_ms'')) (\<lambda>took.
     bind_res (output_size ob) (\<lambda>size0.
     bind_res (count_of r ''repeat_count'' 1) (\<lambda>n.
       let message = strip (text_or ob ''message'' []); preview = strip (text_or ob ''preview'' []);
           headline = ''**Observation:** '' @ (if truthy (jget ob ''success'') then ''Succeeded'' else ''Failed'') @ took @ size0 @
             (if 1 < n then ''; repeated '' @ str_int n @ '' times through '' @ py_str (jget r ''repeat_last_turn'') else []) @
             (if message \<noteq> [] \<and> message \<notin> {''Command exited successfully.'', ''Ordered tool results.''} then '' - '' @ message else [])
       in Inr ([headline, []] @
            (if preview = [] then []
             else [''<details>'', ''<summary>Output preview</summary>'', [], ''```text'', preview, ''```'', [], ''</details>'', []])))))"

definition format_record :: "jdict \<Rightarrow> string list result" where \<comment> \<open>\<^verbatim>\<open>_format_record\<close>\<close>
  "format_record r =
     (let kind = jget r ''kind''; event = jget r ''event''; a = dict_at r ''action''; ob = dict_at r ''observation'';
          ended = (\<lambda>label. Inr [bold_line label @ (if truthy (jget ob ''message'') then '': '' @ py_str (jget ob ''message'') else []), []]);
          child = (\<lambda>label. Inr [''**'' @ label @ '':** '' @ py_str (either (jget ob ''summary'') (either (jget ob ''status'') (JStr []))), []])
      in if event = JStr ''run_started'' then Inr [''**Run started**'', []]
         else if event = JStr ''run_completed'' then ended ''Run completed''
         else if event = JStr ''run_failed'' then ended ''Run failed''
         else if event = JStr ''run_interrupted'' then ended ''Run interrupted''
         else if kind = JStr ''action'' then Inr (action_lines (text_or r ''intent'' []) a)
         else if kind = JStr ''observation'' then observation_lines r ob
         else if kind = JStr ''policy'' then
           Inr [''**Policy:** '' @ ticked (py_str (jget ob ''decision'')) @ '' by '' @ ticked (py_str (jget ob ''policy'')) @ '' - '' @ py_str (jget ob ''message''), []]
         else if kind = JStr ''child_start'' then child ''Child started''
         else if kind = JStr ''child_end'' then child ''Child finished''
         else if kind = JStr ''summary'' then child ''Workflow Summary''
         else Inr [])"

text \<open>A heading where the turn changes; \<open>active\<close> is the text of the turn before.\<close>

fun timeline :: "string option \<Rightarrow> jdict list \<Rightarrow> string list result" where
  "timeline active [] = Inr []"
| "timeline active (r # rs) =
     (let t = jget r ''turn_id''; new = (truthy t \<and> Some t \<noteq> map_option JStr active)
      in bind_res (format_record r) (\<lambda>ls.
         bind_res (timeline (if new then Some (py_str t) else active) rs) (\<lambda>rest.
           Inr ((if new then [''### '' @ title_from False (replace_char (CHR ''-'') (CHR '' '') (py_str t)), []] else []) @ ls @ rest))))"

fun distinct_values :: "json list \<Rightarrow> json list" where
  "distinct_values [] = []"
| "distinct_values (v # vs) = (if list_ex (json_eq v) vs then distinct_values vs else v # distinct_values vs)"

definition first_with :: "string \<Rightarrow> jdict list \<Rightarrow> json option" where
  "first_with k rs = map_option (\<lambda>r. jget r k) (find (\<lambda>r. truthy (jget r k)) rs)"

definition format_markdown :: "jdict list \<Rightarrow> string result" where \<comment> \<open>\<^verbatim>\<open>_format_markdown\<close>\<close>
  "format_markdown rs =
     (let rid = (case first_with ''run_id'' rs of Some v \<Rightarrow> py_str v | None \<Rightarrow> ''unknown'');
          start = find (is_event ''run_started'') rs;
          final = find (\<lambda>r. is_event ''run_completed'' r \<or> is_event ''run_failed'' r \<or> is_event ''run_interrupted'' r) (rev rs);
          of_obs = (\<lambda>r k. case r of None \<Rightarrow> JNull | Some d \<Rightarrow> jget (dict_at d ''observation'') k);
          goal = either (of_obs start ''goal'') (JStr []); outcome = either (of_obs final ''status'') (JStr ''running'');
          turns = filter truthy (map (\<lambda>r. jget r ''turn_id'') rs);
          actions = length (filter (\<lambda>r. jget r ''kind'' = JStr ''action'') rs)
      in if \<not> list_all hashable turns then Inl TypeError
         else
           bind_res (collapse_repeated_errors rs) (\<lambda>shown.
           bind_res (timeline None shown) (\<lambda>body.
             Inr (join [nl]
               ([''# miniCC Run Transcript'', [], ''## Overview'', [], ''- **Run:** '' @ ticked rid, ''- **Outcome:** '' @ ticked (py_str outcome),
                 ''- **Turns:** '' @ ticked (str_nat (length (distinct_values turns))), ''- **Actions:** '' @ ticked (str_nat actions)] @
                (if truthy goal then [''- **Goal:** '' @ py_str goal] else []) @ [[], ''## Timeline'', []] @ body @
                [''---'', [], ''Full low-level events and unabridged command output remain in `trace.jsonl` and linked artifacts.'', []])))))"

text \<open>Both files; the records are written before the Markdown is made.\<close>

definition write_transcript :: "projector \<Rightarrow> path \<Rightarrow> tree \<Rightarrow> (path \<times> path) result \<times> tree" where
  "write_transcript pj d t =
     (let json_path = d @ [''transcript.jsonl'']; md_path = d @ [''transcript.md''];
          t1 = write_text json_path (concat (map (\<lambda>r. dumps (JDict r) @ [nl]) (pj_records pj))) (make_dirs d t)
      in case format_markdown (pj_records pj) of
           Inl err \<Rightarrow> (Inl err, t1)
         | Inr md \<Rightarrow> (Inr (json_path, md_path), write_text md_path md t1))"

fun trace_dicts :: "string list \<Rightarrow> jdict list result" where
  "trace_dicts [] = Inr []"
| "trace_dicts (l # ls) =
     (case json_loads l of
        Inl (JSONDecodeError m) \<Rightarrow> trace_dicts ls
      | Inl err \<Rightarrow> Inl err
      | Inr (JDict d) \<Rightarrow> bind_res (trace_dicts ls) (\<lambda>ds. Inr (d # ds))
      | Inr _ \<Rightarrow> trace_dicts ls)"

definition project_trace :: "path \<Rightarrow> path option \<Rightarrow> tree \<Rightarrow> (path \<times> path) result \<times> tree" where
  "project_trace p d t =
     (let target = (case d of None \<Rightarrow> butlast p | Some q \<Rightarrow> q);
          events = (if map_of t p = None then Inr [] else if is_dir t p then Inl (RuntimeError ''IsADirectoryError'')
                    else trace_dicts (splitlines (file_text t p)))
      in case bind_res events (\<lambda>es. project es \<lparr>pj_root = [], pj_records = [], pj_turn = 0, pj_seq = 0\<rparr>) of
           Inl err \<Rightarrow> (Inl err, t)
         | Inr (_, pj) \<Rightarrow> write_transcript pj target t)"

section \<open>Redacted text holds no secret\<close>

text \<open>Wherever a name stands before an equals sign and a value, the value is the placeholder.\<close>

fun no_secret :: "string \<Rightarrow> bool" where
  "no_secret [] = True"
| "no_secret (c # s) = ((case secret_at (c # s) of None \<Rightarrow> True | Some (k, v) \<Rightarrow> v = placeholder) \<and> no_secret s)"

fun redacted :: "json \<Rightarrow> bool" where
  "redacted (JStr s) = no_secret s"
| "redacted (JDict kvs) = (\<forall>kv \<in> set kvs. lower (fst kv) \<notin> set secret_keys \<and> redacted (snd kv))"
| "redacted (JList vs) = (\<forall>v \<in> set vs. redacted v)"
| "redacted _ = True"

lemma lower_equals_sign: "lower_char c = CHR ''='' \<longleftrightarrow> c = CHR ''=''"
proof
  assume low: "lower_char c = CHR ''=''"
  have "ord c < 256" using nat_of_char_less_256 [of c] by simp
  then have "lower_char c = c"
    using low by (auto simp: lower_char_def Let_def dest: arg_cong [of _ _ "of_char :: char \<Rightarrow> nat"] split: if_splits)
  then show "c = CHR ''=''" using low by simp
qed (simp add: lower_char_def)

lemma names_plain: "lower k \<in> set secret_names \<Longrightarrow> CHR ''='' \<notin> set k"
proof
  assume "lower k \<in> set secret_names" "CHR ''='' \<in> set k"
  moreover have "lower_char (CHR ''='') = CHR ''=''" by code_simp
  ultimately have "CHR ''='' \<in> set (lower k)" unfolding lower_def set_map by (metis imageI)
  moreover have "\<forall>n \<in> set secret_names. CHR ''='' \<notin> set n" by code_simp
  ultimately show False using \<open>lower k \<in> set secret_names\<close> by blast
qed

lemma names_nonempty: "lower k \<in> set secret_names \<Longrightarrow> k \<noteq> []"
proof
  assume "lower k \<in> set secret_names" "k = []"
  moreover have "[] \<notin> set secret_names" by code_simp
  ultimately show False by (simp add: lower_def)
qed

text \<open>What a secret is: a name, an equals sign, a value that is as long as it can be.\<close>

lemma secret_at_Some:
  assumes "secret_at s = Some (k, v)"
  shows "lower k \<in> set secret_names \<and> v \<noteq> [] \<and> (\<exists>r. s = k @ CHR ''='' # r \<and> v = takeWhile value_char r)"
proof -
  from assms obtain k0 where find: "find (\<lambda>k. startswith (lower s) (k @ ''='')) secret_names = Some k0"
    and v: "v = takeWhile value_char (drop (Suc (length k0)) s)" "v \<noteq> []" "k = take (length k0) s"
    by (auto simp: secret_at_def Let_def split: option.splits if_splits)
  from find have k0: "k0 \<in> set secret_names" "prefix (k0 @ ''='') (lower s)" by (auto simp: find_Some_iff startswith_prefix)
  then obtain u where "map lower_char s = k0 @ CHR ''='' # u" by (auto simp: prefix_def lower_def)
  then obtain a c b where "s = a @ c # b" "k0 = lower a" "lower_char c = CHR ''=''" by (auto simp: map_eq_append_conv map_eq_Cons_conv lower_def)
  then show ?thesis using k0(1) v by (simp add: lower_equals_sign) (simp add: lower_def)
qed

lemma first_split: "xs @ c # ys = xs' @ c # ys' \<Longrightarrow> c \<notin> set xs \<Longrightarrow> c \<notin> set xs' \<Longrightarrow> xs = xs' \<and> ys = ys'"
proof (induction xs arbitrary: xs')
  case Nil
  then show ?case by (cases xs') auto
next
  case (Cons x xs)
  then show ?case by (cases xs') auto
qed

lemma secret_at_found:
  assumes "lower k \<in> set secret_names" "r \<noteq> []" "value_char (hd r)"
  shows "secret_at (k @ CHR ''='' # r) = Some (k, takeWhile value_char r)"
proof -
  let ?s = "k @ CHR ''='' # r"
  have low: "lower ?s = lower k @ CHR ''='' # lower r" by (simp add: lower_def lower_equals_sign [THEN iffD2])
  have plain: "CHR ''='' \<notin> set n" if "n \<in> set secret_names" for n
  proof -
    have "\<forall>n \<in> set secret_names. CHR ''='' \<notin> set n" by code_simp
    then show ?thesis using that by blast
  qed
  have only: "n = lower k" if "n \<in> set secret_names" "startswith (lower ?s) (n @ ''='')" for n
  proof -
    from that(2) obtain u where "lower k @ CHR ''='' # lower r = n @ CHR ''='' # u" unfolding low by (auto simp: startswith_prefix prefix_def)
    then show ?thesis using first_split [OF _ plain [OF assms(1)] plain [OF that(1)]] by blast
  qed
  have "startswith (lower ?s) (lower k @ ''='')" unfolding low by (simp add: startswith_prefix)
  then have "find (\<lambda>n. startswith (lower ?s) (n @ ''='')) secret_names \<noteq> None" using assms(1) by (auto simp only: find_None_iff)
  then obtain n where n: "find (\<lambda>n. startswith (lower ?s) (n @ ''='')) secret_names = Some n" by blast
  then have "n \<in> set secret_names" "startswith (lower ?s) (n @ ''='')" by (auto simp only: find_Some_iff nth_mem)
  then have "find (\<lambda>n. startswith (lower ?s) (n @ ''='')) secret_names = Some (lower k)" using only n by simp
  then show ?thesis using assms(2,3) by (cases r) (simp_all add: secret_at_def lower_def)
qed

lemma redact_text_hd: "(redact_text s = [] \<longleftrightarrow> s = []) \<and> hd (redact_text s) = hd s"
proof (cases "secret_at s")
  case None
  then show ?thesis by (subst (1 2) redact_text.simps) (simp split: list.split)
next
  case (Some kv)
  obtain k v where kv: "kv = (k, v)" by fastforce
  then obtain r where "s = k @ CHR ''='' # r" "k \<noteq> []" using secret_at_Some [of s k v] Some names_nonempty by blast
  then show ?thesis using Some kv by (subst (1 2) redact_text.simps) simp
qed

text \<open>A name before an equals sign in the redacted text stood there before.\<close>

lemma redact_text_keeps:
  "redact_text s = k @ CHR ''='' # x \<Longrightarrow> CHR ''='' \<notin> set k \<Longrightarrow>
   \<exists>y. s = k @ CHR ''='' # y \<and> (x \<noteq> [] \<and> value_char (hd x) \<longrightarrow> y \<noteq> [] \<and> value_char (hd y))"
proof (induction s arbitrary: k rule: redact_text.induct)
  case (1 s)
  show ?case
  proof (cases "secret_at s")
    case None
    obtain c r where s: "s = c # r" using 1(3) redact_text_hd [of s] by (cases s) auto
    have red: "c # redact_text r = k @ CHR ''='' # x" using 1(3) None s by (subst (asm) redact_text.simps) simp
    show ?thesis
    proof (cases k)
      case Nil
      then show ?thesis using red s redact_text_hd [of r] by auto
    next
      case (Cons a k')
      then have "redact_text r = k' @ CHR ''='' # x" "CHR ''='' \<notin> set k'" using red 1(4) by auto
      from 1(1) [OF None s this] show ?thesis using s red Cons by auto
    qed
  next
    case (Some kv)
    obtain k1 v where kv: "kv = (k1, v)" by fastforce
    then obtain r where s: "s = k1 @ CHR ''='' # r" "v = takeWhile value_char r" "v \<noteq> []" "lower k1 \<in> set secret_names"
      using secret_at_Some [of s k1 v] Some by blast
    have "redact_text s = k1 @ CHR ''='' # placeholder @ redact_text (drop (Suc (length k1 + length v)) s)"
      using Some kv by (subst redact_text.simps) simp
    then have "k = k1" using 1(3,4) first_split names_plain [OF s(4)] by metis
    then show ?thesis using s by (cases r) (auto split: if_splits)
  qed
qed

lemma placeholder_lower:
  "lower_char (CHR ''='') = CHR ''=''" "lower_char (CHR ''['') = CHR ''[''" "lower_char (CHR ''R'') = CHR ''r''" "lower_char (CHR ''E'') = CHR ''e''"
  "lower_char (CHR ''D'') = CHR ''d''" "lower_char (CHR ''A'') = CHR ''a''" "lower_char (CHR ''C'') = CHR ''c''" "lower_char (CHR ''T'') = CHR ''t''"
  "lower_char (CHR '']'') = CHR '']''"
  by code_simp+

lemma placeholder_quiet:
  "no_secret R \<Longrightarrow> no_secret (CHR ''='' # placeholder @ R)"
  by (simp add: placeholder_def secret_at_def secret_names_def lower_def placeholder_lower)

lemma marked_quiet:
  "no_secret R \<Longrightarrow> R = [] \<or> \<not> value_char (hd R) \<Longrightarrow> CHR ''='' \<notin> set k \<Longrightarrow> no_secret (k @ CHR ''='' # placeholder @ R)"
proof (induction k)
  case Nil
  then show ?case using placeholder_quiet by simp
next
  case (Cons a k)
  have whole: "list_all value_char placeholder" by code_simp
  have "v = placeholder" if "secret_at ((a # k) @ CHR ''='' # placeholder @ R) = Some (k1, v)" for k1 v
  proof -
    from secret_at_Some [OF that] obtain r where r: "lower k1 \<in> set secret_names"
      "(a # k) @ CHR ''='' # placeholder @ R = k1 @ CHR ''='' # r" "v = takeWhile value_char r" by blast
    then have "r = placeholder @ R" using first_split [OF r(2) Cons.prems(3) names_plain [OF r(1)]] by simp
    then show ?thesis using r(3) whole Cons.prems(2) by (cases R) (auto simp: takeWhile_append2 list_all_iff)
  qed
  then show ?case using Cons by (auto split: option.split)
qed

lemma redact_text_quiet: "no_secret (redact_text s)"
proof (induction s rule: redact_text.induct)
  case (1 s)
  show ?case
  proof (cases "secret_at s")
    case None
    show ?thesis
    proof (cases s)
      case Nil
      then show ?thesis using redact_text_hd [of s] by simp
    next
      case (Cons c r)
      have red: "redact_text s = c # redact_text r" using None Cons by (subst redact_text.simps) simp
      have "secret_at (c # redact_text r) = None"
      proof (rule ccontr)
        assume "secret_at (c # redact_text r) \<noteq> None"
        then obtain k v where "secret_at (redact_text s) = Some (k, v)" using red by auto
        from secret_at_Some [OF this] obtain x where x: "lower k \<in> set secret_names" "redact_text s = k @ CHR ''='' # x"
          "takeWhile value_char x \<noteq> []" by auto
        then have "x \<noteq> []" "value_char (hd x)" by (cases x; auto split: if_splits)+
        with redact_text_keeps [OF x(2) names_plain [OF x(1)]] obtain y where "s = k @ CHR ''='' # y" "y \<noteq> []" "value_char (hd y)" by blast
        then show False using secret_at_found [OF x(1)] None by simp
      qed
      then show ?thesis using red 1(1) [OF None Cons] by simp
    qed
  next
    case (Some kv)
    obtain k v where kv: "kv = (k, v)" by fastforce
    then obtain r where s: "s = k @ CHR ''='' # r" "v = takeWhile value_char r" "lower k \<in> set secret_names"
      using secret_at_Some [of s k v] Some by blast
    have rest: "drop (Suc (length k + length v)) s = dropWhile value_char r"
      using s(1,2) by (simp add: dropWhile_eq_drop)
    have "redact_text s = k @ CHR ''='' # placeholder @ redact_text (dropWhile value_char r)"
      using Some kv rest by (subst redact_text.simps) simp
    moreover have "no_secret (redact_text (dropWhile value_char r))" using 1(2) [OF Some kv [symmetric]] kv rest by simp
    moreover have "redact_text (dropWhile value_char r) = [] \<or> \<not> value_char (hd (redact_text (dropWhile value_char r)))"
      using redact_text_hd [of "dropWhile value_char r"] hd_dropWhile [of value_char r] by metis
    ultimately show ?thesis using marked_quiet names_plain [OF s(3)] by simp
  qed
qed

lemma redact_redacted: "redacted (redact v)"
  by (induction v rule: redact.induct) (auto simp: redact_text_quiet)

section \<open>What a transcript shows\<close>

definition record_clean :: "jdict \<Rightarrow> bool" where
  "record_clean r =
     (redacted (jget r ''action'') \<and>
      (if jget r ''event'' = JStr ''tool/result''
       then (\<exists>c d. redacted c \<and> jget r ''observation'' = JDict d \<and> jget d ''preview'' = JStr (truncated (dumps c) 1200))
       else redacted (jget r ''observation'')))"

lemma action_redacted: "redacted (action_summary a event)"
  by (auto simp: action_summary_def redact_redacted simp del: redact.simps split: option.split)

lemma observed_redacted: "observed raw = Inr v \<Longrightarrow> redacted v"
  by (auto simp: observed_def Let_def redact_redacted simp del: redact.simps)

lemma observation_redacted:
  assumes "observation_summary event = Inr v" "py_str (jget_or event ''event'' (JStr [])) \<noteq> ''tool/result''"
  shows "redacted v"
  using assms observed_redacted
  by (auto simp: observation_summary_def Let_def redact_redacted simp del: redact.simps split: if_splits json.splits)

lemma result_redacted:
  assumes "observation_summary event = Inr v" "py_str (jget_or event ''event'' (JStr [])) = ''tool/result''"
  shows "\<exists>c d. redacted c \<and> v = JDict d \<and> jget d ''preview'' = JStr (truncated (dumps c) 1200)"
  using assms redact_redacted [of "jget event ''content''"] by (auto simp: observation_summary_def Let_def jget_def)

lemma project_event_clean:
  assumes "project_event event pj = Inr (r, pj')" "py_str (jget_or event ''event'' (JStr [])) = py_str (jget_or event ''event'' (JStr ''status''))"
  shows "record_clean r \<and> pj_records pj' = pj_records pj @ [r]"
proof -
  let ?name = "py_str (jget_or event ''event'' (JStr ''status''))"
  from assms(1) obtain seen where seen: "observation_summary event = Inr seen" "pj_records pj' = pj_records pj @ [r]"
    and r: "jget r ''event'' = JStr ?name" "jget r ''observation'' = seen" "\<exists>a. jget r ''action'' = action_summary a event"
    by (fastforce simp: project_event_def Let_def jget_def split: prod.splits)
  then show ?thesis
    using action_redacted observation_redacted [OF seen(1)] result_redacted [OF seen(1)] assms(2) by (auto simp: record_clean_def)
qed

lemma project_clean:
  "project es pj = Inr (recs, pj') \<Longrightarrow> list_all record_clean (pj_records pj) \<Longrightarrow> list_all record_clean (pj_records pj')"
proof (induction es arbitrary: pj recs)
  case (Cons event es)
  let ?name = "py_str (jget_or event ''event'' (JStr []))"
  show ?case
  proof (cases "?name = ''prompt_built'' \<or> ?name \<notin> set projected_events \<or> ?name = ''policy_decision'' \<and> jget event ''decision_type'' = JStr ''allow''")
    case True
    then show ?thesis using Cons by (auto simp: Let_def split: if_splits)
  next
    case False
    then have "?name \<noteq> []" by (auto simp: projected_events_def)
    then have same: "?name = py_str (jget_or event ''event'' (JStr ''status''))" by (auto simp: jget_or_def split: option.splits)
    from Cons.prems(1) False obtain r pj1 rest where "project_event event pj = Inr (r, pj1)" "project es pj1 = Inr (rest, pj')"
      by (auto simp: Let_def split: prod.splits)
    then show ?thesis using Cons.IH Cons.prems(2) project_event_clean [OF _ same] by fastforce
  qed
qed simp


definition sample_secret_trace :: tree where
  "sample_secret_trace =
     [([''r''], DirNode), ([''r'', ''trace.jsonl''], FileNode (dumps (JDict [(''event'', JStr ''tool/call''), (''tool'', JStr ''sh''),
        (''arguments'', JDict [(''token'', JStr ''t''), (''cmd'', JStr ''TOKEN=abc x'')])])))]"

lemma sample_projected: "fst (project_trace [''r'', ''trace.jsonl''] None sample_secret_trace) = Inr ([''r'', ''transcript.jsonl''], [''r'', ''transcript.md''])"
  by code_simp


end
