(* ===== verification/Spec2Isabelle.thy ===== *)
theory Spec2Isabelle
  imports Protocol Regex State Policy Runtime Sandbox Session Skills Memory Guidance Handler Tooling
    Workflow Provider Turns Checkpoint Feedback LongTerm Compaction Context Loop Files Sessions Ledger
    Workspace Evals Replay Recorder Transcript
begin

text \<open>
  minicc (\<^verbatim>\<open>src/src/minicc\<close>) is an agent that works on a software project: it asks a model for the next
  action, checks the action against policies, carries it out in a workspace of its own, records what
  happened and goes on until the model gives a final answer that passes verification. All files named
  below are relative to that directory.

  \<^bold>\<open>The program and its parts.\<close> A run starts with a snapshot of the project (\<^verbatim>\<open>sandbox/workspace.py\<close>). The loop
  (\<^verbatim>\<open>core/loop.py\<close>, \<^verbatim>\<open>core/lifecycle.py\<close>) then repeats a turn: the context builder (\<^verbatim>\<open>core/context.py\<close>, with the
  working and the long-term memory, the feedback rules and the skills) makes the prompt and compacts the
  history when it grows too large; a provider (\<^verbatim>\<open>core/provider.py\<close>, with \<^verbatim>\<open>core/runner.py\<close>, \<^verbatim>\<open>core/retry.py\<close> and
  \<^verbatim>\<open>core/failover.py\<close> around it) answers; the protocol (\<^verbatim>\<open>core/protocol.py\<close>) parses the answer; the handler
  (\<^verbatim>\<open>core/action_handler.py\<close>) sends a command through the policies (\<^verbatim>\<open>policy/\<close>) and the approval gate to an
  executor (\<^verbatim>\<open>sandbox/\<close>), or a final answer through verification; tool calls go to \<^verbatim>\<open>core/tooling.py\<close> and
  delegations to the workflow of child runs (\<^verbatim>\<open>multi_agent.py\<close>). Before every command the session
  (\<^verbatim>\<open>core/session.py\<close>) journals it, and checkpoints (\<^verbatim>\<open>core/checkpoint.py\<close>) let an interrupted run go on.
  Conversations (\<^verbatim>\<open>core/session_store.py\<close>, \<^verbatim>\<open>core/session_engine.py\<close>) string runs together, the evidence ledger
  (\<^verbatim>\<open>core/ledger.py\<close>) keeps the results of suites, evaluation cases judge runs (\<^verbatim>\<open>evals/case.py\<close>,
  \<^verbatim>\<open>evals/assertions.py\<close>), every event of a run is recorded (\<^verbatim>\<open>trace/recorder.py\<close>) and shown in a transcript
  (\<^verbatim>\<open>trace/transcript.py\<close>), and recorded runs can be replayed (\<^verbatim>\<open>trace/replay.py\<close>).

  \<^bold>\<open>The theories.\<close> Definitions have the names of the Python functions, methods and classes; a leading
  underscore is dropped, and a name that clashes with the library gets a suffix or a prefix.

  \<^item> \<^verbatim>\<open>Prelude\<close>, \<^verbatim>\<open>PyFloat\<close>, \<^verbatim>\<open>Json\<close>, \<^verbatim>\<open>Regex\<close>, \<^verbatim>\<open>Files\<close>: the Python the program is written in. Text and dicts, results
    with the exceptions as a datatype, binary64 floats, \<^verbatim>\<open>json.loads\<close> and \<^verbatim>\<open>json.dumps\<close> with the round trip
    between them, backtracking regular expressions with a relational meaning, and directory trees.
  \<^item> \<^verbatim>\<open>Protocol\<close>: the actions and \<^verbatim>\<open>parse_action\<close>. An action that parses is well formed; a well-formed one is
    read back from its own text; the failures are protocol errors; delegations are acyclic.
  \<^item> \<^verbatim>\<open>State\<close>: \<^verbatim>\<open>RunState\<close>, \<^verbatim>\<open>TrajectoryStep\<close> and \<^verbatim>\<open>Observation\<close> as records, with saving and loading as a round trip.
  \<^item> \<^verbatim>\<open>Policy\<close>: the policies as functions of action and state, and their chain. Every policy, and with them the
    chain, keeps the contract of the locale \<^verbatim>\<open>policy_contract\<close>.
  \<^item> \<^verbatim>\<open>Runtime\<close>: capability profiles and the write lease. The operations of the lease are an inductive
    relation of histories; the locale \<^verbatim>\<open>write_lease\<close> shows that epochs fence off former owners.
  \<^item> \<^verbatim>\<open>Sandbox\<close>, \<^verbatim>\<open>Session\<close>, \<^verbatim>\<open>Handler\<close>: executors (locale \<^verbatim>\<open>bash_executor\<close>, interpreted by the local, the Docker and
    the disabled one), the journal and the approvals, and the handler of actions (\<^verbatim>\<open>guarded_handler\<close>): a
    command is executed only when the policies and the approval let it through, after it was journaled,
    within its budget, and a run completes only when its verification did.
  \<^item> \<^verbatim>\<open>Skills\<close>, \<^verbatim>\<open>Memory\<close>, \<^verbatim>\<open>Guidance\<close>, \<^verbatim>\<open>Feedback\<close>, \<^verbatim>\<open>LongTerm\<close>: what goes into the prompt. The store of memories is a
    record of tables with its index; the search refines a specification over the rows, and the end of a
    turn keeps the invariant of the store on every path, failures of the model or the database included.
  \<^item> \<^verbatim>\<open>Compaction\<close>, \<^verbatim>\<open>Context\<close>: shortening of the history and the layouts of the prompt. State and failures are
    threaded through a monad of the prompt's own; preparing a prompt changes nothing but the bookkeeping of
    the context, compaction moves its boundary on, and a prompt extends the one before.
  \<^item> \<^verbatim>\<open>Tooling\<close>: the file tools, confined to the workspace, and the scheduling of tool calls. The threads of a
    group are the step relation \<^verbatim>\<open>pool_step\<close>; the locale \<^verbatim>\<open>tool_scheduling\<close>, over \<^verbatim>\<open>tool_contract\<close>, shows that no
    interleaving of the reads changes their results.
  \<^item> \<^verbatim>\<open>Workflow\<close>: delegations and the coordinator. In the locale \<^verbatim>\<open>child_workflow\<close> children start after their
    dependencies, at most one of them writes, and every workflow completes.
  \<^item> \<^verbatim>\<open>Provider\<close>, \<^verbatim>\<open>Turns\<close>: requests, retry policies, the accounting of tokens, and the three sources of turns
    (locale \<^verbatim>\<open>turn_provider\<close>: direct, with retries, with failover). A turn is counted once, and retries are
    bounded by the policy.
  \<^item> \<^verbatim>\<open>Checkpoint\<close>: writing and restoring. A checkpoint just made is restored; one that is damaged or does
    not fit the run or its workspace is refused.
  \<^item> \<^verbatim>\<open>Loop\<close>: the whole run, composed of the above. A run ends and is settled when it ends.
  \<^item> \<^verbatim>\<open>Sessions\<close>: conversations. The transcript is an append-only log (locale \<^verbatim>\<open>append_log\<close>).
  \<^item> \<^verbatim>\<open>Ledger\<close>: suites are written as a whole or not at all; a cleanup removes only what nothing refers to.
  \<^item> \<^verbatim>\<open>Workspace\<close>: the snapshot has no forbidden path outside its own repository; the digest identifies the
    audited files.
  \<^item> \<^verbatim>\<open>Evals\<close>: cases and assertions. Trimmed evidence is judged like the whole trace.
  \<^item> \<^verbatim>\<open>Replay\<close>: bundles and replays. Packing and replaying stay inside their directories, and a replay that
    passes has explained every recorded action.
  \<^item> \<^verbatim>\<open>Recorder\<close>, \<^verbatim>\<open>Transcript\<close>: the trace is again an append-only log (\<^verbatim>\<open>append_log\<close>), and the replay reads back what
    recorders wrote, numbered on; what the transcript shows of actions and observations holds no secret.

  A Python dict is an association list in insertion order (locale \<^verbatim>\<open>py_dict\<close>), as its order is printed; the
  state of a run is the record \<^verbatim>\<open>run_state\<close>, the files and processes a run sees are the record \<^verbatim>\<open>world\<close> or a
  \<^verbatim>\<open>tree\<close> of paths, and every operation returns the state it leaves also when it raises. An exception is
  the \<^verbatim>\<open>Inl\<close> of a sum.

  \<^bold>\<open>Loops and fuel.\<close> Recursion that Python bounds by its data is structural or has a measure. The scanner of
  \<^verbatim>\<open>json.loads\<close> gets the length of the text as fuel, which it is proved never to use up; the visit of a
  delegation's graph gets one more than there are tasks; the search of regular expressions one step per
  character; copying a project over links that lead into each other stops with an error when its
  fuel is used up, as the operating system does at its own limit. The loop of a run, the loop of retries and the
  loop of approvals are partial functions to an option, and that they return is a theorem of each.

  \<^bold>\<open>What stands outside.\<close> Arguments of the definitions stand for what the program only calls: SHA-256, the
  clock and random numbers, processes and Docker, HTTP, Git and \<^verbatim>\<open>tar\<close>, the SQLite ranking, \<^verbatim>\<open>difflib\<close>,
  YAML, the listing of directories and the resolution of paths and links. Hypotheses on them are named in the
  theorems that need them. Text is limited to the code points below 256, so labels in Chinese are arguments
  or left out; the host is a POSIX system.

  \<^bold>\<open>Not modelled.\<close> The command line (\<^verbatim>\<open>cli.py\<close>) and the HTTP server (\<^verbatim>\<open>server/\<close>) are front ends of the parts above.
  The configuration (\<^verbatim>\<open>config.py\<close>) is constants and the reading of YAML; what steers the code is an argument.
  The reviewer (\<^verbatim>\<open>meta/reviewer.py\<close>), the runners of evaluations and the experiments with the cache, the memory, the
  guidance and the compaction (\<^verbatim>\<open>evals/\<close>) run the program from outside and tabulate figures. Project
  discovery (\<^verbatim>\<open>core/discovery.py\<close>, \<^verbatim>\<open>core/project_context.py\<close>) and the catalogue of runs (\<^verbatim>\<open>core/run_catalog.py\<close>)
  only read; the first are arguments of the prompt. The texts under \<^verbatim>\<open>prompts/\<close> are constants, modelled
  where their form matters. Within modelled parts the exceptions are named in their theories: the
  SQL of schema changes, the Windows branches, the Markdown of the run report and the streaming of
  subprocess children.
\<close>

end
